(* ===== verification/Js_Prelude.thy ===== *)
theory Js_Prelude
  imports Main "HOL-Library.Monad_Syntax" "HOL-Library.AList"
begin

text \<open>
  The JavaScript fragment the panel's front-end code is written in.

  A JavaScript value is a \<open>jsval\<close>; an object is the list of its own properties in
  enumeration order. A throwing expression (a property read on \<open>undefined\<close> or
  \<open>null\<close>, a call of a method the value does not have) is the result \<open>None\<close>.
  Numbers are integers: every number of the modelled configuration objects is a count,
  a port, a size or a time stamp. Strings are lists of characters, and case conversion
  is the one of the ASCII letters.

  The theory holds the operators the code uses (truthiness, \<open>||\<close>, \<open>??\<close>, default
  parameters, property read and write, \<open>in\<close>, \<open>join\<close>, \<open>split\<close>, \<open>String\<close>,
  \<open>Number\<close>), the effect \<open>wire\<close> of writing a value as JSON text and reading it
  back, and the rewrite rules every component uses.
\<close>

named_theorems js_simps \<open>rewrite rules of the JavaScript operators\<close>

text \<open>A property of finitely many numbers, by evaluation.\<close>

lemma below_all: "list_all P [0..<n] \<Longrightarrow> i < n \<Longrightarrow> P i"
  by (simp add: list_all_iff)

section \<open>Values\<close>

datatype jsval =
    JUndef
  | JNull
  | JBool bool
  | JNum int
  | JStr string
  | JArr "jsval list"
  | JObj "(string \<times> jsval) list"

type_synonym props = "(string \<times> jsval) list"

abbreviation emptyObj :: jsval where
  "emptyObj \<equiv> JObj []"

fun truthy :: "jsval \<Rightarrow> bool" where
  "truthy JUndef = False"
| "truthy JNull = False"
| "truthy (JBool b) = b"
| "truthy (JNum n) = (n \<noteq> 0)"
| "truthy (JStr s) = (s \<noteq> [])"
| "truthy (JArr xs) = True"
| "truthy (JObj ps) = True"

text \<open>\<open>v == null\<close>, \<open>a || b\<close>, \<open>a ?? b\<close> and the default \<open>d\<close> of a parameter that was
  passed \<open>v\<close>.\<close>

definition nullish :: "jsval \<Rightarrow> bool" where
  "nullish v \<longleftrightarrow> v = JUndef \<or> v = JNull"

definition js_or :: "jsval \<Rightarrow> jsval \<Rightarrow> jsval" where
  "js_or a b = (if truthy a then a else b)"

definition js_coalesce :: "jsval \<Rightarrow> jsval \<Rightarrow> jsval" where
  "js_coalesce a b = (if nullish a then b else a)"

definition dflt :: "jsval \<Rightarrow> jsval \<Rightarrow> jsval" where
  "dflt d v = (if v = JUndef then d else v)"

fun is_array :: "jsval \<Rightarrow> bool" where
  "is_array (JArr xs) = True"
| "is_array _ = False"

fun is_string :: "jsval \<Rightarrow> bool" where
  "is_string (JStr s) = True"
| "is_string _ = False"

section \<open>Decimal numerals\<close>

definition digit_char :: "nat \<Rightarrow> char" where
  "digit_char d = char_of (48 + d)"

definition is_digit :: "char \<Rightarrow> bool" where
  "is_digit c \<longleftrightarrow> 48 \<le> (of_char c :: nat) \<and> (of_char c :: nat) \<le> 57"

definition digit_val :: "char \<Rightarrow> nat" where
  "digit_val c = of_char c - 48"

fun nat_str :: "nat \<Rightarrow> string" where
  "nat_str n = (if n < 10 then [digit_char n] else nat_str (n div 10) @ [digit_char (n mod 10)])"

declare nat_str.simps [simp del]

definition int_str :: "int \<Rightarrow> string" where
  "int_str i = (if i < 0 then CHR ''-'' # nat_str (nat (- i)) else nat_str (nat i))"

definition nat_of_digits :: "string \<Rightarrow> nat" where
  "nat_of_digits s = foldl (\<lambda>acc c. 10 * acc + digit_val c) 0 s"

lemma digit_val_digit_char: "d < 10 \<Longrightarrow> digit_val (digit_char d) = d"
  by (simp add: digit_val_def digit_char_def)

lemma is_digit_digit_char: "d < 10 \<Longrightarrow> is_digit (digit_char d)"
  by (simp add: is_digit_def digit_char_def)

lemma nat_of_digits_snoc: "nat_of_digits (s @ [c]) = 10 * nat_of_digits s + digit_val c"
  by (simp add: nat_of_digits_def)

lemma nat_of_digits_nat_str: "nat_of_digits (nat_str n) = n"
proof (induction n rule: nat_str.induct)
  case (1 n)
  show ?case
  proof (cases "n < 10")
    case True
    then show ?thesis
      by (simp add: nat_str.simps [of n] nat_of_digits_def digit_val_digit_char)
  next
    case False
    with "1" have "nat_of_digits (nat_str (n div 10)) = n div 10" by simp
    with False show ?thesis
      by (simp add: nat_str.simps [of n] nat_of_digits_snoc digit_val_digit_char)
  qed
qed

lemma nat_str_digits: "\<forall>c \<in> set (nat_str n). is_digit c"
proof (induction n rule: nat_str.induct)
  case (1 n)
  then show ?case
    by (cases "n < 10") (auto simp: nat_str.simps [of n] is_digit_digit_char)
qed

lemma nat_str_nonempty: "nat_str n \<noteq> []"
  by (simp add: nat_str.simps [of n])

section \<open>Strings\<close>

definition lower_char :: "char \<Rightarrow> char" where
  "lower_char c = (let n = (of_char c :: nat) in if 65 \<le> n \<and> n \<le> 90 then char_of (n + 32) else c)"

definition js_lower :: "string \<Rightarrow> string" where
  "js_lower s = map lower_char s"

fun js_join :: "string \<Rightarrow> string list \<Rightarrow> string" where
  "js_join sep [] = []"
| "js_join sep [s] = s"
| "js_join sep (s # t # ss) = s @ sep @ js_join sep (t # ss)"

text \<open>\<open>s.split(c)\<close> for a separator of one character.\<close>

fun js_split :: "char \<Rightarrow> string \<Rightarrow> string list" where
  "js_split c [] = [[]]"
| "js_split c (x # xs) =
     (if x = c then [] # js_split c xs
      else (case js_split c xs of [] \<Rightarrow> [[x]] | s # ss \<Rightarrow> (x # s) # ss))"

lemma js_split_nonempty: "js_split c s \<noteq> []"
  by (induction s) (auto split: list.split)

lemma js_join_split: "js_join [c] (js_split c s) = s"
proof (induction s)
  case Nil
  then show ?case by simp
next
  case (Cons x xs)
  obtain t ts where t: "js_split c xs = t # ts"
    using js_split_nonempty by (meson neq_Nil_conv)
  with Cons.IH show ?case by (cases ts) auto
qed

lemma js_split_no_sep: "c \<notin> set s \<Longrightarrow> js_split c s = [s]"
  by (induction s) auto

lemma js_split_append:
  "c \<notin> set s \<Longrightarrow> js_split c (s @ c # t) = s # js_split c t"
  by (induction s) auto

lemma js_split_join:
  "ss \<noteq> [] \<Longrightarrow> \<forall>s \<in> set ss. c \<notin> set s \<Longrightarrow> js_split c (js_join [c] ss) = ss"
  by (induction "[c]" ss rule: js_join.induct) (auto simp: js_split_no_sep js_split_append)

lemma js_split_free: "s \<in> set (js_split c t) \<Longrightarrow> c \<notin> set s"
  by (induction t arbitrary: s) (auto split: if_splits list.splits)

fun starts_with :: "string \<Rightarrow> string \<Rightarrow> bool" where
  "starts_with s [] = True"
| "starts_with [] (p # ps) = False"
| "starts_with (c # cs) (p # ps) = (c = p \<and> starts_with cs ps)"

lemma starts_with_append: "starts_with (s @ t) s"
  by (induction s) auto

lemma starts_with_take: "starts_with s t \<longleftrightarrow> take (length t) s = t"
  by (induction s t rule: starts_with.induct) auto

fun str_index :: "char \<Rightarrow> string \<Rightarrow> nat option" where
  "str_index c [] = None"
| "str_index c (x # xs) = (if x = c then Some 0 else map_option Suc (str_index c xs))"

fun str_includes :: "string \<Rightarrow> string \<Rightarrow> bool" where
  "str_includes [] p = (p = [])"
| "str_includes (c # cs) p = (starts_with (c # cs) p \<or> str_includes cs p)"

definition is_space :: "char \<Rightarrow> bool" where
  "is_space c \<longleftrightarrow> (of_char c :: nat) \<in> {9, 10, 11, 12, 13, 32}"

definition js_trim :: "string \<Rightarrow> string" where
  "js_trim s = rev (dropWhile is_space (rev (dropWhile is_space s)))"

text \<open>\<open>String(v)\<close>, also the conversion of a property key; \<open>join\<close> of an array prints
  \<open>null\<close> and \<open>undefined\<close> elements as the empty string.\<close>

fun js_str :: "jsval \<Rightarrow> string" where
  "js_str JUndef = ''undefined''"
| "js_str JNull = ''null''"
| "js_str (JBool b) = (if b then ''true'' else ''false'')"
| "js_str (JNum n) = int_str n"
| "js_str (JStr s) = s"
| "js_str (JArr xs) = js_join '','' (map (\<lambda>v. if v = JUndef \<or> v = JNull then [] else js_str v) xs)"
| "js_str (JObj ps) = ''[object Object]''"

definition arr_join :: "string \<Rightarrow> jsval list \<Rightarrow> string" where
  "arr_join sep xs = js_join sep (map (\<lambda>v. if nullish v then [] else js_str v) xs)"

lemma arr_join_strings: "arr_join sep (map JStr ss) = js_join sep ss"
  by (simp add: arr_join_def nullish_def comp_def)

text \<open>\<open>Number(v)\<close>, with \<open>None\<close> for \<open>NaN\<close>; of the numeric strings, the decimal
  integers are read.\<close>

fun js_number :: "jsval \<Rightarrow> int option" where
  "js_number JUndef = None"
| "js_number JNull = Some 0"
| "js_number (JBool b) = Some (if b then 1 else 0)"
| "js_number (JNum n) = Some n"
| "js_number (JStr s) =
     (case js_trim s of
        [] \<Rightarrow> Some 0
      | c # cs \<Rightarrow>
          if c = CHR ''-'' \<and> cs \<noteq> [] \<and> list_all is_digit cs then Some (- int (nat_of_digits cs))
          else if c = CHR ''+'' \<and> cs \<noteq> [] \<and> list_all is_digit cs then Some (int (nat_of_digits cs))
          else if list_all is_digit (c # cs) then Some (int (nat_of_digits (c # cs)))
          else None)"
| "js_number (JArr xs) =
     (case js_trim (js_str (JArr xs)) of
        [] \<Rightarrow> Some 0
      | s \<Rightarrow> if list_all is_digit s then Some (int (nat_of_digits s)) else None)"
| "js_number (JObj ps) = None"

text \<open>\<open>v == s\<close> for a text that is no numeral: an array compares as its text.\<close>

fun loosely :: "jsval \<Rightarrow> string \<Rightarrow> bool" where
  "loosely (JStr t) s = (t = s)"
| "loosely (JArr xs) s = (js_str (JArr xs) = s)"
| "loosely _ s = False"

definition gt0 :: "jsval \<Rightarrow> bool" where
  "gt0 v \<longleftrightarrow> (case js_number v of None \<Rightarrow> False | Some n \<Rightarrow> 0 < n)"

lemma gt0_simps [simp]: "gt0 (JNum n) = (0 < n)" "\<not> gt0 JUndef" "\<not> gt0 JNull"
  by (simp_all add: gt0_def)

section \<open>Objects\<close>

text \<open>Reading an own property; a property the object lacks reads as \<open>undefined\<close>.\<close>

definition oget :: "props \<Rightarrow> string \<Rightarrow> jsval" where
  "oget ps k = (case map_of ps k of None \<Rightarrow> JUndef | Some v \<Rightarrow> v)"

lemma oget_Nil [simp]: "oget [] k = JUndef"
  by (simp add: oget_def)

lemma oget_Cons [simp]: "oget ((a, v) # ps) k = (if a = k then v else oget ps k)"
  by (simp add: oget_def)

lemma oget_not_in: "k \<notin> fst ` set ps \<Longrightarrow> oget ps k = JUndef"
  by (induction ps) auto

lemma oget_in: "k \<in> fst ` set ps \<Longrightarrow> (k, oget ps k) \<in> set ps"
  by (auto simp: oget_def split: option.splits dest: map_of_SomeD weak_map_of_SomeI)

text \<open>\<open>members v\<close> is the reader \<open>k \<mapsto> v.k\<close>, or \<open>None\<close> where reading throws.\<close>

fun members :: "jsval \<Rightarrow> (string \<Rightarrow> jsval) option" where
  "members JUndef = None"
| "members JNull = None"
| "members (JObj ps) = Some (oget ps)"
| "members (JArr xs) = Some (\<lambda>k. if k = ''length'' then JNum (int (length xs)) else JUndef)"
| "members (JStr s) = Some (\<lambda>k. if k = ''length'' then JNum (int (length s)) else JUndef)"
| "members _ = Some (\<lambda>k. JUndef)"

text \<open>Keys that are array indices are enumerated first, in ascending order; the others in
  the order they were added.\<close>

definition is_index :: "string \<Rightarrow> bool" where
  "is_index k \<longleftrightarrow> k \<noteq> [] \<and> list_all is_digit k \<and> (k = ''0'' \<or> hd k \<noteq> CHR ''0'')
     \<and> nat_of_digits k < 4294967295"

fun ins_index :: "string \<Rightarrow> jsval \<Rightarrow> props \<Rightarrow> props" where
  "ins_index k v [] = [(k, v)]"
| "ins_index k v ((a, w) # ps) =
     (if is_index a \<and> nat_of_digits a \<le> nat_of_digits k then (a, w) # ins_index k v ps
      else (k, v) # (a, w) # ps)"

definition obj_put :: "props \<Rightarrow> string \<Rightarrow> jsval \<Rightarrow> props" where
  "obj_put ps k v =
     (if k \<in> fst ` set ps then AList.update k v ps
      else if is_index k then ins_index k v ps
      else ps @ [(k, v)])"

definition obj_del :: "props \<Rightarrow> string \<Rightarrow> props" where
  "obj_del ps k = filter (\<lambda>(a, v). a \<noteq> k) ps"

text \<open>The enumeration order as a relation on keys, and the objects that respect it.\<close>

definition key_before :: "string \<Rightarrow> string \<Rightarrow> bool" where
  "key_before a b \<longleftrightarrow> a \<noteq> b \<and> (is_index b \<longrightarrow> is_index a \<and> nat_of_digits a \<le> nat_of_digits b)"

definition obj_ordered :: "props \<Rightarrow> bool" where
  "obj_ordered ps \<longleftrightarrow> sorted_wrt key_before (map fst ps)"

lemma map_of_ins_index:
  "k \<notin> fst ` set ps \<Longrightarrow> map_of (ins_index k v ps) = (map_of ps)(k \<mapsto> v)"
  by (induction k v ps rule: ins_index.induct) (auto simp: fun_eq_iff)

lemma map_of_snoc:
  "k \<notin> fst ` set ps \<Longrightarrow> map_of (ps @ [(k, v)]) = (map_of ps)(k \<mapsto> v)"
  by (induction ps) (auto simp: fun_eq_iff)

lemma map_of_obj_put: "map_of (obj_put ps k v) = (map_of ps)(k \<mapsto> v)"
  by (simp add: obj_put_def update_conv' map_of_ins_index map_of_snoc del: map_of_append)

lemma oget_obj_put: "oget (obj_put ps k v) a = (if a = k then v else oget ps a)"
  by (simp add: oget_def map_of_obj_put)

lemma map_of_obj_del: "map_of (obj_del ps k) = (map_of ps)(k := None)"
  by (induction ps) (auto simp: obj_del_def fun_eq_iff)

lemma keys_ins_index: "fst ` set (ins_index k v ps) = insert k (fst ` set ps)"
  by (induction k v ps rule: ins_index.induct) auto

lemma keys_obj_put: "fst ` set (obj_put ps k v) = insert k (fst ` set ps)"
  by (auto simp: obj_put_def keys_ins_index dom_update [unfolded dom_map_of_conv_image_fst])

lemma obj_ordered_distinct: "obj_ordered ps \<Longrightarrow> distinct (map fst ps)"
  unfolding obj_ordered_def
  by (induction ps) (auto simp: key_before_def)

lemma map_fst_update:
  "k \<in> fst ` set ps \<Longrightarrow> map fst (AList.update k v ps) = map fst ps"
  by (induction ps) auto

lemma ins_index_ordered:
  "\<lbrakk>is_index k; k \<notin> fst ` set ps; obj_ordered ps\<rbrakk> \<Longrightarrow> obj_ordered (ins_index k v ps)"
proof (induction k v ps rule: ins_index.induct)
  case (1 k v)
  then show ?case by (simp add: obj_ordered_def)
next
  case (2 k v a w ps)
  show ?case
  proof (cases "is_index a \<and> nat_of_digits a \<le> nat_of_digits k")
    case True
    with "2" have IH: "obj_ordered (ins_index k v ps)" by (simp add: obj_ordered_def)
    have "\<forall>b \<in> fst ` set (ins_index k v ps). key_before a b"
      using "2.prems" True by (auto simp: keys_ins_index obj_ordered_def key_before_def)
    with IH True show ?thesis by (simp add: obj_ordered_def)
  next
    case False
    with "2.prems" show ?thesis
      by (fastforce simp: obj_ordered_def key_before_def)
  qed
qed

lemma obj_put_ordered: "obj_ordered ps \<Longrightarrow> obj_ordered (obj_put ps k v)"
  using ins_index_ordered [of k ps v]
  by (auto simp: obj_put_def obj_ordered_def map_fst_update sorted_wrt_append key_before_def)

lemma ins_index_last:
  "\<forall>a \<in> fst ` set ps. is_index a \<and> nat_of_digits a \<le> nat_of_digits k \<Longrightarrow>
   ins_index k v ps = ps @ [(k, v)]"
  by (induction k v ps rule: ins_index.induct) auto

lemma obj_put_last:
  assumes "obj_ordered (ps @ [(k, w)])"
  shows "obj_put ps k v = ps @ [(k, v)]"
proof -
  have before: "\<forall>a \<in> fst ` set ps. key_before a k"
    using assms by (auto simp: obj_ordered_def sorted_wrt_append)
  then have "k \<notin> fst ` set ps"
    by (auto simp: key_before_def)
  with before show ?thesis
    by (auto simp: obj_put_def key_before_def intro!: ins_index_last)
qed

lemma obj_put_update_last: "k \<notin> fst ` set ps \<Longrightarrow> obj_put (ps @ [(k, v)]) k w = ps @ [(k, w)]"
  by (induction ps) (auto simp: obj_put_def)

text \<open>The names every object answers \<open>in\<close> for, through its prototype.\<close>

definition prototype_names :: "string list" where
  "prototype_names =
     [''constructor'', ''__defineGetter__'', ''__defineSetter__'', ''hasOwnProperty'',
      ''__lookupGetter__'', ''__lookupSetter__'', ''isPrototypeOf'', ''propertyIsEnumerable'',
      ''toString'', ''valueOf'', ''__proto__'', ''toLocaleString'']"

definition js_in :: "string \<Rightarrow> props \<Rightarrow> bool" where
  "js_in k ps \<longleftrightarrow> k \<in> fst ` set ps \<or> k \<in> set prototype_names"

text \<open>\<open>o[k] = v\<close>: an assignment to \<open>__proto__\<close> creates no property.\<close>

definition js_put :: "props \<Rightarrow> string \<Rightarrow> jsval \<Rightarrow> props" where
  "js_put ps k v = (if k = ''__proto__'' then ps else obj_put ps k v)"

section \<open>Arrays\<close>

text \<open>\<open>a.splice(index, 1)\<close>: a negative index counts from the end, and an index past the
  end removes nothing.\<close>

definition splice1 :: "int \<Rightarrow> 'a list \<Rightarrow> 'a list" where
  "splice1 index xs =
     (let n = int (length xs);
          i = nat (if index < 0 then max 0 (n + index) else index)
      in take i xs @ drop (Suc i) xs)"

lemma splice1_length:
  "0 \<le> i \<Longrightarrow> i < int (length xs) \<Longrightarrow> length (splice1 i xs) = length xs - 1"
  by (auto simp: splice1_def Let_def)

lemma set_splice1: "set (splice1 i xs) \<subseteq> set xs"
  by (auto simp: splice1_def Let_def dest: in_set_takeD in_set_dropD)

section \<open>Fallible traversal\<close>

fun traverse :: "('a \<Rightarrow> 'b option) \<Rightarrow> 'a list \<Rightarrow> 'b list option" where
  "traverse f [] = Some []"
| "traverse f (x # xs) =
     do { y \<leftarrow> f x; ys \<leftarrow> traverse f xs; Some (y # ys) }"

lemma traverse_Some_Cons:
  "traverse f (x # xs) = Some zs \<longleftrightarrow>
   (\<exists>y ys. f x = Some y \<and> traverse f xs = Some ys \<and> zs = y # ys)"
  by (auto simp: bind_eq_Some_conv)

lemma traverse_id: "\<forall>x \<in> set xs. f (g x) = Some x \<Longrightarrow> traverse f (map g xs) = Some xs"
  by (induction xs) auto

lemma traverse_total: "traverse (\<lambda>x. Some (f x)) xs = Some (map f xs)"
  by (induction xs) auto

lemma traverse_length: "traverse f xs = Some ys \<Longrightarrow> length ys = length xs"
  by (induction xs arbitrary: ys) (auto simp: bind_eq_Some_conv)

lemma traverse_all:
  "\<lbrakk>traverse f xs = Some ys; \<And>x y. x \<in> set xs \<Longrightarrow> f x = Some y \<Longrightarrow> P y\<rbrakk> \<Longrightarrow> \<forall>y \<in> set ys. P y"
proof (induction xs arbitrary: ys)
  case Nil
  then show ?case by simp
next
  case (Cons x xs)
  then obtain y zs where "f x = Some y" "traverse f xs = Some zs" "ys = y # zs"
    by (auto simp: bind_eq_Some_conv)
  with Cons show ?case by auto
qed

text \<open>The elements \<open>.map\<close> visits: a call on a value that is no array throws.\<close>

fun as_array :: "jsval \<Rightarrow> jsval list option" where
  "as_array (JArr xs) = Some xs"
| "as_array _ = None"

section \<open>JSON text and back\<close>

text \<open>
  \<open>wire v\<close> is \<open>JSON.parse(JSON.stringify(v))\<close>: a property that is \<open>undefined\<close> is not
  written, an \<open>undefined\<close> array element is written as \<open>null\<close>.
\<close>

fun wire :: "jsval \<Rightarrow> jsval"
  and wire_items :: "jsval list \<Rightarrow> jsval list"
  and wire_props :: "props \<Rightarrow> props" where
  "wire JUndef = JUndef"
| "wire JNull = JNull"
| "wire (JBool b) = JBool b"
| "wire (JNum n) = JNum n"
| "wire (JStr s) = JStr s"
| "wire (JArr xs) = JArr (wire_items xs)"
| "wire (JObj ps) = JObj (wire_props ps)"
| "wire_items [] = []"
| "wire_items (x # xs) = (if x = JUndef then JNull else wire x) # wire_items xs"
| "wire_props [] = []"
| "wire_props ((k, v) # ps) =
     (if v = JUndef then wire_props ps else (k, wire v) # wire_props ps)"

text \<open>The values JSON text can denote.\<close>

fun json_ok :: "jsval \<Rightarrow> bool" where
  "json_ok JUndef = False"
| "json_ok (JArr xs) = (\<forall>x \<in> set xs. json_ok x)"
| "json_ok (JObj ps) = (distinct (map fst ps) \<and> (\<forall>p \<in> set ps. json_ok (snd p)))"
| "json_ok _ = True"

definition clean :: "jsval \<Rightarrow> bool" where
  "clean v \<longleftrightarrow> v = JUndef \<or> json_ok v"

lemma clean_simps [simp]:
  "clean JUndef" "clean JNull" "clean (JBool b)" "clean (JNum n)" "clean (JStr s)"
  "clean (JArr xs) = json_ok (JArr xs)" "clean (JObj ps) = json_ok (JObj ps)"
  by (simp_all add: clean_def)

lemma clean_json_ok: "json_ok v \<Longrightarrow> clean v"
  by (simp add: clean_def)

lemma json_ok_clean: "\<lbrakk>clean v; v \<noteq> JUndef\<rbrakk> \<Longrightarrow> json_ok v"
  by (simp add: clean_def)

lemma json_ok_not_undef [simp]: "json_ok v \<Longrightarrow> v \<noteq> JUndef" "json_ok v \<Longrightarrow> JUndef \<noteq> v"
  by auto

lemma wire_json_ok_all:
  "json_ok v \<Longrightarrow> wire v = v"
  "\<forall>x \<in> set xs. json_ok x \<Longrightarrow> wire_items xs = xs"
  "\<forall>p \<in> set ps. json_ok (snd p) \<Longrightarrow> wire_props ps = ps"
  by (induction v and xs and ps rule: wire_wire_items_wire_props.induct) auto

lemma wire_json_ok [simp]: "json_ok v \<Longrightarrow> wire v = v"
  by (rule wire_json_ok_all)

lemma wire_eq_undef [simp]: "wire v = JUndef \<longleftrightarrow> v = JUndef"
  by (cases v) auto

lemma wire_items_map: "wire_items xs = map (\<lambda>x. if x = JUndef then JNull else wire x) xs"
  by (induction xs) auto

lemma wire_idem_all:
  "wire (wire v) = wire v"
  "wire_items (wire_items xs) = wire_items xs"
  "wire_props (wire_props ps) = wire_props ps"
  by (induction v and xs and ps rule: wire_wire_items_wire_props.induct) auto

lemma wire_idem: "wire (wire v) = wire v"
  by (rule wire_idem_all)

lemma dflt_ok [simp]: "json_ok v \<Longrightarrow> dflt d v = v"
  by (auto simp: dflt_def)

lemma dflt_undef [simp]: "dflt d JUndef = d"
  by (simp add: dflt_def)

lemma json_ok_dflt: "json_ok d \<Longrightarrow> clean v \<Longrightarrow> json_ok (dflt d v)"
  unfolding dflt_def clean_def by auto

lemma json_ok_js_or: "json_ok d \<Longrightarrow> clean v \<Longrightarrow> json_ok (js_or v d)"
  by (auto simp: js_or_def clean_def)

lemma json_ok_coalesce: "json_ok d \<Longrightarrow> clean v \<Longrightarrow> json_ok (js_coalesce v d)"
  by (auto simp: js_coalesce_def nullish_def clean_def)

lemma clean_oget_all: "\<forall>p \<in> set ps. json_ok (snd p) \<Longrightarrow> clean (oget ps k)"
proof (cases "map_of ps k")
  case None
  then show ?thesis by (simp add: oget_def)
next
  case (Some v)
  moreover assume "\<forall>p \<in> set ps. json_ok (snd p)"
  ultimately have "json_ok v" using map_of_SomeD [OF Some] by auto
  with Some show ?thesis by (simp add: oget_def clean_json_ok)
qed

lemma clean_oget: "json_ok (JObj ps) \<Longrightarrow> clean (oget ps k)"
  by (rule clean_oget_all) simp

lemma clean_members: "clean v \<Longrightarrow> members v = Some p \<Longrightarrow> clean (p k)"
  by (cases v) (auto simp: clean_oget_all)

lemma clean_default_members:
  "clean v \<Longrightarrow> json_ok d \<Longrightarrow> members (dflt d v) = Some p \<Longrightarrow> clean (p k)"
  by (metis clean_json_ok clean_members json_ok_dflt)

lemma clean_member: "\<lbrakk>members (dflt emptyObj v) = Some p; clean v\<rbrakk> \<Longrightarrow> clean (p k)"
  by (rule clean_default_members) simp_all

lemma members_default_obj [simp]: "members (dflt d (JObj ps)) = Some (oget ps)"
  by (simp add: dflt_def)

subsection \<open>Members that may be absent\<close>

lemma keys_wire_props: "(k, v) \<in> set (wire_props ps) \<Longrightarrow> k \<in> fst ` set ps"
  by (induction ps) (auto split: if_splits)

lemma oget_wire_props:
  "distinct (map fst ps) \<Longrightarrow> oget (wire_props ps) k = wire (oget ps k)"
proof (induction ps)
  case Nil
  then show ?case by simp
next
  case (Cons p ps)
  moreover obtain a v where "p = (a, v)" by force
  ultimately show ?case
    using keys_wire_props [of k _ ps] by (cases "k = a") (auto simp: oget_not_in)
qed

lemma members_wire:
  "distinct (map fst ps) \<Longrightarrow> members (dflt d (wire (JObj ps))) = Some (\<lambda>k. wire (oget ps k))"
  by (simp add: dflt_def fun_eq_iff oget_wire_props)

lemma wire_clean: "clean v \<Longrightarrow> wire v = v"
  by (auto simp: clean_def)

lemma dflt_obj: "dflt d (JObj ps) = JObj ps"
  by (simp add: dflt_def)

text \<open>\<open>v.k\<close> of a value on which reading does not throw.\<close>

definition mget :: "jsval \<Rightarrow> string \<Rightarrow> jsval" where
  "mget v k = (case members v of None \<Rightarrow> JUndef | Some p \<Rightarrow> p k)"

lemma mget_obj [simp]: "mget (JObj ps) k = oget ps k" "mget JUndef k = JUndef"
  by (simp_all add: mget_def)

lemma clean_mget: "clean v \<Longrightarrow> clean (mget v k)"
  by (auto simp: mget_def clean_members split: option.splits)

text \<open>A property that is written under a condition.\<close>

definition prop_if :: "bool \<Rightarrow> string \<Rightarrow> jsval \<Rightarrow> props" where
  "prop_if c k v = (if c then [(k, v)] else [])"

lemma oget_prop_if: "oget (prop_if c a v @ ps) k = (if c \<and> a = k then v else oget ps k)"
  by (simp add: prop_if_def)

lemma oget_prop_if_end: "oget (prop_if c a v) k = (if c \<and> a = k then v else JUndef)"
  by (simp add: prop_if_def)

lemma wire_props_append: "wire_props (ps @ qs) = wire_props ps @ wire_props qs"
  by (induction ps) auto

lemma wire_prop_if: "v \<noteq> JUndef \<Longrightarrow> wire_props (prop_if c k v) = prop_if c k (wire v)"
  by (simp add: prop_if_def)

end
