(* ===== verification/Wireguard.thy ===== *)
theory Wireguard
  imports Js_Prelude "HOL-Library.Word"
begin

text \<open>
  \<open>Wireguard\<close> of \<open>web/assets/js/util/index.js\<close>: the Curve25519 arithmetic the panel makes
  WireGuard keys with. A field element is a list of 16 limbs of 16 bits, little end first,
  kept in doubles by the code; here they are integers, and \<open>Wireguard_Doubles\<close> proves that the
  doubles compute the same. The bit operators act on 32-bit integers. The field is the integers modulo \<open>p25519\<close>; \<open>limbs_val\<close> is the abstraction.
\<close>

unbundle bit_operations_syntax

section \<open>Limbs\<close>

definition p25519 :: int where
  "p25519 = 2 ^ 255 - 19"

definition toInt32 :: "int \<Rightarrow> int" where
  "toInt32 x = signed_take_bit 31 x"

definition gf :: "int list \<Rightarrow> int list" where
  "gf init = take 16 (init @ replicate 16 0)"

definition limbs_val :: "int list \<Rightarrow> int" where
  "limbs_val o16 = (\<Sum>i<16. o16 ! i * 2 ^ (16 * i))"

text \<open>One turn of the carry loop: the part of limb \<open>i\<close> above 16 bits goes to the next limb,
  from the last one to the first times 38.\<close>

definition carry_step :: "nat \<Rightarrow> int list \<Rightarrow> int list" where
  "carry_step i o16 =
     (let c = o16 ! i div 65536;
          o16 = o16[(i + 1) mod 16 := o16 ! ((i + 1) mod 16) + (if i < 15 then 1 else 38) * c]
      in o16[i := o16 ! i AND 65535])"

definition carry :: "int list \<Rightarrow> int list" where
  "carry o16 = fold carry_step [0..<16] o16"

definition cswap_limb :: "int \<Rightarrow> int \<Rightarrow> int \<Rightarrow> int \<times> int" where
  "cswap_limb b p q =
     (let c = toInt32 (NOT (b - 1));
          t = c AND toInt32 (p XOR q)
      in (toInt32 (p XOR t), toInt32 (q XOR t)))"

definition cswap :: "int list \<Rightarrow> int list \<Rightarrow> int \<Rightarrow> int list \<times> int list" where
  "cswap p q b = (let ps = map2 (cswap_limb b) p q in (map fst ps, map snd ps))"

definition add :: "int list \<Rightarrow> int list \<Rightarrow> int list" where
  "add a b = map2 (\<lambda>x y. toInt32 (x + y)) a b"

definition subtract :: "int list \<Rightarrow> int list \<Rightarrow> int list" where
  "subtract a b = map2 (\<lambda>x y. toInt32 (x - y)) a b"

text \<open>The schoolbook product \<open>t\<close> of 31 limbs, folded by \<open>2 ^ 256 = 38\<close>.\<close>

definition product_limb :: "int list \<Rightarrow> int list \<Rightarrow> nat \<Rightarrow> int" where
  "product_limb a b k = sum_list (map (\<lambda>i. if i \<le> k \<and> k - i < 16 then a ! i * b ! (k - i) else 0) [0..<16])"

definition multmod :: "int list \<Rightarrow> int list \<Rightarrow> int list" where
  "multmod a b =
     (let t = map (product_limb a b) [0..<31];
          o16 = map (\<lambda>i. if i < 15 then t ! i + 38 * t ! (i + 16) else t ! i) [0..<16]
      in carry (carry o16))"

fun invert_loop :: "nat \<Rightarrow> int list \<Rightarrow> int list \<Rightarrow> int list" where
  "invert_loop 0 c i = c"
| "invert_loop (Suc a) c i =
     (let c = multmod c c; c = (if a \<noteq> 2 \<and> a \<noteq> 4 then multmod c i else c)
      in invert_loop a c i)"

definition invert :: "int list \<Rightarrow> int list" where
  "invert i = invert_loop 254 i i"

section \<open>What the arithmetic computes\<close>

definition cong_p :: "int \<Rightarrow> int \<Rightarrow> bool" where
  "cong_p x y \<longleftrightarrow> x mod p25519 = y mod p25519"

lemma cong_p_refl [simp]: "cong_p x x"
  by (simp add: cong_p_def)

lemma cong_p_trans [trans]: "\<lbrakk>cong_p x y; cong_p y z\<rbrakk> \<Longrightarrow> cong_p x z"
  by (simp add: cong_p_def)

lemma cong_p_sym: "cong_p x y \<Longrightarrow> cong_p y x"
  by (simp add: cong_p_def)

lemma cong_p_mult: "\<lbrakk>cong_p a b; cong_p c d\<rbrakk> \<Longrightarrow> cong_p (a * c) (b * d)"
  unfolding cong_p_def by (metis mod_mult_cong)

lemma cong_p_shift: "cong_p (x + c * (2 * p25519)) x"
proof -
  have "x + c * (2 * p25519) = x + (2 * c) * p25519" by simp
  then show ?thesis unfolding cong_p_def by (simp only: mod_mult_self1)
qed

lemma two_256: "2 ^ 256 = 38 + 2 * p25519"
  by (simp add: p25519_def)

lemma limbs_val_update:
  assumes "length o16 = 16" "i < 16"
  shows "limbs_val (o16[i := v]) = limbs_val o16 + (v - o16 ! i) * 2 ^ (16 * i)"
proof -
  have "limbs_val (o16[i := v]) = (\<Sum>j<16. o16 ! j * 2 ^ (16 * j) + (if j = i then (v - o16 ! i) * 2 ^ (16 * i) else 0))"
    unfolding limbs_val_def using assms
    by (intro sum.cong) (auto simp: nth_list_update algebra_simps)
  also have "\<dots> = limbs_val o16 + (v - o16 ! i) * 2 ^ (16 * i)"
    using assms by (simp add: sum.distrib limbs_val_def)
  finally show ?thesis .
qed

lemma low_bits: "(x :: int) AND 65535 = x mod 65536"
proof -
  have "(x :: int) AND 65535 = take_bit 16 x"
    by (simp add: take_bit_eq_mask mask_eq_exp_minus_1)
  then show ?thesis by (simp add: take_bit_eq_mod)
qed

lemma carry_step_length [simp]: "length (carry_step i o16) = length o16"
  by (simp add: carry_step_def Let_def)

lemma carry_step_val:
  assumes l: "length o16 = 16" and i: "i < 16"
  shows "cong_p (limbs_val (carry_step i o16)) (limbs_val o16)"
proof -
  let ?c = "o16 ! i div 65536" and ?j = "(i + 1) mod 16"
  let ?f = "if i < 15 then 1 else (38 :: int)"
  have ne: "?j \<noteq> i" using i by (cases "i = 15") auto
  have m: "o16 ! i mod 65536 = o16 ! i - 65536 * ?c" by (simp add: minus_div_mult_eq_mod [symmetric])
  have "limbs_val (carry_step i o16) =
      limbs_val o16 + ?f * ?c * 2 ^ (16 * ?j) - 65536 * ?c * 2 ^ (16 * i)"
    using l i ne by (simp add: carry_step_def Let_def limbs_val_update low_bits m)
  also have "\<dots> = limbs_val o16 + (if i < 15 then 0 else - ?c) * (2 * p25519)"
  proof (cases "i < 15")
    case True
    then have "(2 :: int) ^ (16 * ?j) = 65536 * 2 ^ (16 * i)" by (simp add: power_add)
    with True show ?thesis by simp
  next
    case False
    with i have "i = 15" by simp
    then show ?thesis by (simp add: p25519_def)
  qed
  finally show ?thesis using cong_p_shift by simp
qed

lemma carry_length [simp]: "length (carry o16) = length o16"
proof -
  have "length (fold carry_step xs o16) = length o16" for xs
    by (induction xs arbitrary: o16) auto
  then show ?thesis by (simp add: carry_def)
qed

lemma carry_val: "length o16 = 16 \<Longrightarrow> cong_p (limbs_val (carry o16)) (limbs_val o16)"
proof -
  have "\<lbrakk>length o16 = 16; \<forall>i \<in> set xs. i < 16\<rbrakk> \<Longrightarrow>
      cong_p (limbs_val (fold carry_step xs o16)) (limbs_val o16)" for xs
  proof (induction xs arbitrary: o16)
    case Nil
    then show ?case by simp
  next
    case (Cons i xs)
    then have "cong_p (limbs_val (fold carry_step xs (carry_step i o16))) (limbs_val (carry_step i o16))"
      by simp
    also have "cong_p \<dots> (limbs_val o16)" using Cons.prems by (intro carry_step_val) auto
    finally show ?case by simp
  qed
  then show "length o16 = 16 \<Longrightarrow> cong_p (limbs_val (carry o16)) (limbs_val o16)"
    by (simp add: carry_def)
qed

lemma product_limb_sum:
  "product_limb a b k = (\<Sum>i<16. if i \<le> k \<and> k - i < 16 then a ! i * b ! (k - i) else 0)"
  unfolding product_limb_def by (simp add: interv_sum_list_conv_sum_set_nat atLeast0LessThan)

lemma product_row:
  fixes a b :: "int list"
  assumes "i < 16"
  shows "(\<Sum>k<31. (if i \<le> k \<and> k - i < 16 then a ! i * b ! (k - i) else 0) * 2 ^ (16 * k))
    = a ! i * 2 ^ (16 * i) * limbs_val b"
proof -
  have "(\<Sum>k<31. (if i \<le> k \<and> k - i < 16 then a ! i * b ! (k - i) else 0) * 2 ^ (16 * k))
      = (\<Sum>k \<in> {i..<i + 16}. a ! i * b ! (k - i) * 2 ^ (16 * k))"
    using assms by (intro sum.mono_neutral_cong_right) auto
  also have "\<dots> = (\<Sum>j<16. a ! i * b ! j * 2 ^ (16 * (j + i)))"
    by (rule sum.reindex_bij_witness [of _ "\<lambda>j. j + i" "\<lambda>k. k - i"]) auto
  also have "\<dots> = a ! i * 2 ^ (16 * i) * limbs_val b"
    unfolding limbs_val_def sum_distrib_left
    by (rule sum.cong) (simp_all add: power_add algebra_simps)
  finally show ?thesis .
qed

lemma product_val:
  "(\<Sum>k<31. product_limb a b k * 2 ^ (16 * k)) = limbs_val a * limbs_val b"
proof -
  have "(\<Sum>k<31. product_limb a b k * 2 ^ (16 * k))
      = (\<Sum>k<31. \<Sum>i<16. (if i \<le> k \<and> k - i < 16 then a ! i * b ! (k - i) else 0) * 2 ^ (16 * k))"
    by (simp only: product_limb_sum sum_distrib_right)
  also have "\<dots> = (\<Sum>i<16. \<Sum>k<31. (if i \<le> k \<and> k - i < 16 then a ! i * b ! (k - i) else 0) * 2 ^ (16 * k))"
    by (rule sum.swap)
  also have "\<dots> = (\<Sum>i<16. a ! i * 2 ^ (16 * i) * limbs_val b)"
    by (intro sum.cong) (simp_all only: product_row lessThan_iff)
  also have "\<dots> = limbs_val a * limbs_val b"
    by (simp only: limbs_val_def [of a] sum_distrib_right)
  finally show ?thesis .
qed

definition folded :: "int list \<Rightarrow> int list \<Rightarrow> int list" where
  "folded a b = map (\<lambda>i. if i < 15 then product_limb a b i + 38 * product_limb a b (i + 16)
     else product_limb a b i) [0..<16]"

lemma multmod_folded: "multmod a b = carry (carry (folded a b))"
  unfolding multmod_def folded_def Let_def
  by (intro arg_cong [where f = carry] map_cong) auto

lemma folded_val: "cong_p (limbs_val (folded a b)) (limbs_val a * limbs_val b)"
proof -
  let ?t = "product_limb a b"
  let ?hi = "\<Sum>i<15. ?t (i + 16) * 2 ^ (16 * i)"
  have "(\<Sum>k<31. ?t k * 2 ^ (16 * k)) = (\<Sum>k<16. ?t k * 2 ^ (16 * k)) + (\<Sum>k \<in> {16..<31}. ?t k * 2 ^ (16 * k))"
    by (simp add: sum.atLeastLessThan_concat [symmetric, of 0 16 31] atLeast0LessThan [symmetric])
  also have "(\<Sum>k \<in> {16..<31}. ?t k * 2 ^ (16 * k)) = (\<Sum>i<15. ?t (i + 16) * 2 ^ (16 * (i + 16)))"
    by (rule sum.reindex_bij_witness [of _ "\<lambda>i. i + 16" "\<lambda>k. k - 16"]) auto
  also have "\<dots> = ?hi * 2 ^ 256"
    unfolding sum_distrib_right by (rule sum.cong) (simp_all add: power_add)
  finally have total: "limbs_val a * limbs_val b = (\<Sum>k<16. ?t k * 2 ^ (16 * k)) + ?hi * (38 + 2 * p25519)"
    unfolding product_val two_256 .
  have "limbs_val (folded a b) = (\<Sum>i<16. (?t i + (if i < 15 then 38 * ?t (i + 16) else 0)) * 2 ^ (16 * i))"
    unfolding limbs_val_def folded_def by (rule sum.cong) auto
  also have "\<dots> = (\<Sum>i<16. ?t i * 2 ^ (16 * i)) + (\<Sum>i<16. (if i < 15 then 38 * ?t (i + 16) else 0) * 2 ^ (16 * i))"
    by (simp only: sum.distrib distrib_right)
  also have "(\<Sum>i<16. (if i < 15 then 38 * ?t (i + 16) else 0) * 2 ^ (16 * i)) = (\<Sum>i<15. 38 * (?t (i + 16) * 2 ^ (16 * i)))"
    by (rule sum.mono_neutral_cong_right) auto
  also have "\<dots> = 38 * ?hi" by (simp only: sum_distrib_left)
  finally have "limbs_val a * limbs_val b = limbs_val (folded a b) + ?hi * (2 * p25519)"
    using total by (simp add: algebra_simps)
  then show ?thesis using cong_p_shift cong_p_sym by metis
qed

lemma multmod_length [simp]: "length (multmod a b) = 16"
  by (simp add: multmod_folded folded_def)

lemma multmod_val: "cong_p (limbs_val (multmod a b)) (limbs_val a * limbs_val b)"
proof -
  have l: "length (folded a b) = 16" by (simp add: folded_def)
  have "cong_p (limbs_val (multmod a b)) (limbs_val (carry (folded a b)))"
    unfolding multmod_folded by (rule carry_val) (simp add: l)
  also have "cong_p \<dots> (limbs_val (folded a b))" by (rule carry_val) (rule l)
  also have "cong_p \<dots> (limbs_val a * limbs_val b)" by (rule folded_val)
  finally show ?thesis .
qed

subsection \<open>Inversion\<close>

text \<open>The exponent the loop has built after the bits above \<open>a\<close>.\<close>

fun invert_exp :: "nat \<Rightarrow> nat \<Rightarrow> nat" where
  "invert_exp 0 e = e"
| "invert_exp (Suc a) e = invert_exp a (if a \<noteq> 2 \<and> a \<noteq> 4 then 2 * e + 1 else 2 * e)"

lemma invert_loop_val:
  "cong_p (limbs_val c) (limbs_val i ^ e) \<Longrightarrow>
   cong_p (limbs_val (invert_loop a c i)) (limbs_val i ^ invert_exp a e)"
proof (induction a arbitrary: c e)
  case 0
  then show ?case by simp
next
  case (Suc a)
  have sq: "cong_p (limbs_val (multmod c c)) (limbs_val i ^ (2 * e))"
    using cong_p_trans [OF multmod_val cong_p_mult [OF Suc.prems Suc.prems]]
    by (simp add: mult_2 power_add)
  have "cong_p (limbs_val (multmod (multmod c c) i)) (limbs_val i ^ (2 * e + 1))"
    using cong_p_trans [OF multmod_val cong_p_mult [OF sq cong_p_refl [of "limbs_val i"]]]
    by (simp add: mult.commute)
  with sq Suc.IH show ?case by (auto simp: Let_def)
qed

lemma invert_exp_ones: "a \<ge> 5 \<Longrightarrow> invert_exp a e = invert_exp 5 ((e + 1) * 2 ^ (a - 5) - 1)"
proof (induction a arbitrary: e)
  case 0
  then show ?case by simp
next
  case (Suc a)
  show ?case
  proof (cases "a = 4")
    case True
    then show ?thesis by (simp add: numeral_eq_Suc)
  next
    case False
    with Suc.prems have "a \<ge> 5" by simp
    then have "Suc a - 5 = Suc (a - 5)" by simp
    with \<open>a \<ge> 5\<close> Suc.IH [of "2 * e + 1"] show ?thesis
      by (simp add: algebra_simps)
  qed
qed

lemma invert_exp_5: "invert_exp 5 e = 32 * e + 11"
  by (simp add: eval_nat_numeral)

lemma invert_exp_254: "invert_exp 254 1 = 2 ^ 255 - 21"
  using invert_exp_ones [of 254 1] unfolding invert_exp_5 by simp

lemma invert_val: "cong_p (limbs_val (invert i)) (limbs_val i ^ (2 ^ 255 - 21))"
proof -
  have "cong_p (limbs_val i) (limbs_val i ^ 1)" by simp
  from invert_loop_val [OF this, of 254] show ?thesis
    unfolding invert_def invert_exp_254 .
qed

section \<open>Keys\<close>

definition bit16 :: "int \<Rightarrow> int" where
  "bit16 x = drop_bit 16 (toInt32 x) AND 1"

text \<open>One conditional subtraction of the prime: \<open>m\<close> is \<open>t - p\<close> limb by limb with a borrow, and
  replaces \<open>t\<close> when it did not become negative.\<close>

definition pack_round :: "int list \<Rightarrow> int list" where
  "pack_round t =
     (let m = (gf [])[0 := t ! 0 - 65517];
          m = fold (\<lambda>i m. let m = m[i := t ! i - 65535 - bit16 (m ! (i - 1))]
                in m[i - 1 := toInt32 (m ! (i - 1)) AND 65535]) [1..<15] m;
          m = m[15 := t ! 15 - 32767 - bit16 (m ! 14)];
          b = bit16 (m ! 15);
          m = m[14 := toInt32 (m ! 14) AND 65535]
      in fst (cswap t m (1 - b)))"

definition pack :: "int list \<Rightarrow> int list" where
  "pack n =
     (let t = carry (carry (carry n)); t = pack_round (pack_round t)
      in concat (map (\<lambda>x. [toInt32 x AND 255, drop_bit 8 (toInt32 x) mod 256]) t))"

definition clamp :: "int list \<Rightarrow> int list" where
  "clamp z = (let z = z[31 := (z ! 31 AND 127) OR 64] in z[0 := z ! 0 AND 248])"

type_synonym ladder = "int list \<times> int list \<times> int list \<times> int list"

definition ladder_step :: "int list \<Rightarrow> nat \<Rightarrow> ladder \<Rightarrow> ladder" where
  "ladder_step z i st = (case st of (a, b, c, d) \<Rightarrow>
     let r = drop_bit (i mod 8) (z ! (i div 8)) AND 1;
         (a, b) = cswap a b r;
         (c, d) = cswap c d r;
         e = add a c;
         a = subtract a c;
         c = add b d;
         b = subtract b d;
         d = multmod e e;
         f = multmod a a;
         a = multmod c a;
         c = multmod b e;
         e = add a c;
         a = subtract a c;
         b = multmod a a;
         c = subtract d f;
         a = multmod c (gf [56129, 1]);
         a = add a d;
         c = multmod c a;
         a = multmod d f;
         d = multmod b (gf [9]);
         b = multmod e e;
         (a, b) = cswap a b r;
         (c, d) = cswap c d r
     in (a, b, c, d))"

definition generatePublicKey :: "int list \<Rightarrow> int list" where
  "generatePublicKey privateKey =
     (let z = map (\<lambda>i. if i < length privateKey then privateKey ! i else 0) [0..<32];
          z = clamp z;
          (a, b, c, d) = fold (ladder_step z) (rev [0..<255]) (gf [1], gf [9], gf [], gf [1]);
          c = invert c;
          a = multmod a c
      in pack a)"

subsection \<open>Base64\<close>

definition encodeBase64_char :: "int \<Rightarrow> char" where
  "encodeBase64_char x = char_of ((x + 65 + (drop_bit 8 (25 - x) AND 6) - (drop_bit 8 (51 - x) AND 75)
     - (drop_bit 8 (61 - x) AND 15) + (drop_bit 8 (62 - x) AND 3)) mod 256)"

text \<open>A byte past the end reads as \<open>undefined\<close>, which the shifts take for 0.\<close>

definition byte_at :: "int list \<Rightarrow> nat \<Rightarrow> int" where
  "byte_at bs i = (if i < length bs then bs ! i else 0)"

definition encodeBase64 :: "int list \<Rightarrow> string" where
  "encodeBase64 src = map encodeBase64_char
     [drop_bit 2 (byte_at src 0) AND 63,
      (push_bit 4 (byte_at src 0) OR drop_bit 4 (byte_at src 1)) AND 63,
      (push_bit 2 (byte_at src 1) OR drop_bit 6 (byte_at src 2)) AND 63,
      byte_at src 2 AND 63]"

text \<open>Eleven groups fill the 44 characters; the twelfth call writes past the end of the buffer,
  where a typed array drops it.\<close>

definition keyToBase64 :: "int list \<Rightarrow> string" where
  "keyToBase64 key =
     (concat (map (\<lambda>i. encodeBase64 (drop (3 * i) key)) [0..<11]))[43 := CHR ''='']"

definition b64_value :: "char \<Rightarrow> int option" where
  "b64_value c =
     (let n = (of_char c :: int) in
      if 65 \<le> n \<and> n \<le> 90 then Some (n - 65)
      else if 97 \<le> n \<and> n \<le> 122 then Some (n - 71)
      else if 48 \<le> n \<and> n \<le> 57 then Some (n + 4)
      else if n = 43 then Some 62
      else if n = 47 then Some 63
      else None)"

text \<open>The bytes of groups of four characters, the last padded with \<open>=\<close>.\<close>

fun atob_groups :: "string \<Rightarrow> int list option" where
  "atob_groups [] = Some []"
| "atob_groups [a, b, c, d] =
     (if c = CHR ''='' \<and> d = CHR ''='' then do {
        x \<leftarrow> b64_value a; y \<leftarrow> b64_value b; Some [x * 4 + y div 16] }
      else if d = CHR ''='' then do {
        x \<leftarrow> b64_value a; y \<leftarrow> b64_value b; z \<leftarrow> b64_value c;
        Some [x * 4 + y div 16, (y mod 16) * 16 + z div 4] }
      else do {
        x \<leftarrow> b64_value a; y \<leftarrow> b64_value b; z \<leftarrow> b64_value c; w \<leftarrow> b64_value d;
        Some [x * 4 + y div 16, (y mod 16) * 16 + z div 4, (z mod 4) * 64 + w] })"
| "atob_groups (a # b # c # d # rest) = do {
     x \<leftarrow> b64_value a; y \<leftarrow> b64_value b; z \<leftarrow> b64_value c; w \<leftarrow> b64_value d;
     bs \<leftarrow> atob_groups rest;
     Some ([x * 4 + y div 16, (y mod 16) * 16 + z div 4, (z mod 4) * 64 + w] @ bs) }"
| "atob_groups _ = None"

text \<open>\<open>atob\<close>: white space is removed first; the padding may be missing, but a text that has it is a
  whole number of groups.\<close>

definition b64_space :: "char \<Rightarrow> bool" where
  "b64_space c \<longleftrightarrow> (of_char c :: int) \<in> {9, 10, 12, 13, 32}"

definition js_atob :: "string \<Rightarrow> int list option" where
  "js_atob s =
     (let t = filter (\<lambda>c. \<not> b64_space c) s; r = length t mod 4 in
      if r = 0 then atob_groups t
      else if r = 1 \<or> CHR ''='' \<in> set t then None
      else atob_groups (t @ replicate (4 - r) (CHR ''='')))"

text \<open>A text the encoders write is decoded as it is.\<close>

definition b64_symbol :: "char \<Rightarrow> bool" where
  "b64_symbol c \<longleftrightarrow> b64_value c \<noteq> None \<or> c = CHR ''=''"

lemma symbol_no_space: "b64_symbol c \<Longrightarrow> \<not> b64_space c"
  by (auto simp: b64_symbol_def b64_space_def b64_value_def Let_def split: if_splits)

lemma atob_symbol_groups:
  assumes "list_all b64_symbol s" "4 dvd length s"
  shows "js_atob s = atob_groups s"
proof -
  have "filter (\<lambda>c. \<not> b64_space c) s = s"
    using assms(1) by (intro filter_True) (auto simp: list_all_iff symbol_no_space)
  with assms(2) show ?thesis by (simp add: js_atob_def Let_def dvd_eq_mod_eq_0)
qed

definition keyFromBase64 :: "string \<Rightarrow> int list option" where
  "keyFromBase64 encoded = js_atob encoded"

record keypair =
  kp_publicKey :: string
  kp_privateKey :: string

text \<open>\<open>fresh\<close> holds the 32 random bytes the call may draw.\<close>

definition generatePrivateKey :: "int list \<Rightarrow> int list" where
  "generatePrivateKey fresh = clamp fresh"

definition generateKeypair :: "int list \<Rightarrow> string \<Rightarrow> keypair option" where
  "generateKeypair fresh secretKey = do {
     privateKey \<leftarrow> (if secretKey \<noteq> [] then keyFromBase64 secretKey
       else Some (generatePrivateKey fresh));
     Some \<lparr>kp_publicKey = keyToBase64 (generatePublicKey privateKey),
       kp_privateKey = (if secretKey \<noteq> [] then secretKey else keyToBase64 privateKey)\<rparr> }"

section \<open>Keys survive their text form\<close>

lemma b64_value_encode_all:
  "list_all (\<lambda>x. b64_value (encodeBase64_char x) = Some x) (map int [0..<64])"
  by code_simp

lemma b64_value_encode: "\<lbrakk>0 \<le> x; x < 64\<rbrakk> \<Longrightarrow> b64_value (encodeBase64_char x) = Some x"
proof -
  assume "0 \<le> x" "x < 64"
  then have "x = int (nat x)" "nat x \<in> set [0..<64]" by auto
  then have "x \<in> set (map int [0..<64])" by (simp only: set_map) (rule image_eqI)
  with b64_value_encode_all show ?thesis unfolding list_all_iff by blast
qed

lemma encode_not_pad_all:
  "list_all (\<lambda>x. encodeBase64_char x \<noteq> CHR ''='') (map int [0..<64])"
  by code_simp

lemma low_or: "\<lbrakk>0 \<le> y; y < 2 ^ k\<rbrakk> \<Longrightarrow> push_bit k x OR y = x * 2 ^ k + (y :: int)"
proof -
  assume "0 \<le> y" "y < 2 ^ k"
  then have y: "take_bit k y = y" by (simp add: take_bit_int_eq_self)
  have "push_bit k x + y = push_bit k x OR y"
  proof (rule disjunctive_add)
    fix n
    have "bit y n \<Longrightarrow> n < k" using y by (metis bit_take_bit_iff)
    then show "\<not> bit (push_bit k x) n \<or> \<not> bit y n" by (auto simp: bit_push_bit_iff)
  qed
  then show ?thesis by (simp add: push_bit_eq_mult)
qed

lemma and_mask: "(x :: int) AND 63 = x mod 64" "x AND 255 = x mod 256" "x AND 127 = x mod 128"
  "x AND 65535 = x mod 65536"
  using and_exp_eq_0_iff_not_bit take_bit_eq_mask [of 6 x] take_bit_eq_mask [of 8 x]
    take_bit_eq_mask [of 7 x] take_bit_eq_mask [of 16 x]
  by (simp_all add: take_bit_eq_mod mask_eq_exp_minus_1)

lemma mod_scale:
  assumes "0 \<le> r" "r < k" "0 < m"
  shows "(a * k + r) mod (m * k) = (a mod m) * k + (r :: int)"
proof (rule int_mod_pos_eq [where q = "a div m"])
  have "m * k * (a div m) + (a mod m * k + r) = (m * (a div m) + a mod m) * k + r"
    by (simp only: distrib_right distrib_left ac_simps)
  then show "a * k + r = m * k * (a div m) + (a mod m * k + r)" by simp
  show "0 \<le> a mod m * k + r" using assms by simp
  have "a mod m \<le> m - 1" using assms by simp
  then have "a mod m * k \<le> (m - 1) * k" using assms by (intro mult_right_mono) auto
  then show "a mod m * k + r < m * k" using assms by (simp add: algebra_simps)
qed

text \<open>The four sextets of three bytes.\<close>

lemma encodeBase64_sextets:
  assumes "byte_at src 0 = a" "byte_at src 1 = b" "byte_at src 2 = c"
    "0 \<le> a" "a < 256" "0 \<le> b" "b < 256" "0 \<le> c" "c < 256"
  shows "encodeBase64 src = map encodeBase64_char
     [a div 4, (a mod 4) * 16 + b div 16, (b mod 16) * 4 + c div 64, c mod 64]"
proof -
  have "push_bit 4 a OR drop_bit 4 b = a * 16 + b div 16"
    using low_or [of "b div 16" 4 a] assms by (simp add: drop_bit_eq_div)
  moreover have "push_bit 2 b OR drop_bit 6 c = b * 4 + c div 64"
    using low_or [of "c div 64" 2 b] assms by (simp add: drop_bit_eq_div)
  moreover have "(a * 16 + b div 16) mod 64 = (a mod 4) * 16 + b div 16"
    "(b * 4 + c div 64) mod 64 = (b mod 16) * 4 + c div 64" "a div 4 mod 64 = a div 4"
    using assms mod_scale [of "b div 16" 16 4 a] mod_scale [of "c div 64" 4 16 b] by auto
  ultimately show ?thesis
    by (simp add: encodeBase64_def assms(1,3) assms(2) [unfolded One_nat_def] and_mask drop_bit_eq_div)
qed

lemma encode_not_pad: "\<lbrakk>0 \<le> x; x < 64\<rbrakk> \<Longrightarrow> encodeBase64_char x \<noteq> CHR ''=''"
  using b64_value_encode [of x] by (auto simp: b64_value_def)

lemma sextets_range:
  assumes "0 \<le> (a :: int)" "a < 256" "0 \<le> (b :: int)" "b < 256" "0 \<le> (c :: int)" "c < 256"
  shows "0 \<le> a div 4" "a div 4 < 64" "0 \<le> (a mod 4) * 16 + b div 16" "(a mod 4) * 16 + b div 16 < 64"
    "0 \<le> (b mod 16) * 4 + c div 64" "(b mod 16) * 4 + c div 64 < 64" "0 \<le> c mod 64" "c mod 64 < 64"
proof -
  have "a mod 4 \<le> 3" "b mod 16 \<le> 15" "b div 16 \<le> 15" "c div 64 \<le> 3" "a div 4 \<le> 63"
    "0 \<le> a mod 4" "0 \<le> b mod 16" "0 \<le> b div 16" "0 \<le> c div 64"
    using assms by auto
  then show "0 \<le> a div 4" "a div 4 < 64" "0 \<le> (a mod 4) * 16 + b div 16"
    "(a mod 4) * 16 + b div 16 < 64" "0 \<le> (b mod 16) * 4 + c div 64"
    "(b mod 16) * 4 + c div 64 < 64" "0 \<le> c mod 64" "c mod 64 < 64"
    using assms by linarith+
qed

lemma sextet_parts:
  assumes "0 \<le> (b :: int)" "b < 256" "0 \<le> (c :: int)" "c < 256"
  shows "b div 16 div 16 = 0" "b div 16 mod 16 = b div 16" "c div 64 div 4 = 0"
    "c div 64 mod 4 = c div 64" "c div 256 = 0" "b div 256 = 0"
proof -
  have "b div 16 < 16" "0 \<le> b div 16" "c div 64 < 4" "0 \<le> c div 64" using assms by auto
  then show "b div 16 div 16 = 0" "b div 16 mod 16 = b div 16" "c div 64 div 4 = 0"
    "c div 64 mod 4 = c div 64" by (simp_all only: div_pos_pos_trivial mod_pos_pos_trivial)
  show "c div 256 = 0" "b div 256 = 0" using assms by (simp_all only: div_pos_pos_trivial)
qed

lemma bytes_back:
  assumes "0 \<le> (a :: int)" "a < 256" "0 \<le> (b :: int)" "b < 256" "0 \<le> (c :: int)" "c < 256"
  shows "(a div 4) * 4 + ((a mod 4) * 16 + b div 16) div 16 = a"
    "(((a mod 4) * 16 + b div 16) mod 16) * 16 + ((b mod 16) * 4 + c div 64) div 4 = b"
    "(((b mod 16) * 4 + c div 64) mod 4) * 64 + c mod 64 = c"
  by (simp_all only: div_mult_self3 mod_mult_self3 sextet_parts [OF assms(3-6)] add_0_right
      div_mult_mod_eq num.distinct zero_neq_numeral [symmetric] not_False_eq_True)

definition is_byte :: "int \<Rightarrow> bool" where
  "is_byte b \<longleftrightarrow> 0 \<le> b \<and> b < 256"

lemma atob_group:
  assumes "is_byte a" "is_byte b" "is_byte c"
  shows "atob_groups (encodeBase64 (a # b # c # bs) @ rest) = map_option ((@) [a, b, c]) (atob_groups rest)"
proof -
  have r: "0 \<le> a" "a < 256" "0 \<le> b" "b < 256" "0 \<le> c" "c < 256" using assms by (simp_all add: is_byte_def)
  have enc: "encodeBase64 (a # b # c # bs) = map encodeBase64_char
     [a div 4, (a mod 4) * 16 + b div 16, (b mod 16) * 4 + c div 64, c mod 64]"
    by (rule encodeBase64_sextets) (simp_all add: byte_at_def r)
  show ?thesis
  proof (cases rest)
    case Nil
    then show ?thesis
      by (simp add: enc b64_value_encode encode_not_pad sextets_range [OF r] bytes_back [OF r]
        sextet_parts [OF r(3-6)])
  next
    case (Cons e es)
    then show ?thesis
      by (cases "atob_groups rest")
        (simp_all add: enc b64_value_encode sextets_range [OF r] bytes_back [OF r]
          sextet_parts [OF r(3-6)])
  qed
qed

lemma drop_group: "drop (3 + n) (a # b # c # cs) = drop n cs"
  by (simp add: numeral_3_eq_3)

lemma atob_group_list:
  "\<lbrakk>\<forall>b \<in> set bs. is_byte b; 3 * n \<le> length bs\<rbrakk> \<Longrightarrow>
   atob_groups (concat (map (\<lambda>i. encodeBase64 (drop (3 * i) bs)) [0..<n]) @ rest)
     = map_option ((@) (take (3 * n) bs)) (atob_groups rest)"
proof (induction n arbitrary: bs)
  case 0
  then show ?case by (simp add: option.map_ident)
next
  case (Suc n)
  then obtain a b c cs where bs: "bs = a # b # c # cs"
    by (metis (no_types, lifting) Suc_le_length_iff mult_Suc_right numeral_3_eq_3 plus_nat.add_0 add_Suc)
  have "map (\<lambda>i. encodeBase64 (drop (3 * i) bs)) [0..<Suc n]
      = encodeBase64 bs # map (\<lambda>i. encodeBase64 (drop (3 * i) cs)) [0..<n]"
    by (simp only: map_upt_Suc) (simp add: bs drop_group)
  with Suc bs show ?case
    by (simp add: atob_group option.map_comp comp_def drop_group del: upt_Suc) (simp add: numeral_3_eq_3)
qed

lemma encode_symbols: "list_all b64_symbol (encodeBase64 src)" "length (encodeBase64 src) = 4"
proof -
  have "b64_symbol (encodeBase64_char (x AND 63))" for x
    using b64_value_encode [of "x AND 63"] by (simp add: b64_symbol_def and_mask)
  then show "list_all b64_symbol (encodeBase64 src)" by (simp add: encodeBase64_def)
qed (simp add: encodeBase64_def)

lemma key_text_symbols: "list_all b64_symbol (keyToBase64 key)" "length (keyToBase64 key) = 44"
proof -
  let ?t = "concat (map (\<lambda>i. encodeBase64 (drop (3 * i) key)) [0..<11])"
  have "list_all b64_symbol ?t" using encode_symbols(1) by (simp add: list_all_iff)
  moreover have "b64_symbol (CHR ''='')" by (simp add: b64_symbol_def)
  ultimately show "list_all b64_symbol (keyToBase64 key)"
    using set_update_subset_insert [of ?t 43 "CHR ''=''"] unfolding keyToBase64_def list_all_iff by blast
  show "length (keyToBase64 key) = 44"
    by (simp add: keyToBase64_def length_concat comp_def encode_symbols(2) sum_list_triv)
qed

lemma key_text_roundtrip:
  assumes "length key = 32" "\<forall>b \<in> set key. is_byte b"
  shows "keyFromBase64 (keyToBase64 key) = Some key"
proof -
  obtain x y where last: "drop 30 key = [x, y]" "key = take 30 key @ [x, y]"
  proof -
    have "length (drop 30 key) = Suc (Suc 0)" using assms(1) by simp
    then obtain x y where "drop 30 key = [x, y]" by (auto simp: length_Suc_conv simp del: length_drop)
    with that show thesis by (metis append_take_drop_id)
  qed
  have xy: "is_byte x" "is_byte y" using assms(2) last(2) by (metis in_set_conv_decomp append_Cons append_Nil append.assoc)+
  then have r: "0 \<le> x" "x < 256" "0 \<le> y" "y < 256" "0 \<le> (0 :: int)" "(0 :: int) < 256"
    by (simp_all add: is_byte_def)
  have enc: "encodeBase64 [x, y] = map encodeBase64_char
     [x div 4, (x mod 4) * 16 + y div 16, (y mod 16) * 4 + 0 div 64, 0 mod 64]"
    by (rule encodeBase64_sextets) (simp_all add: byte_at_def r)
  let ?front = "concat (map (\<lambda>i. encodeBase64 (drop (3 * i) key)) [0..<10])"
  have len: "length ?front = 40" by (simp add: encodeBase64_def length_concat comp_def sum_list_triv)
  have "[0..<11] = [0..<10] @ [10]" by (simp add: upt_rec)
  then have "keyToBase64 key = ?front @ (encodeBase64 [x, y])[3 := CHR ''='']"
    by (simp only: keyToBase64_def map_append concat_append) (simp add: last(1) list_update_append len)
  moreover have "keyFromBase64 (keyToBase64 key) = atob_groups (keyToBase64 key)"
    unfolding keyFromBase64_def by (rule atob_symbol_groups [OF key_text_symbols(1)]) (simp add: key_text_symbols(2))
  ultimately have "keyFromBase64 (keyToBase64 key)
      = map_option ((@) (take 30 key)) (atob_groups ((encodeBase64 [x, y])[3 := CHR ''='']))"
    using atob_group_list [of key 10] assms by simp
  also have "atob_groups ((encodeBase64 [x, y])[3 := CHR ''='']) = Some [x, y]"
  proof -
    define X Y Z where "X = x div 4" and "Y = (x mod 4) * 16 + y div 16"
      and "Z = (y mod 16) * 4 + 0 div (64 :: int)"
    note XYZ = sextets_range [OF r, folded X_def Y_def Z_def] bytes_back(1,2) [OF r, folded X_def Y_def Z_def]
    have "encodeBase64 [x, y] = [encodeBase64_char X, encodeBase64_char Y, encodeBase64_char Z, encodeBase64_char (0 mod 64)]"
      unfolding enc X_def Y_def Z_def by simp
    then have "(encodeBase64 [x, y])[3 := CHR ''=''] = [encodeBase64_char X, encodeBase64_char Y, encodeBase64_char Z, CHR ''='']"
      by (simp add: numeral_3_eq_3)
    then show ?thesis
      using XYZ encode_not_pad [of Z] by (simp add: b64_value_encode)
  qed
  finally show ?thesis using last by simp
qed

lemma clamp_bytes:
  assumes "length z = 32" "\<forall>b \<in> set z. is_byte b"
  shows "length (clamp z) = 32" "\<forall>b \<in> set (clamp z). is_byte b"
proof -
  show "length (clamp z) = 32" using assms(1) by (simp add: clamp_def Let_def)
  have "is_byte (x AND 248)" for x by (auto simp: is_byte_def intro: le_less_trans [OF and_less_eq])
  moreover have "is_byte ((x AND 127) OR 64)" for x
  proof -
    have "x AND 127 < 2 ^ 7" "0 \<le> x AND 127" by (simp_all add: and_mask)
    then have "(x AND 127) OR 64 < 2 ^ 7" by (intro OR_upper) simp_all
    then show ?thesis by (simp add: is_byte_def)
  qed
  ultimately show "\<forall>b \<in> set (clamp z). is_byte b"
    using assms(2) by (auto simp: clamp_def Let_def dest!: set_update_subset_insert [THEN subsetD])
qed

lemma clamp_idem: "length z = 32 \<Longrightarrow> clamp (clamp z) = clamp z"
proof -
  have "(((x :: int) AND 127) OR 64) AND 127 = (x AND 127) OR 64" for x
  proof -
    have "(x AND 127) OR 64 < 2 ^ 7" by (rule OR_upper) (simp_all add: and_mask)
    moreover have "0 \<le> (x AND 127) OR 64" by simp
    ultimately show ?thesis by (simp add: and_mask)
  qed
  moreover have "((x :: int) AND 127 OR 64) OR 64 = x AND 127 OR 64" for x by (simp add: or.assoc)
  moreover have "((x :: int) AND 248) AND 248 = x AND 248" for x by (simp add: and.assoc)
  ultimately show "length z = 32 \<Longrightarrow> clamp (clamp z) = clamp z"
    by (simp add: clamp_def Let_def list_update_swap [of 0 31])
qed

end
