(* ===== verification/Doubles.thy ===== *)
theory Doubles
  imports Complex_Main "HOL-Library.Log_Nat"
begin

text \<open>
  The numbers of the language: the double nearest to a rational number, ties to the even mantissa.
  A double is a rational number here; overflow, subnormal numbers and the sign of zero are left out,
  since every number that is computed with is far from both ends. \<open>double_int\<close> is the same on integers.
\<close>

section \<open>Rounding\<close>

definition rat_exponent :: "rat \<Rightarrow> int" where
  "rat_exponent x =
     (let q = quotient_of \<bar>x\<bar>; e = int (floorlog 2 (nat (fst q))) - int (floorlog 2 (nat (snd q)))
      in if 2 powi e \<le> \<bar>x\<bar> then e else e - 1)"

definition round_even :: "rat \<Rightarrow> int" where
  "round_even x =
     (let n = \<lfloor>x\<rfloor>; r = x - of_int n in if r < 1 / 2 \<or> r = 1 / 2 \<and> even n then n else n + 1)"

definition to_double :: "rat \<Rightarrow> rat" where
  "to_double x = (if x = 0 then 0
     else (let u = 2 powi (rat_exponent x - 52) in of_int (round_even (x / u)) * u))"

definition is_double :: "rat \<Rightarrow> bool" where
  "is_double x \<longleftrightarrow> to_double x = x"

definition double_int :: "int \<Rightarrow> int" where
  "double_int x = \<lfloor>to_double (of_int x)\<rfloor>"

section \<open>Which numbers are exact\<close>

lemma two_powi_le: "2 powi a \<le> (2 powi b :: rat) \<Longrightarrow> a \<le> b"
proof (rule ccontr)
  assume "2 powi a \<le> (2 powi b :: rat)" "\<not> a \<le> b"
  then show False using power_int_strict_increasing [of b a "2 :: rat"] by simp
qed

lemma two_powi_divide: "2 powi a / 2 powi b = (2 powi (a - b) :: rat)"
  by (simp add: power_int_diff)

lemma bits_bounds:
  assumes "0 < (n :: int)"
  shows "2 powi (int (floorlog 2 (nat n)) - 1) \<le> (of_int n :: rat)"
    and "(of_int n :: rat) < 2 powi (int (floorlog 2 (nat n)))"
proof -
  let ?k = "floorlog 2 (nat n)"
  have k: "0 < ?k" using assms by (simp add: floorlog_def)
  have b: "2 ^ (?k - 1) \<le> nat n" "nat n < 2 ^ ?k" using floorlog_bounds [of "nat n" 2] assms by simp_all
  have "(2::int) ^ (?k - 1) \<le> n" "n < 2 ^ ?k"
    using b assms by (simp_all add: le_nat_iff nat_less_iff)
  then have "(of_int (2 ^ (?k - 1)) :: rat) \<le> of_int n" "(of_int n :: rat) < of_int (2 ^ ?k)"
    by (simp_all only: of_int_le_iff of_int_less_iff)
  moreover have "int ?k - 1 = int (?k - 1)" using k by simp
  ultimately show "2 powi (int ?k - 1) \<le> (of_int n :: rat)" "(of_int n :: rat) < 2 powi (int ?k)"
    by (simp_all add: power_int_of_nat del: of_nat_diff)
qed

lemma exponent_bounds:
  assumes "x \<noteq> 0"
  shows "2 powi rat_exponent x \<le> \<bar>x\<bar>" "\<bar>x\<bar> < 2 powi (rat_exponent x + 1)"
proof -
  obtain n d where q: "quotient_of \<bar>x\<bar> = (n, d)" by fastforce
  let ?e = "int (floorlog 2 (nat n)) - int (floorlog 2 (nat d))"
  have d: "0 < d" and x: "\<bar>x\<bar> = of_int n / of_int d"
    using quotient_of_denom_pos [OF q] quotient_of_div [OF q] by simp_all
  have n: "0 < n"
    using assms x d by (metis of_int_0_less_iff zero_less_abs_iff zero_less_divide_iff less_asym)
  have "\<bar>x\<bar> < 2 powi (int (floorlog 2 (nat n))) / 2 powi (int (floorlog 2 (nat d)) - 1)"
    unfolding x using bits_bounds [OF n] bits_bounds [OF d] n d by (intro frac_less) simp_all
  also have "\<dots> = 2 powi (?e + 1)" unfolding two_powi_divide by (rule arg_cong [where f = "(powi) 2"]) simp
  finally have up: "\<bar>x\<bar> < 2 powi (?e + 1)" .
  have "2 powi (int (floorlog 2 (nat n)) - 1) / 2 powi (int (floorlog 2 (nat d))) \<le> \<bar>x\<bar>"
    unfolding x using bits_bounds [OF n] bits_bounds [OF d] n d by (intro frac_le) simp_all
  moreover have "2 powi (int (floorlog 2 (nat n)) - 1) / 2 powi (int (floorlog 2 (nat d))) = (2 powi (?e - 1) :: rat)"
    unfolding two_powi_divide by (rule arg_cong [where f = "(powi) 2"]) simp
  ultimately have low: "2 powi (?e - 1) \<le> \<bar>x\<bar>" by simp
  have e: "rat_exponent x = (if 2 powi ?e \<le> \<bar>x\<bar> then ?e else ?e - 1)"
    by (simp add: rat_exponent_def q)
  show "2 powi rat_exponent x \<le> \<bar>x\<bar>" unfolding e using low by simp
  show "\<bar>x\<bar> < 2 powi (rat_exponent x + 1)" unfolding e using up by simp
qed

lemma round_even_int [simp]: "round_even (of_int n) = n"
  by (simp add: round_even_def)

lemma round_even_error: "\<bar>of_int (round_even x) - x\<bar> \<le> 1 / 2"
proof -
  have "of_int \<lfloor>x\<rfloor> \<le> x" "x < of_int \<lfloor>x\<rfloor> + 1" by linarith+
  then show ?thesis by (auto simp: round_even_def Let_def)
qed

lemma round_even_range: "\<bar>x\<bar> < of_int n \<Longrightarrow> \<bar>round_even x\<bar> \<le> n"
proof -
  assume x: "\<bar>x\<bar> < of_int n"
  then have "- n \<le> \<lfloor>x\<rfloor>" "\<lfloor>x\<rfloor> < n" by linarith+
  then show ?thesis by (auto simp: round_even_def Let_def)
qed

text \<open>A number with a mantissa of 53 bits is its own double.\<close>

lemma to_double_exact:
  assumes "\<bar>m\<bar> \<le> 2 ^ 53"
  shows "to_double (of_int m * 2 powi k) = of_int m * 2 powi k"
proof (cases "m = 0")
  case False
  let ?x = "of_int m * 2 powi k :: rat"
  let ?e = "rat_exponent ?x"
  have x: "?x \<noteq> 0" using False by simp
  have ax: "\<bar>?x\<bar> = of_int \<bar>m\<bar> * 2 powi k" by (simp add: abs_mult)
  have "(of_int \<bar>m\<bar> :: rat) \<le> of_int (2 ^ 53)" using assms by (simp only: of_int_le_iff)
  then have "\<bar>?x\<bar> \<le> of_int (2 ^ 53) * 2 powi k" unfolding ax by (rule mult_right_mono) simp
  also have "of_int (2 ^ 53) * 2 powi k = (2 powi (53 + k) :: rat)" by (simp add: power_int_add)
  finally have top: "\<bar>?x\<bar> \<le> 2 powi (53 + k)" .
  from exponent_bounds(1) [OF x] this have "2 powi ?e \<le> (2 powi (53 + k) :: rat)" by (rule order_trans)
  then have e: "?e \<le> 53 + k" by (rule two_powi_le)
  have split: "?x / 2 powi (?e - 52) = of_int m * 2 powi (k - (?e - 52))" by (simp add: power_int_diff)
  obtain j :: int where j: "?x / 2 powi (?e - 52) = of_int j"
  proof (cases "?e = 53 + k")
    case True
    then have "2 powi (53 + k) \<le> \<bar>?x\<bar>" using exponent_bounds(1) [OF x] by simp
    with top have "\<bar>?x\<bar> = 2 powi (53 + k)" by simp
    then have "of_int \<bar>m\<bar> * 2 powi k = (of_int (2 ^ 53) * 2 powi k :: rat)"
      unfolding ax by (simp add: power_int_add)
    then have "\<bar>m\<bar> = 2 ^ 53" by (metis mult_right_cancel of_int_eq_iff power_int_eq_0_iff zero_neq_numeral)
    then consider "m = 2 * 2 ^ 52" | "m = 2 * - (2 ^ 52)" by (auto simp: abs_if split: if_splits)
    then obtain h where h: "m = 2 * h" by cases blast+
    have "k - (?e - 52) = - 1" using True by simp
    then have "of_int m * 2 powi (k - (?e - 52)) = (of_int m * 2 powi (- 1) :: rat)" by (simp only:)
    also have "\<dots> = of_int h" by (simp add: h power_int_minus)
    finally have "of_int m * 2 powi (k - (?e - 52)) = (of_int h :: rat)" .
    with split that show thesis by simp
  next
    case False
    with e have "k - (?e - 52) = int (nat (k - (?e - 52)))" by simp
    then have "2 powi (k - (?e - 52)) = (of_int (2 ^ nat (k - (?e - 52))) :: rat)"
      by (metis of_int_numeral of_int_power power_int_of_nat)
    with split have "?x / 2 powi (?e - 52) = of_int (m * 2 ^ nat (k - (?e - 52)))" by (simp only: of_int_mult)
    with that show thesis .
  qed
  have "to_double ?x = of_int (round_even (?x / 2 powi (?e - 52))) * 2 powi (?e - 52)"
    using x unfolding to_double_def Let_def by (simp only: if_False)
  also have "\<dots> = ?x / 2 powi (?e - 52) * 2 powi (?e - 52)" unfolding j round_even_int ..
  finally show ?thesis by simp
qed (simp add: to_double_def)

lemma to_double_int: "\<bar>m\<bar> \<le> 2 ^ 53 \<Longrightarrow> to_double (of_int m) = of_int m"
  using to_double_exact [of m 0] by simp

lemma double_int_exact [simp]: "\<bar>m\<bar> \<le> 2 ^ 53 \<Longrightarrow> double_int m = m"
  by (simp add: double_int_def to_double_int)

lemma to_double_form:
  obtains m k where "to_double x = of_int m * 2 powi k" "\<bar>m\<bar> \<le> 2 ^ 53"
proof (cases "x = 0")
  case True
  then show thesis using that [of 0 0] by (simp add: to_double_def)
next
  case False
  let ?u = "2 powi (rat_exponent x - 52) :: rat"
  have "(2 :: rat) powi (rat_exponent x + 1) = 2 powi (53 + (rat_exponent x - 52))"
    by (rule arg_cong [where f = "(powi) 2"]) simp
  also have "\<dots> = 2 powi 53 * ?u" by (rule power_int_add) simp
  also have "2 powi 53 = (of_int (2 ^ 53) :: rat)" by simp
  finally have "\<bar>x\<bar> < of_int (2 ^ 53) * ?u" using exponent_bounds(2) [OF False] by simp
  then have "\<bar>x / ?u\<bar> < of_int (2 ^ 53)" by (simp add: abs_div_pos [symmetric] pos_divide_less_eq)
  from round_even_range [OF this] show thesis
    using that [of "round_even (x / ?u)" "rat_exponent x - 52"] False by (simp add: to_double_def Let_def)
qed

lemma to_double_idem [simp]: "to_double (to_double x) = to_double x"
  by (rule to_double_form [of x]) (simp add: to_double_exact)

lemma is_double_to_double [simp]: "is_double (to_double x)"
  by (simp add: is_double_def)

lemma is_double_scaled:
  assumes "is_double x"
  shows "to_double (x * 2 powi k) = x * 2 powi k"
proof -
  obtain m j where "to_double x = of_int m * 2 powi j" "\<bar>m\<bar> \<le> 2 ^ 53" by (rule to_double_form)
  then have "x * 2 powi k = of_int m * 2 powi (j + k)" "\<bar>m\<bar> \<le> 2 ^ 53"
    using assms by (simp_all add: is_double_def power_int_add)
  with to_double_exact show ?thesis by metis
qed

lemma to_double_error: "\<bar>to_double x - x\<bar> \<le> \<bar>x\<bar> / 2 ^ 53"
proof (cases "x = 0")
  case False
  let ?u = "2 powi (rat_exponent x - 52) :: rat"
  have "to_double x - x = (of_int (round_even (x / ?u)) - x / ?u) * ?u"
    using False by (simp add: to_double_def Let_def left_diff_distrib)
  then have "\<bar>to_double x - x\<bar> = \<bar>of_int (round_even (x / ?u)) - x / ?u\<bar> * ?u" by (simp add: abs_mult)
  also have "\<dots> \<le> 1 / 2 * ?u" by (rule mult_right_mono [OF round_even_error]) simp
  also have "\<dots> = 2 powi rat_exponent x / 2 ^ 53" by (simp add: power_int_diff)
  also have "\<dots> \<le> \<bar>x\<bar> / 2 ^ 53" using exponent_bounds(1) [OF False] by (simp add: divide_right_mono)
  finally show ?thesis .
qed (simp add: to_double_def)

end
