(* ===== verification/Wireguard_Doubles.thy ===== *)
theory Wireguard_Doubles
  imports Wireguard Doubles
begin

text \<open>
  The key arithmetic of \<open>Wireguard\<close> as the code executes it: the limbs are doubles, and every sum,
  difference and product of them is rounded to the nearest double (\<open>double_int\<close>). Division by \<open>65536\<close>
  and \<open>Math.floor\<close> are exact on doubles, and the bit operators work on 32-bit integers, so neither is
  rounded. The definitions have the names of \<open>Wireguard\<close> with the prefix \<open>fl_\<close>; the theorem at the
  end is that the whole computation of a public key is the one on integers.
\<close>

section \<open>The code on doubles\<close>

definition fl_carry_step :: "nat \<Rightarrow> int list \<Rightarrow> int list" where
  "fl_carry_step i o16 =
     (let c = o16 ! i div 65536;
          o16 = o16[(i + 1) mod 16 :=
            double_int (o16 ! ((i + 1) mod 16) + double_int ((if i < 15 then 1 else 38) * c))]
      in o16[i := o16 ! i AND 65535])"

definition fl_carry :: "int list \<Rightarrow> int list" where
  "fl_carry o16 = fold fl_carry_step [0..<16] o16"

definition fl_add :: "int list \<Rightarrow> int list \<Rightarrow> int list" where
  "fl_add a b = map2 (\<lambda>x y. toInt32 (double_int (x + y))) a b"

definition fl_subtract :: "int list \<Rightarrow> int list \<Rightarrow> int list" where
  "fl_subtract a b = map2 (\<lambda>x y. toInt32 (double_int (x - y))) a b"

text \<open>The sums \<open>t[i + j] += a[i] * b[j]\<close> that reach the limb \<open>k\<close>, in the order of the two loops.\<close>

definition fl_product_step :: "int list \<Rightarrow> int list \<Rightarrow> nat \<Rightarrow> nat \<Rightarrow> int \<Rightarrow> int" where
  "fl_product_step a b k i t =
     (if i \<le> k \<and> k - i < 16 then double_int (t + double_int (a ! i * b ! (k - i))) else t)"

definition fl_product_limb :: "int list \<Rightarrow> int list \<Rightarrow> nat \<Rightarrow> int" where
  "fl_product_limb a b k = fold (fl_product_step a b k) [0..<16] 0"

definition fl_multmod :: "int list \<Rightarrow> int list \<Rightarrow> int list" where
  "fl_multmod a b =
     (let t = map (fl_product_limb a b) [0..<31];
          o16 = map (\<lambda>i. if i < 15 then double_int (t ! i + double_int (38 * t ! (i + 16))) else t ! i) [0..<16]
      in fl_carry (fl_carry o16))"

fun fl_invert_loop :: "nat \<Rightarrow> int list \<Rightarrow> int list \<Rightarrow> int list" where
  "fl_invert_loop 0 c i = c"
| "fl_invert_loop (Suc a) c i =
     (let c = fl_multmod c c; c = (if a \<noteq> 2 \<and> a \<noteq> 4 then fl_multmod c i else c)
      in fl_invert_loop a c i)"

definition fl_invert :: "int list \<Rightarrow> int list" where
  "fl_invert i = fl_invert_loop 254 i i"

definition fl_pack_round :: "int list \<Rightarrow> int list" where
  "fl_pack_round t =
     (let m = (gf [])[0 := double_int (t ! 0 - 65517)];
          m = fold (\<lambda>i m. let m = m[i := double_int (double_int (t ! i - 65535) - bit16 (m ! (i - 1)))]
                in m[i - 1 := toInt32 (m ! (i - 1)) AND 65535]) [1..<15] m;
          m = m[15 := double_int (double_int (t ! 15 - 32767) - bit16 (m ! 14))];
          b = bit16 (m ! 15);
          m = m[14 := toInt32 (m ! 14) AND 65535]
      in fst (cswap t m (1 - b)))"

definition fl_pack :: "int list \<Rightarrow> int list" where
  "fl_pack n =
     (let t = fl_carry (fl_carry (fl_carry n)); t = fl_pack_round (fl_pack_round t)
      in concat (map (\<lambda>x. [toInt32 x AND 255, drop_bit 8 (toInt32 x) mod 256]) t))"

definition fl_ladder_step :: "int list \<Rightarrow> nat \<Rightarrow> ladder \<Rightarrow> ladder" where
  "fl_ladder_step z i st = (case st of (a, b, c, d) \<Rightarrow>
     let r = drop_bit (i mod 8) (z ! (i div 8)) AND 1;
         (a, b) = cswap a b r;
         (c, d) = cswap c d r;
         e = fl_add a c;
         a = fl_subtract a c;
         c = fl_add b d;
         b = fl_subtract b d;
         d = fl_multmod e e;
         f = fl_multmod a a;
         a = fl_multmod c a;
         c = fl_multmod b e;
         e = fl_add a c;
         a = fl_subtract a c;
         b = fl_multmod a a;
         c = fl_subtract d f;
         a = fl_multmod c (gf [56129, 1]);
         a = fl_add a d;
         c = fl_multmod c a;
         a = fl_multmod d f;
         d = fl_multmod b (gf [9]);
         b = fl_multmod e e;
         (a, b) = cswap a b r;
         (c, d) = cswap c d r
     in (a, b, c, d))"

definition fl_generatePublicKey :: "int list \<Rightarrow> int list" where
  "fl_generatePublicKey privateKey =
     (let z = map (\<lambda>i. if i < length privateKey then privateKey ! i else 0) [0..<32];
          z = clamp z;
          (a, b, c, d) = fold (fl_ladder_step z) (rev [0..<255]) (gf [1], gf [9], gf [], gf [1]);
          c = fl_invert c;
          a = fl_multmod a c
      in fl_pack a)"

section \<open>Limbs in bounds\<close>

definition limbs_within :: "int \<Rightarrow> int list \<Rightarrow> bool" where
  "limbs_within B xs \<longleftrightarrow> length xs = 16 \<and> (\<forall>i < 16. \<bar>xs ! i\<bar> \<le> B)"

lemma within_length: "limbs_within B xs \<Longrightarrow> length xs = 16"
  by (simp add: limbs_within_def)

lemma within_mono: "limbs_within B xs \<Longrightarrow> B \<le> C \<Longrightarrow> limbs_within C xs"
  by (auto simp: limbs_within_def intro: order_trans)

section \<open>Carrying\<close>

text \<open>The carries are bounded by \<open>C\<close>, limb by limb.\<close>

definition carries_within :: "(nat \<Rightarrow> int) \<Rightarrow> int list \<Rightarrow> bool" where
  "carries_within C o16 \<longleftrightarrow> length o16 = 16
     \<and> (\<forall>i < 16. 0 \<le> C i \<and> C i \<le> 2 ^ 47 \<and> \<bar>o16 ! i\<bar> \<le> 2 ^ 52
        \<and> (\<forall>d. \<bar>d\<bar> \<le> C i \<longrightarrow> \<bar>(o16 ! i + d) div 65536\<bar> \<le> C (Suc i)))"

lemma low_bits_range: "0 \<le> (x :: int) AND 65535" "(x :: int) AND 65535 < 65536"
  by (simp_all add: and_mask)

lemma carry_prefix:
  assumes "carries_within C o16" "i \<le> 15"
  shows "fold fl_carry_step [0..<i] o16 = fold carry_step [0..<i] o16
    \<and> length (fold carry_step [0..<i] o16) = 16
    \<and> (\<forall>j < i. 0 \<le> fold carry_step [0..<i] o16 ! j \<and> fold carry_step [0..<i] o16 ! j < 65536)
    \<and> \<bar>fold carry_step [0..<i] o16 ! i - o16 ! i\<bar> \<le> C i
    \<and> (\<forall>j. i < j \<and> j < 16 \<longrightarrow> fold carry_step [0..<i] o16 ! j = o16 ! j)"
  using assms(2)
proof (induction i)
  case 0
  then show ?case using assms(1) by (simp add: carries_within_def)
next
  case (Suc i)
  let ?p = "fold carry_step [0..<i] o16"
  let ?c = "?p ! i div 65536"
  have IH: "fold fl_carry_step [0..<i] o16 = ?p" "length ?p = 16" "\<forall>j < i. 0 \<le> ?p ! j \<and> ?p ! j < 65536"
    "\<bar>?p ! i - o16 ! i\<bar> \<le> C i" "\<forall>j. i < j \<and> j < 16 \<longrightarrow> ?p ! j = o16 ! j"
    using Suc by simp_all
  have i: "i < 16" "Suc i < 16" "i < 15" using Suc.prems by simp_all
  have C: "\<bar>o16 ! Suc i\<bar> \<le> 2 ^ 52" "C (Suc i) \<le> 2 ^ 47" "\<forall>d. \<bar>d\<bar> \<le> C i \<longrightarrow> \<bar>(o16 ! i + d) div 65536\<bar> \<le> C (Suc i)"
    using assms(1) i by (simp_all add: carries_within_def)
  from C(3) IH(4) have c: "\<bar>?c\<bar> \<le> C (Suc i)" by (metis add.commute diff_add_cancel)
  have next_limb: "?p ! Suc i = o16 ! Suc i" using IH(5) i by simp
  have exact: "double_int (?p ! Suc i + double_int ?c) = ?p ! Suc i + ?c"
    using c C(1,2) by (simp add: next_limb)
  have step: "carry_step i ?p = ?p[Suc i := ?p ! Suc i + ?c, i := ?p ! i AND 65535]"
    using i by (simp add: carry_step_def Let_def)
  have fl: "fl_carry_step i ?p = carry_step i ?p"
    using i exact unfolding step by (simp add: fl_carry_step_def Let_def)
  have upt: "[0..<Suc i] = [0..<i] @ [i]" by simp
  have eq: "fold fl_carry_step [0..<Suc i] o16 = carry_step i ?p" "fold carry_step [0..<Suc i] o16 = carry_step i ?p"
    unfolding upt fold_append by (simp_all add: IH(1) fl)
  show ?case unfolding eq step using IH(2,3,5) i c low_bits_range
    by (auto simp: nth_list_update less_Suc_eq next_limb)
qed

lemma carry_within:
  assumes C: "carries_within C o16" "C 16 \<le> 2 ^ 40"
  shows "fl_carry o16 = carry o16" "length (carry o16) = 16" "\<bar>carry o16 ! 0\<bar> \<le> 65535 + 38 * C 16"
    and "\<And>j. \<lbrakk>0 < j; j < 16\<rbrakk> \<Longrightarrow> 0 \<le> carry o16 ! j \<and> carry o16 ! j < 65536"
proof -
  let ?p = "fold carry_step [0..<15] o16"
  let ?c = "?p ! 15 div 65536"
  have p: "fold fl_carry_step [0..<15] o16 = ?p" "length ?p = 16" "\<forall>j < 15. 0 \<le> ?p ! j \<and> ?p ! j < 65536"
    "\<bar>?p ! 15 - o16 ! 15\<bar> \<le> C 15"
    using carry_prefix [OF C(1), of 15] by simp_all
  have "\<forall>d. \<bar>d\<bar> \<le> C 15 \<longrightarrow> \<bar>(o16 ! 15 + d) div 65536\<bar> \<le> C (Suc 15)"
  proof -
    have "15 < (16 :: nat)" by simp
    with C(1) show ?thesis unfolding carries_within_def by blast
  qed
  then have "\<bar>(o16 ! 15 + (?p ! 15 - o16 ! 15)) div 65536\<bar> \<le> C (Suc 15)" using p(4) by blast
  moreover have "o16 ! 15 + (?p ! 15 - o16 ! 15) = ?p ! 15" "Suc 15 = 16" by simp_all
  ultimately have c: "\<bar>?c\<bar> \<le> C 16" by (simp only:)
  have low: "0 \<le> ?p ! 0" "?p ! 0 < 65536" using p(3) by simp_all
  have exact: "double_int (?p ! 0 + double_int (38 * ?c)) = ?p ! 0 + 38 * ?c"
    using c C(2) low by simp
  have step: "carry_step 15 ?p = ?p[0 := ?p ! 0 + 38 * ?c, 15 := ?p ! 15 AND 65535]"
    by (simp add: carry_step_def Let_def)
  have fl: "fl_carry_step 15 ?p = carry_step 15 ?p"
    using exact unfolding step by (simp add: fl_carry_step_def Let_def)
  have upt: "[0..<16] = [0..<15] @ [15]" by (simp add: upt_rec)
  have carry: "carry o16 = carry_step 15 ?p" unfolding carry_def upt fold_append by simp
  show "fl_carry o16 = carry o16" unfolding carry fl_carry_def upt fold_append by (simp add: p(1) fl)
  show "length (carry o16) = 16" using C(1) by (simp add: carries_within_def)
  show "\<bar>carry o16 ! 0\<bar> \<le> 65535 + 38 * C 16" unfolding carry step using c low p(2) by simp
  show "0 \<le> carry o16 ! j \<and> carry o16 ! j < 65536" if "0 < j" "j < 16" for j
    unfolding carry step using that p(2,3) low_bits_range by (auto simp: nth_list_update)
qed

text \<open>Three cases: the sums of a product, what the first carry leaves of them, and small limbs.\<close>

lemma div_within: "\<bar>x\<bar> \<le> 65536 * k \<Longrightarrow> \<bar>x div 65536\<bar> \<le> (k :: int)"
  by linarith

lemma div_one: "- 65536 \<le> x \<Longrightarrow> x < 131072 \<Longrightarrow> \<bar>x div 65536\<bar> \<le> (1 :: int)"
  by linarith

lemma carry_large:
  assumes "limbs_within (2 ^ 52) o16"
  shows "fl_carry o16 = carry o16" "length (carry o16) = 16" "\<bar>carry o16 ! 0\<bar> \<le> 2 ^ 43"
    and "\<And>j. \<lbrakk>0 < j; j < 16\<rbrakk> \<Longrightarrow> 0 \<le> carry o16 ! j \<and> carry o16 ! j < 65536"
proof -
  have "carries_within (\<lambda>i. 2 ^ 37) o16"
    using assms unfolding carries_within_def limbs_within_def
    by (auto intro!: div_within)
  note w = carry_within [OF this]
  show "fl_carry o16 = carry o16" "length (carry o16) = 16" using w(1,2) by simp_all
  show "\<bar>carry o16 ! 0\<bar> \<le> 2 ^ 43" using w(3) by simp
  show "0 \<le> carry o16 ! j \<and> carry o16 ! j < 65536" if "0 < j" "j < 16" for j using w(4) that by simp
qed

lemma carry_small:
  assumes "limbs_within (2 ^ 20) o16"
  shows "fl_carry o16 = carry o16" "limbs_within (2 ^ 17) (carry o16)"
proof -
  have "carries_within (\<lambda>i. 32) o16"
    using assms unfolding carries_within_def limbs_within_def
    by (auto intro!: div_within)
  note w = carry_within [OF this]
  show "fl_carry o16 = carry o16" using w(1) by simp
  have "\<bar>carry o16 ! j\<bar> \<le> 2 ^ 17" if "j < 16" for j
    using w(3) w(4) [of j] that by (cases "j = 0") auto
  with w(2) show "limbs_within (2 ^ 17) (carry o16)" by (simp add: limbs_within_def)
qed

lemma carry_again:
  assumes "length o16 = 16" "\<bar>o16 ! 0\<bar> \<le> 2 ^ 43" "\<And>j. \<lbrakk>0 < j; j < 16\<rbrakk> \<Longrightarrow> 0 \<le> o16 ! j \<and> o16 ! j < 65536"
  shows "fl_carry o16 = carry o16" "limbs_within (2 ^ 17) (carry o16)"
proof -
  define C :: "nat \<Rightarrow> int" where "C i = (if i = 0 then 0 else if i = 1 then 2 ^ 27 else if i = 2 then 2 ^ 12 else 1)" for i
  have "\<bar>(o16 ! i + d) div 65536\<bar> \<le> C (Suc i)" if i: "i < 16" and d: "\<bar>d\<bar> \<le> C i" for i d
  proof -
    consider "i = 0" | "i = 1" | "i = 2" | "3 \<le> i" by linarith
    then show ?thesis
    proof cases
      case 1
      then have "\<bar>o16 ! i + d\<bar> \<le> 65536 * 2 ^ 27" using assms(2) d by (simp add: C_def)
      from div_within [OF this] 1 show ?thesis by (simp add: C_def)
    next
      case 2
      then have "\<bar>d\<bar> \<le> 2 ^ 27" using d by (simp add: C_def)
      moreover have "0 \<le> o16 ! i" "o16 ! i < 65536" using assms(3) [of i] 2 by simp_all
      ultimately have "\<bar>o16 ! i + d\<bar> \<le> 65536 * 2 ^ 12" by simp
      from div_within [OF this] 2 show ?thesis by (simp add: C_def)
    next
      case 3
      then have "\<bar>d\<bar> \<le> 2 ^ 12" using d by (simp add: C_def)
      moreover have "0 \<le> o16 ! i" "o16 ! i < 65536" using assms(3) [of i] 3 by simp_all
      ultimately have "\<bar>(o16 ! i + d) div 65536\<bar> \<le> 1" by (intro div_one) simp_all
      with 3 show ?thesis by (simp add: C_def)
    next
      case 4
      then have "\<bar>d\<bar> \<le> 1" using d by (simp add: C_def)
      moreover have "0 \<le> o16 ! i" "o16 ! i < 65536" using assms(3) [of i] 4 i by simp_all
      ultimately have "\<bar>(o16 ! i + d) div 65536\<bar> \<le> 1" by (intro div_one) simp_all
      with 4 show ?thesis by (simp add: C_def)
    qed
  qed
  moreover have "\<bar>o16 ! i\<bar> \<le> 2 ^ 52" if "i < 16" for i
  proof (cases "i = 0")
    case True
    with assms(2) show ?thesis by simp
  next
    case False
    then have "0 \<le> o16 ! i" "o16 ! i < 65536" using assms(3) [of i] that by simp_all
    then show ?thesis by simp
  qed
  moreover have "0 \<le> C i \<and> C i \<le> 2 ^ 47" for i by (simp add: C_def)
  ultimately have "carries_within C o16" using assms(1) unfolding carries_within_def by blast
  note w = carry_within [OF this]
  have last: "C 16 = 1" by (simp add: C_def)
  show "fl_carry o16 = carry o16" using w(1) by (simp add: last)
  have "\<bar>carry o16 ! j\<bar> \<le> 2 ^ 17" if "j < 16" for j
    using w(3) w(4) [of j] that last by (cases "j = 0") auto
  with w(2) last show "limbs_within (2 ^ 17) (carry o16)" by (simp add: limbs_within_def)
qed

section \<open>Products\<close>

lemma product_term:
  assumes "limbs_within (2 ^ 21) a" "limbs_within (2 ^ 21) b" "i < 16" "j < 16"
  shows "\<bar>a ! i * b ! j\<bar> \<le> 2 ^ 42"
proof -
  have "\<bar>a ! i\<bar> \<le> 2 ^ 21" "\<bar>b ! j\<bar> \<le> 2 ^ 21" using assms by (simp_all add: limbs_within_def)
  then have "\<bar>a ! i\<bar> * \<bar>b ! j\<bar> \<le> 2 ^ 21 * 2 ^ 21" by (intro mult_mono) simp_all
  then show ?thesis by (simp add: abs_mult)
qed

lemma product_fold:
  assumes "limbs_within (2 ^ 21) a" "limbs_within (2 ^ 21) b"
    and "\<forall>i \<in> set xs. i < 16" "\<bar>t\<bar> + int (length xs) * 2 ^ 42 \<le> 2 ^ 46"
  shows "fold (fl_product_step a b k) xs t
      = t + sum_list (map (\<lambda>i. if i \<le> k \<and> k - i < 16 then a ! i * b ! (k - i) else 0) xs)
    \<and> \<bar>fold (fl_product_step a b k) xs t\<bar> \<le> 2 ^ 46"
  using assms(3,4)
proof (induction xs arbitrary: t)
  case (Cons i xs)
  let ?g = "if i \<le> k \<and> k - i < 16 then a ! i * b ! (k - i) else 0"
  have g: "\<bar>?g\<bar> \<le> 2 ^ 42" using product_term [OF assms(1,2), of i "k - i"] Cons.prems(1) by simp
  have len: "\<bar>t\<bar> + 2 ^ 42 + int (length xs) * 2 ^ 42 \<le> 2 ^ 46" using Cons.prems(2) by simp
  then have next_sum: "\<bar>t + ?g\<bar> + int (length xs) * 2 ^ 42 \<le> 2 ^ 46" using g by linarith
  then have "\<bar>t + ?g\<bar> \<le> 2 ^ 53" by simp
  with g have "fl_product_step a b k i t = t + ?g"
    by (auto simp: fl_product_step_def split: if_splits)
  then have step: "fold (fl_product_step a b k) (i # xs) t = fold (fl_product_step a b k) xs (t + ?g)" by simp
  have "\<forall>i \<in> set xs. i < 16" using Cons.prems(1) by simp
  note IH = Cons.IH [OF this next_sum]
  from IH [THEN conjunct1] IH [THEN conjunct2] show ?case
    unfolding step list.map sum_list.Cons by (intro conjI) (simp_all only: add.assoc)
qed simp

lemma fl_product_limb_eq:
  assumes "limbs_within (2 ^ 21) a" "limbs_within (2 ^ 21) b"
  shows "fl_product_limb a b k = product_limb a b k" "\<bar>product_limb a b k\<bar> \<le> 2 ^ 46"
proof -
  have "\<forall>i \<in> set [0..<16]. i < 16" "\<bar>0\<bar> + int (length [0..<16]) * 2 ^ 42 \<le> 2 ^ 46" by simp_all
  note sum = product_fold [OF assms this, of k]
  have eq: "fl_product_limb a b k = product_limb a b k"
    unfolding fl_product_limb_def product_limb_def using sum [THEN conjunct1] by (simp only: add_0)
  then show "fl_product_limb a b k = product_limb a b k" .
  show "\<bar>product_limb a b k\<bar> \<le> 2 ^ 46"
    using sum [THEN conjunct2] unfolding eq [symmetric] fl_product_limb_def .
qed

lemma fl_multmod_eq:
  assumes "limbs_within (2 ^ 21) a" "limbs_within (2 ^ 21) b"
  shows "fl_multmod a b = multmod a b" "limbs_within (2 ^ 17) (multmod a b)"
proof -
  note t = fl_product_limb_eq [OF assms]
  have limbs: "fl_product_limb a b = product_limb a b" using t(1) by (simp add: fun_eq_iff)
  have low: "double_int (product_limb a b i + double_int (38 * product_limb a b (i + 16)))
      = product_limb a b i + 38 * product_limb a b (i + 16)" for i
    using t(2) [of i] t(2) [of "i + 16"] by simp
  have fl: "fl_multmod a b = fl_carry (fl_carry (folded a b))"
    unfolding fl_multmod_def folded_def Let_def limbs
    by (intro arg_cong [where f = fl_carry] map_cong) (auto simp: low)
  have within: "limbs_within (2 ^ 52) (folded a b)"
  proof -
    have "\<bar>product_limb a b i + 38 * product_limb a b (i + 16)\<bar> \<le> 2 ^ 52" "\<bar>product_limb a b i\<bar> \<le> 2 ^ 52" for i
      using t(2) [of i] t(2) [of "i + 16"] by simp_all
    then show ?thesis by (simp add: limbs_within_def folded_def)
  qed
  note first = carry_large [OF within]
  have second: "fl_carry (carry (folded a b)) = carry (carry (folded a b))"
    "limbs_within (2 ^ 17) (carry (carry (folded a b)))"
    by (rule carry_again [OF first(2,3)]; use first(4) in simp)+
  show "fl_multmod a b = multmod a b" unfolding fl multmod_folded first(1) second(1) ..
  show "limbs_within (2 ^ 17) (multmod a b)" unfolding multmod_folded by (rule second(2))
qed

lemma fl_multmod_small:
  assumes "limbs_within (2 ^ 18) a" "limbs_within (2 ^ 18) b"
  shows "fl_multmod a b = multmod a b" "limbs_within (2 ^ 17) (multmod a b)" "limbs_within (2 ^ 18) (multmod a b)"
proof -
  have w: "limbs_within (2 ^ 21) a" "limbs_within (2 ^ 21) b" by (rule within_mono [OF assms(1)] within_mono [OF assms(2)]; simp)+
  show "fl_multmod a b = multmod a b" "limbs_within (2 ^ 17) (multmod a b)" by (fact fl_multmod_eq [OF w])+
  show "limbs_within (2 ^ 18) (multmod a b)" by (rule within_mono [OF fl_multmod_eq(2) [OF w]]) simp
qed

lemma fl_invert_loop_eq:
  "\<lbrakk>limbs_within (2 ^ 18) c; limbs_within (2 ^ 18) i\<rbrakk> \<Longrightarrow>
   fl_invert_loop n c i = invert_loop n c i \<and> limbs_within (2 ^ 18) (invert_loop n c i)"
proof (induction n arbitrary: c)
  case (Suc n)
  note square = fl_multmod_small [OF Suc.prems(1,1)]
  note times = fl_multmod_small [OF square(3) Suc.prems(2)]
  show ?case using Suc.IH [OF square(3) Suc.prems(2)] Suc.IH [OF times(3) Suc.prems(2)]
    by (cases "n \<noteq> 2 \<and> n \<noteq> 4") (simp_all only: fl_invert_loop.simps invert_loop.simps Let_def square(1) times(1) if_True if_False simp_thms)
qed simp

section \<open>Sums, differences and swaps\<close>

lemma toInt32_small: "\<bar>x\<bar> \<le> 2 ^ 30 \<Longrightarrow> toInt32 x = x"
  unfolding toInt32_def by (rule signed_take_bit_int_eq_self) simp_all

lemma fl_add_eq:
  assumes "limbs_within (2 ^ 17) a" "limbs_within (2 ^ 17) b"
  shows "fl_add a b = add a b" "limbs_within (2 ^ 18) (add a b)"
    "fl_subtract a b = subtract a b" "limbs_within (2 ^ 18) (subtract a b)"
proof -
  have l: "length a = 16" "length b = 16" using assms by (simp_all add: limbs_within_def)
  have e: "\<bar>a ! i\<bar> \<le> 2 ^ 17" "\<bar>b ! i\<bar> \<le> 2 ^ 17" if "i < 16" for i
    using assms that by (simp_all add: limbs_within_def)
  have small: "\<bar>a ! i + b ! i\<bar> \<le> 2 ^ 18" "\<bar>a ! i - b ! i\<bar> \<le> 2 ^ 18" if "i < 16" for i
    using e [OF that] by simp_all
  have exact: "double_int (a ! i + b ! i) = a ! i + b ! i" "double_int (a ! i - b ! i) = a ! i - b ! i" if "i < 16" for i
    by (rule double_int_exact, rule order_trans [OF small(1) [OF that]], simp)
      (rule double_int_exact, rule order_trans [OF small(2) [OF that]], simp)
  show "fl_add a b = add a b" unfolding fl_add_def add_def by (rule nth_equalityI) (simp_all add: l exact)
  show "fl_subtract a b = subtract a b"
    unfolding fl_subtract_def subtract_def by (rule nth_equalityI) (simp_all add: l exact)
  have "toInt32 (a ! i + b ! i) = a ! i + b ! i" "toInt32 (a ! i - b ! i) = a ! i - b ! i" if "i < 16" for i
    using small [OF that] by (simp_all add: toInt32_small)
  then show "limbs_within (2 ^ 18) (add a b)" "limbs_within (2 ^ 18) (subtract a b)"
    using l small by (simp_all add: limbs_within_def add_def subtract_def)
qed

lemma toInt32_xor: "toInt32 (p XOR q) = toInt32 p XOR toInt32 q"
  unfolding toInt32_def by (rule bit_eqI) (simp add: bit_signed_take_bit_iff bit_xor_iff)

lemma cswap_limb_bit:
  assumes "\<bar>p\<bar> \<le> 2 ^ 30" "\<bar>q\<bar> \<le> 2 ^ 30" "b = 0 \<or> b = 1"
  shows "cswap_limb b p q = (if b = 1 then (q, p) else (p, q))"
proof -
  have pq: "toInt32 p = p" "toInt32 q = q" using assms(1,2) toInt32_small by simp_all
  have x: "toInt32 (p XOR q) = p XOR q"
    using pq by (simp only: toInt32_xor)
  have swap: "p XOR (p XOR q) = q" "q XOR (p XOR q) = p"
    by (simp_all add: bit_eq_iff bit_xor_iff) blast
  from assms(3) show ?thesis
  proof
    assume "b = 0"
    then show ?thesis by (simp add: cswap_limb_def Let_def toInt32_def [of 0] pq)
  next
    assume "b = 1"
    moreover have "toInt32 (- 1) = - 1" by (simp add: toInt32_small)
    ultimately show ?thesis by (simp add: cswap_limb_def Let_def x swap pq)
  qed
qed

lemma cswap_bit:
  assumes "limbs_within (2 ^ 30) a" "limbs_within (2 ^ 30) b" "r = 0 \<or> r = 1"
  shows "cswap a b r = (if r = 1 then (b, a) else (a, b))"
proof -
  have limbs: "cswap_limb r (a ! i) (b ! i) = (if r = 1 then (b ! i, a ! i) else (a ! i, b ! i))" if "i < 16" for i
    using assms that by (intro cswap_limb_bit) (simp_all add: limbs_within_def)
  have "length a = 16" "length b = 16" using assms by (simp_all add: limbs_within_def)
  then have "map2 (cswap_limb r) a b = (if r = 1 then zip b a else zip a b)"
    by (intro nth_equalityI) (simp_all add: limbs split: prod.splits)
  with \<open>length a = 16\<close> \<open>length b = 16\<close> show ?thesis unfolding cswap_def Let_def by simp
qed

lemma bit_of: "(x :: int) AND 1 = 0 \<or> x AND 1 = 1"
  by (simp add: and_one_eq mod2_eq_if)

lemma within_list: "limbs_within B xs \<longleftrightarrow> length xs = 16 \<and> list_all (\<lambda>x. \<bar>x\<bar> \<le> B) xs"
  by (auto simp: limbs_within_def list_all_length)

lemma cswap_within:
  assumes "limbs_within B a" "limbs_within B b" "B \<le> 2 ^ 30"
  obtains a' b' where "cswap a b (x AND 1) = (a', b')" "limbs_within B a'" "limbs_within B b'"
  using cswap_bit [OF within_mono [OF assms(1,3)] within_mono [OF assms(2,3)] bit_of [of x]] assms(1,2)
  by (cases "x AND 1 = 1") auto

section \<open>The ladder\<close>

fun ladder_within :: "ladder \<Rightarrow> bool" where
  "ladder_within (a, b, c, d) \<longleftrightarrow> limbs_within (2 ^ 17) a \<and> limbs_within (2 ^ 17) b
     \<and> limbs_within (2 ^ 17) c \<and> limbs_within (2 ^ 17) d"

lemma constants_within: "limbs_within (2 ^ 18) (gf [56129, 1])" "limbs_within (2 ^ 18) (gf [9])"
  "ladder_within (gf [1], gf [9], gf [], gf [1])"
  by (simp_all add: within_list gf_def list_all_iff)

lemma fl_ladder_step_eq:
  assumes "ladder_within st"
  shows "fl_ladder_step z i st = ladder_step z i st \<and> ladder_within (ladder_step z i st)"
proof -
  obtain a b c d where st: "st = (a, b, c, d)" by (cases st)
  let ?r = "drop_bit (i mod 8) (z ! (i div 8)) AND 1"
  have le: "(2 :: int) ^ 17 \<le> 2 ^ 30" by simp
  have st': "limbs_within (2 ^ 17) a" "limbs_within (2 ^ 17) b" "limbs_within (2 ^ 17) c" "limbs_within (2 ^ 17) d"
    using assms unfolding st by simp_all
  obtain a1 b1 where ab: "cswap a b ?r = (a1, b1)" "limbs_within (2 ^ 17) a1" "limbs_within (2 ^ 17) b1"
    by (rule cswap_within [OF st'(1,2) le])
  obtain c1 d1 where cd: "cswap c d ?r = (c1, d1)" "limbs_within (2 ^ 17) c1" "limbs_within (2 ^ 17) d1"
    by (rule cswap_within [OF st'(3,4) le])
  note swap = ab(1) cd(1) and w = ab(2,3) cd(2,3)
  define e where "e = add a1 c1"
  define a2 where "a2 = subtract a1 c1"
  define c2 where "c2 = add b1 d1"
  define b2 where "b2 = subtract b1 d1"
  have e: "fl_add a1 c1 = e" "limbs_within (2 ^ 18) e" and a2: "fl_subtract a1 c1 = a2" "limbs_within (2 ^ 18) a2"
    using fl_add_eq [OF w(1,3)] by (simp_all add: e_def a2_def)
  have c2: "fl_add b1 d1 = c2" "limbs_within (2 ^ 18) c2" and b2: "fl_subtract b1 d1 = b2" "limbs_within (2 ^ 18) b2"
    using fl_add_eq [OF w(2,4)] by (simp_all add: c2_def b2_def)
  note d3 = fl_multmod_small [OF e(2) e(2)] and f = fl_multmod_small [OF a2(2) a2(2)]
    and a3 = fl_multmod_small [OF c2(2) a2(2)] and c3 = fl_multmod_small [OF b2(2) e(2)]
  note e4 = fl_add_eq [OF a3(2) c3(2)]
  note b4 = fl_multmod_small [OF e4(4) e4(4)] and c4 = fl_add_eq [OF d3(2) f(2)]
  note a5 = fl_multmod_small [OF c4(4) constants_within(1)]
  note a6 = fl_add_eq [OF a5(2) d3(2)]
  note c7 = fl_multmod_small [OF c4(4) a6(2)] and a7 = fl_multmod_small [OF d3(3) f(3)]
    and d7 = fl_multmod_small [OF b4(3) constants_within(2)] and b7 = fl_multmod_small [OF e4(2) e4(2)]
  note fl = e(1) a2(1) c2(1) b2(1) d3(1) f(1) a3(1) c3(1) e4(1,3) b4(1) c4(1,3) a5(1) a6(1) c7(1) a7(1) d7(1) b7(1)
  note plain = e_def [symmetric] a2_def [symmetric] c2_def [symmetric] b2_def [symmetric]
  obtain a8 b8 where ab8: "cswap (multmod (multmod e e) (multmod a2 a2)) (multmod (add (multmod c2 a2) (multmod b2 e))
      (add (multmod c2 a2) (multmod b2 e))) ?r = (a8, b8)" "limbs_within (2 ^ 17) a8" "limbs_within (2 ^ 17) b8"
    by (rule cswap_within [OF a7(2) b7(2) le])
  obtain c8 d8 where cd8: "cswap (multmod (subtract (multmod e e) (multmod a2 a2))
        (add (multmod (subtract (multmod e e) (multmod a2 a2)) (gf [56129, 1])) (multmod e e)))
      (multmod (multmod (subtract (multmod c2 a2) (multmod b2 e)) (subtract (multmod c2 a2) (multmod b2 e))) (gf [9])) ?r
      = (c8, d8)" "limbs_within (2 ^ 17) c8" "limbs_within (2 ^ 17) d8"
    by (rule cswap_within [OF c7(2) d7(2) le])
  have "ladder_step z i st = (a8, b8, c8, d8)"
    unfolding st ladder_step_def prod.case Let_def swap plain ab8(1) cd8(1) by (rule refl)
  moreover have "fl_ladder_step z i st = (a8, b8, c8, d8)"
    unfolding st fl_ladder_step_def prod.case Let_def swap fl ab8(1) cd8(1) by (rule refl)
  ultimately show ?thesis using ab8(2,3) cd8(2,3) by simp
qed

lemma fl_ladder_eq:
  "ladder_within st \<Longrightarrow> fold (fl_ladder_step z) is st = fold (ladder_step z) is st
    \<and> ladder_within (fold (ladder_step z) is st)"
proof (induction "is" arbitrary: st)
  case (Cons i "is")
  note step = fl_ladder_step_eq [OF Cons.prems, of z i]
  from Cons.IH [OF step [THEN conjunct2]] show ?case by (simp add: step [THEN conjunct1])
qed simp

section \<open>Packing\<close>

lemma bit16_bit: "bit16 x = 0 \<or> bit16 x = 1"
  by (simp add: bit16_def bit_of)

lemma bit16_range: "0 \<le> bit16 x" "bit16 x \<le> 1"
  using bit16_bit [of x] by auto

lemma within_update: "limbs_within B m \<Longrightarrow> \<bar>v\<bar> \<le> B \<Longrightarrow> limbs_within B (m[i := v])"
proof -
  assume m: "limbs_within B m" and v: "\<bar>v\<bar> \<le> B"
  have "\<bar>m[i := v] ! j\<bar> \<le> B" if "j < 16" for j
    using m v that by (cases "i = j") (simp_all add: limbs_within_def)
  with m show "limbs_within B (m[i := v])" by (simp add: limbs_within_def)
qed

definition pack_step :: "int list \<Rightarrow> nat \<Rightarrow> int list \<Rightarrow> int list" where
  "pack_step t i m = (let m = m[i := t ! i - 65535 - bit16 (m ! (i - 1))] in m[i - 1 := toInt32 (m ! (i - 1)) AND 65535])"

lemma pack_exact:
  assumes "\<bar>x\<bar> \<le> 2 ^ 30" "0 \<le> k" "k \<le> 65535"
  shows "double_int (double_int (x - k) - bit16 y) = x - k - bit16 y"
  using assms bit16_range [of y] by simp

lemma pack_fold_within:
  assumes "limbs_within B t" "65535 \<le> B"
  shows "\<lbrakk>limbs_within (B + 2 ^ 17) m; \<forall>i \<in> set is. i < 16\<rbrakk> \<Longrightarrow> limbs_within (B + 2 ^ 17) (fold (pack_step t) is m)"
proof (induction "is" arbitrary: m)
  case (Cons i "is")
  have "\<bar>t ! i\<bar> \<le> B" using assms(1) Cons.prems(2) by (simp add: limbs_within_def)
  then have "\<bar>t ! i - 65535 - bit16 (m ! (i - 1))\<bar> \<le> B + 2 ^ 17" using bit16_range [of "m ! (i - 1)"] by simp
  moreover have "\<bar>toInt32 x AND 65535\<bar> \<le> B + 2 ^ 17" for x
    using low_bits_range [of "toInt32 x"] assms(2) by simp
  ultimately have "limbs_within (B + 2 ^ 17) (pack_step t i m)"
    unfolding pack_step_def Let_def by (intro within_update Cons.prems(1))
  with Cons show ?case by simp
qed simp

lemma fl_pack_round_eq:
  assumes t: "limbs_within B t" and B: "65535 \<le> B" "B \<le> 2 ^ 28"
  shows "fl_pack_round t = pack_round t" "limbs_within (B + 2 ^ 17) (pack_round t)"
proof -
  have limb: "\<bar>t ! i\<bar> \<le> 2 ^ 30" if "i < 16" for i
  proof -
    have "\<bar>t ! i\<bar> \<le> B" using t that by (simp add: limbs_within_def)
    with B(2) show ?thesis by simp
  qed
  let ?start = "(gf [])[0 := t ! 0 - 65517]"
  let ?m = "fold (pack_step t) [1..<15] ?start"
  let ?fifteen = "?m[15 := t ! 15 - 32767 - bit16 (?m ! 14)]"
  let ?packed = "?fifteen[14 := toInt32 (?fifteen ! 14) AND 65535]"
  have round: "pack_round t = fst (cswap t ?packed (1 - bit16 (?fifteen ! 15)))"
    unfolding pack_round_def pack_step_def Let_def ..
  have first: "double_int (t ! 0 - 65517) = t ! 0 - 65517" using limb [of 0] by simp
  have steps: "fold (\<lambda>i m. let m = m[i := double_int (double_int (t ! i - 65535) - bit16 (m ! (i - 1)))]
      in m[i - 1 := toInt32 (m ! (i - 1)) AND 65535]) [1..<15] ?start = ?m"
  proof (rule fold_cong [OF refl refl])
    fix i
    assume "i \<in> set [1..<15]"
    then have "\<bar>t ! i\<bar> \<le> 2 ^ 30" by (intro limb) simp
    then have "double_int (double_int (t ! i - 65535) - bit16 y) = t ! i - 65535 - bit16 y" for y
      by (rule pack_exact) simp_all
    then show "(\<lambda>m. let m = m[i := double_int (double_int (t ! i - 65535) - bit16 (m ! (i - 1)))]
        in m[i - 1 := toInt32 (m ! (i - 1)) AND 65535]) = pack_step t i"
      unfolding pack_step_def fun_eq_iff by (simp only: simp_thms)
  qed
  have last: "double_int (double_int (t ! 15 - 32767) - bit16 y) = t ! 15 - 32767 - bit16 y" for y
    by (rule pack_exact) (rule limb, simp_all)
  show "fl_pack_round t = pack_round t"
    unfolding round fl_pack_round_def first Let_def using steps [unfolded Let_def] by (simp only: last)
  have "limbs_within (B + 2 ^ 17) (gf [])" using B by (simp add: within_list gf_def list_all_iff)
  moreover have "\<bar>t ! 0\<bar> \<le> B" using t by (simp add: limbs_within_def)
  then have "\<bar>t ! 0 - 65517\<bar> \<le> B + 2 ^ 17" by simp
  ultimately have "limbs_within (B + 2 ^ 17) ?start" by (rule within_update)
  then have "limbs_within (B + 2 ^ 17) ?m" by (intro pack_fold_within [OF t B(1)]) simp_all
  moreover have "\<bar>t ! 15\<bar> \<le> B" using t by (simp add: limbs_within_def)
  then have "\<bar>t ! 15 - 32767 - bit16 (?m ! 14)\<bar> \<le> B + 2 ^ 17" using bit16_range [of "?m ! 14"] by simp
  moreover have "\<bar>toInt32 x AND 65535\<bar> \<le> B + 2 ^ 17" for x
    using low_bits_range [of "toInt32 x"] B(1) by simp
  ultimately have m: "limbs_within (B + 2 ^ 17) ?packed" by (intro within_update)
  have le: "B + 2 ^ 17 \<le> 2 ^ 30" using B(2) by simp
  have t': "limbs_within (B + 2 ^ 17) t" using within_mono [OF t] by simp
  have "1 - bit16 x = 0 \<or> 1 - bit16 x = 1" for x using bit16_bit [of x] by auto
  from cswap_bit [OF within_mono [OF t' le] within_mono [OF m le] this] m t'
  show "limbs_within (B + 2 ^ 17) (pack_round t)" unfolding round by (auto split: if_splits)
qed

lemma fl_pack_eq:
  assumes "limbs_within (2 ^ 18) n"
  shows "fl_pack n = pack n"
proof -
  have up: "limbs_within (2 ^ 20) t" if "limbs_within (2 ^ 17) t" for t by (rule within_mono [OF that]) simp
  note c1 = carry_small [OF within_mono [OF assms]]
  have one: "fl_carry n = carry n" "limbs_within (2 ^ 17) (carry n)" by (rule c1; simp)+
  note two = carry_small [OF up [OF one(2)]]
  note three = carry_small [OF up [OF two(2)]]
  have r1: "fl_pack_round (carry (carry (carry n))) = pack_round (carry (carry (carry n)))"
    "limbs_within (2 ^ 17 + 2 ^ 17) (pack_round (carry (carry (carry n))))"
    by (rule fl_pack_round_eq [OF three(2)]; simp)+
  have r2: "fl_pack_round (pack_round (carry (carry (carry n)))) = pack_round (pack_round (carry (carry (carry n))))"
    by (rule fl_pack_round_eq(1) [OF r1(2)]) simp_all
  show ?thesis unfolding fl_pack_def pack_def one(1) two(1) three(1) r1(1) r2 Let_def ..
qed

section \<open>The public key\<close>

lemma fl_generatePublicKey_eq: "fl_generatePublicKey privateKey = generatePublicKey privateKey"
proof -
  define z where "z = clamp (map (\<lambda>i. if i < length privateKey then privateKey ! i else 0) [0..<32])"
  let ?start = "(gf [1], gf [9], gf [], gf [1])"
  obtain a b c d where fin: "fold (ladder_step z) (rev [0..<255]) ?start = (a, b, c, d)"
    by (cases "fold (ladder_step z) (rev [0..<255]) ?start")
  note eq = fl_ladder_eq [OF constants_within(3), of z "rev [0..<255]"]
  have w: "limbs_within (2 ^ 18) a" "limbs_within (2 ^ 18) c"
    using eq [THEN conjunct2] within_mono [of "2 ^ 17" _ "2 ^ 18"] unfolding fin by simp_all
  have inv: "fl_invert c = invert c" "limbs_within (2 ^ 18) (invert c)"
    using fl_invert_loop_eq [OF w(2,2)] unfolding fl_invert_def invert_def by blast+
  note out = fl_multmod_small [OF w(1) inv(2)]
  have "fl_generatePublicKey privateKey = fl_pack (fl_multmod a (fl_invert c))"
    unfolding fl_generatePublicKey_def Let_def z_def [symmetric] eq [THEN conjunct1] fin prod.case ..
  also have "\<dots> = pack (multmod a (invert c))" unfolding inv(1) out(1) by (rule fl_pack_eq [OF out(3)])
  also have "\<dots> = generatePublicKey privateKey"
    unfolding generatePublicKey_def Let_def z_def [symmetric] fin prod.case ..
  finally show ?thesis .
qed

end
