(* ===== verification/Json_Codec.thy ===== *)
theory Json_Codec
  imports Js_Prelude
begin

text \<open>
  The contract every settings class of the panel's model has with the form that edits it:
  the form is filled from a document by \<open>fromJson\<close> (\<open>dec\<close>), saved by \<open>toJson\<close>
  (\<open>enc\<close>) and \<open>JSON.stringify\<close>, and filled again from what was saved.

  \<open>json_view\<close> says that saving what was loaded from a saved document writes the same
  document again: opening the editor and saving changes nothing. \<open>json_codec\<close> is the
  stronger contract that the very same object comes back. The parameter \<open>doc\<close> names the
  documents the class is specified for, \<open>ok\<close> the well-formed objects; \<open>None\<close> is a
  thrown \<open>TypeError\<close>.
\<close>

locale json_view =
  fixes enc :: "'a \<Rightarrow> jsval option"
    and dec :: "jsval \<Rightarrow> 'a option"
    and ok :: "'a \<Rightarrow> bool"
    and doc :: "jsval \<Rightarrow> bool"
  assumes dec_ok: "\<lbrakk>doc j; dec j = Some x\<rbrakk> \<Longrightarrow> ok x"
    and view: "\<lbrakk>ok x; enc x = Some j\<rbrakk> \<Longrightarrow>
      \<exists>y. dec (wire j) = Some y \<and> ok y \<and> map_option wire (enc y) = Some (wire j)"
begin

lemma reload_total: "\<lbrakk>ok x; enc x = Some j\<rbrakk> \<Longrightarrow> dec (wire j) \<noteq> None"
  using view by fastforce

lemma resave:
  assumes "ok x" "enc x = Some j" "dec (wire j) = Some y"
  shows "ok y \<and> map_option wire (enc y) = Some (wire j)"
  using view [OF assms(1,2)] assms(3) by auto

text \<open>A form opened on a document and saved any number of times keeps the first save.\<close>

lemma open_save_open_save:
  assumes "doc d" "dec d = Some x" "enc x = Some j" "dec (wire j) = Some y" "enc y = Some k"
  shows "wire k = wire j"
  using resave [OF dec_ok [OF assms(1,2)] assms(3,4)] assms(5) by simp

lemma view_list:
  "\<lbrakk>\<forall>x \<in> set xs. ok x; traverse enc xs = Some js\<rbrakk> \<Longrightarrow>
   \<exists>ys. traverse dec (map wire js) = Some ys \<and> (\<forall>y \<in> set ys. ok y)
     \<and> map_option (map wire) (traverse enc ys) = Some (map wire js)"
proof (induction xs arbitrary: js)
  case Nil
  then show ?case by simp
next
  case (Cons x xs)
  then obtain j ks where j: "enc x = Some j" "traverse enc xs = Some ks" "js = j # ks"
    by (auto simp: bind_eq_Some_conv)
  with Cons view [of x j] obtain y ys where
    "dec (wire j) = Some y" "ok y" "map_option wire (enc y) = Some (wire j)"
    "traverse dec (map wire ks) = Some ys" "\<forall>y \<in> set ys. ok y"
    "map_option (map wire) (traverse enc ys) = Some (map wire ks)"
    by force
  with j show ?case by auto
qed

lemma dec_list_ok:
  "\<lbrakk>\<forall>j \<in> set js. doc j; traverse dec js = Some xs\<rbrakk> \<Longrightarrow> \<forall>x \<in> set xs. ok x"
  using dec_ok by (auto dest!: traverse_all [where P = ok])

end

text \<open>
  A settings object is one of several members of its owner, and is written only while the
  owner's selector names it (\<open>network === 'ws' ? this.ws.toJson() : undefined\<close>). A member that
  was not written is rebuilt with its defaults.
\<close>

locale json_optional = json_view +
  assumes absent: "doc JUndef" "dec JUndef \<noteq> None"
begin

lemma selected_view:
  assumes "ok x" "(if c then enc x else Some JUndef) = Some j"
  obtains y where "dec (wire j) = Some y" "ok y"
    "map_option wire (if c then enc y else Some JUndef) = Some (wire j)"
proof (cases c)
  case True
  with assms view [of x j] that show thesis by auto
next
  case False
  obtain d where "dec JUndef = Some d" using absent(2) by auto
  moreover from this have "ok d" using dec_ok [OF absent(1)] by simp
  ultimately show thesis using False assms(2) that by auto
qed

end

locale json_codec =
  fixes enc :: "'a \<Rightarrow> jsval option"
    and dec :: "jsval \<Rightarrow> 'a option"
    and ok :: "'a \<Rightarrow> bool"
    and doc :: "jsval \<Rightarrow> bool"
  assumes dec_sound: "\<lbrakk>doc j; dec j = Some x\<rbrakk> \<Longrightarrow> ok x"
    and enc_dec: "\<lbrakk>ok x; enc x = Some j\<rbrakk> \<Longrightarrow> dec (wire j) = Some x"
begin

lemma enc_inj:
  assumes "ok x" "ok y" "enc x = Some j" "enc y = Some k" "wire j = wire k"
  shows "x = y"
  using enc_dec [OF assms(1,3)] enc_dec [OF assms(2,4)] assms(5) by simp

lemma enc_dec_list:
  "\<lbrakk>\<forall>x \<in> set xs. ok x; traverse enc xs = Some js\<rbrakk> \<Longrightarrow> traverse dec (map wire js) = Some xs"
proof (induction xs arbitrary: js)
  case Nil
  then show ?case by simp
next
  case (Cons x xs)
  then obtain j ks where "enc x = Some j" "traverse enc xs = Some ks" "js = j # ks"
    by (auto simp: bind_eq_Some_conv)
  with Cons enc_dec [of x j] show ?case by auto
qed

text \<open>What was loaded once survives every later save and reload.\<close>

lemma load_save_load:
  "\<lbrakk>doc d; dec d = Some x; enc x = Some j\<rbrakk> \<Longrightarrow> dec (wire j) = Some x"
  by (blast intro: dec_sound enc_dec)

end

sublocale json_codec \<subseteq> json_view
  by unfold_locales (auto dest: dec_sound enc_dec)

end
