(* ===== verification/Object_Util.thy ===== *)
theory Object_Util
  imports Js_Prelude
begin

text \<open>
  \<open>ObjectUtil\<close> of \<open>web/assets/js/util/index.js\<close>: the helpers every model class uses to
  test, copy and compare values.
\<close>

section \<open>Tests and copies\<close>

definition isEmpty :: "jsval \<Rightarrow> bool" where
  "isEmpty v \<longleftrightarrow> v = JNull \<or> v = JUndef \<or> v = JStr []"

definition isArrEmpty :: "jsval \<Rightarrow> bool" where
  "isArrEmpty v \<longleftrightarrow> \<not> isEmpty v \<and>
     (case members v of None \<Rightarrow> False | Some p \<Rightarrow> p ''length'' = JNum 0)"

definition orDefault :: "jsval \<Rightarrow> jsval \<Rightarrow> jsval" where
  "orDefault v d = (if nullish v then d else v)"

text \<open>\<open>copyArr\<close> empties the destination and pushes every item of the source.\<close>

fun push_all :: "jsval list \<Rightarrow> jsval list \<Rightarrow> jsval list" where
  "push_all dest [] = dest"
| "push_all dest (item # src) = push_all (dest @ [item]) src"

definition copyArr :: "jsval list \<Rightarrow> jsval list \<Rightarrow> jsval list" where
  "copyArr dest src = push_all [] src"

fun copy_props :: "props \<Rightarrow> props \<Rightarrow> props" where
  "copy_props new [] = new"
| "copy_props new ((k, v) # ps) = copy_props (js_put new k v) ps"

fun clone :: "jsval \<Rightarrow> jsval" where
  "clone (JArr xs) = JArr (copyArr [] xs)"
| "clone (JObj ps) = JObj (copy_props [] ps)"
| "clone v = v"

fun deepClone :: "jsval \<Rightarrow> jsval"
  and deepClone_items :: "jsval list \<Rightarrow> jsval list \<Rightarrow> jsval list"
  and deepClone_props :: "props \<Rightarrow> props \<Rightarrow> props" where
  "deepClone (JArr xs) = JArr (deepClone_items [] xs)"
| "deepClone (JObj ps) = JObj (deepClone_props [] ps)"
| "deepClone JUndef = JUndef"
| "deepClone JNull = JNull"
| "deepClone (JBool b) = JBool b"
| "deepClone (JNum n) = JNum n"
| "deepClone (JStr s) = JStr s"
| "deepClone_items new [] = new"
| "deepClone_items new (item # xs) = deepClone_items (new @ [deepClone item]) xs"
| "deepClone_props new [] = new"
| "deepClone_props new ((k, v) # ps) = deepClone_props (js_put new k (deepClone v)) ps"

text \<open>Objects as the engine keeps them: keys in enumeration order, at every level. A member
  called \<open>__proto__\<close>, which only \<open>JSON.parse\<close> can make, is not copied by an assignment.\<close>

fun wf_jsval :: "jsval \<Rightarrow> bool" where
  "wf_jsval (JArr xs) = (\<forall>x \<in> set xs. wf_jsval x)"
| "wf_jsval (JObj ps) = (obj_ordered ps \<and> ''__proto__'' \<notin> fst ` set ps \<and> (\<forall>p \<in> set ps. wf_jsval (snd p)))"
| "wf_jsval _ = True"

lemma push_all_append: "push_all dest src = dest @ src"
  by (induction dest src rule: push_all.induct) auto

lemma copyArr_eq: "copyArr dest src = src"
  by (simp add: copyArr_def push_all_append)

lemma copy_props_append:
  "\<lbrakk>obj_ordered (new @ ps); ''__proto__'' \<notin> fst ` set ps\<rbrakk> \<Longrightarrow> copy_props new ps = new @ ps"
proof (induction new ps rule: copy_props.induct)
  case (1 new)
  then show ?case by simp
next
  case (2 new k v ps)
  then have "obj_put new k v = new @ [(k, v)]"
    by (intro obj_put_last [of _ _ v]) (simp add: obj_ordered_def sorted_wrt_append)
  with "2" show ?case by (auto simp: js_put_def)
qed

lemma clone_eq: "wf_jsval v \<Longrightarrow> clone v = v"
  by (cases v) (simp_all add: copyArr_eq copy_props_append)

lemma deepClone_all:
  "wf_jsval v \<Longrightarrow> deepClone v = v"
  "\<forall>x \<in> set xs. wf_jsval x \<Longrightarrow> deepClone_items new xs = new @ xs"
  "\<lbrakk>obj_ordered (new' @ ps); ''__proto__'' \<notin> fst ` set ps; \<forall>p \<in> set ps. wf_jsval (snd p)\<rbrakk> \<Longrightarrow> deepClone_props new' ps = new' @ ps"
proof (induction v and new xs and new' ps rule: deepClone_deepClone_items_deepClone_props.induct)
  case (11 new' k v ps)
  then have "obj_put new' k v = new' @ [(k, v)]"
    by (intro obj_put_last [of _ _ v]) (simp add: obj_ordered_def sorted_wrt_append)
  with 11 show ?case by (auto simp: js_put_def)
qed auto

section \<open>Property-wise assignment\<close>

text \<open>\<open>cloneProps(dest, src, ...ignoreProps)\<close>: every property of \<open>src\<close> that \<open>dest\<close> already
  has is assigned, unless it is undefined or listed in \<open>ignoreProps\<close>.\<close>

definition cloneProps_takes :: "props \<Rightarrow> string list \<Rightarrow> string \<times> jsval \<Rightarrow> bool" where
  "cloneProps_takes dest ignoreProps e \<longleftrightarrow>
     fst e \<in> fst ` set dest \<and> snd e \<noteq> JUndef
     \<and> (ignoreProps = [] \<or> fst e \<notin> set ignoreProps)"

fun cloneProps_loop :: "string list \<Rightarrow> props \<Rightarrow> props \<Rightarrow> props" where
  "cloneProps_loop ign dest [] = dest"
| "cloneProps_loop ign dest (e # src) =
     cloneProps_loop ign (if cloneProps_takes dest ign e then obj_put dest (fst e) (snd e) else dest) src"

definition cloneProps :: "props \<Rightarrow> jsval \<Rightarrow> string list \<Rightarrow> props" where
  "cloneProps dest src ignoreProps =
     (case src of JObj ps \<Rightarrow> cloneProps_loop ignoreProps dest ps | _ \<Rightarrow> dest)"

fun delProps :: "props \<Rightarrow> string list \<Rightarrow> props" where
  "delProps obj [] = obj"
| "delProps obj (p # ps) = delProps (if js_in p obj then obj_del obj p else obj) ps"

lemma keys_cloneProps_loop: "map fst (cloneProps_loop ign dest src) = map fst dest"
  by (induction src arbitrary: dest)
    (auto simp: cloneProps_takes_def obj_put_def map_fst_update)

lemma keys_cloneProps: "map fst (cloneProps dest src ign) = map fst dest"
  by (cases src) (simp_all add: cloneProps_def keys_cloneProps_loop)

lemma keys_obj_put_present: "k \<in> fst ` set ps \<Longrightarrow> map fst (obj_put ps k v) = map fst ps"
  by (simp add: obj_put_def map_fst_update)

lemma cloneProps_loop_oget:
  "\<lbrakk>distinct (map fst src); k \<in> fst ` set dest\<rbrakk> \<Longrightarrow>
   oget (cloneProps_loop ign dest src) k =
     (if oget src k = JUndef \<or> k \<in> set ign then oget dest k else oget src k)"
proof (induction src arbitrary: dest)
  case Nil
  then show ?case by simp
next
  case (Cons e src)
  let ?d = "if cloneProps_takes dest ign e then obj_put dest (fst e) (snd e) else dest"
  have d: "oget ?d k =
      (if fst e = k \<and> snd e \<noteq> JUndef \<and> k \<notin> set ign then snd e else oget dest k)"
    using Cons.prems(2) by (auto simp: cloneProps_takes_def oget_obj_put)
  have keys: "k \<in> fst ` set ?d"
    using Cons.prems(2) by (simp add: keys_obj_put)
  have "fst e = k \<Longrightarrow> oget src k = JUndef"
    using Cons.prems(1) by (simp add: oget_not_in)
  moreover have "oget (e # src) k = (if fst e = k then snd e else oget src k)"
    by (cases e) simp
  ultimately show ?case
    using Cons.IH [OF _ keys] Cons.prems(1) d by auto
qed

lemma cloneProps_oget:
  assumes "json_ok (JObj src) \<or> distinct (map fst src)" "k \<in> fst ` set dest"
  shows "oget (cloneProps dest (JObj src) ign) k =
    (if oget src k = JUndef \<or> k \<in> set ign then oget dest k else oget src k)"
  using assms cloneProps_loop_oget [of src k dest ign] by (auto simp: cloneProps_def)

lemma delProps_oget:
  "oget (delProps obj ps) k = (if k \<in> set ps then JUndef else oget obj k)"
proof (induction ps arbitrary: obj)
  case Nil
  then show ?case by simp
next
  case (Cons p ps)
  have del: "oget (obj_del obj p) k = (if k = p then JUndef else oget obj k)"
    by (simp add: oget_def map_of_obj_del)
  have "\<not> js_in p obj \<Longrightarrow> oget obj p = JUndef"
    by (simp add: js_in_def oget_not_in)
  with Cons.IH del show ?case by auto
qed

section \<open>Comparison\<close>

text \<open>\<open>a === b\<close> on property values: primitive values compare by value, objects and arrays
  by identity, which the parameter \<open>same\<close> decides for two values.\<close>

definition strict_eq :: "(jsval \<Rightarrow> jsval \<Rightarrow> bool) \<Rightarrow> jsval \<Rightarrow> jsval \<Rightarrow> bool" where
  "strict_eq same a b =
     (case (a, b) of
        (JArr xs, JArr ys) \<Rightarrow> same a b
      | (JObj ps, JObj qs) \<Rightarrow> same a b
      | _ \<Rightarrow> a = b)"

definition equals :: "(jsval \<Rightarrow> jsval \<Rightarrow> bool) \<Rightarrow> props \<Rightarrow> props \<Rightarrow> bool" where
  "equals same a b \<longleftrightarrow>
     length a = length b \<and>
     (\<forall>e \<in> set a. fst e \<in> fst ` set b \<and> strict_eq same (oget a (fst e)) (oget b (fst e)))"

lemma equals_keys:
  assumes "distinct (map fst a)" "distinct (map fst b)" "equals same a b"
  shows "fst ` set a = fst ` set b"
proof -
  have sub: "fst ` set a \<subseteq> fst ` set b" using assms(3) by (auto simp: equals_def)
  have "card (fst ` set a) = card (fst ` set b)"
    using assms distinct_card [of "map fst a"] distinct_card [of "map fst b"]
    by (simp add: equals_def)
  with sub show ?thesis by (simp add: card_subset_eq)
qed

text \<open>For objects of primitive values the comparison is extensional equality, hence
  symmetric, which the code's comment asks for.\<close>

fun primitive :: "jsval \<Rightarrow> bool" where
  "primitive (JArr xs) = False"
| "primitive (JObj ps) = False"
| "primitive _ = True"

lemma strict_eq_primitive: "primitive a \<Longrightarrow> strict_eq same a b \<longleftrightarrow> a = b"
  by (cases a) (auto simp: strict_eq_def)

lemma oget_primitive: "\<forall>e \<in> set ps. primitive (snd e) \<Longrightarrow> primitive (oget ps k)"
  by (induction ps) auto

lemma equals_primitive:
  assumes "distinct (map fst a)" "distinct (map fst b)" "\<forall>e \<in> set a. primitive (snd e)"
  shows "equals same a b \<longleftrightarrow> map_of a = map_of b"
proof
  assume eq: "equals same a b"
  have keys: "fst ` set a = fst ` set b" by (rule equals_keys [OF assms(1,2) eq])
  show "map_of a = map_of b"
  proof
    fix k
    show "map_of a k = map_of b k"
    proof (cases "k \<in> fst ` set a")
      case True
      then obtain v where "(k, v) \<in> set a" by auto
      with eq have "oget a k = oget b k"
        using strict_eq_primitive [OF oget_primitive [OF assms(3)]] by (force simp: equals_def)
      moreover have "map_of a k \<noteq> None" "map_of b k \<noteq> None"
        using True keys by (simp_all add: map_of_eq_None_iff)
      ultimately show ?thesis by (auto simp: oget_def)
    next
      case False
      with keys show ?thesis by (metis map_of_eq_None_iff)
    qed
  qed
next
  assume eq: "map_of a = map_of b"
  then have keys: "fst ` set a = fst ` set b" by (metis dom_map_of_conv_image_fst)
  have "length a = length b"
    using keys distinct_card [of "map fst a"] distinct_card [of "map fst b"] assms(1,2) by simp
  moreover have "\<forall>e \<in> set a. strict_eq same (oget a (fst e)) (oget b (fst e))"
    using strict_eq_primitive [OF oget_primitive [OF assms(3)]] eq by (simp add: oget_def)
  ultimately show "equals same a b" using keys by (force simp: equals_def)
qed

section \<open>Searching\<close>

fun getPropIgnoreCase :: "props \<Rightarrow> string \<Rightarrow> jsval" where
  "getPropIgnoreCase [] p = JUndef"
| "getPropIgnoreCase ((name, v) # ps) p =
     (if js_lower name = js_lower p then v else getPropIgnoreCase ps p)"

fun deepSearch :: "jsval \<Rightarrow> string \<Rightarrow> bool" where
  "deepSearch (JArr xs) key = (\<exists>x \<in> set xs. deepSearch x key)"
| "deepSearch (JObj ps) key = (\<exists>p \<in> set ps. deepSearch (snd p) key)"
| "deepSearch v key =
     (if isEmpty v then False else str_includes (js_lower (js_str v)) (js_lower key))"

text \<open>The leaves of a value, and what \<open>deepSearch\<close> says about them.\<close>

fun leaves :: "jsval \<Rightarrow> jsval list" where
  "leaves (JArr xs) = concat (map leaves xs)"
| "leaves (JObj ps) = concat (map (\<lambda>p. leaves (snd p)) ps)"
| "leaves v = [v]"

lemma deepSearch_leaves:
  "deepSearch v key \<longleftrightarrow>
   (\<exists>x \<in> set (leaves v). \<not> isEmpty x \<and> str_includes (js_lower (js_str x)) (js_lower key))"
  by (induction v rule: leaves.induct) auto

end
