(* ===== verification/Headers.thy ===== *)
theory Headers
  imports Json_Codec Object_Util
begin

text \<open>
  The HTTP header lists of the transports, and their two JSON shapes
  (\<open>XrayCommonClass.toHeaders\<close> and \<open>XrayCommonClass.toV2Headers\<close> of
  \<open>web/assets/js/model/inbound.js\<close>). The form keeps a list of name/value pairs; xray
  wants an object, with an array of values per name (\<open>arr\<close>) or with one value per name.
\<close>

record header =
  hname :: jsval
  hvalue :: jsval

definition mk_header :: "jsval \<Rightarrow> jsval \<Rightarrow> header" where
  "mk_header n v = \<lparr>hname = n, hvalue = v\<rparr>"

lemma mk_header_simps [simp]: "hname (mk_header n v) = n" "hvalue (mk_header n v) = v"
  by (simp_all add: mk_header_def)

section \<open>From the document to the form\<close>

text \<open>\<open>Object.keys\<close> with the values, in enumeration order.\<close>

fun object_entries :: "jsval \<Rightarrow> props" where
  "object_entries (JObj ps) = ps"
| "object_entries (JArr xs) = zip (map nat_str [0..<length xs]) xs"
| "object_entries (JStr s) = zip (map nat_str [0..<length s]) (map (\<lambda>c. JStr [c]) s)"
| "object_entries _ = []"

text \<open>The values a loop over \<open>values[0..values.length)\<close> reads.\<close>

fun indexed_values :: "jsval \<Rightarrow> jsval list option" where
  "indexed_values (JArr xs) = Some xs"
| "indexed_values (JStr s) = Some (map (\<lambda>c. JStr [c]) s)"
| "indexed_values (JObj ps) =
     Some (case js_number (oget ps ''length'') of
             None \<Rightarrow> []
           | Some n \<Rightarrow> map (\<lambda>i. oget ps (nat_str i)) [0..<nat n])"
| "indexed_values JUndef = None"
| "indexed_values JNull = None"
| "indexed_values _ = Some []"

fun entry_headers :: "string \<times> jsval \<Rightarrow> header list option" where
  "entry_headers (k, values) =
     (if is_string values then Some [mk_header (JStr k) values]
      else map_option (map (mk_header (JStr k))) (indexed_values values))"

definition toHeaders :: "jsval \<Rightarrow> header list option" where
  "toHeaders v2Headers =
     (if truthy v2Headers then map_option concat (traverse entry_headers (object_entries v2Headers))
      else Some [])"

section \<open>From the form to the document\<close>

definition usable :: "header \<Rightarrow> bool" where
  "usable h \<longleftrightarrow> \<not> isEmpty (hname h) \<and> \<not> isEmpty (hvalue h)"

text \<open>One turn of the loop. With \<open>arr\<close>, a name that \<open>in\<close> finds only on the prototype has
  no \<open>push\<close>, and the call throws.\<close>

definition v2_step :: "bool \<Rightarrow> props \<Rightarrow> header \<Rightarrow> props option" where
  "v2_step arr v2Headers h =
     (let name = js_str (hname h); value = hvalue h in
      if \<not> usable h then Some v2Headers
      else if \<not> js_in name v2Headers then
        Some (js_put v2Headers name (if arr then JArr [value] else value))
      else if arr then
        (case oget v2Headers name of
           JArr vs \<Rightarrow> Some (js_put v2Headers name (JArr (vs @ [value])))
         | _ \<Rightarrow> None)
      else Some (js_put v2Headers name value))"

fun v2_loop :: "bool \<Rightarrow> props \<Rightarrow> header list \<Rightarrow> props option" where
  "v2_loop arr v2Headers [] = Some v2Headers"
| "v2_loop arr v2Headers (h # hs) =
     (case v2_step arr v2Headers h of None \<Rightarrow> None | Some v \<Rightarrow> v2_loop arr v hs)"

definition toV2Headers :: "header list \<Rightarrow> bool \<Rightarrow> jsval option" where
  "toV2Headers headers arr = map_option JObj (v2_loop arr [] headers)"

section \<open>What the document holds\<close>

text \<open>The values the form holds under a name, in order.\<close>

definition values_of :: "string \<Rightarrow> header list \<Rightarrow> jsval list" where
  "values_of n hs = map hvalue (filter (\<lambda>h. usable h \<and> js_str (hname h) = n) hs)"

lemma values_of_Nil [simp]: "values_of n [] = []"
  by (simp add: values_of_def)

lemma values_of_Cons:
  "values_of n (h # hs) =
     (if usable h \<and> js_str (hname h) = n then hvalue h # values_of n hs else values_of n hs)"
  by (simp add: values_of_def)

text \<open>The shape of the object while the loop runs.\<close>

definition arr_entry :: "string \<times> jsval \<Rightarrow> bool" where
  "arr_entry e \<longleftrightarrow> fst e \<notin> set prototype_names \<and>
     (\<exists>vs. snd e = JArr vs \<and> vs \<noteq> [] \<and> (\<forall>v \<in> set vs. \<not> isEmpty v))"

lemma js_put_not_proto [simp]: "k \<noteq> ''__proto__'' \<Longrightarrow> js_put ps k v = obj_put ps k v"
  by (simp add: js_put_def)

lemma proto_name: "''__proto__'' \<in> set prototype_names"
  by (simp add: prototype_names_def)

lemma set_obj_put: "e \<in> set (obj_put ps k v) \<Longrightarrow> e = (k, v) \<or> e \<in> set ps"
proof -
  have upd: "e \<in> set (AList.update k v qs) \<Longrightarrow> e = (k, v) \<or> e \<in> set qs" for qs
    by (induction qs) (auto split: if_splits)
  have ins: "e \<in> set (ins_index k v qs) \<Longrightarrow> e = (k, v) \<or> e \<in> set qs" for qs
    by (induction k v qs rule: ins_index.induct) (auto split: if_splits)
  show "e \<in> set (obj_put ps k v) \<Longrightarrow> e = (k, v) \<or> e \<in> set ps"
    by (auto simp: obj_put_def split: if_splits dest: upd ins)
qed

lemma v2_step_arr:
  assumes "\<forall>e \<in> set v. arr_entry e" "usable h" "js_str (hname h) \<notin> set prototype_names"
  shows "v2_step True v h =
    Some (obj_put v (js_str (hname h))
      (JArr ((case oget v (js_str (hname h)) of JArr vs \<Rightarrow> vs | _ \<Rightarrow> []) @ [hvalue h])))"
proof -
  let ?n = "js_str (hname h)"
  have np: "?n \<noteq> ''__proto__''" using assms(3) proto_name by metis
  show ?thesis
  proof (cases "?n \<in> fst ` set v")
    case True
    then obtain vs where "oget v ?n = JArr vs"
      using assms(1) oget_in [OF True] by (auto simp: arr_entry_def)
    with True assms np show ?thesis by (simp add: v2_step_def js_in_def Let_def)
  next
    case False
    with assms np show ?thesis by (simp add: v2_step_def js_in_def Let_def oget_not_in)
  qed
qed

lemma v2_step_arr_entry:
  assumes inv: "\<forall>e \<in> set v. arr_entry e" and s: "v2_step True v h = Some v'"
  shows "\<forall>e \<in> set v'. arr_entry e"
proof (cases "usable h")
  case False
  with assms show ?thesis by (simp add: v2_step_def Let_def)
next
  case u: True
  let ?n = "js_str (hname h)"
  have np: "?n \<notin> set prototype_names"
  proof
    assume p: "?n \<in> set prototype_names"
    then have "?n \<notin> fst ` set v" using inv by (auto simp: arr_entry_def)
    then have "v2_step True v h = None"
      using p u by (simp add: v2_step_def js_in_def Let_def oget_not_in)
    with s show False by simp
  qed
  define vs where "vs = (case oget v ?n of JArr vs \<Rightarrow> vs | _ \<Rightarrow> [])"
  have v': "v' = obj_put v ?n (JArr (vs @ [hvalue h]))"
    using v2_step_arr [OF inv u np] s by (simp add: vs_def)
  have "\<forall>x \<in> set vs. \<not> isEmpty x"
  proof (cases "?n \<in> fst ` set v")
    case True
    with inv oget_in [OF True] show ?thesis by (auto simp: arr_entry_def vs_def)
  next
    case False
    then show ?thesis by (simp add: vs_def oget_not_in)
  qed
  with np u have "arr_entry (?n, JArr (vs @ [hvalue h]))"
    by (auto simp: arr_entry_def usable_def)
  with v' inv show ?thesis by (auto dest!: set_obj_put)
qed

text \<open>The loop throws exactly on a usable header named like a property of
  \<open>Object.prototype\<close>, and otherwise collects the values per name in order.\<close>

lemma v2_loop_throws:
  "\<forall>e \<in> set v. arr_entry e \<Longrightarrow>
   v2_loop True v hs = None \<longleftrightarrow>
   (\<exists>h \<in> set hs. usable h \<and> js_str (hname h) \<in> set prototype_names)"
proof (induction hs arbitrary: v)
  case Nil
  then show ?case by simp
next
  case (Cons h hs)
  let ?n = "js_str (hname h)"
  consider "\<not> usable h" | "usable h" "?n \<in> set prototype_names"
    | "usable h" "?n \<notin> set prototype_names" by blast
  then show ?case
  proof cases
    case 1
    then have "v2_step True v h = Some v" by (simp add: v2_step_def Let_def)
    with 1 Cons show ?thesis by auto
  next
    case 2
    have "?n \<notin> fst ` set v" using 2 Cons.prems by (auto simp: arr_entry_def)
    with 2 have "v2_step True v h = None"
      by (simp add: v2_step_def js_in_def Let_def oget_not_in)
    with 2 show ?thesis by auto
  next
    case 3
    obtain v' where v': "v2_step True v h = Some v'"
      using v2_step_arr [OF Cons.prems 3] by blast
    with v2_step_arr_entry [OF Cons.prems v'] Cons.IH 3 show ?thesis by auto
  qed
qed

lemma v2_loop_values:
  "\<lbrakk>\<forall>e \<in> set v. arr_entry e; v2_loop True v hs = Some w\<rbrakk> \<Longrightarrow>
   oget w n = (case oget v n of
       JArr vs \<Rightarrow> JArr (vs @ values_of n hs)
     | _ \<Rightarrow> if values_of n hs = [] then JUndef else JArr (values_of n hs))"
proof (induction hs arbitrary: v)
  case Nil
  then show ?case
    by (cases "n \<in> fst ` set v")
      (auto simp: oget_not_in arr_entry_def dest!: oget_in)
next
  case (Cons h hs)
  let ?m = "js_str (hname h)"
  from Cons.prems obtain v' where v': "v2_step True v h = Some v'" and w: "v2_loop True v' hs = Some w"
    by (auto split: option.splits)
  have inv': "\<forall>e \<in> set v'. arr_entry e" by (rule v2_step_arr_entry [OF Cons.prems(1) v'])
  note IH = Cons.IH [OF inv' w]
  show ?case
  proof (cases "usable h")
    case False
    with v' have "v' = v" by (simp add: v2_step_def Let_def)
    moreover have "values_of n (h # hs) = values_of n hs" using False by (simp add: values_of_Cons)
    ultimately show ?thesis using IH by (auto split: jsval.splits)
  next
    case True
    have np: "?m \<notin> set prototype_names"
      using v2_loop_throws [OF Cons.prems(1), of "h # hs"] Cons.prems(2) True by auto
    have "v' = obj_put v ?m (JArr ((case oget v ?m of JArr vs \<Rightarrow> vs | _ \<Rightarrow> []) @ [hvalue h]))"
      using v2_step_arr [OF Cons.prems(1) True np] v' by simp
    with IH True show ?thesis
      by (auto simp: values_of_Cons oget_obj_put split: jsval.splits)
  qed
qed


lemma v2_step_flat:
  "v2_step False v h = Some (if usable h then js_put v (js_str (hname h)) (hvalue h) else v)"
  by (simp add: v2_step_def Let_def)

text \<open>With one value per name the loop never throws, and the last value wins.\<close>

lemma v2_loop_flat_total: "\<exists>w. v2_loop False v hs = Some w"
  by (induction hs arbitrary: v) (simp_all add: v2_step_flat)

lemma v2_loop_flat_values:
  "v2_loop False v hs = Some w \<Longrightarrow>
   oget w n = (if n = ''__proto__'' \<or> values_of n hs = [] then oget v n else last (values_of n hs))"
  by (induction hs arbitrary: v)
    (auto simp: v2_step_flat values_of_Cons js_put_def oget_obj_put)

section \<open>Saving and loading again\<close>

lemma js_put_ordered: "obj_ordered v \<Longrightarrow> obj_ordered (js_put v k x)"
  by (simp add: js_put_def obj_put_ordered)

lemma v2_step_ordered: "\<lbrakk>obj_ordered v; v2_step arr v h = Some w\<rbrakk> \<Longrightarrow> obj_ordered w"
  by (auto simp: v2_step_def Let_def intro!: js_put_ordered split: if_splits jsval.splits)

lemma v2_loop_ordered: "\<lbrakk>obj_ordered v; v2_loop arr v hs = Some w\<rbrakk> \<Longrightarrow> obj_ordered w"
  by (induction hs arbitrary: v) (auto split: option.splits dest: v2_step_ordered)

lemma obj_ordered_Nil [simp]: "obj_ordered []"
  by (simp add: obj_ordered_def)

text \<open>Entries the saved object consists of, in the two shapes.\<close>

definition saved_arr :: "string \<times> jsval \<Rightarrow> bool" where
  "saved_arr e \<longleftrightarrow> arr_entry e \<and> fst e \<noteq> [] \<and> json_ok (snd e)"

definition saved_flat :: "string \<times> jsval \<Rightarrow> bool" where
  "saved_flat e \<longleftrightarrow> fst e \<noteq> ''__proto__'' \<and> fst e \<noteq> [] \<and> (\<exists>s. snd e = JStr s \<and> s \<noteq> [])"

definition header_ok :: "header \<Rightarrow> bool" where
  "header_ok h \<longleftrightarrow> is_string (hname h) \<and> clean (hvalue h)"

definition header_flat :: "header \<Rightarrow> bool" where
  "header_flat h \<longleftrightarrow> is_string (hname h) \<and> is_string (hvalue h)"

abbreviation headers_ok :: "header list \<Rightarrow> bool" where
  "headers_ok hs \<equiv> \<forall>h \<in> set hs. header_ok h"

abbreviation headers_flat :: "header list \<Rightarrow> bool" where
  "headers_flat hs \<equiv> \<forall>h \<in> set hs. header_flat h"

lemma is_string_conv: "is_string v \<longleftrightarrow> (\<exists>s. v = JStr s)"
  by (cases v) auto

lemma v2_loop_saved_flat:
  "\<lbrakk>\<forall>h \<in> set hs. header_flat h; \<forall>e \<in> set v. saved_flat e; v2_loop False v hs = Some w\<rbrakk> \<Longrightarrow>
   \<forall>e \<in> set w. saved_flat e"
proof (induction hs arbitrary: v)
  case Nil
  then show ?case by simp
next
  case (Cons h hs)
  let ?v = "if usable h then js_put v (js_str (hname h)) (hvalue h) else v"
  have "\<forall>e \<in> set ?v. saved_flat e"
    using Cons.prems(1,2)
    by (auto simp: js_put_def saved_flat_def header_flat_def is_string_conv usable_def isEmpty_def
        dest!: set_obj_put)
  with Cons show ?case by (simp add: v2_step_flat split: if_splits)
qed

lemma v2_loop_saved_arr:
  "\<lbrakk>\<forall>h \<in> set hs. header_ok h; \<forall>e \<in> set v. saved_arr e; v2_loop True v hs = Some w\<rbrakk> \<Longrightarrow>
   \<forall>e \<in> set w. saved_arr e"
proof (induction hs arbitrary: v)
  case Nil
  then show ?case by simp
next
  case (Cons h hs)
  let ?n = "js_str (hname h)"
  from Cons.prems obtain v' where v': "v2_step True v h = Some v'" and w: "v2_loop True v' hs = Some w"
    by (auto split: option.splits)
  have ent: "\<forall>e \<in> set v. arr_entry e" using Cons.prems(2) by (simp add: saved_arr_def)
  have "\<forall>e \<in> set v'. fst e \<noteq> [] \<and> json_ok (snd e)"
  proof (cases "usable h")
    case False
    with v' Cons.prems(2) show ?thesis by (simp add: v2_step_def Let_def saved_arr_def)
  next
    case True
    have np: "?n \<notin> set prototype_names"
      using v2_loop_throws [OF ent, of "h # hs"] Cons.prems(3) True by auto
    have "clean (oget v ?n)"
      by (rule clean_oget_all) (use Cons.prems(2) in \<open>simp add: saved_arr_def\<close>)
    then have old: "\<forall>x \<in> set (case oget v ?n of JArr vs \<Rightarrow> vs | _ \<Rightarrow> []). json_ok x"
      by (cases "oget v ?n") auto
    have new: "?n \<noteq> []" "json_ok (hvalue h)"
      using Cons.prems(1) True by (auto simp: header_ok_def is_string_conv usable_def isEmpty_def intro: json_ok_clean)
    show ?thesis
      using v2_step_arr [OF ent True np] v' old new Cons.prems(2)
      by (auto simp: saved_arr_def dest!: set_obj_put)
  qed
  with v2_step_arr_entry [OF ent v'] have "\<forall>e \<in> set v'. saved_arr e"
    by (simp add: saved_arr_def)
  with Cons w show ?case by simp
qed

lemma v2_loop_append:
  "v2_loop arr v (hs @ hs') = (case v2_loop arr v hs of None \<Rightarrow> None | Some w \<Rightarrow> v2_loop arr w hs')"
  by (induction hs arbitrary: v) (auto split: option.splits)

text \<open>Reading the saved object back and looping again rebuilds it entry by entry.\<close>

lemma v2_loop_group_more:
  "\<lbrakk>k \<noteq> []; k \<notin> set prototype_names; \<forall>x \<in> set vs. \<not> isEmpty x; k \<notin> fst ` set P\<rbrakk> \<Longrightarrow>
   v2_loop True (P @ [(k, JArr us)]) (map (mk_header (JStr k)) vs) = Some (P @ [(k, JArr (us @ vs))])"
proof (induction vs arbitrary: us)
  case Nil
  then show ?case by simp
next
  case (Cons x vs)
  have "oget (P @ [(k, JArr us)]) k = JArr us"
    using Cons.prems(4) by (induction P) auto
  moreover have "js_in k (P @ [(k, JArr us)])" by (simp add: js_in_def)
  moreover have "k \<noteq> ''__proto__''" using Cons.prems(2) proto_name by metis
  ultimately have "v2_step True (P @ [(k, JArr us)]) (mk_header (JStr k) x)
      = Some (P @ [(k, JArr (us @ [x]))])"
    using Cons.prems by (simp add: v2_step_def Let_def usable_def isEmpty_def obj_put_update_last)
  with Cons show ?case by simp
qed

lemma v2_loop_group:
  assumes "saved_arr (k, JArr vs)" "obj_ordered (P @ [(k, JArr vs)])"
  shows "v2_loop True P (map (mk_header (JStr k)) vs) = Some (P @ [(k, JArr vs)])"
proof -
  from assms(1) obtain x xs where vs: "vs = x # xs" and k: "k \<noteq> []" "k \<notin> set prototype_names"
    and ne: "\<forall>y \<in> set vs. \<not> isEmpty y"
    by (auto simp: saved_arr_def arr_entry_def neq_Nil_conv)
  have kP: "k \<notin> fst ` set P"
    using assms(2) by (auto simp: obj_ordered_def sorted_wrt_append key_before_def)
  have "k \<noteq> ''__proto__''" using k proto_name by metis
  then have "v2_step True P (mk_header (JStr k) x) = Some (P @ [(k, JArr [x])])"
    using k kP ne vs obj_put_last [OF assms(2)]
    by (simp add: v2_step_def Let_def usable_def isEmpty_def js_in_def)
  with v2_loop_group_more [OF k _ kP, of xs "[x]"] ne vs show ?thesis by simp
qed

lemma v2_loop_reload_arr:
  "\<lbrakk>\<forall>e \<in> set es. saved_arr e; obj_ordered (P @ es)\<rbrakk> \<Longrightarrow>
   \<exists>hss. traverse entry_headers es = Some hss \<and> (\<forall>h \<in> set (concat hss). header_ok h)
     \<and> v2_loop True P (concat hss) = Some (P @ es)"
proof (induction es arbitrary: P)
  case Nil
  then show ?case by simp
next
  case (Cons e es)
  obtain k vs where e: "e = (k, JArr vs)" "\<forall>x \<in> set vs. json_ok x"
    using Cons.prems(1) by (cases e) (auto simp: saved_arr_def arr_entry_def)
  have "obj_ordered (P @ [(k, JArr vs)])"
    using Cons.prems(2) e by (simp add: obj_ordered_def sorted_wrt_append)
  with Cons.prems(1) e have g: "v2_loop True P (map (mk_header (JStr k)) vs) = Some (P @ [e])"
    by (simp add: v2_loop_group)
  obtain hss where "traverse entry_headers es = Some hss" "\<forall>h \<in> set (concat hss). header_ok h"
    "v2_loop True (P @ [e]) (concat hss) = Some ((P @ [e]) @ es)"
    using Cons.IH [of "P @ [e]"] Cons.prems by auto
  moreover have "headers_ok (map (mk_header (JStr k)) vs)"
    using e(2) by (simp add: header_ok_def clean_json_ok)
  ultimately show ?case using e g by (auto simp: v2_loop_append)
qed

lemma v2_loop_reload_flat:
  "\<lbrakk>\<forall>e \<in> set es. saved_flat e; obj_ordered (P @ es)\<rbrakk> \<Longrightarrow>
   \<exists>hss. traverse entry_headers es = Some hss \<and> (\<forall>h \<in> set (concat hss). header_flat h)
     \<and> v2_loop False P (concat hss) = Some (P @ es)"
proof (induction es arbitrary: P)
  case Nil
  then show ?case by simp
next
  case (Cons e es)
  obtain k s where e: "e = (k, JStr s)" "k \<noteq> ''__proto__''" "k \<noteq> []" "s \<noteq> []"
    using Cons.prems(1) by (cases e) (auto simp: saved_flat_def)
  have "obj_ordered (P @ [(k, JStr s)])"
    using Cons.prems(2) e by (simp add: obj_ordered_def sorted_wrt_append)
  with e have g: "v2_step False P (mk_header (JStr k) (JStr s)) = Some (P @ [e])"
    by (simp add: v2_step_flat usable_def isEmpty_def obj_put_last)
  obtain hss where "traverse entry_headers es = Some hss" "\<forall>h \<in> set (concat hss). header_flat h"
    "v2_loop False (P @ [e]) (concat hss) = Some ((P @ [e]) @ es)"
    using Cons.IH [of "P @ [e]"] Cons.prems by auto
  with e g show ?case by (auto simp: header_flat_def)
qed

text \<open>The documents the two shapes are specified for.\<close>

fun flat_value :: "jsval \<Rightarrow> bool" where
  "flat_value (JStr s) = True"
| "flat_value (JArr xs) = (\<forall>x \<in> set xs. is_string x)"
| "flat_value _ = False"

fun flat_doc :: "jsval \<Rightarrow> bool" where
  "flat_doc JUndef = True"
| "flat_doc (JObj ps) = (distinct (map fst ps) \<and> (\<forall>e \<in> set ps. flat_value (snd e)))"
| "flat_doc _ = False"

lemma saved_json_ok:
  "\<lbrakk>\<forall>e \<in> set es. saved_arr e \<or> saved_flat e; obj_ordered es\<rbrakk> \<Longrightarrow> json_ok (JObj es)"
  using obj_ordered_distinct [of es] by (auto simp: saved_arr_def saved_flat_def)

lemma indexed_values_clean: "\<lbrakk>clean v; indexed_values v = Some xs\<rbrakk> \<Longrightarrow> \<forall>x \<in> set xs. clean x"
  by (cases v) (auto simp: clean_oget_all clean_json_ok split: option.splits)

lemma entry_headers_ok:
  assumes "clean (snd e)" "entry_headers e = Some hs"
  shows "headers_ok hs"
  using assms indexed_values_clean [OF assms(1)]
  by (cases e) (auto simp: header_ok_def split: if_splits)

lemma object_entries_clean: "clean j \<Longrightarrow> \<forall>e \<in> set (object_entries j). clean (snd e)"
  by (cases j) (auto simp: clean_json_ok dest!: set_zip_rightD)

lemma entries_headers_all:
  "\<lbrakk>traverse entry_headers es = Some hss; \<forall>e \<in> set es. Q e;
    \<And>e hs. \<lbrakk>Q e; entry_headers e = Some hs\<rbrakk> \<Longrightarrow> \<forall>h \<in> set hs. P h\<rbrakk> \<Longrightarrow>
   \<forall>h \<in> set (concat hss). P h"
proof (induction es arbitrary: hss)
  case Nil
  then show ?case by simp
next
  case (Cons e es)
  then obtain hs ks where "entry_headers e = Some hs" "traverse entry_headers es = Some ks"
    "hss = hs # ks"
    by (auto simp: bind_eq_Some_conv simp del: entry_headers.simps)
  moreover have "\<forall>h \<in> set hs. P h"
    by (rule Cons.prems(3) [of e]) (use Cons.prems(2) calculation in simp_all)
  moreover have "\<forall>h \<in> set (concat ks). P h"
    by (rule Cons.IH [OF _ _ Cons.prems(3)]) (use Cons.prems(2) calculation in simp_all)
  ultimately show ?case by auto
qed

lemma toHeaders_truthy:
  assumes "toHeaders j = Some hs" "\<forall>e \<in> set (object_entries j). Q e"
    "\<And>e hs. \<lbrakk>Q e; entry_headers e = Some hs\<rbrakk> \<Longrightarrow> \<forall>h \<in> set hs. P h"
  shows "\<forall>h \<in> set hs. P h"
proof (cases "truthy j")
  case True
  with assms(1) obtain hss where "traverse entry_headers (object_entries j) = Some hss"
    and hs: "hs = concat hss"
    by (auto simp: toHeaders_def)
  then have "\<forall>h \<in> set (concat hss). P h"
    using entries_headers_all [of "object_entries j" hss Q P] assms(2,3) by blast
  with hs show ?thesis by simp
next
  case False
  with assms(1) show ?thesis by (simp add: toHeaders_def)
qed

lemma toHeaders_ok: "\<lbrakk>clean j; toHeaders j = Some hs\<rbrakk> \<Longrightarrow> headers_ok hs"
  by (rule toHeaders_truthy [OF _ object_entries_clean entry_headers_ok])

lemma entry_headers_flat:
  "\<lbrakk>flat_value (snd e); entry_headers e = Some hs\<rbrakk> \<Longrightarrow> headers_flat hs"
  by (cases e; cases "snd e") (auto simp: header_flat_def)

lemma flat_doc_entries: "flat_doc j \<Longrightarrow> \<forall>e \<in> set (object_entries j). flat_value (snd e)"
  by (cases j) auto

lemma toHeaders_flat: "\<lbrakk>flat_doc j; toHeaders j = Some hs\<rbrakk> \<Longrightarrow> headers_flat hs"
  by (rule toHeaders_truthy [OF _ flat_doc_entries entry_headers_flat])

interpretation arr_headers: json_view "\<lambda>hs. toV2Headers hs True" toHeaders headers_ok clean
proof unfold_locales
  fix j :: jsval and hs
  assume "clean j" "toHeaders j = Some hs"
  then show "headers_ok hs" by (rule toHeaders_ok)
next
  fix hs j
  assume ok: "headers_ok hs" and "toV2Headers hs True = Some j"
  then obtain w where w: "v2_loop True [] hs = Some w" "j = JObj w"
    by (auto simp: toV2Headers_def)
  have sv: "\<forall>e \<in> set w. saved_arr e" using v2_loop_saved_arr [OF ok _ w(1)] by simp
  have ord: "obj_ordered w" using v2_loop_ordered [OF _ w(1)] by simp
  have j: "wire j = j" using saved_json_ok [of w] sv ord w(2) wire_json_ok by blast
  obtain hss where "traverse entry_headers w = Some hss" "headers_ok (concat hss)"
    "v2_loop True [] (concat hss) = Some w"
    using v2_loop_reload_arr [of w "[]"] sv ord by auto
  then have "toHeaders j = Some (concat hss) \<and> headers_ok (concat hss)
      \<and> toV2Headers (concat hss) True = Some j"
    by (simp add: w(2) toHeaders_def toV2Headers_def)
  with j show "\<exists>y. toHeaders (wire j) = Some y \<and> headers_ok y
      \<and> map_option wire (toV2Headers y True) = Some (wire j)"
    by auto
qed

interpretation flat_headers: json_view "\<lambda>hs. toV2Headers hs False" toHeaders headers_flat flat_doc
proof unfold_locales
  fix j :: jsval and hs
  assume "flat_doc j" "toHeaders j = Some hs"
  then show "headers_flat hs" by (rule toHeaders_flat)
next
  fix hs j
  assume ok: "headers_flat hs" and "toV2Headers hs False = Some j"
  then obtain w where w: "v2_loop False [] hs = Some w" "j = JObj w"
    by (auto simp: toV2Headers_def)
  have sv: "\<forall>e \<in> set w. saved_flat e" using v2_loop_saved_flat [OF ok _ w(1)] by simp
  have ord: "obj_ordered w" using v2_loop_ordered [OF _ w(1)] by simp
  have j: "wire j = j" using saved_json_ok [of w] sv ord w(2) wire_json_ok by blast
  obtain hss where "traverse entry_headers w = Some hss" "headers_flat (concat hss)"
    "v2_loop False [] (concat hss) = Some w"
    using v2_loop_reload_flat [of w "[]"] sv ord by auto
  then have "toHeaders j = Some (concat hss) \<and> headers_flat (concat hss)
      \<and> toV2Headers (concat hss) False = Some j"
    by (simp add: w(2) toHeaders_def toV2Headers_def)
  with j show "\<exists>y. toHeaders (wire j) = Some y \<and> headers_flat y
      \<and> map_option wire (toV2Headers y False) = Some (wire j)"
    by auto
qed

lemma toV2Headers_json_ok:
  "\<lbrakk>headers_ok hs; toV2Headers hs True = Some v\<rbrakk> \<Longrightarrow> json_ok v"
  "\<lbrakk>headers_flat hs; toV2Headers hs False = Some v\<rbrakk> \<Longrightarrow> json_ok v"
proof -
  assume ok: "headers_ok hs" and "toV2Headers hs True = Some v"
  then obtain w where w: "v2_loop True [] hs = Some w" "v = JObj w"
    by (auto simp: toV2Headers_def)
  show "json_ok v"
    using v2_loop_saved_arr [OF ok _ w(1)] v2_loop_ordered [OF _ w(1)] saved_json_ok [of w] w(2)
    by simp
next
  assume ok: "headers_flat hs" and "toV2Headers hs False = Some v"
  then obtain w where w: "v2_loop False [] hs = Some w" "v = JObj w"
    by (auto simp: toV2Headers_def)
  show "json_ok v"
    using v2_loop_saved_flat [OF ok _ w(1)] v2_loop_ordered [OF _ w(1)] saved_json_ok [of w] w(2)
    by simp
qed

text \<open>What was saved reads back as headers that save to the same object.\<close>

lemma arr_headers_again:
  assumes "headers_ok hs" "toV2Headers hs True = Some v"
  obtains hs' where "toHeaders v = Some hs'" "headers_ok hs'" "toV2Headers hs' True = Some v"
    "json_ok v"
proof -
  have v: "json_ok v" by (rule toV2Headers_json_ok(1) [OF assms])
  from arr_headers.view [OF assms] obtain hs' where "toHeaders v = Some hs'" "headers_ok hs'"
    and w: "map_option wire (toV2Headers hs' True) = Some v"
    using v by auto
  moreover have "toV2Headers hs' True = Some v"
    using w toV2Headers_json_ok(1) [OF \<open>headers_ok hs'\<close>] by auto
  ultimately show thesis using that v by blast
qed

lemma flat_headers_again:
  assumes "headers_flat hs" "toV2Headers hs False = Some v"
  obtains hs' where "toHeaders v = Some hs'" "headers_flat hs'" "toV2Headers hs' False = Some v"
    "json_ok v"
proof -
  have v: "json_ok v" by (rule toV2Headers_json_ok(2) [OF assms])
  from flat_headers.view [OF assms] obtain hs' where "toHeaders v = Some hs'" "headers_flat hs'"
    and w: "map_option wire (toV2Headers hs' False) = Some v"
    using v by auto
  moreover have "toV2Headers hs' False = Some v"
    using w toV2Headers_json_ok(2) [OF \<open>headers_flat hs'\<close>] by auto
  ultimately show thesis using that v by blast
qed

end
