(* ===== verification/Transports.thy ===== *)
theory Transports
  imports Headers
begin

text \<open>
  The transports of an inbound (\<open>web/assets/js/model/inbound.js\<close>): TCP with its optional
  HTTP camouflage, mKCP, WebSocket, gRPC, HTTPUpgrade, XHTTP and Hysteria. Each class is a
  record, its constructor (\<open>_new\<close>, the parameters' defaults written with \<open>dflt\<close>), the
  reader \<open>fromJson\<close>, the writer \<open>toJson\<close> and the operations of the form. Every class is
  an instance of the contract of \<open>Json_Codec\<close>: saving what was loaded from a saved
  document writes that document again.
\<close>

section \<open>Shared facts\<close>

text \<open>The documents with a header object the single-valued shape can hold.\<close>

definition flat_headers_doc :: "jsval \<Rightarrow> bool" where
  "flat_headers_doc j \<longleftrightarrow> clean j \<and>
     (case members (dflt emptyObj j) of None \<Rightarrow> True | Some p \<Rightarrow> flat_doc (p ''headers''))"

lemma flat_headers_clean:
  "\<lbrakk>members (dflt emptyObj j) = Some p; flat_headers_doc j\<rbrakk> \<Longrightarrow> clean (p k)"
  by (auto simp: flat_headers_doc_def intro: clean_member)

lemma flat_headers_member:
  "\<lbrakk>toHeaders (p ''headers'') = Some hs; members (dflt emptyObj j) = Some p; flat_headers_doc j\<rbrakk>
   \<Longrightarrow> headers_flat hs"
  by (auto simp: flat_headers_doc_def dest: toHeaders_flat)

section \<open>TCP with HTTP camouflage\<close>

text \<open>The constructor reads \<open>path.length\<close>, so it throws on a \<open>null\<close> path; an empty path
  list becomes \<open>['/']\<close>.\<close>

record TcpRequest =
  req_version :: jsval
  req_method :: jsval
  req_path :: jsval
  req_headers :: "header list"

definition TcpRequest_new :: "jsval \<Rightarrow> jsval \<Rightarrow> jsval \<Rightarrow> header list \<Rightarrow> TcpRequest option" where
  "TcpRequest_new version method path headers = do {
     let path = dflt (JArr [JStr ''/'']) path;
     p \<leftarrow> members path;
     Some \<lparr>req_version = dflt (JStr ''1.1'') version, req_method = dflt (JStr ''GET'') method,
       req_path = (if p ''length'' = JNum 0 then JArr [JStr ''/''] else path),
       req_headers = headers\<rparr> }"

definition TcpRequest_fromJson :: "jsval \<Rightarrow> TcpRequest option" where
  "TcpRequest_fromJson json0 = do {
     json \<leftarrow> members (dflt emptyObj json0);
     headers \<leftarrow> toHeaders (json ''headers'');
     TcpRequest_new (json ''version'') (json ''method'') (json ''path'') headers }"

definition TcpRequest_toJson :: "TcpRequest \<Rightarrow> jsval option" where
  "TcpRequest_toJson this = do {
     headers \<leftarrow> toV2Headers (req_headers this) True;
     Some (JObj
      [(''version'', req_version this), (''method'', req_method this),
       (''path'', clone (req_path this)), (''headers'', headers)]) }"

text \<open>\<open>push\<close> throws on a path that is no array.\<close>

definition TcpRequest_addPath :: "jsval \<Rightarrow> TcpRequest \<Rightarrow> TcpRequest option" where
  "TcpRequest_addPath path this = do {
     ps \<leftarrow> as_array (req_path this);
     Some (this\<lparr>req_path := JArr (ps @ [path])\<rparr>) }"

definition TcpRequest_removePath :: "int \<Rightarrow> TcpRequest \<Rightarrow> TcpRequest option" where
  "TcpRequest_removePath index this = do {
     ps \<leftarrow> as_array (req_path this);
     Some (this\<lparr>req_path := JArr (splice1 index ps)\<rparr>) }"

definition TcpRequest_addHeader :: "jsval \<Rightarrow> jsval \<Rightarrow> TcpRequest \<Rightarrow> TcpRequest" where
  "TcpRequest_addHeader name value this =
     this\<lparr>req_headers := req_headers this @ [mk_header name value]\<rparr>"

definition TcpRequest_removeHeader :: "int \<Rightarrow> TcpRequest \<Rightarrow> TcpRequest" where
  "TcpRequest_removeHeader index this = this\<lparr>req_headers := splice1 index (req_headers this)\<rparr>"

text \<open>A path the constructor leaves alone: an array of one path at least, or a value that is
  no array.\<close>

definition path_ok :: "jsval \<Rightarrow> bool" where
  "path_ok v \<longleftrightarrow> json_ok v \<and> wf_jsval v \<and>
     (case members v of None \<Rightarrow> False | Some p \<Rightarrow> p ''length'' \<noteq> JNum 0)"

definition TcpRequest_ok :: "TcpRequest \<Rightarrow> bool" where
  "TcpRequest_ok x \<longleftrightarrow> json_ok (req_version x) \<and> json_ok (req_method x) \<and> path_ok (req_path x)
     \<and> headers_ok (req_headers x)"

lemmas TcpRequest_defs = TcpRequest_new_def TcpRequest_fromJson_def TcpRequest_toJson_def
  TcpRequest_ok_def

text \<open>A document as \<open>JSON.parse\<close> builds it: keys in enumeration order.\<close>

definition json_doc :: "jsval \<Rightarrow> bool" where
  "json_doc j \<longleftrightarrow> clean j \<and> wf_jsval j"

lemma json_doc_undef [simp]: "json_doc JUndef"
  by (simp add: json_doc_def)

lemma json_doc_clean: "json_doc j \<Longrightarrow> clean j"
  by (simp add: json_doc_def)

lemma wf_oget: "wf_jsval (JObj ps) \<Longrightarrow> wf_jsval (oget ps k)"
  using oget_in [of k ps] by (cases "k \<in> fst ` set ps") (auto simp: oget_not_in)

lemma json_doc_member:
  "\<lbrakk>members (dflt emptyObj j) = Some p; json_doc j\<rbrakk> \<Longrightarrow> json_doc (p k)"
  unfolding json_doc_def
  by (cases j) (auto simp: wf_oget clean_oget_all dflt_def)

lemma clone_path: "path_ok v \<Longrightarrow> clone v = v"
  by (simp add: path_ok_def clone_eq)

interpretation tcp_request: json_optional TcpRequest_toJson TcpRequest_fromJson TcpRequest_ok json_doc
proof unfold_locales
  fix j x
  assume j: "json_doc j" and "TcpRequest_fromJson j = Some x"
  then obtain json hs where json: "members (dflt emptyObj j) = Some json"
    and hs: "toHeaders (json ''headers'') = Some hs"
    and x: "TcpRequest_new (json ''version'') (json ''method'') (json ''path'') hs = Some x"
    by (auto simp: TcpRequest_fromJson_def bind_eq_Some_conv)
  have cl: "json_doc (json k)" for k by (rule json_doc_member [OF json j])
  have "headers_ok hs" using toHeaders_ok [OF json_doc_clean [OF cl] hs] .
  moreover have "path_ok (req_path x)"
    using x cl [of "''path''"]
    by (auto simp: TcpRequest_new_def bind_eq_Some_conv path_ok_def json_doc_def dflt_def Let_def
        intro: json_ok_clean)
  ultimately show "TcpRequest_ok x"
    using x cl [THEN json_doc_clean]
    by (auto simp: TcpRequest_new_def TcpRequest_ok_def bind_eq_Some_conv Let_def
        intro!: json_ok_dflt)
next
  fix x j
  assume ok: "TcpRequest_ok x" and j: "TcpRequest_toJson x = Some j"
  then obtain v where v: "toV2Headers (req_headers x) True = Some v"
    by (auto simp: TcpRequest_toJson_def bind_eq_Some_conv)
  from ok have "headers_ok (req_headers x)" by (simp add: TcpRequest_ok_def)
  from arr_headers_again [OF this v] obtain hs where
    "toHeaders v = Some hs" "headers_ok hs" "toV2Headers hs True = Some v" "json_ok v" .
  with ok v j show "\<exists>y. TcpRequest_fromJson (wire j) = Some y \<and> TcpRequest_ok y
      \<and> map_option wire (TcpRequest_toJson y) = Some (wire j)"
    by (intro exI [of _ "x\<lparr>req_headers := hs\<rparr>"])
      (auto simp: TcpRequest_defs clone_path path_ok_def Let_def split: option.splits)
next
  show "json_doc JUndef" "TcpRequest_fromJson JUndef \<noteq> None"
    by (simp_all add: TcpRequest_fromJson_def TcpRequest_new_def toHeaders_def)
qed

record TcpResponse =
  res_version :: jsval
  res_status :: jsval
  res_reason :: jsval
  res_headers :: "header list"

definition TcpResponse_new :: "jsval \<Rightarrow> jsval \<Rightarrow> jsval \<Rightarrow> header list \<Rightarrow> TcpResponse" where
  "TcpResponse_new version status reason headers =
     \<lparr>res_version = dflt (JStr ''1.1'') version, res_status = dflt (JStr ''200'') status,
       res_reason = dflt (JStr ''OK'') reason, res_headers = headers\<rparr>"

definition TcpResponse_fromJson :: "jsval \<Rightarrow> TcpResponse option" where
  "TcpResponse_fromJson json0 = do {
     json \<leftarrow> members (dflt emptyObj json0);
     headers \<leftarrow> toHeaders (json ''headers'');
     Some (TcpResponse_new (json ''version'') (json ''status'') (json ''reason'') headers) }"

definition TcpResponse_toJson :: "TcpResponse \<Rightarrow> jsval option" where
  "TcpResponse_toJson this = do {
     headers \<leftarrow> toV2Headers (res_headers this) True;
     Some (JObj
      [(''version'', res_version this), (''status'', res_status this),
       (''reason'', res_reason this), (''headers'', headers)]) }"

definition TcpResponse_addHeader :: "jsval \<Rightarrow> jsval \<Rightarrow> TcpResponse \<Rightarrow> TcpResponse" where
  "TcpResponse_addHeader name value this =
     this\<lparr>res_headers := res_headers this @ [mk_header name value]\<rparr>"

definition TcpResponse_removeHeader :: "int \<Rightarrow> TcpResponse \<Rightarrow> TcpResponse" where
  "TcpResponse_removeHeader index this = this\<lparr>res_headers := splice1 index (res_headers this)\<rparr>"

definition TcpResponse_ok :: "TcpResponse \<Rightarrow> bool" where
  "TcpResponse_ok x \<longleftrightarrow> json_ok (res_version x) \<and> json_ok (res_status x) \<and> json_ok (res_reason x)
     \<and> headers_ok (res_headers x)"

lemmas TcpResponse_defs = TcpResponse_new_def TcpResponse_fromJson_def TcpResponse_toJson_def
  TcpResponse_ok_def

interpretation tcp_response: json_optional TcpResponse_toJson TcpResponse_fromJson TcpResponse_ok clean
proof unfold_locales
  show "\<lbrakk>clean j; TcpResponse_fromJson j = Some x\<rbrakk> \<Longrightarrow> TcpResponse_ok x" for j x
    by (auto simp: TcpResponse_defs bind_eq_Some_conv intro!: json_ok_dflt
        intro: clean_member dest: toHeaders_ok [rotated])
next
  fix x j
  assume ok: "TcpResponse_ok x" and j: "TcpResponse_toJson x = Some j"
  then obtain v where v: "toV2Headers (res_headers x) True = Some v"
    by (auto simp: TcpResponse_toJson_def bind_eq_Some_conv)
  from ok have "headers_ok (res_headers x)" by (simp add: TcpResponse_ok_def)
  from arr_headers_again [OF this v] obtain hs where
    "toHeaders v = Some hs" "headers_ok hs" "toV2Headers hs True = Some v" "json_ok v" .
  with ok v j show "\<exists>y. TcpResponse_fromJson (wire j) = Some y \<and> TcpResponse_ok y
      \<and> map_option wire (TcpResponse_toJson y) = Some (wire j)"
    by (intro exI [of _ "x\<lparr>res_headers := hs\<rparr>"]) (auto simp: TcpResponse_defs)
next
  show "clean JUndef" "TcpResponse_fromJson JUndef \<noteq> None"
    by (simp_all add: TcpResponse_fromJson_def toHeaders_def)
qed

record TcpStreamSettings =
  tcp_acceptProxyProtocol :: jsval
  tcp_type :: jsval
  tcp_request :: TcpRequest
  tcp_response :: TcpResponse

definition TcpStreamSettings_new ::
  "jsval \<Rightarrow> jsval \<Rightarrow> TcpRequest \<Rightarrow> TcpResponse \<Rightarrow> TcpStreamSettings" where
  "TcpStreamSettings_new acceptProxyProtocol type0 request response =
     \<lparr>tcp_acceptProxyProtocol = dflt (JBool False) acceptProxyProtocol,
       tcp_type = dflt (JStr ''none'') type0, tcp_request = request, tcp_response = response\<rparr>"

definition TcpStreamSettings_fromJson :: "jsval \<Rightarrow> TcpStreamSettings option" where
  "TcpStreamSettings_fromJson json0 = do {
     json \<leftarrow> members (dflt emptyObj json0);
     header \<leftarrow> members (if truthy (json ''header'') then json ''header'' else emptyObj);
     request \<leftarrow> TcpRequest_fromJson (header ''request'');
     response \<leftarrow> TcpResponse_fromJson (header ''response'');
     Some (TcpStreamSettings_new (json ''acceptProxyProtocol'') (header ''type'') request response) }"

definition TcpStreamSettings_toJson :: "TcpStreamSettings \<Rightarrow> jsval option" where
  "TcpStreamSettings_toJson this = do {
     request \<leftarrow> (if tcp_type this = JStr ''http'' then TcpRequest_toJson (tcp_request this)
                  else Some JUndef);
     response \<leftarrow> (if tcp_type this = JStr ''http'' then TcpResponse_toJson (tcp_response this)
                   else Some JUndef);
     Some (JObj
      [(''acceptProxyProtocol'', tcp_acceptProxyProtocol this),
       (''header'', JObj [(''type'', tcp_type this), (''request'', request),
         (''response'', response)])]) }"

definition TcpStreamSettings_ok :: "TcpStreamSettings \<Rightarrow> bool" where
  "TcpStreamSettings_ok x \<longleftrightarrow> json_ok (tcp_acceptProxyProtocol x) \<and> json_ok (tcp_type x)
     \<and> TcpRequest_ok (tcp_request x) \<and> TcpResponse_ok (tcp_response x)"

lemmas TcpStreamSettings_defs = TcpStreamSettings_new_def TcpStreamSettings_fromJson_def
  TcpStreamSettings_toJson_def TcpStreamSettings_ok_def

lemma TcpRequest_toJson_obj: "TcpRequest_toJson r = Some j \<Longrightarrow> j \<noteq> JUndef"
  by (auto simp: TcpRequest_toJson_def bind_eq_Some_conv)

lemma TcpResponse_toJson_obj: "TcpResponse_toJson r = Some j \<Longrightarrow> j \<noteq> JUndef"
  by (auto simp: TcpResponse_toJson_def bind_eq_Some_conv)

interpretation tcp: json_optional TcpStreamSettings_toJson TcpStreamSettings_fromJson
  TcpStreamSettings_ok json_doc
proof unfold_locales
  fix j x
  assume j: "json_doc j" and "TcpStreamSettings_fromJson j = Some x"
  then obtain json header req res where json: "members (dflt emptyObj j) = Some json"
    and header: "members (if truthy (json ''header'') then json ''header'' else emptyObj) = Some header"
    and "TcpRequest_fromJson (header ''request'') = Some req"
    and "TcpResponse_fromJson (header ''response'') = Some res"
    and x: "x = TcpStreamSettings_new (json ''acceptProxyProtocol'') (header ''type'') req res"
    by (auto simp: TcpStreamSettings_fromJson_def bind_eq_Some_conv)
  moreover have cl: "json_doc (json k)" for k by (rule json_doc_member [OF json j])
  moreover have hd: "json_doc (header k)" for k
    using header cl [of "''header''"] json_doc_member [of "json ''header''" header k]
    by (cases "json ''header''") (auto simp: dflt_def split: if_splits)
  ultimately show "TcpStreamSettings_ok x"
    using tcp_request.dec_ok [of "header ''request''" req]
      tcp_response.dec_ok [of "header ''response''" res]
    by (auto simp: TcpStreamSettings_new_def TcpStreamSettings_ok_def json_doc_clean
        intro!: json_ok_dflt)
next
  fix x j
  assume ok: "TcpStreamSettings_ok x" and j: "TcpStreamSettings_toJson x = Some j"
  let ?http = "tcp_type x = JStr ''http''"
  from j obtain rq rs where
    rq: "(if ?http then TcpRequest_toJson (tcp_request x) else Some JUndef) = Some rq" and
    rs: "(if ?http then TcpResponse_toJson (tcp_response x) else Some JUndef) = Some rs"
    by (auto simp: TcpStreamSettings_toJson_def bind_eq_Some_conv)
  from ok have parts: "TcpRequest_ok (tcp_request x)" "TcpResponse_ok (tcp_response x)"
    by (simp_all add: TcpStreamSettings_ok_def)
  obtain req where "TcpRequest_fromJson (wire rq) = Some req" "TcpRequest_ok req"
    "map_option wire (if ?http then TcpRequest_toJson req else Some JUndef) = Some (wire rq)"
    by (rule tcp_request.selected_view [OF parts(1) rq])
  moreover obtain res where "TcpResponse_fromJson (wire rs) = Some res" "TcpResponse_ok res"
    "map_option wire (if ?http then TcpResponse_toJson res else Some JUndef) = Some (wire rs)"
    by (rule tcp_response.selected_view [OF parts(2) rs])
  ultimately show "\<exists>y. TcpStreamSettings_fromJson (wire j) = Some y \<and> TcpStreamSettings_ok y
      \<and> map_option wire (TcpStreamSettings_toJson y) = Some (wire j)"
    using ok j rq rs
    by (intro exI [of _ "x\<lparr>tcp_request := req, tcp_response := res\<rparr>"])
      (cases ?http; cases "rq = JUndef"; cases "rs = JUndef";
        auto simp: TcpStreamSettings_defs dest: TcpRequest_toJson_obj TcpResponse_toJson_obj)
next
  show "json_doc JUndef" "TcpStreamSettings_fromJson JUndef \<noteq> None"
    by (simp_all add: TcpStreamSettings_fromJson_def TcpRequest_fromJson_def TcpRequest_new_def
        TcpResponse_fromJson_def toHeaders_def)
qed

section \<open>mKCP\<close>

record KcpStreamSettings =
  kcp_mtu :: jsval
  kcp_tti :: jsval
  kcp_upCap :: jsval
  kcp_downCap :: jsval
  kcp_cwndMultiplier :: jsval
  kcp_maxSendingWindow :: jsval

definition KcpStreamSettings_new ::
  "jsval \<Rightarrow> jsval \<Rightarrow> jsval \<Rightarrow> jsval \<Rightarrow>
    jsval \<Rightarrow> jsval \<Rightarrow> KcpStreamSettings" where
  "KcpStreamSettings_new mtu tti uplinkCapacity downlinkCapacity cwndMultiplier maxSendingWindow =
     \<lparr>kcp_mtu = dflt (JNum 1350) mtu, kcp_tti = dflt (JNum 20) tti,
       kcp_upCap = dflt (JNum 5) uplinkCapacity,
       kcp_downCap = dflt (JNum 20) downlinkCapacity,
       kcp_cwndMultiplier = dflt (JNum 1) cwndMultiplier,
       kcp_maxSendingWindow = dflt (JNum 2097152) maxSendingWindow\<rparr>"

definition KcpStreamSettings_fromJson :: "jsval \<Rightarrow> KcpStreamSettings option" where
  "KcpStreamSettings_fromJson json0 = do {
     json \<leftarrow> members (dflt emptyObj json0);
     Some (KcpStreamSettings_new
       (json ''mtu'') (json ''tti'') (json ''uplinkCapacity'') (json ''downlinkCapacity'')
       (json ''cwndMultiplier'') (json ''maxSendingWindow'')) }"

definition KcpStreamSettings_toJson :: "KcpStreamSettings \<Rightarrow> jsval" where
  "KcpStreamSettings_toJson this = JObj
      [(''mtu'', kcp_mtu this), (''tti'', kcp_tti this),
       (''uplinkCapacity'', kcp_upCap this), (''downlinkCapacity'', kcp_downCap this),
       (''cwndMultiplier'', kcp_cwndMultiplier this),
       (''maxSendingWindow'', kcp_maxSendingWindow this)]"

definition KcpStreamSettings_ok :: "KcpStreamSettings \<Rightarrow> bool" where
  "KcpStreamSettings_ok x \<longleftrightarrow>
     json_ok (kcp_mtu x) \<and> json_ok (kcp_tti x) \<and> json_ok (kcp_upCap x) \<and>
     json_ok (kcp_downCap x) \<and> json_ok (kcp_cwndMultiplier x) \<and>
     json_ok (kcp_maxSendingWindow x)"

lemmas KcpStreamSettings_defs = KcpStreamSettings_new_def KcpStreamSettings_fromJson_def
  KcpStreamSettings_toJson_def KcpStreamSettings_ok_def

interpretation kcp: json_codec "\<lambda>x. Some (KcpStreamSettings_toJson x)"
  KcpStreamSettings_fromJson KcpStreamSettings_ok clean
  by unfold_locales
    (auto simp: KcpStreamSettings_defs bind_eq_Some_conv intro!: json_ok_dflt intro: clean_member)

interpretation kcp_field: json_optional "\<lambda>x. Some (KcpStreamSettings_toJson x)"
  KcpStreamSettings_fromJson KcpStreamSettings_ok clean
  by unfold_locales (simp_all add: KcpStreamSettings_fromJson_def)

section \<open>gRPC\<close>

record GrpcStreamSettings =
  grpc_serviceName :: jsval
  grpc_authority :: jsval
  grpc_multiMode :: jsval

definition GrpcStreamSettings_new ::
  "jsval \<Rightarrow> jsval \<Rightarrow> jsval \<Rightarrow> GrpcStreamSettings" where
  "GrpcStreamSettings_new serviceName authority multiMode =
     \<lparr>grpc_serviceName = dflt (JStr []) serviceName,
       grpc_authority = dflt (JStr []) authority,
       grpc_multiMode = dflt (JBool False) multiMode\<rparr>"

definition GrpcStreamSettings_fromJson :: "jsval \<Rightarrow> GrpcStreamSettings option" where
  "GrpcStreamSettings_fromJson json0 = do {
     json \<leftarrow> members (dflt emptyObj json0);
     Some (GrpcStreamSettings_new
       (json ''serviceName'') (json ''authority'') (json ''multiMode'')) }"

definition GrpcStreamSettings_toJson :: "GrpcStreamSettings \<Rightarrow> jsval" where
  "GrpcStreamSettings_toJson this = JObj
      [(''serviceName'', grpc_serviceName this), (''authority'', grpc_authority this),
       (''multiMode'', grpc_multiMode this)]"

definition GrpcStreamSettings_ok :: "GrpcStreamSettings \<Rightarrow> bool" where
  "GrpcStreamSettings_ok x \<longleftrightarrow>
     json_ok (grpc_serviceName x) \<and> json_ok (grpc_authority x) \<and>
     json_ok (grpc_multiMode x)"

lemmas GrpcStreamSettings_defs = GrpcStreamSettings_new_def GrpcStreamSettings_fromJson_def
  GrpcStreamSettings_toJson_def GrpcStreamSettings_ok_def

interpretation grpc: json_codec "\<lambda>x. Some (GrpcStreamSettings_toJson x)"
  GrpcStreamSettings_fromJson GrpcStreamSettings_ok clean
  by unfold_locales
    (auto simp: GrpcStreamSettings_defs bind_eq_Some_conv intro!: json_ok_dflt intro: clean_member)

interpretation grpc_field: json_optional "\<lambda>x. Some (GrpcStreamSettings_toJson x)"
  GrpcStreamSettings_fromJson GrpcStreamSettings_ok clean
  by unfold_locales (simp_all add: GrpcStreamSettings_fromJson_def)

section \<open>WebSocket\<close>

record WsStreamSettings =
  ws_acceptProxyProtocol :: jsval
  ws_path :: jsval
  ws_host :: jsval
  ws_headers :: "header list"
  ws_heartbeatPeriod :: jsval

definition WsStreamSettings_new ::
  "jsval \<Rightarrow> jsval \<Rightarrow> jsval \<Rightarrow> header list \<Rightarrow>
    jsval \<Rightarrow> WsStreamSettings" where
  "WsStreamSettings_new acceptProxyProtocol path host headers heartbeatPeriod =
     \<lparr>ws_acceptProxyProtocol = dflt (JBool False) acceptProxyProtocol,
       ws_path = dflt (JStr ''/'') path, ws_host = dflt (JStr []) host,
       ws_headers = headers, ws_heartbeatPeriod = dflt (JNum 0) heartbeatPeriod\<rparr>"

definition WsStreamSettings_fromJson :: "jsval \<Rightarrow> WsStreamSettings option" where
  "WsStreamSettings_fromJson json0 = do {
     json \<leftarrow> members (dflt emptyObj json0);
     headers \<leftarrow> toHeaders (json ''headers'');
     Some (WsStreamSettings_new
       (json ''acceptProxyProtocol'') (json ''path'') (json ''host'') headers
       (json ''heartbeatPeriod'')) }"

definition WsStreamSettings_toJson :: "WsStreamSettings \<Rightarrow> jsval option" where
  "WsStreamSettings_toJson this = do {
     headers \<leftarrow> toV2Headers (ws_headers this) False;
     Some (JObj
      [(''acceptProxyProtocol'', ws_acceptProxyProtocol this), (''path'', ws_path this),
       (''host'', ws_host this), (''headers'', headers),
       (''heartbeatPeriod'', ws_heartbeatPeriod this)]) }"

definition WsStreamSettings_addHeader :: "jsval \<Rightarrow> jsval \<Rightarrow> WsStreamSettings \<Rightarrow> WsStreamSettings" where
  "WsStreamSettings_addHeader name value this = this\<lparr>ws_headers := ws_headers this @ [mk_header name value]\<rparr>"

definition WsStreamSettings_removeHeader :: "int \<Rightarrow> WsStreamSettings \<Rightarrow> WsStreamSettings" where
  "WsStreamSettings_removeHeader index this = this\<lparr>ws_headers := splice1 index (ws_headers this)\<rparr>"

definition WsStreamSettings_ok :: "WsStreamSettings \<Rightarrow> bool" where
  "WsStreamSettings_ok x \<longleftrightarrow>
     json_ok (ws_acceptProxyProtocol x) \<and> json_ok (ws_path x) \<and>
     json_ok (ws_host x) \<and> headers_flat (ws_headers x) \<and>
     json_ok (ws_heartbeatPeriod x)"

lemmas WsStreamSettings_defs = WsStreamSettings_new_def WsStreamSettings_fromJson_def
  WsStreamSettings_toJson_def WsStreamSettings_ok_def

interpretation ws: json_optional WsStreamSettings_toJson WsStreamSettings_fromJson
  WsStreamSettings_ok flat_headers_doc
proof unfold_locales
  show "\<lbrakk>flat_headers_doc j; WsStreamSettings_fromJson j = Some x\<rbrakk> \<Longrightarrow> WsStreamSettings_ok x" for j x
    by (auto simp: WsStreamSettings_defs bind_eq_Some_conv intro!: json_ok_dflt
        intro: flat_headers_clean dest: flat_headers_member)
next
  fix x j
  assume ok: "WsStreamSettings_ok x" and j: "WsStreamSettings_toJson x = Some j"
  then obtain v where v: "toV2Headers (ws_headers x) False = Some v"
    by (auto simp: WsStreamSettings_toJson_def bind_eq_Some_conv)
  from ok have "headers_flat (ws_headers x)" by (simp add: WsStreamSettings_ok_def)
  from flat_headers_again [OF this v] obtain hs where
    "toHeaders v = Some hs" "headers_flat hs" "toV2Headers hs False = Some v" "json_ok v" .
  with ok v j show "\<exists>y. WsStreamSettings_fromJson (wire j) = Some y \<and>
      WsStreamSettings_ok y \<and> map_option wire (WsStreamSettings_toJson y) = Some (wire j)"
    by (intro exI [of _ "x\<lparr>ws_headers := hs\<rparr>"]) (auto simp: WsStreamSettings_defs)
next
  show "flat_headers_doc JUndef" "WsStreamSettings_fromJson JUndef \<noteq> None"
    by (simp_all add: flat_headers_doc_def WsStreamSettings_fromJson_def toHeaders_def)
qed

section \<open>HTTPUpgrade\<close>

record HTTPUpgradeStreamSettings =
  hu_acceptProxyProtocol :: jsval
  hu_path :: jsval
  hu_host :: jsval
  hu_headers :: "header list"

definition HTTPUpgradeStreamSettings_new ::
  "jsval \<Rightarrow> jsval \<Rightarrow> jsval \<Rightarrow> header list \<Rightarrow>
    HTTPUpgradeStreamSettings" where
  "HTTPUpgradeStreamSettings_new acceptProxyProtocol path host headers =
     \<lparr>hu_acceptProxyProtocol = dflt (JBool False) acceptProxyProtocol,
       hu_path = dflt (JStr ''/'') path, hu_host = dflt (JStr []) host, hu_headers = headers\<rparr>"

definition HTTPUpgradeStreamSettings_fromJson :: "jsval \<Rightarrow> HTTPUpgradeStreamSettings option" where
  "HTTPUpgradeStreamSettings_fromJson json0 = do {
     json \<leftarrow> members (dflt emptyObj json0);
     headers \<leftarrow> toHeaders (json ''headers'');
     Some (HTTPUpgradeStreamSettings_new
       (json ''acceptProxyProtocol'') (json ''path'') (json ''host'') headers) }"

definition HTTPUpgradeStreamSettings_toJson :: "HTTPUpgradeStreamSettings \<Rightarrow> jsval option" where
  "HTTPUpgradeStreamSettings_toJson this = do {
     headers \<leftarrow> toV2Headers (hu_headers this) False;
     Some (JObj
      [(''acceptProxyProtocol'', hu_acceptProxyProtocol this), (''path'', hu_path this),
       (''host'', hu_host this), (''headers'', headers)]) }"

definition HTTPUpgradeStreamSettings_addHeader :: "jsval \<Rightarrow> jsval \<Rightarrow> HTTPUpgradeStreamSettings \<Rightarrow> HTTPUpgradeStreamSettings" where
  "HTTPUpgradeStreamSettings_addHeader name value this = this\<lparr>hu_headers := hu_headers this @ [mk_header name value]\<rparr>"

definition HTTPUpgradeStreamSettings_removeHeader :: "int \<Rightarrow> HTTPUpgradeStreamSettings \<Rightarrow> HTTPUpgradeStreamSettings" where
  "HTTPUpgradeStreamSettings_removeHeader index this = this\<lparr>hu_headers := splice1 index (hu_headers this)\<rparr>"

definition HTTPUpgradeStreamSettings_ok :: "HTTPUpgradeStreamSettings \<Rightarrow> bool" where
  "HTTPUpgradeStreamSettings_ok x \<longleftrightarrow>
     json_ok (hu_acceptProxyProtocol x) \<and> json_ok (hu_path x) \<and>
     json_ok (hu_host x) \<and> headers_flat (hu_headers x)"

lemmas HTTPUpgradeStreamSettings_defs = HTTPUpgradeStreamSettings_new_def HTTPUpgradeStreamSettings_fromJson_def
  HTTPUpgradeStreamSettings_toJson_def HTTPUpgradeStreamSettings_ok_def

interpretation httpupgrade: json_optional HTTPUpgradeStreamSettings_toJson HTTPUpgradeStreamSettings_fromJson
  HTTPUpgradeStreamSettings_ok flat_headers_doc
proof unfold_locales
  show "\<lbrakk>flat_headers_doc j; HTTPUpgradeStreamSettings_fromJson j = Some x\<rbrakk> \<Longrightarrow> HTTPUpgradeStreamSettings_ok x" for j x
    by (auto simp: HTTPUpgradeStreamSettings_defs bind_eq_Some_conv intro!: json_ok_dflt
        intro: flat_headers_clean dest: flat_headers_member)
next
  fix x j
  assume ok: "HTTPUpgradeStreamSettings_ok x" and j: "HTTPUpgradeStreamSettings_toJson x = Some j"
  then obtain v where v: "toV2Headers (hu_headers x) False = Some v"
    by (auto simp: HTTPUpgradeStreamSettings_toJson_def bind_eq_Some_conv)
  from ok have "headers_flat (hu_headers x)" by (simp add: HTTPUpgradeStreamSettings_ok_def)
  from flat_headers_again [OF this v] obtain hs where
    "toHeaders v = Some hs" "headers_flat hs" "toV2Headers hs False = Some v" "json_ok v" .
  with ok v j show "\<exists>y. HTTPUpgradeStreamSettings_fromJson (wire j) = Some y \<and>
      HTTPUpgradeStreamSettings_ok y \<and> map_option wire (HTTPUpgradeStreamSettings_toJson y) = Some (wire j)"
    by (intro exI [of _ "x\<lparr>hu_headers := hs\<rparr>"]) (auto simp: HTTPUpgradeStreamSettings_defs)
next
  show "flat_headers_doc JUndef" "HTTPUpgradeStreamSettings_fromJson JUndef \<noteq> None"
    by (simp_all add: flat_headers_doc_def HTTPUpgradeStreamSettings_fromJson_def toHeaders_def)
qed

section \<open>XHTTP\<close>

record xHTTPStreamSettings =
  xh_path :: jsval
  xh_host :: jsval
  xh_headers :: "header list"
  xh_scMaxBufferedPosts :: jsval
  xh_scMaxEachPostBytes :: jsval
  xh_scStreamUpServerSecs :: jsval
  xh_noSSEHeader :: jsval
  xh_xPaddingBytes :: jsval
  xh_mode :: jsval
  xh_xPaddingObfsMode :: jsval
  xh_xPaddingKey :: jsval
  xh_xPaddingHeader :: jsval
  xh_xPaddingPlacement :: jsval
  xh_xPaddingMethod :: jsval
  xh_uplinkHTTPMethod :: jsval
  xh_sessionPlacement :: jsval
  xh_sessionKey :: jsval
  xh_seqPlacement :: jsval
  xh_seqKey :: jsval
  xh_uplinkDataPlacement :: jsval
  xh_uplinkDataKey :: jsval
  xh_uplinkChunkSize :: jsval

definition xHTTPStreamSettings_new ::
  "jsval \<Rightarrow> jsval \<Rightarrow> header list \<Rightarrow> jsval \<Rightarrow>
    jsval \<Rightarrow> jsval \<Rightarrow> jsval \<Rightarrow> jsval \<Rightarrow>
    jsval \<Rightarrow> jsval \<Rightarrow> jsval \<Rightarrow> jsval \<Rightarrow>
    jsval \<Rightarrow> jsval \<Rightarrow> jsval \<Rightarrow> jsval \<Rightarrow>
    jsval \<Rightarrow> jsval \<Rightarrow> jsval \<Rightarrow> jsval \<Rightarrow>
    jsval \<Rightarrow> jsval \<Rightarrow> xHTTPStreamSettings" where
  "xHTTPStreamSettings_new path host headers scMaxBufferedPosts scMaxEachPostBytes scStreamUpServerSecs
     noSSEHeader xPaddingBytes mode xPaddingObfsMode xPaddingKey xPaddingHeader
     xPaddingPlacement xPaddingMethod uplinkHTTPMethod sessionPlacement sessionKey
     seqPlacement seqKey uplinkDataPlacement uplinkDataKey uplinkChunkSize =
     \<lparr>xh_path = dflt (JStr ''/'') path, xh_host = dflt (JStr []) host,
       xh_headers = headers, xh_scMaxBufferedPosts = dflt (JNum 30) scMaxBufferedPosts,
       xh_scMaxEachPostBytes = dflt (JStr ''1000000'') scMaxEachPostBytes,
       xh_scStreamUpServerSecs = dflt (JStr ''20-80'') scStreamUpServerSecs,
       xh_noSSEHeader = dflt (JBool False) noSSEHeader,
       xh_xPaddingBytes = dflt (JStr ''100-1000'') xPaddingBytes,
       xh_mode = dflt (JStr ''auto'') mode,
       xh_xPaddingObfsMode = dflt (JBool False) xPaddingObfsMode,
       xh_xPaddingKey = dflt (JStr []) xPaddingKey,
       xh_xPaddingHeader = dflt (JStr []) xPaddingHeader,
       xh_xPaddingPlacement = dflt (JStr []) xPaddingPlacement,
       xh_xPaddingMethod = dflt (JStr []) xPaddingMethod,
       xh_uplinkHTTPMethod = dflt (JStr []) uplinkHTTPMethod,
       xh_sessionPlacement = dflt (JStr []) sessionPlacement,
       xh_sessionKey = dflt (JStr []) sessionKey,
       xh_seqPlacement = dflt (JStr []) seqPlacement, xh_seqKey = dflt (JStr []) seqKey,
       xh_uplinkDataPlacement = dflt (JStr []) uplinkDataPlacement,
       xh_uplinkDataKey = dflt (JStr []) uplinkDataKey,
       xh_uplinkChunkSize = dflt (JNum 0) uplinkChunkSize\<rparr>"

definition xHTTPStreamSettings_fromJson :: "jsval \<Rightarrow> xHTTPStreamSettings option" where
  "xHTTPStreamSettings_fromJson json0 = do {
     json \<leftarrow> members (dflt emptyObj json0);
     headers \<leftarrow> toHeaders (json ''headers'');
     Some (xHTTPStreamSettings_new
       (json ''path'') (json ''host'') headers (json ''scMaxBufferedPosts'')
       (json ''scMaxEachPostBytes'') (json ''scStreamUpServerSecs'') (json ''noSSEHeader'')
       (json ''xPaddingBytes'') (json ''mode'') (json ''xPaddingObfsMode'')
       (json ''xPaddingKey'') (json ''xPaddingHeader'') (json ''xPaddingPlacement'')
       (json ''xPaddingMethod'') (json ''uplinkHTTPMethod'') (json ''sessionPlacement'')
       (json ''sessionKey'') (json ''seqPlacement'') (json ''seqKey'')
       (json ''uplinkDataPlacement'') (json ''uplinkDataKey'') (json ''uplinkChunkSize'')) }"

definition xHTTPStreamSettings_toJson :: "xHTTPStreamSettings \<Rightarrow> jsval option" where
  "xHTTPStreamSettings_toJson this = do {
     headers \<leftarrow> toV2Headers (xh_headers this) False;
     Some (JObj
      [(''path'', xh_path this), (''host'', xh_host this), (''headers'', headers),
       (''scMaxBufferedPosts'', xh_scMaxBufferedPosts this),
       (''scMaxEachPostBytes'', xh_scMaxEachPostBytes this),
       (''scStreamUpServerSecs'', xh_scStreamUpServerSecs this),
       (''noSSEHeader'', xh_noSSEHeader this), (''xPaddingBytes'', xh_xPaddingBytes this),
       (''mode'', xh_mode this), (''xPaddingObfsMode'', xh_xPaddingObfsMode this),
       (''xPaddingKey'', xh_xPaddingKey this), (''xPaddingHeader'', xh_xPaddingHeader this),
       (''xPaddingPlacement'', xh_xPaddingPlacement this),
       (''xPaddingMethod'', xh_xPaddingMethod this),
       (''uplinkHTTPMethod'', xh_uplinkHTTPMethod this),
       (''sessionPlacement'', xh_sessionPlacement this),
       (''sessionKey'', xh_sessionKey this), (''seqPlacement'', xh_seqPlacement this),
       (''seqKey'', xh_seqKey this), (''uplinkDataPlacement'', xh_uplinkDataPlacement this),
       (''uplinkDataKey'', xh_uplinkDataKey this),
       (''uplinkChunkSize'', xh_uplinkChunkSize this)]) }"

definition xHTTPStreamSettings_addHeader :: "jsval \<Rightarrow> jsval \<Rightarrow> xHTTPStreamSettings \<Rightarrow> xHTTPStreamSettings" where
  "xHTTPStreamSettings_addHeader name value this = this\<lparr>xh_headers := xh_headers this @ [mk_header name value]\<rparr>"

definition xHTTPStreamSettings_removeHeader :: "int \<Rightarrow> xHTTPStreamSettings \<Rightarrow> xHTTPStreamSettings" where
  "xHTTPStreamSettings_removeHeader index this = this\<lparr>xh_headers := splice1 index (xh_headers this)\<rparr>"

definition xHTTPStreamSettings_ok :: "xHTTPStreamSettings \<Rightarrow> bool" where
  "xHTTPStreamSettings_ok x \<longleftrightarrow>
     json_ok (xh_path x) \<and> json_ok (xh_host x) \<and>
     headers_flat (xh_headers x) \<and> json_ok (xh_scMaxBufferedPosts x) \<and>
     json_ok (xh_scMaxEachPostBytes x) \<and> json_ok (xh_scStreamUpServerSecs x) \<and>
     json_ok (xh_noSSEHeader x) \<and> json_ok (xh_xPaddingBytes x) \<and>
     json_ok (xh_mode x) \<and> json_ok (xh_xPaddingObfsMode x) \<and>
     json_ok (xh_xPaddingKey x) \<and> json_ok (xh_xPaddingHeader x) \<and>
     json_ok (xh_xPaddingPlacement x) \<and> json_ok (xh_xPaddingMethod x) \<and>
     json_ok (xh_uplinkHTTPMethod x) \<and> json_ok (xh_sessionPlacement x) \<and>
     json_ok (xh_sessionKey x) \<and> json_ok (xh_seqPlacement x) \<and>
     json_ok (xh_seqKey x) \<and> json_ok (xh_uplinkDataPlacement x) \<and>
     json_ok (xh_uplinkDataKey x) \<and> json_ok (xh_uplinkChunkSize x)"

lemmas xHTTPStreamSettings_defs = xHTTPStreamSettings_new_def xHTTPStreamSettings_fromJson_def
  xHTTPStreamSettings_toJson_def xHTTPStreamSettings_ok_def

interpretation xhttp: json_optional xHTTPStreamSettings_toJson xHTTPStreamSettings_fromJson
  xHTTPStreamSettings_ok flat_headers_doc
proof unfold_locales
  show "\<lbrakk>flat_headers_doc j; xHTTPStreamSettings_fromJson j = Some x\<rbrakk> \<Longrightarrow> xHTTPStreamSettings_ok x" for j x
    by (auto simp: xHTTPStreamSettings_defs bind_eq_Some_conv intro!: json_ok_dflt
        intro: flat_headers_clean dest: flat_headers_member)
next
  fix x j
  assume ok: "xHTTPStreamSettings_ok x" and j: "xHTTPStreamSettings_toJson x = Some j"
  then obtain v where v: "toV2Headers (xh_headers x) False = Some v"
    by (auto simp: xHTTPStreamSettings_toJson_def bind_eq_Some_conv)
  from ok have "headers_flat (xh_headers x)" by (simp add: xHTTPStreamSettings_ok_def)
  from flat_headers_again [OF this v] obtain hs where
    "toHeaders v = Some hs" "headers_flat hs" "toV2Headers hs False = Some v" "json_ok v" .
  with ok v j show "\<exists>y. xHTTPStreamSettings_fromJson (wire j) = Some y \<and>
      xHTTPStreamSettings_ok y \<and> map_option wire (xHTTPStreamSettings_toJson y) = Some (wire j)"
    by (intro exI [of _ "x\<lparr>xh_headers := hs\<rparr>"]) (auto simp: xHTTPStreamSettings_defs)
next
  show "flat_headers_doc JUndef" "xHTTPStreamSettings_fromJson JUndef \<noteq> None"
    by (simp_all add: flat_headers_doc_def xHTTPStreamSettings_fromJson_def toHeaders_def)
qed

section \<open>The site a Hysteria inbound shows to strangers\<close>

record HysteriaMasquerade =
  hm_type :: jsval
  hm_dir :: jsval
  hm_url :: jsval
  hm_rewriteHost :: jsval
  hm_insecure :: jsval
  hm_content :: jsval
  hm_headers :: "header list"
  hm_statusCode :: jsval

definition HysteriaMasquerade_new ::
  "jsval \<Rightarrow> jsval \<Rightarrow> jsval \<Rightarrow> jsval \<Rightarrow>
    jsval \<Rightarrow> jsval \<Rightarrow> header list \<Rightarrow> jsval \<Rightarrow>
    HysteriaMasquerade" where
  "HysteriaMasquerade_new type0 dir url rewriteHost insecure content headers statusCode =
     \<lparr>hm_type = dflt (JStr ''proxy'') type0, hm_dir = dflt (JStr []) dir,
       hm_url = dflt (JStr []) url, hm_rewriteHost = dflt (JBool False) rewriteHost,
       hm_insecure = dflt (JBool False) insecure, hm_content = dflt (JStr []) content,
       hm_headers = headers, hm_statusCode = dflt (JNum 0) statusCode\<rparr>"

definition HysteriaMasquerade_fromJson :: "jsval \<Rightarrow> HysteriaMasquerade option" where
  "HysteriaMasquerade_fromJson json0 = do {
     json \<leftarrow> members (dflt emptyObj json0);
     headers \<leftarrow> toHeaders (json ''headers'');
     Some (HysteriaMasquerade_new
       (json ''type'') (json ''dir'') (json ''url'') (json ''rewriteHost'')
       (json ''insecure'') (json ''content'') headers (json ''statusCode'')) }"

definition HysteriaMasquerade_toJson :: "HysteriaMasquerade \<Rightarrow> jsval option" where
  "HysteriaMasquerade_toJson this = do {
     headers \<leftarrow> toV2Headers (hm_headers this) False;
     Some (JObj
      [(''type'', hm_type this), (''dir'', hm_dir this), (''url'', hm_url this),
       (''rewriteHost'', hm_rewriteHost this), (''insecure'', hm_insecure this),
       (''content'', hm_content this), (''headers'', headers),
       (''statusCode'', hm_statusCode this)]) }"

definition HysteriaMasquerade_addHeader :: "jsval \<Rightarrow> jsval \<Rightarrow> HysteriaMasquerade \<Rightarrow> HysteriaMasquerade" where
  "HysteriaMasquerade_addHeader name value this = this\<lparr>hm_headers := hm_headers this @ [mk_header name value]\<rparr>"

definition HysteriaMasquerade_removeHeader :: "int \<Rightarrow> HysteriaMasquerade \<Rightarrow> HysteriaMasquerade" where
  "HysteriaMasquerade_removeHeader index this = this\<lparr>hm_headers := splice1 index (hm_headers this)\<rparr>"

definition HysteriaMasquerade_ok :: "HysteriaMasquerade \<Rightarrow> bool" where
  "HysteriaMasquerade_ok x \<longleftrightarrow>
     json_ok (hm_type x) \<and> json_ok (hm_dir x) \<and> json_ok (hm_url x) \<and>
     json_ok (hm_rewriteHost x) \<and> json_ok (hm_insecure x) \<and>
     json_ok (hm_content x) \<and> headers_flat (hm_headers x) \<and>
     json_ok (hm_statusCode x)"

lemmas HysteriaMasquerade_defs = HysteriaMasquerade_new_def HysteriaMasquerade_fromJson_def
  HysteriaMasquerade_toJson_def HysteriaMasquerade_ok_def

interpretation masquerade: json_optional HysteriaMasquerade_toJson HysteriaMasquerade_fromJson
  HysteriaMasquerade_ok flat_headers_doc
proof unfold_locales
  show "\<lbrakk>flat_headers_doc j; HysteriaMasquerade_fromJson j = Some x\<rbrakk> \<Longrightarrow> HysteriaMasquerade_ok x" for j x
    by (auto simp: HysteriaMasquerade_defs bind_eq_Some_conv intro!: json_ok_dflt
        intro: flat_headers_clean dest: flat_headers_member)
next
  fix x j
  assume ok: "HysteriaMasquerade_ok x" and j: "HysteriaMasquerade_toJson x = Some j"
  then obtain v where v: "toV2Headers (hm_headers x) False = Some v"
    by (auto simp: HysteriaMasquerade_toJson_def bind_eq_Some_conv)
  from ok have "headers_flat (hm_headers x)" by (simp add: HysteriaMasquerade_ok_def)
  from flat_headers_again [OF this v] obtain hs where
    "toHeaders v = Some hs" "headers_flat hs" "toV2Headers hs False = Some v" "json_ok v" .
  with ok v j show "\<exists>y. HysteriaMasquerade_fromJson (wire j) = Some y \<and>
      HysteriaMasquerade_ok y \<and> map_option wire (HysteriaMasquerade_toJson y) = Some (wire j)"
    by (intro exI [of _ "x\<lparr>hm_headers := hs\<rparr>"]) (auto simp: HysteriaMasquerade_defs)
next
  show "flat_headers_doc JUndef" "HysteriaMasquerade_fromJson JUndef \<noteq> None"
    by (simp_all add: flat_headers_doc_def HysteriaMasquerade_fromJson_def toHeaders_def)
qed

section \<open>Hysteria\<close>

text \<open>The constructor's first parameter goes to a base class that keeps nothing, so the object
  has no \<open>protocol\<close> and \<open>toJson\<close> writes \<open>undefined\<close> for it.\<close>

record HysteriaStreamSettings =
  hy_version :: jsval
  hy_auth :: jsval
  hy_udpIdleTimeout :: jsval
  hy_masquerade :: "HysteriaMasquerade option"

definition HysteriaStreamSettings_new ::
  "jsval \<Rightarrow> jsval \<Rightarrow> jsval \<Rightarrow> jsval \<Rightarrow> HysteriaMasquerade option \<Rightarrow> HysteriaStreamSettings" where
  "HysteriaStreamSettings_new protocol version auth udpIdleTimeout masquerade =
     \<lparr>hy_version = dflt (JNum 2) version, hy_auth = dflt (JStr []) auth,
       hy_udpIdleTimeout = dflt (JNum 60) udpIdleTimeout, hy_masquerade = masquerade\<rparr>"

definition HysteriaStreamSettings_fromJson :: "jsval \<Rightarrow> HysteriaStreamSettings option" where
  "HysteriaStreamSettings_fromJson json0 = do {
     json \<leftarrow> members (dflt emptyObj json0);
     masquerade \<leftarrow> (if truthy (json ''masquerade'')
       then map_option Some (HysteriaMasquerade_fromJson (json ''masquerade'')) else Some None);
     Some (HysteriaStreamSettings_new (json ''protocol'')
       (js_coalesce (json ''version'') (JNum 2)) (js_coalesce (json ''auth'') (JStr []))
       (js_coalesce (json ''udpIdleTimeout'') (JNum 60)) masquerade) }"

definition HysteriaStreamSettings_toJson :: "HysteriaStreamSettings \<Rightarrow> jsval option" where
  "HysteriaStreamSettings_toJson this = do {
     masquerade \<leftarrow> (case hy_masquerade this of
       None \<Rightarrow> Some JUndef | Some m \<Rightarrow> HysteriaMasquerade_toJson m);
     Some (JObj
      [(''protocol'', JUndef), (''version'', hy_version this), (''auth'', hy_auth this),
       (''udpIdleTimeout'', hy_udpIdleTimeout this), (''masquerade'', masquerade)]) }"

definition masqueradeSwitch :: "HysteriaStreamSettings \<Rightarrow> bool" where
  "masqueradeSwitch this \<longleftrightarrow> hy_masquerade this \<noteq> None"

definition set_masqueradeSwitch :: "bool \<Rightarrow> HysteriaStreamSettings \<Rightarrow> HysteriaStreamSettings" where
  "set_masqueradeSwitch value this = this\<lparr>hy_masquerade :=
     (if value then Some (HysteriaMasquerade_new JUndef JUndef JUndef JUndef JUndef JUndef [] JUndef)
      else None)\<rparr>"

definition nn_json :: "jsval \<Rightarrow> bool" where
  "nn_json v \<longleftrightarrow> json_ok v \<and> v \<noteq> JNull"

lemma coalesce_nn [simp]: "\<lbrakk>json_ok v; v \<noteq> JNull\<rbrakk> \<Longrightarrow> js_coalesce v d = v"
  by (auto simp: js_coalesce_def nullish_def)

lemma nn_json_coalesce: "\<lbrakk>clean v; nn_json d\<rbrakk> \<Longrightarrow> nn_json (dflt e (js_coalesce v d))"
  by (auto simp: nn_json_def js_coalesce_def nullish_def dflt_def clean_def)

lemma nn_json_num: "nn_json (JNum n)"
  by (simp add: nn_json_def)

lemma nn_json_str: "nn_json (JStr s)"
  by (simp add: nn_json_def)

definition HysteriaStreamSettings_ok :: "HysteriaStreamSettings \<Rightarrow> bool" where
  "HysteriaStreamSettings_ok x \<longleftrightarrow> nn_json (hy_version x) \<and> nn_json (hy_auth x)
     \<and> nn_json (hy_udpIdleTimeout x)
     \<and> (case hy_masquerade x of None \<Rightarrow> True | Some m \<Rightarrow> HysteriaMasquerade_ok m)"

definition hysteria_doc :: "jsval \<Rightarrow> bool" where
  "hysteria_doc j \<longleftrightarrow> clean j \<and>
     (case members (dflt emptyObj j) of
        None \<Rightarrow> True
      | Some p \<Rightarrow> \<not> truthy (p ''masquerade'') \<or> flat_headers_doc (p ''masquerade''))"

lemmas HysteriaStreamSettings_defs = HysteriaStreamSettings_new_def
  HysteriaStreamSettings_fromJson_def HysteriaStreamSettings_toJson_def HysteriaStreamSettings_ok_def nn_json_def

lemma HysteriaMasquerade_toJson_obj:
  "HysteriaMasquerade_toJson m = Some j \<Longrightarrow> \<exists>ps. j = JObj ps"
  unfolding HysteriaMasquerade_toJson_def by (auto simp: bind_eq_Some_conv)

interpretation hysteria: json_optional HysteriaStreamSettings_toJson HysteriaStreamSettings_fromJson
  HysteriaStreamSettings_ok hysteria_doc
proof unfold_locales
  fix j x
  assume doc: "hysteria_doc j" and d: "HysteriaStreamSettings_fromJson j = Some x"
  then obtain json where json: "members (dflt emptyObj j) = Some json"
    by (auto simp: HysteriaStreamSettings_fromJson_def bind_eq_Some_conv)
  have cl: "clean (json k)" for k
    by (rule clean_member [OF json]) (use doc in \<open>simp add: hysteria_doc_def\<close>)
  have "truthy (json ''masquerade'') \<Longrightarrow> flat_headers_doc (json ''masquerade'')"
    using doc json by (simp add: hysteria_doc_def)
  with d json cl show "HysteriaStreamSettings_ok x"
    by (auto simp: HysteriaStreamSettings_new_def HysteriaStreamSettings_fromJson_def
        HysteriaStreamSettings_ok_def bind_eq_Some_conv nn_json_coalesce nn_json_num nn_json_str
        split: if_splits intro: masquerade.dec_ok)
next
  fix x j
  assume ok: "HysteriaStreamSettings_ok x" and j: "HysteriaStreamSettings_toJson x = Some j"
  show "\<exists>y. HysteriaStreamSettings_fromJson (wire j) = Some y \<and> HysteriaStreamSettings_ok y
      \<and> map_option wire (HysteriaStreamSettings_toJson y) = Some (wire j)"
  proof (cases "hy_masquerade x")
    case None
    with ok j show ?thesis
      by (intro exI [of _ x]) (auto simp: HysteriaStreamSettings_defs)
  next
    case (Some m)
    with j obtain mj where mj: "HysteriaMasquerade_toJson m = Some mj"
      by (auto simp: HysteriaStreamSettings_toJson_def bind_eq_Some_conv)
    obtain m' where m': "HysteriaMasquerade_fromJson (wire mj) = Some m'" "HysteriaMasquerade_ok m'"
      "map_option wire (HysteriaMasquerade_toJson m') = Some (wire mj)"
      using masquerade.view [OF _ mj] ok Some by (auto simp: HysteriaStreamSettings_ok_def)
    then obtain mk where mk: "HysteriaMasquerade_toJson m' = Some mk" "wire mk = wire mj" by auto
    obtain ps qs where "mj = JObj ps" "mk = JObj qs"
      using HysteriaMasquerade_toJson_obj mj mk(1) by blast
    with Some ok j mj m'(1,2) mk show ?thesis
      by (intro exI [of _ "x\<lparr>hy_masquerade := Some m'\<rparr>"])
        (auto simp: HysteriaStreamSettings_defs)
  qed
next
  show "hysteria_doc JUndef" "HysteriaStreamSettings_fromJson JUndef \<noteq> None"
    by (simp_all add: hysteria_doc_def HysteriaStreamSettings_fromJson_def)
qed

end
