(* ===== verification/Security_Settings.thy ===== *)
theory Security_Settings
  imports Transports
begin

text \<open>
  The security layer of an inbound's stream (\<open>web/assets/js/model/inbound.js\<close>): TLS with
  its certificates, Reality, and the socket options. A Reality object built without a target
  draws one at random; the draws are the parameter \<open>reality_draw\<close>.
\<close>

lemma wire_items_defined: "\<forall>x \<in> set xs. x \<noteq> JUndef \<Longrightarrow> wire_items xs = map wire xs"
  by (induction xs) auto

section \<open>TLS\<close>

subsection \<open>What a client is told\<close>

record TlsSettings =
  tset_fingerprint :: jsval
  tset_echConfigList :: jsval

definition TlsSettings_new ::
  "jsval \<Rightarrow> jsval \<Rightarrow> TlsSettings" where
  "TlsSettings_new fingerprint echConfigList =
     \<lparr>tset_fingerprint = dflt (JStr ''chrome'') fingerprint,
       tset_echConfigList = dflt (JStr []) echConfigList\<rparr>"

definition TlsSettings_fromJson :: "jsval \<Rightarrow> TlsSettings option" where
  "TlsSettings_fromJson json0 = do {
     json \<leftarrow> members (dflt emptyObj json0);
     Some (TlsSettings_new
       (json ''fingerprint'') (json ''echConfigList'')) }"

definition TlsSettings_toJson :: "TlsSettings \<Rightarrow> jsval" where
  "TlsSettings_toJson this = JObj
      [(''fingerprint'', tset_fingerprint this),
       (''echConfigList'', tset_echConfigList this)]"

definition TlsSettings_ok :: "TlsSettings \<Rightarrow> bool" where
  "TlsSettings_ok x \<longleftrightarrow>
     json_ok (tset_fingerprint x) \<and> json_ok (tset_echConfigList x)"

lemmas TlsSettings_defs = TlsSettings_new_def TlsSettings_fromJson_def
  TlsSettings_toJson_def TlsSettings_ok_def

interpretation tls_client: json_codec "\<lambda>x. Some (TlsSettings_toJson x)"
  TlsSettings_fromJson TlsSettings_ok clean
  by unfold_locales
    (auto simp: TlsSettings_defs bind_eq_Some_conv intro!: json_ok_dflt intro: clean_member)

interpretation tls_client_field: json_optional "\<lambda>x. Some (TlsSettings_toJson x)"
  TlsSettings_fromJson TlsSettings_ok clean
  by unfold_locales (simp_all add: TlsSettings_fromJson_def)

subsection \<open>Certificates\<close>

text \<open>A certificate is either a pair of file names or the PEM text itself, which the form
  keeps as one string and the document as a list of lines.\<close>

record TlsCert =
  cert_useFile :: jsval
  cert_certFile :: jsval
  cert_keyFile :: jsval
  cert_cert :: jsval
  cert_key :: jsval
  cert_oneTimeLoading :: jsval
  cert_usage :: jsval
  cert_buildChain :: jsval

definition join_if_array :: "string \<Rightarrow> jsval \<Rightarrow> jsval" where
  "join_if_array sep v = (case v of JArr xs \<Rightarrow> JStr (arr_join sep xs) | _ \<Rightarrow> v)"

definition TlsCert_new ::
  "jsval \<Rightarrow> jsval \<Rightarrow> jsval \<Rightarrow> jsval \<Rightarrow> jsval \<Rightarrow> jsval \<Rightarrow> jsval \<Rightarrow> jsval \<Rightarrow> TlsCert" where
  "TlsCert_new useFile certificateFile keyFile certificate key oneTimeLoading usage buildChain =
     \<lparr>cert_useFile = dflt (JBool True) useFile,
       cert_certFile = dflt (JStr []) certificateFile, cert_keyFile = dflt (JStr []) keyFile,
       cert_cert = join_if_array [CHR 0x0A] (dflt (JStr []) certificate),
       cert_key = join_if_array [CHR 0x0A] (dflt (JStr []) key),
       cert_oneTimeLoading = dflt (JBool False) oneTimeLoading,
       cert_usage = dflt (JStr ''encipherment'') usage,
       cert_buildChain = dflt (JBool False) buildChain\<rparr>"

text \<open>The \<open>in\<close> operator throws on a primitive value; \<open>join\<close> exists on arrays only.\<close>

fun has_keys :: "jsval \<Rightarrow> string list \<Rightarrow> bool option" where
  "has_keys (JObj ps) ks = Some (\<forall>k \<in> set ks. js_in k ps)"
| "has_keys (JArr xs) ks = Some False"
| "has_keys _ ks = None"

definition TlsCert_fromJson :: "jsval \<Rightarrow> TlsCert option" where
  "TlsCert_fromJson json0 = do {
     let j = dflt emptyObj json0;
     files \<leftarrow> has_keys j [''certificateFile'', ''keyFile''];
     json \<leftarrow> members j;
     if files then
       Some (TlsCert_new (JBool True) (json ''certificateFile'') (json ''keyFile'')
         (JStr []) (JStr []) (json ''oneTimeLoading'') (json ''usage'') (json ''buildChain''))
     else do {
       certificate \<leftarrow> as_array (json ''certificate'');
       key \<leftarrow> as_array (json ''key'');
       Some (TlsCert_new (JBool False) (JStr []) (JStr [])
         (JStr (arr_join [CHR 0x0A] certificate)) (JStr (arr_join [CHR 0x0A] key))
         (json ''oneTimeLoading'') (json ''usage'') (json ''buildChain'')) } }"

text \<open>\<open>v.split(c)\<close>, which strings alone have.\<close>

fun split_string :: "char \<Rightarrow> jsval \<Rightarrow> jsval option" where
  "split_string c (JStr s) = Some (JArr (map JStr (js_split c s)))"
| "split_string c _ = None"

definition TlsCert_toJson :: "TlsCert \<Rightarrow> jsval option" where
  "TlsCert_toJson this =
     (if truthy (cert_useFile this) then
        Some (JObj
         [(''certificateFile'', cert_certFile this), (''keyFile'', cert_keyFile this),
          (''oneTimeLoading'', cert_oneTimeLoading this), (''usage'', cert_usage this),
          (''buildChain'', cert_buildChain this)])
      else do {
        certificate \<leftarrow> split_string (CHR 0x0A) (cert_cert this);
        key \<leftarrow> split_string (CHR 0x0A) (cert_key this);
        Some (JObj
         [(''certificate'', certificate), (''key'', key),
          (''oneTimeLoading'', cert_oneTimeLoading this), (''usage'', cert_usage this),
          (''buildChain'', cert_buildChain this)]) })"

definition TlsCert_ok :: "TlsCert \<Rightarrow> bool" where
  "TlsCert_ok x \<longleftrightarrow> json_ok (cert_certFile x) \<and> json_ok (cert_keyFile x)
     \<and> json_ok (cert_cert x) \<and> json_ok (cert_key x)
     \<and> json_ok (cert_oneTimeLoading x) \<and> json_ok (cert_usage x) \<and> json_ok (cert_buildChain x)"

lemmas TlsCert_defs = TlsCert_new_def TlsCert_fromJson_def TlsCert_toJson_def TlsCert_ok_def

lemma has_keys_members: "has_keys v ks = Some b \<Longrightarrow> \<exists>p. members v = Some p"
  by (cases v) auto

lemma arr_join_split [simp]: "arr_join [c] (map JStr (js_split c s)) = s"
  by (simp add: arr_join_strings js_join_split)

lemma as_array_conv [simp]: "as_array v = Some xs \<longleftrightarrow> v = JArr xs"
  by (cases v) auto

lemma split_string_conv:
  "split_string c v = Some j \<longleftrightarrow> (\<exists>s. v = JStr s \<and> j = JArr (map JStr (js_split c s)))"
  by (cases v) auto

lemma wire_strings [simp]: "wire_items (map JStr ss) = map JStr ss"
  by (induction ss) auto

lemma clean_dflt: "\<lbrakk>clean v; json_ok d\<rbrakk> \<Longrightarrow> json_ok (dflt d v)"
  by (rule json_ok_dflt)

lemma file_keys_json_ok:
  "\<lbrakk>js_in k (ps :: props); k \<in> {''certificateFile'', ''keyFile''}; \<forall>p \<in> set ps. json_ok (snd p)\<rbrakk> \<Longrightarrow>
   json_ok (oget ps k)"
  using oget_in [of k ps] by (force simp: js_in_def prototype_names_def)

interpretation cert: json_view TlsCert_toJson TlsCert_fromJson TlsCert_ok json_ok
proof unfold_locales
  fix j x
  assume j: "json_ok j" and d: "TlsCert_fromJson j = Some x"
  then obtain json where json: "members j = Some json"
    using has_keys_members [of j] by (auto simp: TlsCert_fromJson_def Let_def bind_eq_Some_conv)
  have cl: "clean (json k)" for k by (rule clean_members [OF clean_json_ok [OF j] json])
  have "has_keys j [''certificateFile'', ''keyFile''] = Some True \<Longrightarrow>
      k \<in> {''certificateFile'', ''keyFile''} \<Longrightarrow> json_ok (json k)" for k
    using j json file_keys_json_ok [of k] by (cases j) auto
  with d j json cl show "TlsCert_ok x"
    by (auto simp: TlsCert_defs join_if_array_def Let_def bind_eq_Some_conv
        intro!: json_ok_dflt split: if_splits)
next
  fix x j
  assume ok: "TlsCert_ok x" and j: "TlsCert_toJson x = Some j"
  show "\<exists>y. TlsCert_fromJson (wire j) = Some y \<and> TlsCert_ok y
      \<and> map_option wire (TlsCert_toJson y) = Some (wire j)"
  proof (cases "truthy (cert_useFile x)")
    case True
    with ok j show ?thesis
      by (intro exI [of _ "x\<lparr>cert_useFile := JBool True, cert_cert := JStr [], cert_key := JStr []\<rparr>"])
        (auto simp: TlsCert_defs js_in_def join_if_array_def)
  next
    case False
    with j obtain s t where st: "cert_cert x = JStr s" "cert_key x = JStr t"
      by (auto simp: TlsCert_toJson_def bind_eq_Some_conv split_string_conv)
    with False ok j show ?thesis
      by (intro exI [of _ "x\<lparr>cert_useFile := JBool False, cert_certFile := JStr [],
          cert_keyFile := JStr []\<rparr>"])
        (auto simp: TlsCert_defs js_in_def join_if_array_def prototype_names_def)
  qed
qed

subsection \<open>The TLS object\<close>

record TlsStreamSettings =
  tls_sni :: jsval
  tls_minVersion :: jsval
  tls_maxVersion :: jsval
  tls_cipherSuites :: jsval
  tls_rejectUnknownSni :: jsval
  tls_disableSystemRoot :: jsval
  tls_enableSessionResumption :: jsval
  tls_certs :: "TlsCert list"
  tls_alpn :: jsval
  tls_echServerKeys :: jsval
  tls_settings :: TlsSettings

text \<open>An absent certificate list or settings object is \<open>None\<close>.\<close>

definition TlsStreamSettings_new ::
  "jsval \<Rightarrow> jsval \<Rightarrow> jsval \<Rightarrow> jsval \<Rightarrow> jsval \<Rightarrow> jsval \<Rightarrow> jsval \<Rightarrow> TlsCert list option \<Rightarrow>
    jsval \<Rightarrow> jsval \<Rightarrow> TlsSettings option \<Rightarrow> TlsStreamSettings" where
  "TlsStreamSettings_new serverName minVersion maxVersion cipherSuites rejectUnknownSni
     disableSystemRoot enableSessionResumption certificates alpn echServerKeys settings =
     \<lparr>tls_sni = dflt (JStr []) serverName, tls_minVersion = dflt (JStr ''1.2'') minVersion,
       tls_maxVersion = dflt (JStr ''1.3'') maxVersion,
       tls_cipherSuites = dflt (JStr []) cipherSuites,
       tls_rejectUnknownSni = dflt (JBool False) rejectUnknownSni,
       tls_disableSystemRoot = dflt (JBool False) disableSystemRoot,
       tls_enableSessionResumption = dflt (JBool False) enableSessionResumption,
       tls_certs = (case certificates of
         None \<Rightarrow> [TlsCert_new JUndef JUndef JUndef JUndef JUndef JUndef JUndef JUndef]
       | Some cs \<Rightarrow> cs),
       tls_alpn = dflt (JArr [JStr ''h2'', JStr ''http/1.1'']) alpn,
       tls_echServerKeys = dflt (JStr []) echServerKeys,
       tls_settings = (case settings of None \<Rightarrow> TlsSettings_new JUndef JUndef | Some s \<Rightarrow> s)\<rparr>"

definition TlsStreamSettings_fromJson :: "jsval \<Rightarrow> TlsStreamSettings option" where
  "TlsStreamSettings_fromJson json0 = do {
     json \<leftarrow> members (dflt emptyObj json0);
     certs \<leftarrow> (if isEmpty (json ''certificates'') then Some None
       else do {
         cs \<leftarrow> as_array (json ''certificates'');
         map_option Some (traverse TlsCert_fromJson cs) });
     settings \<leftarrow> (if isEmpty (json ''settings'') then Some None
       else do {
         s \<leftarrow> members (json ''settings'');
         Some (Some (TlsSettings_new (s ''fingerprint'') (s ''echConfigList''))) });
     Some (TlsStreamSettings_new
       (json ''serverName'') (json ''minVersion'') (json ''maxVersion'') (json ''cipherSuites'')
       (json ''rejectUnknownSni'') (json ''disableSystemRoot'') (json ''enableSessionResumption'')
       certs (json ''alpn'') (json ''echServerKeys'') settings) }"

definition TlsStreamSettings_toJson :: "TlsStreamSettings \<Rightarrow> jsval option" where
  "TlsStreamSettings_toJson this = do {
     certificates \<leftarrow> traverse TlsCert_toJson (tls_certs this);
     Some (JObj
      [(''serverName'', tls_sni this), (''minVersion'', tls_minVersion this),
       (''maxVersion'', tls_maxVersion this), (''cipherSuites'', tls_cipherSuites this),
       (''rejectUnknownSni'', tls_rejectUnknownSni this),
       (''disableSystemRoot'', tls_disableSystemRoot this),
       (''enableSessionResumption'', tls_enableSessionResumption this),
       (''certificates'', JArr certificates), (''alpn'', tls_alpn this),
       (''echServerKeys'', tls_echServerKeys this),
       (''settings'', TlsSettings_toJson (tls_settings this))]) }"

definition TlsStreamSettings_addCert :: "TlsStreamSettings \<Rightarrow> TlsStreamSettings" where
  "TlsStreamSettings_addCert this = this\<lparr>tls_certs := tls_certs this @
     [TlsCert_new JUndef JUndef JUndef JUndef JUndef JUndef JUndef JUndef]\<rparr>"

definition TlsStreamSettings_removeCert :: "int \<Rightarrow> TlsStreamSettings \<Rightarrow> TlsStreamSettings" where
  "TlsStreamSettings_removeCert index this = this\<lparr>tls_certs := splice1 index (tls_certs this)\<rparr>"

definition TlsStreamSettings_ok :: "TlsStreamSettings \<Rightarrow> bool" where
  "TlsStreamSettings_ok x \<longleftrightarrow>
     json_ok (tls_sni x) \<and> json_ok (tls_minVersion x) \<and> json_ok (tls_maxVersion x)
     \<and> json_ok (tls_cipherSuites x) \<and> json_ok (tls_rejectUnknownSni x)
     \<and> json_ok (tls_disableSystemRoot x) \<and> json_ok (tls_enableSessionResumption x)
     \<and> (\<forall>c \<in> set (tls_certs x). TlsCert_ok c) \<and> json_ok (tls_alpn x)
     \<and> json_ok (tls_echServerKeys x) \<and> TlsSettings_ok (tls_settings x)"

lemmas TlsStreamSettings_defs = TlsStreamSettings_new_def TlsStreamSettings_fromJson_def
  TlsStreamSettings_toJson_def TlsStreamSettings_ok_def

lemma TlsCert_default_ok [simp]:
  "TlsCert_ok (TlsCert_new JUndef JUndef JUndef JUndef JUndef JUndef JUndef JUndef)"
  by (simp add: TlsCert_new_def TlsCert_ok_def join_if_array_def)

lemma TlsSettings_new_ok: "\<lbrakk>clean a; clean b\<rbrakk> \<Longrightarrow> TlsSettings_ok (TlsSettings_new a b)"
  by (simp add: TlsSettings_new_def TlsSettings_ok_def json_ok_dflt)

lemma TlsCert_toJson_obj: "TlsCert_toJson c = Some j \<Longrightarrow> \<exists>ps. j = JObj ps"
  by (auto simp: TlsCert_toJson_def bind_eq_Some_conv split: if_splits)

lemma traverse_defined:
  "\<lbrakk>traverse f xs = Some js; \<And>x j. f x = Some j \<Longrightarrow> j \<noteq> JUndef\<rbrakk> \<Longrightarrow> \<forall>j \<in> set js. j \<noteq> JUndef"
  by (rule traverse_all)

lemma traverse_certs_wire:
  "traverse TlsCert_toJson cs = Some js \<Longrightarrow> wire_items js = map wire js"
  by (rule wire_items_defined) (auto dest!: traverse_defined TlsCert_toJson_obj)

lemma TlsCert_list_dec_ok:
  "\<lbrakk>json_ok (JArr cs); traverse TlsCert_fromJson cs = Some xs\<rbrakk> \<Longrightarrow> \<forall>c \<in> set xs. TlsCert_ok c"
  by (rule cert.dec_list_ok) simp_all

interpretation tls: json_optional TlsStreamSettings_toJson TlsStreamSettings_fromJson
  TlsStreamSettings_ok clean
proof unfold_locales
  fix j x
  assume j: "clean j" and d: "TlsStreamSettings_fromJson j = Some x"
  then obtain json where json: "members (dflt emptyObj j) = Some json"
    by (auto simp: TlsStreamSettings_fromJson_def bind_eq_Some_conv)
  have cl: "clean (json k)" for k by (rule clean_member [OF json j])
  have set_cl: "members (json ''settings'') = Some s \<Longrightarrow> clean (s k)" for s k
    by (rule clean_members [OF cl])
  have "json ''certificates'' = JArr cs \<Longrightarrow> json_ok (JArr cs)" for cs
    using cl [of "''certificates''"] by simp
  with d json cl set_cl show "TlsStreamSettings_ok x"
    by (auto simp: TlsStreamSettings_fromJson_def TlsStreamSettings_new_def TlsStreamSettings_ok_def
        bind_eq_Some_conv TlsSettings_new_ok TlsCert_list_dec_ok intro!: json_ok_dflt
        split: if_splits)
next
  fix x j
  assume ok: "TlsStreamSettings_ok x" and j: "TlsStreamSettings_toJson x = Some j"
  then obtain cs where cs: "traverse TlsCert_toJson (tls_certs x) = Some cs"
    by (auto simp: TlsStreamSettings_toJson_def bind_eq_Some_conv)
  obtain ds es where ds: "traverse TlsCert_fromJson (map wire cs) = Some ds"
    "\<forall>c \<in> set ds. TlsCert_ok c" "traverse TlsCert_toJson ds = Some es" "map wire es = map wire cs"
    using cert.view_list [OF _ cs] ok by (auto simp: TlsStreamSettings_ok_def)
  have s: "TlsSettings_ok (tls_settings x)" using ok by (simp add: TlsStreamSettings_ok_def)
  show "\<exists>y. TlsStreamSettings_fromJson (wire j) = Some y \<and> TlsStreamSettings_ok y
      \<and> map_option wire (TlsStreamSettings_toJson y) = Some (wire j)"
    using ok j cs ds s traverse_certs_wire [OF cs] traverse_certs_wire [OF ds(3)]
    by (intro exI [of _ "x\<lparr>tls_certs := ds\<rparr>"])
      (auto simp: TlsStreamSettings_defs isEmpty_def TlsSettings_defs)
next
  show "clean JUndef" "TlsStreamSettings_fromJson JUndef \<noteq> None"
    by (simp_all add: TlsStreamSettings_fromJson_def isEmpty_def)
qed

section \<open>Reality\<close>

subsection \<open>What a client is told\<close>

record RealitySettings =
  rset_publicKey :: jsval
  rset_fingerprint :: jsval
  rset_serverName :: jsval
  rset_spiderX :: jsval
  rset_mldsa65Verify :: jsval

definition RealitySettings_new ::
  "jsval \<Rightarrow> jsval \<Rightarrow> jsval \<Rightarrow> jsval \<Rightarrow>
    jsval \<Rightarrow> RealitySettings" where
  "RealitySettings_new publicKey fingerprint serverName spiderX mldsa65Verify =
     \<lparr>rset_publicKey = dflt (JStr []) publicKey,
       rset_fingerprint = dflt (JStr ''chrome'') fingerprint,
       rset_serverName = dflt (JStr []) serverName,
       rset_spiderX = dflt (JStr ''/'') spiderX,
       rset_mldsa65Verify = dflt (JStr []) mldsa65Verify\<rparr>"

definition RealitySettings_fromJson :: "jsval \<Rightarrow> RealitySettings option" where
  "RealitySettings_fromJson json0 = do {
     json \<leftarrow> members (dflt emptyObj json0);
     Some (RealitySettings_new
       (json ''publicKey'') (json ''fingerprint'') (json ''serverName'') (json ''spiderX'')
       (json ''mldsa65Verify'')) }"

definition RealitySettings_toJson :: "RealitySettings \<Rightarrow> jsval" where
  "RealitySettings_toJson this = JObj
      [(''publicKey'', rset_publicKey this), (''fingerprint'', rset_fingerprint this),
       (''serverName'', rset_serverName this), (''spiderX'', rset_spiderX this),
       (''mldsa65Verify'', rset_mldsa65Verify this)]"

definition RealitySettings_ok :: "RealitySettings \<Rightarrow> bool" where
  "RealitySettings_ok x \<longleftrightarrow>
     json_ok (rset_publicKey x) \<and> json_ok (rset_fingerprint x) \<and>
     json_ok (rset_serverName x) \<and> json_ok (rset_spiderX x) \<and>
     json_ok (rset_mldsa65Verify x)"

lemmas RealitySettings_defs = RealitySettings_new_def RealitySettings_fromJson_def
  RealitySettings_toJson_def RealitySettings_ok_def

interpretation reality_client: json_codec "\<lambda>x. Some (RealitySettings_toJson x)"
  RealitySettings_fromJson RealitySettings_ok clean
  by unfold_locales
    (auto simp: RealitySettings_defs bind_eq_Some_conv intro!: json_ok_dflt intro: clean_member)

interpretation reality_client_field: json_optional "\<lambda>x. Some (RealitySettings_toJson x)"
  RealitySettings_fromJson RealitySettings_ok clean
  by unfold_locales (simp_all add: RealitySettings_fromJson_def)

subsection \<open>The Reality object\<close>

text \<open>\<open>REALITY_TARGETS\<close> of \<open>model/reality_targets.js\<close>, and the entry a draw selects: the
  index is \<open>Math.floor(Math.random() * REALITY_TARGETS.length)\<close>.\<close>

definition REALITY_TARGETS :: "(string \<times> string) list" where
  "REALITY_TARGETS =
     [(''www.amazon.com:443'', ''www.amazon.com''),
      (''aws.amazon.com:443'', ''aws.amazon.com''),
      (''www.oracle.com:443'', ''www.oracle.com''),
      (''www.nvidia.com:443'', ''www.nvidia.com''),
      (''www.amd.com:443'', ''www.amd.com''),
      (''www.intel.com:443'', ''www.intel.com''),
      (''www.tesla.com:443'', ''www.tesla.com''),
      (''www.sony.com:443'', ''www.sony.com''),
      (''www.cloudflare.com:443'', ''www.cloudflare.com''),
      (''www.samsung.com:443'', ''www.samsung.com''),
      (''dl.google.com:443'', ''dl.google.com'')]"

definition getRandomRealityTarget :: "nat \<Rightarrow> string \<times> string" where
  "getRandomRealityTarget randomIndex = REALITY_TARGETS ! randomIndex"

text \<open>What one call of the constructor may draw: the short ids of
  \<open>RandomUtil.randomShortIds()\<close>, and the target index, which is \<open>None\<close> on a page that did
  not load \<open>reality_targets.js\<close>.\<close>

record reality_draw =
  draw_shortIds :: string
  draw_target :: "nat option"

definition drawn_target :: "reality_draw \<Rightarrow> string \<times> string" where
  "drawn_target r = (case draw_target r of
     Some i \<Rightarrow> getRandomRealityTarget i
   | None \<Rightarrow> (''www.amazon.com:443'', ''www.amazon.com,amazon.com''))"

record RealityStreamSettings =
  rs_show :: jsval
  rs_xver :: jsval
  rs_target :: jsval
  rs_serverNames :: jsval
  rs_privateKey :: jsval
  rs_minClientVer :: jsval
  rs_maxClientVer :: jsval
  rs_maxTimediff :: jsval
  rs_shortIds :: jsval
  rs_mldsa65Seed :: jsval
  rs_settings :: RealitySettings

definition RealityStreamSettings_new ::
  "reality_draw \<Rightarrow> jsval \<Rightarrow> jsval \<Rightarrow> jsval \<Rightarrow> jsval \<Rightarrow> jsval \<Rightarrow> jsval \<Rightarrow> jsval \<Rightarrow> jsval \<Rightarrow>
    jsval \<Rightarrow> jsval \<Rightarrow> RealitySettings option \<Rightarrow> RealityStreamSettings" where
  "RealityStreamSettings_new r show0 xver target serverNames privateKey minClientVer maxClientVer
     maxTimediff shortIds mldsa65Seed settings =
     (let target = dflt (JStr []) target;
          serverNames = dflt (JStr []) serverNames;
          draw = \<not> truthy target \<and> \<not> truthy serverNames;
          target = (if draw then JStr (fst (drawn_target r)) else target);
          serverNames = (if draw then JStr (snd (drawn_target r)) else serverNames)
      in \<lparr>rs_show = dflt (JBool False) show0, rs_xver = dflt (JNum 0) xver, rs_target = target,
           rs_serverNames = join_if_array '','' serverNames,
           rs_privateKey = dflt (JStr []) privateKey,
           rs_minClientVer = dflt (JStr []) minClientVer,
           rs_maxClientVer = dflt (JStr []) maxClientVer,
           rs_maxTimediff = dflt (JNum 0) maxTimediff,
           rs_shortIds = join_if_array '','' (dflt (JStr (draw_shortIds r)) shortIds),
           rs_mldsa65Seed = dflt (JStr []) mldsa65Seed,
           rs_settings = (case settings of
             None \<Rightarrow> RealitySettings_new JUndef JUndef JUndef JUndef JUndef | Some s \<Rightarrow> s)\<rparr>)"

definition RealityStreamSettings_fromJson ::
  "reality_draw \<Rightarrow> jsval \<Rightarrow> RealityStreamSettings option" where
  "RealityStreamSettings_fromJson r json0 = do {
     json \<leftarrow> members (dflt emptyObj json0);
     settings \<leftarrow> (if isEmpty (json ''settings'') then Some None
       else do {
         s \<leftarrow> members (json ''settings'');
         Some (Some (RealitySettings_new (s ''publicKey'') (s ''fingerprint'') (s ''serverName'')
           (s ''spiderX'') (s ''mldsa65Verify''))) });
     Some (RealityStreamSettings_new r
       (json ''show'') (json ''xver'') (json ''target'') (json ''serverNames'')
       (json ''privateKey'') (json ''minClientVer'') (json ''maxClientVer'')
       (json ''maxTimediff'') (json ''shortIds'') (json ''mldsa65Seed'') settings) }"

definition RealityStreamSettings_toJson :: "RealityStreamSettings \<Rightarrow> jsval option" where
  "RealityStreamSettings_toJson this = do {
     serverNames \<leftarrow> split_string (CHR '','') (rs_serverNames this);
     shortIds \<leftarrow> split_string (CHR '','') (rs_shortIds this);
     Some (JObj
      [(''show'', rs_show this), (''xver'', rs_xver this), (''target'', rs_target this),
       (''serverNames'', serverNames), (''privateKey'', rs_privateKey this),
       (''minClientVer'', rs_minClientVer this), (''maxClientVer'', rs_maxClientVer this),
       (''maxTimediff'', rs_maxTimediff this), (''shortIds'', shortIds),
       (''mldsa65Seed'', rs_mldsa65Seed this),
       (''settings'', RealitySettings_toJson (rs_settings this))]) }"

definition RealityStreamSettings_ok :: "RealityStreamSettings \<Rightarrow> bool" where
  "RealityStreamSettings_ok x \<longleftrightarrow>
     json_ok (rs_show x) \<and> json_ok (rs_xver x) \<and> json_ok (rs_target x)
     \<and> json_ok (rs_serverNames x) \<and> json_ok (rs_privateKey x) \<and> json_ok (rs_minClientVer x)
     \<and> json_ok (rs_maxClientVer x) \<and> json_ok (rs_maxTimediff x) \<and> json_ok (rs_shortIds x)
     \<and> json_ok (rs_mldsa65Seed x) \<and> RealitySettings_ok (rs_settings x)"

lemmas RealityStreamSettings_defs = RealityStreamSettings_new_def
  RealityStreamSettings_fromJson_def RealityStreamSettings_toJson_def RealityStreamSettings_ok_def

lemma RealitySettings_new_ok:
  "\<lbrakk>clean a; clean b; clean c; clean d; clean e\<rbrakk> \<Longrightarrow> RealitySettings_ok (RealitySettings_new a b c d e)"
  by (simp add: RealitySettings_new_def RealitySettings_ok_def json_ok_dflt)

lemma json_ok_join_if_array: "json_ok v \<Longrightarrow> json_ok (join_if_array sep v)"
  by (cases v) (simp_all add: join_if_array_def)

lemma RealityStreamSettings_new_ok:
  "\<lbrakk>clean a; clean b; clean c; clean d; clean e; clean f; clean g; clean h; clean i; clean k;
    case s of None \<Rightarrow> True | Some t \<Rightarrow> RealitySettings_ok t\<rbrakk> \<Longrightarrow>
   RealityStreamSettings_ok (RealityStreamSettings_new r a b c d e f g h i k s)"
  by (auto simp: RealityStreamSettings_new_def RealityStreamSettings_ok_def Let_def
      RealitySettings_new_ok json_ok_dflt json_ok_join_if_array split: option.splits)

interpretation reality: json_optional RealityStreamSettings_toJson
  "RealityStreamSettings_fromJson r" RealityStreamSettings_ok clean for r
proof unfold_locales
  fix j x
  assume j: "clean j" and d: "RealityStreamSettings_fromJson r j = Some x"
  then obtain json where json: "members (dflt emptyObj j) = Some json"
    by (auto simp: RealityStreamSettings_fromJson_def bind_eq_Some_conv)
  have cl: "clean (json k)" for k by (rule clean_member [OF json j])
  have "members (json ''settings'') = Some s \<Longrightarrow> clean (s k)" for s k
    by (rule clean_members [OF cl])
  with d json cl show "RealityStreamSettings_ok x"
    by (auto simp: RealityStreamSettings_fromJson_def bind_eq_Some_conv RealitySettings_new_ok
        intro!: RealityStreamSettings_new_ok split: if_splits)
next
  fix x j
  assume ok: "RealityStreamSettings_ok x" and j: "RealityStreamSettings_toJson x = Some j"
  then obtain s t where st: "rs_serverNames x = JStr s" "rs_shortIds x = JStr t"
    by (auto simp: RealityStreamSettings_toJson_def bind_eq_Some_conv split_string_conv)
  have "RealityStreamSettings_fromJson r (wire j) = Some x"
    using ok j st
    by (auto simp: RealityStreamSettings_defs isEmpty_def RealitySettings_defs join_if_array_def
        Let_def)
  with ok j show "\<exists>y. RealityStreamSettings_fromJson r (wire j) = Some y
      \<and> RealityStreamSettings_ok y
      \<and> map_option wire (RealityStreamSettings_toJson y) = Some (wire j)"
    by auto
next
  show "clean JUndef" "RealityStreamSettings_fromJson r JUndef \<noteq> None"
    by (simp_all add: RealityStreamSettings_fromJson_def isEmpty_def)
qed

section \<open>Socket options\<close>

record SockoptStreamSettings =
  so_acceptProxyProtocol :: jsval
  so_tcpFastOpen :: jsval
  so_mark :: jsval
  so_tproxy :: jsval
  so_tcpMptcp :: jsval
  so_penetrate :: jsval
  so_domainStrategy :: jsval
  so_tcpMaxSeg :: jsval
  so_dialerProxy :: jsval
  so_tcpKeepAliveInterval :: jsval
  so_tcpKeepAliveIdle :: jsval
  so_tcpUserTimeout :: jsval
  so_tcpcongestion :: jsval
  so_V6Only :: jsval
  so_tcpWindowClamp :: jsval
  so_interfaceName :: jsval
  so_trustedXForwardedFor :: jsval

definition SockoptStreamSettings_new ::
  "jsval \<Rightarrow> jsval \<Rightarrow> jsval \<Rightarrow> jsval \<Rightarrow> jsval \<Rightarrow> jsval \<Rightarrow> jsval \<Rightarrow> jsval \<Rightarrow> jsval \<Rightarrow>
    jsval \<Rightarrow> jsval \<Rightarrow> jsval \<Rightarrow> jsval \<Rightarrow> jsval \<Rightarrow> jsval \<Rightarrow> jsval \<Rightarrow> jsval \<Rightarrow>
    SockoptStreamSettings" where
  "SockoptStreamSettings_new acceptProxyProtocol tcpFastOpen mark tproxy tcpMptcp penetrate
     domainStrategy tcpMaxSeg dialerProxy tcpKeepAliveInterval tcpKeepAliveIdle tcpUserTimeout
     tcpcongestion V6Only tcpWindowClamp interfaceName trustedXForwardedFor =
     \<lparr>so_acceptProxyProtocol = dflt (JBool False) acceptProxyProtocol,
       so_tcpFastOpen = dflt (JBool False) tcpFastOpen, so_mark = dflt (JNum 0) mark,
       so_tproxy = dflt (JStr ''off'') tproxy, so_tcpMptcp = dflt (JBool False) tcpMptcp,
       so_penetrate = dflt (JBool False) penetrate,
       so_domainStrategy = dflt (JStr ''UseIP'') domainStrategy,
       so_tcpMaxSeg = dflt (JNum 1440) tcpMaxSeg, so_dialerProxy = dflt (JStr []) dialerProxy,
       so_tcpKeepAliveInterval = dflt (JNum 0) tcpKeepAliveInterval,
       so_tcpKeepAliveIdle = dflt (JNum 300) tcpKeepAliveIdle,
       so_tcpUserTimeout = dflt (JNum 10000) tcpUserTimeout,
       so_tcpcongestion = dflt (JStr ''bbr'') tcpcongestion,
       so_V6Only = dflt (JBool False) V6Only, so_tcpWindowClamp = dflt (JNum 600) tcpWindowClamp,
       so_interfaceName = dflt (JStr []) interfaceName,
       so_trustedXForwardedFor = dflt (JArr []) trustedXForwardedFor\<rparr>"

text \<open>\<open>Object.keys\<close> throws on \<open>null\<close>; a document without keys is no socket options at all,
  which the inner \<open>None\<close> stands for.\<close>

definition SockoptStreamSettings_fromJson :: "jsval \<Rightarrow> SockoptStreamSettings option option" where
  "SockoptStreamSettings_fromJson json0 = do {
     let j = dflt emptyObj json0;
     json \<leftarrow> members j;
     if object_entries j = [] then Some None
     else Some (Some (SockoptStreamSettings_new
       (json ''acceptProxyProtocol'') (json ''tcpFastOpen'') (json ''mark'') (json ''tproxy'')
       (json ''tcpMptcp'') (json ''penetrate'') (json ''domainStrategy'') (json ''tcpMaxSeg'')
       (json ''dialerProxy'') (json ''tcpKeepAliveInterval'') (json ''tcpKeepAliveIdle'')
       (json ''tcpUserTimeout'') (json ''tcpcongestion'') (json ''V6Only'')
       (json ''tcpWindowClamp'') (json ''interface'')
       (js_or (json ''trustedXForwardedFor'') (JArr [])))) }"

text \<open>\<open>v && v.length > 0\<close>.\<close>

definition has_length :: "jsval \<Rightarrow> bool" where
  "has_length v \<longleftrightarrow> truthy v \<and>
     (case members v of None \<Rightarrow> False | Some p \<Rightarrow> gt0 (p ''length''))"

definition SockoptStreamSettings_toJson :: "SockoptStreamSettings \<Rightarrow> jsval" where
  "SockoptStreamSettings_toJson this = JObj
     ([(''acceptProxyProtocol'', so_acceptProxyProtocol this),
       (''tcpFastOpen'', so_tcpFastOpen this), (''mark'', so_mark this),
       (''tproxy'', so_tproxy this), (''tcpMptcp'', so_tcpMptcp this),
       (''penetrate'', so_penetrate this), (''domainStrategy'', so_domainStrategy this),
       (''tcpMaxSeg'', so_tcpMaxSeg this), (''dialerProxy'', so_dialerProxy this),
       (''tcpKeepAliveInterval'', so_tcpKeepAliveInterval this),
       (''tcpKeepAliveIdle'', so_tcpKeepAliveIdle this),
       (''tcpUserTimeout'', so_tcpUserTimeout this), (''tcpcongestion'', so_tcpcongestion this),
       (''V6Only'', so_V6Only this), (''tcpWindowClamp'', so_tcpWindowClamp this),
       (''interface'', so_interfaceName this)]
      @ (if has_length (so_trustedXForwardedFor this)
         then [(''trustedXForwardedFor'', so_trustedXForwardedFor this)] else []))"

definition SockoptStreamSettings_ok :: "SockoptStreamSettings \<Rightarrow> bool" where
  "SockoptStreamSettings_ok x \<longleftrightarrow>
     json_ok (so_acceptProxyProtocol x) \<and> json_ok (so_tcpFastOpen x) \<and> json_ok (so_mark x)
     \<and> json_ok (so_tproxy x) \<and> json_ok (so_tcpMptcp x) \<and> json_ok (so_penetrate x)
     \<and> json_ok (so_domainStrategy x) \<and> json_ok (so_tcpMaxSeg x) \<and> json_ok (so_dialerProxy x)
     \<and> json_ok (so_tcpKeepAliveInterval x) \<and> json_ok (so_tcpKeepAliveIdle x)
     \<and> json_ok (so_tcpUserTimeout x) \<and> json_ok (so_tcpcongestion x) \<and> json_ok (so_V6Only x)
     \<and> json_ok (so_tcpWindowClamp x) \<and> json_ok (so_interfaceName x)
     \<and> json_ok (so_trustedXForwardedFor x)"

lemmas SockoptStreamSettings_defs = SockoptStreamSettings_new_def
  SockoptStreamSettings_fromJson_def SockoptStreamSettings_toJson_def SockoptStreamSettings_ok_def

text \<open>The member \<open>sockopt\<close> of a stream: absent while its switch is off.\<close>

definition sockopt_toJson :: "SockoptStreamSettings option \<Rightarrow> jsval" where
  "sockopt_toJson s = (case s of None \<Rightarrow> JUndef | Some x \<Rightarrow> SockoptStreamSettings_toJson x)"

definition sockopt_ok :: "SockoptStreamSettings option \<Rightarrow> bool" where
  "sockopt_ok s \<longleftrightarrow> (case s of None \<Rightarrow> True | Some x \<Rightarrow> SockoptStreamSettings_ok x)"

lemma has_length_array: "has_length (JArr xs) \<longleftrightarrow> xs \<noteq> []"
  by (simp add: has_length_def)

lemma js_or_has_length: "has_length v \<Longrightarrow> js_or v d = v"
  by (simp add: has_length_def js_or_def)

interpretation sockopt: json_optional "\<lambda>s. Some (sockopt_toJson s)" SockoptStreamSettings_fromJson
  sockopt_ok clean
proof unfold_locales
  show "\<lbrakk>clean j; SockoptStreamSettings_fromJson j = Some s\<rbrakk> \<Longrightarrow> sockopt_ok s" for j s
    by (auto simp: SockoptStreamSettings_fromJson_def SockoptStreamSettings_new_def
        SockoptStreamSettings_ok_def sockopt_ok_def Let_def bind_eq_Some_conv split: if_splits
        intro!: json_ok_dflt clean_json_ok [OF json_ok_js_or] intro: clean_member)
next
  fix s j
  assume ok: "sockopt_ok s" and j: "Some (sockopt_toJson s) = Some j"
  show "\<exists>y. SockoptStreamSettings_fromJson (wire j) = Some y \<and> sockopt_ok y
      \<and> map_option wire (Some (sockopt_toJson y)) = Some (wire j)"
  proof (cases s)
    case None
    with j show ?thesis
      by (auto simp: SockoptStreamSettings_fromJson_def sockopt_toJson_def sockopt_ok_def Let_def)
  next
    case (Some x)
    show ?thesis
    proof (cases "has_length (so_trustedXForwardedFor x)")
      case True
      with Some ok j show ?thesis
        by (intro exI [of _ s])
          (auto simp: SockoptStreamSettings_defs sockopt_toJson_def sockopt_ok_def Let_def
            js_or_has_length)
    next
      case False
      with Some ok j show ?thesis
        by (intro exI [of _ "Some (x\<lparr>so_trustedXForwardedFor := JArr []\<rparr>)"])
          (auto simp: SockoptStreamSettings_defs sockopt_toJson_def sockopt_ok_def Let_def
            has_length_array js_or_def)
    qed
  qed
next
  show "clean JUndef" "SockoptStreamSettings_fromJson JUndef \<noteq> None"
    by (simp_all add: SockoptStreamSettings_fromJson_def Let_def)
qed

end
