(* ===== verification/Final_Mask.thy ===== *)
theory Final_Mask
  imports Transports
begin

text \<open>
  The traffic masks of a stream (\<open>UdpMask\<close>, \<open>TcpMask\<close>, \<open>QuicParams\<close> and
  \<open>FinalMaskStreamSettings\<close> of \<open>web/assets/js/model/inbound.js\<close>). The two mask
  classes have the same shape and share the contract \<open>mask_class\<close>: the constructor
  normalises the settings of the mask's type, \<open>toJson\<close> removes the fields its items
  do not use, and both are idempotent.
\<close>

section \<open>Masks\<close>

record mask =
  mask_type :: jsval
  mask_settings :: jsval

definition array_or_empty :: "jsval \<Rightarrow> jsval" where
  "array_or_empty v = (if is_array v then v else JArr [])"

definition one_of :: "jsval \<Rightarrow> string list \<Rightarrow> bool" where
  "one_of v ss \<longleftrightarrow> (\<exists>s \<in> set ss. v = JStr s)"

text \<open>\<open>{ ...item }\<close> without the fields the other kind of item uses.\<close>

definition cleanItem :: "jsval \<Rightarrow> jsval" where
  "cleanItem item =
     (let out = object_entries item
      in JObj (if oget out ''type'' = JStr ''array'' then obj_del out ''packet''
               else obj_del (obj_del out ''rand'') ''randRange''))"

definition clean_items :: "jsval \<Rightarrow> jsval" where
  "clean_items v = (case v of JArr xs \<Rightarrow> JArr (map cleanItem xs) | _ \<Rightarrow> v)"

definition clean_groups :: "jsval \<Rightarrow> jsval" where
  "clean_groups v = (case v of JArr gs \<Rightarrow> JArr (map clean_items gs) | _ \<Rightarrow> v)"

subsection \<open>What the classes share\<close>

definition mask_new ::
  "string \<Rightarrow> (jsval \<Rightarrow> jsval \<Rightarrow> jsval option) \<Rightarrow> jsval \<Rightarrow> jsval \<Rightarrow> mask option" where
  "mask_new default_type getDefaultSettings type0 settings = do {
     let type0 = dflt (JStr default_type) type0;
     s \<leftarrow> getDefaultSettings type0 (dflt emptyObj settings);
     Some \<lparr>mask_type = type0, mask_settings = s\<rparr> }"

definition mask_fromJson :: "string \<Rightarrow> (jsval \<Rightarrow> jsval \<Rightarrow> jsval option) \<Rightarrow> jsval \<Rightarrow> mask option" where
  "mask_fromJson default_type getDefaultSettings json0 = do {
     json \<leftarrow> members (dflt emptyObj json0);
     mask_new default_type getDefaultSettings
       (js_or (json ''type'') (JStr default_type)) (js_or (json ''settings'') emptyObj) }"

definition mask_of :: "string \<Rightarrow> (jsval \<Rightarrow> jsval \<Rightarrow> jsval option) \<Rightarrow> jsval \<Rightarrow> mask option" where
  "mask_of default_type getDefaultSettings t = do {
     json \<leftarrow> members t;
     mask_new default_type getDefaultSettings (json ''type'') (json ''settings'') }"

definition has_keys_left :: "jsval \<Rightarrow> bool" where
  "has_keys_left settings \<longleftrightarrow> truthy settings \<and> object_entries settings \<noteq> []"

definition mask_toJson :: "(jsval \<Rightarrow> jsval \<Rightarrow> jsval) \<Rightarrow> mask \<Rightarrow> jsval" where
  "mask_toJson cleaned this =
     (let settings = cleaned (mask_type this) (mask_settings this)
      in JObj [(''type'', mask_type this),
           (''settings'', if has_keys_left settings then settings else JUndef)])"

definition mask_ok :: "(jsval \<Rightarrow> jsval \<Rightarrow> jsval option) \<Rightarrow> mask \<Rightarrow> bool" where
  "mask_ok getDefaultSettings m \<longleftrightarrow> json_ok (mask_type m) \<and> json_ok (mask_settings m)
     \<and> getDefaultSettings (mask_type m) (mask_settings m) = Some (mask_settings m)"

locale mask_class =
  fixes default_type :: string
    and defaults :: "jsval \<Rightarrow> jsval \<Rightarrow> jsval option"
    and cleaned :: "jsval \<Rightarrow> jsval \<Rightarrow> jsval"
  assumes defaults_json: "\<lbrakk>json_ok s; defaults t s = Some u\<rbrakk> \<Longrightarrow> json_ok u"
    and defaults_stable: "defaults t s = Some u \<Longrightarrow> defaults t u = Some u"
    and cleaned_json: "\<lbrakk>json_ok s; defaults t s = Some s\<rbrakk> \<Longrightarrow> json_ok (cleaned t s)"
    and cleaned_idem: "defaults t s = Some s \<Longrightarrow> cleaned t (cleaned t s) = cleaned t s"
    and defaults_cleaned: "defaults t s = Some s \<Longrightarrow> defaults t (cleaned t s) = Some (cleaned t s)"
    and defaults_empty: "\<lbrakk>defaults t s = Some s; \<not> has_keys_left (cleaned t s)\<rbrakk> \<Longrightarrow>
      \<exists>u. defaults t emptyObj = Some u \<and> \<not> has_keys_left (cleaned t u)"
begin

lemma mask_of_ok:
  assumes "json_ok j" "mask_of default_type defaults j = Some m"
  shows "mask_ok defaults m"
proof -
  obtain json where json: "members j = Some json"
    and m: "mask_new default_type defaults (json ''type'') (json ''settings'') = Some m"
    using assms(2) by (auto simp: mask_of_def bind_eq_Some_conv)
  have cl: "clean (json k)" for k by (rule clean_members [OF clean_json_ok [OF assms(1)] json])
  have "json_ok (dflt emptyObj (json ''settings''))" by (rule json_ok_dflt) (simp_all add: cl)
  with m cl show ?thesis
    by (auto simp: mask_new_def mask_ok_def Let_def bind_eq_Some_conv defaults_stable
        intro: defaults_json intro!: json_ok_dflt)
qed

lemma mask_view:
  assumes "mask_ok defaults m"
  shows "\<exists>m'. mask_of default_type defaults (wire (mask_toJson cleaned m)) = Some m'
    \<and> mask_ok defaults m' \<and> wire (mask_toJson cleaned m') = wire (mask_toJson cleaned m)"
proof (cases "has_keys_left (cleaned (mask_type m) (mask_settings m))")
  case True
  with assms show ?thesis
    by (intro exI [of _ "m\<lparr>mask_settings := cleaned (mask_type m) (mask_settings m)\<rparr>"])
      (auto simp: mask_ok_def mask_toJson_def mask_of_def mask_new_def Let_def cleaned_json
        cleaned_idem defaults_cleaned)
next
  case False
  with assms obtain u where "defaults (mask_type m) emptyObj = Some u"
    "\<not> has_keys_left (cleaned (mask_type m) u)"
    using defaults_empty by (auto simp: mask_ok_def)
  moreover from this have "json_ok u" "defaults (mask_type m) u = Some u"
    using defaults_json [of emptyObj] defaults_stable by auto
  ultimately show ?thesis using assms False
    by (intro exI [of _ "m\<lparr>mask_settings := u\<rparr>"])
      (auto simp: mask_ok_def mask_toJson_def mask_of_def mask_new_def Let_def)
qed

end

sublocale mask_class \<subseteq> json_view "\<lambda>m. Some (mask_toJson cleaned m)" "mask_of default_type defaults"
    "mask_ok defaults" json_ok
  by unfold_locales (auto simp: mask_of_ok mask_view)

subsection \<open>Facts on items\<close>

lemma nat_str_inj: "nat_str a = nat_str b \<Longrightarrow> a = b"
  by (metis nat_of_digits_nat_str)

lemma object_entries_json_ok: "json_ok v \<Longrightarrow> json_ok (JObj (object_entries v))"
proof (cases v)
  case (JStr s)
  then show ?thesis
    by (auto simp: distinct_map inj_on_def nat_str_inj dest!: set_zip_rightD)
next
  case (JArr xs)
  moreover assume "json_ok v"
  ultimately show ?thesis
    by (auto simp: distinct_map inj_on_def nat_str_inj dest!: set_zip_rightD)
qed auto

lemma oget_obj_del: "oget (obj_del ps k) a = (if a = k then JUndef else oget ps a)"
  by (simp add: oget_def map_of_obj_del)

lemma obj_del_idem: "obj_del (obj_del ps k) k = obj_del ps k"
  by (simp add: obj_del_def)

lemma obj_del_commute: "obj_del (obj_del ps k) a = obj_del (obj_del ps a) k"
  unfolding obj_del_def filter_filter by (rule filter_cong) auto

lemma obj_del_json_ok:
  "json_ok (JObj ps) \<Longrightarrow> json_ok (JObj (obj_del ps k))"
  by (auto simp: obj_del_def distinct_map_filter)

lemma cleanItem_idem: "cleanItem (cleanItem v) = cleanItem v"
  by (simp add: cleanItem_def Let_def oget_obj_del obj_del_idem
      obj_del_commute [of "obj_del (object_entries v) ''rand''" "''randRange''" "''rand''"])

lemma cleanItem_json_ok: "json_ok v \<Longrightarrow> json_ok (cleanItem v)"
  using object_entries_json_ok [of v]
  by (simp only: cleanItem_def Let_def split: if_splits) (blast intro: obj_del_json_ok)

lemma clean_items_idem: "clean_items (clean_items v) = clean_items v"
  by (cases v) (simp_all add: clean_items_def cleanItem_idem)

lemma clean_items_json_ok: "json_ok v \<Longrightarrow> json_ok (clean_items v)"
  by (cases v) (auto simp: clean_items_def cleanItem_json_ok)

lemma clean_groups_idem: "clean_groups (clean_groups v) = clean_groups v"
  by (cases v) (simp_all add: clean_groups_def clean_items_idem)

lemma clean_groups_json_ok: "json_ok v \<Longrightarrow> json_ok (clean_groups v)"
  by (cases v) (auto simp: clean_groups_def clean_items_json_ok)

lemma clean_items_array [simp]: "clean_items (JArr xs) = JArr (map cleanItem xs)"
  by (simp add: clean_items_def)

lemma clean_groups_array [simp]: "clean_groups (JArr xs) = JArr (map clean_items xs)"
  by (simp add: clean_groups_def)

lemma array_or_empty_array: "\<exists>xs. array_or_empty v = JArr xs"
  by (cases v) (auto simp: array_or_empty_def)

lemma array_or_empty_stable [simp]:
  "array_or_empty (array_or_empty v) = array_or_empty v" "array_or_empty (JArr xs) = JArr xs"
  by (simp_all add: array_or_empty_def)

lemma array_or_empty_json_ok: "clean v \<Longrightarrow> json_ok (array_or_empty v)"
  by (cases v) (auto simp: array_or_empty_def)

lemma js_or_stable: "js_or (js_or v d) d = js_or v d"
  by (simp add: js_or_def)

lemma js_coalesce_stable: "js_coalesce (js_coalesce v d) d = js_coalesce v d"
  by (simp add: js_coalesce_def)

lemma obj_put_json_ok:
  assumes "json_ok (JObj ps)" "json_ok v" "k \<in> fst ` set ps"
  shows "json_ok (JObj (obj_put ps k v))"
  using assms keys_obj_put_present [OF assms(3), of v] by (auto dest!: set_obj_put)

subsection \<open>UDP masks\<close>

definition UdpMask_getDefaultSettings :: "jsval \<Rightarrow> jsval \<Rightarrow> jsval option" where
  "UdpMask_getDefaultSettings type0 settings =
     (if one_of type0 [''salamander'', ''mkcp-aes128gcm''] then do {
        s \<leftarrow> members settings;
        Some (JObj [(''password'', js_or (s ''password'') (JStr []))]) }
      else if type0 = JStr ''header-dns'' then do {
        s \<leftarrow> members settings;
        Some (JObj [(''domain'', js_or (s ''domain'') (JStr []))]) }
      else if type0 = JStr ''xdns'' then do {
        s \<leftarrow> members settings;
        Some (JObj [(''domains'', array_or_empty (s ''domains''))]) }
      else if type0 = JStr ''xicmp'' then do {
        s \<leftarrow> members settings;
        Some (JObj [(''ip'', js_or (s ''ip'') (JStr [])), (''id'', js_coalesce (s ''id'') (JNum 0))]) }
      else if one_of type0 [''mkcp-original'', ''header-dtls'', ''header-srtp'', ''header-utp'',
        ''header-wechat'', ''header-wireguard''] then Some emptyObj
      else if type0 = JStr ''header-custom'' then do {
        s \<leftarrow> members settings;
        Some (JObj [(''client'', array_or_empty (s ''client'')),
          (''server'', array_or_empty (s ''server''))]) }
      else if type0 = JStr ''noise'' then do {
        s \<leftarrow> members settings;
        Some (JObj [(''reset'', js_coalesce (s ''reset'') (JNum 0)),
          (''noise'', array_or_empty (s ''noise''))]) }
      else Some settings)"

definition UdpMask_cleaned :: "jsval \<Rightarrow> jsval \<Rightarrow> jsval" where
  "UdpMask_cleaned type0 settings =
     (if type0 = JStr ''noise'' \<and> truthy settings \<and> is_array (mget settings ''noise'') then
        JObj (obj_put (object_entries settings) ''noise'' (clean_items (mget settings ''noise'')))
      else if type0 = JStr ''header-custom'' \<and> truthy settings then
        JObj (obj_put (obj_put (object_entries settings)
          ''client'' (clean_items (mget settings ''client'')))
          ''server'' (clean_items (mget settings ''server'')))
      else settings)"

definition UdpMask_new :: "jsval \<Rightarrow> jsval \<Rightarrow> mask option" where
  "UdpMask_new = mask_new ''salamander'' UdpMask_getDefaultSettings"

definition UdpMask_fromJson :: "jsval \<Rightarrow> mask option" where
  "UdpMask_fromJson = mask_fromJson ''salamander'' UdpMask_getDefaultSettings"

definition UdpMask_toJson :: "mask \<Rightarrow> jsval" where
  "UdpMask_toJson = mask_toJson UdpMask_cleaned"

subsection \<open>TCP masks\<close>

definition TcpMask_getDefaultSettings :: "jsval \<Rightarrow> jsval \<Rightarrow> jsval option" where
  "TcpMask_getDefaultSettings type0 settings =
     (if type0 = JStr ''fragment'' then do {
        s \<leftarrow> members settings;
        Some (JObj [(''packets'', js_coalesce (s ''packets'') (JStr ''tlshello'')),
          (''length'', js_coalesce (s ''length'') (JStr [])),
          (''delay'', js_coalesce (s ''delay'') (JStr [])),
          (''maxSplit'', js_coalesce (s ''maxSplit'') (JStr []))]) }
      else if type0 = JStr ''sudoku'' then do {
        s \<leftarrow> members settings;
        Some (JObj [(''password'', js_coalesce (s ''password'') (JStr [])),
          (''ascii'', js_coalesce (s ''ascii'') (JStr [])),
          (''customTable'', js_coalesce (s ''customTable'') (JStr [])),
          (''customTables'', array_or_empty (s ''customTables'')),
          (''paddingMin'', js_coalesce (s ''paddingMin'') (JNum 0)),
          (''paddingMax'', js_coalesce (s ''paddingMax'') (JNum 0))]) }
      else if type0 = JStr ''header-custom'' then do {
        s \<leftarrow> members settings;
        Some (JObj [(''clients'', array_or_empty (s ''clients'')),
          (''servers'', array_or_empty (s ''servers''))]) }
      else Some settings)"

definition TcpMask_cleaned :: "jsval \<Rightarrow> jsval \<Rightarrow> jsval" where
  "TcpMask_cleaned type0 settings =
     (if type0 = JStr ''header-custom'' \<and> truthy settings then
        JObj (obj_put (obj_put (object_entries settings)
          ''clients'' (clean_groups (mget settings ''clients'')))
          ''servers'' (clean_groups (mget settings ''servers'')))
      else settings)"

definition TcpMask_new :: "jsval \<Rightarrow> jsval \<Rightarrow> mask option" where
  "TcpMask_new = mask_new ''fragment'' TcpMask_getDefaultSettings"

definition TcpMask_fromJson :: "jsval \<Rightarrow> mask option" where
  "TcpMask_fromJson = mask_fromJson ''fragment'' TcpMask_getDefaultSettings"

definition TcpMask_toJson :: "mask \<Rightarrow> jsval" where
  "TcpMask_toJson = mask_toJson TcpMask_cleaned"

subsection \<open>Both are mask classes\<close>

lemma one_of_simps [simp]:
  "one_of (JStr s) [] = False" "one_of (JStr s) (t # ts) = (s = t \<or> one_of (JStr s) ts)"
  by (auto simp: one_of_def)

lemmas mask_shape = mget_def has_keys_left_def obj_put_def js_or_stable js_coalesce_stable
  clean_items_idem clean_groups_idem comp_def cleanItem_idem

lemma clean_members_json: "\<lbrakk>members s = Some p; json_ok s\<rbrakk> \<Longrightarrow> clean (p k)"
  by (rule clean_members [OF clean_json_ok])

lemma UdpMask_defaults_json:
  "\<lbrakk>json_ok s; UdpMask_getDefaultSettings t s = Some u\<rbrakk> \<Longrightarrow> json_ok u"
  by (auto simp: UdpMask_getDefaultSettings_def bind_eq_Some_conv clean_members_json
      json_ok_js_or json_ok_coalesce array_or_empty_json_ok split: if_splits)

lemma UdpMask_defaults_stable:
  "UdpMask_getDefaultSettings t s = Some u \<Longrightarrow> UdpMask_getDefaultSettings t u = Some u"
  unfolding UdpMask_getDefaultSettings_def
  by (simp only: bind_eq_Some_conv split: if_split_asm)
    (clarsimp simp: js_or_stable js_coalesce_stable)+

text \<open>The normalised settings of the two types whose items are cleaned.\<close>

lemma array_or_empty_eq: "array_or_empty v = v \<longleftrightarrow> is_array v"
  by (cases v) (auto simp: array_or_empty_def)

lemma is_array_conv: "is_array v \<longleftrightarrow> (\<exists>xs. v = JArr xs)"
  by (cases v) auto

lemma UdpMask_noise_shape:
  "UdpMask_getDefaultSettings (JStr ''noise'') s = Some s \<Longrightarrow>
   \<exists>a xs. s = JObj [(''reset'', js_coalesce a (JNum 0)), (''noise'', JArr xs)]"
  using array_or_empty_array by (fastforce simp: UdpMask_getDefaultSettings_def bind_eq_Some_conv)

lemma UdpMask_custom_shape:
  "UdpMask_getDefaultSettings (JStr ''header-custom'') s = Some s \<Longrightarrow>
   \<exists>xs ys. s = JObj [(''client'', JArr xs), (''server'', JArr ys)]"
  using array_or_empty_array by (fastforce simp: UdpMask_getDefaultSettings_def bind_eq_Some_conv)

lemma TcpMask_custom_shape:
  "TcpMask_getDefaultSettings (JStr ''header-custom'') s = Some s \<Longrightarrow>
   \<exists>xs ys. s = JObj [(''clients'', JArr xs), (''servers'', JArr ys)]"
  using array_or_empty_array by (fastforce simp: TcpMask_getDefaultSettings_def bind_eq_Some_conv)

lemma UdpMask_cleaned_noise:
  "UdpMask_cleaned (JStr ''noise'') (JObj [(''reset'', a), (''noise'', JArr xs)]) =
   JObj [(''reset'', a), (''noise'', JArr (map cleanItem xs))]"
  by (simp add: UdpMask_cleaned_def mget_def obj_put_def)

lemma UdpMask_cleaned_custom:
  "UdpMask_cleaned (JStr ''header-custom'') (JObj [(''client'', JArr xs), (''server'', JArr ys)]) =
   JObj [(''client'', JArr (map cleanItem xs)), (''server'', JArr (map cleanItem ys))]"
  by (simp add: UdpMask_cleaned_def mget_def obj_put_def)

lemma UdpMask_cleaned_other:
  "\<lbrakk>t \<noteq> JStr ''noise''; t \<noteq> JStr ''header-custom''\<rbrakk> \<Longrightarrow> UdpMask_cleaned t s = s"
  by (simp add: UdpMask_cleaned_def)

lemma TcpMask_cleaned_custom:
  "TcpMask_cleaned (JStr ''header-custom'') (JObj [(''clients'', JArr xs), (''servers'', JArr ys)]) =
   JObj [(''clients'', JArr (map clean_items xs)), (''servers'', JArr (map clean_items ys))]"
  by (simp add: TcpMask_cleaned_def mget_def obj_put_def)

lemma TcpMask_cleaned_other: "t \<noteq> JStr ''header-custom'' \<Longrightarrow> TcpMask_cleaned t s = s"
  by (simp add: TcpMask_cleaned_def)

lemma UdpMask_cases:
  assumes "UdpMask_getDefaultSettings t s = Some s"
  obtains (noise) a xs where "t = JStr ''noise''"
      "s = JObj [(''reset'', js_coalesce a (JNum 0)), (''noise'', JArr xs)]"
  | (custom) xs ys where "t = JStr ''header-custom''"
      "s = JObj [(''client'', JArr xs), (''server'', JArr ys)]"
  | (other) "t \<noteq> JStr ''noise''" "t \<noteq> JStr ''header-custom''"
  using assms UdpMask_noise_shape [of s] UdpMask_custom_shape [of s] by blast

lemma TcpMask_cases:
  assumes "TcpMask_getDefaultSettings t s = Some s"
  obtains (custom) xs ys where "t = JStr ''header-custom''"
      "s = JObj [(''clients'', JArr xs), (''servers'', JArr ys)]"
  | (other) "t \<noteq> JStr ''header-custom''"
  using assms TcpMask_custom_shape [of s] by blast

lemmas UdpMask_cleaned_simps = UdpMask_cleaned_noise UdpMask_cleaned_custom UdpMask_cleaned_other
lemmas TcpMask_cleaned_simps = TcpMask_cleaned_custom TcpMask_cleaned_other

lemma UdpMask_defaults_noise:
  "UdpMask_getDefaultSettings (JStr ''noise'')
     (JObj [(''reset'', js_coalesce a (JNum 0)), (''noise'', JArr xs)]) =
   Some (JObj [(''reset'', js_coalesce a (JNum 0)), (''noise'', JArr xs)])"
  by (simp add: UdpMask_getDefaultSettings_def js_coalesce_stable)

lemma UdpMask_defaults_custom:
  "UdpMask_getDefaultSettings (JStr ''header-custom'') (JObj [(''client'', JArr xs), (''server'', JArr ys)]) =
   Some (JObj [(''client'', JArr xs), (''server'', JArr ys)])"
  by (simp add: UdpMask_getDefaultSettings_def)

lemma TcpMask_defaults_custom:
  "TcpMask_getDefaultSettings (JStr ''header-custom'') (JObj [(''clients'', JArr xs), (''servers'', JArr ys)]) =
   Some (JObj [(''clients'', JArr xs), (''servers'', JArr ys)])"
  by (simp add: TcpMask_getDefaultSettings_def)

lemma TcpMask_defaults_json:
  "\<lbrakk>json_ok s; TcpMask_getDefaultSettings t s = Some u\<rbrakk> \<Longrightarrow> json_ok u"
  by (auto simp: TcpMask_getDefaultSettings_def bind_eq_Some_conv clean_members_json
      json_ok_coalesce array_or_empty_json_ok split: if_splits)

lemma TcpMask_defaults_stable:
  "TcpMask_getDefaultSettings t s = Some u \<Longrightarrow> TcpMask_getDefaultSettings t u = Some u"
  unfolding TcpMask_getDefaultSettings_def
  by (simp only: bind_eq_Some_conv split: if_split_asm) (clarsimp simp: js_coalesce_stable)+

text \<open>A type whose settings lost every key is rebuilt from no settings.\<close>

lemma has_keys_left_simps [simp]:
  "has_keys_left (JObj (p # ps))" "\<not> has_keys_left (JObj [])"
  by (simp_all add: has_keys_left_def)

lemma UdpMask_defaults_empty:
  "\<lbrakk>UdpMask_getDefaultSettings t s = Some s; \<not> has_keys_left s\<rbrakk> \<Longrightarrow>
   UdpMask_getDefaultSettings t emptyObj = Some emptyObj"
  unfolding UdpMask_getDefaultSettings_def
  by (simp only: bind_eq_Some_conv split: if_split_asm) (clarsimp dest!: sym [of _ s])+

lemma TcpMask_defaults_empty:
  "\<lbrakk>TcpMask_getDefaultSettings t s = Some s; \<not> has_keys_left s\<rbrakk> \<Longrightarrow>
   TcpMask_getDefaultSettings t emptyObj = Some emptyObj"
  unfolding TcpMask_getDefaultSettings_def
  by (simp only: bind_eq_Some_conv split: if_split_asm) (clarsimp dest!: sym [of _ s])+

interpretation udp_mask: mask_class "''salamander''" UdpMask_getDefaultSettings UdpMask_cleaned
proof unfold_locales
  fix s t u
  show "\<lbrakk>json_ok s; UdpMask_getDefaultSettings t s = Some u\<rbrakk> \<Longrightarrow> json_ok u"
    by (rule UdpMask_defaults_json)
  show "UdpMask_getDefaultSettings t s = Some u \<Longrightarrow> UdpMask_getDefaultSettings t u = Some u"
    by (rule UdpMask_defaults_stable)
  assume s: "UdpMask_getDefaultSettings t s = Some s"
  show "json_ok s \<Longrightarrow> json_ok (UdpMask_cleaned t s)"
    using s by (cases rule: UdpMask_cases) (auto simp: UdpMask_cleaned_simps cleanItem_json_ok)
  show "UdpMask_cleaned t (UdpMask_cleaned t s) = UdpMask_cleaned t s"
    using s by (cases rule: UdpMask_cases)
      (simp_all add: UdpMask_cleaned_simps cleanItem_idem comp_def)
  show "UdpMask_getDefaultSettings t (UdpMask_cleaned t s) = Some (UdpMask_cleaned t s)"
    using s by (cases rule: UdpMask_cases)
      (simp_all add: s UdpMask_cleaned_simps UdpMask_defaults_noise UdpMask_defaults_custom)
  assume left: "\<not> has_keys_left (UdpMask_cleaned t s)"
  show "\<exists>u. UdpMask_getDefaultSettings t emptyObj = Some u \<and> \<not> has_keys_left (UdpMask_cleaned t u)"
    using s left UdpMask_defaults_empty [OF s]
    by (cases rule: UdpMask_cases) (simp_all add: UdpMask_cleaned_simps)
qed

interpretation tcp_mask: mask_class "''fragment''" TcpMask_getDefaultSettings TcpMask_cleaned
proof unfold_locales
  fix s t u
  show "\<lbrakk>json_ok s; TcpMask_getDefaultSettings t s = Some u\<rbrakk> \<Longrightarrow> json_ok u"
    by (rule TcpMask_defaults_json)
  show "TcpMask_getDefaultSettings t s = Some u \<Longrightarrow> TcpMask_getDefaultSettings t u = Some u"
    by (rule TcpMask_defaults_stable)
  assume s: "TcpMask_getDefaultSettings t s = Some s"
  show "json_ok s \<Longrightarrow> json_ok (TcpMask_cleaned t s)"
    using s by (cases rule: TcpMask_cases) (auto simp: TcpMask_cleaned_simps clean_items_json_ok)
  show "TcpMask_cleaned t (TcpMask_cleaned t s) = TcpMask_cleaned t s"
    using s by (cases rule: TcpMask_cases)
      (simp_all add: TcpMask_cleaned_simps clean_items_idem comp_def)
  show "TcpMask_getDefaultSettings t (TcpMask_cleaned t s) = Some (TcpMask_cleaned t s)"
    using s by (cases rule: TcpMask_cases)
      (simp_all add: s TcpMask_cleaned_simps TcpMask_defaults_custom)
  assume left: "\<not> has_keys_left (TcpMask_cleaned t s)"
  show "\<exists>u. TcpMask_getDefaultSettings t emptyObj = Some u \<and> \<not> has_keys_left (TcpMask_cleaned t u)"
    using s left TcpMask_defaults_empty [OF s]
    by (cases rule: TcpMask_cases) (simp_all add: TcpMask_cleaned_simps)
qed
section \<open>QUIC parameters\<close>

record QuicParams =
  quic_congestion :: jsval
  quic_debug :: jsval
  quic_brutalUp :: jsval
  quic_brutalDown :: jsval
  quic_udpHop :: jsval
  quic_initStreamReceiveWindow :: jsval
  quic_maxStreamReceiveWindow :: jsval
  quic_initConnectionReceiveWindow :: jsval
  quic_maxConnectionReceiveWindow :: jsval
  quic_maxIdleTimeout :: jsval
  quic_keepAlivePeriod :: jsval
  quic_disablePathMTUDiscovery :: jsval
  quic_maxIncomingStreams :: jsval

definition QuicParams_new ::
  "jsval \<Rightarrow> jsval \<Rightarrow> jsval \<Rightarrow> jsval \<Rightarrow> jsval \<Rightarrow> jsval \<Rightarrow> jsval \<Rightarrow> jsval \<Rightarrow> jsval \<Rightarrow>
    jsval \<Rightarrow> jsval \<Rightarrow> jsval \<Rightarrow> jsval \<Rightarrow> QuicParams" where
  "QuicParams_new congestion debug brutalUp brutalDown udpHop initStreamReceiveWindow
     maxStreamReceiveWindow initConnectionReceiveWindow maxConnectionReceiveWindow maxIdleTimeout
     keepAlivePeriod disablePathMTUDiscovery maxIncomingStreams =
     \<lparr>quic_congestion = dflt (JStr ''bbr'') congestion,
       quic_debug = dflt (JBool False) debug,
       quic_brutalUp = dflt (JNum 65537) brutalUp,
       quic_brutalDown = dflt (JNum 65537) brutalDown,
       quic_udpHop = udpHop,
       quic_initStreamReceiveWindow = dflt (JNum 8388608) initStreamReceiveWindow,
       quic_maxStreamReceiveWindow = dflt (JNum 8388608) maxStreamReceiveWindow,
       quic_initConnectionReceiveWindow = dflt (JNum 20971520) initConnectionReceiveWindow,
       quic_maxConnectionReceiveWindow = dflt (JNum 20971520) maxConnectionReceiveWindow,
       quic_maxIdleTimeout = dflt (JNum 30) maxIdleTimeout,
       quic_keepAlivePeriod = dflt (JNum 5) keepAlivePeriod,
       quic_disablePathMTUDiscovery = dflt (JBool False) disablePathMTUDiscovery,
       quic_maxIncomingStreams = dflt (JNum 1024) maxIncomingStreams\<rparr>"

definition hasUdpHop :: "QuicParams \<Rightarrow> bool" where
  "hasUdpHop this \<longleftrightarrow> \<not> nullish (quic_udpHop this)"

definition set_hasUdpHop :: "bool \<Rightarrow> QuicParams \<Rightarrow> QuicParams" where
  "set_hasUdpHop value this = this\<lparr>quic_udpHop :=
     (if value then js_or (quic_udpHop this)
        (JObj [(''ports'', JStr ''20000-50000''), (''interval'', JStr ''5-10'')])
      else JUndef)\<rparr>"

definition udpHop_copy :: "jsval \<Rightarrow> jsval" where
  "udpHop_copy v = JObj [(''ports'', mget v ''ports''), (''interval'', mget v ''interval'')]"

text \<open>No parameters at all are \<open>undefined\<close>, here \<open>None\<close>; the reader never throws.\<close>

definition QuicParams_fromJson :: "jsval \<Rightarrow> QuicParams option" where
  "QuicParams_fromJson json0 =
     (let j = dflt emptyObj json0; json = mget j in
      if \<not> truthy j \<or> object_entries j = [] then None
      else Some (QuicParams_new (json ''congestion'') (json ''debug'')
        (json ''brutalUp'') (json ''brutalDown'')
        (if truthy (json ''udpHop'') then udpHop_copy (json ''udpHop'') else JUndef)
        (json ''initStreamReceiveWindow'') (json ''maxStreamReceiveWindow'')
        (json ''initConnectionReceiveWindow'') (json ''maxConnectionReceiveWindow'')
        (json ''maxIdleTimeout'') (json ''keepAlivePeriod'') (json ''disablePathMTUDiscovery'')
        (json ''maxIncomingStreams'')))"

definition brutal :: "QuicParams \<Rightarrow> bool" where
  "brutal this \<longleftrightarrow> one_of (quic_congestion this) [''brutal'', ''force-brutal'']"

definition QuicParams_toJson :: "QuicParams \<Rightarrow> jsval" where
  "QuicParams_toJson this = JObj
     ([(''congestion'', quic_congestion this)]
      @ prop_if (truthy (quic_debug this)) ''debug'' (quic_debug this)
      @ prop_if (brutal this \<and> truthy (quic_brutalUp this)) ''brutalUp'' (quic_brutalUp this)
      @ prop_if (brutal this \<and> truthy (quic_brutalDown this)) ''brutalDown'' (quic_brutalDown this)
      @ prop_if (truthy (quic_udpHop this)) ''udpHop'' (udpHop_copy (quic_udpHop this))
      @ prop_if (gt0 (quic_initStreamReceiveWindow this)) ''initStreamReceiveWindow''
          (quic_initStreamReceiveWindow this)
      @ prop_if (gt0 (quic_maxStreamReceiveWindow this)) ''maxStreamReceiveWindow''
          (quic_maxStreamReceiveWindow this)
      @ prop_if (gt0 (quic_initConnectionReceiveWindow this)) ''initConnectionReceiveWindow''
          (quic_initConnectionReceiveWindow this)
      @ prop_if (gt0 (quic_maxConnectionReceiveWindow this)) ''maxConnectionReceiveWindow''
          (quic_maxConnectionReceiveWindow this)
      @ prop_if (quic_maxIdleTimeout this \<noteq> JNum 30 \<and> gt0 (quic_maxIdleTimeout this))
          ''maxIdleTimeout'' (quic_maxIdleTimeout this)
      @ prop_if (gt0 (quic_keepAlivePeriod this)) ''keepAlivePeriod'' (quic_keepAlivePeriod this)
      @ prop_if (truthy (quic_disablePathMTUDiscovery this)) ''disablePathMTUDiscovery''
          (quic_disablePathMTUDiscovery this)
      @ prop_if (gt0 (quic_maxIncomingStreams this)) ''maxIncomingStreams''
          (quic_maxIncomingStreams this))"

text \<open>The parameters \<open>toJson\<close> can express: it leaves out a number that is not positive,
  which the reader takes for the default, and the rates of a brutal congestion control
  when they are 0.\<close>

definition pos_json :: "jsval \<Rightarrow> bool" where
  "pos_json v \<longleftrightarrow> json_ok v \<and> gt0 v"

definition QuicParams_ok :: "QuicParams \<Rightarrow> bool" where
  "QuicParams_ok x \<longleftrightarrow> json_ok (quic_congestion x) \<and> json_ok (quic_debug x)
     \<and> json_ok (quic_brutalUp x) \<and> json_ok (quic_brutalDown x)
     \<and> (brutal x \<longrightarrow> truthy (quic_brutalUp x) \<and> truthy (quic_brutalDown x))
     \<and> (\<exists>p i. clean p \<and> clean i \<and> quic_udpHop x = JObj [(''ports'', p), (''interval'', i)]
         \<or> quic_udpHop x = JUndef)
     \<and> pos_json (quic_initStreamReceiveWindow x) \<and> pos_json (quic_maxStreamReceiveWindow x)
     \<and> pos_json (quic_initConnectionReceiveWindow x)
     \<and> pos_json (quic_maxConnectionReceiveWindow x)
     \<and> json_ok (quic_maxIdleTimeout x) \<and> pos_json (quic_keepAlivePeriod x)
     \<and> json_ok (quic_disablePathMTUDiscovery x) \<and> pos_json (quic_maxIncomingStreams x)"

definition pos_or_absent :: "jsval \<Rightarrow> bool" where
  "pos_or_absent v \<longleftrightarrow> v = JUndef \<or> gt0 v"

definition quic_doc :: "jsval \<Rightarrow> bool" where
  "quic_doc j \<longleftrightarrow> clean j \<and>
     (one_of (mget j ''congestion'') [''brutal'', ''force-brutal''] \<longrightarrow>
        (mget j ''brutalUp'' = JUndef \<or> truthy (mget j ''brutalUp''))
        \<and> (mget j ''brutalDown'' = JUndef \<or> truthy (mget j ''brutalDown'')))
     \<and> pos_or_absent (mget j ''initStreamReceiveWindow'')
     \<and> pos_or_absent (mget j ''maxStreamReceiveWindow'')
     \<and> pos_or_absent (mget j ''initConnectionReceiveWindow'')
     \<and> pos_or_absent (mget j ''maxConnectionReceiveWindow'')
     \<and> pos_or_absent (mget j ''keepAlivePeriod'')
     \<and> pos_or_absent (mget j ''maxIncomingStreams'')"

lemmas QuicParams_defs = QuicParams_new_def QuicParams_fromJson_def QuicParams_toJson_def
  QuicParams_ok_def

lemma pos_json_dflt: "\<lbrakk>clean v; pos_or_absent v; 0 < n\<rbrakk> \<Longrightarrow> pos_json (dflt (JNum n) v)"
  by (auto simp: pos_json_def pos_or_absent_def dflt_def clean_def)

lemma brutal_absent: "\<not> one_of JUndef ss" "\<not> one_of (JStr ''bbr'') [''brutal'', ''force-brutal'']"
  by (auto simp: one_of_def)

lemma QuicParams_dec_ok:
  assumes "quic_doc j" "QuicParams_fromJson j = Some x"
  shows "QuicParams_ok x"
proof -
  have j: "clean j" "j \<noteq> JUndef" "dflt emptyObj j = j" and cl: "clean (mget j k)" for k
    using assms by (auto simp: quic_doc_def QuicParams_fromJson_def clean_mget dflt_def
        split: if_splits)
  have x: "x = QuicParams_new (mget j ''congestion'') (mget j ''debug'')
        (mget j ''brutalUp'') (mget j ''brutalDown'')
        (if truthy (mget j ''udpHop'') then udpHop_copy (mget j ''udpHop'') else JUndef)
        (mget j ''initStreamReceiveWindow'') (mget j ''maxStreamReceiveWindow'')
        (mget j ''initConnectionReceiveWindow'') (mget j ''maxConnectionReceiveWindow'')
        (mget j ''maxIdleTimeout'') (mget j ''keepAlivePeriod'')
        (mget j ''disablePathMTUDiscovery'') (mget j ''maxIncomingStreams'')"
    using assms(2) j(3) by (simp add: QuicParams_fromJson_def Let_def split: if_splits)
  have "brutal x \<longrightarrow> truthy (quic_brutalUp x) \<and> truthy (quic_brutalDown x)"
    using assms(1)
    by (auto simp: x brutal_def QuicParams_new_def quic_doc_def dflt_def one_of_def)
  then show ?thesis
    using assms(1) cl
    by (auto simp: x QuicParams_new_def QuicParams_ok_def quic_doc_def udpHop_copy_def
        json_ok_dflt pos_json_dflt clean_mget)
qed

text \<open>What a save and a reload leave of the parameters: a field that was not written is back
  at its default.\<close>

definition QuicParams_reloaded :: "QuicParams \<Rightarrow> QuicParams" where
  "QuicParams_reloaded x = x\<lparr>
     quic_debug := if truthy (quic_debug x) then quic_debug x else JBool False,
     quic_brutalUp := if brutal x then quic_brutalUp x else JNum 65537,
     quic_brutalDown := if brutal x then quic_brutalDown x else JNum 65537,
     quic_maxIdleTimeout :=
       if gt0 (quic_maxIdleTimeout x) then quic_maxIdleTimeout x else JNum 30,
     quic_disablePathMTUDiscovery :=
       if truthy (quic_disablePathMTUDiscovery x) then quic_disablePathMTUDiscovery x
       else JBool False\<rparr>"

lemma QuicParams_reloaded_ok: "QuicParams_ok x \<Longrightarrow> QuicParams_ok (QuicParams_reloaded x)"
  by (auto simp: QuicParams_ok_def QuicParams_reloaded_def brutal_def)

lemma QuicParams_reloaded_same:
  "QuicParams_ok x \<Longrightarrow> QuicParams_toJson (QuicParams_reloaded x) = QuicParams_toJson x"
  by (simp add: QuicParams_toJson_def QuicParams_reloaded_def brutal_def prop_if_def QuicParams_ok_def)

lemma udpHop_copy_again:
  "udpHop_copy (JObj [(''ports'', p), (''interval'', i)]) = JObj [(''ports'', p), (''interval'', i)]"
  by (simp add: udpHop_copy_def)

lemma udpHop_copy_wire:
  "\<lbrakk>clean p; clean i\<rbrakk> \<Longrightarrow> udpHop_copy (wire (JObj [(''ports'', p), (''interval'', i)])) =
     JObj [(''ports'', p), (''interval'', i)]"
  by (auto simp: udpHop_copy_def clean_def)

lemma udpHop_saved:
  assumes "QuicParams_ok x"
  shows "(if truthy (wire (quic_udpHop x)) then udpHop_copy (wire (quic_udpHop x)) else JUndef)
      = quic_udpHop x"
    "truthy (quic_udpHop x) \<Longrightarrow> wire (udpHop_copy (quic_udpHop x)) = wire (quic_udpHop x)"
    "\<not> truthy (quic_udpHop x) \<Longrightarrow> quic_udpHop x = JUndef"
proof -
  have hop: "quic_udpHop x = JUndef
      \<or> (\<exists>p i. clean p \<and> clean i \<and> quic_udpHop x = JObj [(''ports'', p), (''interval'', i)])"
    using assms unfolding QuicParams_ok_def by blast
  show "(if truthy (wire (quic_udpHop x)) then udpHop_copy (wire (quic_udpHop x)) else JUndef)
      = quic_udpHop x"
    using hop udpHop_copy_wire by fastforce
  show "truthy (quic_udpHop x) \<Longrightarrow> wire (udpHop_copy (quic_udpHop x)) = wire (quic_udpHop x)"
    using hop by (auto simp: udpHop_copy_again)
  show "\<not> truthy (quic_udpHop x) \<Longrightarrow> quic_udpHop x = JUndef"
    using hop by auto
qed

lemma QuicParams_ok_facts:
  assumes "QuicParams_ok x"
  shows "json_ok (quic_congestion x)" "json_ok (quic_debug x)" "json_ok (quic_brutalUp x)"
    "json_ok (quic_brutalDown x)" "json_ok (quic_maxIdleTimeout x)"
    "json_ok (quic_disablePathMTUDiscovery x)"
    "json_ok (quic_initStreamReceiveWindow x)" "json_ok (quic_maxStreamReceiveWindow x)"
    "json_ok (quic_initConnectionReceiveWindow x)" "json_ok (quic_maxConnectionReceiveWindow x)"
    "json_ok (quic_keepAlivePeriod x)" "json_ok (quic_maxIncomingStreams x)"
    "gt0 (quic_initStreamReceiveWindow x)" "gt0 (quic_maxStreamReceiveWindow x)"
    "gt0 (quic_initConnectionReceiveWindow x)" "gt0 (quic_maxConnectionReceiveWindow x)"
    "gt0 (quic_keepAlivePeriod x)" "gt0 (quic_maxIncomingStreams x)"
    "(brutal x \<and> truthy (quic_brutalUp x)) = brutal x"
    "(brutal x \<and> truthy (quic_brutalDown x)) = brutal x"
  using assms unfolding QuicParams_ok_def pos_json_def by blast+

definition quic_written :: "QuicParams \<Rightarrow> props" where
  "quic_written x =
     prop_if True ''congestion'' (quic_congestion x)
     @ prop_if (truthy (quic_debug x)) ''debug'' (quic_debug x)
     @ prop_if (brutal x) ''brutalUp'' (quic_brutalUp x)
     @ prop_if (brutal x) ''brutalDown'' (quic_brutalDown x)
     @ prop_if (truthy (quic_udpHop x)) ''udpHop'' (wire (quic_udpHop x))
     @ prop_if True ''initStreamReceiveWindow'' (quic_initStreamReceiveWindow x)
     @ prop_if True ''maxStreamReceiveWindow'' (quic_maxStreamReceiveWindow x)
     @ prop_if True ''initConnectionReceiveWindow'' (quic_initConnectionReceiveWindow x)
     @ prop_if True ''maxConnectionReceiveWindow'' (quic_maxConnectionReceiveWindow x)
     @ prop_if (quic_maxIdleTimeout x \<noteq> JNum 30 \<and> gt0 (quic_maxIdleTimeout x))
         ''maxIdleTimeout'' (quic_maxIdleTimeout x)
     @ prop_if True ''keepAlivePeriod'' (quic_keepAlivePeriod x)
     @ prop_if (truthy (quic_disablePathMTUDiscovery x)) ''disablePathMTUDiscovery''
         (quic_disablePathMTUDiscovery x)
     @ prop_if True ''maxIncomingStreams'' (quic_maxIncomingStreams x)"

lemma wire_prop_if_ok: "json_ok v \<Longrightarrow> wire_props (prop_if c k v) = prop_if c k v"
  by (simp add: prop_if_def)

lemma wire_prop_hop:
  "QuicParams_ok x \<Longrightarrow> wire_props (prop_if (truthy (quic_udpHop x)) k (udpHop_copy (quic_udpHop x)))
     = prop_if (truthy (quic_udpHop x)) k (wire (quic_udpHop x))"
  using udpHop_saved(2) [of x] by (auto simp: prop_if_def udpHop_copy_def)

lemma QuicParams_written:
  "QuicParams_ok x \<Longrightarrow> wire (QuicParams_toJson x) = JObj (quic_written x)"
  unfolding QuicParams_toJson_def quic_written_def wire.simps wire_props_append
  by (simp only: QuicParams_ok_facts wire_prop_hop wire_prop_if_ok)
    (simp add: prop_if_def QuicParams_ok_facts)

lemma QuicParams_saved:
  "oget (quic_written x) ''congestion'' = quic_congestion x"
  "oget (quic_written x) ''debug'' = (if truthy (quic_debug x) then quic_debug x else JUndef)"
  "oget (quic_written x) ''brutalUp'' = (if brutal x then quic_brutalUp x else JUndef)"
  "oget (quic_written x) ''brutalDown'' = (if brutal x then quic_brutalDown x else JUndef)"
  "oget (quic_written x) ''udpHop'' =
     (if truthy (quic_udpHop x) then wire (quic_udpHop x) else JUndef)"
  "oget (quic_written x) ''initStreamReceiveWindow'' = quic_initStreamReceiveWindow x"
  "oget (quic_written x) ''maxStreamReceiveWindow'' = quic_maxStreamReceiveWindow x"
  "oget (quic_written x) ''initConnectionReceiveWindow'' = quic_initConnectionReceiveWindow x"
  "oget (quic_written x) ''maxConnectionReceiveWindow'' = quic_maxConnectionReceiveWindow x"
  "oget (quic_written x) ''maxIdleTimeout'' =
     (if quic_maxIdleTimeout x \<noteq> JNum 30 \<and> gt0 (quic_maxIdleTimeout x)
      then quic_maxIdleTimeout x else JUndef)"
  "oget (quic_written x) ''keepAlivePeriod'' = quic_keepAlivePeriod x"
  "oget (quic_written x) ''disablePathMTUDiscovery'' =
     (if truthy (quic_disablePathMTUDiscovery x) then quic_disablePathMTUDiscovery x else JUndef)"
  "oget (quic_written x) ''maxIncomingStreams'' = quic_maxIncomingStreams x"
  by (simp_all add: quic_written_def oget_prop_if oget_prop_if_end)

lemma quic_written_keys: "quic_written x \<noteq> []"
  by (simp add: quic_written_def prop_if_def)

lemma QuicParams_view:
  assumes "QuicParams_ok x"
  shows "QuicParams_fromJson (wire (QuicParams_toJson x)) = Some (QuicParams_reloaded x)"
proof -
  have "oget (quic_written x) ''udpHop'' = wire (quic_udpHop x)"
    using udpHop_saved(3) [OF assms] by (cases "truthy (quic_udpHop x)") (simp_all add: QuicParams_saved)
  moreover have "truthy (wire (quic_udpHop x)) \<Longrightarrow> udpHop_copy (wire (quic_udpHop x)) = quic_udpHop x"
    "\<not> truthy (wire (quic_udpHop x)) \<Longrightarrow> quic_udpHop x = JUndef"
    using udpHop_saved(1) [OF assms] by auto
  ultimately show ?thesis
    unfolding QuicParams_written [OF assms] QuicParams_fromJson_def
    by (simp add: Let_def dflt_obj quic_written_keys split del: if_split,
        intro QuicParams.equality,
        simp_all add: QuicParams_new_def QuicParams_saved(1-4,6-) QuicParams_reloaded_def
          QuicParams_ok_facts [OF assms])
      metis
qed

interpretation quic: json_view "\<lambda>x. Some (QuicParams_toJson x)" QuicParams_fromJson
  QuicParams_ok quic_doc
  by unfold_locales
    (auto simp: QuicParams_view QuicParams_reloaded_ok QuicParams_reloaded_same intro: QuicParams_dec_ok)

section \<open>The mask object\<close>

record FinalMaskStreamSettings =
  fm_tcp :: "mask list"
  fm_udp :: "mask list"
  fm_quicParams :: "QuicParams option"

text \<open>The panel builds the object from documents or from nothing, so the lists passed are never
  mask objects; the parameters are \<open>Inl\<close> of a document or \<open>Inr\<close> of an instance. The class is
  written twice, in \<open>inbound.js\<close> and in \<open>outbound.js\<close>, over two different classes of UDP masks,
  which are a parameter here.\<close>

definition masks_new ::
  "(jsval \<Rightarrow> jsval \<Rightarrow> jsval option) \<Rightarrow> jsval \<Rightarrow> jsval \<Rightarrow> jsval + QuicParams
    \<Rightarrow> FinalMaskStreamSettings option" where
  "masks_new udpDefaults tcp0 udp0 quicParams = do {
     tcps \<leftarrow> (case dflt (JArr []) tcp0 of
       JArr ts \<Rightarrow> traverse (mask_of ''fragment'' TcpMask_getDefaultSettings) ts
     | _ \<Rightarrow> Some []);
     udps \<leftarrow> (case dflt (JArr []) udp0 of
       JArr us \<Rightarrow> traverse (mask_of ''salamander'' udpDefaults) us
     | u \<Rightarrow> traverse (mask_of ''salamander'' udpDefaults) [u]);
     Some \<lparr>fm_tcp = tcps, fm_udp = udps,
       fm_quicParams = (case quicParams of
         Inr q \<Rightarrow> Some q
       | Inl v \<Rightarrow> if truthy v then QuicParams_fromJson v else None)\<rparr> }"

definition enableQuicParams :: "FinalMaskStreamSettings \<Rightarrow> bool" where
  "enableQuicParams this \<longleftrightarrow> fm_quicParams this \<noteq> None"

definition set_enableQuicParams :: "bool \<Rightarrow> FinalMaskStreamSettings \<Rightarrow> FinalMaskStreamSettings" where
  "set_enableQuicParams value this = this\<lparr>fm_quicParams :=
     (if value then Some (case fm_quicParams this of
        Some q \<Rightarrow> q
      | None \<Rightarrow> QuicParams_new JUndef JUndef JUndef JUndef JUndef JUndef JUndef JUndef JUndef
          JUndef JUndef JUndef JUndef)
      else None)\<rparr>"

definition masks_fromJson ::
  "(jsval \<Rightarrow> jsval \<Rightarrow> jsval option) \<Rightarrow> jsval \<Rightarrow> FinalMaskStreamSettings option" where
  "masks_fromJson udpDefaults json0 = do {
     json \<leftarrow> members (dflt emptyObj json0);
     masks_new udpDefaults (js_or (json ''tcp'') (JArr [])) (js_or (json ''udp'') (JArr []))
       (if truthy (json ''quicParams'') then
          (case QuicParams_fromJson (json ''quicParams'') of
             Some q \<Rightarrow> Inr q | None \<Rightarrow> Inl JUndef)
        else Inl JUndef) }"

definition masks_toJson :: "(jsval \<Rightarrow> jsval \<Rightarrow> jsval) \<Rightarrow> FinalMaskStreamSettings \<Rightarrow> jsval" where
  "masks_toJson udpCleaned this = JObj
     (prop_if (fm_tcp this \<noteq> []) ''tcp'' (JArr (map TcpMask_toJson (fm_tcp this)))
      @ prop_if (fm_udp this \<noteq> []) ''udp'' (JArr (map (mask_toJson udpCleaned) (fm_udp this)))
      @ (case fm_quicParams this of
           None \<Rightarrow> [] | Some q \<Rightarrow> [(''quicParams'', QuicParams_toJson q)]))"

definition masks_ok :: "(jsval \<Rightarrow> jsval \<Rightarrow> jsval option) \<Rightarrow> FinalMaskStreamSettings \<Rightarrow> bool" where
  "masks_ok udpDefaults x \<longleftrightarrow>
     (\<forall>m \<in> set (fm_tcp x). mask_ok TcpMask_getDefaultSettings m)
     \<and> (\<forall>m \<in> set (fm_udp x). mask_ok udpDefaults m)
     \<and> (case fm_quicParams x of None \<Rightarrow> True | Some q \<Rightarrow> QuicParams_ok q)"

text \<open>The class of \<open>inbound.js\<close>.\<close>

definition FinalMaskStreamSettings_new ::
  "jsval \<Rightarrow> jsval \<Rightarrow> jsval + QuicParams \<Rightarrow> FinalMaskStreamSettings option" where
  "FinalMaskStreamSettings_new = masks_new UdpMask_getDefaultSettings"

definition FinalMaskStreamSettings_fromJson :: "jsval \<Rightarrow> FinalMaskStreamSettings option" where
  "FinalMaskStreamSettings_fromJson = masks_fromJson UdpMask_getDefaultSettings"

definition FinalMaskStreamSettings_toJson :: "FinalMaskStreamSettings \<Rightarrow> jsval" where
  "FinalMaskStreamSettings_toJson = masks_toJson UdpMask_cleaned"

definition FinalMaskStreamSettings_ok :: "FinalMaskStreamSettings \<Rightarrow> bool" where
  "FinalMaskStreamSettings_ok = masks_ok UdpMask_getDefaultSettings"

definition finalmask_doc :: "jsval \<Rightarrow> bool" where
  "finalmask_doc j \<longleftrightarrow> clean j \<and>
     (truthy (mget j ''quicParams'') \<longrightarrow> quic_doc (mget j ''quicParams''))"

lemma wire_items_objs: "\<forall>x \<in> set xs. f x \<noteq> JUndef \<Longrightarrow> wire_items (map f xs) = map wire (map f xs)"
  by (induction xs) auto

lemma traverse_Some_map: "traverse (\<lambda>x. Some (f x)) xs = Some (map f xs)"
  by (rule traverse_total)

lemma mask_toJson_obj [simp]: "mask_toJson cleaned m \<noteq> JUndef"
  by (simp add: mask_toJson_def Let_def)

lemma traverse_masks_wire:
  "traverse f (map wire (map (mask_toJson c) ms)) = Some ms' \<Longrightarrow>
   traverse f (wire_items (map (mask_toJson c) ms)) = Some ms'"
  by (simp add: wire_items_objs)

text \<open>Over any class of UDP masks, the object is a member of its stream.\<close>

locale mask_object = mask_class "''salamander''" udpDefaults udpCleaned
  for udpDefaults :: "jsval \<Rightarrow> jsval \<Rightarrow> jsval option"
    and udpCleaned :: "jsval \<Rightarrow> jsval \<Rightarrow> jsval"
begin

lemma masks_dec_ok:
  assumes "finalmask_doc j" "masks_fromJson udpDefaults j = Some x"
  shows "masks_ok udpDefaults x"
proof -
  obtain json where json: "members (dflt emptyObj j) = Some json"
    using assms(2) by (auto simp: masks_fromJson_def bind_eq_Some_conv)
  have j: "clean j" using assms(1) by (simp add: finalmask_doc_def)
  have cl: "clean (json k)" for k by (rule clean_member [OF json j])
  have jk: "json k = mget j k" for k
    using json by (auto simp: mget_def dflt_def split: if_splits)
  have arr: "json_ok (js_or (json k) (JArr []))" for k by (rule json_ok_js_or) (simp_all add: cl)
  let ?tcp = "js_or (json ''tcp'') (JArr [])" and ?udp = "js_or (json ''udp'') (JArr [])"
  obtain tcps udps where tcps: "(case ?tcp of
       JArr ts \<Rightarrow> traverse (mask_of ''fragment'' TcpMask_getDefaultSettings) ts
     | _ \<Rightarrow> Some []) = Some tcps"
    and udps: "(case ?udp of
       JArr us \<Rightarrow> traverse (mask_of ''salamander'' udpDefaults) us
     | u \<Rightarrow> traverse (mask_of ''salamander'' udpDefaults) [u]) = Some udps"
    and x: "fm_tcp x = tcps" "fm_udp x = udps"
      "fm_quicParams x = (if truthy (json ''quicParams'') then QuicParams_fromJson (json ''quicParams'') else None)"
    using assms(2) json arr
    by (auto simp: masks_fromJson_def masks_new_def
        bind_eq_Some_conv split: option.splits)
  have "\<forall>m \<in> set tcps. mask_ok TcpMask_getDefaultSettings m"
    using tcps arr [of "''tcp''"] tcp_mask.dec_list_ok by (cases ?tcp) auto
  moreover have "\<forall>m \<in> set udps. mask_ok udpDefaults m"
  proof (cases "is_array ?udp")
    case True
    with udps arr [of "''udp''"] dec_list_ok show ?thesis by (cases ?udp) auto
  next
    case False
    with udps have "traverse (mask_of ''salamander'' udpDefaults) [?udp] = Some udps"
      by (cases ?udp) auto
    with arr [of "''udp''"] show ?thesis by (intro dec_list_ok [of "[?udp]"]) simp_all
  qed
  moreover have "case fm_quicParams x of None \<Rightarrow> True | Some q \<Rightarrow> QuicParams_ok q"
    using x(3) assms(1) jk QuicParams_dec_ok [of "json ''quicParams''"]
    by (auto simp: finalmask_doc_def split: option.splits if_splits)
  ultimately show ?thesis by (simp add: masks_ok_def x)
qed

lemma traverse_Some_wire:
  "map_option (map wire) (traverse (\<lambda>x. Some (f x)) ys) = Some (map wire (map f xs)) \<Longrightarrow>
   map wire (map f ys) = map wire (map f xs)"
  by (simp add: traverse_total)

lemma masks_view:
  assumes ok: "masks_ok udpDefaults x"
  shows "\<exists>y. masks_fromJson udpDefaults (wire (masks_toJson udpCleaned x)) = Some y
    \<and> masks_ok udpDefaults y
    \<and> wire (masks_toJson udpCleaned y) = wire (masks_toJson udpCleaned x)"
proof -
  let ?t = "map TcpMask_toJson (fm_tcp x)" and ?u = "map (mask_toJson udpCleaned) (fm_udp x)"
  obtain ts where ts: "traverse (mask_of ''fragment'' TcpMask_getDefaultSettings) (map wire ?t) = Some ts"
    "\<forall>m \<in> set ts. mask_ok TcpMask_getDefaultSettings m" "map wire (map TcpMask_toJson ts) = map wire ?t"
    using tcp_mask.view_list [of "fm_tcp x" ?t] ok
    by (auto simp: traverse_total masks_ok_def TcpMask_toJson_def)
  obtain us where us: "traverse (mask_of ''salamander'' udpDefaults) (map wire ?u) = Some us"
    "\<forall>m \<in> set us. mask_ok udpDefaults m" "map wire (map (mask_toJson udpCleaned) us) = map wire ?u"
    using view_list [of "fm_udp x" ?u] ok
    by (auto simp: traverse_total masks_ok_def)
  have wi: "wire_items (map TcpMask_toJson ms) = map wire (map TcpMask_toJson ms)"
    "wire_items (map (mask_toJson udpCleaned) ms) = map wire (map (mask_toJson udpCleaned) ms)" for ms
    by (simp_all add: wire_items_objs TcpMask_toJson_def)
  have len: "ts = [] \<longleftrightarrow> fm_tcp x = []" "us = [] \<longleftrightarrow> fm_udp x = []"
    using traverse_length [OF ts(1)] traverse_length [OF us(1)] by auto
  let ?y = "x\<lparr>fm_tcp := ts, fm_udp := us,
    fm_quicParams := map_option QuicParams_reloaded (fm_quicParams x)\<rparr>"
  have w: "wire (masks_toJson udpCleaned z) = JObj
     (prop_if (fm_tcp z \<noteq> []) ''tcp'' (JArr (map wire (map TcpMask_toJson (fm_tcp z))))
      @ prop_if (fm_udp z \<noteq> []) ''udp'' (JArr (map wire (map (mask_toJson udpCleaned) (fm_udp z))))
      @ (case fm_quicParams z of
           None \<Rightarrow> [] | Some q \<Rightarrow> [(''quicParams'', wire (QuicParams_toJson q))]))" for z
    by (simp add: masks_toJson_def wire_props_append wire_prop_if wi
        QuicParams_toJson_def split: option.split)
  have q: "fm_quicParams x = Some q \<Longrightarrow> QuicParams_ok q" for q
    using ok by (simp add: masks_ok_def)
  have "masks_ok udpDefaults ?y"
    using ok ts(2) us(2)
    by (auto simp: masks_ok_def QuicParams_reloaded_ok split: option.splits)
  moreover have "wire (masks_toJson udpCleaned ?y) = wire (masks_toJson udpCleaned x)"
    using len q by (simp add: w ts(3) us(3) QuicParams_reloaded_same del: map_map split: option.split)
  moreover have "masks_fromJson udpDefaults (wire (masks_toJson udpCleaned x)) = Some ?y"
  proof (cases "fm_quicParams x")
    case None
    with ts(1) us(1) len show ?thesis
      by (cases "fm_tcp x = []"; cases "fm_udp x = []")
        (simp_all add: w masks_fromJson_def masks_new_def dflt_obj
          prop_if_def js_or_def dflt_def)
  next
    case (Some p)
    have "truthy (wire (QuicParams_toJson p))" by (simp add: QuicParams_toJson_def)
    with Some QuicParams_view [OF q [OF Some]] ts(1) us(1) len show ?thesis
      by (cases "fm_tcp x = []"; cases "fm_udp x = []")
        (simp_all add: w masks_fromJson_def masks_new_def dflt_obj
          prop_if_def js_or_def dflt_def)
  qed
  ultimately show ?thesis by blast
qed

lemma masks_optional:
  "json_optional (\<lambda>x. Some (masks_toJson udpCleaned x)) (masks_fromJson udpDefaults)
     (masks_ok udpDefaults) finalmask_doc"
proof unfold_locales
  show "\<lbrakk>finalmask_doc j; masks_fromJson udpDefaults j = Some x\<rbrakk> \<Longrightarrow> masks_ok udpDefaults x"
    for j x by (rule masks_dec_ok)
next
  fix x j
  assume "masks_ok udpDefaults x" "Some (masks_toJson udpCleaned x) = Some j"
  then show "\<exists>y. masks_fromJson udpDefaults (wire j) = Some y \<and> masks_ok udpDefaults y
      \<and> map_option wire (Some (masks_toJson udpCleaned y)) = Some (wire j)"
    using masks_view by auto
next
  show "finalmask_doc JUndef" "masks_fromJson udpDefaults JUndef \<noteq> None"
    by (simp_all add: finalmask_doc_def masks_fromJson_def
        masks_new_def js_or_def dflt_def)
qed

end

interpretation inbound_masks: mask_object UdpMask_getDefaultSettings UdpMask_cleaned
  by unfold_locales

interpretation finalmask: json_optional "\<lambda>x. Some (FinalMaskStreamSettings_toJson x)"
  FinalMaskStreamSettings_fromJson FinalMaskStreamSettings_ok finalmask_doc
  unfolding FinalMaskStreamSettings_toJson_def FinalMaskStreamSettings_fromJson_def
    FinalMaskStreamSettings_ok_def
  by (rule inbound_masks.masks_optional)

end
