(* ===== verification/Stream_Settings.thy ===== *)
theory Stream_Settings
  imports Security_Settings Final_Mask
begin

text \<open>
  \<open>StreamSettings\<close> and \<open>Sniffing\<close> of \<open>web/assets/js/model/inbound.js\<close>: the object
  that owns one settings object per transport and per security layer and writes the ones
  its selectors \<open>network\<close> and \<open>security\<close> name.
\<close>

lemma FinalMask_toJson_empty:
  "wire (FinalMaskStreamSettings_toJson m) = emptyObj \<longleftrightarrow>
   fm_tcp m = [] \<and> fm_udp m = [] \<and> fm_quicParams m = None"
  by (auto simp: FinalMaskStreamSettings_toJson_def masks_toJson_def prop_if_def wire_props_append
      QuicParams_toJson_def split: option.splits)

lemma FinalMask_fromJson_undef:
  "FinalMaskStreamSettings_fromJson JUndef = Some \<lparr>fm_tcp = [], fm_udp = [], fm_quicParams = None\<rparr>"
  by (simp add: FinalMaskStreamSettings_fromJson_def masks_fromJson_def masks_new_def js_or_def dflt_def)

lemma wire_props_cong:
  "list_all2 (\<lambda>p q. fst p = fst q \<and> wire (snd p) = wire (snd q)) ps qs \<Longrightarrow>
   wire_props ps = wire_props qs"
proof (induction rule: list_all2_induct)
  case Nil
  then show ?case by simp
next
  case (Cons p ps q qs)
  moreover have "snd p = JUndef \<longleftrightarrow> snd q = JUndef"
    using Cons(1) by (metis wire_eq_undef)
  ultimately show ?case by (cases p; cases q) auto
qed

section \<open>The stream\<close>

record StreamSettings =
  ss_network :: jsval
  ss_security :: jsval
  ss_externalProxy :: jsval
  ss_tls :: TlsStreamSettings
  ss_reality :: RealityStreamSettings
  ss_tcp :: TcpStreamSettings
  ss_kcp :: KcpStreamSettings
  ss_ws :: WsStreamSettings
  ss_grpc :: GrpcStreamSettings
  ss_httpupgrade :: HTTPUpgradeStreamSettings
  ss_xhttp :: xHTTPStreamSettings
  ss_hysteria :: HysteriaStreamSettings
  ss_finalmask :: FinalMaskStreamSettings
  ss_sockopt :: "SockoptStreamSettings option"

definition StreamSettings_new ::
  "jsval \<Rightarrow> jsval \<Rightarrow> jsval \<Rightarrow> TlsStreamSettings \<Rightarrow>
    RealityStreamSettings \<Rightarrow>
    TcpStreamSettings \<Rightarrow>
    KcpStreamSettings \<Rightarrow>
    WsStreamSettings \<Rightarrow>
    GrpcStreamSettings \<Rightarrow>
    HTTPUpgradeStreamSettings \<Rightarrow>
    xHTTPStreamSettings \<Rightarrow>
    HysteriaStreamSettings \<Rightarrow>
    FinalMaskStreamSettings \<Rightarrow>
    SockoptStreamSettings option \<Rightarrow> StreamSettings" where
  "StreamSettings_new network security externalProxy tlsSettings realitySettings tcpSettings
     kcpSettings wsSettings grpcSettings httpupgradeSettings xhttpSettings hysteriaSettings
     finalmask sockopt =
     \<lparr>ss_network = dflt (JStr ''tcp'') network, ss_security = dflt (JStr ''none'') security,
       ss_externalProxy = dflt (JArr []) externalProxy,
       ss_tls = tlsSettings,
       ss_reality = realitySettings,
       ss_tcp = tcpSettings,
       ss_kcp = kcpSettings,
       ss_ws = wsSettings,
       ss_grpc = grpcSettings,
       ss_httpupgrade = httpupgradeSettings,
       ss_xhttp = xhttpSettings,
       ss_hysteria = hysteriaSettings,
       ss_finalmask = finalmask,
       ss_sockopt = sockopt\<rparr>"

text \<open>\<open>new StreamSettings()\<close>: every parameter takes its default, so every member is a fresh
  object.\<close>

definition TcpStreamSettings_default :: "TcpStreamSettings option" where
  "TcpStreamSettings_default = do {
     request \<leftarrow> TcpRequest_new JUndef JUndef JUndef [];
     Some (TcpStreamSettings_new JUndef JUndef request (TcpResponse_new JUndef JUndef JUndef [])) }"

definition StreamSettings_default :: "reality_draw \<Rightarrow> StreamSettings option" where
  "StreamSettings_default r = do {
     tcp \<leftarrow> TcpStreamSettings_default;
     finalmask \<leftarrow> FinalMaskStreamSettings_new JUndef JUndef (Inl JUndef);
     Some (StreamSettings_new JUndef JUndef JUndef
       (TlsStreamSettings_new JUndef JUndef JUndef JUndef JUndef JUndef JUndef None JUndef JUndef None)
       (RealityStreamSettings_new r JUndef JUndef JUndef JUndef JUndef JUndef JUndef JUndef JUndef
         JUndef None)
       tcp
       (KcpStreamSettings_new JUndef JUndef JUndef JUndef JUndef JUndef)
       (WsStreamSettings_new JUndef JUndef JUndef [] JUndef)
       (GrpcStreamSettings_new JUndef JUndef JUndef)
       (HTTPUpgradeStreamSettings_new JUndef JUndef JUndef [])
       (xHTTPStreamSettings_new JUndef JUndef [] JUndef JUndef JUndef JUndef JUndef JUndef JUndef
         JUndef JUndef JUndef JUndef JUndef JUndef JUndef JUndef JUndef JUndef JUndef JUndef)
       (HysteriaStreamSettings_new JUndef JUndef JUndef JUndef None)
       finalmask None) }"

subsection \<open>Operations of the form\<close>

definition addTcpMask :: "jsval \<Rightarrow> StreamSettings \<Rightarrow> StreamSettings option" where
  "addTcpMask type0 this = do {
     m \<leftarrow> TcpMask_new (dflt (JStr ''fragment'') type0) JUndef;
     Some (this\<lparr>ss_finalmask := (ss_finalmask this)\<lparr>fm_tcp := fm_tcp (ss_finalmask this) @ [m]\<rparr>\<rparr>) }"

definition delTcpMask :: "int \<Rightarrow> StreamSettings \<Rightarrow> StreamSettings" where
  "delTcpMask index this = this\<lparr>ss_finalmask :=
     (ss_finalmask this)\<lparr>fm_tcp := splice1 index (fm_tcp (ss_finalmask this))\<rparr>\<rparr>"

definition addUdpMask :: "jsval \<Rightarrow> StreamSettings \<Rightarrow> StreamSettings option" where
  "addUdpMask type0 this = do {
     m \<leftarrow> UdpMask_new (dflt (JStr ''salamander'') type0) JUndef;
     Some (this\<lparr>ss_finalmask := (ss_finalmask this)\<lparr>fm_udp := fm_udp (ss_finalmask this) @ [m]\<rparr>\<rparr>) }"

definition delUdpMask :: "int \<Rightarrow> StreamSettings \<Rightarrow> StreamSettings" where
  "delUdpMask index this = this\<lparr>ss_finalmask :=
     (ss_finalmask this)\<lparr>fm_udp := splice1 index (fm_udp (ss_finalmask this))\<rparr>\<rparr>"

definition hasFinalMask :: "StreamSettings \<Rightarrow> bool" where
  "hasFinalMask this \<longleftrightarrow> fm_tcp (ss_finalmask this) \<noteq> [] \<or> fm_udp (ss_finalmask this) \<noteq> []
     \<or> fm_quicParams (ss_finalmask this) \<noteq> None"

definition isTls :: "StreamSettings \<Rightarrow> bool" where
  "isTls this \<longleftrightarrow> ss_security this = JStr ''tls''"

definition set_isTls :: "bool \<Rightarrow> StreamSettings \<Rightarrow> StreamSettings" where
  "set_isTls value this = this\<lparr>ss_security := JStr (if value then ''tls'' else ''none'')\<rparr>"

definition isReality :: "StreamSettings \<Rightarrow> bool" where
  "isReality this \<longleftrightarrow> ss_security this = JStr ''reality''"

definition set_isReality :: "bool \<Rightarrow> StreamSettings \<Rightarrow> StreamSettings" where
  "set_isReality value this = this\<lparr>ss_security := JStr (if value then ''reality'' else ''none'')\<rparr>"

definition sockoptSwitch :: "StreamSettings \<Rightarrow> bool" where
  "sockoptSwitch this \<longleftrightarrow> ss_sockopt this \<noteq> None"

definition set_sockoptSwitch :: "bool \<Rightarrow> StreamSettings \<Rightarrow> StreamSettings" where
  "set_sockoptSwitch value this = this\<lparr>ss_sockopt :=
     (if value then Some (SockoptStreamSettings_new JUndef JUndef JUndef JUndef JUndef JUndef JUndef
        JUndef JUndef JUndef JUndef JUndef JUndef JUndef JUndef JUndef JUndef)
      else None)\<rparr>"

subsection \<open>Reading and writing\<close>

definition StreamSettings_fromJson :: "reality_draw \<Rightarrow> jsval \<Rightarrow> StreamSettings option" where
  "StreamSettings_fromJson r json0 = do {
     json \<leftarrow> members (dflt emptyObj json0);
     tlsSettings \<leftarrow> TlsStreamSettings_fromJson (json ''tlsSettings'');
     realitySettings \<leftarrow> RealityStreamSettings_fromJson r (json ''realitySettings'');
     tcpSettings \<leftarrow> TcpStreamSettings_fromJson (json ''tcpSettings'');
     kcpSettings \<leftarrow> KcpStreamSettings_fromJson (json ''kcpSettings'');
     wsSettings \<leftarrow> WsStreamSettings_fromJson (json ''wsSettings'');
     grpcSettings \<leftarrow> GrpcStreamSettings_fromJson (json ''grpcSettings'');
     httpupgradeSettings \<leftarrow> HTTPUpgradeStreamSettings_fromJson (json ''httpupgradeSettings'');
     xhttpSettings \<leftarrow> xHTTPStreamSettings_fromJson (json ''xhttpSettings'');
     hysteriaSettings \<leftarrow> HysteriaStreamSettings_fromJson (json ''hysteriaSettings'');
     finalmask \<leftarrow> FinalMaskStreamSettings_fromJson (json ''finalmask'');
     sockopt \<leftarrow> SockoptStreamSettings_fromJson (json ''sockopt'');
     Some (StreamSettings_new (json ''network'') (json ''security'') (json ''externalProxy'')
       tlsSettings realitySettings tcpSettings kcpSettings wsSettings grpcSettings
       httpupgradeSettings xhttpSettings hysteriaSettings finalmask sockopt) }"

definition StreamSettings_toJson :: "StreamSettings \<Rightarrow> jsval option" where
  "StreamSettings_toJson this = do {
     tlsSettings \<leftarrow> (if isTls this then TlsStreamSettings_toJson (ss_tls this)
       else Some JUndef);
     realitySettings \<leftarrow> (if isReality this then RealityStreamSettings_toJson (ss_reality this)
       else Some JUndef);
     tcpSettings \<leftarrow> (if ss_network this = JStr ''tcp'' then TcpStreamSettings_toJson (ss_tcp this)
       else Some JUndef);
     kcpSettings \<leftarrow> (if ss_network this = JStr ''kcp'' then Some (KcpStreamSettings_toJson (ss_kcp this))
       else Some JUndef);
     wsSettings \<leftarrow> (if ss_network this = JStr ''ws'' then WsStreamSettings_toJson (ss_ws this)
       else Some JUndef);
     grpcSettings \<leftarrow> (if ss_network this = JStr ''grpc'' then Some (GrpcStreamSettings_toJson (ss_grpc this))
       else Some JUndef);
     httpupgradeSettings \<leftarrow> (if ss_network this = JStr ''httpupgrade'' then HTTPUpgradeStreamSettings_toJson (ss_httpupgrade this)
       else Some JUndef);
     xhttpSettings \<leftarrow> (if ss_network this = JStr ''xhttp'' then xHTTPStreamSettings_toJson (ss_xhttp this)
       else Some JUndef);
     hysteriaSettings \<leftarrow> (if ss_network this = JStr ''hysteria'' then HysteriaStreamSettings_toJson (ss_hysteria this)
       else Some JUndef);
     finalmask \<leftarrow> (if hasFinalMask this then Some (FinalMaskStreamSettings_toJson (ss_finalmask this))
       else Some JUndef);
     Some (JObj
      [(''network'', ss_network this), (''security'', ss_security this),
       (''externalProxy'', ss_externalProxy this), (''tlsSettings'', tlsSettings),
       (''realitySettings'', realitySettings),
       (''tcpSettings'', tcpSettings),
       (''kcpSettings'', kcpSettings),
       (''wsSettings'', wsSettings),
       (''grpcSettings'', grpcSettings),
       (''httpupgradeSettings'', httpupgradeSettings),
       (''xhttpSettings'', xhttpSettings),
       (''hysteriaSettings'', hysteriaSettings),
       (''finalmask'', finalmask),
       (''sockopt'', sockopt_toJson (ss_sockopt this))]) }"

definition StreamSettings_ok :: "StreamSettings \<Rightarrow> bool" where
  "StreamSettings_ok x \<longleftrightarrow> json_ok (ss_network x) \<and> json_ok (ss_security x)
     \<and> json_ok (ss_externalProxy x)
     \<and> TlsStreamSettings_ok (ss_tls x)
     \<and> RealityStreamSettings_ok (ss_reality x)
     \<and> TcpStreamSettings_ok (ss_tcp x)
     \<and> KcpStreamSettings_ok (ss_kcp x)
     \<and> WsStreamSettings_ok (ss_ws x)
     \<and> GrpcStreamSettings_ok (ss_grpc x)
     \<and> HTTPUpgradeStreamSettings_ok (ss_httpupgrade x)
     \<and> xHTTPStreamSettings_ok (ss_xhttp x)
     \<and> HysteriaStreamSettings_ok (ss_hysteria x)
     \<and> FinalMaskStreamSettings_ok (ss_finalmask x)
     \<and> sockopt_ok (ss_sockopt x)"

text \<open>The documents a stream is specified for: one value per header name, and the conditions
  of the mask object.\<close>

definition stream_doc :: "jsval \<Rightarrow> bool" where
  "stream_doc j \<longleftrightarrow> json_doc j
     \<and> flat_headers_doc (mget j ''wsSettings'')
     \<and> flat_headers_doc (mget j ''httpupgradeSettings'')
     \<and> flat_headers_doc (mget j ''xhttpSettings'')
     \<and> hysteria_doc (mget j ''hysteriaSettings'')
     \<and> finalmask_doc (mget j ''finalmask'')"

lemma StreamSettings_dec_ok:
  assumes "stream_doc j" "StreamSettings_fromJson r j = Some x"
  shows "StreamSettings_ok x"
proof -
  obtain json where json: "members (dflt emptyObj j) = Some json"
    using assms(2) by (auto simp: StreamSettings_fromJson_def bind_eq_Some_conv)
  have j: "json_doc j" using assms(1) by (simp add: stream_doc_def)
  have cl: "json_doc (json k)" "clean (json k)" for k
    using json_doc_member [OF json j] json_doc_clean by blast+
  have jk: "mget j k = json k" for k
    using json by (auto simp: mget_def dflt_def split: if_splits)
  note doc = assms(1) [unfolded stream_doc_def jk]
  obtain tlsSettings where tlsSettings: "TlsStreamSettings_fromJson (json ''tlsSettings'') = Some tlsSettings"
    using assms(2) json by (auto simp: StreamSettings_fromJson_def bind_eq_Some_conv)
  obtain realitySettings where realitySettings: "RealityStreamSettings_fromJson r (json ''realitySettings'') = Some realitySettings"
    using assms(2) json by (auto simp: StreamSettings_fromJson_def bind_eq_Some_conv)
  obtain tcpSettings where tcpSettings: "TcpStreamSettings_fromJson (json ''tcpSettings'') = Some tcpSettings"
    using assms(2) json by (auto simp: StreamSettings_fromJson_def bind_eq_Some_conv)
  obtain kcpSettings where kcpSettings: "KcpStreamSettings_fromJson (json ''kcpSettings'') = Some kcpSettings"
    using assms(2) json by (auto simp: StreamSettings_fromJson_def bind_eq_Some_conv)
  obtain wsSettings where wsSettings: "WsStreamSettings_fromJson (json ''wsSettings'') = Some wsSettings"
    using assms(2) json by (auto simp: StreamSettings_fromJson_def bind_eq_Some_conv)
  obtain grpcSettings where grpcSettings: "GrpcStreamSettings_fromJson (json ''grpcSettings'') = Some grpcSettings"
    using assms(2) json by (auto simp: StreamSettings_fromJson_def bind_eq_Some_conv)
  obtain httpupgradeSettings where httpupgradeSettings: "HTTPUpgradeStreamSettings_fromJson (json ''httpupgradeSettings'') = Some httpupgradeSettings"
    using assms(2) json by (auto simp: StreamSettings_fromJson_def bind_eq_Some_conv)
  obtain xhttpSettings where xhttpSettings: "xHTTPStreamSettings_fromJson (json ''xhttpSettings'') = Some xhttpSettings"
    using assms(2) json by (auto simp: StreamSettings_fromJson_def bind_eq_Some_conv)
  obtain hysteriaSettings where hysteriaSettings: "HysteriaStreamSettings_fromJson (json ''hysteriaSettings'') = Some hysteriaSettings"
    using assms(2) json by (auto simp: StreamSettings_fromJson_def bind_eq_Some_conv)
  obtain finalmask where finalmask: "FinalMaskStreamSettings_fromJson (json ''finalmask'') = Some finalmask"
    using assms(2) json by (auto simp: StreamSettings_fromJson_def bind_eq_Some_conv)
  obtain sockopt where sockopt: "SockoptStreamSettings_fromJson (json ''sockopt'') = Some sockopt"
    using assms(2) json by (auto simp: StreamSettings_fromJson_def bind_eq_Some_conv)
  have "x = StreamSettings_new (json ''network'') (json ''security'') (json ''externalProxy'')
       tlsSettings realitySettings tcpSettings kcpSettings wsSettings grpcSettings
       httpupgradeSettings xhttpSettings hysteriaSettings finalmask sockopt"
    using assms(2) by (simp add: StreamSettings_fromJson_def json tlsSettings realitySettings tcpSettings kcpSettings wsSettings grpcSettings httpupgradeSettings xhttpSettings hysteriaSettings finalmask sockopt)
  moreover have "TlsStreamSettings_ok tlsSettings"
    by (rule tls.dec_ok [OF _ tlsSettings]) (simp add: cl)
  moreover have "RealityStreamSettings_ok realitySettings"
    by (rule reality.dec_ok [OF _ realitySettings]) (simp add: cl)
  moreover have "TcpStreamSettings_ok tcpSettings"
    by (rule tcp.dec_ok [OF _ tcpSettings]) (simp add: cl)
  moreover have "KcpStreamSettings_ok kcpSettings"
    by (rule kcp.dec_ok [OF _ kcpSettings]) (simp add: cl)
  moreover have "WsStreamSettings_ok wsSettings"
    by (rule ws.dec_ok [OF _ wsSettings]) (simp add: doc)
  moreover have "GrpcStreamSettings_ok grpcSettings"
    by (rule grpc.dec_ok [OF _ grpcSettings]) (simp add: cl)
  moreover have "HTTPUpgradeStreamSettings_ok httpupgradeSettings"
    by (rule httpupgrade.dec_ok [OF _ httpupgradeSettings]) (simp add: doc)
  moreover have "xHTTPStreamSettings_ok xhttpSettings"
    by (rule xhttp.dec_ok [OF _ xhttpSettings]) (simp add: doc)
  moreover have "HysteriaStreamSettings_ok hysteriaSettings"
    by (rule hysteria.dec_ok [OF _ hysteriaSettings]) (simp add: doc)
  moreover have "FinalMaskStreamSettings_ok finalmask"
    by (rule finalmask.dec_ok [OF _ finalmask]) (simp add: doc)
  moreover have "sockopt_ok sockopt"
    by (rule sockopt.dec_ok [OF _ sockopt]) (simp add: cl)
  ultimately show ?thesis
    by (simp add: StreamSettings_new_def StreamSettings_ok_def json_ok_dflt cl)
qed

lemma StreamSettings_view:
  assumes ok: "StreamSettings_ok x" and enc: "StreamSettings_toJson x = Some j"
  shows "\<exists>y. StreamSettings_fromJson r (wire j) = Some y \<and> StreamSettings_ok y
    \<and> map_option wire (StreamSettings_toJson y) = Some (wire j)"
proof -
  obtain tlsSettings realitySettings tcpSettings kcpSettings wsSettings grpcSettings httpupgradeSettings xhttpSettings hysteriaSettings finalmask
    where tlsSettings: "(if isTls x then TlsStreamSettings_toJson (ss_tls x) else Some JUndef) = Some tlsSettings"
      and realitySettings: "(if isReality x then RealityStreamSettings_toJson (ss_reality x) else Some JUndef) = Some realitySettings"
      and tcpSettings: "(if ss_network x = JStr ''tcp'' then TcpStreamSettings_toJson (ss_tcp x) else Some JUndef) = Some tcpSettings"
      and kcpSettings: "(if ss_network x = JStr ''kcp'' then Some (KcpStreamSettings_toJson (ss_kcp x)) else Some JUndef) = Some kcpSettings"
      and wsSettings: "(if ss_network x = JStr ''ws'' then WsStreamSettings_toJson (ss_ws x) else Some JUndef) = Some wsSettings"
      and grpcSettings: "(if ss_network x = JStr ''grpc'' then Some (GrpcStreamSettings_toJson (ss_grpc x)) else Some JUndef) = Some grpcSettings"
      and httpupgradeSettings: "(if ss_network x = JStr ''httpupgrade'' then HTTPUpgradeStreamSettings_toJson (ss_httpupgrade x) else Some JUndef) = Some httpupgradeSettings"
      and xhttpSettings: "(if ss_network x = JStr ''xhttp'' then xHTTPStreamSettings_toJson (ss_xhttp x) else Some JUndef) = Some xhttpSettings"
      and hysteriaSettings: "(if ss_network x = JStr ''hysteria'' then HysteriaStreamSettings_toJson (ss_hysteria x) else Some JUndef) = Some hysteriaSettings"
      and finalmask: "(if hasFinalMask x then Some (FinalMaskStreamSettings_toJson (ss_finalmask x)) else Some JUndef) = Some finalmask"
      and j: "j = JObj
      [(''network'', ss_network x), (''security'', ss_security x),
       (''externalProxy'', ss_externalProxy x), (''tlsSettings'', tlsSettings),
       (''realitySettings'', realitySettings),
       (''tcpSettings'', tcpSettings),
       (''kcpSettings'', kcpSettings),
       (''wsSettings'', wsSettings),
       (''grpcSettings'', grpcSettings),
       (''httpupgradeSettings'', httpupgradeSettings),
       (''xhttpSettings'', xhttpSettings),
       (''hysteriaSettings'', hysteriaSettings),
       (''finalmask'', finalmask),
       (''sockopt'', sockopt_toJson (ss_sockopt x))]"
    using enc unfolding StreamSettings_toJson_def bind_eq_Some_conv by blast
  obtain y0 where y0: "TlsStreamSettings_fromJson (wire tlsSettings) = Some y0" "TlsStreamSettings_ok y0"
    "map_option wire (if isTls x then TlsStreamSettings_toJson y0 else Some JUndef) = Some (wire tlsSettings)"
    by (rule tls.selected_view [OF _ tlsSettings]) (use ok in \<open>simp add: StreamSettings_ok_def\<close>)
  obtain y1 where y1: "RealityStreamSettings_fromJson r (wire realitySettings) = Some y1" "RealityStreamSettings_ok y1"
    "map_option wire (if isReality x then RealityStreamSettings_toJson y1 else Some JUndef) = Some (wire realitySettings)"
    by (rule reality.selected_view [OF _ realitySettings]) (use ok in \<open>simp add: StreamSettings_ok_def\<close>)
  obtain y2 where y2: "TcpStreamSettings_fromJson (wire tcpSettings) = Some y2" "TcpStreamSettings_ok y2"
    "map_option wire (if ss_network x = JStr ''tcp'' then TcpStreamSettings_toJson y2 else Some JUndef) = Some (wire tcpSettings)"
    by (rule tcp.selected_view [OF _ tcpSettings]) (use ok in \<open>simp add: StreamSettings_ok_def\<close>)
  obtain y3 where y3: "KcpStreamSettings_fromJson (wire kcpSettings) = Some y3" "KcpStreamSettings_ok y3"
    "map_option wire (if ss_network x = JStr ''kcp'' then Some (KcpStreamSettings_toJson y3) else Some JUndef) = Some (wire kcpSettings)"
    by (rule kcp_field.selected_view [OF _ kcpSettings]) (use ok in \<open>simp add: StreamSettings_ok_def\<close>)
  obtain y4 where y4: "WsStreamSettings_fromJson (wire wsSettings) = Some y4" "WsStreamSettings_ok y4"
    "map_option wire (if ss_network x = JStr ''ws'' then WsStreamSettings_toJson y4 else Some JUndef) = Some (wire wsSettings)"
    by (rule ws.selected_view [OF _ wsSettings]) (use ok in \<open>simp add: StreamSettings_ok_def\<close>)
  obtain y5 where y5: "GrpcStreamSettings_fromJson (wire grpcSettings) = Some y5" "GrpcStreamSettings_ok y5"
    "map_option wire (if ss_network x = JStr ''grpc'' then Some (GrpcStreamSettings_toJson y5) else Some JUndef) = Some (wire grpcSettings)"
    by (rule grpc_field.selected_view [OF _ grpcSettings]) (use ok in \<open>simp add: StreamSettings_ok_def\<close>)
  obtain y6 where y6: "HTTPUpgradeStreamSettings_fromJson (wire httpupgradeSettings) = Some y6" "HTTPUpgradeStreamSettings_ok y6"
    "map_option wire (if ss_network x = JStr ''httpupgrade'' then HTTPUpgradeStreamSettings_toJson y6 else Some JUndef) = Some (wire httpupgradeSettings)"
    by (rule httpupgrade.selected_view [OF _ httpupgradeSettings]) (use ok in \<open>simp add: StreamSettings_ok_def\<close>)
  obtain y7 where y7: "xHTTPStreamSettings_fromJson (wire xhttpSettings) = Some y7" "xHTTPStreamSettings_ok y7"
    "map_option wire (if ss_network x = JStr ''xhttp'' then xHTTPStreamSettings_toJson y7 else Some JUndef) = Some (wire xhttpSettings)"
    by (rule xhttp.selected_view [OF _ xhttpSettings]) (use ok in \<open>simp add: StreamSettings_ok_def\<close>)
  obtain y8 where y8: "HysteriaStreamSettings_fromJson (wire hysteriaSettings) = Some y8" "HysteriaStreamSettings_ok y8"
    "map_option wire (if ss_network x = JStr ''hysteria'' then HysteriaStreamSettings_toJson y8 else Some JUndef) = Some (wire hysteriaSettings)"
    by (rule hysteria.selected_view [OF _ hysteriaSettings]) (use ok in \<open>simp add: StreamSettings_ok_def\<close>)
  obtain y9 where y9: "FinalMaskStreamSettings_fromJson (wire finalmask) = Some y9" "FinalMaskStreamSettings_ok y9"
    "map_option wire (if hasFinalMask x then Some (FinalMaskStreamSettings_toJson y9) else Some JUndef) = Some (wire finalmask)"
    by (rule finalmask.selected_view [OF _ finalmask]) (use ok in \<open>simp add: StreamSettings_ok_def\<close>)
  obtain y10 where y10: "SockoptStreamSettings_fromJson (wire (sockopt_toJson (ss_sockopt x))) = Some y10"
    "sockopt_ok y10" "wire (sockopt_toJson y10) = wire (sockopt_toJson (ss_sockopt x))"
    using sockopt.view [of "ss_sockopt x"] ok by (auto simp: StreamSettings_ok_def)
  obtain k0 where k0: "(if isTls x then TlsStreamSettings_toJson y0 else Some JUndef) = Some k0" "wire k0 = wire tlsSettings"
    using y0(3) by (auto split del: if_split)
  obtain k1 where k1: "(if isReality x then RealityStreamSettings_toJson y1 else Some JUndef) = Some k1" "wire k1 = wire realitySettings"
    using y1(3) by (auto split del: if_split)
  obtain k2 where k2: "(if ss_network x = JStr ''tcp'' then TcpStreamSettings_toJson y2 else Some JUndef) = Some k2" "wire k2 = wire tcpSettings"
    using y2(3) by (auto split del: if_split)
  obtain k3 where k3: "(if ss_network x = JStr ''kcp'' then Some (KcpStreamSettings_toJson y3) else Some JUndef) = Some k3" "wire k3 = wire kcpSettings"
    using y3(3) by (auto split del: if_split)
  obtain k4 where k4: "(if ss_network x = JStr ''ws'' then WsStreamSettings_toJson y4 else Some JUndef) = Some k4" "wire k4 = wire wsSettings"
    using y4(3) by (auto split del: if_split)
  obtain k5 where k5: "(if ss_network x = JStr ''grpc'' then Some (GrpcStreamSettings_toJson y5) else Some JUndef) = Some k5" "wire k5 = wire grpcSettings"
    using y5(3) by (auto split del: if_split)
  obtain k6 where k6: "(if ss_network x = JStr ''httpupgrade'' then HTTPUpgradeStreamSettings_toJson y6 else Some JUndef) = Some k6" "wire k6 = wire httpupgradeSettings"
    using y6(3) by (auto split del: if_split)
  obtain k7 where k7: "(if ss_network x = JStr ''xhttp'' then xHTTPStreamSettings_toJson y7 else Some JUndef) = Some k7" "wire k7 = wire xhttpSettings"
    using y7(3) by (auto split del: if_split)
  obtain k8 where k8: "(if ss_network x = JStr ''hysteria'' then HysteriaStreamSettings_toJson y8 else Some JUndef) = Some k8" "wire k8 = wire hysteriaSettings"
    using y8(3) by (auto split del: if_split)
  obtain k9 where k9: "(if hasFinalMask x then Some (FinalMaskStreamSettings_toJson y9) else Some JUndef) = Some k9" "wire k9 = wire finalmask"
    using y9(3) by (auto split del: if_split)
  let ?y = "x\<lparr>ss_tls := y0, ss_reality := y1, ss_tcp := y2, ss_kcp := y3, ss_ws := y4, ss_grpc := y5, ss_httpupgrade := y6, ss_xhttp := y7, ss_hysteria := y8, ss_finalmask := y9, ss_sockopt := y10\<rparr>"
  have top: "json_ok (ss_network x)" "json_ok (ss_security x)" "json_ok (ss_externalProxy x)"
    using ok by (simp_all add: StreamSettings_ok_def)
  have mem: "members (dflt emptyObj (wire j)) = Some (\<lambda>k. wire (oget
      [(''network'', ss_network x), (''security'', ss_security x),
       (''externalProxy'', ss_externalProxy x), (''tlsSettings'', tlsSettings),
       (''realitySettings'', realitySettings),
       (''tcpSettings'', tcpSettings),
       (''kcpSettings'', kcpSettings),
       (''wsSettings'', wsSettings),
       (''grpcSettings'', grpcSettings),
       (''httpupgradeSettings'', httpupgradeSettings),
       (''xhttpSettings'', xhttpSettings),
       (''hysteriaSettings'', hysteriaSettings),
       (''finalmask'', finalmask),
       (''sockopt'', sockopt_toJson (ss_sockopt x))] k))"
    unfolding j by (rule members_wire) simp
  have dec: "StreamSettings_fromJson r (wire j) = Some ?y"
    unfolding StreamSettings_fromJson_def mem
    by (simp add:  y0(1) y1(1) y2(1) y3(1) y4(1) y5(1) y6(1) y7(1) y8(1) y9(1) y10(1) top StreamSettings_new_def)
  have "isTls ?y = isTls x" "isReality ?y = isReality x" "ss_network ?y = ss_network x"
    by (simp_all add: isTls_def isReality_def)
  moreover have "hasFinalMask ?y = hasFinalMask x"
    using finalmask k9 y9 FinalMask_toJson_empty [of y9] FinalMask_toJson_empty [of "ss_finalmask x"]
    by (auto simp: hasFinalMask_def FinalMask_fromJson_undef split: if_splits)
  ultimately have enc_y: "StreamSettings_toJson ?y = Some (JObj
      [(''network'', ss_network x), (''security'', ss_security x),
       (''externalProxy'', ss_externalProxy x), (''tlsSettings'', k0),
       (''realitySettings'', k1),
       (''tcpSettings'', k2),
       (''kcpSettings'', k3),
       (''wsSettings'', k4),
       (''grpcSettings'', k5),
       (''httpupgradeSettings'', k6),
       (''xhttpSettings'', k7),
       (''hysteriaSettings'', k8),
       (''finalmask'', k9),
       (''sockopt'', sockopt_toJson y10)])"
    unfolding StreamSettings_toJson_def
    by (simp add: k0(1) k1(1) k2(1) k3(1) k4(1) k5(1) k6(1) k7(1) k8(1) k9(1) split del: if_split cong: if_cong)
  have "wire (JObj
      [(''network'', ss_network x), (''security'', ss_security x),
       (''externalProxy'', ss_externalProxy x), (''tlsSettings'', k0),
       (''realitySettings'', k1),
       (''tcpSettings'', k2),
       (''kcpSettings'', k3),
       (''wsSettings'', k4),
       (''grpcSettings'', k5),
       (''httpupgradeSettings'', k6),
       (''xhttpSettings'', k7),
       (''hysteriaSettings'', k8),
       (''finalmask'', k9),
       (''sockopt'', sockopt_toJson y10)]) = wire j"
    unfolding j wire.simps by (rule arg_cong [where f = JObj], rule wire_props_cong)
      (simp add: k0(2) k1(2) k2(2) k3(2) k4(2) k5(2) k6(2) k7(2) k8(2) k9(2) y10(3))
  moreover have "StreamSettings_ok ?y"
    using ok by (simp add: StreamSettings_ok_def y0(2) y1(2) y2(2) y3(2) y4(2) y5(2) y6(2) y7(2) y8(2) y9(2) y10(2))
  ultimately show ?thesis using dec enc_y by simp
qed

interpretation stream: json_view StreamSettings_toJson "StreamSettings_fromJson r" StreamSettings_ok
  stream_doc for r
  by unfold_locales (rule StreamSettings_dec_ok StreamSettings_view; assumption)+

section \<open>Sniffing\<close>

record Sniffing =
  sn_enabled :: jsval
  sn_destOverride :: jsval
  sn_metadataOnly :: jsval
  sn_routeOnly :: jsval
  sn_ipsExcluded :: jsval
  sn_domainsExcluded :: jsval

definition sniffing_protocols :: jsval where
  "sniffing_protocols = JArr [JStr ''http'', JStr ''tls'', JStr ''quic'', JStr ''fakedns'']"

fun nonempty_array :: "jsval \<Rightarrow> bool" where
  "nonempty_array (JArr xs) = (xs \<noteq> [])"
| "nonempty_array _ = False"

definition Sniffing_new ::
  "jsval \<Rightarrow> jsval \<Rightarrow> jsval \<Rightarrow> jsval \<Rightarrow> jsval \<Rightarrow> jsval \<Rightarrow> Sniffing" where
  "Sniffing_new enabled destOverride metadataOnly routeOnly ipsExcluded domainsExcluded =
     \<lparr>sn_enabled = dflt (JBool False) enabled,
       sn_destOverride = (let d = dflt sniffing_protocols destOverride
         in if nonempty_array d then d else sniffing_protocols),
       sn_metadataOnly = dflt (JBool False) metadataOnly,
       sn_routeOnly = dflt (JBool False) routeOnly,
       sn_ipsExcluded = array_or_empty (dflt (JArr []) ipsExcluded),
       sn_domainsExcluded = array_or_empty (dflt (JArr []) domainsExcluded)\<rparr>"

text \<open>\<open>v[0]\<close>, for a value that is neither \<open>undefined\<close> nor \<open>null\<close>.\<close>

fun first_item :: "jsval \<Rightarrow> jsval" where
  "first_item (JArr (x # xs)) = x"
| "first_item (JStr (c # cs)) = JStr [c]"
| "first_item (JObj ps) = oget ps ''0''"
| "first_item _ = JUndef"

definition Sniffing_fromJson :: "jsval \<Rightarrow> Sniffing option" where
  "Sniffing_fromJson json0 = do {
     json \<leftarrow> members (dflt emptyObj json0);
     let destOverride = clone (json ''destOverride'');
     let destOverride = (if isEmpty destOverride \<or> isArrEmpty destOverride
         \<or> isEmpty (first_item destOverride) then sniffing_protocols else destOverride);
     Some (Sniffing_new (JBool (truthy (json ''enabled''))) destOverride
       (json ''metadataOnly'') (json ''routeOnly'')
       (js_or (json ''ipsExcluded'') (JArr [])) (js_or (json ''domainsExcluded'') (JArr []))) }"

definition Sniffing_toJson :: "Sniffing \<Rightarrow> jsval" where
  "Sniffing_toJson this = JObj
      [(''enabled'', sn_enabled this), (''destOverride'', sn_destOverride this),
       (''metadataOnly'', sn_metadataOnly this), (''routeOnly'', sn_routeOnly this),
       (''ipsExcluded'', if nonempty_array (sn_ipsExcluded this) then sn_ipsExcluded this else JUndef),
       (''domainsExcluded'',
         if nonempty_array (sn_domainsExcluded this) then sn_domainsExcluded this else JUndef)]"

definition Sniffing_ok :: "Sniffing \<Rightarrow> bool" where
  "Sniffing_ok x \<longleftrightarrow> (\<exists>b. sn_enabled x = JBool b)
     \<and> (\<exists>d ds. sn_destOverride x = JArr (d # ds) \<and> \<not> isEmpty d \<and> json_ok (sn_destOverride x))
     \<and> json_ok (sn_metadataOnly x) \<and> json_ok (sn_routeOnly x)
     \<and> (\<exists>qs. sn_ipsExcluded x = JArr qs \<and> json_ok (sn_ipsExcluded x))
     \<and> (\<exists>ds. sn_domainsExcluded x = JArr ds \<and> json_ok (sn_domainsExcluded x))"

lemma clone_array [simp]: "clone (JArr xs) = JArr xs"
  by (simp add: copyArr_eq)

lemma nonempty_array_conv: "nonempty_array v \<longleftrightarrow> (\<exists>x xs. v = JArr (x # xs))"
  by (cases v rule: nonempty_array.cases) (auto simp: neq_Nil_conv)

lemma clone_nonempty_array: "nonempty_array (clone v) \<Longrightarrow> clone v = v"
  by (cases v) (auto simp: copyArr_eq)

lemma array_or_empty_or: "array_or_empty (js_or v (JArr [])) = array_or_empty v"
  by (cases v) (auto simp: array_or_empty_def js_or_def)

text \<open>The array the reader settles on: a usable one, or the four protocols.\<close>

lemma destOverride_choice:
  fixes v
  defines "d \<equiv> (let d = clone v in if isEmpty d \<or> isArrEmpty d \<or> isEmpty (first_item d)
    then sniffing_protocols else d)"
  defines "e \<equiv> (let e = dflt sniffing_protocols d in if nonempty_array e then e else sniffing_protocols)"
  assumes "clean v"
  shows "\<exists>x xs. e = JArr (x # xs) \<and> \<not> isEmpty x \<and> json_ok e"
proof (cases "nonempty_array d \<and> d \<noteq> sniffing_protocols")
  case True
  then have d: "d = clone v" "\<not> isEmpty (first_item (clone v))" by (auto simp: d_def Let_def split: if_splits)
  with True clone_nonempty_array [of v] obtain x xs where "v = JArr (x # xs)" "d = v"
    by (auto simp: nonempty_array_conv)
  with d assms(3) show ?thesis by (auto simp: e_def dflt_def)
next
  case False
  then have "e = sniffing_protocols" by (auto simp: e_def dflt_def Let_def)
  then show ?thesis by (auto simp: sniffing_protocols_def isEmpty_def)
qed

interpretation sniffing: json_codec "\<lambda>x. Some (Sniffing_toJson x)" Sniffing_fromJson Sniffing_ok clean
proof unfold_locales
  fix j x
  assume j: "clean j" and d: "Sniffing_fromJson j = Some x"
  then obtain json where json: "members (dflt emptyObj j) = Some json"
    by (auto simp: Sniffing_fromJson_def bind_eq_Some_conv)
  have cl: "clean (json k)" for k by (rule clean_member [OF json j])
  have arr: "\<exists>xs. array_or_empty (dflt (JArr []) (js_or (json k) (JArr []))) = JArr xs
      \<and> json_ok (array_or_empty (dflt (JArr []) (js_or (json k) (JArr []))))" for k
    using array_or_empty_array array_or_empty_json_ok
      [OF clean_json_ok [OF json_ok_dflt [of "JArr []" "js_or (json k) (JArr [])"]]]
      clean_json_ok [OF json_ok_js_or [of "JArr []", OF _ cl]] by auto
  show "Sniffing_ok x"
    using d json arr destOverride_choice [OF cl [of "''destOverride''"]]
    by (auto simp: Sniffing_fromJson_def Sniffing_new_def Sniffing_ok_def bind_eq_Some_conv Let_def
        cl json_ok_dflt)
next
  fix x j
  assume ok: "Sniffing_ok x" and j: "Some (Sniffing_toJson x) = Some j"
  then obtain b d ds qs es where x: "sn_enabled x = JBool b" "sn_destOverride x = JArr (d # ds)"
    "\<not> isEmpty d" "sn_ipsExcluded x = JArr qs" "sn_domainsExcluded x = JArr es"
    by (auto simp: Sniffing_ok_def)
  have js: "json_ok (JArr (d # ds))" "json_ok (JArr qs)" "json_ok (JArr es)"
    "json_ok (sn_metadataOnly x)" "json_ok (sn_routeOnly x)"
    using ok x by (auto simp: Sniffing_ok_def)
  let ?ps = "[(''enabled'', JBool b), (''destOverride'', JArr (d # ds)),
     (''metadataOnly'', sn_metadataOnly x), (''routeOnly'', sn_routeOnly x),
     (''ipsExcluded'', if qs = [] then JUndef else JArr qs),
     (''domainsExcluded'', if es = [] then JUndef else JArr es)]"
  have j: "j = JObj ?ps" using j x by (auto simp: Sniffing_toJson_def)
  have mem: "members (dflt emptyObj (wire j)) = Some (\<lambda>k. wire (oget ?ps k))"
    unfolding j by (rule members_wire) simp
  have w: "wire (if ys = [] then JUndef else JArr ys) = (if ys = [] then JUndef else JArr ys)"
    if "json_ok (JArr ys)" for ys
    using wire_json_ok [OF that] by (simp del: wire.simps add: wire.simps(1))
  have kept: "array_or_empty (dflt (JArr []) (js_or (if ys = [] then JUndef else JArr ys) (JArr []))) = JArr ys"
    for ys by (simp add: js_or_def dflt_def)
  have pick: "isEmpty (JArr (y # ys)) = False" "isArrEmpty (JArr (y # ys)) = False"
    "dflt e (JArr ys) = JArr ys" for e y ys
    by (auto simp: isEmpty_def isArrEmpty_def dflt_def)
  have dest: "wire (JArr (d # ds)) = JArr (d # ds)" by (rule wire_json_ok [OF js(1)])
  have scalars: "wire (sn_metadataOnly x) = sn_metadataOnly x" "wire (sn_routeOnly x) = sn_routeOnly x"
    "dflt (JBool False) (sn_metadataOnly x) = sn_metadataOnly x"
    "dflt (JBool False) (sn_routeOnly x) = sn_routeOnly x"
    using js by simp_all
  show "Sniffing_fromJson (wire j) = Some x"
    unfolding Sniffing_fromJson_def mem bind.bind_lunit Let_def
    by (simp only: oget_Cons dest scalars w [OF js(2)] w [OF js(3)] clone_array first_item.simps
        pick x(3) if_False if_True simp_thms wire.simps(3) truthy.simps kept list.inject char.inject
        list.distinct Sniffing_new_def Let_def nonempty_array.simps)
      (auto intro!: Sniffing.equality simp: x kept dflt_def)
qed

end
