(* ===== verification/Formatters.thy ===== *)
theory Formatters
  imports Js_Prelude Doubles
begin

text \<open>
  The formatters and colour rules of \<open>web/assets/js/util/index.js\<close>: \<open>SizeFormatter\<close>,
  \<open>CPUFormatter\<close>, \<open>TimeFormatter\<close>, \<open>NumberFormatter\<close>, \<open>ColorUtils\<close> and
  \<open>ArrayUtils\<close>. A number the code divides is kept as a numerator and a denominator,
  so \<open>toFixed\<close> rounds exactly: dividing by a power of two is exact in the code as well,
  and the other quotients are nowhere near a rounding boundary they are not on. The quotas are
  computed in doubles, with every rounding the code does (\<open>to_double\<close>).
\<close>

section \<open>Rounded decimals\<close>

text \<open>\<open>Number.prototype.toFixed\<close> of \<open>n / d\<close>: the nearest decimal, the larger one of two.\<close>

definition round_div :: "int \<Rightarrow> int \<Rightarrow> int" where
  "round_div n d = (2 * n + d) div (2 * d)"

definition pad_zeros :: "nat \<Rightarrow> string \<Rightarrow> string" where
  "pad_zeros k s = replicate (k - length s) (CHR ''0'') @ s"

definition decimal :: "nat \<Rightarrow> int \<Rightarrow> string" where
  "decimal k m = (if k = 0 then int_str m
     else (if m < 0 then ''-'' else []) @ int_str (\<bar>m\<bar> div 10 ^ k) @ ''.''
       @ pad_zeros k (int_str (\<bar>m\<bar> mod 10 ^ k)))"

definition js_toFixed :: "nat \<Rightarrow> int \<Rightarrow> int \<Rightarrow> string" where
  "js_toFixed k n d = decimal k (round_div (n * 10 ^ k) d)"

lemma round_div_error: "0 < d \<Longrightarrow> 2 * \<bar>round_div n d * d - n\<bar> \<le> d"
proof -
  assume d: "0 < d"
  have "2 * n + d = 2 * d * ((2 * n + d) div (2 * d)) + (2 * n + d) mod (2 * d)" by simp
  moreover have "0 \<le> (2 * n + d) mod (2 * d)" "(2 * n + d) mod (2 * d) < 2 * d"
    using d by (simp_all add: pos_mod_bound pos_mod_sign)
  ultimately have "- d \<le> 2 * n - 2 * (d * round_div n d)" "2 * n - 2 * (d * round_div n d) < d"
    unfolding round_div_def by (simp_all add: mult.assoc)
  then show ?thesis by (auto simp: abs_if mult.commute)
qed

lemma round_div_mono: "0 < d \<Longrightarrow> n \<le> m \<Longrightarrow> round_div n d \<le> round_div m d"
  unfolding round_div_def by (rule zdiv_mono1) auto

lemma round_div_exact: "0 < d \<Longrightarrow> round_div (q * d) d = q"
proof -
  assume d: "0 < d"
  have "2 * (q * d) + d = d + q * (2 * d)" by simp
  then have "round_div (q * d) d = q + d div (2 * d)"
    unfolding round_div_def using d by (simp only: div_mult_self2) simp
  with d show ?thesis by simp
qed

section \<open>Sizes\<close>

definition ONE_KB :: int where "ONE_KB = 1024"
definition ONE_MB :: int where "ONE_MB = ONE_KB * 1024"
definition ONE_GB :: int where "ONE_GB = ONE_MB * 1024"
definition ONE_TB :: int where "ONE_TB = ONE_GB * 1024"
definition ONE_PB :: int where "ONE_PB = ONE_TB * 1024"

lemmas size_units = ONE_KB_def ONE_MB_def ONE_GB_def ONE_TB_def ONE_PB_def

definition sizeFormat :: "int \<Rightarrow> string" where
  "sizeFormat sz =
     (if sz \<le> 0 then ''0 B''
      else if sz < ONE_KB then js_toFixed 0 sz 1 @ '' B''
      else if sz < ONE_MB then js_toFixed 2 sz ONE_KB @ '' KB''
      else if sz < ONE_GB then js_toFixed 2 sz ONE_MB @ '' MB''
      else if sz < ONE_TB then js_toFixed 2 sz ONE_GB @ '' GB''
      else if sz < ONE_PB then js_toFixed 2 sz ONE_TB @ '' TB''
      else js_toFixed 2 sz ONE_PB @ '' PB'')"

text \<open>The unit a size is printed in.\<close>

definition size_unit :: "int \<Rightarrow> int \<times> string" where
  "size_unit sz =
     (if sz < ONE_MB then (ONE_KB, ''KB'') else if sz < ONE_GB then (ONE_MB, ''MB'')
      else if sz < ONE_TB then (ONE_GB, ''GB'') else if sz < ONE_PB then (ONE_TB, ''TB'')
      else (ONE_PB, ''PB''))"

lemma sizeFormat_unit:
  "ONE_KB \<le> sz \<Longrightarrow>
   sizeFormat sz = decimal 2 (round_div (sz * 100) (fst (size_unit sz))) @ '' '' @ snd (size_unit sz)"
  by (simp add: sizeFormat_def size_unit_def js_toFixed_def size_units)

lemma size_unit_bounds:
  assumes "ONE_KB \<le> sz"
  shows "0 < fst (size_unit sz)" "fst (size_unit sz) \<le> sz"
    "sz < ONE_PB \<Longrightarrow> sz < 1024 * fst (size_unit sz)"
  using assms by (auto simp: size_unit_def size_units)

lemma size_mantissa:
  assumes "ONE_KB \<le> sz"
  shows "100 \<le> round_div (sz * 100) (fst (size_unit sz))"
    "sz < ONE_PB \<Longrightarrow> round_div (sz * 100) (fst (size_unit sz)) \<le> 102400"
proof -
  note b = size_unit_bounds [OF assms]
  have "round_div (100 * fst (size_unit sz)) (fst (size_unit sz))
      \<le> round_div (sz * 100) (fst (size_unit sz))"
    using b by (intro round_div_mono) auto
  with b show "100 \<le> round_div (sz * 100) (fst (size_unit sz))" by (simp add: round_div_exact)
  assume "sz < ONE_PB"
  then have "round_div (sz * 100) (fst (size_unit sz))
      \<le> round_div (102400 * fst (size_unit sz)) (fst (size_unit sz))"
    using b by (intro round_div_mono) auto
  with b show "round_div (sz * 100) (fst (size_unit sz)) \<le> 102400" by (simp add: round_div_exact)
qed

lemma sizeFormat_bytes: "0 < sz \<Longrightarrow> sz < ONE_KB \<Longrightarrow> sizeFormat sz = int_str sz @ '' B''"
  using round_div_exact [of 1 sz] by (simp add: sizeFormat_def js_toFixed_def decimal_def)

section \<open>Processor speed and time\<close>

text \<open>The speed is \<open>n / d\<close> MHz.\<close>

definition cpuSpeedFormat :: "int \<Rightarrow> int \<Rightarrow> string" where
  "cpuSpeedFormat n d = (if n > 1000 * d then js_toFixed 2 n (1000 * d) @ '' GHz''
     else js_toFixed 2 n d @ '' MHz'')"

definition cpuCoreFormat :: "int \<Rightarrow> string" where
  "cpuCoreFormat cores = (if cores = 1 then ''1 Core'' else int_str cores @ '' Cores'')"

definition formatSecond :: "int \<Rightarrow> string" where
  "formatSecond second =
     (if second < 60 then js_toFixed 0 second 1 @ ''s''
      else if second < 3600 then js_toFixed 0 second 60 @ ''m''
      else if second < 3600 * 24 then js_toFixed 0 second 3600 @ ''h''
      else let day = second div (3600 * 24);
               remain = round_div (second - day * 24 * 3600) 3600
           in int_str day @ ''d'' @ (if remain > 0 then '' '' @ int_str remain @ ''h'' else []))"

section \<open>Numbers\<close>

definition addZero :: "int \<Rightarrow> string" where
  "addZero num = (if num < 10 then ''0'' @ int_str num else int_str num)"

text \<open>\<open>NumberFormatter.toFixed\<close>: the digits after the \<open>n\<close>th are cut off.\<close>

definition number_toFixed :: "rat \<Rightarrow> nat \<Rightarrow> rat" where
  "number_toFixed num n =
     (let k = 10 ^ n in to_double (of_int \<lfloor>to_double (num * k)\<rfloor> / k))"

text \<open>The traffic quota of a client, as every client class reads and writes it: bytes inside, and
  gigabytes in the form. What is written is a whole number.\<close>

definition quota_get :: "int \<Rightarrow> rat" where
  "quota_get totalGB = number_toFixed (to_double (of_int totalGB / of_int ONE_GB)) 2"

definition quota_set :: "rat \<Rightarrow> int" where
  "quota_set gb = \<lfloor>number_toFixed (to_double (gb * of_int ONE_GB)) 0\<rfloor>"

lemma giga: "(of_int ONE_GB :: rat) = 2 ^ 30"
  by (simp add: size_units)

text \<open>The quotas the form is for are far below \<open>2 ^ 18\<close> gigabytes; up to there every product is exact,
  and the only rounding left is that of the hundredths that are shown.\<close>

lemma quota_set_bytes:
  assumes "is_double gb" "0 \<le> gb" "gb < 2 ^ 18"
  shows "quota_set gb = \<lfloor>gb * 2 ^ 30\<rfloor>" "0 \<le> \<lfloor>gb * 2 ^ 30\<rfloor>" "\<lfloor>gb * 2 ^ 30\<rfloor> < 2 ^ 48"
proof -
  let ?T = "\<lfloor>gb * 2 ^ 30\<rfloor>"
  have "gb * 2 ^ 30 < 2 ^ 18 * 2 ^ 30" using assms(3) by simp
  then show T: "0 \<le> ?T" "?T < 2 ^ 48" using assms(2) by (simp_all add: floor_less_iff)
  have "to_double (gb * 2 ^ 30) = gb * 2 ^ 30" using is_double_scaled [OF assms(1), of 30] by simp
  moreover have "to_double (of_int ?T) = of_int ?T" using T by (intro to_double_int) simp
  ultimately show "quota_set gb = ?T" by (simp add: quota_set_def number_toFixed_def giga)
qed

lemma quota_get_hundredths:
  assumes "0 \<le> T" "T < 2 ^ 48"
  shows "quota_get T = to_double (of_int (100 * T div 2 ^ 30) / 100)"
proof -
  have "(2 :: rat) powi (- 30) = 1 / 2 ^ 30" "(2 :: rat) powi (- 28) = 1 / 2 ^ 28"
    by (simp_all add: power_int_def power_divide power_inverse)
  note powi = this
  have "to_double (of_int T * 2 powi (- 30)) = of_int T * 2 powi (- 30)"
    using assms by (intro to_double_exact) simp
  then have one: "to_double (of_int T / 2 ^ 30) = of_int T / 2 ^ 30" by (simp add: powi)
  have "to_double (of_int (25 * T) * 2 powi (- 28)) = of_int (25 * T) * 2 powi (- 28)"
    using assms by (intro to_double_exact) simp
  moreover have "of_int (25 * T) * 2 powi (- 28) = (of_int T / 2 ^ 30 * 10 ^ 2 :: rat)" by (simp add: powi)
  ultimately have two: "to_double (of_int T / 2 ^ 30 * 10 ^ 2) = of_int T / 2 ^ 30 * 10 ^ 2" by simp
  have "(of_int T / 2 ^ 30 * 10 ^ 2 :: rat) = of_int (100 * T) / of_int (2 ^ 30)" by simp
  then have "\<lfloor>of_int T / 2 ^ 30 * 10 ^ 2 :: rat\<rfloor> = 100 * T div 2 ^ 30" by (simp only: floor_divide_of_int_eq)
  then show ?thesis unfolding quota_get_def number_toFixed_def Let_def giga one two by simp
qed

lemma div_giga: "x div 2 ^ 30 * 2 ^ 30 \<le> x" "x < (x div 2 ^ 30 + 1) * (2 ^ 30 :: int)"
proof -
  have "x = 2 ^ 30 * (x div 2 ^ 30) + x mod 2 ^ 30" "0 \<le> x mod 2 ^ 30" "x mod 2 ^ 30 < 2 ^ 30" by simp_all
  then show "x div 2 ^ 30 * 2 ^ 30 \<le> x" "x < (x div 2 ^ 30 + 1) * (2 ^ 30 :: int)"
    by (simp_all only: distrib_right distrib_left mult.commute [of _ "2 ^ 30"] mult_1_right mult_1)
qed

text \<open>The hundredths a number of whole bytes holds.\<close>

lemma quota_hundredths:
  fixes gb :: rat
  defines "h \<equiv> \<lfloor>gb * 100\<rfloor>" and "n \<equiv> 100 * \<lfloor>gb * 2 ^ 30\<rfloor> div 2 ^ 30"
  shows "n = (if of_int \<lceil>of_int h * 2 ^ 30 / 100 :: rat\<rceil> \<le> gb * 2 ^ 30 then h else h - 1)"
proof -
  let ?T = "\<lfloor>gb * 2 ^ 30\<rfloor>"
  have T: "of_int ?T \<le> gb * 2 ^ 30" "gb * 2 ^ 30 < of_int ?T + 1" by linarith+
  have h: "of_int h \<le> gb * 100" "gb * 100 < of_int h + 1" unfolding h_def by linarith+
  have n: "n * 2 ^ 30 \<le> 100 * ?T" "100 * ?T < (n + 1) * 2 ^ 30"
    unfolding n_def by (rule div_giga)+
  have top: "n \<le> h"
  proof -
    have "(of_int (n * 2 ^ 30) :: rat) \<le> of_int (100 * ?T)" using n(1) by (simp only: of_int_le_iff)
    then have "of_int n * 2 ^ 30 \<le> 100 * (of_int ?T :: rat)" by simp
    then have "of_int n * 2 ^ 30 \<le> gb * 100 * 2 ^ 30" using T(1) by linarith
    then have "of_int n \<le> gb * 100" by simp
    then show ?thesis unfolding h_def by (simp only: le_floor_iff)
  qed
  have low: "h - 1 \<le> n"
  proof -
    have "(of_int (100 * ?T) :: rat) < of_int ((n + 1) * 2 ^ 30)" using n(2) by (simp only: of_int_less_iff)
    then have "100 * (of_int ?T :: rat) < of_int (n + 1) * 2 ^ 30" by simp
    then have "gb * 100 * 2 ^ 30 < of_int (n + 1) * 2 ^ 30 + 100" using T(2) by linarith
    then have "of_int h < (of_int (n + 2) :: rat)" using h(1) by simp
    then show ?thesis by (simp only: of_int_less_iff)
  qed
  have "n = h \<longleftrightarrow> h * 2 ^ 30 \<le> 100 * ?T" using n top low by (auto simp: mult.commute)
  also have "\<dots> \<longleftrightarrow> of_int h * 2 ^ 30 / 100 \<le> (of_int ?T :: rat)"
  proof -
    have "h * 2 ^ 30 \<le> 100 * ?T \<longleftrightarrow> (of_int (h * 2 ^ 30) :: rat) \<le> of_int (100 * ?T)" by (simp only: of_int_le_iff)
    also have "\<dots> \<longleftrightarrow> of_int h * 2 ^ 30 \<le> 100 * (of_int ?T :: rat)"
      by (simp only: of_int_mult of_int_power of_int_numeral)
    finally show ?thesis by (simp only: pos_divide_le_eq zero_less_numeral mult.commute [of 100])
  qed
  also have "\<dots> \<longleftrightarrow> of_int \<lceil>of_int h * 2 ^ 30 / 100 :: rat\<rceil> \<le> gb * 2 ^ 30"
    by (simp only: ceiling_le_iff [symmetric] le_floor_iff)
  finally show ?thesis using top low by auto
qed

text \<open>A typed number of hundredths that is no multiple of a quarter is not a whole number of bytes.\<close>

lemma hundredths_bytes:
  fixes g :: int
  assumes "\<not> 25 dvd g"
  shows "100 * (g * 2 ^ 28 div 25) div 2 ^ 30 = g - 1" "1 \<le> g * 2 ^ 28 mod 25"
proof -
  let ?t = "g * 2 ^ 28 div 25"
  have t: "g * 2 ^ 28 = 25 * ?t + g * 2 ^ 28 mod 25" by simp
  have "g * 2 ^ 28 mod 25 \<noteq> 0"
  proof
    assume "g * 2 ^ 28 mod 25 = 0"
    then have "25 dvd g * 2 ^ 28" by (simp add: mod_eq_0_iff_dvd)
    then have "25 dvd 25 * (g * 10737418) - g * 2 ^ 28" by (intro dvd_diff) simp_all
    then have "25 dvd 6 * g" by (simp add: algebra_simps)
    then have "25 dvd 25 * g - 4 * (6 * g)" by (rule dvd_diff [OF dvd_triv_left dvd_mult])
    moreover have "25 * g - 4 * (6 * g) = g" by simp
    ultimately show False using assms by (simp only:)
  qed
  moreover have "0 \<le> g * 2 ^ 28 mod 25" "g * 2 ^ 28 mod 25 < 25" by simp_all
  ultimately have r: "1 \<le> g * 2 ^ 28 mod 25" "g * 2 ^ 28 mod 25 < 25" by linarith+
  then show "1 \<le> g * 2 ^ 28 mod 25" by simp
  have "100 * ?t = 2 ^ 30 * (g - 1) + (2 ^ 30 - 4 * (g * 2 ^ 28 mod 25))"
  proof -
    have four: "4 * (25 * d) = 2 ^ 30 * (g - 1) + (2 ^ 30 - 4 * r)" if "g * 2 ^ 28 = 25 * d + r" for d r
      using that by simp
    from four [OF t] show ?thesis by (simp only: mult.assoc [symmetric])
  qed
  then show "100 * ?t div 2 ^ 30 = g - 1"
    by (rule int_div_pos_eq) (use r in simp_all)
qed

lemma typed_hundredths:
  fixes gb :: rat and g :: int
  assumes gb: "gb = to_double (of_int g / 100)" and range: "0 \<le> gb" "gb < 2 ^ 18"
  shows "100 * \<lfloor>gb * 2 ^ 30\<rfloor> div 2 ^ 30 = (if 25 dvd g then g else g - 1)"
proof -
  have err: "\<bar>gb - of_int g / 100\<bar> \<le> \<bar>of_int g / 100\<bar> / 2 ^ 53" unfolding gb by (rule to_double_error)
  have g: "\<bar>of_int g / 100 :: rat\<bar> \<le> 2 ^ 18 + 1" using err range by (simp add: abs_if field_simps split: if_splits)
  show ?thesis
  proof (cases "25 dvd g")
  case True
  then obtain q where q: "g = 25 * q" by blast
  have "(of_int \<bar>q\<bar> :: rat) \<le> of_int (2 ^ 53)" using g by (simp add: q)
  then have "to_double (of_int q * 2 powi (- 2)) = of_int q * 2 powi (- 2)"
    by (intro to_double_exact) (simp only: of_int_le_iff)
  moreover have "(of_int q * 2 powi (- 2) :: rat) = of_int g / 100" by (simp add: q power_int_minus)
  ultimately have "gb * 2 ^ 30 = of_int (q * 2 ^ 28)" by (simp add: gb q)
  then have "\<lfloor>gb * 2 ^ 30\<rfloor> = q * 2 ^ 28" by (simp only: floor_of_int)
  with q show ?thesis by simp
next
  case False
  have "gb * 2 ^ 30 - of_int g * 2 ^ 28 / 25 = (gb - of_int g / 100) * 2 ^ 30" by (simp add: field_simps)
  then have "\<bar>gb * 2 ^ 30 - of_int g * 2 ^ 28 / 25\<bar> = \<bar>gb - of_int g / 100\<bar> * 2 ^ 30" by (simp only: abs_mult) simp
  also have "\<dots> \<le> (2 ^ 18 + 1) / 2 ^ 53 * 2 ^ 30" using err g by (intro mult_right_mono) simp_all
  also have "\<dots> < 1 / 25" by simp
  finally have close: "\<bar>gb * 2 ^ 30 - of_int g * 2 ^ 28 / 25\<bar> < 1 / 25" .
  let ?t = "g * 2 ^ 28 div 25" and ?r = "g * 2 ^ 28 mod 25"
  have "(of_int (g * 2 ^ 28) :: rat) = of_int (25 * ?t + ?r)" by (simp only: mult_div_mod_eq)
  then have "of_int g * 2 ^ 28 = (25 * of_int ?t + of_int ?r :: rat)"
    by (simp only: of_int_mult of_int_add of_int_power of_int_numeral)
  then have "of_int g * 2 ^ 28 / 25 = (of_int ?t + of_int ?r / 25 :: rat)" by linarith
  moreover define v where "v = gb * 2 ^ 30"
  moreover have "1 \<le> (of_int ?r :: rat)" using hundredths_bytes(2) [OF False] by (simp only: of_int_1_le_iff)
  moreover have "(of_int ?r :: rat) \<le> of_int 24" by (simp only: of_int_le_iff)
  ultimately have "of_int ?t \<le> gb * 2 ^ 30" "gb * 2 ^ 30 < of_int ?t + 1"
    using close unfolding v_def [symmetric] abs_less_iff of_int_numeral by linarith+
  then have "\<lfloor>gb * 2 ^ 30\<rfloor> = ?t" by (simp add: floor_eq_iff)
  then show ?thesis using hundredths_bytes(1) [OF False] False by simp
qed
qed

section \<open>Colours\<close>

text \<open>\<open>None\<close> is \<open>null\<close>.\<close>

definition usageColor :: "int option \<Rightarrow> int \<Rightarrow> int \<Rightarrow> string" where
  "usageColor data threshold tot = (case data of
     None \<Rightarrow> ''purple''
   | Some d \<Rightarrow>
       if tot < 0 then ''green''
       else if tot = 0 then ''purple''
       else if d < tot - threshold then ''green''
       else if d < tot then ''orange''
       else ''red'')"

record client_stats =
  st_up :: int
  st_down :: int
  st_total :: int

definition clientUsageColor :: "client_stats option \<Rightarrow> int \<Rightarrow> string" where
  "clientUsageColor clientStats trafficDiff = (case clientStats of
     None \<Rightarrow> ''#7a316f''
   | Some s \<Rightarrow>
       if st_total s = 0 then ''#7a316f''
       else if st_up s + st_down s < st_total s - trafficDiff then ''#008771''
       else if st_up s + st_down s < st_total s then ''#f37b24''
       else ''#cf3c3c'')"

definition userExpiryColor :: "int \<Rightarrow> int \<Rightarrow> bool \<Rightarrow> int option \<Rightarrow> bool \<Rightarrow> string" where
  "userExpiryColor now threshold enable expiry isDark =
     (if \<not> enable then (if isDark then ''#2c3950'' else ''#bcbcbc'')
      else case expiry of
        None \<Rightarrow> ''#7a316f''
      | Some e \<Rightarrow>
          if e < 0 then ''#008771''
          else if e = 0 then ''#7a316f''
          else if now < e - threshold then ''#008771''
          else if now < e then ''#f37b24''
          else ''#cf3c3c'')"

text \<open>The rank of a traffic-light colour.\<close>

definition color_rank :: "string \<Rightarrow> nat" where
  "color_rank c = (if c \<in> {''green'', ''#008771''} then 1
     else if c \<in> {''orange'', ''#f37b24''} then 2
     else if c \<in> {''red'', ''#cf3c3c''} then 3 else 0)"

section \<open>Arrays\<close>

text \<open>\<open>includes\<close> compares by identity, which on primitive values is equality.\<close>

definition doAllItemsExist :: "jsval list \<Rightarrow> jsval list \<Rightarrow> bool" where
  "doAllItemsExist array1 array2 = list_all (\<lambda>item. item \<in> set array2) array1"

end
