(* ===== verification/Clients.thy ===== *)
theory Clients
  imports Json_Codec Formatters
begin

text \<open>
  The clients of the multi-user protocols (\<open>Inbound.ClientBase\<close> and the client classes of
  \<open>web/assets/js/model/inbound.js\<close>). A constructor fills a missing field with a random
  value; \<open>client_draw\<close> holds what one constructor call draws. \<open>client_class\<close> is the contract
  the settings classes rely on: a saved client is read back whatever the generator draws,
  so nothing identifying a user (id, password, e-mail, subscription id) changes on a save.
\<close>

section \<open>What a constructor draws\<close>

record client_draw =
  draw_email :: string
  draw_subId :: string
  draw_id :: string
  draw_password :: string

text \<open>An identifier the generator draws is never empty.\<close>

definition draw_ok :: "client_draw \<Rightarrow> bool" where
  "draw_ok d \<longleftrightarrow> draw_id d \<noteq> []"

section \<open>The contract of a client class\<close>

text \<open>\<open>clients.map(client => Client.fromJson(client))\<close>: the \<open>i\<close>th client gets the \<open>i\<close>th draw.\<close>

fun read_clients ::
  "(client_draw \<Rightarrow> jsval \<Rightarrow> 'a option) \<Rightarrow> (nat \<Rightarrow> client_draw) \<Rightarrow> jsval list \<Rightarrow> 'a list option" where
  "read_clients dec r [] = Some []"
| "read_clients dec r (c # cs) = do {
     x \<leftarrow> dec (r 0) c;
     xs \<leftarrow> read_clients dec (\<lambda>i. r (Suc i)) cs;
     Some (x # xs) }"

locale client_class =
  fixes enc :: "'a \<Rightarrow> jsval"
    and dec :: "client_draw \<Rightarrow> jsval \<Rightarrow> 'a option"
    and ok :: "'a \<Rightarrow> bool"
  assumes dec_ok: "\<lbrakk>json_ok j; draw_ok d; dec d j = Some x\<rbrakk> \<Longrightarrow> ok x"
    and reload: "ok x \<Longrightarrow>
      \<exists>y. (\<forall>d. dec d (wire (enc x)) = Some y) \<and> ok y \<and> wire (enc y) = wire (enc x)"
    and enc_defined: "enc x \<noteq> JUndef"
begin

lemma read_ok:
  "\<lbrakk>\<forall>j \<in> set js. json_ok j; \<forall>i. draw_ok (r i); read_clients dec r js = Some xs\<rbrakk> \<Longrightarrow>
   \<forall>x \<in> set xs. ok x"
proof (induction js arbitrary: r xs)
  case Nil
  then show ?case by simp
next
  case (Cons j js)
  then obtain y ys where "dec (r 0) j = Some y" "xs = y # ys"
    and ys: "read_clients dec (\<lambda>i. r (Suc i)) js = Some ys"
    by (auto simp: bind_eq_Some_conv)
  with Cons.prems Cons.IH [OF _ _ ys] dec_ok [of j "r 0" y] show ?case by auto
qed

lemma reload_list:
  "\<forall>x \<in> set xs. ok x \<Longrightarrow>
   \<exists>ys. (\<forall>r. read_clients dec r (map wire (map enc xs)) = Some ys) \<and> (\<forall>y \<in> set ys. ok y)
     \<and> map wire (map enc ys) = map wire (map enc xs)"
proof (induction xs)
  case Nil
  then show ?case by simp
next
  case (Cons x xs)
  with reload [of x] obtain y ys where
    "\<forall>d. dec d (wire (enc x)) = Some y" "ok y" "wire (enc y) = wire (enc x)"
    "\<forall>r. read_clients dec r (map wire (map enc xs)) = Some ys" "\<forall>y \<in> set ys. ok y"
    "map wire (map enc ys) = map wire (map enc xs)" by auto
  then show ?case by (intro exI [of _ "y # ys"]) auto
qed

lemma wire_clients: "wire_items (map enc xs) = map wire (map enc xs)"
  using enc_defined by (induction xs) auto

end

text \<open>The stronger contract most classes keep: the very same client comes back.\<close>

locale client_codec =
  fixes enc :: "'a \<Rightarrow> jsval"
    and dec :: "client_draw \<Rightarrow> jsval \<Rightarrow> 'a option"
    and ok :: "'a \<Rightarrow> bool"
  assumes codec_ok: "\<lbrakk>json_ok j; draw_ok d; dec d j = Some x\<rbrakk> \<Longrightarrow> ok x"
    and exact: "ok x \<Longrightarrow> dec d (wire (enc x)) = Some x"
    and codec_defined: "enc x \<noteq> JUndef"
begin

lemma exact_list:
  "\<forall>x \<in> set xs. ok x \<Longrightarrow> read_clients dec r (map wire (map enc xs)) = Some xs"
  by (induction xs arbitrary: r) (auto simp: exact)

lemma distinct_saved: "\<lbrakk>ok x; ok y; wire (enc x) = wire (enc y)\<rbrakk> \<Longrightarrow> x = y"
  by (metis exact option.inject)

end

sublocale client_codec \<subseteq> client_class
  by unfold_locales (use codec_ok exact codec_defined in auto)

section \<open>The shared fields\<close>

record ClientBase =
  cb_email :: jsval
  cb_limitIp :: jsval
  cb_totalGB :: jsval
  cb_expiryTime :: jsval
  cb_enable :: jsval
  cb_tgId :: jsval
  cb_subId :: jsval
  cb_comment :: jsval
  cb_reset :: jsval
  cb_created_at :: jsval
  cb_updated_at :: jsval

text \<open>The arguments are spread from an array; one that is missing is \<open>undefined\<close>.\<close>

definition arg :: "nat \<Rightarrow> jsval list \<Rightarrow> jsval" where
  "arg n args = (if n < length args then args ! n else JUndef)"

definition ClientBase_new :: "client_draw \<Rightarrow> jsval list \<Rightarrow> ClientBase" where
  "ClientBase_new r args =
     \<lparr>cb_email = dflt (JStr (draw_email r)) (arg 0 args), cb_limitIp = dflt (JNum 0) (arg 1 args),
       cb_totalGB = dflt (JNum 0) (arg 2 args), cb_expiryTime = dflt (JNum 0) (arg 3 args),
       cb_enable = dflt (JBool True) (arg 4 args), cb_tgId = dflt (JStr []) (arg 5 args),
       cb_subId = dflt (JStr (draw_subId r)) (arg 6 args), cb_comment = dflt (JStr []) (arg 7 args),
       cb_reset = dflt (JNum 0) (arg 8 args), cb_created_at = arg 9 args,
       cb_updated_at = arg 10 args\<rparr>"

definition commonArgsFromJson :: "(string \<Rightarrow> jsval) \<Rightarrow> jsval list" where
  "commonArgsFromJson json =
     [json ''email'', json ''limitIp'', json ''totalGB'', json ''expiryTime'', json ''enable'',
      json ''tgId'', json ''subId'', json ''comment'', json ''reset'', json ''created_at'',
      json ''updated_at'']"

definition clientBaseToJson :: "'a ClientBase_scheme \<Rightarrow> props" where
  "clientBaseToJson this =
     [(''email'', cb_email this), (''limitIp'', cb_limitIp this), (''totalGB'', cb_totalGB this),
      (''expiryTime'', cb_expiryTime this), (''enable'', cb_enable this), (''tgId'', cb_tgId this),
      (''subId'', cb_subId this), (''comment'', cb_comment this), (''reset'', cb_reset this),
      (''created_at'', cb_created_at this), (''updated_at'', cb_updated_at this)]"

subsection \<open>Expiry and quota as the form shows them\<close>

text \<open>A negative time is a delay in milliseconds from the first use, shown in days; the form
  passes \<open>null\<close>, an empty string, a number or a date, whose \<open>valueOf\<close> is its time stamp.\<close>

datatype expiry_view = NoExpiry | DaysAfterFirstUse int | ExpiresAt jsval

definition expiry_get :: "jsval \<Rightarrow> expiry_view" where
  "expiry_get v =
     (if v = JNum 0 \<or> v = JStr [] then NoExpiry
      else case js_number v of
        Some n \<Rightarrow> if n < 0 then DaysAfterFirstUse n else ExpiresAt v
      | None \<Rightarrow> ExpiresAt v)"

definition expiry_set :: "jsval \<Rightarrow> jsval" where
  "expiry_set t = (if nullish t \<or> t = JStr [] then JNum 0 else t)"

definition get_expiryTime :: "'a ClientBase_scheme \<Rightarrow> expiry_view" where
  "get_expiryTime this = expiry_get (cb_expiryTime this)"

definition set_expiryTime :: "jsval \<Rightarrow> 'a ClientBase_scheme \<Rightarrow> 'a ClientBase_scheme" where
  "set_expiryTime t this = this\<lparr>cb_expiryTime := expiry_set t\<rparr>"

text \<open>The quota in gigabytes; \<open>None\<close> is \<open>NaN\<close>.\<close>

definition get_totalGB :: "'a ClientBase_scheme \<Rightarrow> rat option" where
  "get_totalGB this = map_option quota_get (js_number (cb_totalGB this))"

definition set_totalGB :: "rat \<Rightarrow> 'a ClientBase_scheme \<Rightarrow> 'a ClientBase_scheme" where
  "set_totalGB gb this = this\<lparr>cb_totalGB := JNum (quota_set gb)\<rparr>"

definition ClientBase_ok :: "'a ClientBase_scheme \<Rightarrow> bool" where
  "ClientBase_ok x \<longleftrightarrow> json_ok (cb_email x) \<and> json_ok (cb_limitIp x) \<and> json_ok (cb_totalGB x)
     \<and> json_ok (cb_expiryTime x) \<and> json_ok (cb_enable x) \<and> json_ok (cb_tgId x)
     \<and> json_ok (cb_subId x) \<and> json_ok (cb_comment x) \<and> json_ok (cb_reset x)
     \<and> clean (cb_created_at x) \<and> clean (cb_updated_at x)"

lemmas ClientBase_defs = ClientBase_new_def commonArgsFromJson_def clientBaseToJson_def
  ClientBase_ok_def arg_def

lemma json_reader: "\<lbrakk>json_ok j; members j = Some json\<rbrakk> \<Longrightarrow> clean (json k)"
  by (rule clean_members) (simp_all add: clean_json_ok)

section \<open>VMess clients\<close>

record VMESS = ClientBase +
  vmess_id :: jsval
  vmess_security :: jsval

definition VMESS_new :: "client_draw \<Rightarrow> jsval \<Rightarrow> jsval \<Rightarrow> jsval list \<Rightarrow> VMESS" where
  "VMESS_new r id0 security0 args = ClientBase.extend (ClientBase_new r args)
     (VMESS.fields (dflt (JStr (draw_id r)) id0) (dflt (JStr ''auto'') security0))"

definition VMESS_fromJson :: "client_draw \<Rightarrow> jsval \<Rightarrow> VMESS option" where
  "VMESS_fromJson r json0 = do {
     json \<leftarrow> members (dflt emptyObj json0);
     Some (VMESS_new r (json ''id'') (json ''security'') (commonArgsFromJson json)) }"

definition VMESS_toJson :: "VMESS \<Rightarrow> jsval" where
  "VMESS_toJson this = JObj
     ([(''id'', vmess_id this), (''security'', vmess_security this)] @ clientBaseToJson this)"

definition VMESS_ok :: "VMESS \<Rightarrow> bool" where
  "VMESS_ok x \<longleftrightarrow> ClientBase_ok x \<and> json_ok (vmess_id x) \<and> json_ok (vmess_security x)"

lemmas VMESS_class_defs = VMESS_new_def VMESS_fromJson_def VMESS_toJson_def VMESS_ok_def ClientBase.defs VMESS.defs
  ClientBase_defs

interpretation vmess_client: client_codec VMESS_toJson VMESS_fromJson VMESS_ok
  by unfold_locales
    (auto simp: VMESS_class_defs bind_eq_Some_conv json_ok_dflt json_reader members_wire wire_clean
      clean_json_ok simp del: wire.simps)

section \<open>Trojan clients\<close>

record Trojan = ClientBase +
  trojan_password :: jsval

definition Trojan_new :: "client_draw \<Rightarrow> jsval \<Rightarrow> jsval list \<Rightarrow> Trojan" where
  "Trojan_new r password0 args = ClientBase.extend (ClientBase_new r args)
     (Trojan.fields (dflt (JStr (draw_password r)) password0))"

definition Trojan_fromJson :: "client_draw \<Rightarrow> jsval \<Rightarrow> Trojan option" where
  "Trojan_fromJson r json0 = do {
     json \<leftarrow> members (dflt emptyObj json0);
     Some (Trojan_new r (json ''password'') (commonArgsFromJson json)) }"

definition Trojan_toJson :: "Trojan \<Rightarrow> jsval" where
  "Trojan_toJson this = JObj
     ([(''password'', trojan_password this)] @ clientBaseToJson this)"

definition Trojan_ok :: "Trojan \<Rightarrow> bool" where
  "Trojan_ok x \<longleftrightarrow> ClientBase_ok x \<and> json_ok (trojan_password x)"

lemmas Trojan_class_defs = Trojan_new_def Trojan_fromJson_def Trojan_toJson_def Trojan_ok_def ClientBase.defs Trojan.defs
  ClientBase_defs

interpretation trojan_client: client_codec Trojan_toJson Trojan_fromJson Trojan_ok
  by unfold_locales
    (auto simp: Trojan_class_defs bind_eq_Some_conv json_ok_dflt json_reader members_wire wire_clean
      clean_json_ok simp del: wire.simps)

section \<open>Shadowsocks clients\<close>

record Shadowsocks = ClientBase +
  ssc_method :: jsval
  ssc_password :: jsval

definition Shadowsocks_new :: "client_draw \<Rightarrow> jsval \<Rightarrow> jsval \<Rightarrow> jsval list \<Rightarrow> Shadowsocks" where
  "Shadowsocks_new r method0 password0 args = ClientBase.extend (ClientBase_new r args)
     (Shadowsocks.fields (dflt (JStr []) method0) (dflt (JStr (draw_password r)) password0))"

definition Shadowsocks_fromJson :: "client_draw \<Rightarrow> jsval \<Rightarrow> Shadowsocks option" where
  "Shadowsocks_fromJson r json0 = do {
     json \<leftarrow> members (dflt emptyObj json0);
     Some (Shadowsocks_new r (json ''method'') (json ''password'') (commonArgsFromJson json)) }"

definition Shadowsocks_toJson :: "Shadowsocks \<Rightarrow> jsval" where
  "Shadowsocks_toJson this = JObj
     ([(''method'', ssc_method this), (''password'', ssc_password this)] @ clientBaseToJson this)"

definition Shadowsocks_ok :: "Shadowsocks \<Rightarrow> bool" where
  "Shadowsocks_ok x \<longleftrightarrow> ClientBase_ok x \<and> json_ok (ssc_method x) \<and> json_ok (ssc_password x)"

lemmas Shadowsocks_class_defs = Shadowsocks_new_def Shadowsocks_fromJson_def Shadowsocks_toJson_def Shadowsocks_ok_def ClientBase.defs Shadowsocks.defs
  ClientBase_defs

interpretation ss_client: client_codec Shadowsocks_toJson Shadowsocks_fromJson Shadowsocks_ok
  by unfold_locales
    (auto simp: Shadowsocks_class_defs bind_eq_Some_conv json_ok_dflt json_reader members_wire wire_clean
      clean_json_ok simp del: wire.simps)

section \<open>Hysteria clients\<close>

record Hysteria = ClientBase +
  hyc_auth :: jsval

definition Hysteria_new :: "client_draw \<Rightarrow> jsval \<Rightarrow> jsval list \<Rightarrow> Hysteria" where
  "Hysteria_new r auth0 args = ClientBase.extend (ClientBase_new r args)
     (Hysteria.fields (dflt (JStr (draw_password r)) auth0))"

definition Hysteria_fromJson :: "client_draw \<Rightarrow> jsval \<Rightarrow> Hysteria option" where
  "Hysteria_fromJson r json0 = do {
     json \<leftarrow> members (dflt emptyObj json0);
     Some (Hysteria_new r (json ''auth'') (commonArgsFromJson json)) }"

definition Hysteria_toJson :: "Hysteria \<Rightarrow> jsval" where
  "Hysteria_toJson this = JObj
     ([(''auth'', hyc_auth this)] @ clientBaseToJson this)"

definition Hysteria_ok :: "Hysteria \<Rightarrow> bool" where
  "Hysteria_ok x \<longleftrightarrow> ClientBase_ok x \<and> json_ok (hyc_auth x)"

lemmas Hysteria_class_defs = Hysteria_new_def Hysteria_fromJson_def Hysteria_toJson_def Hysteria_ok_def ClientBase.defs Hysteria.defs
  ClientBase_defs

interpretation hysteria_client: client_codec Hysteria_toJson Hysteria_fromJson Hysteria_ok
  by unfold_locales
    (auto simp: Hysteria_class_defs bind_eq_Some_conv json_ok_dflt json_reader members_wire wire_clean
      clean_json_ok simp del: wire.simps)

section \<open>VLESS clients\<close>

record VLESS = ClientBase +
  vless_id :: jsval
  vless_flow :: jsval
  vless_reverseTag :: jsval

definition VLESS_new :: "client_draw \<Rightarrow> jsval \<Rightarrow> jsval \<Rightarrow> jsval \<Rightarrow> jsval list \<Rightarrow> VLESS" where
  "VLESS_new r id0 flow0 reverseTag0 args = ClientBase.extend (ClientBase_new r args)
     (VLESS.fields (dflt (JStr (draw_id r)) id0) (dflt (JStr []) flow0) (dflt (JStr []) reverseTag0))"

text \<open>\<open>json.reverse?.tag ?? ''\<close>: reading through \<open>?.\<close> does not throw.\<close>

definition VLESS_fromJson :: "client_draw \<Rightarrow> jsval \<Rightarrow> VLESS option" where
  "VLESS_fromJson r json0 = do {
     json \<leftarrow> members (dflt emptyObj json0);
     Some (VLESS_new r (json ''id'') (json ''flow'')
       (js_coalesce (mget (json ''reverse'') ''tag'') (JStr [])) (commonArgsFromJson json)) }"

definition VLESS_toJson :: "VLESS \<Rightarrow> jsval" where
  "VLESS_toJson this = JObj
     ([(''id'', vless_id this), (''flow'', vless_flow this)] @ clientBaseToJson this
      @ (if truthy (vless_reverseTag this)
         then [(''reverse'', JObj [(''tag'', vless_reverseTag this)])] else []))"

definition VLESS_ok :: "VLESS \<Rightarrow> bool" where
  "VLESS_ok x \<longleftrightarrow> ClientBase_ok x \<and> json_ok (vless_id x) \<and> json_ok (vless_flow x)
     \<and> json_ok (vless_reverseTag x)"

lemmas VLESS_class_defs = VLESS_new_def VLESS_fromJson_def VLESS_toJson_def VLESS_ok_def
  ClientBase.defs VLESS.defs ClientBase_defs

lemma truthy_not_nullish: "truthy v \<Longrightarrow> js_coalesce v d = v"
  by (cases v) (auto simp: js_coalesce_def nullish_def)

interpretation vless_client: client_class VLESS_toJson VLESS_fromJson VLESS_ok
proof unfold_locales
  show "\<lbrakk>json_ok j; draw_ok d; VLESS_fromJson d j = Some x\<rbrakk> \<Longrightarrow> VLESS_ok x" for j d x
    by (auto simp: VLESS_class_defs bind_eq_Some_conv json_ok_dflt json_reader clean_json_ok
        json_ok_coalesce clean_mget)
  show "VLESS_toJson x \<noteq> JUndef" for x by (simp add: VLESS_toJson_def)
  fix x
  assume ok: "VLESS_ok x"
  show "\<exists>y. (\<forall>d. VLESS_fromJson d (wire (VLESS_toJson x)) = Some y) \<and> VLESS_ok y
      \<and> wire (VLESS_toJson y) = wire (VLESS_toJson x)"
  proof (cases "truthy (vless_reverseTag x)")
    case True
    with ok show ?thesis
      by (intro exI [of _ x])
        (auto simp: VLESS_class_defs members_wire wire_clean clean_json_ok truthy_not_nullish
          simp del: wire.simps)
  next
    case False
    with ok show ?thesis
      by (intro exI [of _ "x\<lparr>vless_reverseTag := JStr []\<rparr>"])
        (auto simp: VLESS_class_defs members_wire wire_clean clean_json_ok js_coalesce_def
          nullish_def simp del: wire.simps)
  qed
qed

section \<open>MTProto clients\<close>

text \<open>The secret and the id are the server's; a new client has neither.\<close>

record MtprotoClient = ClientBase +
  mtc_secret :: jsval
  mtc_id :: jsval

definition MtprotoClient_new :: "client_draw \<Rightarrow> jsval \<Rightarrow> jsval list \<Rightarrow> MtprotoClient" where
  "MtprotoClient_new r secret args = ClientBase.extend
     (ClientBase_new r (dflt (JStr (draw_email r)) (arg 0 args) # tl args))
     (MtprotoClient.fields (dflt (JStr []) secret) (JStr []))"

definition MtprotoClient_fromJson :: "client_draw \<Rightarrow> jsval \<Rightarrow> MtprotoClient option" where
  "MtprotoClient_fromJson r json0 = do {
     json \<leftarrow> members (dflt emptyObj json0);
     let c = MtprotoClient_new r (json ''secret'') (commonArgsFromJson json);
     Some (c\<lparr>mtc_id := js_or (json ''id'') (JStr [])\<rparr>) }"

definition MtprotoClient_toJson :: "MtprotoClient \<Rightarrow> jsval" where
  "MtprotoClient_toJson this = JObj
     ([(''id'', mtc_id this), (''secret'', mtc_secret this)] @ clientBaseToJson this)"

text \<open>A field whose reader replaces a falsy value by \<open>d\<close>.\<close>

definition or_kept :: "jsval \<Rightarrow> jsval \<Rightarrow> bool" where
  "or_kept d v \<longleftrightarrow> json_ok v \<and> js_or v d = v"

lemma or_kept_or: "\<lbrakk>clean v; json_ok d\<rbrakk> \<Longrightarrow> or_kept d (js_or v d)"
  by (auto simp: or_kept_def js_or_def clean_def)

lemma or_kept_dflt_or: "\<lbrakk>clean v; json_ok d\<rbrakk> \<Longrightarrow> or_kept d (dflt e (js_or v d))"
  by (auto simp: or_kept_def js_or_def clean_def)

lemma fresh_id:
  "\<lbrakk>clean v; draw_ok r\<rbrakk> \<Longrightarrow> json_ok (dflt e (js_or v (JStr (draw_id r))))
     \<and> truthy (dflt e (js_or v (JStr (draw_id r))))"
  by (auto simp: js_or_def clean_def draw_ok_def)

lemma js_or_truthy: "truthy v \<Longrightarrow> js_or v d = v"
  by (simp add: js_or_def)

definition MtprotoClient_ok :: "MtprotoClient \<Rightarrow> bool" where
  "MtprotoClient_ok x \<longleftrightarrow> ClientBase_ok x \<and> json_ok (mtc_secret x) \<and> or_kept (JStr []) (mtc_id x)"

lemmas MtprotoClient_class_defs = MtprotoClient_new_def MtprotoClient_fromJson_def
  MtprotoClient_toJson_def MtprotoClient_ok_def ClientBase.defs MtprotoClient.defs ClientBase_defs

interpretation mtproto_client: client_codec MtprotoClient_toJson MtprotoClient_fromJson MtprotoClient_ok
proof unfold_locales
  show "\<lbrakk>json_ok j; draw_ok d; MtprotoClient_fromJson d j = Some x\<rbrakk> \<Longrightarrow> MtprotoClient_ok x" for j d x
    by (auto simp: MtprotoClient_class_defs bind_eq_Some_conv json_ok_dflt json_reader clean_json_ok
        or_kept_or)
  show "MtprotoClient_ok x \<Longrightarrow> MtprotoClient_fromJson d (wire (MtprotoClient_toJson x)) = Some x" for x d
    by (auto simp: MtprotoClient_class_defs members_wire wire_clean clean_json_ok or_kept_def
        simp del: wire.simps)
  show "MtprotoClient_toJson x \<noteq> JUndef" for x by (simp add: MtprotoClient_toJson_def)
qed

section \<open>Clients of the mixed protocol\<close>

record MixedClient =
  mxc_email :: jsval
  mxc_password :: jsval
  mxc_limitIp :: jsval
  mxc_totalGB :: jsval
  mxc_expiryTime :: jsval
  mxc_enable :: jsval
  mxc_tgId :: jsval
  mxc_subId :: jsval
  mxc_comment :: jsval
  mxc_reset :: jsval
  mxc_created_at :: jsval
  mxc_updated_at :: jsval

definition MixedClient_new ::
  "client_draw \<Rightarrow> jsval \<Rightarrow> jsval \<Rightarrow> jsval \<Rightarrow>
    jsval \<Rightarrow> jsval \<Rightarrow> jsval \<Rightarrow> jsval \<Rightarrow>
    jsval \<Rightarrow> jsval \<Rightarrow> jsval \<Rightarrow> jsval \<Rightarrow>
    jsval \<Rightarrow> MixedClient" where
  "MixedClient_new r email0 password0 limitIp0 totalGB0 expiryTime0 enable0 tgId0 subId0 comment0 reset0
     created_at0 updated_at0 =
     \<lparr>mxc_email = dflt (JStr (draw_email r)) email0,
       mxc_password = dflt (JStr (draw_password r)) password0,
       mxc_limitIp = dflt (JNum 0) limitIp0, mxc_totalGB = dflt (JNum 0) totalGB0,
       mxc_expiryTime = dflt (JNum 0) expiryTime0, mxc_enable = dflt (JBool True) enable0,
       mxc_tgId = dflt (JStr []) tgId0, mxc_subId = dflt (JStr (draw_subId r)) subId0,
       mxc_comment = dflt (JStr []) comment0, mxc_reset = dflt (JNum 0) reset0,
       mxc_created_at = created_at0, mxc_updated_at = updated_at0\<rparr>"

definition MixedClient_fromJson :: "client_draw \<Rightarrow> jsval \<Rightarrow> MixedClient option" where
  "MixedClient_fromJson r json0 = do {
     json \<leftarrow> members (dflt emptyObj json0);
     Some (MixedClient_new r
       (json ''email'') (json ''password'') (json ''limitIp'') (json ''totalGB'')
       (json ''expiryTime'') (dflt (JBool True) (json ''enable'')) (json ''tgId'')
       (json ''subId'') (json ''comment'') (json ''reset'') (json ''created_at'')
       (json ''updated_at'')) }"

definition MixedClient_toJson :: "MixedClient \<Rightarrow> jsval" where
  "MixedClient_toJson this = JObj
     [(''email'', mxc_email this), (''password'', mxc_password this),
      (''limitIp'', mxc_limitIp this), (''totalGB'', mxc_totalGB this),
      (''expiryTime'', mxc_expiryTime this), (''enable'', mxc_enable this),
      (''tgId'', mxc_tgId this), (''subId'', mxc_subId this),
      (''comment'', mxc_comment this), (''reset'', mxc_reset this),
      (''created_at'', mxc_created_at this), (''updated_at'', mxc_updated_at this)]"

definition MixedClient_get_expiryTime :: "MixedClient \<Rightarrow> jsval option" where
  "MixedClient_get_expiryTime this =
     (if mxc_expiryTime this = JNum 0 then None else Some (mxc_expiryTime this))"

definition MixedClient_set_expiryTime :: "jsval \<Rightarrow> MixedClient \<Rightarrow> MixedClient" where
  "MixedClient_set_expiryTime t this =
     this\<lparr>mxc_expiryTime := (if nullish t then JNum 0 else t)\<rparr>"

definition MixedClient_get_totalGB :: "MixedClient \<Rightarrow> rat option" where
  "MixedClient_get_totalGB this = map_option quota_get (js_number (mxc_totalGB this))"

definition MixedClient_set_totalGB :: "rat \<Rightarrow> MixedClient \<Rightarrow> MixedClient" where
  "MixedClient_set_totalGB gb this = this\<lparr>mxc_totalGB := JNum (quota_set gb)\<rparr>"

definition MixedClient_ok :: "MixedClient \<Rightarrow> bool" where
  "MixedClient_ok x \<longleftrightarrow> json_ok (mxc_email x) \<and> json_ok (mxc_password x) \<and>
     json_ok (mxc_limitIp x) \<and> json_ok (mxc_totalGB x) \<and>
     json_ok (mxc_expiryTime x) \<and> json_ok (mxc_enable x) \<and>
     json_ok (mxc_tgId x) \<and> json_ok (mxc_subId x) \<and> json_ok (mxc_comment x) \<and>
     json_ok (mxc_reset x) \<and> clean (mxc_created_at x) \<and> clean (mxc_updated_at x)"

lemmas MixedClient_class_defs = MixedClient_new_def MixedClient_fromJson_def MixedClient_toJson_def MixedClient_ok_def

interpretation mixed_client: client_codec MixedClient_toJson MixedClient_fromJson MixedClient_ok
  by unfold_locales
    (auto simp: MixedClient_class_defs bind_eq_Some_conv json_ok_dflt json_reader members_wire wire_clean
      clean_json_ok simp del: wire.simps)

section \<open>Clients of the HTTP protocol\<close>

record HttpClient =
  htc_email :: jsval
  htc_password :: jsval
  htc_limitIp :: jsval
  htc_totalGB :: jsval
  htc_expiryTime :: jsval
  htc_enable :: jsval
  htc_tgId :: jsval
  htc_subId :: jsval
  htc_comment :: jsval
  htc_reset :: jsval
  htc_created_at :: jsval
  htc_updated_at :: jsval

definition HttpClient_new ::
  "client_draw \<Rightarrow> jsval \<Rightarrow> jsval \<Rightarrow> jsval \<Rightarrow>
    jsval \<Rightarrow> jsval \<Rightarrow> jsval \<Rightarrow> jsval \<Rightarrow>
    jsval \<Rightarrow> jsval \<Rightarrow> jsval \<Rightarrow> jsval \<Rightarrow>
    jsval \<Rightarrow> HttpClient" where
  "HttpClient_new r email0 password0 limitIp0 totalGB0 expiryTime0 enable0 tgId0 subId0 comment0 reset0
     created_at0 updated_at0 =
     \<lparr>htc_email = dflt (JStr (draw_email r)) email0,
       htc_password = dflt (JStr (draw_password r)) password0,
       htc_limitIp = dflt (JNum 0) limitIp0, htc_totalGB = dflt (JNum 0) totalGB0,
       htc_expiryTime = dflt (JNum 0) expiryTime0, htc_enable = dflt (JBool True) enable0,
       htc_tgId = dflt (JStr []) tgId0, htc_subId = dflt (JStr (draw_subId r)) subId0,
       htc_comment = dflt (JStr []) comment0, htc_reset = dflt (JNum 0) reset0,
       htc_created_at = created_at0, htc_updated_at = updated_at0\<rparr>"

definition HttpClient_fromJson :: "client_draw \<Rightarrow> jsval \<Rightarrow> HttpClient option" where
  "HttpClient_fromJson r json0 = do {
     json \<leftarrow> members (dflt emptyObj json0);
     Some (HttpClient_new r
       (json ''email'') (json ''password'') (json ''limitIp'') (json ''totalGB'')
       (json ''expiryTime'') (dflt (JBool True) (json ''enable'')) (json ''tgId'')
       (json ''subId'') (json ''comment'') (json ''reset'') (json ''created_at'')
       (json ''updated_at'')) }"

definition HttpClient_toJson :: "HttpClient \<Rightarrow> jsval" where
  "HttpClient_toJson this = JObj
     [(''email'', htc_email this), (''password'', htc_password this),
      (''limitIp'', htc_limitIp this), (''totalGB'', htc_totalGB this),
      (''expiryTime'', htc_expiryTime this), (''enable'', htc_enable this),
      (''tgId'', htc_tgId this), (''subId'', htc_subId this),
      (''comment'', htc_comment this), (''reset'', htc_reset this),
      (''created_at'', htc_created_at this), (''updated_at'', htc_updated_at this)]"

definition HttpClient_get_expiryTime :: "HttpClient \<Rightarrow> jsval option" where
  "HttpClient_get_expiryTime this =
     (if htc_expiryTime this = JNum 0 then None else Some (htc_expiryTime this))"

definition HttpClient_set_expiryTime :: "jsval \<Rightarrow> HttpClient \<Rightarrow> HttpClient" where
  "HttpClient_set_expiryTime t this =
     this\<lparr>htc_expiryTime := (if nullish t then JNum 0 else t)\<rparr>"

definition HttpClient_get_totalGB :: "HttpClient \<Rightarrow> rat option" where
  "HttpClient_get_totalGB this = map_option quota_get (js_number (htc_totalGB this))"

definition HttpClient_set_totalGB :: "rat \<Rightarrow> HttpClient \<Rightarrow> HttpClient" where
  "HttpClient_set_totalGB gb this = this\<lparr>htc_totalGB := JNum (quota_set gb)\<rparr>"

definition HttpClient_ok :: "HttpClient \<Rightarrow> bool" where
  "HttpClient_ok x \<longleftrightarrow> json_ok (htc_email x) \<and> json_ok (htc_password x) \<and>
     json_ok (htc_limitIp x) \<and> json_ok (htc_totalGB x) \<and>
     json_ok (htc_expiryTime x) \<and> json_ok (htc_enable x) \<and>
     json_ok (htc_tgId x) \<and> json_ok (htc_subId x) \<and> json_ok (htc_comment x) \<and>
     json_ok (htc_reset x) \<and> clean (htc_created_at x) \<and> clean (htc_updated_at x)"

lemmas HttpClient_class_defs = HttpClient_new_def HttpClient_fromJson_def HttpClient_toJson_def HttpClient_ok_def

interpretation http_client: client_codec HttpClient_toJson HttpClient_fromJson HttpClient_ok
  by unfold_locales
    (auto simp: HttpClient_class_defs bind_eq_Some_conv json_ok_dflt json_reader members_wire wire_clean
      clean_json_ok simp del: wire.simps)

section \<open>AmneziaWG peers\<close>

record AwgPeer =
  awp_id :: jsval
  awp_email :: jsval
  awp_enable :: jsval
  awp_comment :: jsval
  awp_totalGB :: jsval
  awp_expiryTime :: jsval
  awp_reset :: jsval
  awp_subId :: jsval
  awp_tgId :: jsval
  awp_limitIp :: jsval
  awp_forwardedPorts :: jsval
  awp_awgId :: jsval
  awp_created_at :: jsval
  awp_updated_at :: jsval

definition AwgPeer_new ::
  "client_draw \<Rightarrow> jsval \<Rightarrow> jsval \<Rightarrow> jsval \<Rightarrow>
    jsval \<Rightarrow> jsval \<Rightarrow> jsval \<Rightarrow> jsval \<Rightarrow>
    jsval \<Rightarrow> jsval \<Rightarrow> jsval \<Rightarrow> jsval \<Rightarrow>
    jsval \<Rightarrow> jsval \<Rightarrow> jsval \<Rightarrow> AwgPeer" where
  "AwgPeer_new r id0 email0 enable0 comment0 totalGB0 expiryTime0 reset0 subId0 tgId0 limitIp0
     forwardedPorts0 awgId0 created_at0 updated_at0 =
     \<lparr>awp_id = dflt (JStr (draw_id r)) id0, awp_email = dflt (JStr (draw_email r)) email0,
       awp_enable = dflt (JBool True) enable0, awp_comment = dflt (JStr []) comment0,
       awp_totalGB = dflt (JNum 0) totalGB0, awp_expiryTime = dflt (JNum 0) expiryTime0,
       awp_reset = dflt (JNum 0) reset0, awp_subId = dflt (JStr []) subId0,
       awp_tgId = dflt (JNum 0) tgId0, awp_limitIp = dflt (JNum 0) limitIp0,
       awp_forwardedPorts = dflt (JStr []) forwardedPorts0,
       awp_awgId = dflt (JNum 0) awgId0, awp_created_at = dflt (JNum 0) created_at0,
       awp_updated_at = dflt (JNum 0) updated_at0\<rparr>"

definition AwgPeer_fromJson :: "client_draw \<Rightarrow> jsval \<Rightarrow> AwgPeer option" where
  "AwgPeer_fromJson r json0 = do {
     json \<leftarrow> members (dflt emptyObj json0);
     Some (AwgPeer_new r
       (js_or (json ''id'') (JStr (draw_id r))) (js_or (json ''email'') (JStr []))
       (dflt (JBool True) (json ''enable'')) (js_or (json ''comment'') (JStr []))
       (js_or (json ''totalGB'') (JNum 0)) (js_or (json ''expiryTime'') (JNum 0))
       (js_or (json ''reset'') (JNum 0)) (js_or (json ''subId'') (JStr []))
       (js_or (json ''tgId'') (JNum 0)) (js_or (json ''limitIp'') (JNum 0))
       (js_or (json ''forwardedPorts'') (JStr [])) (js_or (json ''_awgId'') (JNum 0))
       (js_or (json ''created_at'') (JNum 0)) (js_or (json ''updated_at'') (JNum 0))) }"

definition AwgPeer_toJson :: "AwgPeer \<Rightarrow> jsval" where
  "AwgPeer_toJson this = JObj
     [(''id'', awp_id this), (''email'', awp_email this), (''enable'', awp_enable this),
      (''comment'', awp_comment this), (''totalGB'', awp_totalGB this),
      (''expiryTime'', awp_expiryTime this), (''reset'', awp_reset this),
      (''subId'', awp_subId this), (''tgId'', awp_tgId this),
      (''limitIp'', awp_limitIp this), (''forwardedPorts'', awp_forwardedPorts this),
      (''_awgId'', awp_awgId this), (''created_at'', awp_created_at this),
      (''updated_at'', awp_updated_at this)]"

definition AwgPeer_get_expiryTime :: "AwgPeer \<Rightarrow> jsval option" where
  "AwgPeer_get_expiryTime this =
     (if awp_expiryTime this = JNum 0 then None else Some (awp_expiryTime this))"

definition AwgPeer_set_expiryTime :: "jsval \<Rightarrow> AwgPeer \<Rightarrow> AwgPeer" where
  "AwgPeer_set_expiryTime t this =
     this\<lparr>awp_expiryTime := (if nullish t then JNum 0 else t)\<rparr>"

definition AwgPeer_get_totalGB :: "AwgPeer \<Rightarrow> rat option" where
  "AwgPeer_get_totalGB this = map_option quota_get (js_number (awp_totalGB this))"

definition AwgPeer_set_totalGB :: "rat \<Rightarrow> AwgPeer \<Rightarrow> AwgPeer" where
  "AwgPeer_set_totalGB gb this = this\<lparr>awp_totalGB := JNum (quota_set gb)\<rparr>"

definition AwgPeer_ok :: "AwgPeer \<Rightarrow> bool" where
  "AwgPeer_ok x \<longleftrightarrow> json_ok (awp_id x) \<and> truthy (awp_id x) \<and>
     or_kept (JStr []) (awp_email x) \<and> json_ok (awp_enable x) \<and>
     or_kept (JStr []) (awp_comment x) \<and> or_kept (JNum 0) (awp_totalGB x) \<and>
     or_kept (JNum 0) (awp_expiryTime x) \<and> or_kept (JNum 0) (awp_reset x) \<and>
     or_kept (JStr []) (awp_subId x) \<and> or_kept (JNum 0) (awp_tgId x) \<and>
     or_kept (JNum 0) (awp_limitIp x) \<and> or_kept (JStr []) (awp_forwardedPorts x) \<and>
     or_kept (JNum 0) (awp_awgId x) \<and> or_kept (JNum 0) (awp_created_at x) \<and>
     or_kept (JNum 0) (awp_updated_at x)"

lemmas AwgPeer_class_defs = AwgPeer_new_def AwgPeer_fromJson_def AwgPeer_toJson_def AwgPeer_ok_def

interpretation awg_client: client_codec AwgPeer_toJson AwgPeer_fromJson
  AwgPeer_ok
proof unfold_locales
  show "\<lbrakk>json_ok j; draw_ok d; AwgPeer_fromJson d j = Some x\<rbrakk> \<Longrightarrow> AwgPeer_ok x" for j d x
    by (auto simp: AwgPeer_class_defs bind_eq_Some_conv json_ok_dflt json_reader clean_json_ok
        or_kept_dflt_or fresh_id)
  show "AwgPeer_ok x \<Longrightarrow> AwgPeer_fromJson d (wire (AwgPeer_toJson x)) = Some x" for x d
    by (auto simp: AwgPeer_class_defs members_wire wire_clean clean_json_ok or_kept_def js_or_truthy
        simp del: wire.simps)
  show "AwgPeer_toJson x \<noteq> JUndef" for x by (simp add: AwgPeer_toJson_def)
qed

section \<open>Native WireGuard peers\<close>

record WgPeer =
  wgp_id :: jsval
  wgp_email :: jsval
  wgp_enable :: jsval
  wgp_comment :: jsval
  wgp_totalGB :: jsval
  wgp_expiryTime :: jsval
  wgp_reset :: jsval
  wgp_subId :: jsval
  wgp_tgId :: jsval
  wgp_limitIp :: jsval
  wgp_forwardedPorts :: jsval
  wgp_wgId :: jsval
  wgp_created_at :: jsval
  wgp_updated_at :: jsval

definition WgPeer_new ::
  "client_draw \<Rightarrow> jsval \<Rightarrow> jsval \<Rightarrow> jsval \<Rightarrow>
    jsval \<Rightarrow> jsval \<Rightarrow> jsval \<Rightarrow> jsval \<Rightarrow>
    jsval \<Rightarrow> jsval \<Rightarrow> jsval \<Rightarrow> jsval \<Rightarrow>
    jsval \<Rightarrow> jsval \<Rightarrow> jsval \<Rightarrow> WgPeer" where
  "WgPeer_new r id0 email0 enable0 comment0 totalGB0 expiryTime0 reset0 subId0 tgId0 limitIp0
     forwardedPorts0 wgId0 created_at0 updated_at0 =
     \<lparr>wgp_id = dflt (JStr (draw_id r)) id0, wgp_email = dflt (JStr (draw_email r)) email0,
       wgp_enable = dflt (JBool True) enable0, wgp_comment = dflt (JStr []) comment0,
       wgp_totalGB = dflt (JNum 0) totalGB0, wgp_expiryTime = dflt (JNum 0) expiryTime0,
       wgp_reset = dflt (JNum 0) reset0, wgp_subId = dflt (JStr []) subId0,
       wgp_tgId = dflt (JNum 0) tgId0, wgp_limitIp = dflt (JNum 0) limitIp0,
       wgp_forwardedPorts = dflt (JStr []) forwardedPorts0, wgp_wgId = dflt (JNum 0) wgId0,
       wgp_created_at = dflt (JNum 0) created_at0,
       wgp_updated_at = dflt (JNum 0) updated_at0\<rparr>"

definition WgPeer_fromJson :: "client_draw \<Rightarrow> jsval \<Rightarrow> WgPeer option" where
  "WgPeer_fromJson r json0 = do {
     json \<leftarrow> members (dflt emptyObj json0);
     Some (WgPeer_new r
       (js_or (json ''id'') (JStr (draw_id r))) (js_or (json ''email'') (JStr []))
       (dflt (JBool True) (json ''enable'')) (js_or (json ''comment'') (JStr []))
       (js_or (json ''totalGB'') (JNum 0)) (js_or (json ''expiryTime'') (JNum 0))
       (js_or (json ''reset'') (JNum 0)) (js_or (json ''subId'') (JStr []))
       (js_or (json ''tgId'') (JNum 0)) (js_or (json ''limitIp'') (JNum 0))
       (js_or (json ''forwardedPorts'') (JStr [])) (js_or (json ''_wgId'') (JNum 0))
       (js_or (json ''created_at'') (JNum 0)) (js_or (json ''updated_at'') (JNum 0))) }"

definition WgPeer_toJson :: "WgPeer \<Rightarrow> jsval" where
  "WgPeer_toJson this = JObj
     [(''id'', wgp_id this), (''email'', wgp_email this), (''enable'', wgp_enable this),
      (''comment'', wgp_comment this), (''totalGB'', wgp_totalGB this),
      (''expiryTime'', wgp_expiryTime this), (''reset'', wgp_reset this),
      (''subId'', wgp_subId this), (''tgId'', wgp_tgId this),
      (''limitIp'', wgp_limitIp this), (''forwardedPorts'', wgp_forwardedPorts this),
      (''_wgId'', wgp_wgId this), (''created_at'', wgp_created_at this),
      (''updated_at'', wgp_updated_at this)]"

definition WgPeer_get_expiryTime :: "WgPeer \<Rightarrow> jsval option" where
  "WgPeer_get_expiryTime this =
     (if wgp_expiryTime this = JNum 0 then None else Some (wgp_expiryTime this))"

definition WgPeer_set_expiryTime :: "jsval \<Rightarrow> WgPeer \<Rightarrow> WgPeer" where
  "WgPeer_set_expiryTime t this =
     this\<lparr>wgp_expiryTime := (if nullish t then JNum 0 else t)\<rparr>"

definition WgPeer_get_totalGB :: "WgPeer \<Rightarrow> rat option" where
  "WgPeer_get_totalGB this = map_option quota_get (js_number (wgp_totalGB this))"

definition WgPeer_set_totalGB :: "rat \<Rightarrow> WgPeer \<Rightarrow> WgPeer" where
  "WgPeer_set_totalGB gb this = this\<lparr>wgp_totalGB := JNum (quota_set gb)\<rparr>"

definition WgPeer_ok :: "WgPeer \<Rightarrow> bool" where
  "WgPeer_ok x \<longleftrightarrow> json_ok (wgp_id x) \<and> truthy (wgp_id x) \<and>
     or_kept (JStr []) (wgp_email x) \<and> json_ok (wgp_enable x) \<and>
     or_kept (JStr []) (wgp_comment x) \<and> or_kept (JNum 0) (wgp_totalGB x) \<and>
     or_kept (JNum 0) (wgp_expiryTime x) \<and> or_kept (JNum 0) (wgp_reset x) \<and>
     or_kept (JStr []) (wgp_subId x) \<and> or_kept (JNum 0) (wgp_tgId x) \<and>
     or_kept (JNum 0) (wgp_limitIp x) \<and> or_kept (JStr []) (wgp_forwardedPorts x) \<and>
     or_kept (JNum 0) (wgp_wgId x) \<and> or_kept (JNum 0) (wgp_created_at x) \<and>
     or_kept (JNum 0) (wgp_updated_at x)"

lemmas WgPeer_class_defs = WgPeer_new_def WgPeer_fromJson_def WgPeer_toJson_def WgPeer_ok_def

interpretation wg_client: client_codec WgPeer_toJson WgPeer_fromJson
  WgPeer_ok
proof unfold_locales
  show "\<lbrakk>json_ok j; draw_ok d; WgPeer_fromJson d j = Some x\<rbrakk> \<Longrightarrow> WgPeer_ok x" for j d x
    by (auto simp: WgPeer_class_defs bind_eq_Some_conv json_ok_dflt json_reader clean_json_ok
        or_kept_dflt_or fresh_id)
  show "WgPeer_ok x \<Longrightarrow> WgPeer_fromJson d (wire (WgPeer_toJson x)) = Some x" for x d
    by (auto simp: WgPeer_class_defs members_wire wire_clean clean_json_ok or_kept_def js_or_truthy
        simp del: wire.simps)
  show "WgPeer_toJson x \<noteq> JUndef" for x by (simp add: WgPeer_toJson_def)
qed

end
