(* ===== verification/Protocol_Settings.thy ===== *)
theory Protocol_Settings
  imports Clients Transports
begin

text \<open>
  The protocol settings of an inbound (the subclasses of \<open>Inbound.Settings\<close> in
  \<open>web/assets/js/model/inbound.js\<close>). The \<open>protocol\<close> member every object repeats is the
  class itself here. Reading a settings object reads its clients through the contract
  \<open>client_class\<close>.
\<close>

section \<open>Client lists\<close>

text \<open>\<open>(json.clients || []).map(...)\<close>: a value that is no array has no \<open>map\<close>.\<close>

definition clients_of ::
  "(client_draw \<Rightarrow> jsval \<Rightarrow> 'a option) \<Rightarrow> (nat \<Rightarrow> client_draw) \<Rightarrow> jsval \<Rightarrow> 'a list option" where
  "clients_of dec r v = do { cs \<leftarrow> as_array (js_or v (JArr [])); read_clients dec r cs }"

abbreviation draws_ok :: "(nat \<Rightarrow> client_draw) \<Rightarrow> bool" where
  "draws_ok r \<equiv> \<forall>i. draw_ok (r i)"

context client_class
begin

lemma clients_of_ok:
  assumes "clean v" "draws_ok r" "clients_of dec r v = Some xs"
  shows "\<forall>x \<in> set xs. ok x"
proof -
  obtain cs where "js_or v (JArr []) = JArr cs" "read_clients dec r cs = Some xs"
    using assms(3) by (cases "js_or v (JArr [])") (auto simp: clients_of_def)
  moreover have "json_ok (js_or v (JArr []))" by (rule json_ok_js_or) (simp_all add: assms)
  ultimately show ?thesis using read_ok [of cs r xs] assms(2) by auto
qed

lemma clients_reload:
  assumes "\<forall>x \<in> set xs. ok x"
  obtains ys where "\<forall>r. clients_of dec r (wire (JArr (map enc xs))) = Some ys" "\<forall>y \<in> set ys. ok y"
    "wire (JArr (map enc ys)) = wire (JArr (map enc xs))"
proof -
  from reload_list [OF assms] obtain ys where
    "\<forall>r. read_clients dec r (map wire (map enc xs)) = Some ys" "\<forall>y \<in> set ys. ok y"
    "map wire (map enc ys) = map wire (map enc xs)" by auto
  then show thesis
    by (intro that [of ys]) (simp_all add: clients_of_def js_or_def wire_clients)
qed

end

text \<open>What a settings class promises the inbound: what was saved reads back, whatever is drawn,
  as an object that saves the same again.\<close>

locale settings_class =
  fixes enc :: "'a \<Rightarrow> jsval option"
    and dec :: "(nat \<Rightarrow> client_draw) \<Rightarrow> jsval \<Rightarrow> 'a option"
    and ok :: "'a \<Rightarrow> bool"
    and doc :: "jsval \<Rightarrow> bool"
  assumes dec_ok: "\<lbrakk>doc j; draws_ok r; dec r j = Some x\<rbrakk> \<Longrightarrow> ok x"
    and reload: "\<lbrakk>ok x; enc x = Some j\<rbrakk> \<Longrightarrow>
      \<exists>y. (\<forall>r. dec r (wire j) = Some y) \<and> ok y \<and> map_option wire (enc y) = Some (wire j)"
begin

lemma save_stable:
  assumes "doc d" "draws_ok r" "dec r d = Some x" "enc x = Some j" "dec r' (wire j) = Some y"
  shows "map_option wire (enc y) = Some (wire j)"
  using reload [OF dec_ok [OF assms(1-3)] assms(4)] assms(5) by auto

lemma reload_fixed:
  assumes "ok x" "enc x = Some j"
  shows "dec r (wire j) = dec r' (wire j)"
  using reload [OF assms] by metis

end

text \<open>\<open>for (let x of v)\<close>.\<close>

fun iterable :: "jsval \<Rightarrow> jsval list option" where
  "iterable (JArr xs) = Some xs"
| "iterable (JStr s) = Some (map (\<lambda>c. JStr [c]) s)"
| "iterable _ = None"

section \<open>VMess\<close>

record VmessSettings =
  vs_vmesses :: "VMESS list"

definition VmessSettings_new :: "client_draw \<Rightarrow> VMESS list option \<Rightarrow> VmessSettings" where
  "VmessSettings_new r vmesses =
     \<lparr>vs_vmesses = (case vmesses of None \<Rightarrow> [VMESS_new r JUndef JUndef []] | Some vs \<Rightarrow> vs)\<rparr>"

fun find_index :: "('a \<Rightarrow> bool) \<Rightarrow> 'a list \<Rightarrow> int" where
  "find_index p [] = -1"
| "find_index p (x # xs) = (if p x then 0 else
     (let i = find_index p xs in if i < 0 then -1 else i + 1))"

definition indexOfVmessById :: "VmessSettings \<Rightarrow> jsval \<Rightarrow> int" where
  "indexOfVmessById this id0 = find_index (\<lambda>v. vmess_id v = id0) (vs_vmesses this)"

definition addVmess :: "VmessSettings \<Rightarrow> VMESS \<Rightarrow> VmessSettings" where
  "addVmess this v =
     (if indexOfVmessById this (vmess_id v) \<ge> 0 then this
      else this\<lparr>vs_vmesses := vs_vmesses this @ [v]\<rparr>)"

definition delVmess :: "VmessSettings \<Rightarrow> VMESS \<Rightarrow> VmessSettings" where
  "delVmess this v =
     (let i = indexOfVmessById this (vmess_id v) in
      if i \<ge> 0 then this\<lparr>vs_vmesses := splice1 i (vs_vmesses this)\<rparr> else this)"

definition VmessSettings_fromJson :: "(nat \<Rightarrow> client_draw) \<Rightarrow> jsval \<Rightarrow> VmessSettings option" where
  "VmessSettings_fromJson r json0 = do {
     json \<leftarrow> members (dflt emptyObj json0);
     clients \<leftarrow> clients_of VMESS_fromJson r (json ''clients'');
     Some (VmessSettings_new (r 0) (Some clients)) }"

definition VmessSettings_toJson :: "VmessSettings \<Rightarrow> jsval" where
  "VmessSettings_toJson this = JObj [(''clients'', JArr (map VMESS_toJson (vs_vmesses this)))]"

lemma find_index_range: "-1 \<le> find_index p xs" "find_index p xs < int (length xs)"
  by (induction xs) (auto simp: Let_def)

lemma find_index_neg: "find_index p xs < 0 \<longleftrightarrow> (\<forall>x \<in> set xs. \<not> p x)"
  by (induction xs) (auto simp: Let_def split: if_splits)

lemma find_index_hit: "0 \<le> find_index p xs \<Longrightarrow> p (xs ! nat (find_index p xs))"
  by (induction xs) (auto simp: Let_def nat_add_distrib split: if_splits)

lemma find_index_first:
  "\<lbrakk>0 \<le> find_index p xs; i < nat (find_index p xs)\<rbrakk> \<Longrightarrow> \<not> p (xs ! i)"
proof (induction xs arbitrary: i)
  case Nil
  then show ?case by simp
next
  case (Cons x xs)
  then show ?case
    by (cases i) (auto simp: Let_def nat_add_distrib split: if_splits)
qed

lemma splice_unique:
  assumes "distinct (map f xs)" "i < length xs"
  shows "take i xs @ drop (Suc i) xs = filter (\<lambda>x. f x \<noteq> f (xs ! i)) xs"
  using assms
proof (induction xs arbitrary: i)
  case Nil
  then show ?case by simp
next
  case (Cons x xs)
  show ?case
  proof (cases i)
    case 0
    have "\<forall>y \<in> set xs. f y \<noteq> f x" using Cons.prems(1) by (auto intro: rev_image_eqI)
    then have "filter (\<lambda>y. f y \<noteq> f x) xs = xs" by (intro filter_True)
    with "0" show ?thesis by simp
  next
    case (Suc j)
    with Cons.prems have "xs ! j \<in> set xs" by simp
    with Cons.prems(1) have "f x \<noteq> f (xs ! j)" by (auto intro: rev_image_eqI)
    with Suc Cons.prems Cons.IH [of j] show ?thesis by simp
  qed
qed

section \<open>VLESS\<close>

record Fallback =
  fb_name :: jsval
  fb_alpn :: jsval
  fb_path :: jsval
  fb_dest :: jsval
  fb_xver :: jsval

definition Fallback_new :: "jsval \<Rightarrow> jsval \<Rightarrow> jsval \<Rightarrow> jsval \<Rightarrow> jsval \<Rightarrow> Fallback" where
  "Fallback_new name alpn path dest xver =
     \<lparr>fb_name = dflt (JStr []) name, fb_alpn = dflt (JStr []) alpn, fb_path = dflt (JStr []) path,
       fb_dest = dflt (JStr []) dest, fb_xver = dflt (JNum 0) xver\<rparr>"

text \<open>Every number of the model is an integer; any other value is written as 0.\<close>

fun integer_or_0 :: "jsval \<Rightarrow> jsval" where
  "integer_or_0 (JNum n) = JNum n"
| "integer_or_0 _ = JNum 0"

definition Fallback_toJson :: "Fallback \<Rightarrow> jsval" where
  "Fallback_toJson this = JObj
     [(''name'', fb_name this), (''alpn'', fb_alpn this), (''path'', fb_path this),
      (''dest'', fb_dest this), (''xver'', integer_or_0 (fb_xver this))]"

definition Fallback_item :: "jsval \<Rightarrow> Fallback option" where
  "Fallback_item v = do {
     fallback \<leftarrow> members v;
     Some (Fallback_new (fallback ''name'') (fallback ''alpn'') (fallback ''path'')
       (fallback ''dest'') (fallback ''xver'')) }"

definition Fallback_fromJson :: "jsval \<Rightarrow> Fallback list option" where
  "Fallback_fromJson json0 = do {
     items \<leftarrow> iterable (dflt (JArr []) json0);
     traverse Fallback_item items }"

definition Fallback_ok :: "Fallback \<Rightarrow> bool" where
  "Fallback_ok x \<longleftrightarrow> json_ok (fb_name x) \<and> json_ok (fb_alpn x) \<and> json_ok (fb_path x)
     \<and> json_ok (fb_dest x) \<and> json_ok (fb_xver x)"

lemmas Fallback_defs = Fallback_new_def Fallback_toJson_def Fallback_item_def Fallback_ok_def

lemma integer_or_0_ok [simp]: "json_ok (integer_or_0 v)" "integer_or_0 (integer_or_0 v) = integer_or_0 v"
  by (cases v; simp)+

interpretation fallback: json_view "\<lambda>x. Some (Fallback_toJson x)" Fallback_item Fallback_ok json_ok
proof unfold_locales
  show "\<lbrakk>json_ok j; Fallback_item j = Some x\<rbrakk> \<Longrightarrow> Fallback_ok x" for j x
    by (auto simp: Fallback_defs bind_eq_Some_conv json_ok_dflt json_reader)
  show "\<lbrakk>Fallback_ok x; Some (Fallback_toJson x) = Some j\<rbrakk> \<Longrightarrow> \<exists>y. Fallback_item (wire j) = Some y
      \<and> Fallback_ok y \<and> map_option wire (Some (Fallback_toJson y)) = Some (wire j)" for x j
    by (intro exI [of _ "x\<lparr>fb_xver := integer_or_0 (fb_xver x)\<rparr>"]) (auto simp: Fallback_defs)
qed

text \<open>A saved list of fallbacks reads back as one that saves the same.\<close>

lemma fallbacks_reload:
  assumes "\<forall>x \<in> set xs. Fallback_ok x"
  obtains ys where "Fallback_fromJson (wire (JArr (map Fallback_toJson xs))) = Some ys"
    "\<forall>y \<in> set ys. Fallback_ok y" "length ys = length xs"
    "wire (JArr (map Fallback_toJson ys)) = wire (JArr (map Fallback_toJson xs))"
proof -
  have wi: "wire_items (map Fallback_toJson zs) = map wire (map Fallback_toJson zs)" for zs
    by (induction zs) (auto simp: Fallback_toJson_def)
  obtain ys where "traverse Fallback_item (map wire (map Fallback_toJson xs)) = Some ys"
    "\<forall>y \<in> set ys. Fallback_ok y" "map wire (map Fallback_toJson ys) = map wire (map Fallback_toJson xs)"
    using fallback.view_list [OF assms, of "map Fallback_toJson xs"] by (auto simp: traverse_total)
  then show thesis
    by (intro that [of ys]) (auto simp: Fallback_fromJson_def dflt_def wi dest: traverse_length)
qed

lemma fallbacks_ok:
  "\<lbrakk>clean v; Fallback_fromJson v = Some xs\<rbrakk> \<Longrightarrow> \<forall>x \<in> set xs. Fallback_ok x"
proof -
  assume v: "clean v" and "Fallback_fromJson v = Some xs"
  then obtain items where items: "iterable (dflt (JArr []) v) = Some items"
    "traverse Fallback_item items = Some xs"
    by (auto simp: Fallback_fromJson_def bind_eq_Some_conv)
  have "json_ok (dflt (JArr []) v)" using v by (simp add: json_ok_dflt)
  with items(1) have "\<forall>j \<in> set items. json_ok j"
    by (cases "dflt (JArr []) v") auto
  with items(2) show ?thesis by (intro fallback.dec_list_ok)
qed

record VLESSSettings =
  vl_vlesses :: "VLESS list"
  vl_decryption :: jsval
  vl_encryption :: jsval
  vl_fallbacks :: "Fallback list"
  vl_selectedAuth :: jsval
  vl_testseed :: jsval

definition default_testseed :: jsval where
  "default_testseed = JArr [JNum 900, JNum 500, JNum 900, JNum 256]"

definition VLESSSettings_new ::
  "client_draw \<Rightarrow> VLESS list option \<Rightarrow> jsval \<Rightarrow> jsval \<Rightarrow> Fallback list \<Rightarrow> jsval \<Rightarrow> jsval \<Rightarrow> VLESSSettings"
  where
  "VLESSSettings_new r vlesses decryption encryption fallbacks selectedAuth testseed =
     \<lparr>vl_vlesses = (case vlesses of
         None \<Rightarrow> [VLESS_new r JUndef JUndef JUndef []] | Some vs \<Rightarrow> vs),
       vl_decryption = dflt (JStr ''none'') decryption,
       vl_encryption = dflt (JStr ''none'') encryption, vl_fallbacks = fallbacks,
       vl_selectedAuth = selectedAuth, vl_testseed = dflt default_testseed testseed\<rparr>"

definition VLESSSettings_addFallback :: "VLESSSettings \<Rightarrow> VLESSSettings" where
  "VLESSSettings_addFallback this = this\<lparr>vl_fallbacks :=
     vl_fallbacks this @ [Fallback_new JUndef JUndef JUndef JUndef JUndef]\<rparr>"

definition VLESSSettings_delFallback :: "int \<Rightarrow> VLESSSettings \<Rightarrow> VLESSSettings" where
  "VLESSSettings_delFallback index this = this\<lparr>vl_fallbacks := splice1 index (vl_fallbacks this)\<rparr>"

text \<open>\<open>v && v.length >= 4\<close>.\<close>

definition length_ge4 :: "jsval \<Rightarrow> bool" where
  "length_ge4 v \<longleftrightarrow> truthy v \<and>
     (case js_number (mget v ''length'') of None \<Rightarrow> False | Some n \<Rightarrow> 4 \<le> n)"

definition VLESSSettings_fromJson :: "(nat \<Rightarrow> client_draw) \<Rightarrow> jsval \<Rightarrow> VLESSSettings option" where
  "VLESSSettings_fromJson r json0 = do {
     json \<leftarrow> members (dflt emptyObj json0);
     let testseed = (if is_array (json ''testseed'') \<and> length_ge4 (json ''testseed'')
       then json ''testseed'' else default_testseed);
     clients \<leftarrow> clients_of VLESS_fromJson r (json ''clients'');
     fallbacks \<leftarrow> Fallback_fromJson (js_or (json ''fallbacks'') (JArr []));
     Some (VLESSSettings_new (r 0) (Some clients) (json ''decryption'') (json ''encryption'')
       fallbacks (json ''selectedAuth'') testseed) }"

definition has_flow :: "VLESS list \<Rightarrow> bool" where
  "has_flow vs = list_ex (\<lambda>v. truthy (vless_flow v) \<and> vless_flow v \<noteq> JStr []) vs"

definition VLESSSettings_toJson :: "VLESSSettings \<Rightarrow> jsval" where
  "VLESSSettings_toJson this = JObj
     (prop_if True ''clients'' (JArr (map VLESS_toJson (vl_vlesses this)))
      @ prop_if (truthy (vl_decryption this)) ''decryption'' (vl_decryption this)
      @ prop_if (truthy (vl_encryption this)) ''encryption'' (vl_encryption this)
      @ prop_if (vl_fallbacks this \<noteq> []) ''fallbacks''
          (JArr (map Fallback_toJson (vl_fallbacks this)))
      @ prop_if (truthy (vl_selectedAuth this)) ''selectedAuth'' (vl_selectedAuth this)
      @ prop_if (has_flow (vl_vlesses this) \<and> length_ge4 (vl_testseed this)) ''testseed''
          (vl_testseed this))"

text \<open>A decryption or encryption that is falsy is not written, and the reader takes its absence
  for \<open>none\<close>; a form that was opened on a document with such a field saves another one.\<close>

definition VLESSSettings_ok :: "VLESSSettings \<Rightarrow> bool" where
  "VLESSSettings_ok x \<longleftrightarrow> (\<forall>v \<in> set (vl_vlesses x). VLESS_ok v)
     \<and> json_ok (vl_decryption x) \<and> truthy (vl_decryption x)
     \<and> json_ok (vl_encryption x) \<and> truthy (vl_encryption x)
     \<and> (\<forall>f \<in> set (vl_fallbacks x). Fallback_ok f) \<and> clean (vl_selectedAuth x)
     \<and> (\<exists>s. vl_testseed x = JArr s \<and> 4 \<le> length s \<and> json_ok (JArr s))"

definition vless_doc :: "jsval \<Rightarrow> bool" where
  "vless_doc j \<longleftrightarrow> clean j
     \<and> (mget j ''decryption'' = JUndef \<or> truthy (mget j ''decryption''))
     \<and> (mget j ''encryption'' = JUndef \<or> truthy (mget j ''encryption''))"

lemma length_ge4_array [simp]: "length_ge4 (JArr xs) \<longleftrightarrow> 4 \<le> length xs"
  by (simp add: length_ge4_def mget_def)

lemma VLESSSettings_dec_ok:
  assumes "vless_doc j" "draws_ok r" "VLESSSettings_fromJson r j = Some x"
  shows "VLESSSettings_ok x"
proof -
  obtain json clients fallbacks where json: "members (dflt emptyObj j) = Some json"
    and cs: "clients_of VLESS_fromJson r (json ''clients'') = Some clients"
    and fs: "Fallback_fromJson (js_or (json ''fallbacks'') (JArr [])) = Some fallbacks"
    and x: "x = VLESSSettings_new (r 0) (Some clients) (json ''decryption'') (json ''encryption'')
      fallbacks (json ''selectedAuth'')
      (if is_array (json ''testseed'') \<and> length_ge4 (json ''testseed'') then json ''testseed''
       else default_testseed)"
    using assms(3) by (auto simp: VLESSSettings_fromJson_def Let_def bind_eq_Some_conv)
  have cl: "clean (json k)" for k
    by (rule clean_member [OF json]) (use assms(1) in \<open>simp add: vless_doc_def\<close>)
  have jk: "mget j k = json k" for k
    using json by (auto simp: mget_def dflt_def split: if_splits)
  have "\<forall>v \<in> set clients. VLESS_ok v" by (rule vless_client.clients_of_ok [OF cl assms(2) cs])
  moreover have "\<forall>f \<in> set fallbacks. Fallback_ok f"
    by (rule fallbacks_ok [OF clean_json_ok [OF json_ok_js_or] fs]) (simp_all add: cl)
  moreover have "\<exists>s. (if is_array (json ''testseed'') \<and> length_ge4 (json ''testseed'')
      then json ''testseed'' else default_testseed) = JArr s \<and> 4 \<le> length s \<and> json_ok (JArr s)"
    using cl [of "''testseed''"] by (cases "json ''testseed''") (auto simp: default_testseed_def)
  moreover have "truthy (dflt (JStr ''none'') (json ''decryption''))"
    "truthy (dflt (JStr ''none'') (json ''encryption''))"
    using assms(1) unfolding vless_doc_def jk by (auto simp: dflt_def)
  moreover have "dflt default_testseed t = t" if "\<exists>s. t = JArr s \<and> 4 \<le> length s \<and> json_ok (JArr s)" for t
    using that by auto
  ultimately show ?thesis
    by (simp add: x VLESSSettings_new_def VLESSSettings_ok_def json_ok_dflt cl split del: if_split)
qed

text \<open>The test seed is written only for a client with a flow, so it comes back as the default
  when no client has one.\<close>

lemma vless_flow_saved:
  "wire (VLESS_toJson v) = wire (VLESS_toJson w) \<Longrightarrow> clean (vless_flow v) \<Longrightarrow> clean (vless_flow w) \<Longrightarrow>
   vless_flow v = vless_flow w"
proof -
  assume eq: "wire (VLESS_toJson v) = wire (VLESS_toJson w)"
    and cl: "clean (vless_flow v)" "clean (vless_flow w)"
  have "mget (wire (VLESS_toJson u)) ''flow'' = wire (vless_flow u)" for u
    by (simp add: VLESS_toJson_def clientBaseToJson_def oget_wire_props del: wire_props.simps)
  with eq show "vless_flow v = vless_flow w" by (metis wire_clean cl)
qed

lemma has_flow_saved:
  assumes "map wire (map VLESS_toJson ys) = map wire (map VLESS_toJson xs)"
    "\<forall>x \<in> set xs. VLESS_ok x" "\<forall>y \<in> set ys. VLESS_ok y"
  shows "has_flow ys = has_flow xs"
  using assms
proof (induction ys arbitrary: xs)
  case Nil
  then show ?case by simp
next
  case (Cons y ys)
  then obtain x zs where xs: "xs = x # zs" by (cases xs) auto
  have "vless_flow y = vless_flow x"
    using Cons.prems xs by (intro vless_flow_saved) (auto simp: VLESS_ok_def clean_json_ok)
  moreover have "has_flow ys = has_flow zs" using Cons xs by simp
  ultimately show ?case by (simp add: xs has_flow_def)
qed

lemma truthy_json: "\<lbrakk>clean v; truthy v\<rbrakk> \<Longrightarrow> json_ok v"
  by (auto simp: clean_def)

lemma VLESSSettings_view:
  assumes ok: "VLESSSettings_ok x"
  shows "\<exists>y. (\<forall>r. VLESSSettings_fromJson r (wire (VLESSSettings_toJson x)) = Some y)
    \<and> VLESSSettings_ok y \<and> wire (VLESSSettings_toJson y) = wire (VLESSSettings_toJson x)"
proof -
  from ok have cs: "\<forall>v \<in> set (vl_vlesses x). VLESS_ok v"
    and fs: "\<forall>f \<in> set (vl_fallbacks x). Fallback_ok f"
    and sc: "json_ok (vl_decryption x)" "truthy (vl_decryption x)" "json_ok (vl_encryption x)"
      "truthy (vl_encryption x)" "clean (vl_selectedAuth x)"
    unfolding VLESSSettings_ok_def by blast+
  from ok obtain s where seed: "vl_testseed x = JArr s" "4 \<le> length s" "json_ok (JArr s)"
    unfolding VLESSSettings_ok_def by blast
  obtain vs where vs: "\<forall>r. clients_of VLESS_fromJson r (wire (JArr (map VLESS_toJson (vl_vlesses x)))) = Some vs"
    "\<forall>v \<in> set vs. VLESS_ok v"
    "wire (JArr (map VLESS_toJson vs)) = wire (JArr (map VLESS_toJson (vl_vlesses x)))"
    by (rule vless_client.clients_reload [OF cs])
  obtain gs where gs: "Fallback_fromJson (wire (JArr (map Fallback_toJson (vl_fallbacks x)))) = Some gs"
    "\<forall>y \<in> set gs. Fallback_ok y" "length gs = length (vl_fallbacks x)"
    "wire (JArr (map Fallback_toJson gs)) = wire (JArr (map Fallback_toJson (vl_fallbacks x)))"
    by (rule fallbacks_reload [OF fs])
  have flow: "has_flow vs = has_flow (vl_vlesses x)"
    using vs(3) by (intro has_flow_saved [OF _ cs vs(2)]) (simp add: vless_client.wire_clients)
  define y where "y = \<lparr>vl_vlesses = vs, vl_decryption = vl_decryption x,
    vl_encryption = vl_encryption x, vl_fallbacks = gs,
    vl_selectedAuth = (if truthy (vl_selectedAuth x) then vl_selectedAuth x else JUndef),
    vl_testseed = (if has_flow (vl_vlesses x) then vl_testseed x else default_testseed)\<rparr>"
  have w: "wire (VLESSSettings_toJson z) = JObj
     (prop_if True ''clients'' (wire (JArr (map VLESS_toJson (vl_vlesses z))))
      @ prop_if (truthy (vl_decryption z)) ''decryption'' (wire (vl_decryption z))
      @ prop_if (truthy (vl_encryption z)) ''encryption'' (wire (vl_encryption z))
      @ prop_if (vl_fallbacks z \<noteq> []) ''fallbacks''
          (wire (JArr (map Fallback_toJson (vl_fallbacks z))))
      @ prop_if (truthy (vl_selectedAuth z)) ''selectedAuth'' (wire (vl_selectedAuth z))
      @ prop_if (has_flow (vl_vlesses z) \<and> length_ge4 (vl_testseed z)) ''testseed''
          (wire (vl_testseed z)))" for z
    unfolding VLESSSettings_toJson_def wire.simps(7) wire_props_append prop_if_def
    by (auto simp del: wire.simps(6) simp: length_ge4_def)
  have "VLESSSettings_ok y"
    using ok vs(2) gs(2) seed
    by (auto simp: VLESSSettings_ok_def y_def default_testseed_def)
  moreover have "wire (VLESSSettings_toJson y) = wire (VLESSSettings_toJson x)"
    unfolding w using vs(3) gs(3,4) seed flow
    by (auto simp: y_def prop_if_def default_testseed_def simp del: wire.simps(6))
  moreover have "VLESSSettings_fromJson r (wire (VLESSSettings_toJson x)) = Some y" for r
  proof -
    have "wire (vl_selectedAuth x) = vl_selectedAuth x" "wire (vl_decryption x) = vl_decryption x"
      "wire (vl_encryption x) = vl_encryption x" "wire (vl_testseed x) = vl_testseed x"
      using sc seed wire_json_ok [OF seed(3)] by (simp_all add: wire_clean)
    moreover have "Fallback_fromJson (js_or (if vl_fallbacks x \<noteq> []
        then wire (JArr (map Fallback_toJson (vl_fallbacks x))) else JUndef) (JArr [])) = Some gs"
      using gs(1,3) by (auto simp: js_or_def Fallback_fromJson_def)
    ultimately show ?thesis
      using sc seed
      by (simp add: VLESSSettings_fromJson_def w dflt_obj oget_prop_if oget_prop_if_end vs(1)
          VLESSSettings_new_def y_def default_testseed_def dflt_def split del: if_split
          del: wire.simps(6) cong: if_cong) (auto simp: dflt_def)
  qed
  ultimately show ?thesis by blast
qed


interpretation vless: settings_class "\<lambda>x. Some (VLESSSettings_toJson x)" VLESSSettings_fromJson
  VLESSSettings_ok vless_doc
  by unfold_locales (auto intro: VLESSSettings_dec_ok dest: VLESSSettings_view)

definition VmessSettings_ok :: "VmessSettings \<Rightarrow> bool" where
  "VmessSettings_ok x \<longleftrightarrow> (\<forall>v \<in> set (vs_vmesses x). VMESS_ok v)"

interpretation vmess: settings_class "\<lambda>x. Some (VmessSettings_toJson x)" VmessSettings_fromJson
  VmessSettings_ok clean
proof unfold_locales
  show "\<lbrakk>clean j; draws_ok r; VmessSettings_fromJson r j = Some x\<rbrakk> \<Longrightarrow> VmessSettings_ok x" for j r x
    by (auto simp: VmessSettings_fromJson_def VmessSettings_new_def VmessSettings_ok_def
        bind_eq_Some_conv dest: vmess_client.clients_of_ok [OF clean_member, rotated 3])
next
  fix x j
  assume ok: "VmessSettings_ok x" and j: "Some (VmessSettings_toJson x) = Some j"
  obtain vs where "\<forall>r. clients_of VMESS_fromJson r (wire (JArr (map VMESS_toJson (vs_vmesses x)))) = Some vs"
    "\<forall>v \<in> set vs. VMESS_ok v"
    "wire (JArr (map VMESS_toJson vs)) = wire (JArr (map VMESS_toJson (vs_vmesses x)))"
    by (rule vmess_client.clients_reload [of "vs_vmesses x"]) (use ok in \<open>auto simp: VmessSettings_ok_def\<close>)
  with j show "\<exists>y. (\<forall>r. VmessSettings_fromJson r (wire j) = Some y) \<and> VmessSettings_ok y
      \<and> map_option wire (Some (VmessSettings_toJson y)) = Some (wire j)"
    by (intro exI [of _ "\<lparr>vs_vmesses = vs\<rparr>"])
      (auto simp: VmessSettings_toJson_def VmessSettings_fromJson_def VmessSettings_new_def
        VmessSettings_ok_def dflt_obj simp del: wire.simps(6))
qed

section \<open>Trojan\<close>

text \<open>\<open>TrojanSettings.Fallback\<close> repeats the text of \<open>VLESSSettings.Fallback\<close>.\<close>

type_synonym TrojanFallback = Fallback

definition TrojanFallback_new :: "jsval \<Rightarrow> jsval \<Rightarrow> jsval \<Rightarrow> jsval \<Rightarrow> jsval \<Rightarrow> TrojanFallback" where
  [simp]: "TrojanFallback_new = Fallback_new"

definition TrojanFallback_toJson :: "TrojanFallback \<Rightarrow> jsval" where
  [simp]: "TrojanFallback_toJson = Fallback_toJson"

definition TrojanFallback_fromJson :: "jsval \<Rightarrow> TrojanFallback list option" where
  [simp]: "TrojanFallback_fromJson = Fallback_fromJson"

record TrojanSettings =
  tr_trojans :: "Trojan list"
  tr_fallbacks :: "TrojanFallback list"

definition TrojanSettings_new ::
  "client_draw \<Rightarrow> Trojan list option \<Rightarrow> Fallback list \<Rightarrow> TrojanSettings" where
  "TrojanSettings_new r trojans fallbacks =
     \<lparr>tr_trojans = (case trojans of None \<Rightarrow> [Trojan_new r JUndef []] | Some ts \<Rightarrow> ts),
       tr_fallbacks = fallbacks\<rparr>"

definition TrojanSettings_addFallback :: "TrojanSettings \<Rightarrow> TrojanSettings" where
  "TrojanSettings_addFallback this = this\<lparr>tr_fallbacks :=
     tr_fallbacks this @ [TrojanFallback_new JUndef JUndef JUndef JUndef JUndef]\<rparr>"

definition TrojanSettings_delFallback :: "int \<Rightarrow> TrojanSettings \<Rightarrow> TrojanSettings" where
  "TrojanSettings_delFallback index this = this\<lparr>tr_fallbacks := splice1 index (tr_fallbacks this)\<rparr>"

definition TrojanSettings_fromJson :: "(nat \<Rightarrow> client_draw) \<Rightarrow> jsval \<Rightarrow> TrojanSettings option" where
  "TrojanSettings_fromJson r json0 = do {
     json \<leftarrow> members (dflt emptyObj json0);
     clients \<leftarrow> clients_of Trojan_fromJson r (json ''clients'');
     fallbacks \<leftarrow> TrojanFallback_fromJson (json ''fallbacks'');
     Some (TrojanSettings_new (r 0) (Some clients) fallbacks) }"

definition TrojanSettings_toJson :: "TrojanSettings \<Rightarrow> jsval" where
  "TrojanSettings_toJson this = JObj
     [(''clients'', JArr (map Trojan_toJson (tr_trojans this))),
      (''fallbacks'', JArr (map TrojanFallback_toJson (tr_fallbacks this)))]"

definition TrojanSettings_ok :: "TrojanSettings \<Rightarrow> bool" where
  "TrojanSettings_ok x \<longleftrightarrow> (\<forall>t \<in> set (tr_trojans x). Trojan_ok t)
     \<and> (\<forall>f \<in> set (tr_fallbacks x). Fallback_ok f)"

interpretation trojan: settings_class "\<lambda>x. Some (TrojanSettings_toJson x)" TrojanSettings_fromJson
  TrojanSettings_ok clean
proof unfold_locales
  show "\<lbrakk>clean j; draws_ok r; TrojanSettings_fromJson r j = Some x\<rbrakk> \<Longrightarrow> TrojanSettings_ok x" for j r x
    by (auto simp: TrojanSettings_fromJson_def TrojanSettings_new_def TrojanSettings_ok_def
        bind_eq_Some_conv dest: trojan_client.clients_of_ok [OF clean_member, rotated 3]
        fallbacks_ok [OF clean_member, rotated 2])
next
  fix x j
  assume ok: "TrojanSettings_ok x" and j: "Some (TrojanSettings_toJson x) = Some j"
  obtain ts where "\<forall>r. clients_of Trojan_fromJson r (wire (JArr (map Trojan_toJson (tr_trojans x)))) = Some ts"
    "\<forall>v \<in> set ts. Trojan_ok v"
    "wire (JArr (map Trojan_toJson ts)) = wire (JArr (map Trojan_toJson (tr_trojans x)))"
    by (rule trojan_client.clients_reload [of "tr_trojans x"]) (use ok in \<open>auto simp: TrojanSettings_ok_def\<close>)
  moreover obtain gs where "Fallback_fromJson (wire (JArr (map Fallback_toJson (tr_fallbacks x)))) = Some gs"
    "\<forall>y \<in> set gs. Fallback_ok y"
    "wire (JArr (map Fallback_toJson gs)) = wire (JArr (map Fallback_toJson (tr_fallbacks x)))"
    by (rule fallbacks_reload [of "tr_fallbacks x"]) (use ok in \<open>auto simp: TrojanSettings_ok_def\<close>)
  ultimately show "\<exists>y. (\<forall>r. TrojanSettings_fromJson r (wire j) = Some y) \<and> TrojanSettings_ok y
      \<and> map_option wire (Some (TrojanSettings_toJson y)) = Some (wire j)"
    using j
    by (intro exI [of _ "\<lparr>tr_trojans = ts, tr_fallbacks = gs\<rparr>"])
      (auto simp: TrojanSettings_toJson_def TrojanSettings_fromJson_def TrojanSettings_new_def
        TrojanSettings_ok_def dflt_obj simp del: wire.simps(6))
qed

section \<open>Shadowsocks and Hysteria\<close>

record ShadowsocksSettings =
  sss_method :: jsval
  sss_password :: jsval
  sss_network :: jsval
  sss_shadowsockses :: "Shadowsocks list"
  sss_ivCheck :: jsval

text \<open>Draw 0 is the object's own, draw \<open>i + 1\<close> the one of client \<open>i\<close>.\<close>

definition ShadowsocksSettings_new ::
  "(nat \<Rightarrow> client_draw) \<Rightarrow> jsval \<Rightarrow> jsval \<Rightarrow> jsval \<Rightarrow> Shadowsocks list option \<Rightarrow> jsval \<Rightarrow> ShadowsocksSettings"
  where
  "ShadowsocksSettings_new r method password network shadowsockses ivCheck =
     \<lparr>sss_method = dflt (JStr ''2022-blake3-aes-256-gcm'') method,
       sss_password = dflt (JStr (draw_password (r 0))) password,
       sss_network = dflt (JStr ''tcp,udp'') network,
       sss_shadowsockses = (case shadowsockses of
         None \<Rightarrow> [Shadowsocks_new (r 1) JUndef JUndef []] | Some ss \<Rightarrow> ss),
       sss_ivCheck = dflt (JBool False) ivCheck\<rparr>"

definition ShadowsocksSettings_fromJson ::
  "(nat \<Rightarrow> client_draw) \<Rightarrow> jsval \<Rightarrow> ShadowsocksSettings option" where
  "ShadowsocksSettings_fromJson r json0 = do {
     json \<leftarrow> members (dflt emptyObj json0);
     clients \<leftarrow> clients_of Shadowsocks_fromJson (\<lambda>i. r (Suc i)) (json ''clients'');
     Some (ShadowsocksSettings_new r (json ''method'') (json ''password'') (json ''network'')
       (Some clients) (json ''ivCheck'')) }"

definition ShadowsocksSettings_toJson :: "ShadowsocksSettings \<Rightarrow> jsval" where
  "ShadowsocksSettings_toJson this = JObj
     [(''method'', sss_method this), (''password'', sss_password this),
      (''network'', sss_network this),
      (''clients'', JArr (map Shadowsocks_toJson (sss_shadowsockses this))),
      (''ivCheck'', sss_ivCheck this)]"

definition ShadowsocksSettings_ok :: "ShadowsocksSettings \<Rightarrow> bool" where
  "ShadowsocksSettings_ok x \<longleftrightarrow> json_ok (sss_method x) \<and> json_ok (sss_password x)
     \<and> json_ok (sss_network x) \<and> (\<forall>s \<in> set (sss_shadowsockses x). Shadowsocks_ok s)
     \<and> json_ok (sss_ivCheck x)"

lemmas ShadowsocksSettings_defs = ShadowsocksSettings_new_def ShadowsocksSettings_fromJson_def
  ShadowsocksSettings_toJson_def ShadowsocksSettings_ok_def

interpretation shadowsocks: settings_class "\<lambda>x. Some (ShadowsocksSettings_toJson x)"
  ShadowsocksSettings_fromJson ShadowsocksSettings_ok clean
proof unfold_locales
  show "\<lbrakk>clean j; draws_ok r; ShadowsocksSettings_fromJson r j = Some x\<rbrakk> \<Longrightarrow>
      ShadowsocksSettings_ok x" for j r x
    by (auto simp: ShadowsocksSettings_defs bind_eq_Some_conv intro!: json_ok_dflt
        intro: clean_member dest: ss_client.clients_of_ok [OF clean_member, rotated 3])
next
  fix x j
  assume ok: "ShadowsocksSettings_ok x" and j: "Some (ShadowsocksSettings_toJson x) = Some j"
  obtain cs where "\<forall>r. clients_of Shadowsocks_fromJson r
      (wire (JArr (map Shadowsocks_toJson (sss_shadowsockses x)))) = Some cs"
    "\<forall>v \<in> set cs. Shadowsocks_ok v" "wire (JArr (map Shadowsocks_toJson cs)) =
      wire (JArr (map Shadowsocks_toJson (sss_shadowsockses x)))"
    by (rule ss_client.clients_reload [of "sss_shadowsockses x"])
      (use ok in \<open>auto simp: ShadowsocksSettings_ok_def\<close>)
  with ok j show "\<exists>y. (\<forall>r. ShadowsocksSettings_fromJson r (wire j) = Some y)
      \<and> ShadowsocksSettings_ok y
      \<and> map_option wire (Some (ShadowsocksSettings_toJson y)) = Some (wire j)"
    by (intro exI [of _ "x\<lparr>sss_shadowsockses := cs\<rparr>"])
      (auto simp: ShadowsocksSettings_defs dflt_obj simp del: wire.simps(6))
qed

record HysteriaSettings =
  hs_version :: jsval
  hs_hysterias :: "Hysteria list"

definition HysteriaSettings_new :: "client_draw \<Rightarrow> jsval \<Rightarrow> Hysteria list option \<Rightarrow> HysteriaSettings" where
  "HysteriaSettings_new r version hysterias =
     \<lparr>hs_version = dflt (JNum 2) version,
       hs_hysterias = (case hysterias of None \<Rightarrow> [Hysteria_new r JUndef []] | Some hs \<Rightarrow> hs)\<rparr>"

definition HysteriaSettings_fromJson :: "(nat \<Rightarrow> client_draw) \<Rightarrow> jsval \<Rightarrow> HysteriaSettings option" where
  "HysteriaSettings_fromJson r json0 = do {
     json \<leftarrow> members (dflt emptyObj json0);
     clients \<leftarrow> clients_of Hysteria_fromJson r (json ''clients'');
     Some (HysteriaSettings_new (r 0) (js_coalesce (json ''version'') (JNum 2)) (Some clients)) }"

definition HysteriaSettings_toJson :: "HysteriaSettings \<Rightarrow> jsval" where
  "HysteriaSettings_toJson this = JObj
     [(''version'', hs_version this), (''clients'', JArr (map Hysteria_toJson (hs_hysterias this)))]"

definition HysteriaSettings_ok :: "HysteriaSettings \<Rightarrow> bool" where
  "HysteriaSettings_ok x \<longleftrightarrow> nn_json (hs_version x) \<and> (\<forall>h \<in> set (hs_hysterias x). Hysteria_ok h)"

lemmas HysteriaSettings_defs = HysteriaSettings_new_def HysteriaSettings_fromJson_def
  HysteriaSettings_toJson_def HysteriaSettings_ok_def

interpretation hysteria_settings: settings_class "\<lambda>x. Some (HysteriaSettings_toJson x)"
  HysteriaSettings_fromJson HysteriaSettings_ok clean
proof unfold_locales
  show "\<lbrakk>clean j; draws_ok r; HysteriaSettings_fromJson r j = Some x\<rbrakk> \<Longrightarrow> HysteriaSettings_ok x"
    for j r x
    by (auto simp: HysteriaSettings_defs bind_eq_Some_conv intro!: nn_json_coalesce nn_json_num
        intro: clean_member dest: hysteria_client.clients_of_ok [OF clean_member, rotated 3])
next
  fix x j
  assume ok: "HysteriaSettings_ok x" and j: "Some (HysteriaSettings_toJson x) = Some j"
  obtain cs where "\<forall>r. clients_of Hysteria_fromJson r (wire (JArr (map Hysteria_toJson (hs_hysterias x)))) = Some cs"
    "\<forall>v \<in> set cs. Hysteria_ok v"
    "wire (JArr (map Hysteria_toJson cs)) = wire (JArr (map Hysteria_toJson (hs_hysterias x)))"
    by (rule hysteria_client.clients_reload [of "hs_hysterias x"])
      (use ok in \<open>auto simp: HysteriaSettings_ok_def\<close>)
  with ok j show "\<exists>y. (\<forall>r. HysteriaSettings_fromJson r (wire j) = Some y) \<and> HysteriaSettings_ok y
      \<and> map_option wire (Some (HysteriaSettings_toJson y)) = Some (wire j)"
    by (intro exI [of _ "x\<lparr>hs_hysterias := cs\<rparr>"])
      (auto simp: HysteriaSettings_defs nn_json_def dflt_obj simp del: wire.simps(6))
qed

section \<open>AmneziaWG and native WireGuard\<close>

record AmneziawgSettings =
  aw_clients :: "AwgPeer list"

definition AmneziawgSettings_new :: "AwgPeer list \<Rightarrow> AmneziawgSettings" where
  "AmneziawgSettings_new clients = \<lparr>aw_clients = clients\<rparr>"

definition AmneziawgSettings_fromJson :: "(nat \<Rightarrow> client_draw) \<Rightarrow> jsval \<Rightarrow> AmneziawgSettings option" where
  "AmneziawgSettings_fromJson r json0 = do {
     json \<leftarrow> members (dflt emptyObj json0);
     clients \<leftarrow> clients_of AwgPeer_fromJson r (json ''clients'');
     Some (AmneziawgSettings_new clients) }"

definition AmneziawgSettings_toJson :: "AmneziawgSettings \<Rightarrow> jsval" where
  "AmneziawgSettings_toJson this = JObj [(''clients'', JArr (map AwgPeer_toJson (aw_clients this)))]"

definition AmneziawgSettings_ok :: "AmneziawgSettings \<Rightarrow> bool" where
  "AmneziawgSettings_ok x \<longleftrightarrow> (\<forall>c \<in> set (aw_clients x). AwgPeer_ok c)"

lemmas AmneziawgSettings_defs = AmneziawgSettings_new_def AmneziawgSettings_fromJson_def AmneziawgSettings_toJson_def
  AmneziawgSettings_ok_def

interpretation amneziawg: settings_class "\<lambda>x. Some (AmneziawgSettings_toJson x)" AmneziawgSettings_fromJson
  AmneziawgSettings_ok clean
proof unfold_locales
  show "\<lbrakk>clean j; draws_ok r; AmneziawgSettings_fromJson r j = Some x\<rbrakk> \<Longrightarrow> AmneziawgSettings_ok x" for j r x
    by (auto simp: AmneziawgSettings_defs bind_eq_Some_conv
        dest: awg_client.clients_of_ok [OF clean_member, rotated 3])
next
  fix x j
  assume ok: "AmneziawgSettings_ok x" and j: "Some (AmneziawgSettings_toJson x) = Some j"
  obtain cs where "\<forall>r. clients_of AwgPeer_fromJson r (wire (JArr (map AwgPeer_toJson (aw_clients x)))) = Some cs"
    "\<forall>v \<in> set cs. AwgPeer_ok v"
    "wire (JArr (map AwgPeer_toJson cs)) = wire (JArr (map AwgPeer_toJson (aw_clients x)))"
    by (rule awg_client.clients_reload [of "aw_clients x"])
      (use ok in \<open>auto simp: AmneziawgSettings_ok_def\<close>)
  with j show "\<exists>y. (\<forall>r. AmneziawgSettings_fromJson r (wire j) = Some y) \<and> AmneziawgSettings_ok y
      \<and> map_option wire (Some (AmneziawgSettings_toJson y)) = Some (wire j)"
    by (intro exI [of _ "\<lparr>aw_clients = cs\<rparr>"])
      (auto simp: AmneziawgSettings_defs dflt_obj simp del: wire.simps(6))
qed

record NativewgSettings =
  nw_clients :: "WgPeer list"

definition NativewgSettings_new :: "WgPeer list \<Rightarrow> NativewgSettings" where
  "NativewgSettings_new clients = \<lparr>nw_clients = clients\<rparr>"

definition NativewgSettings_fromJson :: "(nat \<Rightarrow> client_draw) \<Rightarrow> jsval \<Rightarrow> NativewgSettings option" where
  "NativewgSettings_fromJson r json0 = do {
     json \<leftarrow> members (dflt emptyObj json0);
     clients \<leftarrow> clients_of WgPeer_fromJson r (json ''clients'');
     Some (NativewgSettings_new clients) }"

definition NativewgSettings_toJson :: "NativewgSettings \<Rightarrow> jsval" where
  "NativewgSettings_toJson this = JObj [(''clients'', JArr (map WgPeer_toJson (nw_clients this)))]"

definition NativewgSettings_ok :: "NativewgSettings \<Rightarrow> bool" where
  "NativewgSettings_ok x \<longleftrightarrow> (\<forall>c \<in> set (nw_clients x). WgPeer_ok c)"

lemmas NativewgSettings_defs = NativewgSettings_new_def NativewgSettings_fromJson_def NativewgSettings_toJson_def
  NativewgSettings_ok_def

interpretation nativewg: settings_class "\<lambda>x. Some (NativewgSettings_toJson x)" NativewgSettings_fromJson
  NativewgSettings_ok clean
proof unfold_locales
  show "\<lbrakk>clean j; draws_ok r; NativewgSettings_fromJson r j = Some x\<rbrakk> \<Longrightarrow> NativewgSettings_ok x" for j r x
    by (auto simp: NativewgSettings_defs bind_eq_Some_conv
        dest: wg_client.clients_of_ok [OF clean_member, rotated 3])
next
  fix x j
  assume ok: "NativewgSettings_ok x" and j: "Some (NativewgSettings_toJson x) = Some j"
  obtain cs where "\<forall>r. clients_of WgPeer_fromJson r (wire (JArr (map WgPeer_toJson (nw_clients x)))) = Some cs"
    "\<forall>v \<in> set cs. WgPeer_ok v"
    "wire (JArr (map WgPeer_toJson cs)) = wire (JArr (map WgPeer_toJson (nw_clients x)))"
    by (rule wg_client.clients_reload [of "nw_clients x"])
      (use ok in \<open>auto simp: NativewgSettings_ok_def\<close>)
  with j show "\<exists>y. (\<forall>r. NativewgSettings_fromJson r (wire j) = Some y) \<and> NativewgSettings_ok y
      \<and> map_option wire (Some (NativewgSettings_toJson y)) = Some (wire j)"
    by (intro exI [of _ "\<lparr>nw_clients = cs\<rparr>"])
      (auto simp: NativewgSettings_defs dflt_obj simp del: wire.simps(6))
qed

section \<open>Mixed and HTTP\<close>

text \<open>Rows saved before the clients had accounts only: an account becomes a client.\<close>

definition account_client :: "jsval \<Rightarrow> jsval option" where
  "account_client a = do {
     p \<leftarrow> members a;
     Some (JObj [(''email'', p ''user''), (''password'', p ''pass'')]) }"

definition raw_clients :: "(string \<Rightarrow> jsval) \<Rightarrow> jsval option" where
  "raw_clients json =
     (case json ''accounts'' of
        JArr accounts \<Rightarrow>
          if \<not> truthy (json ''clients'') then map_option JArr (traverse account_client accounts)
          else Some (json ''clients'')
      | _ \<Rightarrow> Some (json ''clients''))"

record MixedSettings =
  mx_clients :: "MixedClient list"
  mx_auth :: jsval
  mx_udp :: jsval
  mx_ip :: jsval

definition MixedSettings_new ::
  "client_draw \<Rightarrow> MixedClient list option \<Rightarrow> jsval \<Rightarrow> jsval \<Rightarrow> jsval \<Rightarrow> MixedSettings" where
  "MixedSettings_new r clients auth udp ip =
     \<lparr>mx_clients = (case clients of
         None \<Rightarrow> [MixedClient_new r JUndef JUndef JUndef JUndef JUndef JUndef JUndef JUndef JUndef
           JUndef JUndef JUndef]
       | Some cs \<Rightarrow> cs),
       mx_auth = dflt (JStr ''password'') auth, mx_udp = dflt (JBool False) udp,
       mx_ip = dflt (JStr ''127.0.0.1'') ip\<rparr>"

definition MixedSettings_fromJson :: "(nat \<Rightarrow> client_draw) \<Rightarrow> jsval \<Rightarrow> MixedSettings option" where
  "MixedSettings_fromJson r json0 = do {
     json \<leftarrow> members (dflt emptyObj json0);
     rawClients \<leftarrow> raw_clients json;
     clients \<leftarrow> clients_of MixedClient_fromJson r rawClients;
     Some (MixedSettings_new (r 0) (Some clients) (js_or (json ''auth'') (JStr ''password''))
       (js_or (json ''udp'') (JBool False)) (js_or (json ''ip'') (JStr ''127.0.0.1''))) }"

definition MixedSettings_toJson :: "MixedSettings \<Rightarrow> jsval" where
  "MixedSettings_toJson this = JObj
     [(''clients'', JArr (map MixedClient_toJson (mx_clients this))), (''auth'', mx_auth this),
      (''udp'', mx_udp this), (''ip'', mx_ip this)]"

definition MixedSettings_ok :: "MixedSettings \<Rightarrow> bool" where
  "MixedSettings_ok x \<longleftrightarrow> (\<forall>c \<in> set (mx_clients x). MixedClient_ok c)
     \<and> or_kept (JStr ''password'') (mx_auth x) \<and> or_kept (JBool False) (mx_udp x)
     \<and> or_kept (JStr ''127.0.0.1'') (mx_ip x)"

record HttpSettings =
  ht_clients :: "HttpClient list"
  ht_allowTransparent :: jsval

definition HttpSettings_new :: "client_draw \<Rightarrow> HttpClient list option \<Rightarrow> jsval \<Rightarrow> HttpSettings" where
  "HttpSettings_new r clients allowTransparent =
     \<lparr>ht_clients = (case clients of
         None \<Rightarrow> [HttpClient_new r JUndef JUndef JUndef JUndef JUndef JUndef JUndef JUndef JUndef
           JUndef JUndef JUndef]
       | Some cs \<Rightarrow> cs),
       ht_allowTransparent = dflt (JBool False) allowTransparent\<rparr>"

definition HttpSettings_fromJson :: "(nat \<Rightarrow> client_draw) \<Rightarrow> jsval \<Rightarrow> HttpSettings option" where
  "HttpSettings_fromJson r json0 = do {
     json \<leftarrow> members (dflt emptyObj json0);
     rawClients \<leftarrow> raw_clients json;
     clients \<leftarrow> clients_of HttpClient_fromJson r rawClients;
     Some (HttpSettings_new (r 0) (Some clients) (js_or (json ''allowTransparent'') (JBool False))) }"

definition HttpSettings_toJson :: "HttpSettings \<Rightarrow> jsval" where
  "HttpSettings_toJson this = JObj
     [(''clients'', JArr (map HttpClient_toJson (ht_clients this))),
      (''allowTransparent'', ht_allowTransparent this)]"

definition HttpSettings_ok :: "HttpSettings \<Rightarrow> bool" where
  "HttpSettings_ok x \<longleftrightarrow> (\<forall>c \<in> set (ht_clients x). HttpClient_ok c)
     \<and> or_kept (JBool False) (ht_allowTransparent x)"

lemmas MixedSettings_defs = MixedSettings_new_def MixedSettings_fromJson_def
  MixedSettings_toJson_def MixedSettings_ok_def
lemmas HttpSettings_defs = HttpSettings_new_def HttpSettings_fromJson_def HttpSettings_toJson_def
  HttpSettings_ok_def

text \<open>Documents whose accounts, if they are used, name a user and a password.\<close>

definition accounts_doc :: "jsval \<Rightarrow> bool" where
  "accounts_doc j \<longleftrightarrow> clean j \<and>
     (case mget j ''accounts'' of
        JArr accounts \<Rightarrow> \<forall>a \<in> set accounts. mget a ''user'' \<noteq> JUndef \<and> mget a ''pass'' \<noteq> JUndef
      | _ \<Rightarrow> True)"

lemma account_client_json_ok:
  assumes "account_client a = Some c" "clean a" "mget a ''user'' \<noteq> JUndef" "mget a ''pass'' \<noteq> JUndef"
  shows "json_ok c"
proof -
  obtain p where p: "members a = Some p" "c = JObj [(''email'', p ''user''), (''password'', p ''pass'')]"
    using assms(1) by (auto simp: account_client_def bind_eq_Some_conv)
  then have "clean (p k)" for k using clean_members [OF assms(2)] by simp
  with p assms(3,4) show ?thesis by (auto simp: mget_def json_ok_clean)
qed

lemma raw_clients_clean:
  assumes "accounts_doc j" "members (dflt emptyObj j) = Some json" "raw_clients json = Some v"
  shows "clean v"
proof -
  have cl: "clean (json k)" for k
    by (rule clean_member [OF assms(2)]) (use assms(1) in \<open>simp add: accounts_doc_def\<close>)
  have jk: "mget j k = json k" for k
    using assms(2) by (auto simp: mget_def dflt_def split: if_splits)
  show ?thesis
  proof (cases "\<exists>as. json ''accounts'' = JArr as \<and> \<not> truthy (json ''clients'')")
    case True
    then obtain as cs where as: "json ''accounts'' = JArr as" "traverse account_client as = Some cs"
      "v = JArr cs" using assms(3) by (auto simp: raw_clients_def)
    have "\<forall>c \<in> set cs. json_ok c"
      using assms(1) cl [of "''accounts''"] as(1)
      by (intro traverse_all [OF as(2)] account_client_json_ok)
        (auto simp: accounts_doc_def jk clean_json_ok)
    with as(3) show ?thesis by simp
  next
    case False
    with assms(3) have "v = json ''clients''"
      by (cases "json ''accounts''") (auto simp: raw_clients_def)
    with cl show ?thesis by simp
  qed
qed

lemma raw_clients_saved: "json ''accounts'' = JUndef \<Longrightarrow> raw_clients json = Some (json ''clients'')"
  by (simp add: raw_clients_def)

interpretation mixed: settings_class "\<lambda>x. Some (MixedSettings_toJson x)" MixedSettings_fromJson
  MixedSettings_ok accounts_doc
proof unfold_locales
  fix j r x
  assume doc: "accounts_doc j" and r: "draws_ok r" and d: "MixedSettings_fromJson r j = Some x"
  then obtain json rc cs where json: "members (dflt emptyObj j) = Some json"
    and rc: "raw_clients json = Some rc" and cs: "clients_of MixedClient_fromJson r rc = Some cs"
    by (auto simp: MixedSettings_fromJson_def bind_eq_Some_conv)
  have "\<forall>c \<in> set cs. MixedClient_ok c"
    by (rule mixed_client.clients_of_ok [OF raw_clients_clean [OF doc json rc] r cs])
  moreover have "clean (json k)" for k
    by (rule clean_member [OF json]) (use doc in \<open>simp add: accounts_doc_def\<close>)
  ultimately show "MixedSettings_ok x"
    using d json rc cs by (auto simp: MixedSettings_defs or_kept_dflt_or)
next
  fix x j
  assume ok: "MixedSettings_ok x" and j: "Some (MixedSettings_toJson x) = Some j"
  obtain cs where "\<forall>r. clients_of MixedClient_fromJson r (wire (JArr (map MixedClient_toJson (mx_clients x)))) = Some cs"
    "\<forall>v \<in> set cs. MixedClient_ok v"
    "wire (JArr (map MixedClient_toJson cs)) = wire (JArr (map MixedClient_toJson (mx_clients x)))"
    by (rule mixed_client.clients_reload [of "mx_clients x"]) (use ok in \<open>auto simp: MixedSettings_ok_def\<close>)
  with ok j show "\<exists>y. (\<forall>r. MixedSettings_fromJson r (wire j) = Some y) \<and> MixedSettings_ok y
      \<and> map_option wire (Some (MixedSettings_toJson y)) = Some (wire j)"
    by (intro exI [of _ "x\<lparr>mx_clients := cs\<rparr>"])
      (auto simp: MixedSettings_defs or_kept_def dflt_obj raw_clients_saved simp del: wire.simps(6))
qed

interpretation http: settings_class "\<lambda>x. Some (HttpSettings_toJson x)" HttpSettings_fromJson
  HttpSettings_ok accounts_doc
proof unfold_locales
  fix j r x
  assume doc: "accounts_doc j" and r: "draws_ok r" and d: "HttpSettings_fromJson r j = Some x"
  then obtain json rc cs where json: "members (dflt emptyObj j) = Some json"
    and rc: "raw_clients json = Some rc" and cs: "clients_of HttpClient_fromJson r rc = Some cs"
    by (auto simp: HttpSettings_fromJson_def bind_eq_Some_conv)
  have "\<forall>c \<in> set cs. HttpClient_ok c"
    by (rule http_client.clients_of_ok [OF raw_clients_clean [OF doc json rc] r cs])
  moreover have "clean (json k)" for k
    by (rule clean_member [OF json]) (use doc in \<open>simp add: accounts_doc_def\<close>)
  ultimately show "HttpSettings_ok x"
    using d json rc cs by (auto simp: HttpSettings_defs or_kept_dflt_or)
next
  fix x j
  assume ok: "HttpSettings_ok x" and j: "Some (HttpSettings_toJson x) = Some j"
  obtain cs where "\<forall>r. clients_of HttpClient_fromJson r (wire (JArr (map HttpClient_toJson (ht_clients x)))) = Some cs"
    "\<forall>v \<in> set cs. HttpClient_ok v"
    "wire (JArr (map HttpClient_toJson cs)) = wire (JArr (map HttpClient_toJson (ht_clients x)))"
    by (rule http_client.clients_reload [of "ht_clients x"]) (use ok in \<open>auto simp: HttpSettings_ok_def\<close>)
  with ok j show "\<exists>y. (\<forall>r. HttpSettings_fromJson r (wire j) = Some y) \<and> HttpSettings_ok y
      \<and> map_option wire (Some (HttpSettings_toJson y)) = Some (wire j)"
    by (intro exI [of _ "x\<lparr>ht_clients := cs\<rparr>"])
      (auto simp: HttpSettings_defs or_kept_def dflt_obj raw_clients_saved simp del: wire.simps(6))
qed

section \<open>Tunnel\<close>

record TunnelSettings =
  tn_address :: jsval
  tn_port :: jsval
  tn_portMap :: "header list"
  tn_network :: jsval
  tn_followRedirect :: jsval

definition TunnelSettings_new ::
  "jsval \<Rightarrow> jsval \<Rightarrow> header list \<Rightarrow> jsval \<Rightarrow> jsval \<Rightarrow> TunnelSettings" where
  "TunnelSettings_new address port portMap network followRedirect =
     \<lparr>tn_address = address, tn_port = port, tn_portMap = portMap,
       tn_network = dflt (JStr ''tcp,udp'') network,
       tn_followRedirect = dflt (JBool False) followRedirect\<rparr>"

definition TunnelSettings_fromJson :: "jsval \<Rightarrow> TunnelSettings option" where
  "TunnelSettings_fromJson json0 = do {
     json \<leftarrow> members (dflt emptyObj json0);
     portMap \<leftarrow> toHeaders (json ''portMap'');
     Some (TunnelSettings_new (json ''address'') (json ''port'') portMap (json ''network'')
       (json ''followRedirect'')) }"

definition TunnelSettings_toJson :: "TunnelSettings \<Rightarrow> jsval option" where
  "TunnelSettings_toJson this = do {
     portMap \<leftarrow> toV2Headers (tn_portMap this) False;
     Some (JObj
       [(''address'', tn_address this), (''port'', tn_port this), (''portMap'', portMap),
        (''network'', tn_network this), (''followRedirect'', tn_followRedirect this)]) }"

definition TunnelSettings_ok :: "TunnelSettings \<Rightarrow> bool" where
  "TunnelSettings_ok x \<longleftrightarrow> clean (tn_address x) \<and> clean (tn_port x) \<and> headers_flat (tn_portMap x)
     \<and> json_ok (tn_network x) \<and> json_ok (tn_followRedirect x)"

definition tunnel_doc :: "jsval \<Rightarrow> bool" where
  "tunnel_doc j \<longleftrightarrow> clean j \<and> flat_doc (mget j ''portMap'')"

lemmas TunnelSettings_defs = TunnelSettings_new_def TunnelSettings_fromJson_def
  TunnelSettings_toJson_def TunnelSettings_ok_def

interpretation tunnel: settings_class TunnelSettings_toJson "\<lambda>r. TunnelSettings_fromJson"
  TunnelSettings_ok tunnel_doc
proof unfold_locales
  fix j x and r :: "nat \<Rightarrow> client_draw"
  assume doc: "tunnel_doc j" and d: "TunnelSettings_fromJson j = Some x"
  then obtain json pm where json: "members (dflt emptyObj j) = Some json"
    and pm: "toHeaders (json ''portMap'') = Some pm"
    by (auto simp: TunnelSettings_fromJson_def bind_eq_Some_conv)
  have "mget j k = json k" for k
    using json by (auto simp: mget_def dflt_def split: if_splits)
  with doc pm have "headers_flat pm" by (auto simp: tunnel_doc_def dest: toHeaders_flat)
  moreover have "clean (json k)" for k
    by (rule clean_member [OF json]) (use doc in \<open>simp add: tunnel_doc_def\<close>)
  ultimately show "TunnelSettings_ok x"
    using d json pm by (auto simp: TunnelSettings_defs json_ok_dflt)
next
  fix x j
  assume ok: "TunnelSettings_ok x" and j: "TunnelSettings_toJson x = Some j"
  then obtain v where v: "toV2Headers (tn_portMap x) False = Some v"
    by (auto simp: TunnelSettings_toJson_def bind_eq_Some_conv)
  from ok have "headers_flat (tn_portMap x)" by (simp add: TunnelSettings_ok_def)
  from flat_headers_again [OF this v] obtain hs where
    "toHeaders v = Some hs" "headers_flat hs" "toV2Headers hs False = Some v" "json_ok v" .
  with ok v j show "\<exists>y. (\<forall>r :: nat \<Rightarrow> client_draw. TunnelSettings_fromJson (wire j) = Some y)
      \<and> TunnelSettings_ok y \<and> map_option wire (TunnelSettings_toJson y) = Some (wire j)"
    by (intro exI [of _ "x\<lparr>tn_portMap := hs\<rparr>"])
      (auto simp: TunnelSettings_defs dflt_obj oget_wire_props wire_clean simp del: wire_props.simps)
qed

section \<open>TUN\<close>

text \<open>\<open>Number(v) || d\<close>: \<open>NaN\<close> and 0 give the default.\<close>

definition number_or :: "jsval \<Rightarrow> int \<Rightarrow> int" where
  "number_or v d = (case js_number v of None \<Rightarrow> d | Some n \<Rightarrow> if n = 0 then d else n)"

definition normalizeMtu :: "jsval \<Rightarrow> jsval" where
  "normalizeMtu mtu = (case mtu of
     JArr [] \<Rightarrow> JArr [JNum 1500, JNum 1280]
   | JArr [a] \<Rightarrow> JArr [JNum (number_or a 1500), JNum (number_or a 1500)]
   | JArr (a # b # rest) \<Rightarrow> JArr [JNum (number_or a 1500), JNum (number_or b 1280)]
   | v \<Rightarrow> JArr [JNum (number_or v 1500), JNum (number_or v 1500)])"

record TunSettings =
  tun_name :: jsval
  tun_mtu :: jsval
  tun_gateway :: jsval
  tun_dns :: jsval
  tun_userLevel :: jsval
  tun_autoSystemRoutingTable :: jsval
  tun_autoOutboundsInterface :: jsval

definition arrayize :: "jsval \<Rightarrow> jsval" where
  "arrayize v = (let v = dflt (JArr []) v in if is_array v then v else JArr [])"

definition TunSettings_new ::
  "jsval \<Rightarrow> jsval \<Rightarrow> jsval \<Rightarrow> jsval \<Rightarrow> jsval \<Rightarrow> jsval \<Rightarrow> jsval \<Rightarrow> TunSettings" where
  "TunSettings_new name mtu gateway dns userLevel autoSystemRoutingTable autoOutboundsInterface =
     \<lparr>tun_name = dflt (JStr ''xray0'') name,
       tun_mtu = normalizeMtu (dflt (JArr [JNum 1500, JNum 1280]) mtu),
       tun_gateway = arrayize gateway, tun_dns = arrayize dns,
       tun_userLevel = dflt (JNum 0) userLevel,
       tun_autoSystemRoutingTable = arrayize autoSystemRoutingTable,
       tun_autoOutboundsInterface = dflt (JStr ''auto'') autoOutboundsInterface\<rparr>"

fun hasOwnProperty :: "jsval \<Rightarrow> string \<Rightarrow> bool" where
  "hasOwnProperty (JObj ps) k = (k \<in> fst ` set ps)"
| "hasOwnProperty _ k = False"

definition TunSettings_fromJson :: "jsval \<Rightarrow> TunSettings option" where
  "TunSettings_fromJson json0 = do {
     let j = dflt emptyObj json0;
     json \<leftarrow> members j;
     Some (TunSettings_new (js_coalesce (json ''name'') (JStr ''xray0''))
       (js_coalesce (json ''mtu'') (js_coalesce (json ''MTU'') (JArr [JNum 1500, JNum 1280])))
       (js_coalesce (json ''gateway'') (js_coalesce (json ''Gateway'') (JArr [])))
       (js_coalesce (json ''dns'') (js_coalesce (json ''DNS'') (JArr [])))
       (js_coalesce (json ''userLevel'') (JNum 0))
       (js_coalesce (json ''autoSystemRoutingTable'') (JArr []))
       (if hasOwnProperty j ''autoOutboundsInterface'' then json ''autoOutboundsInterface''
        else JStr ''auto'')) }"

definition TunSettings_toJson :: "TunSettings \<Rightarrow> jsval" where
  "TunSettings_toJson this = JObj
     [(''name'', js_or (tun_name this) (JStr ''xray0'')), (''mtu'', normalizeMtu (tun_mtu this)),
      (''gateway'', tun_gateway this), (''dns'', tun_dns this),
      (''userLevel'', js_or (tun_userLevel this) (JNum 0)),
      (''autoSystemRoutingTable'', tun_autoSystemRoutingTable this),
      (''autoOutboundsInterface'', tun_autoOutboundsInterface this)]"

definition json_array :: "jsval \<Rightarrow> bool" where
  "json_array v \<longleftrightarrow> json_ok v \<and> is_array v"

definition TunSettings_ok :: "TunSettings \<Rightarrow> bool" where
  "TunSettings_ok x \<longleftrightarrow> json_ok (tun_name x) \<and> (\<exists>v. tun_mtu x = normalizeMtu v)
     \<and> json_array (tun_gateway x) \<and> json_array (tun_dns x) \<and> json_ok (tun_userLevel x)
     \<and> json_array (tun_autoSystemRoutingTable x) \<and> json_ok (tun_autoOutboundsInterface x)"

lemma number_or_nonzero: "d \<noteq> 0 \<Longrightarrow> number_or v d \<noteq> 0"
  by (auto simp: number_or_def split: option.splits)

lemma number_or_JNum: "n \<noteq> 0 \<Longrightarrow> number_or (JNum n) d = n"
  by (simp add: number_or_def)

lemma normalizeMtu_shape: "\<exists>a b. normalizeMtu v = JArr [JNum a, JNum b] \<and> a \<noteq> 0 \<and> b \<noteq> 0"
  by (auto simp: normalizeMtu_def number_or_nonzero split: jsval.split list.split)

lemma normalizeMtu_idem: "normalizeMtu (normalizeMtu v) = normalizeMtu v"
proof -
  obtain a b where "normalizeMtu v = JArr [JNum a, JNum b]" "a \<noteq> 0" "b \<noteq> 0"
    using normalizeMtu_shape by blast
  then show ?thesis by (simp add: normalizeMtu_def [of "JArr [JNum a, JNum b]"] number_or_JNum)
qed

lemma normalizeMtu_json: "json_ok (normalizeMtu v)" "\<not> nullish (normalizeMtu v)"
  using normalizeMtu_shape [of v] by (auto simp: nullish_def)

lemma json_array_arrayize: "clean v \<Longrightarrow> json_array (arrayize v)"
  by (cases v) (auto simp: arrayize_def dflt_def json_array_def)

lemma json_array_conv: "json_array v \<longleftrightarrow> (\<exists>xs. v = JArr xs \<and> json_ok v)"
  by (cases v) (auto simp: json_array_def)

lemma arrayize_kept: "json_array v \<Longrightarrow> arrayize (js_coalesce v d) = v"
  by (auto simp: json_array_conv arrayize_def js_coalesce_def nullish_def dflt_def)

lemmas TunSettings_defs = TunSettings_new_def TunSettings_fromJson_def TunSettings_toJson_def
  TunSettings_ok_def

lemma clean_coalesce: "\<lbrakk>clean v; json_ok d\<rbrakk> \<Longrightarrow> clean (js_coalesce v d)"
  by (rule clean_json_ok) (rule json_ok_coalesce)

interpretation tun: settings_class "\<lambda>x. Some (TunSettings_toJson x)" "\<lambda>r. TunSettings_fromJson"
  TunSettings_ok clean
proof unfold_locales
  fix j x and r :: "nat \<Rightarrow> client_draw"
  assume j: "clean j" and d: "TunSettings_fromJson j = Some x"
  then obtain json where json: "members (dflt emptyObj j) = Some json"
    by (auto simp: TunSettings_fromJson_def Let_def bind_eq_Some_conv)
  have cl: "clean (json k)" for k by (rule clean_member [OF json j])
  with d json show "TunSettings_ok x"
    by (auto simp: TunSettings_defs Let_def json_ok_dflt clean_coalesce json_ok_coalesce
        json_array_arrayize)
next
  fix x j
  assume ok: "TunSettings_ok x" and j: "Some (TunSettings_toJson x) = Some j"
  obtain v where "tun_mtu x = normalizeMtu v" using ok by (auto simp: TunSettings_ok_def)
  then have mtu: "normalizeMtu (tun_mtu x) = tun_mtu x" "json_ok (tun_mtu x)" "tun_mtu x \<noteq> JNull"
    using normalizeMtu_json [of v] by (simp_all add: normalizeMtu_idem nullish_def)
  have arr: "json_ok (tun_gateway x)" "json_ok (tun_dns x)" "json_ok (tun_autoSystemRoutingTable x)"
    using ok by (auto simp: TunSettings_ok_def json_array_def)
  have top: "js_coalesce (js_or v d) e = js_or v d" "wire (js_or v d) = js_or v d"
    "dflt e (js_or v d) = js_or v d" "js_or (js_or v d) d = js_or v d"
    if "json_ok v" "json_ok d" "d \<noteq> JNull" for v d e
    using that by (auto simp: js_or_def js_coalesce_def nullish_def)
  let ?y = "x\<lparr>tun_name := js_or (tun_name x) (JStr ''xray0''),
    tun_userLevel := js_or (tun_userLevel x) (JNum 0)\<rparr>"
  have "TunSettings_fromJson (wire j) = Some ?y"
    using ok j mtu arr
    by (auto simp: TunSettings_defs dflt_obj top arrayize_kept js_or_def truthy_not_nullish
        split: if_splits intro!: TunSettings.equality)
  moreover have "TunSettings_ok ?y"
    using ok by (auto simp: TunSettings_ok_def json_ok_js_or clean_json_ok)
  moreover have "TunSettings_toJson ?y = TunSettings_toJson x"
    using ok by (simp add: TunSettings_toJson_def js_or_def)
  ultimately show "\<exists>y. (\<forall>r :: nat \<Rightarrow> client_draw. TunSettings_fromJson (wire j) = Some y)
      \<and> TunSettings_ok y \<and> map_option wire (Some (TunSettings_toJson y)) = Some (wire j)"
    using j by (intro exI [of _ ?y]) simp
qed

section \<open>MTProto\<close>

record MtprotoSettings =
  mt_clients :: "MtprotoClient list"
  mt_fakeTlsDomain :: jsval
  mt_routeThroughXray :: jsval
  mt_outboundTag :: jsval
  mt_debug :: jsval
  mt_proxyProtocolListener :: jsval
  mt_preferIp :: jsval
  mt_concurrency :: jsval
  mt_publicIpv4 :: jsval
  mt_publicIpv6 :: jsval
  mt_tolerateTimeSkewness :: jsval
  mt_dns :: jsval
  mt_df_host :: jsval
  mt_df_port :: jsval
  mt_df_proxyProtocol :: jsval
  mt_dg_urls :: "jsval list"
  mt_dg_repeatsPerRaid :: jsval
  mt_dg_raidEach :: jsval
  mt_dg_drs :: jsval
  mt_ar_enabled :: jsval
  mt_bl_enabled :: jsval
  mt_bl_urls :: "jsval list"

definition MtprotoSettings_new ::
  "client_draw \<Rightarrow> MtprotoClient list option \<Rightarrow> jsval \<Rightarrow> jsval \<Rightarrow> jsval \<Rightarrow> MtprotoSettings" where
  "MtprotoSettings_new r clients fakeTlsDomain routeThroughXray outboundTag =
     \<lparr>mt_clients = (case clients of None \<Rightarrow> [MtprotoClient_new r JUndef []] | Some cs \<Rightarrow> cs),
       mt_fakeTlsDomain = dflt (JStr ''www.cloudflare.com'') fakeTlsDomain,
       mt_routeThroughXray = dflt (JBool False) routeThroughXray,
       mt_outboundTag = dflt (JStr []) outboundTag,
       mt_debug = JBool False, mt_proxyProtocolListener = JBool False, mt_preferIp = JStr [],
       mt_concurrency = JNum 0, mt_publicIpv4 = JStr [], mt_publicIpv6 = JStr [],
       mt_tolerateTimeSkewness = JStr [], mt_dns = JStr [],
       mt_df_host = JStr [], mt_df_port = JNum 0, mt_df_proxyProtocol = JBool False,
       mt_dg_urls = [], mt_dg_repeatsPerRaid = JNum 0, mt_dg_raidEach = JStr [],
       mt_dg_drs = JBool False, mt_ar_enabled = JBool True,
       mt_bl_enabled = JBool True, mt_bl_urls = []\<rparr>"

definition js_bool :: "jsval \<Rightarrow> jsval" where
  "js_bool v = JBool (truthy v)"

definition enabled_flag :: "jsval \<Rightarrow> jsval" where
  "enabled_flag v = (if v \<noteq> JUndef then js_bool v else JBool True)"

fun array_items :: "jsval \<Rightarrow> jsval list" where
  "array_items (JArr xs) = xs"
| "array_items _ = []"

definition applyMtgOptions :: "jsval \<Rightarrow> MtprotoSettings \<Rightarrow> MtprotoSettings option" where
  "applyMtgOptions json0 this = do {
     json \<leftarrow> members (dflt emptyObj json0);
     let df = mget (js_or (json ''domainFronting'') emptyObj);
     let dg = mget (js_or (json ''doppelganger'') emptyObj);
     let ar = mget (js_or (json ''antiReplay'') emptyObj);
     let bl = mget (js_or (json ''blocklist'') emptyObj);
     Some (this\<lparr>mt_debug := js_bool (json ''debug''),
       mt_proxyProtocolListener := js_bool (json ''proxyProtocolListener''),
       mt_preferIp := js_or (json ''preferIp'') (JStr []),
       mt_concurrency := js_or (json ''concurrency'') (JNum 0),
       mt_publicIpv4 := js_or (json ''publicIpv4'') (JStr []),
       mt_publicIpv6 := js_or (json ''publicIpv6'') (JStr []),
       mt_tolerateTimeSkewness := js_or (json ''tolerateTimeSkewness'') (JStr []),
       mt_dns := js_or (json ''dns'') (JStr []),
       mt_df_host := js_or (df ''host'') (js_or (df ''ip'') (JStr [])),
       mt_df_port := js_or (df ''port'') (JNum 0),
       mt_df_proxyProtocol := js_bool (df ''proxyProtocol''),
       mt_dg_urls := array_items (dg ''urls''),
       mt_dg_repeatsPerRaid := js_or (dg ''repeatsPerRaid'') (JNum 0),
       mt_dg_raidEach := js_or (dg ''raidEach'') (JStr []),
       mt_dg_drs := js_bool (dg ''drs''),
       mt_ar_enabled := enabled_flag (ar ''enabled''),
       mt_bl_enabled := enabled_flag (bl ''enabled''),
       mt_bl_urls := array_items (bl ''urls'')\<rparr>) }"

definition MtprotoSettings_addClient :: "client_draw \<Rightarrow> MtprotoClient option \<Rightarrow> MtprotoSettings \<Rightarrow> MtprotoSettings" where
  "MtprotoSettings_addClient r client this = this\<lparr>mt_clients := mt_clients this @
     [case client of Some c \<Rightarrow> c | None \<Rightarrow> MtprotoClient_new r JUndef []]\<rparr>"

definition MtprotoSettings_delClient :: "int \<Rightarrow> MtprotoSettings \<Rightarrow> MtprotoSettings" where
  "MtprotoSettings_delClient index this = this\<lparr>mt_clients := splice1 index (mt_clients this)\<rparr>"

definition MtprotoSettings_fromJson :: "(nat \<Rightarrow> client_draw) \<Rightarrow> jsval \<Rightarrow> MtprotoSettings option" where
  "MtprotoSettings_fromJson r json0 = do {
     json \<leftarrow> members (dflt emptyObj json0);
     clients \<leftarrow> clients_of MtprotoClient_fromJson r (json ''clients'');
     applyMtgOptions (dflt emptyObj json0) (MtprotoSettings_new (r 0) (Some clients)
       (json ''fakeTlsDomain'') (json ''routeThroughXray'') (json ''outboundTag'')) }"

text \<open>\<open>urls.filter(u => u && u.trim())\<close>: of the truthy values, strings alone have \<open>trim\<close>.\<close>

fun nonblank :: "jsval list \<Rightarrow> jsval list option" where
  "nonblank [] = Some []"
| "nonblank (u # us) =
     (if truthy u then (case u of
         JStr s \<Rightarrow> map_option (\<lambda>vs. if js_trim s \<noteq> [] then u # vs else vs) (nonblank us)
       | _ \<Rightarrow> None)
      else nonblank us)"

definition MtprotoSettings_toJson :: "MtprotoSettings \<Rightarrow> jsval option" where
  "MtprotoSettings_toJson this = do {
     dg_urls \<leftarrow> nonblank (mt_dg_urls this);
     bl_urls \<leftarrow> nonblank (mt_bl_urls this);
     Some (JObj
       [(''clients'', JArr (map MtprotoClient_toJson (mt_clients this))),
        (''fakeTlsDomain'', mt_fakeTlsDomain this),
        (''routeThroughXray'', mt_routeThroughXray this),
        (''outboundTag'', if truthy (mt_routeThroughXray this)
           then js_or (mt_outboundTag this) (JStr []) else JStr []),
        (''debug'', mt_debug this), (''proxyProtocolListener'', mt_proxyProtocolListener this),
        (''preferIp'', js_or (mt_preferIp this) (JStr [])),
        (''concurrency'', js_or (mt_concurrency this) (JNum 0)),
        (''publicIpv4'', js_or (mt_publicIpv4 this) (JStr [])),
        (''publicIpv6'', js_or (mt_publicIpv6 this) (JStr [])),
        (''tolerateTimeSkewness'', js_or (mt_tolerateTimeSkewness this) (JStr [])),
        (''dns'', js_or (mt_dns this) (JStr [])),
        (''domainFronting'', JObj
           [(''host'', js_or (mt_df_host this) (JStr [])),
            (''port'', js_or (mt_df_port this) (JNum 0)),
            (''proxyProtocol'', js_bool (mt_df_proxyProtocol this))]),
        (''doppelganger'', JObj
           [(''urls'', JArr dg_urls),
            (''repeatsPerRaid'', js_or (mt_dg_repeatsPerRaid this) (JNum 0)),
            (''raidEach'', js_or (mt_dg_raidEach this) (JStr [])),
            (''drs'', js_bool (mt_dg_drs this))]),
        (''antiReplay'', JObj [(''enabled'', js_bool (mt_ar_enabled this))]),
        (''blocklist'', JObj
           [(''enabled'', js_bool (mt_bl_enabled this)), (''urls'', JArr bl_urls)])]) }"

lemma nonblank_strings: "nonblank us = Some vs \<Longrightarrow> \<forall>v \<in> set vs. \<exists>s. v = JStr s \<and> js_trim s \<noteq> []"
  by (induction us arbitrary: vs) (auto split: jsval.splits if_splits)

lemma nonblank_idem: "nonblank us = Some vs \<Longrightarrow> nonblank vs = Some vs"
proof (induction us arbitrary: vs)
  case Nil
  then show ?case by simp
next
  case (Cons u us)
  have "js_trim [] = []" by (simp add: js_trim_def)
  with Cons show ?case by (cases u) (auto split: if_splits)
qed

lemma nonblank_json_ok: "nonblank us = Some vs \<Longrightarrow> json_ok (JArr vs)"
  by (auto dest!: nonblank_strings)

definition is_flag :: "jsval \<Rightarrow> bool" where
  "is_flag v \<longleftrightarrow> (\<exists>b. v = JBool b)"

definition MtprotoSettings_ok :: "MtprotoSettings \<Rightarrow> bool" where
  "MtprotoSettings_ok x \<longleftrightarrow> (\<forall>c \<in> set (mt_clients x). MtprotoClient_ok c)
     \<and> json_ok (mt_fakeTlsDomain x) \<and> json_ok (mt_routeThroughXray x) \<and> json_ok (mt_outboundTag x)
     \<and> is_flag (mt_debug x) \<and> is_flag (mt_proxyProtocolListener x)
     \<and> or_kept (JStr []) (mt_preferIp x) \<and> or_kept (JNum 0) (mt_concurrency x)
     \<and> or_kept (JStr []) (mt_publicIpv4 x) \<and> or_kept (JStr []) (mt_publicIpv6 x)
     \<and> or_kept (JStr []) (mt_tolerateTimeSkewness x) \<and> or_kept (JStr []) (mt_dns x)
     \<and> or_kept (JStr []) (mt_df_host x) \<and> or_kept (JNum 0) (mt_df_port x)
     \<and> is_flag (mt_df_proxyProtocol x) \<and> or_kept (JNum 0) (mt_dg_repeatsPerRaid x)
     \<and> or_kept (JStr []) (mt_dg_raidEach x) \<and> is_flag (mt_dg_drs x)
     \<and> is_flag (mt_ar_enabled x) \<and> is_flag (mt_bl_enabled x)"

lemma is_flag_js_bool [simp]: "is_flag (js_bool v)" "is_flag (enabled_flag v)" "is_flag (JBool b)"
  by (auto simp: is_flag_def js_bool_def enabled_flag_def)

lemma js_bool_flag: "is_flag v \<Longrightarrow> js_bool v = v" "is_flag v \<Longrightarrow> enabled_flag v = v"
  "is_flag v \<Longrightarrow> wire v = v" "is_flag v \<Longrightarrow> v \<noteq> JUndef"
  by (auto simp: is_flag_def js_bool_def enabled_flag_def)

lemma or_kept_facts: "or_kept d v \<Longrightarrow> js_or v d = v" "or_kept d v \<Longrightarrow> wire v = v"
  "or_kept d v \<Longrightarrow> json_ok v"
  by (auto simp: or_kept_def)

lemma or_kept_or2: "\<lbrakk>clean v; clean w; json_ok d\<rbrakk> \<Longrightarrow> or_kept d (js_or v (js_or w d))"
  by (auto simp: or_kept_def js_or_def clean_def)

lemma js_or_undef [simp]: "js_or JUndef d = d"
  by (simp add: js_or_def)

lemma js_or_kept2: "or_kept d v \<Longrightarrow> js_or v (js_or JUndef d) = v"
  by (simp add: or_kept_def)

lemma js_or_obj [simp]: "js_or (JObj ps) d = JObj ps"
  by (simp add: js_or_def)

lemma clean_or_obj: "clean v \<Longrightarrow> clean (mget (js_or v emptyObj) k)"
  by (rule clean_mget) (auto simp: js_or_def)

interpretation mtproto: settings_class MtprotoSettings_toJson MtprotoSettings_fromJson
  MtprotoSettings_ok clean
proof unfold_locales
  fix j r x
  assume j: "clean j" and r: "draws_ok r" and d: "MtprotoSettings_fromJson r j = Some x"
  then obtain json cs where json: "members (dflt emptyObj j) = Some json"
    and cs: "clients_of MtprotoClient_fromJson r (json ''clients'') = Some cs"
    by (auto simp: MtprotoSettings_fromJson_def bind_eq_Some_conv)
  have cl: "clean (json k)" for k by (rule clean_member [OF json j])
  have m: "members (dflt emptyObj (dflt emptyObj j)) = Some json"
    using json by (cases "j = JUndef") (simp_all add: dflt_def)
  have "\<forall>c \<in> set cs. MtprotoClient_ok c" by (rule mtproto_client.clients_of_ok [OF cl r cs])
  with d show "MtprotoSettings_ok x"
    unfolding MtprotoSettings_fromJson_def json bind.bind_lunit cs applyMtgOptions_def m Let_def
    by (simp add: MtprotoSettings_new_def)
      (auto simp: MtprotoSettings_ok_def json_ok_dflt cl or_kept_or or_kept_or2 clean_or_obj)
next
  fix x j
  assume ok: "MtprotoSettings_ok x" and j: "MtprotoSettings_toJson x = Some j"
  then obtain us vs where us: "nonblank (mt_dg_urls x) = Some us" "nonblank (mt_bl_urls x) = Some vs"
    by (auto simp: MtprotoSettings_toJson_def bind_eq_Some_conv)
  note uv = nonblank_idem [OF us(1)] nonblank_idem [OF us(2)]
    wire_json_ok [OF nonblank_json_ok [OF us(1)]] wire_json_ok [OF nonblank_json_ok [OF us(2)]]
  obtain cs where cs: "\<forall>r. clients_of MtprotoClient_fromJson r (wire (JArr (map MtprotoClient_toJson (mt_clients x)))) = Some cs"
    "\<forall>v \<in> set cs. MtprotoClient_ok v"
    "wire (JArr (map MtprotoClient_toJson cs)) = wire (JArr (map MtprotoClient_toJson (mt_clients x)))"
    by (rule mtproto_client.clients_reload [of "mt_clients x"])
      (use ok in \<open>auto simp: MtprotoSettings_ok_def\<close>)
  define tag where "tag = (if truthy (mt_routeThroughXray x) then js_or (mt_outboundTag x) (JStr []) else JStr [])"
  have tag: "json_ok tag" "wire tag = tag" "dflt d tag = tag" "js_or tag (JStr []) = tag"
    "truthy (mt_routeThroughXray x) \<Longrightarrow> js_or (mt_outboundTag x) (JStr []) = tag"
    "\<not> truthy (mt_routeThroughXray x) \<Longrightarrow> tag = JStr []" for d
    using ok by (auto simp: tag_def js_or_def MtprotoSettings_ok_def)
  let ?y = "x\<lparr>mt_clients := cs, mt_outboundTag := tag, mt_dg_urls := us, mt_bl_urls := vs\<rparr>"
  have y: "MtprotoSettings_ok ?y" using ok cs(2) tag(1) by (simp add: MtprotoSettings_ok_def)
  note k = ok [unfolded MtprotoSettings_ok_def]
  have kj: "json_ok (mt_preferIp x)" "json_ok (mt_concurrency x)" "json_ok (mt_publicIpv4 x)"
    "json_ok (mt_publicIpv6 x)" "json_ok (mt_tolerateTimeSkewness x)" "json_ok (mt_dns x)"
    "json_ok (mt_df_host x)" "json_ok (mt_df_port x)" "json_ok (mt_dg_repeatsPerRaid x)"
    "json_ok (mt_dg_raidEach x)"
    using k by (auto simp: or_kept_def)
  have kf: "mt_debug x \<noteq> JUndef" "mt_proxyProtocolListener x \<noteq> JUndef"
    "mt_df_proxyProtocol x \<noteq> JUndef" "mt_dg_drs x \<noteq> JUndef" "mt_ar_enabled x \<noteq> JUndef"
    "mt_bl_enabled x \<noteq> JUndef"
    using k by (auto simp: is_flag_def)
  define ps where "ps =
      [(''clients'', JArr (map MtprotoClient_toJson (mt_clients x))),
       (''fakeTlsDomain'', mt_fakeTlsDomain x),
       (''routeThroughXray'', mt_routeThroughXray x),
       (''outboundTag'', tag),
       (''debug'', mt_debug x),
       (''proxyProtocolListener'', mt_proxyProtocolListener x),
       (''preferIp'', mt_preferIp x),
       (''concurrency'', mt_concurrency x),
       (''publicIpv4'', mt_publicIpv4 x),
       (''publicIpv6'', mt_publicIpv6 x),
       (''tolerateTimeSkewness'', mt_tolerateTimeSkewness x),
       (''dns'', mt_dns x),
       (''domainFronting'', JObj [(''host'', mt_df_host x), (''port'', mt_df_port x),
            (''proxyProtocol'', mt_df_proxyProtocol x)]),
       (''doppelganger'', JObj [(''urls'', JArr us), (''repeatsPerRaid'', mt_dg_repeatsPerRaid x),
            (''raidEach'', mt_dg_raidEach x), (''drs'', mt_dg_drs x)]),
       (''antiReplay'', JObj [(''enabled'', mt_ar_enabled x)]),
       (''blocklist'', JObj [(''enabled'', mt_bl_enabled x), (''urls'', JArr vs)])]"
  have j': "j = JObj ps"
    using j us k unfolding MtprotoSettings_toJson_def tag_def [symmetric] ps_def
    by (simp add: or_kept_facts(1) js_bool_flag)
  have "distinct (map fst ps)" by (simp add: ps_def)
  then have memw: "members (wire j) = Some (\<lambda>k. wire (oget ps k))"
    using members_wire [of ps JNull] by (simp add: j' dflt_obj)
  have dj: "dflt d (wire j) = wire j" for d by (simp add: j' dflt_obj)
  have g: "oget ps ''clients'' = JArr (map MtprotoClient_toJson (mt_clients x))"
    "oget ps ''fakeTlsDomain'' = mt_fakeTlsDomain x"
    "oget ps ''routeThroughXray'' = mt_routeThroughXray x"
    "oget ps ''outboundTag'' = tag"
    "oget ps ''debug'' = mt_debug x"
    "oget ps ''proxyProtocolListener'' = mt_proxyProtocolListener x"
    "oget ps ''preferIp'' = mt_preferIp x"
    "oget ps ''concurrency'' = mt_concurrency x"
    "oget ps ''publicIpv4'' = mt_publicIpv4 x"
    "oget ps ''publicIpv6'' = mt_publicIpv6 x"
    "oget ps ''tolerateTimeSkewness'' = mt_tolerateTimeSkewness x"
    "oget ps ''dns'' = mt_dns x"
    "oget ps ''domainFronting'' = JObj [(''host'', mt_df_host x), (''port'', mt_df_port x),
            (''proxyProtocol'', mt_df_proxyProtocol x)]"
    "oget ps ''doppelganger'' = JObj [(''urls'', JArr us), (''repeatsPerRaid'', mt_dg_repeatsPerRaid x),
            (''raidEach'', mt_dg_raidEach x), (''drs'', mt_dg_drs x)]"
    "oget ps ''antiReplay'' = JObj [(''enabled'', mt_ar_enabled x)]"
    "oget ps ''blocklist'' = JObj [(''enabled'', mt_bl_enabled x), (''urls'', JArr vs)]"
    by (simp_all add: ps_def)
  have "MtprotoSettings_fromJson r (wire j) = Some ?y" for r
    unfolding MtprotoSettings_fromJson_def applyMtgOptions_def Let_def dj memw
    using cs(1) k uv
    by (simp add: g kj kf MtprotoSettings_new_def or_kept_facts(1) js_or_kept2 js_bool_flag tag
        del: wire.simps(6))
  moreover have "map_option wire (MtprotoSettings_toJson ?y) = Some (wire j)"
    using k uv cs(3) unfolding j' ps_def
    by (simp add: MtprotoSettings_toJson_def kj kf or_kept_facts(1) js_bool_flag tag del: wire.simps(6))
  ultimately show "\<exists>y. (\<forall>r. MtprotoSettings_fromJson r (wire j) = Some y) \<and> MtprotoSettings_ok y
      \<and> map_option wire (MtprotoSettings_toJson y) = Some (wire j)"
    using y by blast
qed

end
