(* ===== verification/Wireguard_Settings.thy ===== *)
theory Wireguard_Settings
  imports Wireguard Json_Codec
begin

text \<open>
  \<open>Inbound.WireguardSettings\<close> and its peers (\<open>web/assets/js/model/inbound.js\<close>), on the
  key arithmetic of \<open>Wireguard\<close>. A constructor that lacks a key draws one; the random bytes
  are the argument \<open>fresh\<close>.
\<close>

section \<open>Addresses\<close>

text \<open>\<open>if (a.length > 0 && !a.includes('/')) allowedIPs[index] += '/32'\<close>.\<close>

fun add_mask :: "jsval \<Rightarrow> jsval option" where
  "add_mask JUndef = None"
| "add_mask JNull = None"
| "add_mask (JStr s) = Some (JStr (if s \<noteq> [] \<and> CHR ''/'' \<notin> set s then s @ ''/32'' else s))"
| "add_mask (JArr xs) =
     Some (if xs \<noteq> [] \<and> JStr ''/'' \<notin> set xs then JStr (js_str (JArr xs) @ ''/32'') else JArr xs)"
| "add_mask (JObj ps) = (if gt0 (oget ps ''length'') then None else Some (JObj ps))"
| "add_mask v = Some v"

definition add_masks :: "jsval \<Rightarrow> jsval option" where
  "add_masks v = do { xs \<leftarrow> as_array v; ys \<leftarrow> traverse add_mask xs; Some (JArr ys) }"

lemma add_mask_idem: "add_mask v = Some w \<Longrightarrow> add_mask w = Some w"
  by (cases v) (auto split: if_splits)

lemma traverse_fixed:
  "\<lbrakk>traverse f xs = Some ys; \<And>x y. f x = Some y \<Longrightarrow> f y = Some y\<rbrakk> \<Longrightarrow> traverse f ys = Some ys"
  by (induction xs arbitrary: ys) (auto simp: bind_eq_Some_conv)

lemma add_masks_idem: "add_masks v = Some w \<Longrightarrow> add_masks w = Some w"
  by (cases v) (auto simp: add_masks_def bind_eq_Some_conv dest: traverse_fixed add_mask_idem)

lemma add_mask_masked: "add_mask (JStr s) = Some (JStr t) \<Longrightarrow> t = [] \<or> CHR ''/'' \<in> set t"
  by (auto split: if_splits)

section \<open>Peers\<close>

record Peer =
  peer_privateKey :: jsval
  peer_publicKey :: jsval
  peer_psk :: jsval
  peer_allowedIPs :: jsval
  peer_keepAlive :: jsval

definition Peer_new ::
  "int list \<Rightarrow> jsval \<Rightarrow> jsval \<Rightarrow> jsval \<Rightarrow> jsval \<Rightarrow> jsval \<Rightarrow> Peer option" where
  "Peer_new fresh privateKey publicKey psk allowedIPs keepAlive = do {
     keys \<leftarrow> (if truthy publicKey then Some (publicKey, privateKey)
       else map_option (\<lambda>kp. (JStr (kp_publicKey kp), JStr (kp_privateKey kp)))
         (generateKeypair fresh []));
     allowedIPs \<leftarrow> add_masks (dflt (JArr [JStr ''10.0.0.2/32'']) allowedIPs);
     Some \<lparr>peer_privateKey = snd keys, peer_publicKey = fst keys, peer_psk = dflt (JStr []) psk,
       peer_allowedIPs = allowedIPs, peer_keepAlive = dflt (JNum 0) keepAlive\<rparr> }"

definition Peer_fromJson :: "int list \<Rightarrow> jsval \<Rightarrow> Peer option" where
  "Peer_fromJson fresh json0 = do {
     json \<leftarrow> members (dflt emptyObj json0);
     Peer_new fresh (json ''privateKey'') (json ''publicKey'') (json ''preSharedKey'')
       (json ''allowedIPs'') (json ''keepAlive'') }"

text \<open>\<open>toJson\<close> completes the addresses of the peer itself as well.\<close>

definition Peer_toJson :: "Peer \<Rightarrow> (jsval \<times> Peer) option" where
  "Peer_toJson this = do {
     allowedIPs \<leftarrow> add_masks (peer_allowedIPs this);
     psk \<leftarrow> members (peer_psk this);
     Some (JObj
       [(''privateKey'', peer_privateKey this), (''publicKey'', peer_publicKey this),
        (''preSharedKey'', if gt0 (psk ''length'') then peer_psk this else JUndef),
        (''allowedIPs'', allowedIPs),
        (''keepAlive'', js_coalesce (peer_keepAlive this) JUndef)],
       this\<lparr>peer_allowedIPs := allowedIPs\<rparr>) }"

section \<open>The settings\<close>

record WireguardSettings =
  wg_mtu :: jsval
  wg_secretKey :: jsval
  wg_pubKey :: string
  wg_peers :: "Peer list"
  wg_noKernelTun :: jsval

text \<open>The draws of one constructor call: one for the secret key, one for each peer made or
  read.\<close>

definition WireguardSettings_new ::
  "(nat \<Rightarrow> int list) \<Rightarrow> jsval \<Rightarrow> jsval \<Rightarrow> Peer list option \<Rightarrow> jsval \<Rightarrow> WireguardSettings option" where
  "WireguardSettings_new fresh mtu secretKey peers noKernelTun = do {
     secretKey \<leftarrow> (if secretKey = JUndef
       then map_option (\<lambda>kp. JStr (kp_privateKey kp)) (generateKeypair (fresh 0) [])
       else Some secretKey);
     peers \<leftarrow> (case peers of
         Some ps \<Rightarrow> Some ps
       | None \<Rightarrow> map_option (\<lambda>p. [p]) (Peer_new (fresh 1) JUndef JUndef JUndef JUndef JUndef));
     sk \<leftarrow> members secretKey;
     pubKey \<leftarrow> (if gt0 (sk ''length'')
       then map_option kp_publicKey (generateKeypair (fresh 0) (js_str secretKey))
       else Some []);
     Some \<lparr>wg_mtu = dflt (JNum 1420) mtu, wg_secretKey = secretKey, wg_pubKey = pubKey,
       wg_peers = peers, wg_noKernelTun = dflt (JBool False) noKernelTun\<rparr> }"

definition addPeer :: "int list \<Rightarrow> WireguardSettings \<Rightarrow> WireguardSettings option" where
  "addPeer fresh this = do {
     p \<leftarrow> Peer_new fresh JNull JNull (JStr [])
       (JArr [JStr (''10.0.0.'' @ nat_str (length (wg_peers this) + 2))]) JUndef;
     Some (this\<lparr>wg_peers := wg_peers this @ [p]\<rparr>) }"

definition delPeer :: "int \<Rightarrow> WireguardSettings \<Rightarrow> WireguardSettings" where
  "delPeer index this = this\<lparr>wg_peers := splice1 index (wg_peers this)\<rparr>"

fun read_peers :: "(nat \<Rightarrow> int list) \<Rightarrow> jsval list \<Rightarrow> Peer list option" where
  "read_peers fresh [] = Some []"
| "read_peers fresh (j # js) = do {
     p \<leftarrow> Peer_fromJson (fresh 0) j;
     ps \<leftarrow> read_peers (\<lambda>i. fresh (Suc i)) js;
     Some (p # ps) }"

text \<open>Draw 0 is the secret key's, draw \<open>i + 2\<close> the one of peer \<open>i\<close>.\<close>

definition WireguardSettings_fromJson ::
  "(nat \<Rightarrow> int list) \<Rightarrow> jsval \<Rightarrow> WireguardSettings option" where
  "WireguardSettings_fromJson fresh json0 = do {
     json \<leftarrow> members (dflt emptyObj json0);
     js \<leftarrow> as_array (json ''peers'');
     peers \<leftarrow> read_peers (\<lambda>i. fresh (i + 2)) js;
     WireguardSettings_new fresh (json ''mtu'') (json ''secretKey'') (Some peers)
       (json ''noKernelTun'') }"

definition WireguardSettings_toJson :: "WireguardSettings \<Rightarrow> (jsval \<times> WireguardSettings) option" where
  "WireguardSettings_toJson this = do {
     ps \<leftarrow> traverse Peer_toJson (wg_peers this);
     Some (JObj
       [(''mtu'', js_coalesce (wg_mtu this) JUndef), (''secretKey'', wg_secretKey this),
        (''peers'', JArr (map fst ps)), (''noKernelTun'', wg_noKernelTun this)],
       this\<lparr>wg_peers := map snd ps\<rparr>) }"

section \<open>Keys\<close>

text \<open>A key pair is a function of its private key's text: reading back what was drawn computes
  the same public key.\<close>

lemma keypair_again:
  assumes "length fresh = 32" "\<forall>b \<in> set fresh. is_byte b" "generateKeypair fresh [] = Some kp"
  shows "generateKeypair fresh' (kp_privateKey kp) = Some kp"
proof -
  have kp: "kp = \<lparr>kp_publicKey = keyToBase64 (generatePublicKey (clamp fresh)),
      kp_privateKey = keyToBase64 (clamp fresh)\<rparr>"
    using assms(3) by (simp add: generateKeypair_def generatePrivateKey_def)
  have rt: "keyFromBase64 (keyToBase64 (clamp fresh)) = Some (clamp fresh)"
    by (rule key_text_roundtrip) (use clamp_bytes [OF assms(1,2)] in auto)
  have "keyFromBase64 [] = Some []" by (simp add: keyFromBase64_def js_atob_def)
  with rt clamp_bytes(1) [OF assms(1,2)] have "keyToBase64 (clamp fresh) \<noteq> []"
    by fastforce
  with rt show ?thesis by (simp add: kp generateKeypair_def)
qed

section \<open>Saving and reloading\<close>

definition Peer_ok :: "Peer \<Rightarrow> bool" where
  "Peer_ok p \<longleftrightarrow> clean (peer_privateKey p) \<and> json_ok (peer_publicKey p) \<and> truthy (peer_publicKey p)
     \<and> is_string (peer_psk p) \<and> json_ok (peer_allowedIPs p)
     \<and> add_masks (peer_allowedIPs p) = Some (peer_allowedIPs p)
     \<and> json_ok (peer_keepAlive p) \<and> peer_keepAlive p \<noteq> JNull"

lemma is_string_JStr: "is_string v \<Longrightarrow> \<exists>s. v = JStr s"
  by (cases v) auto

lemma Peer_roundtrip:
  assumes "Peer_ok p"
  shows "\<exists>j. Peer_toJson p = Some (j, p) \<and> (\<forall>fresh. Peer_fromJson fresh (wire j) = Some p)"
proof -
  obtain s where s: "peer_psk p = JStr s" using assms by (auto simp: Peer_ok_def dest: is_string_JStr)
  let ?ps = "[(''privateKey'', peer_privateKey p), (''publicKey'', peer_publicKey p),
        (''preSharedKey'', if s \<noteq> [] then JStr s else JUndef),
        (''allowedIPs'', peer_allowedIPs p), (''keepAlive'', peer_keepAlive p)]"
  have "Peer_toJson p = Some (JObj ?ps, p)"
    using assms s by (auto simp: Peer_toJson_def Peer_ok_def js_coalesce_def nullish_def)
  moreover have "Peer_fromJson fresh (wire (JObj ?ps)) = Some p" for fresh
  proof -
    have mem: "members (dflt emptyObj (wire (JObj ?ps))) = Some (\<lambda>k. wire (oget ?ps k))"
      by (rule members_wire) simp
    show ?thesis
      using assms s unfolding Peer_fromJson_def mem
      by (auto simp: Peer_ok_def Peer_new_def wire_clean intro!: Peer.equality)
  qed
  ultimately show ?thesis by blast
qed

definition public_of :: "jsval \<Rightarrow> string option" where
  "public_of secretKey =
     (case secretKey of
        JStr s \<Rightarrow> if s \<noteq> [] then map_option kp_publicKey (generateKeypair [] s) else Some []
      | _ \<Rightarrow> None)"

definition WireguardSettings_ok :: "WireguardSettings \<Rightarrow> bool" where
  "WireguardSettings_ok x \<longleftrightarrow> json_ok (wg_mtu x) \<and> wg_mtu x \<noteq> JNull
     \<and> public_of (wg_secretKey x) = Some (wg_pubKey x)
     \<and> (\<forall>p \<in> set (wg_peers x). Peer_ok p) \<and> json_ok (wg_noKernelTun x)"

lemma generateKeypair_given: "s \<noteq> [] \<Longrightarrow> generateKeypair fresh s = generateKeypair fresh' s"
  by (simp add: generateKeypair_def)

lemma peers_roundtrip:
  "\<forall>p \<in> set ps. Peer_ok p \<Longrightarrow>
   \<exists>qs. traverse Peer_toJson ps = Some qs \<and> map snd qs = ps \<and> (\<forall>q \<in> set qs. fst q \<noteq> JUndef)
     \<and> (\<forall>fresh. read_peers fresh (map wire (map fst qs)) = Some ps)"
proof (induction ps)
  case Nil
  then show ?case by simp
next
  case (Cons p ps)
  then obtain qs where qs: "traverse Peer_toJson ps = Some qs" "map snd qs = ps"
    "\<forall>q \<in> set qs. fst q \<noteq> JUndef" "\<forall>fresh. read_peers fresh (map wire (map fst qs)) = Some ps"
    by auto
  from Cons.prems Peer_roundtrip [of p] obtain j where j: "Peer_toJson p = Some (j, p)"
    "\<forall>fresh. Peer_fromJson fresh (wire j) = Some p" by auto
  then have "j \<noteq> JUndef" by (auto simp: Peer_toJson_def bind_eq_Some_conv)
  with qs j show ?case by (intro exI [of _ "(j, p) # qs"]) auto
qed

lemma wire_items_defined_map: "\<forall>x \<in> set xs. x \<noteq> JUndef \<Longrightarrow> wire_items xs = map wire xs"
  by (induction xs) auto

lemma WireguardSettings_roundtrip:
  assumes "WireguardSettings_ok x"
  shows "\<exists>j. WireguardSettings_toJson x = Some (j, x)
    \<and> (\<forall>fresh. WireguardSettings_fromJson fresh (wire j) = Some x)"
proof -
  obtain qs where qs: "traverse Peer_toJson (wg_peers x) = Some qs" "map snd qs = wg_peers x"
    "\<forall>q \<in> set qs. fst q \<noteq> JUndef"
    "\<forall>fresh. read_peers fresh (map wire (map fst qs)) = Some (wg_peers x)"
    using peers_roundtrip [of "wg_peers x"] assms by (auto simp: WireguardSettings_ok_def)
  obtain sk where sk: "wg_secretKey x = JStr sk"
    using assms by (cases "wg_secretKey x") (auto simp: WireguardSettings_ok_def public_of_def)
  have pub: "map_option kp_publicKey (generateKeypair fresh sk) = Some (wg_pubKey x)"
    if "sk \<noteq> []" for fresh
    using assms sk that generateKeypair_given [of sk fresh "[]"]
    by (simp add: WireguardSettings_ok_def public_of_def)
  have nopub: "wg_pubKey x = []" if "sk = []"
    using assms sk that by (simp add: WireguardSettings_ok_def public_of_def)
  let ?ps = "[(''mtu'', wg_mtu x), (''secretKey'', JStr sk), (''peers'', JArr (map fst qs)),
    (''noKernelTun'', wg_noKernelTun x)]"
  have "WireguardSettings_toJson x = Some (JObj ?ps, x)"
    using assms qs(1,2) sk
    by (auto simp: WireguardSettings_toJson_def WireguardSettings_ok_def js_coalesce_def nullish_def)
  moreover have "WireguardSettings_fromJson fresh (wire (JObj ?ps)) = Some x" for fresh
  proof -
    have mem: "members (dflt emptyObj (wire (JObj ?ps))) = Some (\<lambda>k. wire (oget ?ps k))"
      by (rule members_wire) simp
    have arr: "wire (JArr (map fst qs)) = JArr (map wire (map fst qs))"
      using qs(3) by (simp add: wire_items_defined_map)
    have rest: "json_ok (wg_mtu x)" "wg_mtu x \<noteq> JNull" "json_ok (wg_noKernelTun x)"
      using assms by (simp_all add: WireguardSettings_ok_def)
    show ?thesis
    proof (cases "sk = []")
      case True
      then show ?thesis
        unfolding WireguardSettings_fromJson_def mem
        using rest sk qs(4) nopub arr
        by (auto simp: WireguardSettings_new_def intro!: WireguardSettings.equality simp del: wire.simps(6))
    next
      case False
      then show ?thesis
        unfolding WireguardSettings_fromJson_def mem
        using rest sk qs(4) arr
        by (auto simp: pub WireguardSettings_new_def intro!: WireguardSettings.equality simp del: wire.simps(6) map_option_eq_Some)
    qed
  qed
  ultimately show ?thesis by blast
qed

section \<open>What is read is well-formed\<close>

definition string_or_absent :: "jsval \<Rightarrow> bool" where
  "string_or_absent v \<longleftrightarrow> v = JUndef \<or> is_string v"

definition peer_doc :: "jsval \<Rightarrow> bool" where
  "peer_doc j \<longleftrightarrow> string_or_absent (mget j ''preSharedKey'') \<and> mget j ''keepAlive'' \<noteq> JNull"

definition wireguard_doc :: "jsval \<Rightarrow> bool" where
  "wireguard_doc j \<longleftrightarrow> clean j \<and> mget j ''mtu'' \<noteq> JNull \<and> string_or_absent (mget j ''secretKey'')
     \<and> (case mget j ''peers'' of JArr ps \<Rightarrow> \<forall>p \<in> set ps. peer_doc p | _ \<Rightarrow> True)"

lemma keyToBase64_nonempty: "keyToBase64 key \<noteq> []"
  by (simp add: keyToBase64_def encodeBase64_def upt_rec)

lemma add_mask_json_ok: "\<lbrakk>add_mask v = Some w; json_ok v\<rbrakk> \<Longrightarrow> json_ok w"
  by (cases v) (auto split: if_splits)

lemma add_masks_json_ok: "\<lbrakk>add_masks v = Some w; json_ok v\<rbrakk> \<Longrightarrow> json_ok w"
  by (cases v) (auto simp: add_masks_def bind_eq_Some_conv dest!: traverse_all [where P = json_ok]
      intro: add_mask_json_ok)

lemma generateKeypair_public: "generateKeypair fresh s = Some kp \<Longrightarrow> kp_publicKey kp \<noteq> []"
  by (auto simp: generateKeypair_def bind_eq_Some_conv keyToBase64_nonempty)

lemma Peer_fromJson_ok:
  assumes "json_ok j" "peer_doc j" "Peer_fromJson fresh j = Some p"
  shows "Peer_ok p"
proof -
  obtain json where json: "members (dflt emptyObj j) = Some json"
    using assms(3) by (auto simp: Peer_fromJson_def bind_eq_Some_conv)
  have cl: "clean (json k)" for k by (rule clean_member [OF json clean_json_ok [OF assms(1)]])
  have jk: "mget j k = json k" for k using json assms(1) by (simp add: mget_def)
  obtain keys ips where p: "(if truthy (json ''publicKey'') then Some (json ''publicKey'', json ''privateKey'')
       else map_option (\<lambda>kp. (JStr (kp_publicKey kp), JStr (kp_privateKey kp)))
         (generateKeypair fresh [])) = Some keys"
    "add_masks (dflt (JArr [JStr ''10.0.0.2/32'']) (json ''allowedIPs'')) = Some ips"
    "p = \<lparr>peer_privateKey = snd keys, peer_publicKey = fst keys, peer_psk = dflt (JStr []) (json ''preSharedKey''),
       peer_allowedIPs = ips, peer_keepAlive = dflt (JNum 0) (json ''keepAlive'')\<rparr>"
    using assms(3) json by (auto simp: Peer_fromJson_def Peer_new_def bind_eq_Some_conv)
  have "clean (snd keys)" "json_ok (fst keys)" "truthy (fst keys)"
    using p(1) cl generateKeypair_public by (auto split: if_splits intro: json_ok_clean)
  moreover have "json_ok ips" "add_masks ips = Some ips"
    using p(2) add_masks_json_ok [OF p(2)] cl by (auto simp: json_ok_dflt dest: add_masks_idem)
  moreover have "is_string (dflt (JStr []) (json ''preSharedKey''))" "dflt (JNum 0) (json ''keepAlive'') \<noteq> JNull"
    using assms(2) unfolding peer_doc_def jk by (auto simp: string_or_absent_def dflt_def)
  ultimately show ?thesis using p(3) cl by (simp add: Peer_ok_def json_ok_dflt)
qed

lemma read_peers_ok:
  "\<lbrakk>\<forall>j \<in> set js. json_ok j \<and> peer_doc j; read_peers fresh js = Some ps\<rbrakk> \<Longrightarrow> \<forall>p \<in> set ps. Peer_ok p"
  by (induction js arbitrary: fresh ps) (auto simp: bind_eq_Some_conv intro: Peer_fromJson_ok)

lemma WireguardSettings_fromJson_ok:
  assumes "wireguard_doc j" "WireguardSettings_fromJson fresh j = Some x"
  shows "WireguardSettings_ok x"
proof -
  obtain json where json: "members (dflt emptyObj j) = Some json"
    using assms(2) by (auto simp: WireguardSettings_fromJson_def bind_eq_Some_conv)
  have j: "clean j" using assms(1) by (simp add: wireguard_doc_def)
  have cl: "clean (json k)" for k by (rule clean_member [OF json j])
  have jk: "mget j k = json k" for k
    using json by (auto simp: mget_def dflt_def split: if_splits)
  obtain js ps where js: "json ''peers'' = JArr js" "read_peers (\<lambda>i. fresh (i + 2)) js = Some ps"
    and new: "WireguardSettings_new fresh (json ''mtu'') (json ''secretKey'') (Some ps) (json ''noKernelTun'') = Some x"
    using assms(2) json by (cases "json ''peers''") (auto simp: WireguardSettings_fromJson_def bind_eq_Some_conv)
  have "\<forall>p \<in> set ps. Peer_ok p"
    using read_peers_ok [OF _ js(2)] assms(1) cl [of "''peers''"] unfolding wireguard_doc_def jk js(1) by auto
  moreover have "public_of (wg_secretKey x) = Some (wg_pubKey x)"
  proof (cases "json ''secretKey'' = JUndef")
    case True
    then obtain kp where kp: "generateKeypair (fresh 0) [] = Some kp" "wg_secretKey x = JStr (kp_privateKey kp)"
      "(if kp_privateKey kp \<noteq> [] then map_option kp_publicKey (generateKeypair (fresh 0) (kp_privateKey kp))
        else Some []) = Some (wg_pubKey x)"
      using new by (auto simp: WireguardSettings_new_def bind_eq_Some_conv split: if_splits)
    then show ?thesis using generateKeypair_given [of "kp_privateKey kp" "[]" "fresh 0"]
      by (auto simp: public_of_def split: if_splits)
  next
    case False
    then obtain s where s: "json ''secretKey'' = JStr s"
      using assms(1) unfolding wireguard_doc_def jk by (auto simp: string_or_absent_def dest: is_string_JStr)
    with new have "wg_secretKey x = JStr s"
      "(if s \<noteq> [] then map_option kp_publicKey (generateKeypair (fresh 0) s) else Some []) = Some (wg_pubKey x)"
      by (auto simp: WireguardSettings_new_def bind_eq_Some_conv split: if_splits)
    then show ?thesis using generateKeypair_given [of s "[]" "fresh 0"]
      by (auto simp: public_of_def split: if_splits)
  qed
  moreover have "json_ok (wg_mtu x)" "wg_mtu x \<noteq> JNull" "wg_peers x = ps" "json_ok (wg_noKernelTun x)"
    using new assms(1) cl unfolding wireguard_doc_def jk
    by (auto simp: WireguardSettings_new_def bind_eq_Some_conv json_ok_dflt dflt_def split: if_splits
        intro: json_ok_clean)
  ultimately show ?thesis by (simp add: WireguardSettings_ok_def)
qed

end
