(* ===== verification/Random_Util.thy ===== *)
theory Random_Util
  imports Js_Prelude "HOL-Library.Word" "HOL-Library.Multiset"
begin

unbundle bit_operations_syntax

text \<open>
  \<open>RandomUtil\<close> and \<open>Base64\<close> of \<open>web/assets/js/util/index.js\<close>. What
  \<open>crypto.getRandomValues\<close> filled the buffer with is an argument, so every lemma holds for
  every draw; \<open>btoa\<close> is the browser's and is an argument as well.
\<close>

section \<open>Numbers and sequences\<close>

record seq_options =
  so_hex :: bool
  so_hasNumbers :: bool
  so_hasLowercase :: bool
  so_hasUppercase :: bool

definition default_options :: seq_options where
  "default_options = \<lparr>so_hex = False, so_hasNumbers = True, so_hasLowercase = True, so_hasUppercase = True\<rparr>"

definition getSeq :: "seq_options \<Rightarrow> string" where
  "getSeq opts =
     (if so_hex opts then ''0123456789abcdef''
      else (if so_hasNumbers opts then ''0123456789'' else [])
        @ (if so_hasLowercase opts then ''abcdefghijklmnopqrstuvwxyz'' else [])
        @ (if so_hasUppercase opts then ''ABCDEFGHIJKLMNOPQRSTUVWXYZ'' else []))"

text \<open>The quotient by \<open>2^32\<close> and the product are exact in a double for the ranges the panel
  draws from.\<close>

definition randomInteger :: "int \<Rightarrow> int \<Rightarrow> 32 word \<Rightarrow> int" where
  "randomInteger min_value max_value v =
     (let range = max_value - min_value + 1 in uint v * range div 2 ^ 32 + min_value)"

lemma floor_div_le: "(0::int) < d \<Longrightarrow> (n div d) * d \<le> n"
  using pos_mod_sign [of d n] div_mult_mod_eq [of n d] by linarith

lemma floor_div_lt: "\<lbrakk>(0::int) < d; n < k * d\<rbrakk> \<Longrightarrow> n div d < k"
proof (rule ccontr)
  assume d: "0 < d" "n < k * d" and "\<not> n div d < k"
  then have "k * d \<le> (n div d) * d" by (intro mult_right_mono) auto
  with d floor_div_le [of d n] show False by linarith
qed

lemma randomInteger_range:
  assumes "lo \<le> hi"
  shows "lo \<le> randomInteger lo hi v" "randomInteger lo hi v \<le> hi"
proof -
  have u: "0 \<le> uint v" "uint v < 2 ^ 32" using uint_bounded [of v] by simp_all
  let ?r = "hi - lo + 1"
  have "uint v * ?r < 2 ^ 32 * ?r" using u assms by (intro mult_strict_right_mono) auto
  then have "uint v * ?r div 2 ^ 32 < ?r"
    by (intro floor_div_lt) (simp_all only: mult.commute [of ?r] zero_less_power zero_less_numeral)
  moreover have "0 \<le> uint v * ?r div 2 ^ 32"
    using u assms by (simp add: pos_imp_zdiv_nonneg_iff)
  ultimately show "lo \<le> randomInteger lo hi v" "randomInteger lo hi v \<le> hi"
    by (simp_all add: randomInteger_def Let_def)
qed

text \<open>Every value of a range of at most \<open>2^32\<close> vals is drawn by some buffer.\<close>

lemma randomInteger_onto:
  assumes "lo \<le> x" "x \<le> hi" "hi - lo < 2 ^ 32"
  shows "\<exists>v. randomInteger lo hi v = x"
proof -
  define r where "r = hi - lo + 1"
  define k where "k = x - lo"
  define n where "n = (k * 2 ^ 32 + r - 1) div r"
  have r: "0 < r" "r \<le> 2 ^ 32" and k: "0 \<le> k" "k < r" using assms by (simp_all add: r_def k_def)
  have lower: "k * 2 ^ 32 \<le> n * r"
  proof -
    have "k * 2 ^ 32 + r - 1 = n * r + (k * 2 ^ 32 + r - 1) mod r" by (simp add: n_def)
    moreover have "(k * 2 ^ 32 + r - 1) mod r < r" using r by simp
    ultimately show ?thesis by linarith
  qed
  have upper: "n * r \<le> k * 2 ^ 32 + r - 1"
    using floor_div_le [of r "k * 2 ^ 32 + r - 1"] r by (simp add: n_def)
  have n0: "0 \<le> n" using r k by (simp add: n_def pos_imp_zdiv_nonneg_iff)
  have "n < 2 ^ 32"
  proof (rule ccontr)
    assume "\<not> n < 2 ^ 32"
    define M :: int where "M = 2 ^ 32"
    have M: "r \<le> M" "n * r \<le> k * M + r - 1" "M \<le> n" "0 \<le> M"
      using r upper \<open>\<not> n < 2 ^ 32\<close> by (simp_all add: M_def)
    have "r * M \<le> n * r" using mult_right_mono [of M n r] M r by (simp add: mult.commute)
    moreover have "k * M + M \<le> r * M" using mult_right_mono [of "k + 1" r M] M k by (simp add: distrib_right)
    ultimately show False using M by linarith
  qed
  with n0 have u: "uint (word_of_int n :: 32 word) = n"
    by (simp add: uint_word_of_int)
  have "n * r div 2 ^ 32 = k"
    using lower upper r int_div_pos_eq [of "n * r" "2 ^ 32" k "n * r - 2 ^ 32 * k"]
    by (simp add: mult.commute)
  then show ?thesis
    by (intro exI [of _ "word_of_int n"]) (simp add: randomInteger_def u r_def k_def)
qed

text \<open>\<open>seq[v % seqLength]\<close>: of an empty alphabet every character reads as \<open>undefined\<close>, which
  \<open>join\<close> prints as the empty string.\<close>

definition randomSeq :: "seq_options \<Rightarrow> 32 word list \<Rightarrow> string" where
  "randomSeq opts randomValues =
     (let sq = getSeq opts in
      concat (map (\<lambda>v. if sq = [] then [] else [sq ! (unat v mod length sq)]) randomValues))"

definition randomLowerAndNum :: "32 word list \<Rightarrow> string" where
  "randomLowerAndNum vals = randomSeq (default_options\<lparr>so_hasUppercase := False\<rparr>) vals"

text \<open>\<open>lengths\<close> is the shuffled list, one buffer per length follows.\<close>

definition randomShortIds :: "nat list \<Rightarrow> (nat \<Rightarrow> 32 word list) \<Rightarrow> string" where
  "randomShortIds lengths draw =
     js_join '','' (map (\<lambda>i. randomSeq (default_options\<lparr>so_hex := True\<rparr>) (take (lengths ! i) (draw i)))
       [0..<length lengths])"

lemma randomSeq_length:
  "getSeq opts \<noteq> [] \<Longrightarrow> length (randomSeq opts vals) = length vals"
  by (induction vals) (auto simp: randomSeq_def Let_def)

lemma randomSeq_alphabet: "set (randomSeq opts vals) \<subseteq> set (getSeq opts)"
  by (auto simp: randomSeq_def Let_def)

text \<open>A short id is hexadecimal, of one of the eight even lengths, and no separator is drawn.\<close>

lemma randomShortIds_shape:
  assumes "mset lengths = mset [2, 4, 6, 8, 10, 12, 14, 16]" "\<forall>i < 8. 16 \<le> length (draw i)"
  shows "\<exists>ids. js_split (CHR '','') (randomShortIds lengths draw) = ids
    \<and> mset (map length ids) = mset [2, 4, 6, 8, 10, 12, 14, 16]
    \<and> (\<forall>s \<in> set ids. set s \<subseteq> set ''0123456789abcdef'')"
proof -
  let ?o = "default_options\<lparr>so_hex := True\<rparr>"
  let ?ids = "map (\<lambda>i. randomSeq ?o (take (lengths ! i) (draw i))) [0..<length lengths]"
  have sq: "getSeq ?o = ''0123456789abcdef''" by (simp add: getSeq_def)
  have len8: "length lengths = 8" using arg_cong [OF assms(1), of size] by simp
  have bound: "\<forall>n \<in> set lengths. n \<le> 16"
    using assms(1) [THEN mset_eq_setD] by auto
  have "lengths ! i \<le> length (draw i)" if "i < 8" for i
    using bound nth_mem [of i lengths] assms(2) that len8 by fastforce
  then have lens: "map length ?ids = lengths"
    by (intro nth_equalityI) (use len8 sq in \<open>auto simp: randomSeq_length\<close>)
  have hex: "\<forall>s \<in> set ?ids. set s \<subseteq> set ''0123456789abcdef''"
    using randomSeq_alphabet [of ?o] sq by auto
  have "CHR '','' \<notin> set s" if "s \<in> set ?ids" for s
    using hex that by (auto dest!: bspec subsetD)
  then have "js_split (CHR '','') (randomShortIds lengths draw) = ?ids"
    unfolding randomShortIds_def by (intro js_split_join) (simp_all add: len8)
  then show ?thesis
    using lens hex assms(1) by (intro exI [of _ ?ids] conjI) (simp_all only:)
qed

section \<open>Identifiers\<close>

definition hex_digit :: "nat \<Rightarrow> char" where
  "hex_digit n = ''0123456789abcdef'' ! n"

definition uuid_template :: string where
  "uuid_template = ''xxxxxxxx-xxxx-4xxx-yxxx-xxxxxxxxxxxx''"

text \<open>The callback of \<open>replace(/[xy]/g, ...)\<close> draws one byte per match.\<close>

fun fill_template :: "8 word list \<Rightarrow> string \<Rightarrow> string" where
  "fill_template bs [] = []"
| "fill_template bs (c # cs) =
     (if c = CHR ''x'' \<or> c = CHR ''y'' then
        (let randomValue = unat (hd bs) mod 16;
             calculatedValue = (if c = CHR ''x'' then randomValue
               else unat ((of_nat randomValue AND 0x3 OR 0x8) :: 8 word))
         in hex_digit calculatedValue # fill_template (tl bs) cs)
      else c # fill_template bs cs)"

text \<open>On an \<open>https\<close> page the browser's own generator is used, the argument \<open>native\<close>.\<close>

definition randomUUID :: "string \<Rightarrow> string \<Rightarrow> 8 word list \<Rightarrow> string" where
  "randomUUID protocol native bs =
     (if protocol = ''https:'' then native else fill_template bs uuid_template)"

text \<open>What each position of a version 4 identifier may hold.\<close>

fun template_fits :: "string \<Rightarrow> string \<Rightarrow> bool" where
  "template_fits [] [] = True"
| "template_fits (t # ts) (c # cs) =
     ((if t = CHR ''x'' then c \<in> set ''0123456789abcdef''
       else if t = CHR ''y'' then c \<in> set ''89ab'' else c = t) \<and> template_fits ts cs)"
| "template_fits _ _ = False"

lemma variant_digit:
  assumes "n < 16"
  shows "hex_digit (unat ((of_nat n AND 0x3 OR 0x8) :: 8 word)) \<in> set ''89ab''"
proof -
  have "list_all (\<lambda>n. hex_digit (unat ((of_nat n AND 0x3 OR 0x8) :: 8 word)) \<in> set ''89ab'') [0..<16]"
    by code_simp
  with assms show ?thesis by (simp only: list_all_iff set_upt atLeastLessThan_iff) simp
qed

lemma hex_digit_hex: "n < 16 \<Longrightarrow> hex_digit n \<in> set ''0123456789abcdef''"
  unfolding hex_digit_def by (rule nth_mem) simp

lemma fill_template_fits: "template_fits ts (fill_template bs ts)"
  by (induction bs ts rule: fill_template.induct)
    (auto simp: Let_def variant_digit hex_digit_hex simp del: list.set)

section \<open>Base 32\<close>

definition base32Chars :: string where
  "base32Chars = ''ABCDEFGHIJKLMNOPQRSTUVWXYZ234567''"

definition base32_char :: "32 word \<Rightarrow> char" where
  "base32_char w = base32Chars ! unat (w AND 0x1F)"

text \<open>The inner \<open>while\<close>, which returns \<open>None\<close> if it never ends; the bits of \<open>buffer\<close> above the
  counted ones are never cleared, and the shift drops those that leave the 32 bits.\<close>

partial_function (option) base32_drain :: "32 word \<Rightarrow> nat \<Rightarrow> string \<Rightarrow> (nat \<times> string) option" where
  "base32_drain buffer bits result =
     (if bits \<ge> 5 then
        base32_drain buffer (bits - 5) (result @ [base32_char (drop_bit (bits - 5) buffer)])
      else Some (bits, result))"

fun base32_loop :: "32 word \<Rightarrow> nat \<Rightarrow> string \<Rightarrow> 8 word list \<Rightarrow> string option" where
  "base32_loop buffer bits result [] =
     Some (if bits > 0 then result @ [base32_char (push_bit (5 - bits) buffer)] else result)"
| "base32_loop buffer bits result (b # array) = do {
     let buffer = push_bit 8 buffer OR ucast b;
     (bits, result) \<leftarrow> base32_drain buffer (bits + 8) result;
     base32_loop buffer bits result array }"

definition randomBase32String :: "8 word list \<Rightarrow> string option" where
  "randomBase32String array = base32_loop 0 0 [] array"

text \<open>The encoding of RFC 4648 on the sequence of bits: the bytes' bits, most significant first,
  padded with zeros to a multiple of five and read five at a time.\<close>

definition byte_bits :: "8 word \<Rightarrow> bool list" where
  "byte_bits b = map (bit b) [7, 6, 5, 4, 3, 2, 1, 0]"

definition bits_val :: "bool list \<Rightarrow> nat" where
  "bits_val bs = foldl (\<lambda>n b. 2 * n + of_bool b) 0 bs"

function quintets :: "bool list \<Rightarrow> string" where
  "quintets bs =
     (if bs = [] then []
      else base32Chars ! bits_val (take 5 (bs @ replicate (5 - length bs) False)) # quintets (drop 5 bs))"
  by pat_completeness auto
termination
  by (relation "measure length") auto

declare quintets.simps [simp del]

definition base32_spec :: "8 word list \<Rightarrow> string" where
  "base32_spec array = quintets (concat (map byte_bits array))"

text \<open>The bits still to be written: the low \<open>n\<close> ones of the buffer.\<close>

definition pending :: "32 word \<Rightarrow> nat \<Rightarrow> bool list" where
  "pending w n = map (bit w) (rev [0..<n])"

lemma pending_length [simp]: "length (pending w n) = n"
  by (simp add: pending_def)

lemma pending_0 [simp]: "pending w 0 = []"
  by (simp add: pending_def)

lemma pending_split: "m \<le> n \<Longrightarrow> pending w n = map (bit w) (rev [m..<n]) @ pending w m"
  using upt_add_eq_append [of 0 m "n - m"] by (simp add: pending_def)

lemma bits_val_append: "bits_val (as @ bs) = bits_val as * 2 ^ length bs + bits_val bs"
  by (induction bs rule: rev_induct) (simp_all add: bits_val_def algebra_simps)

lemma bits_val_five:
  "bits_val [bit v 4, bit v 3, bit v 2, bit v 1, bit v 0] = unat (v AND (0x1F :: 32 word))"
proof -
  have five: "v AND 0x1F = take_bit 5 v"
    by (simp add: take_bit_eq_mask mask_eq_exp_minus_1)
  have "unat (take_bit 5 v) = take_bit 5 (unat v)" by (simp add: unsigned_take_bit_eq)
  also have "\<dots> = bits_val (map (bit (unat v)) [4, 3, 2, 1, 0])"
    by (simp add: bits_val_def numeral_eq_Suc take_bit_Suc_from_most)
  also have "\<dots> = bits_val [bit v 4, bit v 3, bit v 2, bit v 1, bit v 0]"
    by (simp add: bit_unsigned_iff)
  finally show ?thesis using five by simp
qed

lemma top5: "rev [k..<k + 5] = [k + 4, k + 3, k + 2, k + 1, k]"
  by (simp add: numeral_eq_Suc)

lemma base32_char_top:
  "5 \<le> n \<Longrightarrow> base32_char (drop_bit (n - 5) w) = base32Chars ! bits_val (take 5 (pending w n))"
proof -
  assume n: "5 \<le> n"
  define k where "k = n - 5"
  have "pending w n = map (bit w) [k + 4, k + 3, k + 2, k + 1, k] @ pending w k"
    using pending_split [of k n w] n top5 [of k] by (simp add: k_def)
  then have "take 5 (pending w n) = map (bit (drop_bit k w)) [4, 3, 2, 1, 0]"
    by (simp add: bit_drop_bit_eq add.commute)
  then show ?thesis
    using bits_val_five [of "drop_bit k w"] by (simp add: base32_char_def k_def)
qed

lemma quintets_step: "5 \<le> length bs \<Longrightarrow> quintets bs = base32Chars ! bits_val (take 5 bs) # quintets (drop 5 bs)"
  by (subst quintets.simps) auto

lemma base32_drain_quintets:
  "\<exists>s. base32_drain w n result = Some (n mod 5, result @ s) \<and> length s = n div 5
     \<and> quintets (pending w n @ rest) = s @ quintets (pending w (n mod 5) @ rest)"
proof (induction n arbitrary: result rule: less_induct)
  case (less n)
  show ?case
  proof (cases "5 \<le> n")
    case False
    then show ?thesis by (simp add: base32_drain.simps)
  next
    case True
    let ?c = "base32_char (drop_bit (n - 5) w)"
    obtain s where s: "base32_drain w (n - 5) (result @ [?c]) = Some ((n - 5) mod 5, (result @ [?c]) @ s)"
      "length s = (n - 5) div 5"
      "quintets (pending w (n - 5) @ rest) = s @ quintets (pending w ((n - 5) mod 5) @ rest)"
      using less [of "n - 5" "result @ [?c]"] True by auto
    have "(n - 5) mod 5 = n mod 5" "n div 5 = Suc ((n - 5) div 5)"
      using True by (simp_all add: le_mod_geq le_div_geq)
    moreover have "drop 5 (pending w n) = pending w (n - 5)"
      using pending_split [of "n - 5" n w] True by simp
    moreover have "quintets (pending w n @ rest)
        = base32Chars ! bits_val (take 5 (pending w n)) # quintets (drop 5 (pending w n) @ rest)"
      using True by (simp add: quintets_step)
    ultimately show ?thesis
      using s True base32_char_top [OF True] by (subst base32_drain.simps) auto
  qed
qed

lemma pending_push:
  assumes "n \<le> 24"
  shows "pending (push_bit 8 w OR ucast (b :: 8 word)) (n + 8) = pending w n @ byte_bits b"
proof -
  have low: "bit (push_bit 8 w OR ucast b) i = bit b i" if "i < 8" for i
    using that by (simp add: bit_or_iff bit_push_bit_iff bit_ucast_iff)
  have high: "bit (push_bit 8 w OR ucast b) (i + 8) = bit w i" if "i < n" for i
    using that assms by (auto simp: bit_or_iff bit_push_bit_iff bit_ucast_iff dest: bit_imp_le_length)
  have "rev [8..<n + 8] = map (\<lambda>i. i + 8) (rev [0..<n])"
    by (metis map_add_upt rev_map)
  then have top: "map (bit (push_bit 8 w OR ucast b)) (rev [8..<n + 8]) = pending w n"
    using high by (auto simp: pending_def)
  have "rev [0..<8] = [7, 6, 5, 4, 3, 2, 1, 0 :: nat]" by code_simp
  then have "pending (push_bit 8 w OR ucast b) 8 = byte_bits b"
    using low by (simp add: pending_def byte_bits_def)
  then show ?thesis
    using pending_split [of 8 "n + 8" "push_bit 8 w OR ucast b"] top by simp
qed

lemma base32_loop_spec:
  "n < 5 \<Longrightarrow> base32_loop w n result array
     = Some (result @ quintets (pending w n @ concat (map byte_bits array)))"
proof (induction array arbitrary: w n result)
  case Nil
  show ?case
  proof (cases "n = 0")
    case True
    then show ?thesis by (simp add: quintets.simps [of "[]"])
  next
    case False
    define k where "k = 5 - n"
    have "quintets (pending w n)
        = [base32Chars ! bits_val (pending w n @ replicate k False)]"
      using Nil False by (simp add: quintets.simps [of "pending w n"] quintets.simps [of "[]"] k_def
          flip: length_0_conv)
    moreover have "pending w n @ replicate k False = pending (push_bit k w) 5"
    proof (rule nth_equalityI)
      show "length (pending w n @ replicate k False) = length (pending (push_bit k w) 5)"
        using Nil by (simp add: k_def)
      fix i assume "i < length (pending w n @ replicate k False)"
      with Nil False show "(pending w n @ replicate k False) ! i = pending (push_bit k w) 5 ! i"
        by (auto simp: k_def pending_def nth_append rev_nth bit_push_bit_iff)
    qed
    moreover have "base32_char (push_bit k w) = base32Chars ! bits_val (pending (push_bit k w) 5)"
      using base32_char_top [of 5 "push_bit k w"] by simp
    ultimately show ?thesis using False by (simp add: k_def)
  qed
next
  case (Cons b array)
  let ?w = "push_bit 8 w OR ucast b"
  let ?rest = "concat (map byte_bits array)"
  obtain s where s: "base32_drain ?w (n + 8) result = Some ((n + 8) mod 5, result @ s)"
    "quintets (pending ?w (n + 8) @ ?rest) = s @ quintets (pending ?w ((n + 8) mod 5) @ ?rest)"
    using base32_drain_quintets [of ?w "n + 8" result ?rest] by blast
  have "pending ?w (n + 8) = pending w n @ byte_bits b"
    using Cons.prems by (intro pending_push) simp
  then show ?case using s Cons.IH [of "(n + 8) mod 5" ?w "result @ s"] by simp
qed

lemma base32_correct: "randomBase32String array = Some (base32_spec array)"
  using base32_loop_spec [of 0 0 "[]" array] by (simp add: randomBase32String_def base32_spec_def)

section \<open>Base 64\<close>

text \<open>\<open>TextEncoder\<close>: the UTF-8 bytes of a string of characters below 256.\<close>

definition utf8 :: "string \<Rightarrow> string" where
  "utf8 s = concat (map (\<lambda>c. let n = (of_char c :: nat) in
     if n < 128 then [c] else [char_of (192 + n div 64), char_of (128 + n mod 64)]) s)"

definition url_safe :: "string \<Rightarrow> string" where
  "url_safe s = map (\<lambda>c. if c = CHR ''/'' then CHR ''_'' else c)
     (filter (\<lambda>c. c \<noteq> CHR ''='') (map (\<lambda>c. if c = CHR ''+'' then CHR ''-'' else c) s))"

definition Base64_encode :: "(string \<Rightarrow> string) \<Rightarrow> string \<Rightarrow> bool \<Rightarrow> string" where
  "Base64_encode btoa content safe =
     (let s = btoa (utf8 content) in if safe then url_safe s else s)"

lemma url_safe_clean: "set (url_safe s) \<inter> {CHR ''+'', CHR ''='', CHR ''/''} = {}"
  by (auto simp: url_safe_def)

lemma utf8_ascii: "\<forall>c \<in> set s. (of_char c :: nat) < 128 \<Longrightarrow> utf8 s = s"
  by (induction s) (auto simp: utf8_def Let_def)

end
