(* ===== verification/Inbound.thy ===== *)
theory Inbound
  imports Stream_Settings Protocol_Settings Wireguard_Settings Random_Util
begin

text \<open>
  \<open>Inbound\<close> of \<open>web/assets/js/model/inbound.js\<close>: the object behind the inbound form. It
  owns the settings of one protocol, a stream and the sniffing options; choosing a protocol
  replaces the first two. The values drawn at random when an object is made are arguments.
\<close>

section \<open>The settings of a protocol\<close>

datatype Settings =
    VmessS VmessSettings
  | VlessS VLESSSettings
  | TrojanS TrojanSettings
  | ShadowsocksS ShadowsocksSettings
  | TunnelS TunnelSettings
  | MixedS MixedSettings
  | HttpS HttpSettings
  | WireguardS WireguardSettings
  | TunS TunSettings
  | AmneziawgS AmneziawgSettings
  | NativewgS NativewgSettings
  | HysteriaS HysteriaSettings
  | MtprotoS MtprotoSettings

text \<open>The constant \<open>Protocols\<close>; the name of each settings class.\<close>

fun protocol_of :: "Settings \<Rightarrow> string" where
  "protocol_of (VmessS s) = ''vmess''"
| "protocol_of (VlessS s) = ''vless''"
| "protocol_of (TrojanS s) = ''trojan''"
| "protocol_of (ShadowsocksS s) = ''shadowsocks''"
| "protocol_of (TunnelS s) = ''tunnel''"
| "protocol_of (MixedS s) = ''mixed''"
| "protocol_of (HttpS s) = ''http''"
| "protocol_of (WireguardS s) = ''wireguard''"
| "protocol_of (TunS s) = ''tun''"
| "protocol_of (AmneziawgS s) = ''amneziawg''"
| "protocol_of (NativewgS s) = ''nativewg''"
| "protocol_of (HysteriaS s) = ''hysteria''"
| "protocol_of (MtprotoS s) = ''mtproto''"

definition Protocols :: "string list" where
  "Protocols = [''vmess'', ''vless'', ''trojan'', ''shadowsocks'', ''wireguard'', ''hysteria'',
     ''mixed'', ''http'', ''tunnel'', ''tun'', ''amneziawg'', ''nativewg'', ''mtproto'']"

record inbound_draw =
  in_clients :: "nat \<Rightarrow> client_draw"
  in_keys :: "nat \<Rightarrow> int list"
  in_reality :: reality_draw
  in_port :: "32 word"

definition getSettings :: "inbound_draw \<Rightarrow> jsval \<Rightarrow> Settings option option" where
  "getSettings d protocol =
     (let r = in_clients d in
      if protocol = JStr ''vmess'' then Some (Some (VmessS (VmessSettings_new (r 0) None)))
      else if protocol = JStr ''vless'' then
        Some (Some (VlessS (VLESSSettings_new (r 0) None JUndef JUndef [] JUndef JUndef)))
      else if protocol = JStr ''trojan'' then Some (Some (TrojanS (TrojanSettings_new (r 0) None [])))
      else if protocol = JStr ''shadowsocks'' then
        Some (Some (ShadowsocksS (ShadowsocksSettings_new r JUndef JUndef JUndef None JUndef)))
      else if protocol = JStr ''tunnel'' then
        Some (Some (TunnelS (TunnelSettings_new JUndef JUndef [] JUndef JUndef)))
      else if protocol = JStr ''mixed'' then
        Some (Some (MixedS (MixedSettings_new (r 0) None JUndef JUndef JUndef)))
      else if protocol = JStr ''http'' then Some (Some (HttpS (HttpSettings_new (r 0) None JUndef)))
      else if protocol = JStr ''wireguard'' then
        map_option (\<lambda>s. Some (WireguardS s)) (WireguardSettings_new (in_keys d) JUndef JUndef None JUndef)
      else if protocol = JStr ''tun'' then
        Some (Some (TunS (TunSettings_new JUndef JUndef JUndef JUndef JUndef JUndef JUndef)))
      else if protocol = JStr ''amneziawg'' then
        Some (Some (AmneziawgS (AmneziawgSettings_new [AwgPeer_new (r 0) JUndef JUndef JUndef JUndef
          JUndef JUndef JUndef JUndef JUndef JUndef JUndef JUndef JUndef JUndef])))
      else if protocol = JStr ''nativewg'' then
        Some (Some (NativewgS (NativewgSettings_new [WgPeer_new (r 0) JUndef JUndef JUndef JUndef
          JUndef JUndef JUndef JUndef JUndef JUndef JUndef JUndef JUndef JUndef])))
      else if protocol = JStr ''hysteria'' then
        Some (Some (HysteriaS (HysteriaSettings_new (r 0) JUndef None)))
      else if protocol = JStr ''mtproto'' then
        Some (Some (MtprotoS (MtprotoSettings_new (r 0) None JUndef JUndef JUndef)))
      else Some None)"

definition Settings_fromJson :: "inbound_draw \<Rightarrow> jsval \<Rightarrow> jsval \<Rightarrow> Settings option option" where
  "Settings_fromJson d protocol json =
     (let r = in_clients d in
      if protocol = JStr ''vmess'' then map_option (Some \<circ> VmessS) (VmessSettings_fromJson r json)
      else if protocol = JStr ''vless'' then map_option (Some \<circ> VlessS) (VLESSSettings_fromJson r json)
      else if protocol = JStr ''trojan'' then map_option (Some \<circ> TrojanS) (TrojanSettings_fromJson r json)
      else if protocol = JStr ''shadowsocks'' then
        map_option (Some \<circ> ShadowsocksS) (ShadowsocksSettings_fromJson r json)
      else if protocol = JStr ''tunnel'' then map_option (Some \<circ> TunnelS) (TunnelSettings_fromJson json)
      else if protocol = JStr ''mixed'' then map_option (Some \<circ> MixedS) (MixedSettings_fromJson r json)
      else if protocol = JStr ''http'' then map_option (Some \<circ> HttpS) (HttpSettings_fromJson r json)
      else if protocol = JStr ''wireguard'' then
        map_option (Some \<circ> WireguardS) (WireguardSettings_fromJson (in_keys d) json)
      else if protocol = JStr ''tun'' then map_option (Some \<circ> TunS) (TunSettings_fromJson json)
      else if protocol = JStr ''amneziawg'' then
        map_option (Some \<circ> AmneziawgS) (AmneziawgSettings_fromJson r json)
      else if protocol = JStr ''nativewg'' then
        map_option (Some \<circ> NativewgS) (NativewgSettings_fromJson r json)
      else if protocol = JStr ''hysteria'' then
        map_option (Some \<circ> HysteriaS) (HysteriaSettings_fromJson r json)
      else if protocol = JStr ''mtproto'' then
        map_option (Some \<circ> MtprotoS) (MtprotoSettings_fromJson r json)
      else Some None)"

text \<open>The virtual \<open>toJson\<close>. That of the WireGuard class completes the addresses of its peers,
  so the object is returned as well.\<close>

fun Settings_toJson :: "Settings \<Rightarrow> (jsval \<times> Settings) option" where
  "Settings_toJson (VmessS s) = Some (VmessSettings_toJson s, VmessS s)"
| "Settings_toJson (VlessS s) = Some (VLESSSettings_toJson s, VlessS s)"
| "Settings_toJson (TrojanS s) = Some (TrojanSettings_toJson s, TrojanS s)"
| "Settings_toJson (ShadowsocksS s) = Some (ShadowsocksSettings_toJson s, ShadowsocksS s)"
| "Settings_toJson (TunnelS s) = map_option (\<lambda>j. (j, TunnelS s)) (TunnelSettings_toJson s)"
| "Settings_toJson (MixedS s) = Some (MixedSettings_toJson s, MixedS s)"
| "Settings_toJson (HttpS s) = Some (HttpSettings_toJson s, HttpS s)"
| "Settings_toJson (WireguardS s) = map_option (\<lambda>(j, s). (j, WireguardS s)) (WireguardSettings_toJson s)"
| "Settings_toJson (TunS s) = Some (TunSettings_toJson s, TunS s)"
| "Settings_toJson (AmneziawgS s) = Some (AmneziawgSettings_toJson s, AmneziawgS s)"
| "Settings_toJson (NativewgS s) = Some (NativewgSettings_toJson s, NativewgS s)"
| "Settings_toJson (HysteriaS s) = Some (HysteriaSettings_toJson s, HysteriaS s)"
| "Settings_toJson (MtprotoS s) = map_option (\<lambda>j. (j, MtprotoS s)) (MtprotoSettings_toJson s)"

lemma protocol_of_in: "protocol_of s \<in> set Protocols"
  by (cases s) (simp_all add: Protocols_def)

definition settings_match :: "jsval \<Rightarrow> Settings option \<Rightarrow> bool" where
  "settings_match protocol settings \<longleftrightarrow> (case settings of
     Some s \<Rightarrow> protocol = JStr (protocol_of s)
   | None \<Rightarrow> \<forall>p \<in> set Protocols. protocol \<noteq> JStr p)"

lemma getSettings_protocol: "getSettings d protocol = Some s \<Longrightarrow> settings_match protocol s"
  by (auto simp: getSettings_def Let_def Protocols_def settings_match_def split: if_splits)

lemma Settings_fromJson_protocol: "Settings_fromJson d protocol json = Some s \<Longrightarrow> settings_match protocol s"
  by (auto simp: Settings_fromJson_def Let_def Protocols_def settings_match_def split: if_splits)

lemma Settings_toJson_protocol: "Settings_toJson s = Some (j, s') \<Longrightarrow> protocol_of s' = protocol_of s"
  by (cases s) auto

section \<open>The inbound\<close>

record Inbound =
  ib_port :: jsval
  ib_listen :: jsval
  ib_protocol :: jsval
  ib_settings :: "Settings option"
  ib_stream :: StreamSettings
  ib_tag :: jsval
  ib_sniffing :: Sniffing
  ib_clientStats :: jsval
  ib_publicPort :: jsval

text \<open>An absent \<open>settings\<close> is what \<open>ObjectUtil.isEmpty\<close> tests for.\<close>

definition Inbound_new ::
  "inbound_draw \<Rightarrow> jsval \<Rightarrow> jsval \<Rightarrow> jsval \<Rightarrow> Settings option \<Rightarrow> StreamSettings \<Rightarrow> jsval \<Rightarrow> Sniffing
     \<Rightarrow> jsval \<Rightarrow> jsval \<Rightarrow> Inbound option" where
  "Inbound_new d port listen protocol settings streamSettings tag sniffing clientStats publicPort = do {
     let protocol = dflt (JStr ''vless'') protocol;
     settings \<leftarrow> (case settings of None \<Rightarrow> getSettings d protocol | Some s \<Rightarrow> Some (Some s));
     Some \<lparr>ib_port = dflt (JNum (randomInteger 10000 60000 (in_port d))) port,
       ib_listen = dflt (JStr []) listen, ib_protocol = protocol, ib_settings = settings,
       ib_stream = streamSettings, ib_tag = dflt (JStr []) tag, ib_sniffing = sniffing,
       ib_clientStats = dflt (JStr []) clientStats, ib_publicPort = dflt (JNum 0) publicPort\<rparr> }"

definition Sniffing_default :: Sniffing where
  "Sniffing_default = Sniffing_new JUndef JUndef JUndef JUndef JUndef JUndef"

text \<open>The setter of \<open>protocol\<close>. What it assigns to \<open>this.tls\<close> for Trojan is a member nothing
  reads.\<close>

definition set_protocol :: "inbound_draw \<Rightarrow> jsval \<Rightarrow> Inbound \<Rightarrow> Inbound option" where
  "set_protocol d protocol this = do {
     settings \<leftarrow> getSettings d protocol;
     stream \<leftarrow> StreamSettings_default (in_reality d);
     let stream = (if protocol = JStr ''hysteria'' then
         stream\<lparr>ss_network := JStr ''hysteria'', ss_security := JStr ''tls'',
           ss_tls := (ss_tls stream)\<lparr>tls_alpn := JArr [JStr ''h3'']\<rparr>\<rparr> else stream);
     Some (this\<lparr>ib_protocol := protocol, ib_settings := settings, ib_stream := stream\<rparr>) }"

definition set_network :: "jsval \<Rightarrow> Inbound \<Rightarrow> Inbound" where
  "set_network network this = this\<lparr>ib_stream := (ib_stream this)\<lparr>ss_network := network\<rparr>\<rparr>"

text \<open>\<open>reset\<close> assigns the protocol through its setter and then the settings and the stream once
  more; \<open>d\<close> is what the setter draws and \<open>d'\<close> what \<open>reset\<close> draws itself. The published port
  and the statistics stay.\<close>

definition Inbound_reset :: "inbound_draw \<Rightarrow> inbound_draw \<Rightarrow> Inbound \<Rightarrow> Inbound option" where
  "Inbound_reset d d' this = do {
     this \<leftarrow> set_protocol d (JStr ''vmess'')
       (this\<lparr>ib_port := JNum (randomInteger 10000 60000 (in_port d')), ib_listen := JStr []\<rparr>);
     settings \<leftarrow> getSettings d' (JStr ''vmess'');
     stream \<leftarrow> StreamSettings_default (in_reality d');
     Some (this\<lparr>ib_settings := settings, ib_stream := stream, ib_tag := JStr [],
       ib_sniffing := Sniffing_default\<rparr>) }"

section \<open>What the form and the links ask\<close>

definition linkPort :: "Inbound \<Rightarrow> jsval" where
  "linkPort this = (if gt0 (ib_publicPort this) then ib_publicPort this else ib_port this)"

definition isRelocated :: "Inbound \<Rightarrow> bool" where
  "isRelocated this \<longleftrightarrow> gt0 (ib_publicPort this) \<and> ib_publicPort this \<noteq> ib_port this"

definition wildcard_addresses :: "string list" where
  "wildcard_addresses = [''0.0.0.0'', ''::'', ''::0'', ''127.0.0.1'', ''::1'', ''localhost'']"

definition linkAddress :: "string \<Rightarrow> Inbound \<Rightarrow> jsval" where
  "linkAddress hostname this =
     (let listen = ib_listen this in
      if isEmpty listen then JStr hostname
      else if listen \<in> set (map JStr wildcard_addresses) then JStr hostname
      else listen)"

datatype Client =
    VmessC VMESS
  | VlessC VLESS
  | TrojanC Trojan
  | ShadowsocksC Shadowsocks
  | AwgC AwgPeer
  | WgC WgPeer
  | MixedC MixedClient
  | HttpC HttpClient
  | MtprotoC MtprotoClient
  | HysteriaC Hysteria

text \<open>The settings \<open>method\<close> reads are those of Shadowsocks; \<open>method != SSMethods...\<close> compares
  loosely, as the text of an array.\<close>

definition Inbound_method :: "Inbound \<Rightarrow> jsval" where
  "Inbound_method this = (case ib_settings this of Some (ShadowsocksS s) \<Rightarrow> sss_method s | _ \<Rightarrow> JStr [])"

definition isSSMultiUser :: "Inbound \<Rightarrow> bool" where
  "isSSMultiUser this \<longleftrightarrow> \<not> loosely (Inbound_method this) ''2022-blake3-chacha20-poly1305''"

fun isSS2022_method :: "jsval \<Rightarrow> bool option" where
  "isSS2022_method (JStr s) = Some (take 4 s = ''2022'')"
| "isSS2022_method _ = None"

definition isSS2022 :: "Inbound \<Rightarrow> bool option" where
  "isSS2022 this = isSS2022_method (Inbound_method this)"

text \<open>The getter \<open>clients\<close>; \<open>None\<close> is \<open>null\<close>. The settings are those of the protocol
  (\<open>Inbound_wf\<close> below), so the \<open>switch\<close> on the protocol is one on the settings.\<close>

definition Inbound_clients :: "Inbound \<Rightarrow> Client list option" where
  "Inbound_clients this =
     (case ib_settings this of
        Some (VmessS s) \<Rightarrow> Some (map VmessC (vs_vmesses s))
      | Some (VlessS s) \<Rightarrow> Some (map VlessC (vl_vlesses s))
      | Some (TrojanS s) \<Rightarrow> Some (map TrojanC (tr_trojans s))
      | Some (ShadowsocksS s) \<Rightarrow>
          if isSSMultiUser this then Some (map ShadowsocksC (sss_shadowsockses s)) else None
      | Some (AmneziawgS s) \<Rightarrow> Some (map AwgC (aw_clients s))
      | Some (NativewgS s) \<Rightarrow> Some (map WgC (nw_clients s))
      | Some (MixedS s) \<Rightarrow> Some (map MixedC (mx_clients s))
      | Some (HttpS s) \<Rightarrow> Some (map HttpC (ht_clients s))
      | Some (MtprotoS s) \<Rightarrow> Some (map MtprotoC (mt_clients s))
      | Some (HysteriaS s) \<Rightarrow> Some (map HysteriaC (hs_hysterias s))
      | _ \<Rightarrow> None)"

fun client_expiryTime :: "Client \<Rightarrow> jsval" where
  "client_expiryTime (VmessC c) = cb_expiryTime c"
| "client_expiryTime (VlessC c) = cb_expiryTime c"
| "client_expiryTime (TrojanC c) = cb_expiryTime c"
| "client_expiryTime (ShadowsocksC c) = cb_expiryTime c"
| "client_expiryTime (AwgC c) = awp_expiryTime c"
| "client_expiryTime (WgC c) = wgp_expiryTime c"
| "client_expiryTime (MixedC c) = mxc_expiryTime c"
| "client_expiryTime (HttpC c) = htc_expiryTime c"
| "client_expiryTime (MtprotoC c) = cb_expiryTime c"
| "client_expiryTime (HysteriaC c) = cb_expiryTime c"

text \<open>A client past the end of the list throws.\<close>

definition isExpiry :: "int \<Rightarrow> nat \<Rightarrow> Inbound \<Rightarrow> bool option" where
  "isExpiry now index this = do {
     cs \<leftarrow> Inbound_clients this;
     c \<leftarrow> (if index < length cs then Some (cs ! index) else None);
     let exp = client_expiryTime c;
     Some (case js_number exp of Some n \<Rightarrow> 0 < n \<and> n < now | None \<Rightarrow> False) }"

definition network_in :: "Inbound \<Rightarrow> string list \<Rightarrow> bool" where
  "network_in this ns \<longleftrightarrow> ss_network (ib_stream this) \<in> set (map JStr ns)"

definition protocol_in :: "Inbound \<Rightarrow> string list \<Rightarrow> bool" where
  "protocol_in this ps \<longleftrightarrow> ib_protocol this \<in> set (map JStr ps)"

definition canEnableTls :: "Inbound \<Rightarrow> bool" where
  "canEnableTls this \<longleftrightarrow>
     (if ib_protocol this = JStr ''hysteria'' then True
      else if \<not> protocol_in this [''vmess'', ''vless'', ''trojan'', ''shadowsocks''] then False
      else network_in this [''tcp'', ''ws'', ''http'', ''grpc'', ''httpupgrade'', ''xhttp''])"

definition canEnableTlsFlow :: "Inbound \<Rightarrow> bool" where
  "canEnableTlsFlow this \<longleftrightarrow>
     (if (ss_security (ib_stream this) = JStr ''tls'' \<or> ss_security (ib_stream this) = JStr ''reality'')
         \<and> ss_network (ib_stream this) = JStr ''tcp''
      then ib_protocol this = JStr ''vless'' else False)"

definition canEnableVisionSeed :: "Inbound \<Rightarrow> bool" where
  "canEnableVisionSeed this \<longleftrightarrow>
     canEnableTlsFlow this \<and>
     (case ib_settings this of
        Some (VlessS s) \<Rightarrow> list_ex (\<lambda>c. vless_flow c = JStr ''xtls-rprx-vision''
          \<or> vless_flow c = JStr ''xtls-rprx-vision-udp443'') (vl_vlesses s)
      | _ \<Rightarrow> False)"

definition canEnableReality :: "Inbound \<Rightarrow> bool" where
  "canEnableReality this \<longleftrightarrow>
     (if \<not> protocol_in this [''vless'', ''trojan''] then False
      else network_in this [''tcp'', ''http'', ''grpc'', ''xhttp''])"

definition canEnableStream :: "Inbound \<Rightarrow> bool" where
  "canEnableStream this \<longleftrightarrow>
     protocol_in this [''vmess'', ''vless'', ''trojan'', ''shadowsocks'', ''hysteria'']"

definition serverName :: "Inbound \<Rightarrow> jsval" where
  "serverName this =
     (if isTls (ib_stream this) then tls_sni (ss_tls (ib_stream this))
      else if isReality (ib_stream this) then rs_serverNames (ss_reality (ib_stream this))
      else JStr [])"

text \<open>\<open>header.name.toLowerCase()\<close> throws unless the name is a string.\<close>

fun getHeader :: "header list \<Rightarrow> string \<Rightarrow> jsval option" where
  "getHeader [] name = Some (JStr [])"
| "getHeader (h # headers) name =
     (case hname h of
        JStr n \<Rightarrow> if js_lower n = js_lower name then Some (hvalue h) else getHeader headers name
      | _ \<Rightarrow> None)"

text \<open>\<open>host?.length > 0 ? host : getHeader(obj, 'host')\<close>.\<close>

definition host_or_header :: "jsval \<Rightarrow> header list \<Rightarrow> jsval option" where
  "host_or_header host headers =
     (if gt0 (mget host ''length'') then Some host else getHeader headers ''host'')"

definition isTcp :: "Inbound \<Rightarrow> bool" where
  [simp]: "isTcp this \<longleftrightarrow> ss_network (ib_stream this) = JStr ''tcp''"

definition isWs :: "Inbound \<Rightarrow> bool" where
  [simp]: "isWs this \<longleftrightarrow> ss_network (ib_stream this) = JStr ''ws''"

definition isKcp :: "Inbound \<Rightarrow> bool" where
  [simp]: "isKcp this \<longleftrightarrow> ss_network (ib_stream this) = JStr ''kcp''"

definition isGrpc :: "Inbound \<Rightarrow> bool" where
  [simp]: "isGrpc this \<longleftrightarrow> ss_network (ib_stream this) = JStr ''grpc''"

definition isHttpupgrade :: "Inbound \<Rightarrow> bool" where
  [simp]: "isHttpupgrade this \<longleftrightarrow> ss_network (ib_stream this) = JStr ''httpupgrade''"

definition isXHTTP :: "Inbound \<Rightarrow> bool" where
  [simp]: "isXHTTP this \<longleftrightarrow> ss_network (ib_stream this) = JStr ''xhttp''"

definition Inbound_host :: "Inbound \<Rightarrow> jsval option" where
  "Inbound_host this =
     (let s = ib_stream this in
      if isTcp this then getHeader (req_headers (tcp_request (ss_tcp s))) ''host''
      else if isWs this then host_or_header (ws_host (ss_ws s)) (ws_headers (ss_ws s))
      else if isHttpupgrade this then
        host_or_header (hu_host (ss_httpupgrade s)) (hu_headers (ss_httpupgrade s))
      else if isXHTTP this then
        host_or_header (xh_host (ss_xhttp s)) (xh_headers (ss_xhttp s))
      else Some JNull)"

definition Inbound_path :: "Inbound \<Rightarrow> jsval" where
  "Inbound_path this =
     (let s = ib_stream this in
      if isTcp this then first_item (req_path (tcp_request (ss_tcp s)))
      else if isWs this then ws_path (ss_ws s)
      else if isHttpupgrade this then hu_path (ss_httpupgrade s)
      else if isXHTTP this then xh_path (ss_xhttp s)
      else JNull)"

definition serviceName :: "Inbound \<Rightarrow> jsval" where
  "serviceName this = grpc_serviceName (ss_grpc (ib_stream this))"

section \<open>Reading and writing\<close>

definition Inbound_fromJson :: "inbound_draw \<Rightarrow> jsval \<Rightarrow> Inbound option" where
  "Inbound_fromJson d json0 = do {
     json \<leftarrow> members (dflt emptyObj json0);
     settings \<leftarrow> Settings_fromJson d (json ''protocol'') (json ''settings'');
     stream \<leftarrow> StreamSettings_fromJson (in_reality d) (json ''streamSettings'');
     sniffing \<leftarrow> Sniffing_fromJson (json ''sniffing'');
     Inbound_new d (json ''port'') (json ''listen'') (json ''protocol'') settings stream
       (json ''tag'') sniffing (json ''clientStats'') (json ''publicPort'') }"

definition Inbound_toJson :: "Inbound \<Rightarrow> (jsval \<times> Inbound) option" where
  "Inbound_toJson this = do {
     streamSettings \<leftarrow> (if canEnableStream this \<or> sockoptSwitch (ib_stream this)
       then StreamSettings_toJson (ib_stream this) else Some JUndef);
     settings \<leftarrow> (case ib_settings this of
         Some s \<Rightarrow> map_option (\<lambda>(j, s). (j, Some s)) (Settings_toJson s)
       | None \<Rightarrow> Some (JNull, None));
     Some (JObj
       [(''port'', ib_port this), (''listen'', ib_listen this), (''protocol'', ib_protocol this),
        (''settings'', fst settings), (''streamSettings'', streamSettings), (''tag'', ib_tag this),
        (''sniffing'', Sniffing_toJson (ib_sniffing this)), (''clientStats'', ib_clientStats this)],
       this\<lparr>ib_settings := snd settings\<rparr>) }"

section \<open>The settings are those of the protocol\<close>

definition Inbound_wf :: "Inbound \<Rightarrow> bool" where
  "Inbound_wf x \<longleftrightarrow> settings_match (ib_protocol x) (ib_settings x)"

text \<open>What the form does to an inbound: it reads or makes one, chooses a protocol, edits the
  settings, the stream and the plain fields, saves and resets.\<close>

inductive inbound_step :: "Inbound \<Rightarrow> Inbound \<Rightarrow> bool" where
  choose: "set_protocol d p x = Some y \<Longrightarrow> inbound_step x y"
| network: "inbound_step x (set_network n x)"
| stream: "inbound_step x (x\<lparr>ib_stream := s\<rparr>)"
| settings: "\<lbrakk>ib_settings x = Some s; protocol_of s' = protocol_of s\<rbrakk> \<Longrightarrow> inbound_step x (x\<lparr>ib_settings := Some s'\<rparr>)"
| fields: "inbound_step x (x\<lparr>ib_port := p, ib_listen := l, ib_tag := t, ib_sniffing := n,
    ib_clientStats := c, ib_publicPort := q\<rparr>)"
| save: "Inbound_toJson x = Some (j, y) \<Longrightarrow> inbound_step x y"
| reset: "Inbound_reset d d' x = Some y \<Longrightarrow> inbound_step x y"

inductive inbound_reachable :: "Inbound \<Rightarrow> bool" where
  load: "Inbound_fromJson d j = Some x \<Longrightarrow> inbound_reachable x"
| step: "\<lbrakk>inbound_reachable x; inbound_step x y\<rbrakk> \<Longrightarrow> inbound_reachable y"

inductive_cases inbound_stepE: "inbound_step x y"

lemma Inbound_new_wf:
  assumes "Inbound_new d port listen protocol settings stream tag sniffing stats public = Some x"
    "\<And>s. settings = Some s \<Longrightarrow> protocol = JStr (protocol_of s)"
  shows "Inbound_wf x"
  using assms
  by (auto simp: Inbound_new_def Inbound_wf_def bind_eq_Some_conv Let_def dest: getSettings_protocol
      split: option.splits) (simp add: settings_match_def dflt_def)

lemma Inbound_fromJson_wf: "Inbound_fromJson d j = Some x \<Longrightarrow> Inbound_wf x"
  unfolding Inbound_fromJson_def bind_eq_Some_conv
  by (elim exE conjE, erule Inbound_new_wf) (auto dest: Settings_fromJson_protocol simp: settings_match_def)

lemma set_protocol_wf: "set_protocol d p x = Some y \<Longrightarrow> Inbound_wf y"
  by (auto simp: set_protocol_def bind_eq_Some_conv Let_def Inbound_wf_def dest: getSettings_protocol)

lemma Inbound_reset_wf: "Inbound_reset d d' x = Some y \<Longrightarrow> Inbound_wf y"
  by (auto simp: Inbound_reset_def bind_eq_Some_conv set_protocol_def Let_def Inbound_wf_def
      dest: getSettings_protocol)

lemma Inbound_toJson_wf: "\<lbrakk>Inbound_wf x; Inbound_toJson x = Some (j, y)\<rbrakk> \<Longrightarrow> Inbound_wf y"
  by (auto simp: Inbound_toJson_def bind_eq_Some_conv Inbound_wf_def settings_match_def
      dest: Settings_toJson_protocol split: option.splits)

lemma Inbound_wf_updates:
  "Inbound_wf (x\<lparr>ib_stream := s\<rparr>) = Inbound_wf x"
  "Inbound_wf (x\<lparr>ib_port := p, ib_listen := l, ib_tag := t, ib_sniffing := n, ib_clientStats := c,
     ib_publicPort := q\<rparr>) = Inbound_wf x"
  "\<lbrakk>ib_settings x = Some old; protocol_of new = protocol_of old\<rbrakk> \<Longrightarrow>
   Inbound_wf (x\<lparr>ib_settings := Some new\<rparr>) = Inbound_wf x"
  by (simp_all add: Inbound_wf_def settings_match_def)

lemma inbound_step_wf: "inbound_step x y \<Longrightarrow> Inbound_wf x \<Longrightarrow> Inbound_wf y"
  by (erule inbound_stepE)
    (auto dest: set_protocol_wf Inbound_reset_wf Inbound_toJson_wf
      simp: set_network_def Inbound_wf_updates)

lemma reachable_wf: "inbound_reachable x \<Longrightarrow> Inbound_wf x"
  by (induction rule: inbound_reachable.induct) (auto intro: Inbound_fromJson_wf inbound_step_wf)

section \<open>Saving and reloading\<close>

fun Settings_ok :: "Settings \<Rightarrow> bool" where
  "Settings_ok (VmessS s) = VmessSettings_ok s"
| "Settings_ok (VlessS s) = VLESSSettings_ok s"
| "Settings_ok (TrojanS s) = TrojanSettings_ok s"
| "Settings_ok (ShadowsocksS s) = ShadowsocksSettings_ok s"
| "Settings_ok (TunnelS s) = TunnelSettings_ok s"
| "Settings_ok (MixedS s) = MixedSettings_ok s"
| "Settings_ok (HttpS s) = HttpSettings_ok s"
| "Settings_ok (WireguardS s) = WireguardSettings_ok s"
| "Settings_ok (TunS s) = TunSettings_ok s"
| "Settings_ok (AmneziawgS s) = AmneziawgSettings_ok s"
| "Settings_ok (NativewgS s) = NativewgSettings_ok s"
| "Settings_ok (HysteriaS s) = HysteriaSettings_ok s"
| "Settings_ok (MtprotoS s) = MtprotoSettings_ok s"

definition Settings_reloads :: "Settings \<Rightarrow> jsval \<Rightarrow> bool" where
  "Settings_reloads s j \<longleftrightarrow> (\<exists>t. (\<forall>d. Settings_fromJson d (JStr (protocol_of s)) (wire j) = Some (Some t))
     \<and> protocol_of t = protocol_of s \<and> Settings_ok t
     \<and> map_option (\<lambda>p. wire (fst p)) (Settings_toJson t) = Some (wire j))"

lemma Settings_reloadsI:
  "\<lbrakk>\<And>d. Settings_fromJson d (JStr (protocol_of s)) (wire j) = Some (Some t); protocol_of t = protocol_of s;
    Settings_ok t; map_option (\<lambda>p. wire (fst p)) (Settings_toJson t) = Some (wire j)\<rbrakk> \<Longrightarrow>
   Settings_reloads s j"
  by (auto simp: Settings_reloads_def)

text \<open>Each class keeps its contract, so the dispatch keeps it.\<close>

lemma Settings_reload:
  assumes "Settings_ok s" "Settings_toJson s = Some (j, s')"
  shows "Settings_reloads s j"
proof (cases s)
  case (VmessS x)
  with assms vmess.reload [of x j] obtain y where "\<forall>r. VmessSettings_fromJson r (wire j) = Some y"
    "VmessSettings_ok y" "map_option wire (Some (VmessSettings_toJson y)) = Some (wire j)"
    by (auto simp: bind_eq_Some_conv)
  with VmessS show ?thesis
    by (intro Settings_reloadsI [of _ _ "VmessS y"]) (auto simp: Settings_fromJson_def)
next
  case (VlessS x)
  with assms vless.reload [of x j] obtain y where "\<forall>r. VLESSSettings_fromJson r (wire j) = Some y"
    "VLESSSettings_ok y" "map_option wire (Some (VLESSSettings_toJson y)) = Some (wire j)"
    by (auto simp: bind_eq_Some_conv)
  with VlessS show ?thesis
    by (intro Settings_reloadsI [of _ _ "VlessS y"]) (auto simp: Settings_fromJson_def)
next
  case (TrojanS x)
  with assms trojan.reload [of x j] obtain y where "\<forall>r. TrojanSettings_fromJson r (wire j) = Some y"
    "TrojanSettings_ok y" "map_option wire (Some (TrojanSettings_toJson y)) = Some (wire j)"
    by (auto simp: bind_eq_Some_conv)
  with TrojanS show ?thesis
    by (intro Settings_reloadsI [of _ _ "TrojanS y"]) (auto simp: Settings_fromJson_def)
next
  case (ShadowsocksS x)
  with assms shadowsocks.reload [of x j] obtain y where "\<forall>r. ShadowsocksSettings_fromJson r (wire j) = Some y"
    "ShadowsocksSettings_ok y" "map_option wire (Some (ShadowsocksSettings_toJson y)) = Some (wire j)"
    by (auto simp: bind_eq_Some_conv)
  with ShadowsocksS show ?thesis
    by (intro Settings_reloadsI [of _ _ "ShadowsocksS y"]) (auto simp: Settings_fromJson_def)
next
  case (TunnelS x)
  with assms tunnel.reload [of x j] obtain y where "\<forall>r. TunnelSettings_fromJson (wire j) = Some y"
    "TunnelSettings_ok y" "map_option wire (TunnelSettings_toJson y) = Some (wire j)"
    by (auto simp: bind_eq_Some_conv)
  with TunnelS show ?thesis
    by (intro Settings_reloadsI [of _ _ "TunnelS y"]) (auto simp: Settings_fromJson_def)
next
  case (MixedS x)
  with assms mixed.reload [of x j] obtain y where "\<forall>r. MixedSettings_fromJson r (wire j) = Some y"
    "MixedSettings_ok y" "map_option wire (Some (MixedSettings_toJson y)) = Some (wire j)"
    by (auto simp: bind_eq_Some_conv)
  with MixedS show ?thesis
    by (intro Settings_reloadsI [of _ _ "MixedS y"]) (auto simp: Settings_fromJson_def)
next
  case (HttpS x)
  with assms http.reload [of x j] obtain y where "\<forall>r. HttpSettings_fromJson r (wire j) = Some y"
    "HttpSettings_ok y" "map_option wire (Some (HttpSettings_toJson y)) = Some (wire j)"
    by (auto simp: bind_eq_Some_conv)
  with HttpS show ?thesis
    by (intro Settings_reloadsI [of _ _ "HttpS y"]) (auto simp: Settings_fromJson_def)
next
  case (WireguardS x)
  with assms obtain k where "WireguardSettings_toJson x = Some (k, x)"
    "\<forall>fresh. WireguardSettings_fromJson fresh (wire k) = Some x"
    using WireguardSettings_roundtrip [of x] by auto
  with WireguardS assms show ?thesis
    by (intro Settings_reloadsI [of _ _ s]) (auto simp: Settings_fromJson_def)
next
  case (TunS x)
  with assms tun.reload [of x j] obtain y where "\<forall>r. TunSettings_fromJson (wire j) = Some y"
    "TunSettings_ok y" "map_option wire (Some (TunSettings_toJson y)) = Some (wire j)"
    by (auto simp: bind_eq_Some_conv)
  with TunS show ?thesis
    by (intro Settings_reloadsI [of _ _ "TunS y"]) (auto simp: Settings_fromJson_def)
next
  case (AmneziawgS x)
  with assms amneziawg.reload [of x j] obtain y where "\<forall>r. AmneziawgSettings_fromJson r (wire j) = Some y"
    "AmneziawgSettings_ok y" "map_option wire (Some (AmneziawgSettings_toJson y)) = Some (wire j)"
    by (auto simp: bind_eq_Some_conv)
  with AmneziawgS show ?thesis
    by (intro Settings_reloadsI [of _ _ "AmneziawgS y"]) (auto simp: Settings_fromJson_def)
next
  case (NativewgS x)
  with assms nativewg.reload [of x j] obtain y where "\<forall>r. NativewgSettings_fromJson r (wire j) = Some y"
    "NativewgSettings_ok y" "map_option wire (Some (NativewgSettings_toJson y)) = Some (wire j)"
    by (auto simp: bind_eq_Some_conv)
  with NativewgS show ?thesis
    by (intro Settings_reloadsI [of _ _ "NativewgS y"]) (auto simp: Settings_fromJson_def)
next
  case (HysteriaS x)
  with assms hysteria_settings.reload [of x j] obtain y where "\<forall>r. HysteriaSettings_fromJson r (wire j) = Some y"
    "HysteriaSettings_ok y" "map_option wire (Some (HysteriaSettings_toJson y)) = Some (wire j)"
    by (auto simp: bind_eq_Some_conv)
  with HysteriaS show ?thesis
    by (intro Settings_reloadsI [of _ _ "HysteriaS y"]) (auto simp: Settings_fromJson_def)
next
  case (MtprotoS x)
  with assms mtproto.reload [of x j] obtain y where "\<forall>r. MtprotoSettings_fromJson r (wire j) = Some y"
    "MtprotoSettings_ok y" "map_option wire (MtprotoSettings_toJson y) = Some (wire j)"
    by (auto simp: bind_eq_Some_conv)
  with MtprotoS show ?thesis
    by (intro Settings_reloadsI [of _ _ "MtprotoS y"]) (auto simp: Settings_fromJson_def)
qed

text \<open>The documents an inbound is specified for: those its parts are specified for. The draws
  are part of the condition, as a client that lacks a member gets a drawn one.\<close>

definition settings_doc :: "jsval \<Rightarrow> jsval \<Rightarrow> bool" where
  "settings_doc protocol j \<longleftrightarrow>
     (if protocol = JStr ''vless'' then vless_doc j
      else if protocol = JStr ''tunnel'' then tunnel_doc j
      else if protocol = JStr ''mixed'' \<or> protocol = JStr ''http'' then accounts_doc j
      else if protocol = JStr ''wireguard'' then wireguard_doc j
      else clean j)"

definition inbound_doc :: "inbound_draw \<Rightarrow> jsval \<Rightarrow> bool" where
  "inbound_doc d j \<longleftrightarrow> clean j \<and> draws_ok (in_clients d) \<and> mget j ''protocol'' \<noteq> JUndef
     \<and> settings_doc (mget j ''protocol'') (mget j ''settings'')
     \<and> stream_doc (mget j ''streamSettings'')"

definition Inbound_ok :: "Inbound \<Rightarrow> bool" where
  "Inbound_ok x \<longleftrightarrow> Inbound_wf x \<and> json_ok (ib_port x) \<and> json_ok (ib_listen x)
     \<and> json_ok (ib_protocol x) \<and> (\<forall>s. ib_settings x = Some s \<longrightarrow> Settings_ok s)
     \<and> StreamSettings_ok (ib_stream x) \<and> json_ok (ib_tag x) \<and> Sniffing_ok (ib_sniffing x)
     \<and> json_ok (ib_clientStats x)"

lemma Settings_fromJson_ok:
  assumes "settings_doc protocol j" "draws_ok (in_clients d)" "Settings_fromJson d protocol j = Some (Some s)"
  shows "Settings_ok s"
  using assms
  by (auto simp: Settings_fromJson_def settings_doc_def Let_def split: if_splits
      dest: vmess.dec_ok [rotated 2] vless.dec_ok [rotated 2] trojan.dec_ok [rotated 2]
        shadowsocks.dec_ok [rotated 2] tunnel.dec_ok [rotated 2] mixed.dec_ok [rotated 2]
        http.dec_ok [rotated 2] tun.dec_ok [rotated 2] amneziawg.dec_ok [rotated 2]
        nativewg.dec_ok [rotated 2] hysteria_settings.dec_ok [rotated 2] mtproto.dec_ok [rotated 2]
        WireguardSettings_fromJson_ok)

lemma Inbound_fromJson_ok:
  assumes "inbound_doc d j" "Inbound_fromJson d j = Some x"
  shows "Inbound_ok x"
proof -
  have doc: "clean j" "draws_ok (in_clients d)" "mget j ''protocol'' \<noteq> JUndef"
    "settings_doc (mget j ''protocol'') (mget j ''settings'')" "stream_doc (mget j ''streamSettings'')"
    using assms(1) by (simp_all add: inbound_doc_def)
  obtain json where json: "members (dflt emptyObj j) = Some json"
    using assms(2) by (auto simp: Inbound_fromJson_def bind_eq_Some_conv)
  have cl: "clean (json k)" for k by (rule clean_member [OF json doc(1)])
  have jk: "mget j k = json k" for k
    using json by (auto simp: mget_def dflt_def split: if_splits)
  note doc = doc [unfolded jk]
  obtain settings stream sniffing where parts:
    "Settings_fromJson d (json ''protocol'') (json ''settings'') = Some settings"
    "StreamSettings_fromJson (in_reality d) (json ''streamSettings'') = Some stream"
    "Sniffing_fromJson (json ''sniffing'') = Some sniffing"
    and new: "Inbound_new d (json ''port'') (json ''listen'') (json ''protocol'') settings stream
       (json ''tag'') sniffing (json ''clientStats'') (json ''publicPort'') = Some x"
    using assms(2) json by (auto simp: Inbound_fromJson_def bind_eq_Some_conv)
  have "StreamSettings_ok stream" by (rule StreamSettings_dec_ok [OF doc(5) parts(2)])
  moreover have "Sniffing_ok sniffing" by (rule sniffing.dec_ok [OF cl parts(3)])
  moreover have "Settings_ok s" if "ib_settings x = Some s" for s
  proof (cases settings)
    case (Some t)
    with new that have "s = t" by (auto simp: Inbound_new_def)
    with Some parts(1) doc show ?thesis by (auto intro: Settings_fromJson_ok)
  next
    case None
    then have "\<forall>p \<in> set Protocols. json ''protocol'' \<noteq> JStr p"
      using Settings_fromJson_protocol [OF parts(1)] by (simp add: settings_match_def)
    then have "getSettings d (json ''protocol'') = Some None" by (simp add: getSettings_def Let_def Protocols_def)
    with None new that doc(3) show ?thesis by (auto simp: Inbound_new_def Let_def dflt_def)
  qed
  moreover have "Inbound_wf x" by (rule Inbound_fromJson_wf [OF assms(2)])
  ultimately show ?thesis
    using new by (auto simp: Inbound_ok_def Inbound_new_def Let_def bind_eq_Some_conv cl json_ok_dflt)
qed

text \<open>The switch of the stream survives: a stream that was written is written again.\<close>

lemma wire_props_oget: "wire_props ps = wire_props qs \<Longrightarrow> distinct (map fst ps) \<Longrightarrow> distinct (map fst qs) \<Longrightarrow>
  wire (oget ps k) = wire (oget qs k)"
  by (metis oget_wire_props)

lemma sockopt_toJson_undef: "sockopt_toJson s = JUndef \<longleftrightarrow> s = None"
  by (cases s) (simp_all add: sockopt_toJson_def SockoptStreamSettings_toJson_def)

lemma StreamSettings_switch:
  assumes "StreamSettings_toJson s = Some j" "StreamSettings_toJson t = Some k" "wire k = wire j"
  shows "sockoptSwitch t = sockoptSwitch s"
proof -
  have w: "\<exists>ps. j = JObj ps \<and> distinct (map fst ps) \<and> oget ps ''sockopt'' = sockopt_toJson (ss_sockopt s)"
    if "StreamSettings_toJson s = Some j" for s j
    using that by (auto simp: StreamSettings_toJson_def bind_eq_Some_conv)
  obtain ps qs where "j = JObj ps" "distinct (map fst ps)" "oget ps ''sockopt'' = sockopt_toJson (ss_sockopt s)"
    "k = JObj qs" "distinct (map fst qs)" "oget qs ''sockopt'' = sockopt_toJson (ss_sockopt t)"
    using w [OF assms(1)] w [OF assms(2)] by auto
  with assms(3) wire_props_oget [of qs ps "''sockopt''"]
  have "wire (sockopt_toJson (ss_sockopt t)) = wire (sockopt_toJson (ss_sockopt s))" by simp
  then have "sockopt_toJson (ss_sockopt t) = JUndef \<longleftrightarrow> sockopt_toJson (ss_sockopt s) = JUndef"
    by (metis wire_eq_undef)
  then show ?thesis by (simp add: sockoptSwitch_def sockopt_toJson_undef)
qed

lemma stream_absent: "\<exists>t. StreamSettings_fromJson r JUndef = Some t \<and> ss_sockopt t = None"
proof -
  have none: "SockoptStreamSettings_fromJson JUndef = Some None"
    by (simp add: SockoptStreamSettings_fromJson_def)
  have "\<exists>x. TlsStreamSettings_fromJson JUndef = Some x" "\<exists>x. RealityStreamSettings_fromJson r JUndef = Some x"
    "\<exists>x. TcpStreamSettings_fromJson JUndef = Some x" "\<exists>x. KcpStreamSettings_fromJson JUndef = Some x"
    "\<exists>x. WsStreamSettings_fromJson JUndef = Some x" "\<exists>x. GrpcStreamSettings_fromJson JUndef = Some x"
    "\<exists>x. HTTPUpgradeStreamSettings_fromJson JUndef = Some x"
    "\<exists>x. xHTTPStreamSettings_fromJson JUndef = Some x"
    "\<exists>x. HysteriaStreamSettings_fromJson JUndef = Some x"
    "\<exists>x. FinalMaskStreamSettings_fromJson JUndef = Some x"
    using tls.absent reality.absent tcp.absent kcp_field.absent ws.absent grpc_field.absent
      httpupgrade.absent xhttp.absent hysteria.absent finalmask.absent by auto
  with none show ?thesis
    by (fastforce simp: StreamSettings_fromJson_def StreamSettings_new_def)
qed

lemma stream_doc_absent: "stream_doc JUndef"
  using ws.absent(1) httpupgrade.absent(1) xhttp.absent(1) hysteria.absent(1) finalmask.absent(1)
  by (simp add: stream_doc_def)

lemma stream_reload:
  assumes "StreamSettings_ok s"
    "(if c \<or> sockoptSwitch s then StreamSettings_toJson s else Some JUndef) = Some j"
  obtains t where "StreamSettings_fromJson r (wire j) = Some t" "StreamSettings_ok t"
    "map_option wire (if c \<or> sockoptSwitch t then StreamSettings_toJson t else Some JUndef) = Some (wire j)"
proof (cases "c \<or> sockoptSwitch s")
  case True
  with assms have j: "StreamSettings_toJson s = Some j" by simp
  with stream.view [OF assms(1) j, of r] obtain t k where
    "StreamSettings_fromJson r (wire j) = Some t" "StreamSettings_ok t"
    "StreamSettings_toJson t = Some k" "wire k = wire j" by auto
  with True j StreamSettings_switch [of s j t k] that show thesis by auto
next
  case False
  with assms have j: "j = JUndef" by simp
  obtain t where t: "StreamSettings_fromJson r JUndef = Some t" "ss_sockopt t = None"
    using stream_absent by blast
  moreover have "StreamSettings_ok t" by (rule StreamSettings_dec_ok [OF stream_doc_absent t(1)])
  ultimately show thesis using j False that by (auto simp: sockoptSwitch_def)
qed

text \<open>Saving what was saved: every part is reloaded as one that saves the same. The published port
  is not written, so the reloaded inbound has none.\<close>

definition saved_settings :: "Settings option \<Rightarrow> (jsval \<times> Settings option) option" where
  "saved_settings settings = (case settings of
     Some s \<Rightarrow> map_option (\<lambda>(j, s). (j, Some s)) (Settings_toJson s)
   | None \<Rightarrow> Some (JNull, None))"

definition Inbound_json :: "Inbound \<Rightarrow> jsval \<Rightarrow> jsval \<Rightarrow> jsval" where
  "Inbound_json x settings streamSettings = JObj
     [(''port'', ib_port x), (''listen'', ib_listen x), (''protocol'', ib_protocol x),
      (''settings'', settings), (''streamSettings'', streamSettings), (''tag'', ib_tag x),
      (''sniffing'', Sniffing_toJson (ib_sniffing x)), (''clientStats'', ib_clientStats x)]"

lemma Inbound_toJson_parts:
  "Inbound_toJson x = Some (j, x') \<longleftrightarrow>
   (\<exists>sj s' tj. saved_settings (ib_settings x) = Some (sj, s')
     \<and> (if canEnableStream x \<or> sockoptSwitch (ib_stream x) then StreamSettings_toJson (ib_stream x)
        else Some JUndef) = Some tj
     \<and> j = Inbound_json x sj tj \<and> x' = x\<lparr>ib_settings := s'\<rparr>)"
  by (auto simp: Inbound_toJson_def saved_settings_def Inbound_json_def bind_eq_Some_conv split del: if_split)

lemma saved_settings_reload:
  assumes "settings_match protocol s" "\<forall>x. s = Some x \<longrightarrow> Settings_ok x" "saved_settings s = Some (j, s')"
  obtains t k t' where "\<forall>d. Settings_fromJson d protocol (wire j) = Some t" "settings_match protocol t"
    "\<forall>x. t = Some x \<longrightarrow> Settings_ok x" "saved_settings t = Some (k, t')" "wire k = wire j" "j \<noteq> JUndef"
    "t = None \<Longrightarrow> \<forall>d. getSettings d protocol = Some None"
proof (cases s)
  case None
  then have p: "\<forall>p \<in> set Protocols. protocol \<noteq> JStr p" using assms(1) by (simp add: settings_match_def)
  then have "\<forall>d. Settings_fromJson d protocol (wire j) = Some None" "\<forall>d. getSettings d protocol = Some None"
    by (simp_all add: Settings_fromJson_def getSettings_def Let_def Protocols_def)
  with None p assms(3) show thesis
    by (intro that [of None JNull None]) (auto simp: saved_settings_def settings_match_def)
next
  case (Some x)
  then obtain x' where x: "Settings_toJson x = Some (j, x')" "Settings_ok x" "protocol = JStr (protocol_of x)"
    using assms by (auto simp: saved_settings_def settings_match_def)
  have "j \<noteq> JUndef" using x(1)
    by (cases x) (auto simp: VmessSettings_toJson_def VLESSSettings_toJson_def TrojanSettings_toJson_def
        ShadowsocksSettings_toJson_def TunnelSettings_toJson_def MixedSettings_toJson_def
        HttpSettings_toJson_def WireguardSettings_toJson_def TunSettings_toJson_def
        AmneziawgSettings_toJson_def NativewgSettings_toJson_def HysteriaSettings_toJson_def
        MtprotoSettings_toJson_def bind_eq_Some_conv)
  moreover obtain t k t' where "\<forall>d. Settings_fromJson d protocol (wire j) = Some (Some t)"
    "protocol_of t = protocol_of x" "Settings_ok t" "Settings_toJson t = Some (k, t')" "wire k = wire j"
    using Settings_reload [OF x(2,1)] x(3) by (auto simp: Settings_reloads_def)
  ultimately show thesis using x(3)
    by (intro that [of "Some t" k "Some t'"]) (auto simp: saved_settings_def settings_match_def)
qed

lemma Inbound_view:
  assumes "Inbound_ok x" "Inbound_toJson x = Some (j, x')"
  shows "\<exists>y. Inbound_fromJson d (wire j) = Some y \<and> Inbound_ok y
    \<and> map_option (\<lambda>p. wire (fst p)) (Inbound_toJson y) = Some (wire j)"
proof -
  have ok: "settings_match (ib_protocol x) (ib_settings x)" "json_ok (ib_port x)" "json_ok (ib_listen x)"
    "json_ok (ib_protocol x)" "\<forall>s. ib_settings x = Some s \<longrightarrow> Settings_ok s" "StreamSettings_ok (ib_stream x)"
    "json_ok (ib_tag x)" "Sniffing_ok (ib_sniffing x)" "json_ok (ib_clientStats x)"
    using assms(1) by (simp_all add: Inbound_ok_def Inbound_wf_def)
  obtain sj s' tj where sj: "saved_settings (ib_settings x) = Some (sj, s')"
    and tj: "(if canEnableStream x \<or> sockoptSwitch (ib_stream x) then StreamSettings_toJson (ib_stream x)
        else Some JUndef) = Some tj"
    and j: "j = Inbound_json x sj tj"
    using assms(2) unfolding Inbound_toJson_parts by blast
  obtain t k t' where t: "\<forall>d. Settings_fromJson d (ib_protocol x) (wire sj) = Some t"
    "settings_match (ib_protocol x) t" "\<forall>x. t = Some x \<longrightarrow> Settings_ok x" "saved_settings t = Some (k, t')"
    "wire k = wire sj" "sj \<noteq> JUndef" "t = None \<Longrightarrow> \<forall>d. getSettings d (ib_protocol x) = Some None"
    by (rule saved_settings_reload [OF ok(1,5) sj]) blast
  obtain u where u: "StreamSettings_fromJson (in_reality d) (wire tj) = Some u" "StreamSettings_ok u"
    "map_option wire (if canEnableStream x \<or> sockoptSwitch u then StreamSettings_toJson u else Some JUndef)
       = Some (wire tj)"
    by (rule stream_reload [OF ok(6) tj])
  then obtain l where l: "(if canEnableStream x \<or> sockoptSwitch u then StreamSettings_toJson u else Some JUndef) = Some l"
    "wire l = wire tj" by (auto split del: if_split)
  have sn: "Sniffing_fromJson (wire (Sniffing_toJson (ib_sniffing x))) = Some (ib_sniffing x)"
    using sniffing.enc_dec [OF ok(8)] by simp
  let ?y = "x\<lparr>ib_settings := t, ib_stream := u, ib_publicPort := JNum 0\<rparr>"
  have mem: "members (dflt emptyObj (wire j)) = Some (\<lambda>k. wire (oget
     [(''port'', ib_port x), (''listen'', ib_listen x), (''protocol'', ib_protocol x),
      (''settings'', sj), (''streamSettings'', tj), (''tag'', ib_tag x),
      (''sniffing'', Sniffing_toJson (ib_sniffing x)), (''clientStats'', ib_clientStats x)] k))"
    unfolding j Inbound_json_def by (rule members_wire) simp
  have "Inbound_new d (ib_port x) (ib_listen x) (ib_protocol x) t u (ib_tag x) (ib_sniffing x)
      (ib_clientStats x) JUndef = Some ?y"
    using ok t(7) by (cases t) (simp_all add: Inbound_new_def Let_def)
  then have "Inbound_fromJson d (wire j) = Some ?y"
    unfolding Inbound_fromJson_def mem by (simp add: ok t(1) u(1) sn)
  moreover have "Inbound_ok ?y"
    using ok t u by (simp add: Inbound_ok_def Inbound_wf_def)
  moreover have cs: "canEnableStream ?y = canEnableStream x"
    by (simp add: canEnableStream_def protocol_in_def)
  have "Inbound_toJson ?y = Some (Inbound_json ?y k l, ?y\<lparr>ib_settings := t'\<rparr>)"
    unfolding Inbound_toJson_parts cs
    by (rule exI [of _ k], rule exI [of _ t'], rule exI [of _ l])
      (simp add: t(4) l(1) split del: if_split cong: if_cong)
  moreover have "wire (Inbound_json ?y k l) = wire j"
    unfolding j Inbound_json_def wire.simps
    by (rule arg_cong [where f = JObj], rule wire_props_cong) (simp add: t(5) l(2))
  ultimately show ?thesis by simp
qed

interpretation inbound: json_view "\<lambda>x. map_option fst (Inbound_toJson x)" "Inbound_fromJson d"
  Inbound_ok "inbound_doc d" for d
  by unfold_locales (auto dest: Inbound_fromJson_ok Inbound_view [of _ _ _ d] simp: option.map_comp comp_def)

end
