(* ===== verification/Text_Codec.thy ===== *)
theory Text_Codec
  imports Random_Util
begin

text \<open>
  The text forms of the language's library the panel writes: \<open>JSON.stringify\<close>, compact and
  indented, and \<open>encodeURIComponent\<close> with its inverse, on strings of characters below 256.
\<close>

section \<open>JSON text\<close>

definition hex4 :: "nat \<Rightarrow> string" where
  "hex4 n = ''00'' @ [hex_digit (n div 16), hex_digit (n mod 16)]"

definition json_escape :: "char \<Rightarrow> string" where
  "json_escape c =
     (let n = (of_char c :: nat) in
      if n = 34 then [char_of (92 :: nat), char_of (34 :: nat)]
      else if n = 92 then [char_of (92 :: nat), char_of (92 :: nat)]
      else if n = 8 then char_of (92 :: nat) # ''b''
      else if n = 9 then char_of (92 :: nat) # ''t''
      else if n = 10 then char_of (92 :: nat) # ''n''
      else if n = 12 then char_of (92 :: nat) # ''f''
      else if n = 13 then char_of (92 :: nat) # ''r''
      else if n < 32 then char_of (92 :: nat) # ''u'' @ hex4 n
      else [c])"

definition json_quote :: "string \<Rightarrow> string" where
  "json_quote s = (let q = char_of (34 :: nat) in [q] @ concat (map json_escape s) @ [q])"

text \<open>\<open>JSON.stringify(v)\<close> of a value other than \<open>undefined\<close>.\<close>

fun stringify :: "jsval \<Rightarrow> string"
  and stringify_items :: "jsval list \<Rightarrow> string list"
  and stringify_props :: "props \<Rightarrow> string list" where
  "stringify JUndef = ''null''"
| "stringify JNull = ''null''"
| "stringify (JBool b) = (if b then ''true'' else ''false'')"
| "stringify (JNum n) = int_str n"
| "stringify (JStr s) = json_quote s"
| "stringify (JArr xs) = ''['' @ js_join '','' (stringify_items xs) @ '']''"
| "stringify (JObj ps) = ''{'' @ js_join '','' (stringify_props ps) @ ''}''"
| "stringify_items [] = []"
| "stringify_items (x # xs) = stringify x # stringify_items xs"
| "stringify_props [] = []"
| "stringify_props ((k, v) # ps) =
     (if v = JUndef then stringify_props ps
      else (json_quote k @ '':'' @ stringify v) # stringify_props ps)"

lemma stringify_wire_all:
  "stringify (wire v) = stringify v"
  "stringify_items (wire_items xs) = stringify_items xs"
  "stringify_props (wire_props ps) = stringify_props ps"
  by (induction v and xs and ps rule: wire_wire_items_wire_props.induct) auto

lemma stringify_wire: "stringify (wire v) = stringify v"
  by (rule stringify_wire_all)

text \<open>\<open>JSON.stringify(v, null, 2)\<close> of an object whose members are neither arrays nor objects.\<close>

definition stringify_flat :: "props \<Rightarrow> string" where
  "stringify_flat ps =
     (let nl = [char_of (10 :: nat)];
          entries = map (\<lambda>(k, v). ''  '' @ json_quote k @ '': '' @ stringify v)
            (filter (\<lambda>(k, v). v \<noteq> JUndef) ps)
      in if entries = [] then ''{}'' else ''{'' @ nl @ js_join ('','' @ nl) entries @ nl @ ''}'')"

section \<open>URI components\<close>

definition unreserved :: "char \<Rightarrow> bool" where
  "unreserved c \<longleftrightarrow> c \<in> set ''ABCDEFGHIJKLMNOPQRSTUVWXYZabcdefghijklmnopqrstuvwxyz0123456789-_.!~*()''
     \<or> (of_char c :: nat) = 39"

definition upper_hex :: "nat \<Rightarrow> char" where
  "upper_hex n = ''0123456789ABCDEF'' ! n"

definition percent :: "char \<Rightarrow> string" where
  "percent b = (let n = (of_char b :: nat) in CHR ''%'' # [upper_hex (n div 16), upper_hex (n mod 16)])"

definition encodeURIComponent :: "string \<Rightarrow> string" where
  "encodeURIComponent s =
     concat (map (\<lambda>c. if unreserved c then [c] else concat (map percent (utf8 [c]))) s)"

definition hex_value :: "char \<Rightarrow> nat option" where
  "hex_value c = (case str_index c ''0123456789ABCDEF'' of
     Some n \<Rightarrow> Some n
   | None \<Rightarrow> str_index c ''0123456789abcdef'')"

text \<open>The bytes of a component, and their characters; \<open>None\<close> is a thrown \<open>URIError\<close>, which the
  model also has for the sequences of characters from 256 on.\<close>

fun percent_bytes :: "string \<Rightarrow> nat list option" where
  "percent_bytes [] = Some []"
| "percent_bytes (c # cs) =
     (if c = CHR ''%'' then
        (case cs of
           a # b # ds \<Rightarrow>
             do { x \<leftarrow> hex_value a; y \<leftarrow> hex_value b; bs \<leftarrow> percent_bytes ds; Some ((16 * x + y) # bs) }
         | _ \<Rightarrow> None)
      else map_option ((#) (of_char c)) (percent_bytes cs))"

fun utf8_chars :: "nat list \<Rightarrow> string option" where
  "utf8_chars [] = Some []"
| "utf8_chars (a # rest) =
     (if a < 128 then map_option ((#) (char_of a)) (utf8_chars rest)
      else if a = 194 \<or> a = 195 then
        (case rest of
           b # bs \<Rightarrow> if 128 \<le> b \<and> b < 192
             then map_option ((#) (char_of ((a - 192) * 64 + (b - 128)))) (utf8_chars bs) else None
         | [] \<Rightarrow> None)
      else None)"

text \<open>A plain character of a component stands for itself, so the input is first UTF-8 encoded.\<close>

definition decodeURIComponent :: "string \<Rightarrow> string option" where
  "decodeURIComponent s = do { bs \<leftarrow> percent_bytes (utf8 s); utf8_chars bs }"

lemma hex_value_upper: "n < 16 \<Longrightarrow> hex_value (upper_hex n) = Some n"
  by (rule below_all [where n = 16]) code_simp

lemma percent_bytes_percent:
  "percent_bytes (percent b @ s) = map_option ((#) (of_char b)) (percent_bytes s)"
proof -
  define n :: nat where "n = of_char b"
  have "n div 16 < 16" "16 * (n div 16) + n mod 16 = n" by (simp_all add: n_def less_mult_imp_div_less)
  moreover from this have "hex_value (upper_hex (n div 16)) = Some (n div 16)"
    "hex_value (upper_hex (n mod 16)) = Some (n mod 16)"
    by (simp_all add: hex_value_upper)
  ultimately show ?thesis
    by (cases "percent_bytes s") (simp_all add: percent_def Let_def flip: n_def)
qed

lemma percent_bytes_percents:
  "percent_bytes (concat (map percent bs) @ s) = map_option ((@) (map of_char bs)) (percent_bytes s)"
  by (induction bs) (auto simp: percent_bytes_percent option.map_comp comp_def option.map_ident)

lemma unreserved_ascii: "unreserved c \<Longrightarrow> (of_char c :: nat) < 128 \<and> c \<noteq> CHR ''%''"
  by (auto simp: unreserved_def)

lemma percent_bytes_plain:
  "c \<noteq> CHR ''%'' \<Longrightarrow> percent_bytes (c # s) = map_option ((#) (of_char c)) (percent_bytes s)"
  by simp

lemma encode_component_bytes:
  "percent_bytes (encodeURIComponent s) = Some (map of_char (utf8 s))"
proof (induction s)
  case Nil
  then show ?case by (simp add: encodeURIComponent_def utf8_def)
next
  case (Cons c s)
  have step: "encodeURIComponent (c # s)
      = (if unreserved c then [c] else concat (map percent (utf8 [c]))) @ encodeURIComponent s"
    by (simp add: encodeURIComponent_def)
  have u: "utf8 (c # s) = utf8 [c] @ utf8 s" by (simp add: utf8_def)
  show ?case
  proof (cases "unreserved c")
    case True
    with unreserved_ascii [of c] Cons step u show ?thesis
      by (simp add: percent_bytes_plain utf8_ascii del: percent_bytes.simps)
  next
    case False
    with Cons step u show ?thesis by (simp add: percent_bytes_percents)
  qed
qed

lemma encode_component_ascii: "\<forall>c \<in> set (encodeURIComponent s). (of_char c :: nat) < 128"
proof -
  have "(of_char (upper_hex n) :: nat) < 128" if "n < 16" for n
    by (rule below_all [OF _ that]) code_simp
  then have "\<forall>c \<in> set (percent b). (of_char c :: nat) < 128" for b
    by (auto simp: percent_def Let_def less_mult_imp_div_less)
  then show ?thesis
    using unreserved_ascii by (auto simp: encodeURIComponent_def split: if_splits)
qed

lemma utf8_chars_utf8: "utf8_chars (map of_char (utf8 s)) = Some s"
proof (induction s)
  case Nil
  then show ?case by (simp add: utf8_def)
next
  case (Cons c s)
  define n :: nat where "n = of_char c"
  have n: "n < 256" by (simp add: n_def)
  have c: "char_of n = c" by (simp add: n_def)
  have u: "utf8 (c # s) = (if n < 128 then [c] else [char_of (192 + n div 64), char_of (128 + n mod 64)]) @ utf8 s"
    by (simp add: utf8_def n_def Let_def)
  show ?case
  proof (cases "n < 128")
    case True
    with u c Cons show ?thesis by (simp add: n_def)
  next
    case False
    define a b where "a = 192 + n div 64" and "b = 128 + n mod 64"
    have a: "a = 194 \<or> a = 195" "\<not> a < 128" "a < 256" and b: "128 \<le> b" "b < 192"
      using False n by (auto simp: a_def b_def)
    have "(a - 192) * 64 + (b - 128) = n" by (simp add: a_def b_def)
    moreover have "of_char (char_of a :: char) = a" "of_char (char_of b :: char) = b"
      using a b by (simp_all add: of_char_of)
    ultimately show ?thesis
      using a b c Cons by (simp add: u False flip: a_def b_def)
  qed
qed

lemma decode_encode_component: "decodeURIComponent (encodeURIComponent s) = Some s"
  using encode_component_ascii [of s]
  by (simp add: decodeURIComponent_def utf8_ascii encode_component_bytes utf8_chars_utf8)

definition percent_alphabet :: string where
  "percent_alphabet = ''%0123456789ABCDEF''"

lemma percent_alphabet: "set (percent b) \<subseteq> set percent_alphabet"
proof -
  have "upper_hex n \<in> set percent_alphabet" if "n < 16" for n
    by (rule below_all [OF _ that]) code_simp
  moreover have "CHR ''%'' \<in> set percent_alphabet" by (simp add: percent_alphabet_def)
  ultimately show ?thesis by (auto simp: percent_def Let_def less_mult_imp_div_less)
qed

lemma encode_component_alphabet:
  "c \<in> set (encodeURIComponent s) \<Longrightarrow> unreserved c \<or> c \<in> set percent_alphabet"
  using percent_alphabet by (auto simp: encodeURIComponent_def split: if_splits)

lemma encode_component_delimiters:
  "set (encodeURIComponent s) \<inter> set '' ;/?:@&=+$,#'' = {}"
proof -
  have "list_all (\<lambda>c. \<not> unreserved c \<and> c \<notin> set percent_alphabet) '' ;/?:@&=+$,#''" by code_simp
  then have "c \<notin> set '' ;/?:@&=+$,#''" if "c \<in> set (encodeURIComponent s)" for c
    using encode_component_alphabet [OF that] unfolding list_all_iff by (meson bspec)
  then show ?thesis unfolding disjoint_iff by (intro allI impI)
qed

end
