(* ===== verification/Share_Links.thy ===== *)
theory Share_Links
  imports Inbound Text_Codec
begin

text \<open>
  The share links of an inbound (\<open>Inbound\<close> of \<open>web/assets/js/model/inbound.js\<close>): what a client
  program is given to connect. The query parameters are a \<open>Map\<close>, here an association list in
  insertion order. What the links take from the browser is one argument: the page's host name,
  the switch \<open>hiddifyCompat\<close>, \<open>btoa\<close>, the address \<open>MtprotoLinkHost\<close> holds, and the
  construction of a \<open>URL\<close> from its text, user name, search parameters and fragment, which throws
  on a text that is no URL.
\<close>

section \<open>Parameters\<close>

record browser =
  br_hostname :: string
  br_hiddifyCompat :: bool
  br_btoa :: "string \<Rightarrow> string"
  br_ipv4 :: string
  br_url :: "string \<Rightarrow> string option \<Rightarrow> (string \<times> string) list \<Rightarrow> string \<Rightarrow> string option"

type_synonym params = "(string \<times> jsval) list"

definition pset :: "string \<Rightarrow> jsval \<Rightarrow> params \<Rightarrow> params" where
  "pset k v ps = AList.update k v ps"

definition pset_if :: "bool \<Rightarrow> string \<Rightarrow> jsval \<Rightarrow> params \<Rightarrow> params" where
  "pset_if c k v ps = (if c then pset k v ps else ps)"

text \<open>\<open>url.searchParams.set(key, value)\<close> for every parameter, and the fragment.\<close>

definition build_url :: "browser \<Rightarrow> string \<Rightarrow> params \<Rightarrow> string \<Rightarrow> string option" where
  "build_url br link ps remark =
     br_url br link None (map (\<lambda>(k, v). (k, js_str v)) ps) (encodeURIComponent remark)"

lemma pset_oget: "oget (pset k v ps) a = (if a = k then v else oget ps a)"
  by (simp add: pset_def oget_def update_conv')

lemma pset_if_oget: "oget (pset_if c k v ps) a = (if c \<and> a = k then v else oget ps a)"
  by (simp add: pset_if_def pset_oget)

lemma pset_distinct: "distinct (map fst ps) \<Longrightarrow> distinct (map fst (pset k v ps))"
  by (simp add: pset_def distinct_update)

lemma pset_if_distinct: "distinct (map fst ps) \<Longrightarrow> distinct (map fst (pset_if c k v ps))"
  by (simp add: pset_if_def pset_distinct)

text \<open>\<open>typeof v === 'string' && v.length > 0\<close>, and \<open>v?.length > 0\<close>.\<close>

fun text_given :: "jsval \<Rightarrow> bool" where
  "text_given (JStr s) = (s \<noteq> [])"
| "text_given _ = False"

definition long :: "jsval \<Rightarrow> bool" where
  "long v \<longleftrightarrow> gt0 (mget v ''length'')"

section \<open>Padding of xhttp\<close>

definition padding_keys :: "xHTTPStreamSettings \<Rightarrow> props" where
  "padding_keys xhttp =
     [(''xPaddingKey'', xh_xPaddingKey xhttp), (''xPaddingHeader'', xh_xPaddingHeader xhttp),
      (''xPaddingPlacement'', xh_xPaddingPlacement xhttp), (''xPaddingMethod'', xh_xPaddingMethod xhttp)]"

definition given_keys :: "xHTTPStreamSettings \<Rightarrow> props" where
  "given_keys xhttp = filter (\<lambda>(k, v). text_given v) (padding_keys xhttp)"

definition padding_extra :: "xHTTPStreamSettings \<Rightarrow> props" where
  "padding_extra xhttp =
     prop_if (text_given (xh_xPaddingBytes xhttp)) ''xPaddingBytes'' (xh_xPaddingBytes xhttp)
     @ (if xh_xPaddingObfsMode xhttp = JBool True
        then (''xPaddingObfsMode'', JBool True) # given_keys xhttp else [])"

definition applyXhttpPaddingToParams :: "xHTTPStreamSettings \<Rightarrow> params \<Rightarrow> params" where
  "applyXhttpPaddingToParams xhttp ps =
     (let ps = pset_if (text_given (xh_xPaddingBytes xhttp)) ''x_padding_bytes'' (xh_xPaddingBytes xhttp) ps;
          extra = padding_extra xhttp
      in pset_if (extra \<noteq> []) ''extra'' (JStr (stringify (JObj extra))) ps)"

definition applyXhttpPaddingToObj :: "xHTTPStreamSettings \<Rightarrow> props \<Rightarrow> props" where
  "applyXhttpPaddingToObj xhttp obj =
     (let obj = (if text_given (xh_xPaddingBytes xhttp)
            then obj_put obj ''x_padding_bytes'' (xh_xPaddingBytes xhttp) else obj)
      in if xh_xPaddingObfsMode xhttp = JBool True
         then fold (\<lambda>(k, v) obj. obj_put obj k v) (given_keys xhttp)
           (obj_put obj ''xPaddingObfsMode'' (JBool True))
         else obj)"

section \<open>Final masks\<close>

fun hasShareableFinalMaskValue :: "jsval \<Rightarrow> bool" where
  "hasShareableFinalMaskValue JUndef = False"
| "hasShareableFinalMaskValue JNull = False"
| "hasShareableFinalMaskValue (JArr xs) = (\<exists>x \<in> set xs. hasShareableFinalMaskValue x)"
| "hasShareableFinalMaskValue (JObj ps) = (\<exists>p \<in> set ps. hasShareableFinalMaskValue (snd p))"
| "hasShareableFinalMaskValue (JStr s) = (s \<noteq> [])"
| "hasShareableFinalMaskValue _ = True"

definition serializeFinalMask :: "FinalMaskStreamSettings \<Rightarrow> string" where
  "serializeFinalMask finalmask =
     (let value = FinalMaskStreamSettings_toJson finalmask
      in if hasShareableFinalMaskValue value then stringify value else [])"

definition applyFinalMaskToParams :: "FinalMaskStreamSettings \<Rightarrow> params \<Rightarrow> params" where
  "applyFinalMaskToParams finalmask ps =
     (let payload = serializeFinalMask finalmask in pset_if (payload \<noteq> []) ''fm'' (JStr payload) ps)"

definition applyFinalMaskToObj :: "FinalMaskStreamSettings \<Rightarrow> props \<Rightarrow> props" where
  "applyFinalMaskToObj finalmask obj =
     (let payload = serializeFinalMask finalmask
      in if payload \<noteq> [] then obj_put obj ''fm'' (JStr payload) else obj)"

lemma shareable_leaves:
  "hasShareableFinalMaskValue v \<longleftrightarrow> (\<exists>x \<in> set (leaves v). \<not> isEmpty x)"
  by (induction v rule: hasShareableFinalMaskValue.induct) (auto simp: isEmpty_def)

section \<open>VMess\<close>

definition vmess_network :: "StreamSettings \<Rightarrow> props \<Rightarrow> props option" where
  "vmess_network s obj =
     (let network = ss_network s in
      if network = JStr ''tcp'' then
        (let tcp = ss_tcp s; obj = obj_put obj ''type'' (tcp_type tcp) in
         if tcp_type tcp = JStr ''http'' then do {
           ps \<leftarrow> as_array (req_path (tcp_request tcp));
           h \<leftarrow> getHeader (req_headers (tcp_request tcp)) ''host'';
           let obj = obj_put obj ''path'' (JStr (arr_join '','' ps));
           Some (if truthy h then obj_put obj ''host'' h else obj) }
         else Some obj)
      else if network = JStr ''kcp'' then
        Some (obj_put (obj_put obj ''mtu'' (kcp_mtu (ss_kcp s))) ''tti'' (kcp_tti (ss_kcp s)))
      else if network = JStr ''ws'' then do {
        h \<leftarrow> host_or_header (ws_host (ss_ws s)) (ws_headers (ss_ws s));
        Some (obj_put (obj_put obj ''path'' (ws_path (ss_ws s))) ''host'' h) }
      else if network = JStr ''grpc'' then
        (let obj = obj_put (obj_put obj ''path'' (grpc_serviceName (ss_grpc s))) ''authority'' (grpc_authority (ss_grpc s))
         in Some (if truthy (grpc_multiMode (ss_grpc s)) then obj_put obj ''type'' (JStr ''multi'') else obj))
      else if network = JStr ''httpupgrade'' then do {
        h \<leftarrow> host_or_header (hu_host (ss_httpupgrade s)) (hu_headers (ss_httpupgrade s));
        Some (obj_put (obj_put obj ''path'' (hu_path (ss_httpupgrade s))) ''host'' h) }
      else if network = JStr ''xhttp'' then do {
        let xhttp = ss_xhttp s;
        h \<leftarrow> host_or_header (xh_host xhttp) (xh_headers xhttp);
        let obj = obj_put (obj_put (obj_put obj ''path'' (xh_path xhttp)) ''host'' h) ''type'' (xh_mode xhttp);
        Some (applyXhttpPaddingToObj xhttp obj) }
      else Some obj)"

definition chosen_security :: "jsval \<Rightarrow> Inbound \<Rightarrow> jsval" where
  "chosen_security forceTls this =
     (if loosely forceTls ''same'' then ss_security (ib_stream this) else forceTls)"

definition put_if :: "bool \<Rightarrow> string \<Rightarrow> jsval \<Rightarrow> props \<Rightarrow> props" where
  "put_if c k v obj = (if c then obj_put obj k v else obj)"

text \<open>The object a VMess link encodes. \<open>alpn.length\<close> and \<open>join\<close> throw where the value has none.\<close>

definition vmess_obj ::
  "Inbound \<Rightarrow> jsval \<Rightarrow> jsval \<Rightarrow> jsval \<Rightarrow> string \<Rightarrow> jsval \<Rightarrow> jsval \<Rightarrow> props option" where
  "vmess_obj this address port forceTls remark clientId security = do {
     let s = ib_stream this;
     let tls = chosen_security forceTls this;
     obj \<leftarrow> vmess_network s [(''v'', JStr ''2''), (''ps'', JStr remark), (''add'', address), (''port'', port),
       (''id'', clientId), (''scy'', security), (''net'', ss_network s), (''tls'', tls)];
     let obj = applyFinalMaskToObj (ss_finalmask s) obj;
     (if tls = JStr ''tls'' then do {
        let t = ss_tls s;
        let obj = put_if (\<not> isEmpty (tls_sni t)) ''sni'' (tls_sni t) obj;
        let obj = put_if (\<not> isEmpty (tset_fingerprint (tls_settings t))) ''fp'' (tset_fingerprint (tls_settings t)) obj;
        alpn \<leftarrow> members (tls_alpn t);
        (if gt0 (alpn ''length'') then do {
           ps \<leftarrow> as_array (tls_alpn t);
           Some (obj_put obj ''alpn'' (JStr (arr_join '','' ps))) }
         else Some obj) }
      else Some obj) }"

definition genVmessLink ::
  "browser \<Rightarrow> Inbound \<Rightarrow> jsval \<Rightarrow> jsval \<Rightarrow> jsval \<Rightarrow> string \<Rightarrow> jsval \<Rightarrow> jsval \<Rightarrow> string option" where
  "genVmessLink br this address port forceTls remark clientId security =
     (if ib_protocol this \<noteq> JStr ''vmess'' then Some []
      else map_option (\<lambda>obj. ''vmess://'' @ Base64_encode (br_btoa br) (stringify_flat obj) False)
        (vmess_obj this (dflt (JStr []) address) (dflt (linkPort this) port) forceTls remark clientId security))"

section \<open>Links with query parameters\<close>

text \<open>\<open>headers.findIndex(header => header.name.toLowerCase() === 'host')\<close>.\<close>

fun find_host :: "header list \<Rightarrow> jsval option option" where
  "find_host [] = Some None"
| "find_host (h # headers) =
     (case hname h of
        JStr n \<Rightarrow> if js_lower n = ''host'' then Some (Some (hvalue h)) else find_host headers
      | _ \<Rightarrow> None)"

text \<open>The \<open>switch\<close> on the network, which the VLESS, Shadowsocks and Trojan links repeat.\<close>

definition network_params :: "StreamSettings \<Rightarrow> params \<Rightarrow> params option" where
  "network_params s ps =
     (let type = ss_network s in
      if type = JStr ''tcp'' then
        (let tcp = ss_tcp s in
         if tcp_type tcp = JStr ''http'' then do {
           path \<leftarrow> as_array (req_path (tcp_request tcp));
           h \<leftarrow> find_host (req_headers (tcp_request tcp));
           let ps = pset ''path'' (JStr (arr_join '','' path)) ps;
           let ps = (case h of Some host \<Rightarrow> pset ''host'' host ps | None \<Rightarrow> ps);
           Some (pset ''headerType'' (JStr ''http'') ps) }
         else Some ps)
      else if type = JStr ''kcp'' then
        Some (pset ''tti'' (kcp_tti (ss_kcp s)) (pset ''mtu'' (kcp_mtu (ss_kcp s)) ps))
      else if type = JStr ''ws'' then do {
        h \<leftarrow> host_or_header (ws_host (ss_ws s)) (ws_headers (ss_ws s));
        Some (pset ''host'' h (pset ''path'' (ws_path (ss_ws s)) ps)) }
      else if type = JStr ''grpc'' then
        (let grpc = ss_grpc s;
             ps = pset ''authority'' (grpc_authority grpc) (pset ''serviceName'' (grpc_serviceName grpc) ps)
         in Some (pset_if (truthy (grpc_multiMode grpc)) ''mode'' (JStr ''multi'') ps))
      else if type = JStr ''httpupgrade'' then do {
        h \<leftarrow> host_or_header (hu_host (ss_httpupgrade s)) (hu_headers (ss_httpupgrade s));
        Some (pset ''host'' h (pset ''path'' (hu_path (ss_httpupgrade s)) ps)) }
      else if type = JStr ''xhttp'' then do {
        let xhttp = ss_xhttp s;
        h \<leftarrow> host_or_header (xh_host xhttp) (xh_headers xhttp);
        let ps = pset ''mode'' (xh_mode xhttp) (pset ''host'' h (pset ''path'' (xh_path xhttp) ps));
        Some (applyXhttpPaddingToParams xhttp ps) }
      else Some ps)"

text \<open>\<open>v.split(",")[0]\<close>, where only strings have \<open>split\<close>.\<close>

fun first_part :: "jsval \<Rightarrow> jsval option" where
  "first_part (JStr s) = Some (JStr (hd (js_split (CHR '','') s)))"
| "first_part _ = None"

definition reality_params :: "browser \<Rightarrow> StreamSettings \<Rightarrow> bool \<Rightarrow> jsval \<Rightarrow> params \<Rightarrow> params option" where
  "reality_params br s with_flow flow ps = do {
     let r = ss_reality s;
     let type = ss_network s;
     let ps = pset ''security'' (JStr ''reality'') ps;
     let ps = pset ''pbk'' (rset_publicKey (rs_settings r)) ps;
     let ps = pset ''fp'' (rset_fingerprint (rs_settings r)) ps;
     ps \<leftarrow> (if \<not> isArrEmpty (rs_serverNames r)
       then map_option (\<lambda>v. pset ''sni'' v ps) (first_part (rs_serverNames r)) else Some ps);
     shortIds \<leftarrow> members (rs_shortIds r);
     ps \<leftarrow> (if gt0 (shortIds ''length'')
       then map_option (\<lambda>v. pset ''sid'' v ps) (first_part (rs_shortIds r)) else Some ps);
     let ps = pset_if (\<not> isEmpty (rset_spiderX (rs_settings r))) ''spx'' (rset_spiderX (rs_settings r)) ps;
     let ps = pset_if (\<not> isEmpty (rset_mldsa65Verify (rs_settings r))) ''pqv''
       (rset_mldsa65Verify (rs_settings r)) ps;
     let ps = pset_if (with_flow \<and> loosely type ''tcp'' \<and> \<not> isEmpty flow) ''flow'' flow ps;
     Some (pset_if (br_hiddifyCompat br \<and> (type = JStr ''xhttp'' \<or> type = JStr ''grpc'')) ''alpn''
       (JStr ''h2'') ps) }"

definition tls_sni_param :: "StreamSettings \<Rightarrow> params \<Rightarrow> params" where
  "tls_sni_param s ps = pset_if (\<not> isEmpty (tls_sni (ss_tls s))) ''sni'' (tls_sni (ss_tls s)) ps"

definition tls_ech_param :: "StreamSettings \<Rightarrow> params \<Rightarrow> params" where
  "tls_ech_param s ps = pset_if (long (tset_echConfigList (tls_settings (ss_tls s)))) ''ech''
     (tset_echConfigList (tls_settings (ss_tls s))) ps"

definition tls_base_params :: "StreamSettings \<Rightarrow> params \<Rightarrow> params" where
  "tls_base_params s ps = pset ''alpn'' (tls_alpn (ss_tls s))
     (pset ''fp'' (tset_fingerprint (tls_settings (ss_tls s))) ps)"

fun settings_encryption :: "Settings option \<Rightarrow> jsval option" where
  "settings_encryption (Some (VlessS s)) = Some (vl_encryption s)"
| "settings_encryption (Some _) = Some JUndef"
| "settings_encryption None = None"

definition vless_security :: "browser \<Rightarrow> StreamSettings \<Rightarrow> jsval \<Rightarrow> jsval \<Rightarrow> params \<Rightarrow> params option" where
  "vless_security br s security flow ps =
     (if security = JStr ''tls'' then
        (let ps = pset ''security'' (JStr ''tls'') ps in
         Some (if isTls s
           then pset_if (loosely (ss_network s) ''tcp'' \<and> \<not> isEmpty flow) ''flow'' flow
             (tls_ech_param s (tls_sni_param s (tls_base_params s ps)))
           else ps))
      else if security = JStr ''reality'' then reality_params br s True flow ps
      else Some (pset ''security'' (JStr ''none'') ps))"

definition vless_params :: "browser \<Rightarrow> Inbound \<Rightarrow> jsval \<Rightarrow> jsval \<Rightarrow> params option" where
  "vless_params br this forceTls flow = do {
     let s = ib_stream this;
     encryption \<leftarrow> settings_encryption (ib_settings this);
     ps \<leftarrow> network_params s (pset ''encryption'' encryption (pset ''type'' (ss_network s) []));
     vless_security br s (chosen_security forceTls this) flow (applyFinalMaskToParams (ss_finalmask s) ps) }"

definition link_text :: "string \<Rightarrow> jsval \<Rightarrow> jsval \<Rightarrow> jsval \<Rightarrow> string" where
  "link_text scheme user address port =
     scheme @ ''://'' @ js_str user @ ''@'' @ js_str address @ '':'' @ js_str port"

definition genVLESSLink ::
  "browser \<Rightarrow> Inbound \<Rightarrow> jsval \<Rightarrow> jsval \<Rightarrow> jsval \<Rightarrow> string \<Rightarrow> jsval \<Rightarrow> jsval \<Rightarrow> string option" where
  "genVLESSLink br this address port forceTls remark clientId flow = do {
     ps \<leftarrow> vless_params br this forceTls flow;
     build_url br (link_text ''vless'' clientId (dflt (JStr []) address) (dflt (linkPort this) port)) ps remark }"

fun settings_method_password :: "Settings option \<Rightarrow> (jsval \<times> jsval) option" where
  "settings_method_password (Some (ShadowsocksS s)) = Some (sss_method s, sss_password s)"
| "settings_method_password (Some _) = Some (JUndef, JUndef)"
| "settings_method_password None = None"

definition ss_params :: "Inbound \<Rightarrow> jsval \<Rightarrow> params option" where
  "ss_params this forceTls = do {
     let s = ib_stream this;
     ps \<leftarrow> network_params s (pset ''type'' (ss_network s) []);
     let ps = applyFinalMaskToParams (ss_finalmask s) ps;
     Some (if chosen_security forceTls this = JStr ''tls'' then
       (let ps = pset ''security'' (JStr ''tls'') ps in
        if isTls s then tls_sni_param s (tls_ech_param s (tls_base_params s ps)) else ps)
      else ps) }"

text \<open>The passwords of a link: the server's for a 2022 method, and the client's.\<close>

definition ss_passwords :: "Inbound \<Rightarrow> jsval \<Rightarrow> jsval \<Rightarrow> jsval list option" where
  "ss_passwords this password clientPassword = do {
     is2022 \<leftarrow> isSS2022 this;
     Some ((if is2022 then [password] else []) @ (if isSSMultiUser this then [clientPassword] else [])) }"

definition genSSLink ::
  "browser \<Rightarrow> Inbound \<Rightarrow> jsval \<Rightarrow> jsval \<Rightarrow> jsval \<Rightarrow> string \<Rightarrow> jsval \<Rightarrow> string option" where
  "genSSLink br this address port forceTls remark clientPassword = do {
     ps \<leftarrow> ss_params this forceTls;
     mp \<leftarrow> settings_method_password (ib_settings this);
     password \<leftarrow> ss_passwords this (snd mp) clientPassword;
     let user = Base64_encode (br_btoa br) (js_str (fst mp) @ '':'' @ arr_join '':'' password) True;
     build_url br (link_text ''ss'' (JStr user) (dflt (JStr []) address) (dflt (linkPort this) port)) ps remark }"

definition trojan_params :: "browser \<Rightarrow> Inbound \<Rightarrow> jsval \<Rightarrow> params option" where
  "trojan_params br this forceTls = do {
     let s = ib_stream this;
     let security = chosen_security forceTls this;
     ps \<leftarrow> network_params s (pset ''type'' (ss_network s) []);
     let ps = applyFinalMaskToParams (ss_finalmask s) ps;
     (if security = JStr ''tls'' then
        (let ps = pset ''security'' (JStr ''tls'') ps in
         Some (if isTls s then tls_sni_param s (tls_ech_param s (tls_base_params s ps)) else ps))
      else if security = JStr ''reality'' then reality_params br s False JUndef ps
      else Some (pset ''security'' (JStr ''none'') ps)) }"

definition genTrojanLink ::
  "browser \<Rightarrow> Inbound \<Rightarrow> jsval \<Rightarrow> jsval \<Rightarrow> jsval \<Rightarrow> string \<Rightarrow> jsval \<Rightarrow> string option" where
  "genTrojanLink br this address port forceTls remark clientPassword = do {
     ps \<leftarrow> trojan_params br this forceTls;
     build_url br (link_text ''trojan'' clientPassword (dflt (JStr []) address) (dflt (linkPort this) port)) ps remark }"

fun settings_version :: "Settings option \<Rightarrow> jsval option" where
  "settings_version (Some (HysteriaS s)) = Some (hs_version s)"
| "settings_version (Some _) = Some JUndef"
| "settings_version None = None"

text \<open>The password of the first \<open>salamander\<close> mask.\<close>

definition salamander_password :: "mask list \<Rightarrow> jsval" where
  "salamander_password ms = (case filter (\<lambda>m. mask_type m = JStr ''salamander'') ms of
     [] \<Rightarrow> JUndef | m # _ \<Rightarrow> mget (mask_settings m) ''password'')"

text \<open>The client's TLS settings have no member \<open>allowInsecure\<close>, so the test for it never succeeds
  and no \<open>insecure\<close> parameter is written.\<close>

definition hysteria_params :: "StreamSettings \<Rightarrow> params" where
  "hysteria_params s =
     (let t = ss_tls s; c = tls_settings t;
          ps = pset ''security'' (JStr ''tls'') [];
          ps = pset_if (long (tset_fingerprint c)) ''fp'' (tset_fingerprint c) ps;
          ps = pset_if (long (tls_alpn t)) ''alpn'' (tls_alpn t) ps;
          ps = pset_if (long (tset_echConfigList c)) ''ech'' (tset_echConfigList c) ps;
          ps = pset_if (long (tls_sni t)) ''sni'' (tls_sni t) ps;
          password = salamander_password (fm_udp (ss_finalmask s));
          ps = pset_if (text_given password) ''obfs'' (JStr ''salamander'') ps;
          ps = pset_if (text_given password) ''obfs-password'' password ps
      in applyFinalMaskToParams (ss_finalmask s) ps)"

definition genHysteriaLink ::
  "browser \<Rightarrow> Inbound \<Rightarrow> jsval \<Rightarrow> jsval \<Rightarrow> string \<Rightarrow> jsval \<Rightarrow> string option" where
  "genHysteriaLink br this address port remark clientAuth = do {
     version \<leftarrow> settings_version (ib_settings this);
     let protocol = (if js_number version = Some 2 then ''hysteria2'' else ''hysteria'');
     build_url br (link_text protocol clientAuth (dflt (JStr []) address) (dflt (linkPort this) port))
       (hysteria_params (ib_stream this)) remark }"

section \<open>WireGuard\<close>

fun wireguard_settings :: "Settings option \<Rightarrow> WireguardSettings option" where
  "wireguard_settings (Some (WireguardS s)) = Some s"
| "wireguard_settings _ = None"

definition txt_line :: "string \<Rightarrow> string" where
  "txt_line s = s @ [char_of (10 :: nat)]"

definition getWireguardTxt ::
  "Inbound \<Rightarrow> jsval \<Rightarrow> jsval \<Rightarrow> string \<Rightarrow> nat \<Rightarrow> string option" where
  "getWireguardTxt this address port remark peerId = do {
     s \<leftarrow> wireguard_settings (ib_settings this);
     p \<leftarrow> (if peerId < length (wg_peers s) then Some (wg_peers s ! peerId) else None);
     let nl = [char_of (10 :: nat)];
     Some (txt_line ''[Interface]''
       @ txt_line (''PrivateKey = '' @ js_str (peer_privateKey p))
       @ txt_line (''Address = '' @ js_str (first_item (peer_allowedIPs p)))
       @ txt_line ''DNS = 1.1.1.1, 1.0.0.1''
       @ (if truthy (wg_mtu s) then txt_line (''MTU = '' @ js_str (wg_mtu s)) else [])
       @ nl @ txt_line (''# '' @ remark)
       @ txt_line ''[Peer]''
       @ txt_line (''PublicKey = '' @ wg_pubKey s)
       @ txt_line ''AllowedIPs = 0.0.0.0/0, ::/0''
       @ ''Endpoint = '' @ js_str address @ '':'' @ js_str port
       @ (if truthy (peer_psk p) then nl @ ''PresharedKey = '' @ js_str (peer_psk p) else [])
       @ (if truthy (peer_keepAlive p)
          then nl @ txt_line (''PersistentKeepalive = '' @ js_str (peer_keepAlive p)) else [])) }"

fun nonempty_first :: "jsval \<Rightarrow> jsval option" where
  "nonempty_first (JArr (x # xs)) = (if truthy x then Some x else None)"
| "nonempty_first _ = None"

definition getWireguardLink ::
  "browser \<Rightarrow> Inbound \<Rightarrow> jsval \<Rightarrow> jsval \<Rightarrow> string \<Rightarrow> nat \<Rightarrow> string option" where
  "getWireguardLink br this address port remark peerId =
     (case wireguard_settings (ib_settings this) of
        None \<Rightarrow> Some []
      | Some s \<Rightarrow>
          if peerId < length (wg_peers s) then
            (let p = wg_peers s ! peerId;
                 ps = pset_if (wg_pubKey s \<noteq> []) ''publickey'' (JStr (wg_pubKey s)) [];
                 ps = (case nonempty_first (peer_allowedIPs p) of
                     Some a \<Rightarrow> pset ''address'' a ps | None \<Rightarrow> ps);
                 ps = pset_if (truthy (wg_mtu s)) ''mtu'' (wg_mtu s) ps
             in br_url br (''wireguard://'' @ js_str address @ '':'' @ js_str port)
                  (Some (js_str (js_or (peer_privateKey p) (JStr []))))
                  (map (\<lambda>(k, v). (k, js_str v)) ps) (encodeURIComponent remark))
          else Some [])"

definition crlf :: string where
  "crlf = [char_of (13 :: nat), char_of (10 :: nat)]"

definition separation_char :: "string \<Rightarrow> string" where
  "separation_char remarkModel = take 1 remarkModel"

definition peer_texts ::
  "(jsval \<Rightarrow> jsval \<Rightarrow> string \<Rightarrow> nat \<Rightarrow> string option) \<Rightarrow> browser \<Rightarrow> Inbound \<Rightarrow> string \<Rightarrow> string \<Rightarrow> string option" where
  "peer_texts gen br this remark remarkModel = do {
     s \<leftarrow> wireguard_settings (ib_settings this);
     links \<leftarrow> traverse (\<lambda>i. gen (linkAddress (br_hostname br) this) (linkPort this)
       (remark @ separation_char remarkModel @ nat_str (i + 1)) i) [0..<length (wg_peers s)];
     Some (js_join crlf links) }"

definition genWireguardLinks :: "browser \<Rightarrow> Inbound \<Rightarrow> string \<Rightarrow> string \<Rightarrow> string option" where
  "genWireguardLinks br this remark remarkModel = peer_texts (getWireguardLink br this) br this remark remarkModel"

definition genWireguardConfigs :: "browser \<Rightarrow> Inbound \<Rightarrow> string \<Rightarrow> string \<Rightarrow> string option" where
  "genWireguardConfigs br this remark remarkModel = peer_texts (getWireguardTxt this) br this remark remarkModel"

section \<open>Telegram and proxy links\<close>

fun client_id :: "Client \<Rightarrow> jsval" where
  "client_id (VmessC c) = vmess_id c"
| "client_id (VlessC c) = vless_id c"
| "client_id (AwgC c) = awp_id c"
| "client_id (WgC c) = wgp_id c"
| "client_id (MtprotoC c) = mtc_id c"
| "client_id _ = JUndef"

fun client_security :: "Client \<Rightarrow> jsval" where
  "client_security (VmessC c) = vmess_security c"
| "client_security _ = JUndef"

fun client_flow :: "Client \<Rightarrow> jsval" where
  "client_flow (VlessC c) = vless_flow c"
| "client_flow _ = JUndef"

fun client_password :: "Client \<Rightarrow> jsval" where
  "client_password (TrojanC c) = trojan_password c"
| "client_password (ShadowsocksC c) = ssc_password c"
| "client_password (MixedC c) = mxc_password c"
| "client_password (HttpC c) = htc_password c"
| "client_password _ = JUndef"

fun client_auth :: "Client \<Rightarrow> jsval" where
  "client_auth (HysteriaC c) = hyc_auth c"
| "client_auth _ = JUndef"

fun client_secret :: "Client \<Rightarrow> jsval" where
  "client_secret (MtprotoC c) = mtc_secret c"
| "client_secret _ = JUndef"

fun client_email :: "Client \<Rightarrow> jsval" where
  "client_email (VmessC c) = cb_email c"
| "client_email (VlessC c) = cb_email c"
| "client_email (TrojanC c) = cb_email c"
| "client_email (ShadowsocksC c) = cb_email c"
| "client_email (AwgC c) = awp_email c"
| "client_email (WgC c) = wgp_email c"
| "client_email (MixedC c) = mxc_email c"
| "client_email (HttpC c) = htc_email c"
| "client_email (MtprotoC c) = cb_email c"
| "client_email (HysteriaC c) = cb_email c"

text \<open>\<open>MtprotoLinkHost.pick\<close>.\<close>

definition link_host_pick :: "string \<Rightarrow> jsval \<Rightarrow> jsval" where
  "link_host_pick ipv4 addr = (if ipv4 \<noteq> [] then JStr ipv4 else addr)"

definition or_linkAddress :: "browser \<Rightarrow> Inbound \<Rightarrow> jsval \<Rightarrow> jsval" where
  "or_linkAddress br this address = (if isEmpty address then linkAddress (br_hostname br) this else address)"

definition genMtprotoLink :: "browser \<Rightarrow> Inbound \<Rightarrow> jsval \<Rightarrow> jsval \<Rightarrow> string \<Rightarrow> Client option \<Rightarrow> string" where
  "genMtprotoLink br this address port remark client =
     (let addr = or_linkAddress br this (dflt (JStr []) address);
          secret = (case client of
              Some c \<Rightarrow> if truthy (client_secret c) then client_secret c else JStr []
            | None \<Rightarrow> JStr [])
      in ''tg://proxy?server='' @ js_str (link_host_pick (br_ipv4 br) addr)
         @ ''&port='' @ js_str (dflt (linkPort this) port) @ ''&secret='' @ js_str secret)"

definition genProxyLink ::
  "browser \<Rightarrow> Inbound \<Rightarrow> string \<Rightarrow> jsval \<Rightarrow> jsval \<Rightarrow> string \<Rightarrow> Client option \<Rightarrow> string" where
  "genProxyLink br this scheme address port remark client =
     (let addr = or_linkAddress br this (dflt (JStr []) address);
          userinfo = (case client of
              Some c \<Rightarrow> if truthy (client_email c)
                then Base64_encode (br_btoa br)
                  (js_str (client_email c) @ '':'' @ js_str (js_or (client_password c) (JStr []))) False @ ''@''
                else []
            | None \<Rightarrow> []);
          fragment = (if remark \<noteq> [] then ''#'' @ encodeURIComponent remark else [])
      in scheme @ ''://'' @ userinfo @ js_str addr @ '':'' @ js_str (dflt (linkPort this) port) @ fragment)"

section \<open>The links of an inbound\<close>

text \<open>Where the protocol reads a member of \<open>client\<close>, an absent client throws.\<close>

definition genLink ::
  "browser \<Rightarrow> Inbound \<Rightarrow> jsval \<Rightarrow> jsval \<Rightarrow> jsval \<Rightarrow> string \<Rightarrow> Client option \<Rightarrow> string option" where
  "genLink br this address port forceTls remark client =
     (let forceTls = dflt (JStr ''same'') forceTls; protocol = ib_protocol this in
      if protocol = JStr ''vmess'' then
        do { c \<leftarrow> client; genVmessLink br this address port forceTls remark (client_id c) (client_security c) }
      else if protocol = JStr ''vless'' then
        do { c \<leftarrow> client; genVLESSLink br this address port forceTls remark (client_id c) (client_flow c) }
      else if protocol = JStr ''shadowsocks'' then do {
        password \<leftarrow> (if isSSMultiUser this then map_option client_password client else Some (JStr []));
        genSSLink br this address port forceTls remark password }
      else if protocol = JStr ''trojan'' then
        do { c \<leftarrow> client; genTrojanLink br this address port forceTls remark (client_password c) }
      else if protocol = JStr ''hysteria'' then do {
        c \<leftarrow> client;
        auth \<leftarrow> members (client_auth c);
        genHysteriaLink br this address port remark
          (if gt0 (auth ''length'') then client_auth c else hy_auth (ss_hysteria (ib_stream this))) }
      else if protocol = JStr ''mtproto'' then Some (genMtprotoLink br this address port remark client)
      else if protocol = JStr ''mixed'' then Some (genProxyLink br this ''socks'' address port remark client)
      else if protocol = JStr ''http'' then Some (genProxyLink br this ''http'' address port remark client)
      else Some [])"

text \<open>The remark: the values the characters of the model stand for, without the empty ones. A
  character with no value, or a value with no length, throws.\<close>

definition order_value :: "string \<Rightarrow> jsval \<Rightarrow> jsval \<Rightarrow> char \<Rightarrow> jsval" where
  "order_value remark email other c =
     (if c = CHR ''i'' then JStr remark else if c = CHR ''e'' then email
      else if c = CHR ''o'' then other else JUndef)"

definition link_remark :: "string \<Rightarrow> string \<Rightarrow> jsval \<Rightarrow> jsval \<Rightarrow> string option" where
  "link_remark remarkModel remark email other = do {
     vs \<leftarrow> traverse (\<lambda>c. let v = order_value remark email other c in
         map_option (\<lambda>p. (v, gt0 (p ''length''))) (members v)) (drop 1 remarkModel);
     Some (arr_join (separation_char remarkModel) (map fst (filter snd vs))) }"

record share_link =
  sl_remark :: string
  sl_link :: string

definition external_link ::
  "browser \<Rightarrow> Inbound \<Rightarrow> string \<Rightarrow> string \<Rightarrow> Client option \<Rightarrow> jsval \<Rightarrow> share_link option" where
  "external_link br this remark remarkModel client ep0 = do {
     ep \<leftarrow> members ep0;
     let email = (case client of Some c \<Rightarrow> client_email c | None \<Rightarrow> JStr []);
     r \<leftarrow> link_remark remarkModel remark email (ep ''remark'');
     link \<leftarrow> genLink br this (ep ''dest'') (ep ''port'') (ep ''forceTls'') r client;
     Some \<lparr>sl_remark = r, sl_link = link\<rparr> }"

definition genAllLinks ::
  "browser \<Rightarrow> Inbound \<Rightarrow> string \<Rightarrow> string \<Rightarrow> Client option \<Rightarrow> share_link list option" where
  "genAllLinks br this remark remarkModel client =
     (let email = (case client of Some c \<Rightarrow> client_email c | None \<Rightarrow> JStr []);
          externalProxy = ss_externalProxy (ib_stream this) in
      if isArrEmpty externalProxy then do {
        r \<leftarrow> link_remark remarkModel remark email (JStr []);
        link \<leftarrow> genLink br this (linkAddress (br_hostname br) this) (linkPort this) (JStr ''same'') r client;
        Some [\<lparr>sl_remark = r, sl_link = link\<rparr>] }
      else do {
        eps \<leftarrow> as_array externalProxy;
        traverse (external_link br this remark remarkModel client) eps })"

definition genInboundLinks :: "browser \<Rightarrow> Inbound \<Rightarrow> string \<Rightarrow> string \<Rightarrow> string option" where
  "genInboundLinks br this remark remarkModel =
     (case Inbound_clients this of
        Some cs \<Rightarrow> do {
          lss \<leftarrow> traverse (\<lambda>c. genAllLinks br this remark remarkModel (Some c)) cs;
          Some (js_join crlf (map sl_link (concat lss))) }
      | None \<Rightarrow>
          if ib_protocol this = JStr ''shadowsocks'' \<and> \<not> isSSMultiUser this
          then genSSLink br this (linkAddress (br_hostname br) this) (linkPort this) (JStr ''same'') remark JUndef
          else if ib_protocol this = JStr ''wireguard'' then genWireguardConfigs br this remark remarkModel
          else Some [])"

end
