(* ===== verification/Link_Facts.thy ===== *)
theory Link_Facts
  imports Share_Links
begin

text \<open>
  What the share links carry: which parameters each builder may set, what the common ones hold, the
  two encodings of the xhttp padding, the address and number of the links, and the way back from the
  text of a link to its remark.
\<close>

section \<open>Builders that set only some parameters\<close>

text \<open>\<open>sets_only K ps qs\<close>: on the way from \<open>ps\<close> to \<open>qs\<close> no parameter outside \<open>K\<close> changed, and no key
  became double.\<close>

definition sets_only :: "string list \<Rightarrow> params \<Rightarrow> params \<Rightarrow> bool" where
  "sets_only K ps qs \<longleftrightarrow> (\<forall>k. k \<notin> set K \<longrightarrow> map_of qs k = map_of ps k)
     \<and> (distinct (map fst ps) \<longrightarrow> distinct (map fst qs))"

named_theorems sets_intros \<open>which parameters a builder sets\<close>

lemma map_of_pset: "map_of (pset k v ps) = (map_of ps)(k \<mapsto> v)"
  by (simp add: pset_def update_conv')

lemma map_of_pset_if: "map_of (pset_if c k v ps) = (if c then (map_of ps)(k \<mapsto> v) else map_of ps)"
  by (simp add: pset_if_def map_of_pset)

lemma sets_refl [sets_intros]: "sets_only K ps ps"
  by (simp add: sets_only_def)

lemma sets_trans: "sets_only K ps qs \<Longrightarrow> sets_only K qs rs \<Longrightarrow> sets_only K ps rs"
  by (simp add: sets_only_def)

lemma sets_mono: "sets_only K ps qs \<Longrightarrow> set K \<subseteq> set L \<Longrightarrow> sets_only L ps qs"
  by (auto simp: sets_only_def)

lemma sets_pset [sets_intros]: "k \<in> set K \<Longrightarrow> sets_only K ps qs \<Longrightarrow> sets_only K ps (pset k v qs)"
  by (auto simp: sets_only_def map_of_pset pset_distinct)

lemma sets_pset_if [sets_intros]:
  "k \<in> set K \<Longrightarrow> sets_only K ps qs \<Longrightarrow> sets_only K ps (pset_if c k v qs)"
  by (simp add: pset_if_def sets_pset)

lemma sets_oget: "sets_only K ps qs \<Longrightarrow> k \<notin> set K \<Longrightarrow> oget qs k = oget ps k"
  by (simp add: sets_only_def oget_def)

lemma sets_keys: "sets_only K ps qs \<Longrightarrow> k \<notin> set K \<Longrightarrow> k \<in> fst ` set qs \<longleftrightarrow> k \<in> fst ` set ps"
  unfolding sets_only_def by (metis map_of_eq_None_iff)

lemma sets_distinct: "sets_only K [] qs \<Longrightarrow> distinct (map fst qs)"
  by (simp add: sets_only_def)

definition network_keys :: "string list" where
  "network_keys = [''path'', ''host'', ''headerType'', ''mtu'', ''tti'', ''serviceName'', ''authority'',
     ''mode'', ''x_padding_bytes'', ''extra'']"

lemma network_key [simp]:
  "''path'' \<in> set network_keys"
  "''host'' \<in> set network_keys"
  "''headerType'' \<in> set network_keys"
  "''mtu'' \<in> set network_keys"
  "''tti'' \<in> set network_keys"
  "''serviceName'' \<in> set network_keys"
  "''authority'' \<in> set network_keys"
  "''mode'' \<in> set network_keys"
  "''x_padding_bytes'' \<in> set network_keys"
  "''extra'' \<in> set network_keys"
  by (simp_all add: network_keys_def)

lemma padding_sets: "sets_only network_keys ps (applyXhttpPaddingToParams xhttp ps)"
  unfolding applyXhttpPaddingToParams_def Let_def by (intro sets_intros) simp_all

lemma network_sets: "network_params s ps = Some qs \<Longrightarrow> sets_only network_keys ps qs"
proof -
  have xhttp: "sets_only network_keys ps rs \<Longrightarrow> sets_only network_keys ps (applyXhttpPaddingToParams xh rs)"
    for xh rs by (rule sets_trans [OF _ padding_sets])
  assume "network_params s ps = Some qs"
  then show ?thesis
    by (auto simp: network_params_def Let_def bind_eq_Some_conv
        intro!: sets_intros xhttp split: if_splits option.splits)
qed

lemma final_mask_sets: "sets_only [''fm''] ps (applyFinalMaskToParams fm ps)"
  unfolding applyFinalMaskToParams_def Let_def by (intro sets_intros) simp_all

section \<open>VLESS and Trojan\<close>

definition security_keys :: "string list" where
  "security_keys = [''fp'', ''alpn'', ''sni'', ''ech'', ''flow'', ''pbk'', ''sid'', ''spx'', ''pqv'']"

lemma security_key [simp]:
  "''fp'' \<in> set security_keys" "''alpn'' \<in> set security_keys" "''sni'' \<in> set security_keys"
  "''ech'' \<in> set security_keys" "''flow'' \<in> set security_keys" "''pbk'' \<in> set security_keys"
  "''sid'' \<in> set security_keys" "''spx'' \<in> set security_keys" "''pqv'' \<in> set security_keys"
  by (simp_all add: security_keys_def)

lemma key_groups [simp]:
  "''type'' \<notin> set network_keys" "''encryption'' \<notin> set network_keys" "''fm'' \<notin> set network_keys"
  "''security'' \<notin> set network_keys" "''flow'' \<notin> set network_keys"
  "''type'' \<notin> set security_keys" "''encryption'' \<notin> set security_keys" "''fm'' \<notin> set security_keys"
  "''security'' \<notin> set security_keys"
  by (simp_all add: network_keys_def security_keys_def)

lemma reality_sets:
  "reality_params br s w flow ps = Some qs \<Longrightarrow>
   sets_only security_keys (pset ''security'' (JStr ''reality'') ps) qs"
  by (auto simp: reality_params_def Let_def bind_eq_Some_conv intro!: sets_intros split: if_splits)

lemma reality_flow:
  "reality_params br s w flow ps = Some qs \<Longrightarrow>
   oget qs ''flow'' = (if w \<and> loosely (ss_network s) ''tcp'' \<and> \<not> isEmpty flow then flow else oget ps ''flow'')"
  by (auto simp: reality_params_def Let_def bind_eq_Some_conv pset_oget pset_if_oget split: if_splits)

lemma tls_sets:
  "sets_only security_keys ps qs \<Longrightarrow> sets_only security_keys ps (tls_base_params s qs)"
  "sets_only security_keys ps qs \<Longrightarrow> sets_only security_keys ps (tls_sni_param s qs)"
  "sets_only security_keys ps qs \<Longrightarrow> sets_only security_keys ps (tls_ech_param s qs)"
  by (simp_all add: tls_base_params_def tls_sni_param_def tls_ech_param_def sets_intros)

lemma tls_flow [simp]:
  "oget (tls_base_params s ps) ''flow'' = oget ps ''flow''"
  "oget (tls_sni_param s ps) ''flow'' = oget ps ''flow''"
  "oget (tls_ech_param s ps) ''flow'' = oget ps ''flow''"
  by (simp_all add: tls_base_params_def tls_sni_param_def tls_ech_param_def pset_oget pset_if_oget)

text \<open>The three stages: network parameters, final mask, security.\<close>

definition security_name :: "jsval \<Rightarrow> string" where
  "security_name v = (if v = JStr ''tls'' then ''tls'' else if v = JStr ''reality'' then ''reality'' else ''none'')"

lemma vless_security_sets:
  "vless_security br s security flow ps = Some qs \<Longrightarrow>
   sets_only security_keys (pset ''security'' (JStr (security_name security)) ps) qs"
  by (auto simp: vless_security_def Let_def security_name_def
      intro!: sets_intros tls_sets dest!: reality_sets split: if_splits)

lemma vless_security_flow:
  "vless_security br s security flow ps = Some qs \<Longrightarrow>
   oget qs ''flow'' =
    (if loosely (ss_network s) ''tcp'' \<and> \<not> isEmpty flow
      \<and> (security = JStr ''reality'' \<or> security = JStr ''tls'' \<and> isTls s)
     then flow else oget ps ''flow'')"
  by (auto simp: vless_security_def Let_def pset_oget pset_if_oget dest!: reality_flow split: if_splits)

lemma vless_stages:
  assumes "vless_params br this forceTls flow = Some qs"
  obtains e ns where "settings_encryption (ib_settings this) = Some e"
    and "network_params (ib_stream this) (pset ''encryption'' e (pset ''type'' (ss_network (ib_stream this)) [])) = Some ns"
    and "vless_security br (ib_stream this) (chosen_security forceTls this) flow
      (applyFinalMaskToParams (ss_finalmask (ib_stream this)) ns) = Some qs"
  using assms by (auto simp: vless_params_def Let_def bind_eq_Some_conv)

lemma vless_common:
  assumes "vless_params br this forceTls flow = Some qs"
  shows "distinct (map fst qs)"
    and "oget qs ''type'' = ss_network (ib_stream this)"
    and "Some (oget qs ''encryption'') = settings_encryption (ib_settings this)"
    and "oget qs ''security'' = JStr (security_name (chosen_security forceTls this))"
    and "oget qs ''fm'' = (let p = serializeFinalMask (ss_finalmask (ib_stream this))
      in if p = [] then JUndef else JStr p)"
    and "oget qs ''flow'' =
      (if loosely (ss_network (ib_stream this)) ''tcp'' \<and> \<not> isEmpty flow
        \<and> (chosen_security forceTls this = JStr ''reality''
          \<or> chosen_security forceTls this = JStr ''tls'' \<and> isTls (ib_stream this))
       then flow else JUndef)"
proof -
  obtain e ns where e: "settings_encryption (ib_settings this) = Some e"
    and ns: "network_params (ib_stream this)
      (pset ''encryption'' e (pset ''type'' (ss_network (ib_stream this)) [])) = Some ns"
    and qs: "vless_security br (ib_stream this) (chosen_security forceTls this) flow
      (applyFinalMaskToParams (ss_finalmask (ib_stream this)) ns) = Some qs"
    by (rule vless_stages [OF assms])
  note n = network_sets [OF ns] and f = final_mask_sets [of ns "ss_finalmask (ib_stream this)"]
    and q = vless_security_sets [OF qs]
  show "distinct (map fst qs)"
    using n f q by (simp add: sets_only_def pset_distinct)
  show "oget qs ''type'' = ss_network (ib_stream this)"
    using n f q by (simp add: sets_oget pset_oget)
  show "Some (oget qs ''encryption'') = settings_encryption (ib_settings this)"
    using n f q e by (simp add: sets_oget pset_oget)
  show "oget qs ''security'' = JStr (security_name (chosen_security forceTls this))"
    using q by (simp add: sets_oget pset_oget)
  have "oget ns ''fm'' = JUndef" "oget ns ''flow'' = JUndef"
    using n by (simp_all add: sets_oget pset_oget)
  then have fm: "oget (applyFinalMaskToParams (ss_finalmask (ib_stream this)) ns) ''fm'' =
      (let p = serializeFinalMask (ss_finalmask (ib_stream this)) in if p = [] then JUndef else JStr p)"
    and flow: "oget (applyFinalMaskToParams (ss_finalmask (ib_stream this)) ns) ''flow'' = JUndef"
    by (simp_all add: pset_if_oget applyFinalMaskToParams_def Let_def)
  show "oget qs ''fm'' = (let p = serializeFinalMask (ss_finalmask (ib_stream this))
      in if p = [] then JUndef else JStr p)"
    using sets_oget [OF q, of "''fm''"] fm by (simp add: pset_oget)
  show "oget qs ''flow'' =
      (if loosely (ss_network (ib_stream this)) ''tcp'' \<and> \<not> isEmpty flow
        \<and> (chosen_security forceTls this = JStr ''reality''
          \<or> chosen_security forceTls this = JStr ''tls'' \<and> isTls (ib_stream this))
       then flow else JUndef)"
    using vless_security_flow [OF qs] by (simp only: flow)
qed

text \<open>The final mask is given exactly if its document has a value in it.\<close>

lemma stringify_object: "stringify (JObj ps) \<noteq> []"
  by simp

lemma finalmask_object: "\<exists>ps. FinalMaskStreamSettings_toJson fm = JObj ps"
  by (simp add: FinalMaskStreamSettings_toJson_def masks_toJson_def)

lemma serializeFinalMask_text:
  "(let p = serializeFinalMask fm in if p = [] then JUndef else JStr p) =
   (let doc = FinalMaskStreamSettings_toJson fm in
    if list_ex (\<lambda>x. \<not> isEmpty x) (leaves doc) then JStr (stringify doc) else JUndef)"
proof -
  obtain ps where ps: "FinalMaskStreamSettings_toJson fm = JObj ps" using finalmask_object by blast
  show ?thesis
    unfolding serializeFinalMask_def Let_def ps using shareable_leaves [of "JObj ps"] stringify_object [of ps]
    by (simp only: list_ex_iff split: if_split) simp
qed

section \<open>The two encodings of the padding\<close>

lemma oget_fold_put:
  "distinct (map fst kvs) \<Longrightarrow> oget (fold (\<lambda>(k, v) obj. obj_put obj k v) kvs obj) a =
     (if a \<in> fst ` set kvs then oget kvs a else oget obj a)"
proof (induction kvs arbitrary: obj)
  case (Cons p kvs)
  then show ?case by (cases p) (auto simp del: image_iff simp add: oget_obj_put)
qed simp

lemma given_keys_distinct: "distinct (map fst (given_keys xhttp))"
  unfolding given_keys_def by (rule distinct_map_filter) (simp add: padding_keys_def)

lemma given_key_names:
  "''xPaddingBytes'' \<notin> fst ` set (given_keys xhttp)" "''xPaddingObfsMode'' \<notin> fst ` set (given_keys xhttp)"
  "''x_padding_bytes'' \<notin> fst ` set (given_keys xhttp)"
  by (auto simp: given_keys_def padding_keys_def)

lemmas given_key_undef = given_key_names [THEN oget_not_in]

text \<open>The members of the JSON parameter and the members of the VMess object are the same; only the
  byte range has two names.\<close>

lemma padding_obj:
  assumes "k \<noteq> ''x_padding_bytes''"
  shows "oget (applyXhttpPaddingToObj xhttp []) k = (if k = ''xPaddingBytes'' then JUndef else oget (padding_extra xhttp) k)"
proof (cases "k \<in> fst ` set (given_keys xhttp)")
  case True
  with given_key_names [of xhttp] have "k \<noteq> ''xPaddingBytes''" "k \<noteq> ''xPaddingObfsMode''" by metis+
  with assms True show ?thesis
    by (simp add: applyXhttpPaddingToObj_def padding_extra_def Let_def oget_prop_if oget_prop_if_end
        oget_obj_put oget_fold_put [OF given_keys_distinct] oget_not_in)
next
  case False
  with assms oget_not_in [OF False] show ?thesis
    by (auto simp del: image_iff simp add: applyXhttpPaddingToObj_def padding_extra_def Let_def oget_prop_if
        oget_prop_if_end oget_obj_put oget_fold_put [OF given_keys_distinct] given_key_names)
qed

lemma padding_bytes:
  "oget (applyXhttpPaddingToObj xhttp []) ''x_padding_bytes'' = oget (padding_extra xhttp) ''xPaddingBytes''"
  "oget (applyXhttpPaddingToParams xhttp []) ''x_padding_bytes'' = oget (padding_extra xhttp) ''xPaddingBytes''"
  by (simp_all add: applyXhttpPaddingToObj_def applyXhttpPaddingToParams_def padding_extra_def Let_def oget_prop_if
      oget_prop_if_end oget_obj_put oget_fold_put [OF given_keys_distinct] pset_if_oget given_key_names given_key_undef)

lemma padding_param:
  "oget (applyXhttpPaddingToParams xhttp []) ''extra'' =
     (if padding_extra xhttp = [] then JUndef else JStr (stringify (JObj (padding_extra xhttp))))"
  by (simp add: applyXhttpPaddingToParams_def Let_def pset_if_oget)

section \<open>Addresses and numbers of links\<close>

lemma linkAddress_spelled:
  "linkAddress hostname this =
    (if isEmpty (ib_listen this) \<or> ib_listen this \<in> {JStr ''0.0.0.0'', JStr ''::'', JStr ''::0'', JStr ''127.0.0.1'',
        JStr ''::1'', JStr ''localhost''} then JStr hostname else ib_listen this)"
  by (simp add: linkAddress_def wildcard_addresses_def Let_def)

lemma genAllLinks_one:
  assumes "isArrEmpty (ss_externalProxy (ib_stream this))"
    and "genAllLinks br this remark model client = Some ls"
  shows "\<exists>r link. ls = [\<lparr>sl_remark = r, sl_link = link\<rparr>]
    \<and> genLink br this (linkAddress (br_hostname br) this) (linkPort this) (JStr ''same'') r client = Some link"
  using assms by (auto simp: genAllLinks_def Let_def bind_eq_Some_conv)

lemma traverse_nth: "traverse f xs = Some ys \<Longrightarrow> i < length xs \<Longrightarrow> f (xs ! i) = Some (ys ! i)"
proof (induction xs arbitrary: ys i)
  case (Cons x xs)
  then show ?case by (cases i) (auto simp: bind_eq_Some_conv)
qed simp

lemma genAllLinks_external:
  assumes "\<not> isArrEmpty (ss_externalProxy (ib_stream this))"
    and "genAllLinks br this remark model client = Some ls"
  shows "\<exists>eps. ss_externalProxy (ib_stream this) = JArr eps \<and> length ls = length eps
    \<and> (\<forall>i < length eps. genLink br this (mget (eps ! i) ''dest'') (mget (eps ! i) ''port'')
        (mget (eps ! i) ''forceTls'') (sl_remark (ls ! i)) client = Some (sl_link (ls ! i)))"
proof -
  obtain eps where eps: "ss_externalProxy (ib_stream this) = JArr eps"
    and ls: "traverse (external_link br this remark model client) eps = Some ls"
    using assms by (cases "ss_externalProxy (ib_stream this)") (auto simp: genAllLinks_def Let_def bind_eq_Some_conv)
  have "external_link br this remark model client e = Some l \<Longrightarrow>
      genLink br this (mget e ''dest'') (mget e ''port'') (mget e ''forceTls'') (sl_remark l) client = Some (sl_link l)"
    for e l by (auto simp: external_link_def mget_def bind_eq_Some_conv Let_def)
  with traverse_nth [OF ls] traverse_length [OF ls] eps show ?thesis by blast
qed

section \<open>From a link back to its remark\<close>

lemma last_split: "c \<notin> set t \<Longrightarrow> last (js_split c (s @ c # t)) = t"
proof (induction s)
  case Nil
  then show ?case by (simp add: js_split_no_sep)
next
  case (Cons x s)
  have "2 \<le> length (js_split c (s @ c # t))"
    by (induction s) (auto simp: js_split_nonempty Suc_le_eq split: list.splits)
  then obtain p q ps where "js_split c (s @ c # t) = p # q # ps"
    by (auto simp: Suc_le_length_iff numeral_2_eq_2)
  with Cons show ?case by simp
qed

lemma encoded_no_hash: "CHR ''#'' \<notin> set (encodeURIComponent s)"
  using encode_component_delimiters [of s] by auto

lemma proxy_remark:
  assumes "remark \<noteq> []"
  shows "decodeURIComponent (last (js_split (CHR ''#'') (genProxyLink br this scheme address port remark client)))
    = Some remark"
proof -
  obtain s where "genProxyLink br this scheme address port remark client = s @ CHR ''#'' # encodeURIComponent remark"
    using assms by (simp add: genProxyLink_def Let_def)
  then show ?thesis by (simp add: last_split [OF encoded_no_hash] decode_encode_component)
qed

end
