(* ===== verification/DB_Inbound.thy ===== *)
theory DB_Inbound
  imports Share_Links
begin

text \<open>
  A row of the inbounds table (\<open>DBInbound\<close> of \<open>web/assets/js/model/dbinbound.js\<close>). The settings of
  an inbound are texts there; \<open>toInbound\<close> parses them and keeps the inbound it made. The properties
  the server sends are copied over the defaults by name, so they are a property list; the two
  members the class adds later, the cached inbound and the map of client statistics, are fields.
  \<open>JSON.parse\<close> is an argument.
\<close>

record DBInbound =
  row :: props
  cachedInbound :: "Inbound option"
  clientStatsMap :: "(jsval \<times> jsval) list option"

definition row_defaults :: props where
  "row_defaults =
     [(''id'', JNum 0), (''userId'', JNum 0), (''up'', JNum 0), (''down'', JNum 0), (''total'', JNum 0),
      (''allTime'', JNum 0), (''remark'', JStr []), (''enable'', JBool True), (''expiryTime'', JNum 0),
      (''trafficReset'', JStr ''never''), (''lastTrafficResetTime'', JNum 0), (''listen'', JStr []),
      (''port'', JNum 0), (''publicPort'', JNum 0), (''followChain'', JBool False), (''protocol'', JStr []),
      (''settings'', JStr []), (''streamSettings'', JStr []), (''tag'', JStr []), (''sniffing'', JStr []),
      (''clientStats'', JStr [])]"

definition DBInbound_new :: "jsval \<Rightarrow> DBInbound" where
  "DBInbound_new data = \<lparr>row = (if nullish data then row_defaults else cloneProps row_defaults data []),
     cachedInbound = None, clientStatsMap = None\<rparr>"

definition col :: "DBInbound \<Rightarrow> string \<Rightarrow> jsval" where
  "col this k = oget (row this) k"

definition set_col :: "string \<Rightarrow> jsval \<Rightarrow> DBInbound \<Rightarrow> DBInbound" where
  "set_col k v this = this\<lparr>row := obj_put (row this) k v\<rparr>"

section \<open>What the table shows\<close>

definition row_totalGB :: "DBInbound \<Rightarrow> rat option" where
  "row_totalGB this = map_option quota_get (js_number (col this ''total''))"

definition set_row_totalGB :: "rat \<Rightarrow> DBInbound \<Rightarrow> DBInbound" where
  "set_row_totalGB gb = set_col ''total'' (JNum (quota_set gb))"

definition row_is :: "string \<Rightarrow> DBInbound \<Rightarrow> bool" where
  "row_is protocol this \<longleftrightarrow> col this ''protocol'' = JStr protocol"

definition isVMess :: "DBInbound \<Rightarrow> bool" where "isVMess = row_is ''vmess''"
definition isVLess :: "DBInbound \<Rightarrow> bool" where "isVLess = row_is ''vless''"
definition isTrojan :: "DBInbound \<Rightarrow> bool" where "isTrojan = row_is ''trojan''"
definition isSS :: "DBInbound \<Rightarrow> bool" where "isSS = row_is ''shadowsocks''"
definition isMixed :: "DBInbound \<Rightarrow> bool" where "isMixed = row_is ''mixed''"
definition isHTTP :: "DBInbound \<Rightarrow> bool" where "isHTTP = row_is ''http''"
definition isWireguard :: "DBInbound \<Rightarrow> bool" where "isWireguard = row_is ''wireguard''"
definition isAmneziawg :: "DBInbound \<Rightarrow> bool" where "isAmneziawg = row_is ''amneziawg''"
definition isNativewg :: "DBInbound \<Rightarrow> bool" where "isNativewg = row_is ''nativewg''"
definition isMtproto :: "DBInbound \<Rightarrow> bool" where "isMtproto = row_is ''mtproto''"

definition protocolDisplayName :: "DBInbound \<Rightarrow> jsval" where
  "protocolDisplayName this =
     (if isWireguard this then JStr ''Wireguard (Xray NAT66)''
      else if isAmneziawg this then JStr ''AWG (native IPv6)''
      else if isNativewg this then JStr ''WG (native IPv6)''
      else col this ''protocol'')"

definition row_address :: "string \<Rightarrow> DBInbound \<Rightarrow> jsval" where
  "row_address hostname this =
     (let listen = col this ''listen'' in
      if \<not> isEmpty listen \<and> listen \<noteq> JStr ''0.0.0.0'' then listen else JStr hostname)"

text \<open>A \<open>moment\<close> is its time stamp; \<open>None\<close> is \<open>null\<close>.\<close>

definition row_expiryTime :: "DBInbound \<Rightarrow> jsval option" where
  "row_expiryTime this = (if col this ''expiryTime'' = JNum 0 then None else Some (col this ''expiryTime''))"

definition set_row_expiryTime :: "jsval option \<Rightarrow> DBInbound \<Rightarrow> DBInbound" where
  "set_row_expiryTime t = set_col ''expiryTime'' (case t of None \<Rightarrow> JNum 0 | Some v \<Rightarrow> v)"

definition row_isExpiry :: "int \<Rightarrow> DBInbound \<Rightarrow> bool" where
  "row_isExpiry now this = (case js_number (col this ''expiryTime'') of Some n \<Rightarrow> n < now | None \<Rightarrow> False)"

definition row_linkPort :: "DBInbound \<Rightarrow> jsval" where
  "row_linkPort this = (if gt0 (col this ''publicPort'') then col this ''publicPort'' else col this ''port'')"

definition row_isRelocated :: "DBInbound \<Rightarrow> bool" where
  "row_isRelocated this \<longleftrightarrow> gt0 (col this ''publicPort'') \<and> col this ''publicPort'' \<noteq> col this ''port''"

section \<open>The inbound of a row\<close>

definition invalidateCache :: "DBInbound \<Rightarrow> DBInbound" where
  "invalidateCache this = this\<lparr>cachedInbound := None, clientStatsMap := None\<rparr>"

definition parse_col :: "(string \<Rightarrow> jsval option) \<Rightarrow> jsval \<Rightarrow> jsval option" where
  "parse_col parse v = (if isEmpty v then Some emptyObj else parse (js_str v))"

definition row_config :: "(string \<Rightarrow> jsval option) \<Rightarrow> DBInbound \<Rightarrow> jsval option" where
  "row_config parse this = do {
     settings \<leftarrow> parse_col parse (col this ''settings'');
     streamSettings \<leftarrow> parse_col parse (col this ''streamSettings'');
     sniffing \<leftarrow> parse_col parse (col this ''sniffing'');
     Some (JObj [(''port'', col this ''port''), (''publicPort'', col this ''publicPort''),
       (''listen'', col this ''listen''), (''protocol'', col this ''protocol''), (''settings'', settings),
       (''streamSettings'', streamSettings), (''tag'', col this ''tag''), (''sniffing'', sniffing),
       (''clientStats'', col this ''clientStats'')]) }"

definition toInbound ::
  "inbound_draw \<Rightarrow> (string \<Rightarrow> jsval option) \<Rightarrow> DBInbound \<Rightarrow> (Inbound \<times> DBInbound) option" where
  "toInbound d parse this =
     (case cachedInbound this of
        Some i \<Rightarrow> Some (i, this)
      | None \<Rightarrow> do {
          config \<leftarrow> row_config parse this;
          i \<leftarrow> Inbound_fromJson d config;
          Some (i, this\<lparr>cachedInbound := Some i\<rparr>) })"

text \<open>The map of statistics: a later entry with the same email replaces the earlier one.\<close>

fun stats_map :: "(jsval \<times> jsval) list \<Rightarrow> jsval list \<Rightarrow> (jsval \<times> jsval) list option" where
  "stats_map m [] = Some m"
| "stats_map m (stats # rest) =
     (case members stats of None \<Rightarrow> None | Some p \<Rightarrow> stats_map (AList.update (p ''email'') stats m) rest)"

definition row_getClientStats :: "jsval \<Rightarrow> DBInbound \<Rightarrow> (jsval \<times> DBInbound) option" where
  "row_getClientStats email this = do {
     m \<leftarrow> (case clientStatsMap this of
         Some m \<Rightarrow> Some m
       | None \<Rightarrow> (case col this ''clientStats'' of JArr xs \<Rightarrow> stats_map [] xs | _ \<Rightarrow> Some []));
     Some (case map_of m email of Some v \<Rightarrow> v | None \<Rightarrow> JUndef, this\<lparr>clientStatsMap := Some m\<rparr>) }"

definition row_isMultiUser :: "inbound_draw \<Rightarrow> (string \<Rightarrow> jsval option) \<Rightarrow> DBInbound \<Rightarrow> (bool \<times> DBInbound) option" where
  "row_isMultiUser d parse this =
     (if col this ''protocol'' \<in> set (map JStr [''vmess'', ''vless'', ''trojan'', ''amneziawg'', ''nativewg'',
          ''mixed'', ''http'', ''hysteria'', ''mtproto'']) then Some (True, this)
      else if col this ''protocol'' = JStr ''shadowsocks'' then
        map_option (\<lambda>(i, this). (isSSMultiUser i, this)) (toInbound d parse this)
      else Some (False, this))"

definition hasLink :: "DBInbound \<Rightarrow> bool" where
  "hasLink this \<longleftrightarrow> col this ''protocol'' \<in> set (map JStr [''vmess'', ''vless'', ''trojan'', ''shadowsocks'',
     ''hysteria'', ''mtproto''])"

definition row_genInboundLinks ::
  "browser \<Rightarrow> inbound_draw \<Rightarrow> (string \<Rightarrow> jsval option) \<Rightarrow> string \<Rightarrow> DBInbound \<Rightarrow> (string \<times> DBInbound) option" where
  "row_genInboundLinks br d parse remarkModel this = do {
     (i, this) \<leftarrow> toInbound d parse this;
     links \<leftarrow> genInboundLinks br i (js_str (col this ''remark'')) remarkModel;
     Some (links, this) }"

section \<open>The row and its inbound\<close>

lemma row_keys: "map fst (row (DBInbound_new data)) = map fst row_defaults"
  by (simp add: DBInbound_new_def keys_cloneProps)

text \<open>The cache holds an inbound made of the row.\<close>

definition cache_ok :: "(string \<Rightarrow> jsval option) \<Rightarrow> DBInbound \<Rightarrow> bool" where
  "cache_ok parse this \<longleftrightarrow> (case cachedInbound this of None \<Rightarrow> True
     | Some i \<Rightarrow> \<exists>d config. row_config parse this = Some config \<and> Inbound_fromJson d config = Some i)"

lemma new_cache: "cache_ok parse (DBInbound_new data)"
  by (simp add: cache_ok_def DBInbound_new_def)

lemma invalidated_cache: "cache_ok parse (invalidateCache this)"
  by (simp add: cache_ok_def invalidateCache_def)

lemma row_config_row: "row q = row p \<Longrightarrow> row_config parse q = row_config parse p"
  by (simp add: row_config_def col_def)

lemma toInbound_cache:
  assumes "toInbound d parse this = Some (i, q)" "cache_ok parse this"
  shows "cache_ok parse q" "cachedInbound q = Some i" "row q = row this"
proof -
  have "cache_ok parse q \<and> cachedInbound q = Some i \<and> row q = row this"
  proof (cases "cachedInbound this")
    case (Some j)
    with assms show ?thesis by (auto simp: toInbound_def)
  next
    case None
    then obtain config where "row_config parse this = Some config" "Inbound_fromJson d config = Some i"
      "q = this\<lparr>cachedInbound := Some i\<rparr>"
      using assms(1) by (auto simp: toInbound_def bind_eq_Some_conv)
    with row_config_row [of q this parse] show ?thesis by (auto simp: cache_ok_def)
  qed
  then show "cache_ok parse q" "cachedInbound q = Some i" "row q = row this" by blast+
qed

lemma toInbound_again: "cachedInbound this = Some i \<Longrightarrow> toInbound d parse this = Some (i, this)"
  by (simp add: toInbound_def)

lemma getClientStats_cache: "row_getClientStats e this = Some (v, q) \<Longrightarrow> row q = row this \<and> cachedInbound q = cachedInbound this"
  by (auto simp: row_getClientStats_def bind_eq_Some_conv)

lemma fromJson_members:
  assumes "Inbound_fromJson d config = Some i" "members (dflt emptyObj config) = Some json"
  shows "ib_port i = dflt (JNum (randomInteger 10000 60000 (in_port d))) (json ''port'')"
    "ib_publicPort i = dflt (JNum 0) (json ''publicPort'')"
    "ib_protocol i = dflt (JStr ''vless'') (json ''protocol'')"
    "ib_listen i = dflt (JStr []) (json ''listen'')"
  using assms by (auto simp: Inbound_fromJson_def Inbound_new_def Let_def bind_eq_Some_conv)

text \<open>The table and the form agree on the ports, if the row has them.\<close>

lemma row_agrees:
  assumes "cache_ok parse this" "toInbound d parse this = Some (i, q)"
    and "col this ''port'' \<noteq> JUndef" "col this ''publicPort'' \<noteq> JUndef" "col this ''protocol'' \<noteq> JUndef"
      "col this ''listen'' \<noteq> JUndef"
  shows "ib_port i = col this ''port''" "ib_publicPort i = col this ''publicPort''"
    "ib_protocol i = col this ''protocol''" "ib_listen i = col this ''listen''"
proof -
  obtain d' config where c: "row_config parse this = Some config" "Inbound_fromJson d' config = Some i"
    using toInbound_cache [OF assms(2,1)] row_config_row [of q this parse] by (auto simp: cache_ok_def)
  then obtain ps where ps: "config = JObj ps" "oget ps ''port'' = col this ''port''"
    "oget ps ''publicPort'' = col this ''publicPort''" "oget ps ''protocol'' = col this ''protocol''"
    "oget ps ''listen'' = col this ''listen''"
    by (auto simp: row_config_def bind_eq_Some_conv)
  have "members (dflt emptyObj config) = Some (oget ps)" using ps(1) by simp
  from fromJson_members [OF c(2) this] ps assms(3-6)
  show "ib_port i = col this ''port''" "ib_publicPort i = col this ''publicPort''"
    "ib_protocol i = col this ''protocol''" "ib_listen i = col this ''listen''"
    by (simp_all add: dflt_def)
qed

text \<open>The columns of a row the server sent are never undefined.\<close>

lemma row_col:
  assumes "distinct (map fst data)" "k \<in> fst ` set row_defaults"
  shows "col (DBInbound_new (JObj data)) k = (if oget data k = JUndef then oget row_defaults k else oget data k)"
  using cloneProps_oget [of data k row_defaults "[]"] assms by (simp add: col_def DBInbound_new_def nullish_def)

lemma row_defaults_defined: "k \<in> fst ` set row_defaults \<Longrightarrow> oget row_defaults k \<noteq> JUndef"
proof -
  have "list_all (\<lambda>e. snd e \<noteq> JUndef) row_defaults" by code_simp
  then have "\<forall>e \<in> set row_defaults. snd e \<noteq> JUndef" by (simp only: list_all_iff)
  then show "k \<in> fst ` set row_defaults \<Longrightarrow> ?thesis" using oget_in by force
qed

lemma row_defined:
  "\<lbrakk>distinct (map fst data); k \<in> fst ` set row_defaults\<rbrakk> \<Longrightarrow> col (DBInbound_new (JObj data)) k \<noteq> JUndef"
  using row_defaults_defined by (simp add: row_col)

lemma link_columns:
  "''port'' \<in> fst ` set row_defaults" "''publicPort'' \<in> fst ` set row_defaults"
  "''protocol'' \<in> fst ` set row_defaults" "''listen'' \<in> fst ` set row_defaults"
  by (simp_all add: row_defaults_def)

end
