(* ===== verification/Browser_Util.thy ===== *)
theory Browser_Util
  imports Text_Codec Object_Util
begin

text \<open>
  The helpers of \<open>web/assets/js/util/index.js\<close> that talk to the browser: \<open>HttpUtil\<close>,
  \<open>Utils.debounce\<close>, \<open>CookieManager\<close>, \<open>URLBuilder\<close>, \<open>LanguageManager\<close>, and the address of
  Telegram links, \<open>MtprotoLinkHost\<close> of \<open>model/inbound.js\<close>. What the browser answers is an argument;
  what it is asked to do (a toast, a reload, a cookie, a timeout, a request) is part of the state.
\<close>

section \<open>HttpUtil\<close>

record Msg =
  msg_success :: jsval
  msg_msg :: jsval
  msg_obj :: jsval

definition Msg_new :: "jsval \<Rightarrow> jsval \<Rightarrow> jsval \<Rightarrow> Msg" where
  "Msg_new success msg obj =
     \<lparr>msg_success = dflt (JBool False) success, msg_msg = dflt (JStr []) msg, msg_obj = dflt JNull obj\<rparr>"

text \<open>A caller gets a message or, for an answer of another form, the data itself. A toast is shown
  for a message with a text.\<close>

datatype reply = Message Msg | Data jsval

datatype toast = Success jsval | Error jsval

definition handleMsg :: "reply \<Rightarrow> toast list" where
  "handleMsg r =
     (case r of
        Data d \<Rightarrow> []
      | Message m \<Rightarrow> if msg_msg m = JStr [] then []
          else [if truthy (msg_success m) then Success (msg_msg m) else Error (msg_msg m)])"

fun is_object :: "jsval \<Rightarrow> bool" where
  "is_object (JObj ps) = True"
| "is_object (JArr xs) = True"
| "is_object _ = False"

fun has_success :: "jsval \<Rightarrow> bool" where
  "has_success (JObj ps) = js_in ''success'' ps"
| "has_success _ = False"

definition respToMsg :: "jsval \<Rightarrow> reply" where
  "respToMsg resp =
     (if \<not> truthy resp \<or> \<not> truthy (mget resp ''data'')
      then Message (Msg_new (JBool False) (JStr ''No response data'') JUndef)
      else (let data = mget resp ''data'' in
        if has_success data
        then Message (Msg_new (mget data ''success'') (mget data ''msg'') (mget data ''obj''))
        else if is_object data then Data data
        else Message (Msg_new (JBool False) (JStr ''unknown data:'') data)))"

text \<open>What \<open>axios\<close> does: it resolves with a response or rejects with an error.\<close>

datatype outcome = Resolves jsval | Rejects jsval

definition rejection :: "jsval \<Rightarrow> Msg" where
  "rejection e = Msg_new (JBool False)
     (js_or (mget (mget (mget e ''response'') ''data'') ''message'')
       (js_or (mget e ''message'') (JStr ''Request failed''))) JUndef"

text \<open>\<open>get\<close>, \<open>post\<close> and \<open>postJson\<close>: the reply and the toasts.\<close>

definition http_request :: "outcome \<Rightarrow> reply \<times> toast list" where
  "http_request out =
     (case out of
        Resolves resp \<Rightarrow> (let r = respToMsg resp in (r, handleMsg r))
      | Rejects e \<Rightarrow> (let r = Message (rejection e) in (r, handleMsg r)))"

text \<open>\<open>postWithModal\<close>: what the modal is told, in order.\<close>

datatype modal_call = Loading bool | Close

definition postWithModal :: "outcome \<Rightarrow> bool \<Rightarrow> reply \<times> toast list \<times> modal_call list" where
  "postWithModal out modal =
     (let (r, ts) = http_request out in
      (r, ts, if modal then [Loading True, Loading False]
           @ (case r of Message m \<Rightarrow> if truthy (msg_success m) then [Close] else [] | Data d \<Rightarrow> [])
         else []))"

lemma at_most_one_toast: "length (snd (http_request out)) \<le> 1"
  by (auto simp: http_request_def handleMsg_def Let_def split: outcome.splits reply.splits)

lemma toast_of_rejection:
  "\<exists>m. snd (http_request (Rejects e)) = [Error m] \<and> truthy m"
proof -
  have "truthy (msg_msg (rejection e))"
    by (auto simp: rejection_def Msg_new_def js_or_def dflt_def)
  moreover from this have "msg_msg (rejection e) \<noteq> JStr []" by auto
  ultimately show ?thesis
    by (simp add: http_request_def handleMsg_def Let_def) (simp add: rejection_def Msg_new_def dflt_def)
qed

lemma modal_stops_loading:
  "snd (snd (postWithModal out True)) \<in> {[Loading True, Loading False], [Loading True, Loading False, Close]}"
  by (auto simp: postWithModal_def case_prod_unfold Let_def split: reply.splits)

section \<open>Debounce\<close>

text \<open>The closure \<open>debounce(fn, delay)\<close> returns: its timeout, the pending timeouts with the arguments
  each was set with, and the calls \<open>fn\<close> got.\<close>

record 'a debounced =
  timeoutID :: "nat option"
  pending_calls :: "(nat \<times> 'a) list"
  next_timeout :: nat
  fn_calls :: "'a list"

definition debounce :: "'a debounced" where
  "debounce = \<lparr>timeoutID = None, pending_calls = [], next_timeout = 1, fn_calls = []\<rparr>"

definition clearTimeout :: "nat option \<Rightarrow> 'a debounced \<Rightarrow> 'a debounced" where
  "clearTimeout i d = (case i of None \<Rightarrow> d
     | Some t \<Rightarrow> d\<lparr>pending_calls := filter (\<lambda>e. fst e \<noteq> t) (pending_calls d)\<rparr>)"

definition debounced_call :: "'a \<Rightarrow> 'a debounced \<Rightarrow> 'a debounced" where
  "debounced_call args d =
     (let d = clearTimeout (timeoutID d) d; t = next_timeout d
      in d\<lparr>pending_calls := (t, args) # pending_calls d, next_timeout := t + 1, timeoutID := Some t\<rparr>)"

definition fire_timeout :: "nat \<Rightarrow> 'a debounced \<Rightarrow> 'a debounced" where
  "fire_timeout t d = d\<lparr>pending_calls := filter (\<lambda>e. fst e \<noteq> t) (pending_calls d),
     fn_calls := fn_calls d @ map snd (filter (\<lambda>e. fst e = t) (pending_calls d))\<rparr>"

inductive debounce_reachable :: "'a debounced \<Rightarrow> bool" where
  start: "debounce_reachable debounce"
| call: "debounce_reachable d \<Longrightarrow> debounce_reachable (debounced_call args d)"
| fire: "debounce_reachable d \<Longrightarrow> t \<in> fst ` set (pending_calls d) \<Longrightarrow> debounce_reachable (fire_timeout t d)"

definition debounce_ok :: "'a debounced \<Rightarrow> bool" where
  "debounce_ok d \<longleftrightarrow> pending_calls d = []
     \<or> (\<exists>t args. timeoutID d = Some t \<and> pending_calls d = [(t, args)])"

lemma call_pending:
  assumes "debounce_ok d"
  shows "pending_calls (debounced_call args d) = [(next_timeout d, args)]"
  using assms by (auto simp: debounced_call_def debounce_ok_def clearTimeout_def Let_def split: option.splits)

lemma debounce_inv: "debounce_reachable d \<Longrightarrow> debounce_ok d"
proof (induction rule: debounce_reachable.induct)
  case (call d args)
  then show ?case using call_pending [of d args] by (simp add: debounce_ok_def debounced_call_def Let_def)
qed (auto simp: debounce_ok_def debounce_def fire_timeout_def)

text \<open>Of a burst of calls only the last one is made.\<close>

definition burst :: "'a list \<Rightarrow> 'a debounced \<Rightarrow> 'a debounced" where
  "burst argss d = fold debounced_call argss d"

lemma burst_reachable: "debounce_reachable d \<Longrightarrow> debounce_reachable (burst argss d)"
  by (induction argss arbitrary: d) (auto simp: burst_def intro: debounce_reachable.call)

lemma burst_calls: "fn_calls (burst argss d) = fn_calls d"
proof (induction argss arbitrary: d)
  case (Cons a argss)
  then show ?case by (simp add: burst_def debounced_call_def clearTimeout_def Let_def split: option.splits)
qed (simp add: burst_def)

lemma burst_once:
  assumes "debounce_reachable d"
  shows "\<exists>t. pending_calls (burst (argss @ [args]) d) = [(t, args)]
    \<and> fn_calls (fire_timeout t (burst (argss @ [args]) d)) = fn_calls d @ [args]"
proof -
  have "burst (argss @ [args]) d = debounced_call args (burst argss d)" by (simp add: burst_def)
  with call_pending [OF debounce_inv [OF burst_reachable [OF assms, of argss]], of args]
    burst_calls [of "argss @ [args]" d]
  show ?thesis by (simp add: fire_timeout_def)
qed

section \<open>The address of Telegram links\<close>

text \<open>\<open>MtprotoLinkHost\<close>: the cached address, whether a request is pending, and how many requests were
  sent. An answer settles the pending request.\<close>

record link_host =
  lh_ipv4 :: jsval
  lh_pending :: bool
  lh_requests :: nat

definition MtprotoLinkHost :: link_host where
  "MtprotoLinkHost = \<lparr>lh_ipv4 = JStr [], lh_pending = False, lh_requests = 0\<rparr>"

definition link_host_set :: "jsval \<Rightarrow> link_host \<Rightarrow> link_host" where
  "link_host_set status this =
     (let ip = (if truthy status \<and> truthy (mget status ''publicIP'') then mget (mget status ''publicIP'') ''ipv4''
         else JStr [])
      in this\<lparr>lh_ipv4 := (if \<not> truthy ip \<or> ip = JStr ''N/A'' then JStr [] else ip)\<rparr>)"

definition link_host_load :: "link_host \<Rightarrow> link_host" where
  "link_host_load this =
     (if truthy (lh_ipv4 this) then this
      else if lh_pending this then this
      else this\<lparr>lh_pending := True, lh_requests := lh_requests this + 1\<rparr>)"

definition link_host_answer :: "outcome \<Rightarrow> link_host \<Rightarrow> link_host" where
  "link_host_answer out this =
     (let this = (case fst (http_request out) of
            Message m \<Rightarrow> if truthy (msg_success m) then link_host_set (msg_obj m) this else this
          | Data d \<Rightarrow> if truthy (mget d ''success'') then link_host_set (mget d ''obj'') this else this)
      in this\<lparr>lh_pending := False\<rparr>)"

inductive link_host_run :: "link_host \<Rightarrow> nat \<Rightarrow> bool" where
  start: "link_host_run MtprotoLinkHost 0"
| load: "link_host_run h n \<Longrightarrow> link_host_run (link_host_load h) n"
| answer: "link_host_run h n \<Longrightarrow> lh_pending h \<Longrightarrow> link_host_run (link_host_answer out h) (n + 1)"

text \<open>\<open>n\<close> counts the answers: the requests are the answered ones and at most one more.\<close>

lemma link_host_requests: "link_host_run h n \<Longrightarrow> lh_requests h = n + (if lh_pending h then 1 else 0)"
proof (induction rule: link_host_run.induct)
  case (answer h n out)
  have "lh_requests (link_host_answer out h) = lh_requests h"
    by (simp add: link_host_answer_def link_host_set_def Let_def split: reply.splits)
  with answer show ?case by (simp add: link_host_answer_def Let_def)
qed (simp_all add: MtprotoLinkHost_def link_host_load_def)

lemma link_host_known:
  "link_host_run h n \<Longrightarrow> lh_ipv4 h = JStr [] \<or> truthy (lh_ipv4 h) \<and> lh_ipv4 h \<noteq> JStr ''N/A''"
  by (induction rule: link_host_run.induct)
    (auto simp: MtprotoLinkHost_def link_host_load_def link_host_answer_def link_host_set_def Let_def
      split: reply.splits)

end
