(* ===== verification/Cookies.thy ===== *)
theory Cookies
  imports Text_Codec
begin

text \<open>
  \<open>CookieManager\<close>, \<open>LanguageManager\<close> and \<open>URLBuilder\<close> of \<open>web/assets/js/util/index.js\<close>. The cookies
  of the page are a jar, a list of names and values; \<open>document.cookie\<close> prints it, and an assignment
  to it sets one cookie from its text up to the first semicolon, or removes it when the text has a
  date in the past.
\<close>

section \<open>Cookies\<close>

type_synonym jar = "(string \<times> string) list"

definition cookie_text :: "string \<times> string \<Rightarrow> string" where
  "cookie_text c = fst c @ ''='' @ snd c"

definition document_cookie :: "jar \<Rightarrow> string" where
  "document_cookie jar = js_join ''; '' (map cookie_text jar)"

text \<open>\<open>s.slice(0, i)\<close> and \<open>s.slice(i + 1)\<close> for the first \<open>c\<close> at \<open>i\<close>.\<close>

fun cut :: "char \<Rightarrow> string \<Rightarrow> string \<times> string" where
  "cut c [] = ([], [])"
| "cut c (x # xs) = (if x = c then ([], xs) else (x # fst (cut c xs), snd (cut c xs)))"

definition assign_cookie :: "bool \<Rightarrow> string \<Rightarrow> jar \<Rightarrow> jar" where
  "assign_cookie expired text jar =
     (let (name, v) = cut (CHR ''='') (fst (cut (CHR '';'') text))
      in if expired then AList.delete name jar else AList.update name v jar)"

text \<open>\<open>getCookie\<close>; \<open>None\<close> is the \<open>URIError\<close> of \<open>decodeURIComponent\<close>.\<close>

fun find_cookie :: "string \<Rightarrow> string list \<Rightarrow> string option" where
  "find_cookie name [] = Some []"
| "find_cookie name (c # ca) =
     (let c = js_trim c in
      if starts_with c name then decodeURIComponent (drop (length name) c) else find_cookie name ca)"

definition getCookie :: "string \<Rightarrow> jar \<Rightarrow> string option" where
  "getCookie cname jar = find_cookie (cname @ ''='') (js_split (CHR '';'') (document_cookie jar))"

text \<open>\<open>setCookie(cname, cvalue, exdays)\<close>: with a number of days other than 0 the text gets a date,
  which is in the past if the number is negative.\<close>

definition setCookie :: "string \<Rightarrow> string \<Rightarrow> int \<Rightarrow> string \<Rightarrow> jar \<Rightarrow> jar" where
  "setCookie cname cvalue exdays date jar =
     assign_cookie (exdays < 0)
       (cname @ ''='' @ encodeURIComponent cvalue @ '';''
         @ (if exdays \<noteq> 0 then ''expires='' @ date @ '';'' else []) @ ''path=/'') jar"

subsection \<open>A cookie comes back\<close>

definition plain_name :: "string \<Rightarrow> bool" where
  "plain_name n \<longleftrightarrow> n \<noteq> [] \<and> (\<forall>c \<in> set n. c \<noteq> CHR ''='' \<and> c \<noteq> CHR '';'' \<and> \<not> is_space c)"

definition plain_cookie :: "string \<times> string \<Rightarrow> bool" where
  "plain_cookie c \<longleftrightarrow> plain_name (fst c) \<and> CHR '';'' \<notin> set (snd c)"

definition jar_ok :: "jar \<Rightarrow> bool" where
  "jar_ok jar \<longleftrightarrow> distinct (map fst jar) \<and> (\<forall>c \<in> set jar. plain_cookie c)"

lemma cut_append: "c \<notin> set s \<Longrightarrow> cut c (s @ c # t) = (s, t)"
  by (induction s) auto

lemma cut_none: "c \<notin> set s \<Longrightarrow> cut c s = (s, [])"
  by (induction s) auto

lemma encoded_plain: "CHR '';'' \<notin> set (encodeURIComponent s)" "CHR ''='' \<notin> set (encodeURIComponent s)"
  using encode_component_delimiters [of s] by auto

lemma encoded_no_space: "c \<in> set (encodeURIComponent s) \<Longrightarrow> \<not> is_space c"
proof -
  have "list_all (\<lambda>n. \<not> unreserved (char_of n) \<and> char_of n \<notin> set percent_alphabet) [9, 10, 11, 12, 13, 32 :: nat]"
    by code_simp
  then have "\<not> unreserved (char_of n) \<and> char_of n \<notin> set percent_alphabet" if "n \<in> {9, 10, 11, 12, 13, 32}" for n :: nat
    using that unfolding list_all_iff by auto
  from this [of "of_char c"] have "is_space c \<longrightarrow> \<not> unreserved c \<and> c \<notin> set percent_alphabet"
    by (simp add: is_space_def)
  then show "c \<in> set (encodeURIComponent s) \<Longrightarrow> ?thesis"
    using encode_component_alphabet by blast
qed

lemma setCookie_jar:
  assumes "plain_name n" "0 \<le> exdays"
  shows "setCookie n v exdays date jar = AList.update n (encodeURIComponent v) jar"
proof -
  let ?rest = "(if exdays \<noteq> 0 then ''expires='' @ date @ '';'' else []) @ ''path=/''"
  have sc: "CHR '';'' \<notin> set (n @ ''='' @ encodeURIComponent v)"
    using assms(1) encoded_plain(1) [of v] by (auto simp: plain_name_def)
  have eq: "CHR ''='' \<notin> set n" using assms(1) by (auto simp: plain_name_def)
  have "cut (CHR '';'') (n @ ''='' @ encodeURIComponent v @ '';'' @ ?rest) = (n @ ''='' @ encodeURIComponent v, ?rest)"
    using cut_append [OF sc, of ?rest] by simp
  moreover have "cut (CHR ''='') (n @ ''='' @ encodeURIComponent v) = (n, encodeURIComponent v)"
    using cut_append [OF eq] by simp
  ultimately show ?thesis using assms(2) by (simp add: setCookie_def assign_cookie_def)
qed

lemma jar_ok_set:
  assumes "jar_ok jar" "plain_name n"
  shows "jar_ok (AList.update n (encodeURIComponent v) jar)"
proof -
  have "e = (n, encodeURIComponent v) \<or> e \<in> set jar" if "e \<in> set (AList.update n (encodeURIComponent v) jar)" for e
    using that by (induction jar) (auto split: if_splits)
  with assms encoded_plain(1) show ?thesis
    unfolding jar_ok_def plain_cookie_def by (metis distinct_update fst_conv snd_conv)
qed

lemma dropWhile_first: "s \<noteq> [] \<Longrightarrow> \<not> P (hd s) \<Longrightarrow> dropWhile P s = s"
  by (cases s) auto

lemma trim_plain:
  assumes "s \<noteq> []" "\<not> is_space (hd s)" "\<not> is_space (last s)"
  shows "js_trim s = s" "js_trim (CHR '' '' # s) = s"
proof -
  have space: "is_space (CHR '' '')" by (simp add: is_space_def)
  have "hd (rev s) = last s" using assms(1) by (simp add: hd_rev)
  with assms have "dropWhile is_space (rev s) = rev s" by (intro dropWhile_first) auto
  moreover have "dropWhile is_space s = s" using assms by (intro dropWhile_first) auto
  ultimately show "js_trim s = s" "js_trim (CHR '' '' # s) = s" using space by (simp_all add: js_trim_def)
qed

text \<open>What the loop of \<open>getCookie\<close> sees: the cookies, the later ones after a space.\<close>

lemma split_cookies:
  "jar \<noteq> [] \<Longrightarrow> \<forall>c \<in> set jar. CHR '';'' \<notin> set (cookie_text c) \<Longrightarrow>
   js_split (CHR '';'') (document_cookie jar) = cookie_text (hd jar) # map (\<lambda>c. CHR '' '' # cookie_text c) (tl jar)"
proof (induction jar rule: induct_list012)
  case (2 c)
  then show ?case by (simp add: document_cookie_def js_split_no_sep)
next
  case (3 c d jar)
  have "document_cookie (c # d # jar) = cookie_text c @ CHR '';'' # CHR '' '' # document_cookie (d # jar)"
    by (simp add: document_cookie_def)
  moreover have "js_split (CHR '';'') (CHR '' '' # document_cookie (d # jar))
      = (CHR '' '' # cookie_text d) # map (\<lambda>c. CHR '' '' # cookie_text c) jar"
    using "3.IH"(2) "3.prems" by simp
  ultimately show ?case using "3.prems" js_split_append [of "CHR '';''" "cookie_text c"] by simp
qed simp

text \<open>The parts a browser does not trim: a value that ends in a space is trimmed by the loop.\<close>

definition trimmed :: "jar \<Rightarrow> bool" where
  "trimmed jar \<longleftrightarrow> (\<forall>c \<in> set jar. snd c = [] \<or> \<not> is_space (last (snd c)))"

lemma cookie_trim:
  assumes "plain_name (fst c)" "snd c = [] \<or> \<not> is_space (last (snd c))"
  shows "js_trim (cookie_text c) = cookie_text c" "js_trim (CHR '' '' # cookie_text c) = cookie_text c"
proof -
  have "\<not> is_space (CHR ''='')" by (simp add: is_space_def)
  with assms have "cookie_text c \<noteq> []" "\<not> is_space (hd (cookie_text c))" "\<not> is_space (last (cookie_text c))"
    by (auto simp: cookie_text_def plain_name_def hd_append)
  from trim_plain [OF this] show "js_trim (cookie_text c) = cookie_text c"
    "js_trim (CHR '' '' # cookie_text c) = cookie_text c" .
qed

lemma cookie_prefix:
  assumes "plain_name (fst c)" "plain_name n"
  shows "starts_with (cookie_text c) (n @ ''='') \<longleftrightarrow> fst c = n"
proof
  assume "starts_with (cookie_text c) (n @ ''='')"
  then obtain t where t: "fst c @ CHR ''='' # snd c = n @ CHR ''='' # t"
    by (metis append_Cons append_Nil append_assoc append_take_drop_id cookie_text_def starts_with_take)
  have "CHR ''='' \<notin> set (fst c)" "CHR ''='' \<notin> set n" using assms by (auto simp: plain_name_def)
  with t cut_append show "fst c = n" by (metis fst_conv)
next
  assume "fst c = n"
  then show "starts_with (cookie_text c) (n @ ''='')"
    using starts_with_append [of "n @ ''=''" "snd c"] by (simp add: cookie_text_def)
qed

lemma find_cookies:
  "\<lbrakk>\<forall>c \<in> set jar. plain_name (fst c); trimmed jar; plain_name n\<rbrakk> \<Longrightarrow>
   find_cookie (n @ ''='') (map cookie_text jar) = (case map_of jar n of None \<Rightarrow> Some [] | Some v \<Rightarrow> decodeURIComponent v)
   \<and> find_cookie (n @ ''='') (map (\<lambda>c. CHR '' '' # cookie_text c) jar)
       = (case map_of jar n of None \<Rightarrow> Some [] | Some v \<Rightarrow> decodeURIComponent v)"
proof (induction jar)
  case (Cons c jar)
  have c: "plain_name (fst c)" "snd c = [] \<or> \<not> is_space (last (snd c))"
    using Cons.prems by (simp_all add: trimmed_def)
  note cookie_trim [OF c] cookie_prefix [OF c(1) Cons.prems(3)]
  moreover have "fst c = n \<Longrightarrow> drop (length (n @ ''='')) (cookie_text c) = snd c"
    by (auto simp: cookie_text_def)
  moreover have "trimmed jar" using Cons.prems(2) by (simp add: trimmed_def)
  ultimately show ?case using Cons by (cases c) (simp add: Let_def)
qed simp

lemma getCookie_map:
  assumes "jar_ok jar" "trimmed jar" "plain_name n"
  shows "getCookie n jar = (case map_of jar n of None \<Rightarrow> Some [] | Some v \<Rightarrow> decodeURIComponent v)"
proof (cases jar)
  case Nil
  have "\<not> starts_with [] (n @ ''='')" by (cases n) simp_all
  with Nil show ?thesis by (simp add: getCookie_def document_cookie_def js_trim_def)
next
  case (Cons c cs)
  have plain: "\<forall>c \<in> set jar. plain_name (fst c)" using assms(1) by (auto simp: jar_ok_def plain_cookie_def)
  have "\<forall>c \<in> set jar. CHR '';'' \<notin> set (cookie_text c)"
    using assms(1) by (auto simp: jar_ok_def plain_cookie_def plain_name_def cookie_text_def)
  with Cons have "js_split (CHR '';'') (document_cookie jar)
      = cookie_text c # map (\<lambda>c. CHR '' '' # cookie_text c) cs"
    by (simp add: split_cookies)
  moreover have "find_cookie (n @ ''='') (cookie_text c # map (\<lambda>c. CHR '' '' # cookie_text c) cs)
      = find_cookie (n @ ''='') (map (\<lambda>c. CHR '' '' # cookie_text c) jar)"
    using plain assms(2) Cons by (simp add: cookie_trim trimmed_def)
  ultimately show ?thesis using find_cookies [OF plain assms(2,3)] by (simp add: getCookie_def)
qed

lemma trimmed_set: "trimmed jar \<Longrightarrow> trimmed (AList.update n (encodeURIComponent v) jar)"
proof -
  have "e = (n, encodeURIComponent v) \<or> e \<in> set jar" if "e \<in> set (AList.update n (encodeURIComponent v) jar)" for e
    using that by (induction jar) (auto split: if_splits)
  then show "trimmed jar \<Longrightarrow> ?thesis"
    unfolding trimmed_def using encoded_no_space last_in_set by (metis snd_conv)
qed

lemma cookie_comes_back:
  assumes "jar_ok jar" "trimmed jar" "plain_name n" "plain_name m" "0 \<le> exdays"
  shows "getCookie m (setCookie n v exdays date jar) = (if m = n then Some v else getCookie m jar)"
  using getCookie_map [OF jar_ok_set [OF assms(1,3)] trimmed_set [OF assms(2)] assms(4), of v]
    getCookie_map [OF assms(1,2,4)]
  by (simp add: setCookie_jar [OF assms(3,5)] update_conv' decode_encode_component)

section \<open>Languages\<close>

text \<open>The values of \<open>supportedLanguages\<close>, without their names and flags, in order.\<close>

definition supportedLanguages :: "string list" where
  "supportedLanguages = [''ar-EG'', ''en-US'', ''fa-IR'', ''zh-CN'', ''zh-TW'', ''ja-JP'', ''ru-RU'', ''vi-VN'',
     ''es-ES'', ''id-ID'', ''uk-UA'', ''tr-TR'', ''pt-BR'']"

definition simularLangs :: "(string \<times> string) list" where
  "simularLangs =
     (let v = (!) supportedLanguages in
      [(''ar'', v 0), (''fa'', v 2), (''ja'', v 5), (''ru'', v 6), (''vi'', v 7), (''es'', v 8), (''id'', v 9),
       (''uk'', v 10), (''tr'', v 11), (''pt'', v 12)])"

definition isSupportLanguage :: "jsval \<Rightarrow> bool" where
  "isSupportLanguage language \<longleftrightarrow> filter (\<lambda>v. JStr v = language) supportedLanguages \<noteq> []"

record navigator =
  nav_language :: jsval
  nav_userLanguage :: jsval

text \<open>The cookies, and how often the page was told to reload.\<close>

record lang_page =
  lp_jar :: jar
  lp_reloads :: nat

definition store_language :: "string \<Rightarrow> bool \<Rightarrow> lang_page \<Rightarrow> lang_page" where
  "store_language v reload p = p\<lparr>lp_jar := setCookie ''lang'' v 0 [] (lp_jar p),
     lp_reloads := lp_reloads p + (if reload then 1 else 0)\<rparr>"

definition similar :: "jsval \<Rightarrow> jsval" where
  "similar lang = fold (\<lambda>(short, v) lang. if lang = JStr short then JStr v else lang) simularLangs lang"

definition getLanguage :: "navigator option \<Rightarrow> lang_page \<Rightarrow> (jsval \<times> lang_page) option" where
  "getLanguage nav p = do {
     lang \<leftarrow> getCookie ''lang'' (lp_jar p);
     Some (if lang \<noteq> [] then (JStr lang, p)
       else (case nav of
           None \<Rightarrow> (JStr lang, store_language ''en-US'' True p)
         | Some n \<Rightarrow>
             (let lang = similar (js_or (nav_language n) (nav_userLanguage n)) in
              (lang, if isSupportLanguage lang then store_language (js_str lang) False p
                     else store_language ''en-US'' True p)))) }"

definition setLanguage :: "jsval \<Rightarrow> lang_page \<Rightarrow> lang_page" where
  "setLanguage language p =
     store_language (js_str (if isSupportLanguage language then language else JStr ''en-US'')) True p"

lemma support_iff: "isSupportLanguage v \<longleftrightarrow> v \<in> JStr ` set supportedLanguages"
  by (auto simp: isSupportLanguage_def filter_empty_conv)

lemma en_US_supported: "''en-US'' \<in> set supportedLanguages"
  by (simp add: supportedLanguages_def)

lemma lang_plain: "plain_name ''lang''"
  by (simp add: plain_name_def is_space_def)

lemma stored_language:
  assumes "jar_ok (lp_jar p)" "trimmed (lp_jar p)"
  shows "getCookie ''lang'' (lp_jar (store_language v r p)) = Some v"
  using cookie_comes_back [OF assms lang_plain lang_plain, of 0 v "[]"] by (simp add: store_language_def)

lemma getLanguage_empty:
  assumes "jar_ok (lp_jar p)" "trimmed (lp_jar p)" "getCookie ''lang'' (lp_jar p) = Some []"
    and "getLanguage nav p = Some (lang, q)"
  shows "\<exists>v \<in> set supportedLanguages. getCookie ''lang'' (lp_jar q) = Some v
    \<and> (if isSupportLanguage lang then lang = JStr v \<and> lp_reloads q = lp_reloads p
       else v = ''en-US'' \<and> lp_reloads q = lp_reloads p + 1)"
proof (cases "isSupportLanguage lang")
  case True
  then obtain v where v: "lang = JStr v" "v \<in> set supportedLanguages" by (auto simp: support_iff)
  have "[] \<notin> set supportedLanguages" by (simp add: supportedLanguages_def)
  with v have "v \<noteq> []" by auto
  with assms(3,4) v True have "q = store_language v False p"
    by (auto simp: getLanguage_def Let_def split: option.splits if_splits)
  with stored_language [OF assms(1,2), of v False] v True show ?thesis by (auto simp: store_language_def)
next
  case False
  with assms(3,4) have "q = store_language ''en-US'' True p"
    by (auto simp: getLanguage_def Let_def split: option.splits if_splits)
  with stored_language [OF assms(1,2), of "''en-US''" True] False en_US_supported show ?thesis
    by (auto simp: store_language_def)
qed

lemma getLanguage_answer:
  assumes "jar_ok (lp_jar p)" "trimmed (lp_jar p)" "getLanguage nav p = Some (lang, q)"
  shows "\<exists>c. getCookie ''lang'' (lp_jar p) = Some c
    \<and> (if c \<noteq> [] then lang = JStr c \<and> q = p
       else \<exists>v \<in> set supportedLanguages. getCookie ''lang'' (lp_jar q) = Some v
         \<and> (if isSupportLanguage lang then lang = JStr v \<and> lp_reloads q = lp_reloads p
            else v = ''en-US'' \<and> lp_reloads q = lp_reloads p + 1))"
proof -
  from assms(3) obtain c where c: "getCookie ''lang'' (lp_jar p) = Some c" by (auto simp: getLanguage_def bind_eq_Some_conv)
  show ?thesis
  proof (cases "c = []")
    case True
    with c have "getCookie ''lang'' (lp_jar p) = Some []" by simp
    from getLanguage_empty [OF assms(1,2) this assms(3)] c True show ?thesis by simp
  next
    case False
    with c assms(3) show ?thesis by (simp add: getLanguage_def)
  qed
qed

lemma setLanguage_supported:
  assumes "jar_ok (lp_jar p)" "trimmed (lp_jar p)"
  shows "\<exists>v \<in> set supportedLanguages. getCookie ''lang'' (lp_jar (setLanguage language p)) = Some v"
  using stored_language [OF assms] en_US_supported by (auto simp: setLanguage_def support_iff)

section \<open>Addresses\<close>

record page_location =
  pl_hostname :: string
  pl_port :: string
  pl_protocol :: string

definition absent :: "jsval \<Rightarrow> bool" where
  "absent v \<longleftrightarrow> \<not> truthy v \<or> mget v ''length'' = JNum 0"

definition buildURL :: "page_location \<Rightarrow> jsval \<Rightarrow> jsval \<Rightarrow> jsval \<Rightarrow> jsval \<Rightarrow> jsval \<Rightarrow> string" where
  "buildURL loc host port isTLS base path =
     (let host = (if absent host then JStr (pl_hostname loc) else host);
          port = (if absent port then JStr (pl_port loc) else port);
          tls = (if isTLS = JUndef then pl_protocol loc = ''https:'' else truthy isTLS);
          port = js_str port;
          port = (if port = [] \<or> tls \<and> port = ''443'' \<or> \<not> tls \<and> port = ''80'' then [] else '':'' @ port)
      in (if tls then ''https:'' else ''http:'') @ ''//'' @ js_str host @ port @ js_str base @ js_str path)"

end
