(* ===== verification/Monitoring.thy ===== *)
theory Monitoring
  imports Formatters
begin

text \<open>
  The monitoring helpers (\<open>web/assets/js/util/monitoring.js\<close>): \<open>MonUtil\<close>, what \<open>MonApi\<close> makes of
  an answer, and \<open>MonHealthMixin\<close>, the Health column of the inbounds table with its poll timer. The
  page is a record of the mixin's data with the intervals of the browser. \<open>moment(ms).format\<close> is an
  argument; a ratio is a pair of numbers, rounded exactly.
\<close>

section \<open>MonUtil\<close>

definition RANK :: "string list" where
  "RANK = [''DOWN'', ''FLAPPING'', ''UNKNOWN'', ''UP'', ''PAUSED'']"

definition STALE :: string where
  "STALE = ''STALE''"

definition PROBE_PREFIX :: string where
  "PROBE_PREFIX = ''probe-''"

fun isProbeAccount :: "jsval \<Rightarrow> bool" where
  "isProbeAccount (JStr email) = (js_lower (take (length PROBE_PREFIX) email) = PROBE_PREFIX)"
| "isProbeAccount _ = False"

text \<open>\<open>RANK.indexOf(s)\<close>, with -1 for a name that is not ranked.\<close>

definition rank_index :: "jsval \<Rightarrow> int" where
  "rank_index s = (case find (\<lambda>i. JStr (RANK ! i) = s) [0..<length RANK] of None \<Rightarrow> -1 | Some i \<Rightarrow> int i)"

definition worst_step :: "jsval \<Rightarrow> int \<Rightarrow> int" where
  "worst_step s best = (let i = rank_index s in if i \<ge> 0 \<and> (best < 0 \<or> i < best) then i else best)"

definition worst :: "jsval list \<Rightarrow> string" where
  "worst states =
     (let best = fold worst_step states (-1) in if best < 0 then [] else RANK ! nat best)"

definition stateClass :: "jsval \<Rightarrow> bool \<Rightarrow> string" where
  "stateClass state stale =
     ''mon-state-'' @ js_lower (js_str (if stale then JStr STALE else js_or state (JStr ''unknown'')))"

text \<open>\<open>dur(ms, now)\<close> for time stamps in milliseconds; 0 is a missing stamp, and a missing \<open>now\<close> is
  the clock.\<close>

definition dur :: "int \<Rightarrow> int \<Rightarrow> int \<Rightarrow> string" where
  "dur clock ms now =
     (if ms = 0 then []
      else (let s = max 0 (round_div ((if now \<noteq> 0 then now else clock) - ms) 1000); m = s div 60; h = m div 60
        in if s < 60 then int_str s @ ''s''
           else if m < 60 then int_str m @ ''m''
           else if h < 48 then int_str h @ ''h '' @ pad_zeros 2 (int_str (m mod 60)) @ ''m''
           else int_str (h div 24) @ ''d''))"

definition ago :: "int \<Rightarrow> int \<Rightarrow> int \<Rightarrow> string" where
  "ago clock ms now = (if ms = 0 then [] else dur clock ms now @ '' ago'')"

definition mon_time :: "(int \<Rightarrow> string \<Rightarrow> string) \<Rightarrow> int \<Rightarrow> string" where
  "mon_time moment_format ms = (if ms \<noteq> 0 then moment_format ms ''HH:mm'' else [])"

definition mon_stamp :: "(int \<Rightarrow> string \<Rightarrow> string) \<Rightarrow> int \<Rightarrow> string" where
  "mon_stamp moment_format ms = (if ms \<noteq> 0 then moment_format ms ''HH:mm DD.MM'' else [])"

text \<open>\<open>None\<close> stands for \<open>null\<close> among the arguments and for the dash among the results.\<close>

definition uptime :: "(int \<times> int) option \<Rightarrow> string option" where
  "uptime ratio = map_option (\<lambda>(n, d). js_toFixed 1 (n * 100) d @ '' %'') ratio"

definition latency :: "(int \<times> int) option \<Rightarrow> string option" where
  "latency msValue = map_option (\<lambda>(n, d). int_str (round_div n d) @ '' ms'') msValue"

definition coverage :: "(int \<times> int) option \<Rightarrow> string" where
  "coverage ratio = (let (n, d) = (case ratio of Some r \<Rightarrow> r | None \<Rightarrow> (0, 1)) in
     int_str (round_div (100 * n) d) @ '' %'')"

lemma uptime_samples: "uptime (Some (998, 1000)) = Some ''99.8 %''" "uptime (Some (1, 1)) = Some ''100.0 %''"
  "latency (Some (351, 2)) = Some ''176 ms''" "coverage (Some (19, 20)) = ''95 %''" "coverage None = ''0 %''"
  by code_simp+

section \<open>The worst state\<close>

lemma rank_index_cases:
  "rank_index s = - 1 \<and> s \<notin> JStr ` set RANK \<or> (\<exists>i < length RANK. rank_index s = int i \<and> s = JStr (RANK ! i))"
proof (cases "find (\<lambda>i. JStr (RANK ! i) = s) [0..<length RANK]")
  case None
  then have "rank_index s = - 1" by (simp add: rank_index_def)
  moreover have "s \<notin> JStr ` set RANK" using None by (auto simp: find_None_iff in_set_conv_nth)
  ultimately show ?thesis by simp
next
  case (Some i)
  then have "rank_index s = int i" by (simp add: rank_index_def)
  moreover have "i < length RANK" "s = JStr (RANK ! i)" using Some by (auto simp: find_Some_iff)
  ultimately show ?thesis by blast
qed

lemma rank_index_RANK: "i < length RANK \<Longrightarrow> rank_index (JStr (RANK ! i)) = int i"
proof -
  have "list_all (\<lambda>i. rank_index (JStr (RANK ! i)) = int i) [0..<length RANK]" by code_simp
  then show "i < length RANK \<Longrightarrow> ?thesis" by (rule below_all)
qed

definition best_of :: "jsval list \<Rightarrow> int \<Rightarrow> bool" where
  "best_of xs b \<longleftrightarrow> (b = - 1 \<and> set xs \<inter> JStr ` set RANK = {}
     \<or> (\<exists>i < length RANK. b = int i \<and> JStr (RANK ! i) \<in> set xs
         \<and> (\<forall>j < length RANK. JStr (RANK ! j) \<in> set xs \<longrightarrow> i \<le> j)))"

lemma best_of_cases:
  assumes "best_of xs b"
  obtains "b = - 1" "\<And>j. j < length RANK \<Longrightarrow> JStr (RANK ! j) \<notin> set xs"
  | i where "i < length RANK" "b = int i" "JStr (RANK ! i) \<in> set xs"
      "\<And>j. j < i \<Longrightarrow> JStr (RANK ! j) \<notin> set xs"
proof -
  from assms consider "b = - 1" "set xs \<inter> JStr ` set RANK = {}"
    | i where "i < length RANK" "b = int i" "JStr (RANK ! i) \<in> set xs"
      "\<forall>j < length RANK. JStr (RANK ! j) \<in> set xs \<longrightarrow> i \<le> j"
    by (auto simp: best_of_def)
  then show thesis
  proof cases
    case 1
    then have "JStr (RANK ! j) \<notin> set xs" if "j < length RANK" for j using nth_mem [OF that] by blast
    with 1 that(1) show thesis by blast
  next
    case (2 i)
    then have "JStr (RANK ! j) \<notin> set xs" if "j < i" for j using that by (meson leD less_trans)
    with 2 that(2) show thesis by blast
  qed
qed

lemma best_ofI:
  assumes "i < length RANK" "JStr (RANK ! i) \<in> set xs" "\<And>j. j < i \<Longrightarrow> JStr (RANK ! j) \<notin> set xs"
  shows "best_of xs (int i)"
  unfolding best_of_def using assms by (intro disjI2 exI [of _ i]) (auto simp flip: not_less)

lemma worst_step_best:
  assumes "best_of xs b"
  shows "best_of (xs @ [s]) (worst_step s b)"
proof (cases "rank_index s = - 1")
  case True
  then have "s \<notin> JStr ` set RANK" using rank_index_cases [of s] by auto
  moreover from this have "JStr (RANK ! j) \<noteq> s" if "j < length RANK" for j using that by auto
  ultimately show ?thesis using assms True by (auto simp: best_of_def worst_step_def)
next
  case False
  then obtain i where i: "i < length RANK" "rank_index s = int i" "s = JStr (RANK ! i)"
    using rank_index_cases [of s] by auto
  have inj: "JStr (RANK ! j) \<noteq> s" if "j < i" for j
    using rank_index_RANK [of j] that i by auto
  from assms show ?thesis
  proof (cases rule: best_of_cases)
    case 1
    then have "best_of (xs @ [s]) (int i)" using i inj by (intro best_ofI) auto
    with 1 i show ?thesis by (simp add: worst_step_def)
  next
    case (2 k)
    show ?thesis
    proof (cases "i < k")
      case True
      then have "best_of (xs @ [s]) (int i)" using i inj 2 by (intro best_ofI) auto
      with 2 i True show ?thesis by (simp add: worst_step_def)
    next
      case False
      then have "best_of (xs @ [s]) (int k)" using i inj 2 by (intro best_ofI) auto
      with 2 i False show ?thesis by (simp add: worst_step_def)
    qed
  qed
qed

lemma fold_worst: "best_of xs (fold worst_step xs (- 1))"
proof (induction xs rule: rev_induct)
  case Nil
  then show ?case by (simp add: best_of_def)
next
  case (snoc s xs)
  from worst_step_best [OF snoc, of s] show ?case by simp
qed

lemma worst_none: "worst xs = [] \<longleftrightarrow> set xs \<inter> JStr ` set RANK = {}"
proof -
  have "list_all (\<lambda>i. RANK ! i \<noteq> []) [0..<length RANK]" by code_simp
  then have "i < length RANK \<Longrightarrow> RANK ! i \<noteq> []" for i by (rule below_all)
  with fold_worst [of xs] show ?thesis by (auto simp: best_of_def worst_def Let_def)
qed

lemma worst_some:
  assumes "worst xs \<noteq> []"
  shows "\<exists>i < length RANK. worst xs = RANK ! i \<and> JStr (RANK ! i) \<in> set xs
    \<and> (\<forall>j < i. JStr (RANK ! j) \<notin> set xs)"
proof -
  obtain i where i: "i < length RANK" "fold worst_step xs (- 1) = int i" "JStr (RANK ! i) \<in> set xs"
    "\<forall>j < length RANK. JStr (RANK ! j) \<in> set xs \<longrightarrow> i \<le> j"
    using fold_worst [of xs] assms by (auto simp: best_of_def worst_def Let_def)
  then have "\<forall>j < i. JStr (RANK ! j) \<notin> set xs" by (meson leD less_trans)
  with i show ?thesis by (auto simp: worst_def Let_def)
qed

lemma worst_set: "set xs = set ys \<Longrightarrow> worst xs = worst ys"
proof -
  assume eq: "set xs = set ys"
  show ?thesis
  proof (cases "worst xs = []")
    case True
    with eq have "worst ys = []" by (simp only: worst_none)
    with True show ?thesis by simp
  next
    case False
    with eq have "worst ys \<noteq> []" by (simp add: worst_none)
    from worst_some [OF False] worst_some [OF this] eq show ?thesis by (metis linorder_neqE_nat)
  qed
qed

section \<open>MonApi\<close>

text \<open>What \<open>axios\<close> answers, and the envelope \<open>_request\<close> makes of it. It never throws. A response that is
  \<open>undefined\<close>, which the interceptor returns after a reload, has no \<open>data\<close> to read.\<close>

datatype answer = Resolved jsval | Rejected jsval

definition failure :: "jsval \<Rightarrow> jsval" where
  "failure msg = JObj [(''success'', JBool False), (''msg'', msg)]"

definition error_message :: "jsval \<Rightarrow> jsval" where
  "error_message e =
     (let body = (if truthy (mget e ''response'') then mget (mget e ''response'') ''data'' else mget e ''response'');
          told = (if truthy body then js_or (mget body ''msg'') (mget body ''message'') else body)
      in js_or told (js_or (mget e ''message'') (JStr ''request failed'')))"

definition mon_request :: "answer \<Rightarrow> jsval" where
  "mon_request a =
     (case a of
        Resolved resp \<Rightarrow>
          (case members resp of
             Some r \<Rightarrow> js_or (r ''data'') (failure (JStr []))
           | None \<Rightarrow> failure (error_message
               (JObj [(''message'', JStr ''Cannot read properties of undefined (reading data)'')])))
      | Rejected e \<Rightarrow> failure (error_message e))"

section \<open>The Health column\<close>

record mon_page =
  monHealth :: props
  monStale :: bool
  monLoaded :: bool
  monPollTimer :: "nat option"
  enableFilter :: bool
  filterBy :: jsval
  filtered :: nat
  hidden :: bool
  loads :: nat
  intervals :: "nat list"
  next_interval :: nat

definition mon_page_new :: mon_page where
  "mon_page_new = \<lparr>monHealth = [], monStale = False, monLoaded = False, monPollTimer = None,
     enableFilter = False, filterBy = JUndef, filtered = 0, hidden = False, loads = 0, intervals = [],
     next_interval = 1\<rparr>"

definition monKey :: "jsval \<Rightarrow> string" where
  "monKey dbInbound =
     (if \<not> truthy dbInbound then []
      else if mget dbInbound ''protocol'' = JStr ''amneziawg'' then ''awg:0''
      else ''xray:'' @ js_str (mget dbInbound ''id''))"

text \<open>The rows of an answer, by key. A row that is \<open>null\<close> throws.\<close>

fun health_of :: "props \<Rightarrow> jsval list \<Rightarrow> props option" where
  "health_of health [] = Some health"
| "health_of health (ib # ibs) =
     (case members ib of
        None \<Rightarrow> None
      | Some p \<Rightarrow> health_of (obj_put health (js_str (p ''kind'') @ '':'' @ js_str (p ''inboundId''))
          (JObj [(''worst'', p ''worst''), (''targets'', js_or (p ''targets'') (JArr []))])) ibs)"

definition loadMonHealth :: "answer \<Rightarrow> mon_page \<Rightarrow> mon_page option" where
  "loadMonHealth a this = do {
     let msg = mon_request a;
     let obj = mget msg ''obj'';
     (if \<not> truthy (mget msg ''success'') \<or> \<not> truthy obj then Some (this\<lparr>monLoaded := False\<rparr>)
      else do {
        ibs \<leftarrow> as_array (js_or (mget obj ''inbounds'') (JArr []));
        health \<leftarrow> health_of [] ibs;
        let this = this\<lparr>monHealth := health, monStale := truthy (mget obj ''stale''), monLoaded := True\<rparr>;
        Some (if enableFilter this \<and> filterBy this = JStr ''down'' then this\<lparr>filtered := filtered this + 1\<rparr> else this) }) }"

definition monEntry :: "mon_page \<Rightarrow> jsval \<Rightarrow> jsval" where
  "monEntry this dbInbound = js_or (oget (monHealth this) (monKey dbInbound)) JNull"

definition monHealthState :: "mon_page \<Rightarrow> jsval \<Rightarrow> jsval" where
  "monHealthState this dbInbound =
     (if \<not> monLoaded this then JStr []
      else (let entry = monEntry this dbInbound in if truthy entry then mget entry ''worst'' else JStr []))"

definition monHealthClass :: "mon_page \<Rightarrow> jsval \<Rightarrow> string" where
  "monHealthClass this dbInbound =
     (let state = monHealthState this dbInbound in
      if \<not> truthy state then ''mon-state mon-state-none'' else ''mon-state '' @ stateClass state (monStale this))"

definition monHealthTooltip :: "mon_page \<Rightarrow> jsval \<Rightarrow> string list option" where
  "monHealthTooltip this dbInbound =
     (let entry = monEntry this dbInbound in
      if \<not> truthy entry then Some []
      else do {
        targets \<leftarrow> as_array (mget entry ''targets'');
        ps \<leftarrow> traverse members targets;
        Some (map (\<lambda>p. js_str (p ''monClientName'') @ '' via '' @ js_str (p ''path'') @ '': '' @ js_str (p ''state''))
          (filter (\<lambda>p. p ''state'' \<noteq> JStr ''UP'') ps)) })"

definition monIsDown :: "mon_page \<Rightarrow> jsval \<Rightarrow> bool" where
  "monIsDown this dbInbound =
     (let state = monHealthState this dbInbound in state = JStr ''DOWN'' \<or> state = JStr ''FLAPPING'')"

text \<open>A tick sends one request unless the page is hidden.\<close>

definition tick :: "mon_page \<Rightarrow> mon_page" where
  "tick this = (if hidden this then this else this\<lparr>loads := loads this + 1\<rparr>)"

definition stopMonHealthPoll :: "mon_page \<Rightarrow> mon_page" where
  "stopMonHealthPoll this =
     (case monPollTimer this of
        None \<Rightarrow> this
      | Some t \<Rightarrow> this\<lparr>intervals := filter (\<lambda>i. i \<noteq> t) (intervals this), monPollTimer := None\<rparr>)"

definition startMonHealthPoll :: "mon_page \<Rightarrow> mon_page" where
  "startMonHealthPoll this =
     (let this = tick (stopMonHealthPoll this); t = next_interval this
      in this\<lparr>intervals := t # intervals this, next_interval := t + 1, monPollTimer := Some t\<rparr>)"

definition mon_mounted :: "mon_page \<Rightarrow> mon_page" where
  "mon_mounted this = startMonHealthPoll this"

definition mon_beforeDestroy :: "mon_page \<Rightarrow> mon_page" where
  "mon_beforeDestroy this = stopMonHealthPoll this"

inductive mon_step :: "mon_page \<Rightarrow> mon_page \<Rightarrow> bool" where
  start: "mon_step p (startMonHealthPoll p)"
| stop: "mon_step p (stopMonHealthPoll p)"
| fire: "t \<in> set (intervals p) \<Longrightarrow> mon_step p (tick p)"
| answer: "loadMonHealth a p = Some q \<Longrightarrow> mon_step p q"
| visibility: "mon_step p (p\<lparr>hidden := b\<rparr>)"
| choose: "mon_step p (p\<lparr>enableFilter := b, filterBy := v\<rparr>)"

inductive mon_reachable :: "mon_page \<Rightarrow> bool" where
  init: "mon_reachable mon_page_new"
| step: "\<lbrakk>mon_reachable p; mon_step p q\<rbrakk> \<Longrightarrow> mon_reachable q"

inductive_cases mon_stepE: "mon_step p q"

definition poll_ok :: "mon_page \<Rightarrow> bool" where
  "poll_ok p \<longleftrightarrow> intervals p = (case monPollTimer p of None \<Rightarrow> [] | Some t \<Rightarrow> [t])"

definition quiet :: "mon_page \<Rightarrow> nat option \<times> nat list" where
  "quiet p = (monPollTimer p, intervals p)"

lemma load_quiet: "loadMonHealth a p = Some q \<Longrightarrow> quiet q = quiet p"
  by (auto simp: loadMonHealth_def quiet_def Let_def bind_eq_Some_conv split: if_splits)

lemma poll_ok_quiet: "quiet q = quiet p \<Longrightarrow> poll_ok q \<longleftrightarrow> poll_ok p"
  by (simp add: poll_ok_def quiet_def)

lemma stop_poll: "poll_ok p \<Longrightarrow> monPollTimer (stopMonHealthPoll p) = None \<and> intervals (stopMonHealthPoll p) = []"
  by (simp add: poll_ok_def stopMonHealthPoll_def split: option.splits)

lemma tick_quiet: "quiet (tick p) = quiet p"
  by (simp add: tick_def quiet_def)

lemma start_poll: "poll_ok p \<Longrightarrow> poll_ok (startMonHealthPoll p)"
  using stop_poll [of p] tick_quiet [of "stopMonHealthPoll p"]
  by (simp add: startMonHealthPoll_def poll_ok_def quiet_def Let_def)

lemma mon_step_poll: "mon_step p q \<Longrightarrow> poll_ok p \<Longrightarrow> poll_ok q"
proof (induction rule: mon_step.induct)
  case (start p)
  then show ?case by (rule start_poll)
next
  case (stop p)
  with stop_poll [of p] show ?case by (simp add: poll_ok_def)
next
  case (fire t p)
  then show ?case by (simp add: poll_ok_quiet [OF tick_quiet])
next
  case (answer a p q)
  then show ?case by (simp add: poll_ok_quiet [OF load_quiet])
qed (simp_all add: poll_ok_def)

lemma reachable_poll: "mon_reachable p \<Longrightarrow> poll_ok p"
  by (induction rule: mon_reachable.induct) (simp add: poll_ok_def mon_page_new_def, rule mon_step_poll)

lemma failed_load:
  assumes "loadMonHealth a p = Some q" "\<not> truthy (mget (mon_request a) ''success'')"
  shows "monHealthClass q ib = ''mon-state mon-state-none'' \<and> \<not> monIsDown q ib"
  using assms by (auto simp: loadMonHealth_def Let_def monHealthClass_def monIsDown_def monHealthState_def)

lemma rejected_fails: "mget (mon_request (Rejected e)) ''success'' = JBool False"
  by (simp add: mon_request_def failure_def)

text \<open>The row of the table sees what the answer said of it.\<close>

lemma health_of_other:
  "health_of health ibs = Some h \<Longrightarrow> (\<forall>ib \<in> set ibs. js_str (mget ib ''kind'') @ '':'' @ js_str (mget ib ''inboundId'') \<noteq> k)
   \<Longrightarrow> oget h k = oget health k"
  by (induction ibs arbitrary: health) (auto simp: oget_obj_put mget_def split: option.splits)

lemma health_of_last:
  assumes "health_of health (xs @ ib # ys) = Some h" "ib = JObj ps"
    and k: "k = js_str (oget ps ''kind'') @ '':'' @ js_str (oget ps ''inboundId'')"
    and later: "\<forall>b \<in> set ys. js_str (mget b ''kind'') @ '':'' @ js_str (mget b ''inboundId'') \<noteq> k"
  shows "oget h k = JObj [(''worst'', oget ps ''worst''), (''targets'', js_or (oget ps ''targets'') (JArr []))]"
  using assms(1)
proof (induction xs arbitrary: health)
  case Nil
  then have "health_of (obj_put health k (JObj [(''worst'', oget ps ''worst''),
      (''targets'', js_or (oget ps ''targets'') (JArr []))])) ys = Some h"
    using assms(2) k by simp
  from health_of_other [OF this later] show ?case by (simp add: oget_obj_put)
next
  case (Cons x xs)
  then show ?case by (auto split: option.splits)
qed

end
