(* ===== verification/Chain_Registry.thy ===== *)
theory Chain_Registry
  imports Text_Codec
begin

text \<open>
  The chain registry as the pages read it (\<open>web/assets/js/model/chain.js\<close>): the requests of
  \<open>ChainApi\<close> and the derivations of \<open>ChainUtil\<close>. A request is the method of \<open>HttpUtil\<close> it is sent
  with, its address and its body.
\<close>

section \<open>ChainApi\<close>

datatype request = Get string | PostJson string jsval

definition chain_base :: string where
  "chain_base = ''/panel/api/chain/''"

definition encoded :: "jsval \<Rightarrow> string" where
  "encoded v = encodeURIComponent (js_str v)"

definition chain_list :: request where
  "chain_list = Get (chain_base @ ''list'')"

definition chain_health :: request where
  "chain_health = Get (chain_base @ ''hops/health'')"

definition chain_ports :: request where
  "chain_ports = Get (chain_base @ ''ports'')"

definition chain_add :: "jsval \<Rightarrow> request" where
  "chain_add hop = PostJson (chain_base @ ''add'') hop"

definition chain_update :: "jsval \<Rightarrow> jsval \<Rightarrow> request" where
  "chain_update i patch = PostJson (chain_base @ ''update/'' @ encoded i) patch"

definition chain_del :: "jsval \<Rightarrow> jsval \<Rightarrow> jsval \<Rightarrow> request" where
  "chain_del i force skipDrain = PostJson (chain_base @ ''del/'' @ encoded i)
     (JObj [(''force'', JBool (truthy force)), (''skipDrain'', JBool (truthy skipDrain))])"

definition chain_setActive :: "jsval \<Rightarrow> request" where
  "chain_setActive i = PostJson (chain_base @ ''setActive/'' @ encoded i) emptyObj"

definition chain_clearActive :: request where
  "chain_clearActive = PostJson (chain_base @ ''clearActive'') emptyObj"

definition chain_reissueToken :: "jsval \<Rightarrow> request" where
  "chain_reissueToken i = PostJson (chain_base @ ''reissueToken/'' @ encoded i) emptyObj"

text \<open>The address of a request on one hop: the name of the action and the identifier, which comes
  back from the last segment whatever characters it has.\<close>

fun request_url :: "request \<Rightarrow> string" where
  "request_url (Get url) = url"
| "request_url (PostJson url body) = url"

lemma encoded_no_slash: "CHR ''/'' \<notin> set (encoded v)"
  using encode_component_delimiters [of "js_str v"] by (auto simp: encoded_def)

lemma hop_segments:
  assumes "CHR ''/'' \<notin> set action"
  shows "js_split (CHR ''/'') (chain_base @ action @ ''/'' @ encoded i)
    = [[], ''panel'', ''api'', ''chain'', action, encoded i]"
  using js_split_append [OF assms, of "encoded i"] js_split_no_sep [OF encoded_no_slash [of i]]
  by (simp add: chain_base_def)

lemma hop_id: "decodeURIComponent (encoded i) = Some (js_str i)"
  by (simp add: encoded_def decode_encode_component)

section \<open>ChainUtil\<close>

text \<open>The colour is looked up in an object, so for a name every object inherits the result is a
  function and no colour.\<close>

definition stateColor :: "jsval \<Rightarrow> string option" where
  "stateColor state =
     (let k = js_str state in
      if k \<in> set prototype_names then None
      else Some (if k = ''pending'' then ''orange'' else if k = ''joined'' then ''green''
        else if k = ''draining'' then ''red'' else ''default''))"

definition healthClass :: "jsval \<Rightarrow> string" where
  "healthClass health = ''mon-state mon-state-'' @ js_lower (js_str (js_or health (JStr ''NONE'')))"

definition tokenText :: "jsval \<Rightarrow> jsval" where
  "tokenText token = js_or token (JStr [])"

definition hop_state_is :: "string \<Rightarrow> jsval \<Rightarrow> bool" where
  "hop_state_is s hop \<longleftrightarrow> truthy hop \<and> mget hop ''state'' = JStr s"

definition hasToken :: "jsval \<Rightarrow> bool" where "hasToken = hop_state_is ''pending''"
definition isDraining :: "jsval \<Rightarrow> bool" where "isDraining = hop_state_is ''draining''"
definition isLegacy :: "jsval \<Rightarrow> bool" where "isLegacy = hop_state_is ''legacy''"

text \<open>\<open>s.lastIndexOf(c)\<close>, and \<open>s.replace(/^\\[|\\]$/g, '')\<close>.\<close>

fun last_index :: "char \<Rightarrow> string \<Rightarrow> nat option" where
  "last_index c [] = None"
| "last_index c (x # xs) =
     (case last_index c xs of Some i \<Rightarrow> Some (Suc i) | None \<Rightarrow> if x = c then Some 0 else None)"

definition strip_brackets :: "string \<Rightarrow> string" where
  "strip_brackets s =
     (let s = (case s of c # cs \<Rightarrow> if c = CHR ''['' then cs else s | [] \<Rightarrow> [])
      in if s \<noteq> [] \<and> last s = CHR '']'' then butlast s else s)"

definition neighbourServerName :: "jsval \<Rightarrow> jsval option" where
  "neighbourServerName hop =
     (if \<not> truthy hop \<or> \<not> truthy (mget hop ''realityTarget'') then Some (JStr [])
      else if truthy (mget hop ''realityServerName'') then Some (mget hop ''realityServerName'')
      else (case mget hop ''realityTarget'' of
          JStr target \<Rightarrow>
            Some (JStr (strip_brackets (case last_index (CHR '':'') target of
                Some (Suc n) \<Rightarrow> take (Suc n) target | _ \<Rightarrow> target)))
        | _ \<Rightarrow> None))"

definition isCurrent :: "jsval \<Rightarrow> jsval \<Rightarrow> bool" where
  "isCurrent hop revision \<longleftrightarrow> truthy hop
     \<and> (case (js_number (js_or (mget hop ''lastRevision'') (JNum 0)), js_number (js_or revision (JNum 0))) of
          (Some a, Some b) \<Rightarrow> b \<le> a | _ \<Rightarrow> False)"

lemma last_index_none: "c \<notin> set t \<Longrightarrow> last_index c t = None"
  by (induction t) auto

lemma last_index_append: "c \<notin> set t \<Longrightarrow> last_index c (s @ c # t) = Some (length s)"
  by (induction s) (auto simp: last_index_none)

lemma neighbour_host:
  assumes "h \<noteq> []" "CHR '':'' \<notin> set port" "truthy hop" "mget hop ''realityTarget'' = JStr (h @ '':'' @ port)"
    and "\<not> truthy (mget hop ''realityServerName'')"
  shows "neighbourServerName hop = Some (JStr (strip_brackets h))"
  using assms last_index_append [OF assms(2), of h]
  by (cases h) (simp_all add: neighbourServerName_def)

lemma strip_bracketed: "strip_brackets (''['' @ h @ '']'') = h"
  by (simp add: strip_brackets_def butlast_append)

lemma strip_plain: "CHR ''['' \<notin> set h \<Longrightarrow> CHR '']'' \<notin> set h \<Longrightarrow> strip_brackets h = h"
  by (cases h) (auto simp: strip_brackets_def Let_def split: if_splits dest: last_in_set)

lemma isCurrent_trans:
  "\<lbrakk>isCurrent hop (JNum r); s \<le> r\<rbrakk> \<Longrightarrow> isCurrent hop (JNum s)"
proof -
  have "js_number (js_or (JNum n) (JNum 0)) = Some n" for n by (simp add: js_or_def)
  then show "\<lbrakk>isCurrent hop (JNum r); s \<le> r\<rbrakk> \<Longrightarrow> ?thesis"
    by (auto simp: isCurrent_def split: option.splits)
qed

end
