(* ===== verification/Tunnel.thy ===== *)
theory Tunnel
  imports Js_Prelude
begin

text \<open>
  The tunnel models (\<open>web/assets/js/model/tunnel.js\<close>): the servers and clients of the AmneziaWG and
  native WireGuard pages. Each constructor copies an answer of the panel member by member, with a
  default where the member is falsy (\<open>||\<close>) or missing (\<open>!== undefined\<close>). A server has obfuscation
  members or not, depending on its kind, so an object is its list of properties here.
\<close>

record kind_defaults =
  kd_interfaceName :: string
  kd_listenPort :: int
  kd_ipv4Address :: string
  kd_ipv4Pool :: string
  kd_xrayInboundTag :: string
  kd_xrayTproxyPort :: int
  kd_obfuscation :: bool

definition awg_defaults :: kind_defaults where
  "awg_defaults = \<lparr>kd_interfaceName = ''awg0'', kd_listenPort = 51820, kd_ipv4Address = ''10.66.66.1/24'',
     kd_ipv4Pool = ''10.66.66.0/24'', kd_xrayInboundTag = ''awg-tproxy-in'', kd_xrayTproxyPort = 12345,
     kd_obfuscation = True\<rparr>"

definition wg_defaults :: kind_defaults where
  "wg_defaults = \<lparr>kd_interfaceName = ''wg0'', kd_listenPort = 51821, kd_ipv4Address = ''10.77.77.1/24'',
     kd_ipv4Pool = ''10.77.77.0/24'', kd_xrayInboundTag = ''wg-tproxy-in'', kd_xrayTproxyPort = 12346,
     kd_obfuscation = False\<rparr>"

text \<open>The kind is \<open>awg\<close> or \<open>wg\<close> everywhere; another name has the defaults of AmneziaWG.\<close>

definition TUNNEL_KIND_DEFAULTS :: "string \<Rightarrow> kind_defaults" where
  "TUNNEL_KIND_DEFAULTS kind = (if kind = ''wg'' then wg_defaults else awg_defaults)"

text \<open>How one member is taken: \<open>d || x\<close>, \<open>d !== undefined ? d : x\<close>, and the latter through
  \<open>String\<close>.\<close>

datatype rule = Or jsval | Unless_Undefined jsval | Text_Unless_Undefined string

fun take_member :: "rule \<Rightarrow> jsval \<Rightarrow> jsval" where
  "take_member (Or x) d = js_or d x"
| "take_member (Unless_Undefined x) d = (if d \<noteq> JUndef then d else x)"
| "take_member (Text_Unless_Undefined x) d = JStr (if d \<noteq> JUndef then js_str d else x)"

type_synonym shape = "(string \<times> rule) list"

definition build :: "shape \<Rightarrow> props \<Rightarrow> props" where
  "build shape data = map (\<lambda>(k, r). (k, take_member r (oget data k))) shape"

definition obfuscation_shape :: shape where
  "obfuscation_shape =
     [(''jc'', Unless_Undefined (JNum 4)), (''jmin'', Unless_Undefined (JNum 50)),
      (''jmax'', Unless_Undefined (JNum 1000)), (''s1'', Unless_Undefined (JNum 0)),
      (''s2'', Unless_Undefined (JNum 0)), (''s3'', Unless_Undefined (JNum 0)), (''s4'', Unless_Undefined (JNum 0)),
      (''h1'', Text_Unless_Undefined ''1''), (''h2'', Text_Unless_Undefined ''2''),
      (''h3'', Text_Unless_Undefined ''3''), (''h4'', Text_Unless_Undefined ''4''),
      (''i1'', Unless_Undefined (JStr [])), (''i2'', Unless_Undefined (JStr [])), (''i3'', Unless_Undefined (JStr [])),
      (''i4'', Unless_Undefined (JStr [])), (''i5'', Unless_Undefined (JStr [])),
      (''headerProtectionKey'', Or (JStr [])), (''contentPaddingAddition'', Or (JStr [])),
      (''rekeyAfterTime'', Or (JStr [])), (''rekeyTimeout'', Or (JStr [])), (''rejectAfterTime'', Or (JStr [])),
      (''keepaliveTimeout'', Or (JStr [])), (''maxHandshakeAttempts'', Or (JStr [])),
      (''randomTrailers'', Or (JBool False)), (''disableCookies'', Or (JBool False))]"

definition server_shape :: "string \<Rightarrow> shape" where
  "server_shape kind =
     (let d = TUNNEL_KIND_DEFAULTS kind in
      [(''kind'', Or (JStr kind)), (''id'', Or (JNum 0)), (''enable'', Or (JBool False)),
       (''interfaceName'', Or (JStr (kd_interfaceName d))), (''listenPort'', Or (JNum (kd_listenPort d))),
       (''mtu'', Or (JNum 1420)), (''privateKey'', Or (JStr [])), (''publicKey'', Or (JStr [])),
       (''ipv4Address'', Or (JStr (kd_ipv4Address d))), (''ipv4Pool'', Or (JStr (kd_ipv4Pool d))),
       (''ipv6Enabled'', Or (JBool False)), (''ipv6Address'', Or (JStr [])), (''ipv6Pool'', Or (JStr [])),
       (''ipv6Gateway'', Or (JStr []))]
      @ (if kd_obfuscation d then obfuscation_shape else [])
      @ [(''dnsIpv4'', Or (JStr ''1.1.1.1'')), (''dnsIpv6'', Or (JStr ''2606:4700:4700::1111'')),
       (''externalInterface'', Or (JStr [])), (''ipv6ExternalInterface'', Or JUndef), (''postUp'', Or (JStr [])),
       (''postDown'', Or (JStr [])), (''endpoint'', Or (JStr [])), (''trafficReset'', Or (JStr ''never'')),
       (''routeViaXray'', Or (JBool False)), (''xrayInboundTag'', Or (JStr (kd_xrayInboundTag d))),
       (''xrayTproxyPort'', Or (JNum (kd_xrayTproxyPort d)))])"

definition TunnelServer :: "string \<Rightarrow> props \<Rightarrow> props" where
  "TunnelServer kind data = build (server_shape kind) data"

definition client_shape :: shape where
  "client_shape =
     [(''id'', Or (JNum 0)), (''serverId'', Or (JNum 0)), (''name'', Or (JStr [])), (''email'', Or (JStr [])),
      (''enable'', Unless_Undefined (JBool True)), (''comment'', Or (JStr [])), (''privateKey'', Or (JStr [])),
      (''publicKey'', Or (JStr [])), (''presharedKey'', Or (JStr [])), (''ipv4Address'', Or (JStr [])),
      (''ipv6Address'', Or (JStr [])), (''allowedIPs'', Or (JStr [])),
      (''clientAllowedIPs'', Or (JStr ''0.0.0.0/0, ::/0'')), (''forwardedPorts'', Or (JStr [])),
      (''persistentKeepalive'', Unless_Undefined (JNum 25)), (''upload'', Or (JNum 0)), (''download'', Or (JNum 0)),
      (''totalGB'', Or (JNum 0)), (''allTime'', Or (JNum 0)), (''expiryTime'', Or (JNum 0)), (''reset'', Or (JNum 0)),
      (''limitIp'', Or (JNum 0)), (''tgId'', Or (JNum 0)), (''lastOnline'', Or (JNum 0)), (''lastIp'', Or (JStr [])),
      (''createdAt'', Or (JNum 0)), (''updatedAt'', Or (JNum 0))]"

definition TunnelClient :: "props \<Rightarrow> props" where
  "TunnelClient data = build client_shape data"

definition AwgServer :: "props \<Rightarrow> props" where "AwgServer = TunnelServer ''awg''"
definition WgServer :: "props \<Rightarrow> props" where "WgServer = TunnelServer ''wg''"

section \<open>Reading what was written\<close>

lemma take_member_idem: "take_member r (take_member r d) = take_member r d"
  by (cases r) (auto simp: js_or_def)

lemma build_keys: "map fst (build shape data) = map fst shape"
  by (simp add: build_def comp_def case_prod_unfold)

lemma build_member:
  "distinct (map fst shape) \<Longrightarrow> (k, r) \<in> set shape \<Longrightarrow> oget (build shape data) k = take_member r (oget data k)"
  by (induction shape) (force simp: build_def)+

lemma build_again:
  assumes "distinct (map fst shape)"
    and "\<And>k r. (k, r) \<in> set shape \<Longrightarrow> oget data' k = oget (build shape data) k"
  shows "build shape data' = build shape data"
  using build_member [OF assms(1)] assms(2)
  by (auto simp: build_def take_member_idem)

lemma shapes_distinct: "distinct (map fst client_shape)" "distinct (map fst (server_shape kind))"
proof -
  show "distinct (map fst client_shape)" by code_simp
  have "distinct (map fst (server_shape ''awg''))" "distinct (map fst (server_shape ''wg''))" by code_simp+
  moreover have "map fst (server_shape kind) = map fst (server_shape (if kind = ''wg'' then ''wg'' else ''awg''))"
    by (simp add: server_shape_def TUNNEL_KIND_DEFAULTS_def Let_def)
  ultimately show "distinct (map fst (server_shape kind))" by (simp split: if_splits)
qed

text \<open>Reading the object again gives the object.\<close>

lemma server_again: "TunnelServer kind (TunnelServer kind data) = TunnelServer kind data"
  unfolding TunnelServer_def by (rule build_again [OF shapes_distinct(2)]) simp

lemma client_again: "TunnelClient (TunnelClient data) = TunnelClient data"
  unfolding TunnelClient_def by (rule build_again [OF shapes_distinct(1)]) simp

text \<open>The defaults are values JSON can hold, or \<open>undefined\<close>, so members of a JSON answer stay such.\<close>

fun rule_default :: "rule \<Rightarrow> jsval" where
  "rule_default (Or x) = x"
| "rule_default (Unless_Undefined x) = x"
| "rule_default (Text_Unless_Undefined x) = JStr x"

lemma take_member_clean: "\<lbrakk>clean (rule_default r); clean d\<rbrakk> \<Longrightarrow> clean (take_member r d)"
  by (cases r) (auto simp: js_or_def)

lemma build_saved:
  assumes "distinct (map fst shape)" "\<forall>(k, r) \<in> set shape. clean (rule_default r)" "json_ok (JObj data)"
  shows "build shape (wire_props (build shape data)) = build shape data"
proof (rule build_again [OF assms(1)])
  fix k r
  assume kr: "(k, r) \<in> set shape"
  then have "clean (oget (build shape data) k)"
    using assms by (auto simp: build_member intro!: take_member_clean clean_oget)
  moreover have "distinct (map fst (build shape data))" by (simp add: build_keys assms(1))
  ultimately show "oget (wire_props (build shape data)) k = oget (build shape data) k"
    by (simp add: oget_wire_props wire_clean)
qed

lemma server_saved:
  assumes "json_ok (JObj data)"
  shows "TunnelServer kind (wire_props (TunnelServer kind data)) = TunnelServer kind data"
proof -
  have "list_all (\<lambda>(k, r). clean (rule_default r)) (server_shape kind)"
    by (simp add: server_shape_def obfuscation_shape_def Let_def)
  then show ?thesis unfolding TunnelServer_def
    using assms by (intro build_saved [OF shapes_distinct(2)]) (auto simp: list_all_iff)
qed

lemma client_saved:
  assumes "json_ok (JObj data)"
  shows "TunnelClient (wire_props (TunnelClient data)) = TunnelClient data"
proof -
  have "list_all (\<lambda>(k, r). clean (rule_default r)) client_shape"
    by (simp add: client_shape_def)
  then show ?thesis unfolding TunnelClient_def
    using assms by (intro build_saved [OF shapes_distinct(1)]) (auto simp: list_all_iff)
qed

section \<open>Member by member\<close>

text \<open>The objects of an empty answer.\<close>

definition awg_new_server :: props where
  "awg_new_server =
     [(''kind'', JStr ''awg''), (''id'', JNum 0), (''enable'', JBool False), (''interfaceName'', JStr ''awg0''),
      (''listenPort'', JNum 51820), (''mtu'', JNum 1420), (''privateKey'', JStr []), (''publicKey'', JStr []),
      (''ipv4Address'', JStr ''10.66.66.1/24''), (''ipv4Pool'', JStr ''10.66.66.0/24''), (''ipv6Enabled'', JBool False),
      (''ipv6Address'', JStr []), (''ipv6Pool'', JStr []), (''ipv6Gateway'', JStr []),
      (''jc'', JNum 4), (''jmin'', JNum 50), (''jmax'', JNum 1000), (''s1'', JNum 0), (''s2'', JNum 0), (''s3'', JNum 0),
      (''s4'', JNum 0), (''h1'', JStr ''1''), (''h2'', JStr ''2''), (''h3'', JStr ''3''), (''h4'', JStr ''4''),
      (''i1'', JStr []), (''i2'', JStr []), (''i3'', JStr []), (''i4'', JStr []), (''i5'', JStr []),
      (''headerProtectionKey'', JStr []), (''contentPaddingAddition'', JStr []), (''rekeyAfterTime'', JStr []),
      (''rekeyTimeout'', JStr []), (''rejectAfterTime'', JStr []), (''keepaliveTimeout'', JStr []),
      (''maxHandshakeAttempts'', JStr []), (''randomTrailers'', JBool False), (''disableCookies'', JBool False),
      (''dnsIpv4'', JStr ''1.1.1.1''), (''dnsIpv6'', JStr ''2606:4700:4700::1111''), (''externalInterface'', JStr []),
      (''ipv6ExternalInterface'', JUndef), (''postUp'', JStr []), (''postDown'', JStr []), (''endpoint'', JStr []),
      (''trafficReset'', JStr ''never''), (''routeViaXray'', JBool False), (''xrayInboundTag'', JStr ''awg-tproxy-in''),
      (''xrayTproxyPort'', JNum 12345)]"

definition wg_new_server :: props where
  "wg_new_server =
     [(''kind'', JStr ''wg''), (''id'', JNum 0), (''enable'', JBool False), (''interfaceName'', JStr ''wg0''),
      (''listenPort'', JNum 51821), (''mtu'', JNum 1420), (''privateKey'', JStr []), (''publicKey'', JStr []),
      (''ipv4Address'', JStr ''10.77.77.1/24''), (''ipv4Pool'', JStr ''10.77.77.0/24''), (''ipv6Enabled'', JBool False),
      (''ipv6Address'', JStr []), (''ipv6Pool'', JStr []), (''ipv6Gateway'', JStr []),
      (''dnsIpv4'', JStr ''1.1.1.1''), (''dnsIpv6'', JStr ''2606:4700:4700::1111''), (''externalInterface'', JStr []),
      (''ipv6ExternalInterface'', JUndef), (''postUp'', JStr []), (''postDown'', JStr []), (''endpoint'', JStr []),
      (''trafficReset'', JStr ''never''), (''routeViaXray'', JBool False), (''xrayInboundTag'', JStr ''wg-tproxy-in''),
      (''xrayTproxyPort'', JNum 12346)]"

definition new_client :: props where
  "new_client =
     [(''id'', JNum 0), (''serverId'', JNum 0), (''name'', JStr []), (''email'', JStr []), (''enable'', JBool True),
      (''comment'', JStr []), (''privateKey'', JStr []), (''publicKey'', JStr []), (''presharedKey'', JStr []),
      (''ipv4Address'', JStr []), (''ipv6Address'', JStr []), (''allowedIPs'', JStr []),
      (''clientAllowedIPs'', JStr ''0.0.0.0/0, ::/0''), (''forwardedPorts'', JStr []), (''persistentKeepalive'', JNum 25),
      (''upload'', JNum 0), (''download'', JNum 0), (''totalGB'', JNum 0), (''allTime'', JNum 0), (''expiryTime'', JNum 0),
      (''reset'', JNum 0), (''limitIp'', JNum 0), (''tgId'', JNum 0), (''lastOnline'', JNum 0), (''lastIp'', JStr []),
      (''createdAt'', JNum 0), (''updatedAt'', JNum 0)]"

lemma new_objects: "TunnelServer ''awg'' [] = awg_new_server" "TunnelServer ''wg'' [] = wg_new_server"
  "TunnelClient [] = new_client"
  by code_simp+

text \<open>What a member is, given the answer's and the one of an empty answer: the members in \<open>kept\<close> keep every
  value that is there, also 0, the empty text and \<open>false\<close>; those in \<open>texts\<close> keep its text; the others keep
  a truthy value.\<close>

definition member_of :: "string list \<Rightarrow> string list \<Rightarrow> string \<Rightarrow> jsval \<Rightarrow> jsval \<Rightarrow> jsval" where
  "member_of kept texts k d new =
     (if k \<in> set kept then (if d = JUndef then new else d)
      else if k \<in> set texts then (if d = JUndef then new else JStr (js_str d))
      else if truthy d then d else new)"

definition kept_by_server :: "string list" where
  "kept_by_server = [''jc'', ''jmin'', ''jmax'', ''s1'', ''s2'', ''s3'', ''s4'', ''i1'', ''i2'', ''i3'', ''i4'', ''i5'']"

definition texts_of_server :: "string list" where
  "texts_of_server = [''h1'', ''h2'', ''h3'', ''h4'']"

definition kept_by_client :: "string list" where
  "kept_by_client = [''enable'', ''persistentKeepalive'']"

fun rule_kind :: "rule \<Rightarrow> nat" where
  "rule_kind (Or x) = 0"
| "rule_kind (Unless_Undefined x) = 1"
| "rule_kind (Text_Unless_Undefined x) = 2"

definition kinds_ok :: "string list \<Rightarrow> string list \<Rightarrow> shape \<Rightarrow> bool" where
  "kinds_ok kept texts shape \<longleftrightarrow> distinct (map fst shape)
     \<and> list_all (\<lambda>(k, r). rule_kind r = (if k \<in> set kept then 1 else if k \<in> set texts then 2 else 0)) shape"

lemma server_kinds: "kinds_ok kept_by_server texts_of_server (server_shape kind)"
proof -
  have all: "kinds_ok kept_by_server texts_of_server (server_shape ''awg'')"
    "kinds_ok kept_by_server texts_of_server (server_shape ''wg'')" by code_simp+
  let ?k = "if kind = ''wg'' then ''wg'' else ''awg''"
  have "server_shape kind = (''kind'', Or (JStr kind)) # tl (server_shape ?k)"
    "server_shape ?k = (''kind'', Or (JStr ?k)) # tl (server_shape ?k)"
    by (simp_all add: server_shape_def TUNNEL_KIND_DEFAULTS_def Let_def)
  moreover have "kinds_ok kept_by_server texts_of_server (server_shape ?k)" using all by simp
  moreover have "kinds_ok K T ((k, Or x) # xs) = kinds_ok K T ((k, Or y) # xs)" for K T k x y xs
    by (simp add: kinds_ok_def)
  ultimately show ?thesis by metis
qed

lemma client_kinds: "kinds_ok kept_by_client [] client_shape"
  by code_simp

lemma take_member_rule:
  "take_member r d = (if rule_kind r = 1 then (if d = JUndef then take_member r JUndef else d)
     else if rule_kind r = 2 then (if d = JUndef then take_member r JUndef else JStr (js_str d))
     else if truthy d then d else take_member r JUndef)"
  by (cases r) (auto simp: js_or_def)

lemma build_members:
  assumes "kinds_ok kept texts shape" "k \<in> fst ` set (build shape [])"
  shows "oget (build shape data) k = member_of kept texts k (oget data k) (oget (build shape []) k)"
proof -
  from assms(2) obtain r where r: "(k, r) \<in> set shape" by (auto simp: build_def)
  have d: "distinct (map fst shape)" using assms(1) by (simp add: kinds_ok_def)
  have "rule_kind r = (if k \<in> set kept then 1 else if k \<in> set texts then 2 else 0)"
    using assms(1) r by (auto simp: kinds_ok_def list_all_iff)
  then show ?thesis
    using build_member [OF d r, of data] build_member [OF d r, of "[]"] take_member_rule [of r "oget data k"]
    by (simp add: member_of_def)
qed

lemma server_members:
  "k \<in> fst ` set (TunnelServer kind []) \<Longrightarrow> oget (TunnelServer kind data) k
     = member_of kept_by_server texts_of_server k (oget data k) (oget (TunnelServer kind []) k)"
  unfolding TunnelServer_def by (rule build_members [OF server_kinds])

lemma client_members:
  "k \<in> fst ` set (TunnelClient []) \<Longrightarrow> oget (TunnelClient data) k
     = member_of kept_by_client [] k (oget data k) (oget (TunnelClient []) k)"
  unfolding TunnelClient_def by (rule build_members [OF client_kinds])

lemma members_fixed: "map fst (TunnelServer kind data) = map fst (TunnelServer kind [])"
  "map fst (TunnelClient data) = map fst (TunnelClient [])"
  by (simp_all add: TunnelServer_def TunnelClient_def build_keys)

end
