(* ===== verification/All_Setting.thy ===== *)
theory All_Setting
  imports Object_Util
begin

text \<open>
  The form of the panel's settings (\<open>AllSetting\<close> of \<open>web/assets/js/model/setting.js\<close>): the defaults,
  the copy of an answer of the panel over them, and the comparison that decides whether there is
  something to save.
\<close>

definition setting_defaults :: props where
  "setting_defaults =
     [(''webListen'', JStr []), (''webDomain'', JStr []), (''webPort'', JNum 2053),
      (''webCertFile'', JStr []), (''webKeyFile'', JStr []), (''webBasePath'', JStr ''/''),
      (''sessionMaxAge'', JNum 360), (''pageSize'', JNum 25), (''qrCodeSize'', JNum 450),
      (''expireDiff'', JNum 0), (''trafficDiff'', JNum 0), (''remarkModel'', JStr ''-ieo''),
      (''datepicker'', JStr ''gregorian''), (''tgBotEnable'', JBool False), (''tgBotToken'', JStr []),
      (''tgBotProxy'', JStr []), (''tgBotAPIServer'', JStr []), (''tgBotChatId'', JStr []),
      (''tgRunTime'', JStr ''@daily''), (''tgBotBackup'', JBool False), (''tgBotLoginNotify'', JBool True),
      (''tgCpu'', JNum 80), (''tgLang'', JStr ''en-US''), (''twoFactorEnable'', JBool False),
      (''twoFactorToken'', JStr []), (''xrayTemplateConfig'', JStr []), (''subEnable'', JBool True),
      (''subJsonEnable'', JBool False), (''subTitle'', JStr []), (''subSupportUrl'', JStr []),
      (''subProfileUrl'', JStr []), (''subAnnounce'', JStr []), (''subEnableRouting'', JBool True),
      (''subRoutingRules'', JStr []), (''subListen'', JStr []), (''subPort'', JNum 2096),
      (''subPath'', JStr []), (''subJsonPath'', JStr ''/json/''), (''subClashEnable'', JBool True),
      (''subClashPath'', JStr ''/clash/''), (''subDomain'', JStr []),
      (''externalTrafficInformEnable'', JBool False), (''externalTrafficInformURI'', JStr []),
      (''restartXrayOnClientDisable'', JBool True), (''subCertFile'', JStr []), (''subKeyFile'', JStr []),
      (''subUpdates'', JNum 12), (''subEncrypt'', JBool True), (''subShowInfo'', JBool True),
      (''subURI'', JStr []), (''subJsonURI'', JStr []), (''subClashURI'', JStr []),
      (''subJsonFragment'', JStr []), (''subJsonNoises'', JStr []), (''subJsonMux'', JStr []),
      (''subJsonRules'', JStr []), (''timeLocation'', JStr ''Local''), (''ldapEnable'', JBool False),
      (''ldapHost'', JStr []), (''ldapPort'', JNum 389), (''ldapUseTLS'', JBool False),
      (''ldapBindDN'', JStr []), (''ldapPassword'', JStr []), (''ldapBaseDN'', JStr []),
      (''ldapUserFilter'', JStr ''(objectClass=person)''), (''ldapUserAttr'', JStr ''mail''),
      (''ldapVlessField'', JStr ''vless_enabled''), (''ldapSyncCron'', JStr ''@every 1m''),
      (''ldapFlagField'', JStr []), (''ldapTruthyValues'', JStr ''true,1,yes,on''),
      (''ldapInvertFlag'', JBool False), (''ldapInboundTags'', JStr []), (''ldapAutoCreate'', JBool False),
      (''ldapAutoDelete'', JBool False), (''ldapDefaultTotalGB'', JNum 0),
      (''ldapDefaultExpiryDays'', JNum 0), (''ldapDefaultLimitIP'', JNum 0), (''monEnable'', JBool False),
      (''monToken'', JStr []), (''monStaleMinutes'', JNum 15), (''monProbeTtlHours'', JNum 24),
      (''monRetentionDays'', JNum 7), (''monRollupRetentionDays'', JNum 30),
      (''monRollupStepMinutes'', JNum 60), (''monProbePeerLimit'', JNum 32), (''chainPanelHost'', JStr []),
      (''chainExtraPorts'', JStr ''[]''), (''chainPollSeconds'', JNum 30), (''chainStaleMinutes'', JNum 60),
      (''chainJoinTokenHours'', JNum 24), (''chainDrainMinutes'', JNum 10)]"

definition AllSetting :: "jsval \<Rightarrow> props" where
  "AllSetting data = (if nullish data then setting_defaults else cloneProps setting_defaults data [])"

definition AllSetting_equals :: "(jsval \<Rightarrow> jsval \<Rightarrow> bool) \<Rightarrow> props \<Rightarrow> props \<Rightarrow> bool" where
  "AllSetting_equals same this other = equals same this other"

lemma setting_keys: "map fst (AllSetting data) = map fst setting_defaults"
  by (simp add: AllSetting_def keys_cloneProps)

text \<open>A number for every name, to compare them faster.\<close>

definition name_code :: "string \<Rightarrow> int" where
  "name_code s = foldl (\<lambda>n c. 256 * n + of_char c) 0 s"

lemma setting_keys_distinct: "distinct (map fst setting_defaults)"
proof -
  have "distinct (map name_code (map fst setting_defaults))" by code_simp
  then show ?thesis by (simp only: distinct_map)
qed

lemma setting_defaults_primitive: "\<forall>e \<in> set setting_defaults. primitive (snd e)"
proof -
  have "list_all (\<lambda>e. primitive (snd e)) setting_defaults" by code_simp
  then show ?thesis by (simp only: list_all_iff)
qed

lemma setting_member:
  assumes "distinct (map fst data)" "k \<in> fst ` set setting_defaults"
  shows "oget (AllSetting (JObj data)) k = (if oget data k = JUndef then oget setting_defaults k else oget data k)"
  using cloneProps_oget [of data k setting_defaults "[]"] assms by (simp add: AllSetting_def nullish_def)

lemma props_eqI:
  "\<lbrakk>map fst ps = map fst qs; distinct (map fst ps); \<And>k. k \<in> fst ` set ps \<Longrightarrow> oget ps k = oget qs k\<rbrakk> \<Longrightarrow> ps = qs"
proof (induction ps arbitrary: qs)
  case (Cons p ps)
  then obtain a v w rs where e: "p = (a, v)" "qs = (a, w) # rs" by (cases p; cases qs) auto
  from Cons.prems(3) [of a] e have "v = w" by simp
  moreover have "ps = rs"
  proof (rule Cons.IH)
    fix k
    assume "k \<in> fst ` set ps"
    with Cons.prems(2) Cons.prems(3) [of k] e show "oget ps k = oget rs k" by (cases "k = a") auto
  qed (use Cons.prems e in auto)
  ultimately show ?case using e by simp
qed simp

text \<open>The settings read back what was saved, and a form filled with its own content is unchanged.\<close>

lemma setting_defaults_defined: "k \<in> fst ` set setting_defaults \<Longrightarrow> oget setting_defaults k \<noteq> JUndef"
proof -
  have "list_all (\<lambda>e. snd e \<noteq> JUndef) setting_defaults" by code_simp
  then have "\<forall>e \<in> set setting_defaults. snd e \<noteq> JUndef" by (simp only: list_all_iff)
  then show "k \<in> fst ` set setting_defaults \<Longrightarrow> ?thesis" using oget_in by force
qed

lemma setting_defined:
  "\<lbrakk>distinct (map fst data); k \<in> fst ` set setting_defaults\<rbrakk> \<Longrightarrow> oget (AllSetting (JObj data)) k \<noteq> JUndef"
  using setting_defaults_defined by (simp add: setting_member)

lemma setting_again:
  assumes "distinct (map fst data)"
  shows "AllSetting (JObj (AllSetting (JObj data))) = AllSetting (JObj data)"
proof (rule props_eqI)
  have keys: "distinct (map fst (AllSetting (JObj data)))"
    by (simp only: setting_keys setting_keys_distinct)
  show "map fst (AllSetting (JObj (AllSetting (JObj data)))) = map fst (AllSetting (JObj data))"
    by (simp only: setting_keys)
  show "distinct (map fst (AllSetting (JObj (AllSetting (JObj data)))))"
    by (simp only: setting_keys setting_keys_distinct)
  fix k
  assume "k \<in> fst ` set (AllSetting (JObj (AllSetting (JObj data))))"
  then have k: "k \<in> fst ` set setting_defaults" by (metis setting_keys list.set_map)
  show "oget (AllSetting (JObj (AllSetting (JObj data)))) k = oget (AllSetting (JObj data)) k"
    using setting_member [OF keys k] setting_defined [OF assms k] by simp
qed

lemma setting_primitive:
  assumes "\<forall>e \<in> set data. primitive (snd e)" "distinct (map fst data)" "e \<in> set (AllSetting (JObj data))"
  shows "primitive (snd e)"
proof -
  have d: "distinct (map fst (AllSetting (JObj data)))" by (simp only: setting_keys setting_keys_distinct)
  have k: "fst e \<in> fst ` set setting_defaults"
    using assms(3) setting_keys [of "JObj data"] by (metis image_eqI list.set_map)
  have "snd e = oget (AllSetting (JObj data)) (fst e)"
    using map_of_is_SomeI [OF d, of "fst e" "snd e"] assms(3) by (simp add: oget_def)
  also have "primitive \<dots>"
    using setting_member [OF assms(2) k] oget_primitive [OF assms(1)] oget_primitive [OF setting_defaults_primitive]
    by simp
  finally show ?thesis .
qed

text \<open>Two forms are equal to the comparison exactly if they are the same.\<close>

lemma setting_equals_iff:
  assumes "\<forall>e \<in> set data. primitive (snd e)" "distinct (map fst data)" "distinct (map fst data')"
  shows "AllSetting_equals same (AllSetting (JObj data)) (AllSetting (JObj data'))
    \<longleftrightarrow> AllSetting (JObj data) = AllSetting (JObj data')"
proof -
  have d: "distinct (map fst (AllSetting v))" for v by (simp only: setting_keys setting_keys_distinct)
  have p: "\<forall>e \<in> set (AllSetting (JObj data)). primitive (snd e)"
    using setting_primitive [OF assms(1,2)] by blast
  have "AllSetting_equals same (AllSetting (JObj data)) (AllSetting (JObj data'))
      \<longleftrightarrow> map_of (AllSetting (JObj data)) = map_of (AllSetting (JObj data'))"
    unfolding AllSetting_equals_def by (rule equals_primitive [OF d d p])
  also have "\<dots> \<longleftrightarrow> AllSetting (JObj data) = AllSetting (JObj data')"
    using props_eqI [OF _ d, of "JObj data" "AllSetting (JObj data')"] by (auto simp: setting_keys oget_def)
  finally show ?thesis .
qed

end
