(* ===== verification/Outbound_Transports.thy ===== *)
theory Outbound_Transports
  imports Stream_Settings
begin

text \<open>
  The parts of an outbound's stream (\<open>web/assets/js/model/outbound.js\<close>): the transports, the security
  layers, the socket options and the masks of the client side. The names of the classes are those
  of \<open>inbound.js\<close>, and here have the prefix \<open>Out\<close>. \<open>TcpMask\<close>, \<open>QuicParams\<close> and
  \<open>FinalMaskStreamSettings\<close> are the same text in both files; the masks of UDP are not, and
  \<open>mask_object\<close> is interpreted for this file's class too.
\<close>

section \<open>TCP\<close>

text \<open>\<open>v.join(',')\<close>, and \<open>isEmpty(v) ? d : v.split(',')\<close>: both throw where \<open>v\<close> has no such method.\<close>

definition joined :: "jsval \<Rightarrow> jsval option" where
  "joined v = map_option (\<lambda>xs. JStr (arr_join '','' xs)) (as_array v)"

definition split_or :: "string list \<Rightarrow> jsval \<Rightarrow> jsval option" where
  "split_or d v =
     (if isEmpty v then Some (JArr (map JStr d))
      else (case v of JStr s \<Rightarrow> Some (JArr (map JStr (js_split (CHR '','') s))) | _ \<Rightarrow> None))"

record OutTcpStreamSettings =
  ot_type :: jsval
  ot_host :: jsval
  ot_path :: jsval

definition OutTcpStreamSettings_new :: "jsval \<Rightarrow> jsval \<Rightarrow> jsval \<Rightarrow> OutTcpStreamSettings" where
  "OutTcpStreamSettings_new type0 host path =
     \<lparr>ot_type = dflt (JStr ''none'') type0, ot_host = host, ot_path = path\<rparr>"

definition OutTcpStreamSettings_fromJson :: "jsval \<Rightarrow> OutTcpStreamSettings option" where
  "OutTcpStreamSettings_fromJson json0 = do {
     json \<leftarrow> members (dflt emptyObj json0);
     if \<not> truthy (json ''header'') then Some (OutTcpStreamSettings_new JUndef JUndef JUndef)
     else do {
       header \<leftarrow> members (json ''header'');
       if loosely (header ''type'') ''http'' \<and> truthy (header ''request'') then do {
         request \<leftarrow> members (header ''request'');
         headers \<leftarrow> members (request ''headers'');
         host \<leftarrow> joined (headers ''Host'');
         path \<leftarrow> joined (request ''path'');
         Some (OutTcpStreamSettings_new (header ''type'') host path) }
       else Some (OutTcpStreamSettings_new (header ''type'') (JStr []) (JStr [])) } }"

definition OutTcpStreamSettings_toJson :: "OutTcpStreamSettings \<Rightarrow> jsval option" where
  "OutTcpStreamSettings_toJson this = do {
     request \<leftarrow> (if ot_type this = JStr ''http'' then do {
         host \<leftarrow> split_or [] (ot_host this);
         path \<leftarrow> split_or [''/''] (ot_path this);
         Some (JObj [(''headers'', JObj [(''Host'', host)]), (''path'', path)]) }
       else Some JUndef);
     Some (JObj [(''header'', JObj [(''type'', ot_type this), (''request'', request)])]) }"

definition OutTcpStreamSettings_ok :: "OutTcpStreamSettings \<Rightarrow> bool" where
  "OutTcpStreamSettings_ok x \<longleftrightarrow> json_ok (ot_type x)"

lemmas OutTcpStreamSettings_defs = OutTcpStreamSettings_new_def OutTcpStreamSettings_fromJson_def
  OutTcpStreamSettings_toJson_def OutTcpStreamSettings_ok_def

text \<open>What was split is joined to the same text, and an absent text comes back as the default.\<close>

lemma split_or_saved:
  assumes "split_or d v = Some a" "d = [] \<or> d = [''/'']"
  obtains t where "joined (wire a) = Some (JStr t)" "split_or d (JStr t) = Some a" "wire a = a" "a \<noteq> JUndef"
proof (cases "isEmpty v")
  case True
  with assms show thesis by (intro that [of "js_join '','' d"])
    (auto simp: split_or_def isEmpty_def joined_def arr_join_def nullish_def)
next
  case False
  with assms obtain s where s: "v = JStr s" "s \<noteq> []" "a = JArr (map JStr (js_split (CHR '','') s))"
    by (auto simp: split_or_def isEmpty_def split: jsval.splits)
  have "wire_items (map JStr ss) = map JStr ss" for ss by (induction ss) auto
  with s show thesis
    by (intro that [of s]) (simp_all add: split_or_def isEmpty_def joined_def arr_join_strings js_join_split)
qed

interpretation out_tcp: json_optional OutTcpStreamSettings_toJson OutTcpStreamSettings_fromJson
  OutTcpStreamSettings_ok clean
proof unfold_locales
  fix j x
  assume j: "clean j" and "OutTcpStreamSettings_fromJson j = Some x"
  then obtain json where json: "members (dflt emptyObj j) = Some json"
    and x: "ot_type x = JStr ''none'' \<or> (\<exists>header. members (json ''header'') = Some header
      \<and> ot_type x = dflt (JStr ''none'') (header ''type''))"
    by (auto simp: OutTcpStreamSettings_fromJson_def OutTcpStreamSettings_new_def bind_eq_Some_conv split: if_splits)
  have "clean (json ''header'')" by (rule clean_member [OF json j])
  with x show "OutTcpStreamSettings_ok x"
    by (auto simp: OutTcpStreamSettings_ok_def intro!: json_ok_dflt intro: clean_members)
next
  fix x j
  assume ok: "OutTcpStreamSettings_ok x" and j: "OutTcpStreamSettings_toJson x = Some j"
  show "\<exists>y. OutTcpStreamSettings_fromJson (wire j) = Some y \<and> OutTcpStreamSettings_ok y
      \<and> map_option wire (OutTcpStreamSettings_toJson y) = Some (wire j)"
  proof (cases "ot_type x = JStr ''http''")
    case True
    with j obtain a b where a: "split_or [] (ot_host x) = Some a" and b: "split_or [''/''] (ot_path x) = Some b"
      and j': "j = JObj [(''header'', JObj [(''type'', ot_type x),
        (''request'', JObj [(''headers'', JObj [(''Host'', a)]), (''path'', b)])])]"
      by (auto simp: OutTcpStreamSettings_toJson_def bind_eq_Some_conv)
    obtain s where s: "joined (wire a) = Some (JStr s)" "split_or [] (JStr s) = Some a" "wire a = a" "a \<noteq> JUndef"
      using split_or_saved [OF a] by blast
    obtain t where t: "joined (wire b) = Some (JStr t)" "split_or [''/''] (JStr t) = Some b" "wire b = b" "b \<noteq> JUndef"
      using split_or_saved [OF b] by blast
    show ?thesis using ok True s t
      by (intro exI [of _ "\<lparr>ot_type = ot_type x, ot_host = JStr s, ot_path = JStr t\<rparr>"])
        (simp add: OutTcpStreamSettings_defs j' dflt_def)
  next
    case False
    with ok j show ?thesis
      by (intro exI [of _ "\<lparr>ot_type = ot_type x, ot_host = JStr [], ot_path = JStr []\<rparr>"])
        (auto simp: OutTcpStreamSettings_defs)
  qed
next
  show "clean JUndef" "OutTcpStreamSettings_fromJson JUndef \<noteq> None"
    by (simp_all add: OutTcpStreamSettings_fromJson_def)
qed

section \<open>mKCP\<close>

record OutKcpStreamSettings =
  okcp_mtu :: jsval
  okcp_tti :: jsval
  okcp_upCap :: jsval
  okcp_downCap :: jsval
  okcp_cwndMultiplier :: jsval
  okcp_maxSendingWindow :: jsval

definition OutKcpStreamSettings_new ::
  "jsval \<Rightarrow> jsval \<Rightarrow> jsval \<Rightarrow> jsval \<Rightarrow>
    jsval \<Rightarrow> jsval \<Rightarrow> OutKcpStreamSettings" where
  "OutKcpStreamSettings_new mtu tti uplinkCapacity downlinkCapacity cwndMultiplier maxSendingWindow =
     \<lparr>okcp_mtu = dflt (JNum 1350) mtu, okcp_tti = dflt (JNum 20) tti,
       okcp_upCap = dflt (JNum 5) uplinkCapacity,
       okcp_downCap = dflt (JNum 20) downlinkCapacity,
       okcp_cwndMultiplier = dflt (JNum 1) cwndMultiplier,
       okcp_maxSendingWindow = dflt (JNum 1350) maxSendingWindow\<rparr>"

definition OutKcpStreamSettings_fromJson :: "jsval \<Rightarrow> OutKcpStreamSettings option" where
  "OutKcpStreamSettings_fromJson json0 = do {
     json \<leftarrow> members (dflt emptyObj json0);
     Some (OutKcpStreamSettings_new
       (json ''mtu'') (json ''tti'') (json ''uplinkCapacity'') (json ''downlinkCapacity'')
       (json ''cwndMultiplier'') (json ''maxSendingWindow'')) }"

definition OutKcpStreamSettings_toJson :: "OutKcpStreamSettings \<Rightarrow> jsval" where
  "OutKcpStreamSettings_toJson this = JObj
      [(''mtu'', okcp_mtu this), (''tti'', okcp_tti this),
       (''uplinkCapacity'', okcp_upCap this), (''downlinkCapacity'', okcp_downCap this),
       (''cwndMultiplier'', okcp_cwndMultiplier this),
       (''maxSendingWindow'', okcp_maxSendingWindow this)]"

definition OutKcpStreamSettings_ok :: "OutKcpStreamSettings \<Rightarrow> bool" where
  "OutKcpStreamSettings_ok x \<longleftrightarrow>
     json_ok (okcp_mtu x) \<and> json_ok (okcp_tti x) \<and> json_ok (okcp_upCap x) \<and>
     json_ok (okcp_downCap x) \<and> json_ok (okcp_cwndMultiplier x) \<and>
     json_ok (okcp_maxSendingWindow x)"

lemmas OutKcpStreamSettings_defs = OutKcpStreamSettings_new_def OutKcpStreamSettings_fromJson_def
  OutKcpStreamSettings_toJson_def OutKcpStreamSettings_ok_def

interpretation out_kcp: json_codec "\<lambda>x. Some (OutKcpStreamSettings_toJson x)"
  OutKcpStreamSettings_fromJson OutKcpStreamSettings_ok clean
  by unfold_locales
    (auto simp: OutKcpStreamSettings_defs bind_eq_Some_conv intro!: json_ok_dflt intro: clean_member)

interpretation out_kcp_field: json_optional "\<lambda>x. Some (OutKcpStreamSettings_toJson x)"
  OutKcpStreamSettings_fromJson OutKcpStreamSettings_ok clean
  by unfold_locales (simp_all add: OutKcpStreamSettings_fromJson_def)

section \<open>WebSocket, gRPC and HTTPUpgrade\<close>

record OutWsStreamSettings =
  ows_path :: jsval
  ows_host :: jsval
  ows_heartbeatPeriod :: jsval

definition OutWsStreamSettings_new ::
  "jsval \<Rightarrow> jsval \<Rightarrow> jsval \<Rightarrow> OutWsStreamSettings" where
  "OutWsStreamSettings_new path host heartbeatPeriod =
     \<lparr>ows_path = dflt (JStr ''/'') path, ows_host = dflt (JStr []) host,
       ows_heartbeatPeriod = dflt (JNum 0) heartbeatPeriod\<rparr>"

definition OutWsStreamSettings_fromJson :: "jsval \<Rightarrow> OutWsStreamSettings option" where
  "OutWsStreamSettings_fromJson json0 = do {
     json \<leftarrow> members (dflt emptyObj json0);
     Some (OutWsStreamSettings_new
       (json ''path'') (json ''host'') (json ''heartbeatPeriod'')) }"

definition OutWsStreamSettings_toJson :: "OutWsStreamSettings \<Rightarrow> jsval" where
  "OutWsStreamSettings_toJson this = JObj
      [(''path'', ows_path this), (''host'', ows_host this),
       (''heartbeatPeriod'', ows_heartbeatPeriod this)]"

definition OutWsStreamSettings_ok :: "OutWsStreamSettings \<Rightarrow> bool" where
  "OutWsStreamSettings_ok x \<longleftrightarrow>
     json_ok (ows_path x) \<and> json_ok (ows_host x) \<and> json_ok (ows_heartbeatPeriod x)"

lemmas OutWsStreamSettings_defs = OutWsStreamSettings_new_def OutWsStreamSettings_fromJson_def
  OutWsStreamSettings_toJson_def OutWsStreamSettings_ok_def

interpretation out_ws: json_codec "\<lambda>x. Some (OutWsStreamSettings_toJson x)"
  OutWsStreamSettings_fromJson OutWsStreamSettings_ok clean
  by unfold_locales
    (auto simp: OutWsStreamSettings_defs bind_eq_Some_conv intro!: json_ok_dflt intro: clean_member)

interpretation out_ws_field: json_optional "\<lambda>x. Some (OutWsStreamSettings_toJson x)"
  OutWsStreamSettings_fromJson OutWsStreamSettings_ok clean
  by unfold_locales (simp_all add: OutWsStreamSettings_fromJson_def)

record OutGrpcStreamSettings =
  ogrpc_serviceName :: jsval
  ogrpc_authority :: jsval
  ogrpc_multiMode :: jsval

definition OutGrpcStreamSettings_new ::
  "jsval \<Rightarrow> jsval \<Rightarrow> jsval \<Rightarrow> OutGrpcStreamSettings" where
  "OutGrpcStreamSettings_new serviceName authority multiMode =
     \<lparr>ogrpc_serviceName = dflt (JStr []) serviceName,
       ogrpc_authority = dflt (JStr []) authority,
       ogrpc_multiMode = dflt (JBool False) multiMode\<rparr>"

definition OutGrpcStreamSettings_fromJson :: "jsval \<Rightarrow> OutGrpcStreamSettings option" where
  "OutGrpcStreamSettings_fromJson json0 = do {
     json \<leftarrow> members (dflt emptyObj json0);
     Some (OutGrpcStreamSettings_new
       (json ''serviceName'') (json ''authority'') (json ''multiMode'')) }"

definition OutGrpcStreamSettings_toJson :: "OutGrpcStreamSettings \<Rightarrow> jsval" where
  "OutGrpcStreamSettings_toJson this = JObj
      [(''serviceName'', ogrpc_serviceName this), (''authority'', ogrpc_authority this),
       (''multiMode'', ogrpc_multiMode this)]"

definition OutGrpcStreamSettings_ok :: "OutGrpcStreamSettings \<Rightarrow> bool" where
  "OutGrpcStreamSettings_ok x \<longleftrightarrow>
     json_ok (ogrpc_serviceName x) \<and> json_ok (ogrpc_authority x) \<and>
     json_ok (ogrpc_multiMode x)"

lemmas OutGrpcStreamSettings_defs = OutGrpcStreamSettings_new_def OutGrpcStreamSettings_fromJson_def
  OutGrpcStreamSettings_toJson_def OutGrpcStreamSettings_ok_def

interpretation out_grpc: json_codec "\<lambda>x. Some (OutGrpcStreamSettings_toJson x)"
  OutGrpcStreamSettings_fromJson OutGrpcStreamSettings_ok clean
  by unfold_locales
    (auto simp: OutGrpcStreamSettings_defs bind_eq_Some_conv intro!: json_ok_dflt intro: clean_member)

interpretation out_grpc_field: json_optional "\<lambda>x. Some (OutGrpcStreamSettings_toJson x)"
  OutGrpcStreamSettings_fromJson OutGrpcStreamSettings_ok clean
  by unfold_locales (simp_all add: OutGrpcStreamSettings_fromJson_def)

record OutHttpUpgradeStreamSettings =
  ohu_path :: jsval
  ohu_host :: jsval

definition OutHttpUpgradeStreamSettings_new ::
  "jsval \<Rightarrow> jsval \<Rightarrow> OutHttpUpgradeStreamSettings" where
  "OutHttpUpgradeStreamSettings_new path host =
     \<lparr>ohu_path = dflt (JStr ''/'') path, ohu_host = dflt (JStr []) host\<rparr>"

definition OutHttpUpgradeStreamSettings_fromJson :: "jsval \<Rightarrow> OutHttpUpgradeStreamSettings option" where
  "OutHttpUpgradeStreamSettings_fromJson json0 = do {
     json \<leftarrow> members (dflt emptyObj json0);
     Some (OutHttpUpgradeStreamSettings_new
       (json ''path'') (json ''host'')) }"

definition OutHttpUpgradeStreamSettings_toJson :: "OutHttpUpgradeStreamSettings \<Rightarrow> jsval" where
  "OutHttpUpgradeStreamSettings_toJson this = JObj
      [(''path'', ohu_path this), (''host'', ohu_host this)]"

definition OutHttpUpgradeStreamSettings_ok :: "OutHttpUpgradeStreamSettings \<Rightarrow> bool" where
  "OutHttpUpgradeStreamSettings_ok x \<longleftrightarrow>
     json_ok (ohu_path x) \<and> json_ok (ohu_host x)"

lemmas OutHttpUpgradeStreamSettings_defs = OutHttpUpgradeStreamSettings_new_def OutHttpUpgradeStreamSettings_fromJson_def
  OutHttpUpgradeStreamSettings_toJson_def OutHttpUpgradeStreamSettings_ok_def

interpretation out_httpupgrade: json_codec "\<lambda>x. Some (OutHttpUpgradeStreamSettings_toJson x)"
  OutHttpUpgradeStreamSettings_fromJson OutHttpUpgradeStreamSettings_ok clean
  by unfold_locales
    (auto simp: OutHttpUpgradeStreamSettings_defs bind_eq_Some_conv intro!: json_ok_dflt intro: clean_member)

interpretation out_httpupgrade_field: json_optional "\<lambda>x. Some (OutHttpUpgradeStreamSettings_toJson x)"
  OutHttpUpgradeStreamSettings_fromJson OutHttpUpgradeStreamSettings_ok clean
  by unfold_locales (simp_all add: OutHttpUpgradeStreamSettings_fromJson_def)

section \<open>Security\<close>

record OutTlsStreamSettings =
  otls_serverName :: jsval
  otls_alpn :: jsval
  otls_fingerprint :: jsval
  otls_echConfigList :: jsval
  otls_verifyPeerCertByName :: jsval
  otls_pinnedPeerCertSha256 :: jsval

definition OutTlsStreamSettings_new ::
  "jsval \<Rightarrow> jsval \<Rightarrow> jsval \<Rightarrow> jsval \<Rightarrow>
    jsval \<Rightarrow> jsval \<Rightarrow> OutTlsStreamSettings" where
  "OutTlsStreamSettings_new serverName alpn fingerprint echConfigList verifyPeerCertByName pinnedPeerCertSha256 =
     \<lparr>otls_serverName = dflt (JStr []) serverName, otls_alpn = dflt (JArr []) alpn,
       otls_fingerprint = dflt (JStr []) fingerprint,
       otls_echConfigList = dflt (JStr []) echConfigList,
       otls_verifyPeerCertByName = dflt (JStr []) verifyPeerCertByName,
       otls_pinnedPeerCertSha256 = dflt (JStr []) pinnedPeerCertSha256\<rparr>"

definition OutTlsStreamSettings_fromJson :: "jsval \<Rightarrow> OutTlsStreamSettings option" where
  "OutTlsStreamSettings_fromJson json0 = do {
     json \<leftarrow> members (dflt emptyObj json0);
     Some (OutTlsStreamSettings_new
       (json ''serverName'') (json ''alpn'') (json ''fingerprint'') (json ''echConfigList'')
       (json ''verifyPeerCertByName'') (json ''pinnedPeerCertSha256'')) }"

definition OutTlsStreamSettings_toJson :: "OutTlsStreamSettings \<Rightarrow> jsval" where
  "OutTlsStreamSettings_toJson this = JObj
      [(''serverName'', otls_serverName this), (''alpn'', otls_alpn this),
       (''fingerprint'', otls_fingerprint this),
       (''echConfigList'', otls_echConfigList this),
       (''verifyPeerCertByName'', otls_verifyPeerCertByName this),
       (''pinnedPeerCertSha256'', otls_pinnedPeerCertSha256 this)]"

definition OutTlsStreamSettings_ok :: "OutTlsStreamSettings \<Rightarrow> bool" where
  "OutTlsStreamSettings_ok x \<longleftrightarrow>
     json_ok (otls_serverName x) \<and> json_ok (otls_alpn x) \<and>
     json_ok (otls_fingerprint x) \<and> json_ok (otls_echConfigList x) \<and>
     json_ok (otls_verifyPeerCertByName x) \<and> json_ok (otls_pinnedPeerCertSha256 x)"

lemmas OutTlsStreamSettings_defs = OutTlsStreamSettings_new_def OutTlsStreamSettings_fromJson_def
  OutTlsStreamSettings_toJson_def OutTlsStreamSettings_ok_def

interpretation out_tls: json_codec "\<lambda>x. Some (OutTlsStreamSettings_toJson x)"
  OutTlsStreamSettings_fromJson OutTlsStreamSettings_ok clean
  by unfold_locales
    (auto simp: OutTlsStreamSettings_defs bind_eq_Some_conv intro!: json_ok_dflt intro: clean_member)

interpretation out_tls_field: json_optional "\<lambda>x. Some (OutTlsStreamSettings_toJson x)"
  OutTlsStreamSettings_fromJson OutTlsStreamSettings_ok clean
  by unfold_locales (simp_all add: OutTlsStreamSettings_fromJson_def)

record OutRealityStreamSettings =
  orl_publicKey :: jsval
  orl_fingerprint :: jsval
  orl_serverName :: jsval
  orl_shortId :: jsval
  orl_spiderX :: jsval
  orl_mldsa65Verify :: jsval

definition OutRealityStreamSettings_new ::
  "jsval \<Rightarrow> jsval \<Rightarrow> jsval \<Rightarrow> jsval \<Rightarrow>
    jsval \<Rightarrow> jsval \<Rightarrow> OutRealityStreamSettings" where
  "OutRealityStreamSettings_new publicKey fingerprint serverName shortId spiderX mldsa65Verify =
     \<lparr>orl_publicKey = dflt (JStr []) publicKey,
       orl_fingerprint = dflt (JStr []) fingerprint,
       orl_serverName = dflt (JStr []) serverName, orl_shortId = dflt (JStr []) shortId,
       orl_spiderX = dflt (JStr []) spiderX,
       orl_mldsa65Verify = dflt (JStr []) mldsa65Verify\<rparr>"

definition OutRealityStreamSettings_fromJson :: "jsval \<Rightarrow> OutRealityStreamSettings option" where
  "OutRealityStreamSettings_fromJson json0 = do {
     json \<leftarrow> members (dflt emptyObj json0);
     Some (OutRealityStreamSettings_new
       (json ''publicKey'') (json ''fingerprint'') (json ''serverName'') (json ''shortId'')
       (json ''spiderX'') (json ''mldsa65Verify'')) }"

definition OutRealityStreamSettings_toJson :: "OutRealityStreamSettings \<Rightarrow> jsval" where
  "OutRealityStreamSettings_toJson this = JObj
      [(''publicKey'', orl_publicKey this), (''fingerprint'', orl_fingerprint this),
       (''serverName'', orl_serverName this), (''shortId'', orl_shortId this),
       (''spiderX'', orl_spiderX this), (''mldsa65Verify'', orl_mldsa65Verify this)]"

definition OutRealityStreamSettings_ok :: "OutRealityStreamSettings \<Rightarrow> bool" where
  "OutRealityStreamSettings_ok x \<longleftrightarrow>
     json_ok (orl_publicKey x) \<and> json_ok (orl_fingerprint x) \<and>
     json_ok (orl_serverName x) \<and> json_ok (orl_shortId x) \<and>
     json_ok (orl_spiderX x) \<and> json_ok (orl_mldsa65Verify x)"

lemmas OutRealityStreamSettings_defs = OutRealityStreamSettings_new_def OutRealityStreamSettings_fromJson_def
  OutRealityStreamSettings_toJson_def OutRealityStreamSettings_ok_def

interpretation out_reality: json_codec "\<lambda>x. Some (OutRealityStreamSettings_toJson x)"
  OutRealityStreamSettings_fromJson OutRealityStreamSettings_ok clean
  by unfold_locales
    (auto simp: OutRealityStreamSettings_defs bind_eq_Some_conv intro!: json_ok_dflt intro: clean_member)

interpretation out_reality_field: json_optional "\<lambda>x. Some (OutRealityStreamSettings_toJson x)"
  OutRealityStreamSettings_fromJson OutRealityStreamSettings_ok clean
  by unfold_locales (simp_all add: OutRealityStreamSettings_fromJson_def)

section \<open>XHTTP\<close>

definition xmux_keys :: "string list" where
  "xmux_keys = [''maxConcurrency'', ''maxConnections'', ''cMaxReuseTimes'', ''hMaxRequestTimes'',
     ''hMaxReusableSecs'', ''hKeepAlivePeriod'']"

definition default_xmux :: jsval where
  "default_xmux = JObj [(''maxConcurrency'', JStr ''16-32''), (''maxConnections'', JNum 0),
     (''cMaxReuseTimes'', JNum 0), (''hMaxRequestTimes'', JStr ''600-900''),
     (''hMaxReusableSecs'', JStr ''1800-3000''), (''hKeepAlivePeriod'', JNum 0)]"

record OutxHTTPStreamSettings =
  oxh_path :: jsval
  oxh_host :: jsval
  oxh_mode :: jsval
  oxh_noGRPCHeader :: jsval
  oxh_scMinPostsIntervalMs :: jsval
  oxh_xmux :: jsval

definition OutxHTTPStreamSettings_new ::
  "jsval \<Rightarrow> jsval \<Rightarrow> jsval \<Rightarrow> jsval \<Rightarrow> jsval \<Rightarrow> jsval \<Rightarrow> OutxHTTPStreamSettings" where
  "OutxHTTPStreamSettings_new path host mode noGRPCHeader scMinPostsIntervalMs xmux =
     \<lparr>oxh_path = dflt (JStr ''/'') path, oxh_host = dflt (JStr []) host, oxh_mode = dflt (JStr []) mode,
       oxh_noGRPCHeader = dflt (JBool False) noGRPCHeader,
       oxh_scMinPostsIntervalMs = dflt (JStr ''30'') scMinPostsIntervalMs,
       oxh_xmux = dflt default_xmux xmux\<rparr>"

definition OutxHTTPStreamSettings_fromJson :: "jsval \<Rightarrow> OutxHTTPStreamSettings option" where
  "OutxHTTPStreamSettings_fromJson json0 = do {
     json \<leftarrow> members (dflt emptyObj json0);
     Some (OutxHTTPStreamSettings_new (json ''path'') (json ''host'') (json ''mode'')
       (json ''noGRPCHeader'') (json ''scMinPostsIntervalMs'') (json ''xmux'')) }"

text \<open>The writer copies the six known members of \<open>xmux\<close>, and throws on \<open>null\<close>.\<close>

definition xmux_copy :: "jsval \<Rightarrow> jsval option" where
  "xmux_copy v = do { xmux \<leftarrow> members v; Some (JObj (map (\<lambda>k. (k, xmux k)) xmux_keys)) }"

definition OutxHTTPStreamSettings_toJson :: "OutxHTTPStreamSettings \<Rightarrow> jsval option" where
  "OutxHTTPStreamSettings_toJson this = do {
     xmux \<leftarrow> xmux_copy (oxh_xmux this);
     Some (JObj
      [(''path'', oxh_path this), (''host'', oxh_host this), (''mode'', oxh_mode this),
       (''noGRPCHeader'', oxh_noGRPCHeader this),
       (''scMinPostsIntervalMs'', oxh_scMinPostsIntervalMs this), (''xmux'', xmux)]) }"

definition OutxHTTPStreamSettings_ok :: "OutxHTTPStreamSettings \<Rightarrow> bool" where
  "OutxHTTPStreamSettings_ok x \<longleftrightarrow> json_ok (oxh_path x) \<and> json_ok (oxh_host x) \<and> json_ok (oxh_mode x)
     \<and> json_ok (oxh_noGRPCHeader x) \<and> json_ok (oxh_scMinPostsIntervalMs x) \<and> json_ok (oxh_xmux x)"

lemmas OutxHTTPStreamSettings_defs = OutxHTTPStreamSettings_new_def OutxHTTPStreamSettings_fromJson_def
  OutxHTTPStreamSettings_toJson_def OutxHTTPStreamSettings_ok_def

lemma json_ok_default_xmux: "json_ok default_xmux"
  by (simp add: default_xmux_def)

lemma wire_props_json_ok:
  "\<lbrakk>distinct (map fst ps); \<forall>p \<in> set ps. clean (snd p)\<rbrakk> \<Longrightarrow> json_ok (JObj (wire_props ps))"
proof (induction ps)
  case (Cons p ps)
  moreover have "fst p \<notin> fst ` set (wire_props ps)" using Cons.prems(1) keys_wire_props by force
  ultimately show ?case by (cases p) (auto simp: clean_def)
qed simp

lemma xmux_copy_saved:
  assumes "xmux_copy v = Some u" "clean v"
  shows "json_ok (wire u) \<and> u \<noteq> JUndef \<and> map_option wire (xmux_copy (wire u)) = Some (wire u)"
proof -
  obtain p where p: "members v = Some p" and u: "u = JObj (map (\<lambda>k. (k, p k)) xmux_keys)"
    using assms(1) by (auto simp: xmux_copy_def bind_eq_Some_conv)
  have cl: "clean (p k)" for k by (rule clean_members [OF assms(2) p])
  let ?ps = "map (\<lambda>k. (k, p k)) xmux_keys"
  have d: "distinct (map fst ?ps)" by (simp add: comp_def xmux_keys_def)
  have "oget (wire_props ?ps) k = p k" if "k \<in> set xmux_keys" for k
    using that by (subst oget_wire_props [OF d]) (auto simp: xmux_keys_def wire_clean cl)
  then have "map (\<lambda>k. (k, oget (wire_props ?ps) k)) xmux_keys = ?ps" by simp
  then have "xmux_copy (wire u) = Some u" by (simp add: xmux_copy_def u)
  moreover have "json_ok (JObj (wire_props ?ps))" by (rule wire_props_json_ok [OF d]) (auto simp: cl)
  ultimately show ?thesis by (simp add: u)
qed

interpretation out_xhttp: json_optional OutxHTTPStreamSettings_toJson OutxHTTPStreamSettings_fromJson
  OutxHTTPStreamSettings_ok clean
proof unfold_locales
  show "\<lbrakk>clean j; OutxHTTPStreamSettings_fromJson j = Some x\<rbrakk> \<Longrightarrow> OutxHTTPStreamSettings_ok x" for j x
    by (auto simp: OutxHTTPStreamSettings_new_def OutxHTTPStreamSettings_fromJson_def
        OutxHTTPStreamSettings_ok_def bind_eq_Some_conv json_ok_default_xmux
        intro!: json_ok_dflt intro: clean_member)
next
  fix x j
  assume ok: "OutxHTTPStreamSettings_ok x" and j: "OutxHTTPStreamSettings_toJson x = Some j"
  then obtain u where u: "xmux_copy (oxh_xmux x) = Some u"
    by (auto simp: OutxHTTPStreamSettings_toJson_def bind_eq_Some_conv)
  have "clean (oxh_xmux x)" using ok by (simp add: OutxHTTPStreamSettings_ok_def clean_json_ok)
  from xmux_copy_saved [OF u this] ok u j
  show "\<exists>y. OutxHTTPStreamSettings_fromJson (wire j) = Some y \<and> OutxHTTPStreamSettings_ok y
      \<and> map_option wire (OutxHTTPStreamSettings_toJson y) = Some (wire j)"
    by (intro exI [of _ "x\<lparr>oxh_xmux := wire u\<rparr>"]) (auto simp: OutxHTTPStreamSettings_defs)
next
  show "clean JUndef" "OutxHTTPStreamSettings_fromJson JUndef \<noteq> None"
    by (simp_all add: OutxHTTPStreamSettings_fromJson_def)
qed

section \<open>Hysteria\<close>

record OutHysteriaStreamSettings =
  ohy_version :: jsval
  ohy_auth :: jsval
  ohy_congestion :: jsval
  ohy_up :: jsval
  ohy_down :: jsval
  ohy_udphopPort :: jsval
  ohy_udphopIntervalMin :: jsval
  ohy_udphopIntervalMax :: jsval
  ohy_initStreamReceiveWindow :: jsval
  ohy_maxStreamReceiveWindow :: jsval
  ohy_initConnectionReceiveWindow :: jsval
  ohy_maxConnectionReceiveWindow :: jsval
  ohy_maxIdleTimeout :: jsval
  ohy_keepAlivePeriod :: jsval
  ohy_disablePathMTUDiscovery :: jsval

definition OutHysteriaStreamSettings_new ::
  "jsval \<Rightarrow> jsval \<Rightarrow> jsval \<Rightarrow> jsval \<Rightarrow> jsval \<Rightarrow> jsval \<Rightarrow> jsval \<Rightarrow> jsval \<Rightarrow> jsval \<Rightarrow> jsval \<Rightarrow>
    jsval \<Rightarrow> jsval \<Rightarrow> jsval \<Rightarrow> jsval \<Rightarrow> jsval \<Rightarrow> OutHysteriaStreamSettings" where
  "OutHysteriaStreamSettings_new version auth congestion up down udphopPort udphopIntervalMin
     udphopIntervalMax initStreamReceiveWindow maxStreamReceiveWindow initConnectionReceiveWindow
     maxConnectionReceiveWindow maxIdleTimeout keepAlivePeriod disablePathMTUDiscovery =
     \<lparr>ohy_version = dflt (JNum 2) version, ohy_auth = dflt (JStr []) auth,
       ohy_congestion = dflt (JStr []) congestion, ohy_up = dflt (JStr ''0'') up,
       ohy_down = dflt (JStr ''0'') down, ohy_udphopPort = dflt (JStr []) udphopPort,
       ohy_udphopIntervalMin = dflt (JNum 30) udphopIntervalMin,
       ohy_udphopIntervalMax = dflt (JNum 30) udphopIntervalMax,
       ohy_initStreamReceiveWindow = dflt (JNum 8388608) initStreamReceiveWindow,
       ohy_maxStreamReceiveWindow = dflt (JNum 8388608) maxStreamReceiveWindow,
       ohy_initConnectionReceiveWindow = dflt (JNum 20971520) initConnectionReceiveWindow,
       ohy_maxConnectionReceiveWindow = dflt (JNum 20971520) maxConnectionReceiveWindow,
       ohy_maxIdleTimeout = dflt (JNum 30) maxIdleTimeout,
       ohy_keepAlivePeriod = dflt (JNum 2) keepAlivePeriod,
       ohy_disablePathMTUDiscovery = dflt (JBool False) disablePathMTUDiscovery\<rparr>"

text \<open>The port and the two ends of the interval; an old document has one \<open>interval\<close> for both.\<close>

definition read_udphop :: "jsval \<Rightarrow> jsval \<times> jsval \<times> jsval" where
  "read_udphop udphop =
     (if \<not> truthy udphop then (JStr [], JNum 30, JNum 30)
      else (js_or (mget udphop ''port'') (JStr []),
        (if mget udphop ''interval'' \<noteq> JUndef then mget udphop ''interval''
         else js_or (mget udphop ''intervalMin'') (JNum 30)),
        (if mget udphop ''interval'' \<noteq> JUndef then mget udphop ''interval''
         else js_or (mget udphop ''intervalMax'') (JNum 30))))"

definition OutHysteriaStreamSettings_fromJson :: "jsval \<Rightarrow> OutHysteriaStreamSettings option" where
  "OutHysteriaStreamSettings_fromJson json0 = do {
     json \<leftarrow> members (dflt emptyObj json0);
     let (udphopPort, udphopIntervalMin, udphopIntervalMax) = read_udphop (json ''udphop'');
     Some (OutHysteriaStreamSettings_new (json ''version'') (json ''auth'') (json ''congestion'')
       (json ''up'') (json ''down'') udphopPort udphopIntervalMin udphopIntervalMax
       (json ''initStreamReceiveWindow'') (json ''maxStreamReceiveWindow'')
       (json ''initConnectionReceiveWindow'') (json ''maxConnectionReceiveWindow'')
       (json ''maxIdleTimeout'') (json ''keepAlivePeriod'') (json ''disablePathMTUDiscovery'')) }"

definition OutHysteriaStreamSettings_toJson :: "OutHysteriaStreamSettings \<Rightarrow> jsval" where
  "OutHysteriaStreamSettings_toJson this = JObj
      ([(''version'', ohy_version this), (''auth'', ohy_auth this),
       (''congestion'', ohy_congestion this), (''up'', ohy_up this), (''down'', ohy_down this),
       (''initStreamReceiveWindow'', ohy_initStreamReceiveWindow this),
       (''maxStreamReceiveWindow'', ohy_maxStreamReceiveWindow this),
       (''initConnectionReceiveWindow'', ohy_initConnectionReceiveWindow this),
       (''maxConnectionReceiveWindow'', ohy_maxConnectionReceiveWindow this),
       (''maxIdleTimeout'', ohy_maxIdleTimeout this),
       (''keepAlivePeriod'', ohy_keepAlivePeriod this),
       (''disablePathMTUDiscovery'', ohy_disablePathMTUDiscovery this)]
      @ prop_if (truthy (ohy_udphopPort this)) ''udphop''
          (JObj [(''port'', ohy_udphopPort this), (''intervalMin'', ohy_udphopIntervalMin this),
            (''intervalMax'', ohy_udphopIntervalMax this)]))"

text \<open>An end of the interval that is 0 is written, and read as 30.\<close>

definition OutHysteriaStreamSettings_ok :: "OutHysteriaStreamSettings \<Rightarrow> bool" where
  "OutHysteriaStreamSettings_ok x \<longleftrightarrow> json_ok (ohy_version x) \<and> json_ok (ohy_auth x)
     \<and> json_ok (ohy_congestion x) \<and> json_ok (ohy_up x) \<and> json_ok (ohy_down x)
     \<and> json_ok (ohy_udphopPort x) \<and> json_ok (ohy_udphopIntervalMin x) \<and> json_ok (ohy_udphopIntervalMax x)
     \<and> json_ok (ohy_initStreamReceiveWindow x) \<and> json_ok (ohy_maxStreamReceiveWindow x)
     \<and> json_ok (ohy_initConnectionReceiveWindow x) \<and> json_ok (ohy_maxConnectionReceiveWindow x)
     \<and> json_ok (ohy_maxIdleTimeout x) \<and> json_ok (ohy_keepAlivePeriod x)
     \<and> json_ok (ohy_disablePathMTUDiscovery x)
     \<and> (truthy (ohy_udphopPort x) \<longrightarrow>
         truthy (ohy_udphopIntervalMin x) \<and> truthy (ohy_udphopIntervalMax x))"

definition out_hysteria_doc :: "jsval \<Rightarrow> bool" where
  "out_hysteria_doc j \<longleftrightarrow> clean j \<and>
     (let interval = mget (mget j ''udphop'') ''interval'' in interval = JUndef \<or> truthy interval)"

lemmas OutHysteriaStreamSettings_defs = OutHysteriaStreamSettings_new_def
  OutHysteriaStreamSettings_fromJson_def OutHysteriaStreamSettings_toJson_def
  OutHysteriaStreamSettings_ok_def

lemma js_or_cases [simp]: "truthy v \<Longrightarrow> js_or v d = v" "\<not> truthy v \<Longrightarrow> js_or v d = d"
  by (simp_all add: js_or_def)

lemma read_udphop_ok:
  assumes "clean v" "mget v ''interval'' = JUndef \<or> truthy (mget v ''interval'')" "read_udphop v = (p, a, b)"
  shows "json_ok p" "json_ok a" "json_ok b" "truthy p \<longrightarrow> truthy a \<and> truthy b"
proof -
  have cl: "clean (mget v k)" for k by (rule clean_mget [OF assms(1)])
  have or: "truthy (js_or (mget v k) (JNum 30))" "json_ok (js_or (mget v k) (JNum 30))"
    "json_ok (js_or (mget v k) (JStr []))" for k
    using json_ok_js_or [OF _ cl, of _ k] by (auto simp: js_or_def)
  show "json_ok p" "json_ok a" "json_ok b" "truthy p \<longrightarrow> truthy a \<and> truthy b"
    using assms(2,3) or cl [of "''interval''"]
    by (auto simp: read_udphop_def clean_def split: if_splits)
qed

lemma mget_members: "members (dflt emptyObj j) = Some p \<Longrightarrow> mget j k = p k"
  by (auto simp: mget_def dflt_def split: if_splits)

interpretation out_hysteria: json_optional "\<lambda>x. Some (OutHysteriaStreamSettings_toJson x)"
  OutHysteriaStreamSettings_fromJson OutHysteriaStreamSettings_ok out_hysteria_doc
proof unfold_locales
  fix j x
  assume doc: "out_hysteria_doc j" and d: "OutHysteriaStreamSettings_fromJson j = Some x"
  then obtain json where json: "members (dflt emptyObj j) = Some json"
    by (auto simp: OutHysteriaStreamSettings_fromJson_def bind_eq_Some_conv)
  have cl: "clean (json k)" for k
    by (rule clean_member [OF json]) (use doc in \<open>simp add: out_hysteria_doc_def\<close>)
  obtain p a b where hop: "read_udphop (json ''udphop'') = (p, a, b)" by (metis prod_cases3)
  have "mget (json ''udphop'') ''interval'' = JUndef \<or> truthy (mget (json ''udphop'') ''interval'')"
    using doc by (simp add: out_hysteria_doc_def Let_def mget_members [OF json])
  note h = read_udphop_ok [OF cl this hop]
  have "p \<noteq> JUndef" "a \<noteq> JUndef" "b \<noteq> JUndef" using h(1-3) by auto
  with d json hop h cl show "OutHysteriaStreamSettings_ok x"
    by (auto simp: OutHysteriaStreamSettings_fromJson_def OutHysteriaStreamSettings_new_def
        OutHysteriaStreamSettings_ok_def json_ok_dflt)
next
  fix x j
  assume ok: "OutHysteriaStreamSettings_ok x" and j: "Some (OutHysteriaStreamSettings_toJson x) = Some j"
  show "\<exists>y. OutHysteriaStreamSettings_fromJson (wire j) = Some y \<and> OutHysteriaStreamSettings_ok y
      \<and> map_option wire (Some (OutHysteriaStreamSettings_toJson y)) = Some (wire j)"
  proof (cases "truthy (ohy_udphopPort x)")
    case True
    with ok j show ?thesis
      by (intro exI [of _ x])
        (auto simp: OutHysteriaStreamSettings_defs prop_if_def read_udphop_def)
  next
    case False
    with ok j show ?thesis
      by (intro exI [of _ "x\<lparr>ohy_udphopPort := JStr [], ohy_udphopIntervalMin := JNum 30,
          ohy_udphopIntervalMax := JNum 30\<rparr>"])
        (auto simp: OutHysteriaStreamSettings_defs prop_if_def read_udphop_def)
  qed
next
  show "out_hysteria_doc JUndef" "OutHysteriaStreamSettings_fromJson JUndef \<noteq> None"
    by (simp_all add: out_hysteria_doc_def OutHysteriaStreamSettings_fromJson_def split_beta)
qed

section \<open>Socket options\<close>

record OutSockoptStreamSettings =
  oso_dialerProxy :: jsval
  oso_tcpFastOpen :: jsval
  oso_tcpKeepAliveInterval :: jsval
  oso_tcpMptcp :: jsval
  oso_penetrate :: jsval
  oso_addressPortStrategy :: jsval
  oso_trustedXForwardedFor :: jsval

definition OutSockoptStreamSettings_new ::
  "jsval \<Rightarrow> jsval \<Rightarrow> jsval \<Rightarrow> jsval \<Rightarrow> jsval \<Rightarrow> jsval \<Rightarrow> jsval \<Rightarrow> OutSockoptStreamSettings" where
  "OutSockoptStreamSettings_new dialerProxy tcpFastOpen tcpKeepAliveInterval tcpMptcp penetrate
     addressPortStrategy trustedXForwardedFor =
     \<lparr>oso_dialerProxy = dflt (JStr []) dialerProxy, oso_tcpFastOpen = dflt (JBool False) tcpFastOpen,
       oso_tcpKeepAliveInterval = dflt (JNum 0) tcpKeepAliveInterval,
       oso_tcpMptcp = dflt (JBool False) tcpMptcp, oso_penetrate = dflt (JBool False) penetrate,
       oso_addressPortStrategy = dflt (JStr ''none'') addressPortStrategy,
       oso_trustedXForwardedFor = dflt (JArr []) trustedXForwardedFor\<rparr>"

text \<open>No options at all are \<open>undefined\<close>, here the inner \<open>None\<close>.\<close>

definition OutSockoptStreamSettings_fromJson :: "jsval \<Rightarrow> OutSockoptStreamSettings option option" where
  "OutSockoptStreamSettings_fromJson json0 = do {
     let j = dflt emptyObj json0;
     json \<leftarrow> members j;
     if object_entries j = [] then Some None
     else Some (Some (OutSockoptStreamSettings_new
       (json ''dialerProxy'') (json ''tcpFastOpen'') (json ''tcpKeepAliveInterval'')
       (json ''tcpMptcp'') (json ''penetrate'') (json ''addressPortStrategy'')
       (js_or (json ''trustedXForwardedFor'') (JArr [])))) }"

definition OutSockoptStreamSettings_toJson :: "OutSockoptStreamSettings \<Rightarrow> jsval" where
  "OutSockoptStreamSettings_toJson this = JObj
     ([(''dialerProxy'', oso_dialerProxy this), (''tcpFastOpen'', oso_tcpFastOpen this),
       (''tcpKeepAliveInterval'', oso_tcpKeepAliveInterval this), (''tcpMptcp'', oso_tcpMptcp this),
       (''penetrate'', oso_penetrate this), (''addressPortStrategy'', oso_addressPortStrategy this)]
      @ prop_if (has_length (oso_trustedXForwardedFor this)) ''trustedXForwardedFor''
          (oso_trustedXForwardedFor this))"

definition OutSockoptStreamSettings_ok :: "OutSockoptStreamSettings \<Rightarrow> bool" where
  "OutSockoptStreamSettings_ok x \<longleftrightarrow> json_ok (oso_dialerProxy x) \<and> json_ok (oso_tcpFastOpen x)
     \<and> json_ok (oso_tcpKeepAliveInterval x) \<and> json_ok (oso_tcpMptcp x) \<and> json_ok (oso_penetrate x)
     \<and> json_ok (oso_addressPortStrategy x) \<and> json_ok (oso_trustedXForwardedFor x)"

definition out_sockopt_toJson :: "OutSockoptStreamSettings option \<Rightarrow> jsval" where
  "out_sockopt_toJson s = (case s of None \<Rightarrow> JUndef | Some x \<Rightarrow> OutSockoptStreamSettings_toJson x)"

definition out_sockopt_ok :: "OutSockoptStreamSettings option \<Rightarrow> bool" where
  "out_sockopt_ok s \<longleftrightarrow> (case s of None \<Rightarrow> True | Some x \<Rightarrow> OutSockoptStreamSettings_ok x)"

lemmas OutSockoptStreamSettings_defs = OutSockoptStreamSettings_new_def
  OutSockoptStreamSettings_fromJson_def OutSockoptStreamSettings_toJson_def
  OutSockoptStreamSettings_ok_def out_sockopt_toJson_def out_sockopt_ok_def

interpretation out_sockopt: json_optional "\<lambda>s. Some (out_sockopt_toJson s)"
  OutSockoptStreamSettings_fromJson out_sockopt_ok clean
proof unfold_locales
  show "\<lbrakk>clean j; OutSockoptStreamSettings_fromJson j = Some s\<rbrakk> \<Longrightarrow> out_sockopt_ok s" for j s
    by (auto simp: OutSockoptStreamSettings_fromJson_def OutSockoptStreamSettings_new_def
        OutSockoptStreamSettings_ok_def out_sockopt_ok_def Let_def bind_eq_Some_conv split: if_splits
        intro!: json_ok_dflt clean_json_ok [OF json_ok_js_or] intro: clean_member)
next
  fix s j
  assume ok: "out_sockopt_ok s" and j: "Some (out_sockopt_toJson s) = Some j"
  show "\<exists>y. OutSockoptStreamSettings_fromJson (wire j) = Some y \<and> out_sockopt_ok y
      \<and> map_option wire (Some (out_sockopt_toJson y)) = Some (wire j)"
  proof (cases s)
    case None
    with j show ?thesis by (auto simp: OutSockoptStreamSettings_defs Let_def)
  next
    case (Some x)
    let ?kept = "if has_length (oso_trustedXForwardedFor x) then oso_trustedXForwardedFor x else JArr []"
    from Some ok j show ?thesis
      by (intro exI [of _ "Some (x\<lparr>oso_trustedXForwardedFor := ?kept\<rparr>)"])
        (auto simp: OutSockoptStreamSettings_defs Let_def prop_if_def js_or_has_length has_length_array)
  qed
next
  show "clean JUndef" "OutSockoptStreamSettings_fromJson JUndef \<noteq> None"
    by (simp_all add: OutSockoptStreamSettings_fromJson_def Let_def)
qed

section \<open>Masks\<close>

definition OutUdpMask_getDefaultSettings :: "jsval \<Rightarrow> jsval \<Rightarrow> jsval option" where
  "OutUdpMask_getDefaultSettings type0 settings =
     (if one_of type0 [''salamander'', ''mkcp-aes128gcm''] then do {
        s \<leftarrow> members settings;
        Some (JObj [(''password'', js_or (s ''password'') (JStr []))]) }
      else if type0 = JStr ''header-dns'' then do {
        s \<leftarrow> members settings;
        Some (JObj [(''domain'', js_or (s ''domain'') (JStr []))]) }
      else if type0 = JStr ''xdns'' then do {
        s \<leftarrow> members settings;
        Some (JObj [(''resolvers'', array_or_empty (s ''resolvers''))]) }
      else if type0 = JStr ''xicmp'' then do {
        s \<leftarrow> members settings;
        Some (JObj [(''ip'', js_or (s ''ip'') (JStr [])), (''id'', js_coalesce (s ''id'') (JNum 0))]) }
      else if one_of type0 [''mkcp-original'', ''header-dtls'', ''header-srtp'', ''header-utp'',
        ''header-wechat'', ''header-wireguard''] then Some emptyObj
      else if type0 = JStr ''header-custom'' then do {
        s \<leftarrow> members settings;
        Some (JObj [(''client'', array_or_empty (s ''client'')),
          (''server'', array_or_empty (s ''server''))]) }
      else if type0 = JStr ''noise'' then do {
        s \<leftarrow> members settings;
        Some (JObj [(''reset'', js_coalesce (s ''reset'') (JNum 0)),
          (''noise'', array_or_empty (s ''noise''))]) }
      else if type0 = JStr ''sudoku'' then do {
        s \<leftarrow> members settings;
        Some (JObj [(''ascii'', js_or (s ''ascii'') (JStr [])),
          (''customTable'', js_or (s ''customTable'') (JStr [])),
          (''customTables'', array_or_empty (s ''customTables'')),
          (''paddingMin'', js_coalesce (s ''paddingMin'') (JNum 0)),
          (''paddingMax'', js_coalesce (s ''paddingMax'') (JNum 0))]) }
      else Some settings)"

text \<open>The writer is the text of \<open>inbound.js\<close>.\<close>

definition OutUdpMask_toJson :: "mask \<Rightarrow> jsval" where
  "OutUdpMask_toJson = mask_toJson UdpMask_cleaned"

definition OutUdpMask_new :: "jsval \<Rightarrow> jsval \<Rightarrow> mask option" where
  "OutUdpMask_new = mask_new ''salamander'' OutUdpMask_getDefaultSettings"

definition OutUdpMask_fromJson :: "jsval \<Rightarrow> mask option" where
  "OutUdpMask_fromJson = mask_fromJson ''salamander'' OutUdpMask_getDefaultSettings"

text \<open>The two classes differ in two types of masks.\<close>

lemma OutUdpMask_inbound:
  "\<lbrakk>type0 \<noteq> JStr ''xdns''; type0 \<noteq> JStr ''sudoku''\<rbrakk> \<Longrightarrow>
   OutUdpMask_getDefaultSettings type0 settings = UdpMask_getDefaultSettings type0 settings"
  by (simp add: OutUdpMask_getDefaultSettings_def UdpMask_getDefaultSettings_def)

lemma OutUdpMask_xdns:
  "OutUdpMask_getDefaultSettings (JStr ''xdns'') settings =
     do { s \<leftarrow> members settings; Some (JObj [(''resolvers'', array_or_empty (s ''resolvers''))]) }"
  by (simp add: OutUdpMask_getDefaultSettings_def)

lemma OutUdpMask_sudoku:
  "OutUdpMask_getDefaultSettings (JStr ''sudoku'') settings =
     do { s \<leftarrow> members settings;
        Some (JObj [(''ascii'', js_or (s ''ascii'') (JStr [])),
          (''customTable'', js_or (s ''customTable'') (JStr [])),
          (''customTables'', array_or_empty (s ''customTables'')),
          (''paddingMin'', js_coalesce (s ''paddingMin'') (JNum 0)),
          (''paddingMax'', js_coalesce (s ''paddingMax'') (JNum 0))]) }"
  by (simp add: OutUdpMask_getDefaultSettings_def)

lemma OutUdpMask_own:
  assumes "t = JStr ''xdns'' \<or> t = JStr ''sudoku''"
  shows "UdpMask_cleaned t s = s"
    "\<lbrakk>json_ok s; OutUdpMask_getDefaultSettings t s = Some u\<rbrakk> \<Longrightarrow> json_ok u"
    "OutUdpMask_getDefaultSettings t s = Some u \<Longrightarrow> OutUdpMask_getDefaultSettings t u = Some u"
    "OutUdpMask_getDefaultSettings t s = Some u \<Longrightarrow> has_keys_left u"
  using assms
  by (auto simp: UdpMask_cleaned_def OutUdpMask_xdns OutUdpMask_sudoku bind_eq_Some_conv clean_members_json
      json_ok_js_or json_ok_coalesce array_or_empty_json_ok js_or_stable js_coalesce_stable)

interpretation out_udp_mask: mask_class "''salamander''" OutUdpMask_getDefaultSettings UdpMask_cleaned
proof unfold_locales
  fix s t u
  let ?own = "t = JStr ''xdns'' \<or> t = JStr ''sudoku''"
  note shared = OutUdpMask_inbound [of t]
  show "\<lbrakk>json_ok s; OutUdpMask_getDefaultSettings t s = Some u\<rbrakk> \<Longrightarrow> json_ok u"
    using OutUdpMask_own(2) [of t s u] shared udp_mask.defaults_json [of s t u] by (cases ?own) auto
  show "OutUdpMask_getDefaultSettings t s = Some u \<Longrightarrow> OutUdpMask_getDefaultSettings t u = Some u"
    using OutUdpMask_own(3) [of t s u] shared udp_mask.defaults_stable [of t s u] by (cases ?own) auto
  assume s: "OutUdpMask_getDefaultSettings t s = Some s"
  show "json_ok s \<Longrightarrow> json_ok (UdpMask_cleaned t s)"
    using s OutUdpMask_own(1) [of t s] shared udp_mask.cleaned_json [of s t] by (cases ?own) auto
  show "UdpMask_cleaned t (UdpMask_cleaned t s) = UdpMask_cleaned t s"
    using s OutUdpMask_own(1) [of t] shared udp_mask.cleaned_idem [of t s] by (cases ?own) auto
  show "OutUdpMask_getDefaultSettings t (UdpMask_cleaned t s) = Some (UdpMask_cleaned t s)"
    using s OutUdpMask_own(1) [of t s] shared udp_mask.defaults_cleaned [of t s] by (cases ?own) auto
  assume "\<not> has_keys_left (UdpMask_cleaned t s)"
  then show "\<exists>u. OutUdpMask_getDefaultSettings t emptyObj = Some u \<and> \<not> has_keys_left (UdpMask_cleaned t u)"
    using s OutUdpMask_own(1) [of t s] OutUdpMask_own(4) [of t s s] shared udp_mask.defaults_empty [of t s]
    by (cases ?own) auto
qed

interpretation outbound_masks: mask_object OutUdpMask_getDefaultSettings UdpMask_cleaned
  by unfold_locales

text \<open>The file of the outbound repeats the classes \<open>TcpMask\<close> and \<open>QuicParams\<close> and the switch of the
  latter word for word, so they are the inbound's definitions under other names.\<close>

definition OutTcpMask_getDefaultSettings :: "jsval \<Rightarrow> jsval \<Rightarrow> jsval option" where
  "OutTcpMask_getDefaultSettings = TcpMask_getDefaultSettings"

definition OutTcpMask_new :: "jsval \<Rightarrow> jsval \<Rightarrow> mask option" where
  "OutTcpMask_new = mask_new ''fragment'' OutTcpMask_getDefaultSettings"

definition OutTcpMask_fromJson :: "jsval \<Rightarrow> mask option" where
  "OutTcpMask_fromJson = mask_fromJson ''fragment'' OutTcpMask_getDefaultSettings"

definition OutTcpMask_toJson :: "mask \<Rightarrow> jsval" where
  "OutTcpMask_toJson = TcpMask_toJson"

definition OutQuicParams_new ::
  "jsval \<Rightarrow> jsval \<Rightarrow> jsval \<Rightarrow> jsval \<Rightarrow> jsval \<Rightarrow> jsval \<Rightarrow> jsval \<Rightarrow> jsval \<Rightarrow> jsval \<Rightarrow>
    jsval \<Rightarrow> jsval \<Rightarrow> jsval \<Rightarrow> jsval \<Rightarrow> QuicParams" where
  "OutQuicParams_new = QuicParams_new"

definition out_hasUdpHop :: "QuicParams \<Rightarrow> bool" where
  "out_hasUdpHop = hasUdpHop"

definition set_out_hasUdpHop :: "bool \<Rightarrow> QuicParams \<Rightarrow> QuicParams" where
  "set_out_hasUdpHop = set_hasUdpHop"

definition OutQuicParams_fromJson :: "jsval \<Rightarrow> QuicParams option" where
  "OutQuicParams_fromJson = QuicParams_fromJson"

definition OutQuicParams_toJson :: "QuicParams \<Rightarrow> jsval" where
  "OutQuicParams_toJson = QuicParams_toJson"

definition out_enableQuicParams :: "FinalMaskStreamSettings \<Rightarrow> bool" where
  "out_enableQuicParams = enableQuicParams"

definition set_out_enableQuicParams :: "bool \<Rightarrow> FinalMaskStreamSettings \<Rightarrow> FinalMaskStreamSettings" where
  "set_out_enableQuicParams = set_enableQuicParams"

definition OutFinalMask_new ::
  "jsval \<Rightarrow> jsval \<Rightarrow> jsval + QuicParams \<Rightarrow> FinalMaskStreamSettings option" where
  "OutFinalMask_new = masks_new OutUdpMask_getDefaultSettings"

definition OutFinalMask_fromJson :: "jsval \<Rightarrow> FinalMaskStreamSettings option" where
  "OutFinalMask_fromJson = masks_fromJson OutUdpMask_getDefaultSettings"

definition OutFinalMask_toJson :: "FinalMaskStreamSettings \<Rightarrow> jsval" where
  "OutFinalMask_toJson = masks_toJson UdpMask_cleaned"

definition OutFinalMask_ok :: "FinalMaskStreamSettings \<Rightarrow> bool" where
  "OutFinalMask_ok = masks_ok OutUdpMask_getDefaultSettings"

interpretation out_finalmask: json_optional "\<lambda>x. Some (OutFinalMask_toJson x)"
  OutFinalMask_fromJson OutFinalMask_ok finalmask_doc
  unfolding OutFinalMask_toJson_def OutFinalMask_fromJson_def OutFinalMask_ok_def
  by (rule outbound_masks.masks_optional)

end
