(* ===== verification/Outbound_Stream.thy ===== *)
theory Outbound_Stream
  imports Outbound_Transports
begin

text \<open>
  \<open>StreamSettings\<close> of \<open>web/assets/js/model/outbound.js\<close>: the object that owns one settings object
  per transport and per security layer, with its masks and socket options. The readers of share
  links assign to names no class declares (\<open>stream.kcp.seed\<close>, \<open>stream.xhttp.xPaddingBytes\<close>); these
  are the field \<open>os_undeclared\<close>, under the path of the assignment, which no writer reads.
\<close>

section \<open>A member that is written under a condition\<close>

context json_optional begin

lemma selected_again:
  assumes "ok x" "(if c then enc x else Some JUndef) = Some j"
  obtains y k where "dec (wire j) = Some y" "ok y" "(if c then enc y else Some JUndef) = Some k" "wire k = wire j"
proof -
  obtain y where "dec (wire j) = Some y" "ok y"
    "map_option wire (if c then enc y else Some JUndef) = Some (wire j)"
    by (rule selected_view [OF assms])
  then show thesis using that by (cases "if c then enc y else Some JUndef") auto
qed

end

section \<open>The stream\<close>

record OutStreamSettings =
  os_network :: jsval
  os_security :: jsval
  os_tls :: OutTlsStreamSettings
  os_reality :: OutRealityStreamSettings
  os_tcp :: OutTcpStreamSettings
  os_kcp :: OutKcpStreamSettings
  os_ws :: OutWsStreamSettings
  os_grpc :: OutGrpcStreamSettings
  os_httpupgrade :: OutHttpUpgradeStreamSettings
  os_xhttp :: OutxHTTPStreamSettings
  os_hysteria :: OutHysteriaStreamSettings
  os_finalmask :: FinalMaskStreamSettings
  os_sockopt :: "OutSockoptStreamSettings option"
  os_undeclared :: props

definition OutStreamSettings_new ::
  "jsval \<Rightarrow> jsval \<Rightarrow> OutTlsStreamSettings \<Rightarrow> OutRealityStreamSettings
     \<Rightarrow> OutTcpStreamSettings \<Rightarrow> OutKcpStreamSettings
     \<Rightarrow> OutWsStreamSettings \<Rightarrow> OutGrpcStreamSettings
     \<Rightarrow> OutHttpUpgradeStreamSettings \<Rightarrow> OutxHTTPStreamSettings
     \<Rightarrow> OutHysteriaStreamSettings \<Rightarrow> FinalMaskStreamSettings
    \<Rightarrow> OutSockoptStreamSettings option \<Rightarrow> OutStreamSettings" where
  "OutStreamSettings_new network security tlsSettings realitySettings tcpSettings kcpSettings wsSettings
      grpcSettings httpupgradeSettings xhttpSettings hysteriaSettings finalmask sockopt =
     \<lparr>os_network = dflt (JStr ''tcp'') network, os_security = dflt (JStr ''none'') security,
       os_tls = tlsSettings,
       os_reality = realitySettings,
       os_tcp = tcpSettings,
       os_kcp = kcpSettings,
       os_ws = wsSettings,
       os_grpc = grpcSettings,
       os_httpupgrade = httpupgradeSettings,
       os_xhttp = xhttpSettings,
       os_hysteria = hysteriaSettings,
       os_finalmask = finalmask,
       os_sockopt = sockopt, os_undeclared = []\<rparr>"

text \<open>\<open>new StreamSettings(network, security)\<close>: the other parameters take their defaults. The masks of
  a fresh stream are none, so this constructor does not throw.\<close>

definition OutStreamSettings_default :: "jsval \<Rightarrow> jsval \<Rightarrow> OutStreamSettings" where
  "OutStreamSettings_default network security = OutStreamSettings_new network security
     (OutTlsStreamSettings_new JUndef JUndef JUndef JUndef JUndef JUndef)
     (OutRealityStreamSettings_new JUndef JUndef JUndef JUndef JUndef JUndef)
     (OutTcpStreamSettings_new JUndef JUndef JUndef)
     (OutKcpStreamSettings_new JUndef JUndef JUndef JUndef JUndef JUndef)
     (OutWsStreamSettings_new JUndef JUndef JUndef)
     (OutGrpcStreamSettings_new JUndef JUndef JUndef)
     (OutHttpUpgradeStreamSettings_new JUndef JUndef)
     (OutxHTTPStreamSettings_new JUndef JUndef JUndef JUndef JUndef JUndef)
     (OutHysteriaStreamSettings_new JUndef JUndef JUndef JUndef JUndef JUndef JUndef JUndef JUndef
       JUndef JUndef JUndef JUndef JUndef JUndef)
     \<lparr>fm_tcp = [], fm_udp = [], fm_quicParams = None\<rparr> None"

lemma fresh_finalmask:
  "OutFinalMask_new JUndef JUndef (Inl JUndef) = Some \<lparr>fm_tcp = [], fm_udp = [], fm_quicParams = None\<rparr>"
  by (simp add: OutFinalMask_new_def masks_new_def)

subsection \<open>Operations of the form\<close>

definition out_addTcpMask :: "jsval \<Rightarrow> OutStreamSettings \<Rightarrow> OutStreamSettings option" where
  "out_addTcpMask type0 this = do {
     m \<leftarrow> OutTcpMask_new (dflt (JStr ''fragment'') type0) JUndef;
     Some (this\<lparr>os_finalmask := (os_finalmask this)\<lparr>fm_tcp := fm_tcp (os_finalmask this) @ [m]\<rparr>\<rparr>) }"

definition out_delTcpMask :: "int \<Rightarrow> OutStreamSettings \<Rightarrow> OutStreamSettings" where
  "out_delTcpMask index this = this\<lparr>os_finalmask :=
     (os_finalmask this)\<lparr>fm_tcp := splice1 index (fm_tcp (os_finalmask this))\<rparr>\<rparr>"

definition out_addUdpMask :: "jsval \<Rightarrow> OutStreamSettings \<Rightarrow> OutStreamSettings option" where
  "out_addUdpMask type0 this = do {
     m \<leftarrow> OutUdpMask_new (dflt (JStr ''salamander'') type0) JUndef;
     Some (this\<lparr>os_finalmask := (os_finalmask this)\<lparr>fm_udp := fm_udp (os_finalmask this) @ [m]\<rparr>\<rparr>) }"

definition out_delUdpMask :: "int \<Rightarrow> OutStreamSettings \<Rightarrow> OutStreamSettings" where
  "out_delUdpMask index this = this\<lparr>os_finalmask :=
     (os_finalmask this)\<lparr>fm_udp := splice1 index (fm_udp (os_finalmask this))\<rparr>\<rparr>"

definition out_hasFinalMask :: "OutStreamSettings \<Rightarrow> bool" where
  "out_hasFinalMask this \<longleftrightarrow> fm_tcp (os_finalmask this) \<noteq> [] \<or> fm_udp (os_finalmask this) \<noteq> []
     \<or> fm_quicParams (os_finalmask this) \<noteq> None"

definition out_isTls :: "OutStreamSettings \<Rightarrow> bool" where
  "out_isTls this \<longleftrightarrow> os_security this = JStr ''tls''"

definition out_isReality :: "OutStreamSettings \<Rightarrow> bool" where
  "out_isReality this \<longleftrightarrow> os_security this = JStr ''reality''"

definition out_sockoptSwitch :: "OutStreamSettings \<Rightarrow> bool" where
  "out_sockoptSwitch this \<longleftrightarrow> os_sockopt this \<noteq> None"

definition set_out_sockoptSwitch :: "bool \<Rightarrow> OutStreamSettings \<Rightarrow> OutStreamSettings" where
  "set_out_sockoptSwitch value this = this\<lparr>os_sockopt :=
     (if value then Some (OutSockoptStreamSettings_new JUndef JUndef JUndef JUndef JUndef JUndef JUndef)
      else None)\<rparr>"

subsection \<open>Reading and writing\<close>

definition OutStreamSettings_fromJson :: "jsval \<Rightarrow> OutStreamSettings option" where
  "OutStreamSettings_fromJson json0 = do {
     json \<leftarrow> members (dflt emptyObj json0);
     tlsSettings \<leftarrow> OutTlsStreamSettings_fromJson (json ''tlsSettings'');
     realitySettings \<leftarrow> OutRealityStreamSettings_fromJson (json ''realitySettings'');
     tcpSettings \<leftarrow> OutTcpStreamSettings_fromJson (json ''tcpSettings'');
     kcpSettings \<leftarrow> OutKcpStreamSettings_fromJson (json ''kcpSettings'');
     wsSettings \<leftarrow> OutWsStreamSettings_fromJson (json ''wsSettings'');
     grpcSettings \<leftarrow> OutGrpcStreamSettings_fromJson (json ''grpcSettings'');
     httpupgradeSettings \<leftarrow> OutHttpUpgradeStreamSettings_fromJson (json ''httpupgradeSettings'');
     xhttpSettings \<leftarrow> OutxHTTPStreamSettings_fromJson (json ''xhttpSettings'');
     hysteriaSettings \<leftarrow> OutHysteriaStreamSettings_fromJson (json ''hysteriaSettings'');
     finalmask \<leftarrow> OutFinalMask_fromJson (json ''finalmask'');
     sockopt \<leftarrow> OutSockoptStreamSettings_fromJson (json ''sockopt'');
     Some (OutStreamSettings_new (json ''network'') (json ''security'')
       tlsSettings realitySettings tcpSettings kcpSettings wsSettings grpcSettings
       httpupgradeSettings xhttpSettings hysteriaSettings finalmask sockopt) }"

definition OutStreamSettings_toJson :: "OutStreamSettings \<Rightarrow> jsval option" where
  "OutStreamSettings_toJson this = do {
     tlsSettings \<leftarrow> (if loosely (os_security this) ''tls'' then Some (OutTlsStreamSettings_toJson (os_tls this))
       else Some JUndef);
     realitySettings \<leftarrow> (if loosely (os_security this) ''reality'' then Some (OutRealityStreamSettings_toJson (os_reality this))
       else Some JUndef);
     tcpSettings \<leftarrow> (if os_network this = JStr ''tcp'' then OutTcpStreamSettings_toJson (os_tcp this)
       else Some JUndef);
     kcpSettings \<leftarrow> (if os_network this = JStr ''kcp'' then Some (OutKcpStreamSettings_toJson (os_kcp this))
       else Some JUndef);
     wsSettings \<leftarrow> (if os_network this = JStr ''ws'' then Some (OutWsStreamSettings_toJson (os_ws this))
       else Some JUndef);
     grpcSettings \<leftarrow> (if os_network this = JStr ''grpc'' then Some (OutGrpcStreamSettings_toJson (os_grpc this))
       else Some JUndef);
     httpupgradeSettings \<leftarrow> (if os_network this = JStr ''httpupgrade'' then Some (OutHttpUpgradeStreamSettings_toJson (os_httpupgrade this))
       else Some JUndef);
     xhttpSettings \<leftarrow> (if os_network this = JStr ''xhttp'' then OutxHTTPStreamSettings_toJson (os_xhttp this)
       else Some JUndef);
     hysteriaSettings \<leftarrow> (if os_network this = JStr ''hysteria'' then Some (OutHysteriaStreamSettings_toJson (os_hysteria this))
       else Some JUndef);
     finalmask \<leftarrow> (if out_hasFinalMask this then Some (OutFinalMask_toJson (os_finalmask this))
       else Some JUndef);
     Some (JObj
      [(''network'', os_network this), (''security'', os_security this),
       (''tlsSettings'', tlsSettings),
       (''realitySettings'', realitySettings),
       (''tcpSettings'', tcpSettings),
       (''kcpSettings'', kcpSettings),
       (''wsSettings'', wsSettings),
       (''grpcSettings'', grpcSettings),
       (''httpupgradeSettings'', httpupgradeSettings),
       (''xhttpSettings'', xhttpSettings),
       (''hysteriaSettings'', hysteriaSettings),
       (''finalmask'', finalmask),
       (''sockopt'', out_sockopt_toJson (os_sockopt this))]) }"

definition OutStreamSettings_ok :: "OutStreamSettings \<Rightarrow> bool" where
  "OutStreamSettings_ok x \<longleftrightarrow> json_ok (os_network x) \<and> json_ok (os_security x)
     \<and> OutTlsStreamSettings_ok (os_tls x)
     \<and> OutRealityStreamSettings_ok (os_reality x)
     \<and> OutTcpStreamSettings_ok (os_tcp x)
     \<and> OutKcpStreamSettings_ok (os_kcp x)
     \<and> OutWsStreamSettings_ok (os_ws x)
     \<and> OutGrpcStreamSettings_ok (os_grpc x)
     \<and> OutHttpUpgradeStreamSettings_ok (os_httpupgrade x)
     \<and> OutxHTTPStreamSettings_ok (os_xhttp x)
     \<and> OutHysteriaStreamSettings_ok (os_hysteria x)
     \<and> OutFinalMask_ok (os_finalmask x)
     \<and> out_sockopt_ok (os_sockopt x)"

definition out_stream_doc :: "jsval \<Rightarrow> bool" where
  "out_stream_doc j \<longleftrightarrow> clean j \<and> out_hysteria_doc (mget j ''hysteriaSettings'')
     \<and> finalmask_doc (mget j ''finalmask'')"

lemma OutStreamSettings_dec_ok:
  assumes doc: "out_stream_doc j" and dec: "OutStreamSettings_fromJson j = Some x"
  shows "OutStreamSettings_ok x"
proof -
  obtain json tlsSettings realitySettings tcpSettings kcpSettings wsSettings grpcSettings httpupgradeSettings xhttpSettings hysteriaSettings finalmask sockopt
    where json: "members (dflt emptyObj j) = Some json"
      and tlsSettings: "OutTlsStreamSettings_fromJson (json ''tlsSettings'') = Some tlsSettings"
      and realitySettings: "OutRealityStreamSettings_fromJson (json ''realitySettings'') = Some realitySettings"
      and tcpSettings: "OutTcpStreamSettings_fromJson (json ''tcpSettings'') = Some tcpSettings"
      and kcpSettings: "OutKcpStreamSettings_fromJson (json ''kcpSettings'') = Some kcpSettings"
      and wsSettings: "OutWsStreamSettings_fromJson (json ''wsSettings'') = Some wsSettings"
      and grpcSettings: "OutGrpcStreamSettings_fromJson (json ''grpcSettings'') = Some grpcSettings"
      and httpupgradeSettings: "OutHttpUpgradeStreamSettings_fromJson (json ''httpupgradeSettings'') = Some httpupgradeSettings"
      and xhttpSettings: "OutxHTTPStreamSettings_fromJson (json ''xhttpSettings'') = Some xhttpSettings"
      and hysteriaSettings: "OutHysteriaStreamSettings_fromJson (json ''hysteriaSettings'') = Some hysteriaSettings"
      and finalmask: "OutFinalMask_fromJson (json ''finalmask'') = Some finalmask"
      and sockopt: "OutSockoptStreamSettings_fromJson (json ''sockopt'') = Some sockopt"
      and x: "OutStreamSettings_new (json ''network'') (json ''security'')
       tlsSettings realitySettings tcpSettings kcpSettings wsSettings grpcSettings
       httpupgradeSettings xhttpSettings hysteriaSettings finalmask sockopt = x"
    using dec unfolding OutStreamSettings_fromJson_def bind_eq_Some_conv option.inject by blast
  have cl: "clean (json k)" for k
    by (rule clean_member [OF json]) (use doc in \<open>simp add: out_stream_doc_def\<close>)
  have own: "out_hysteria_doc (json ''hysteriaSettings'')" "finalmask_doc (json ''finalmask'')"
    using doc by (simp_all add: out_stream_doc_def mget_members [OF json])
  show ?thesis unfolding x [symmetric]
    using out_tls.dec_ok [OF cl tlsSettings]
      out_reality.dec_ok [OF cl realitySettings]
      out_tcp.dec_ok [OF cl tcpSettings]
      out_kcp.dec_ok [OF cl kcpSettings]
      out_ws.dec_ok [OF cl wsSettings]
      out_grpc.dec_ok [OF cl grpcSettings]
      out_httpupgrade.dec_ok [OF cl httpupgradeSettings]
      out_xhttp.dec_ok [OF cl xhttpSettings]
      out_hysteria.dec_ok [OF own(1) hysteriaSettings]
      out_finalmask.dec_ok [OF own(2) finalmask]
      out_sockopt.dec_ok [OF cl sockopt]
    by (simp add: OutStreamSettings_new_def OutStreamSettings_ok_def json_ok_dflt cl)
qed

text \<open>The mask object is written exactly when it has a mask, so the reloaded one is.\<close>

lemma out_masks_written:
  "wire (OutFinalMask_toJson m) = emptyObj \<longleftrightarrow> fm_tcp m = [] \<and> fm_udp m = [] \<and> fm_quicParams m = None"
  by (auto simp: OutFinalMask_toJson_def masks_toJson_def prop_if_def wire_props_append
      QuicParams_toJson_def split: option.splits)

lemma out_masks_absent:
  "OutFinalMask_fromJson JUndef = Some \<lparr>fm_tcp = [], fm_udp = [], fm_quicParams = None\<rparr>"
  by (simp add: OutFinalMask_fromJson_def masks_fromJson_def masks_new_def js_or_def dflt_def)

lemma out_hasFinalMask_again:
  assumes "(if out_hasFinalMask x then Some (OutFinalMask_toJson (os_finalmask x)) else Some JUndef) = Some f"
    "OutFinalMask_fromJson (wire f) = Some m"
    "(if out_hasFinalMask x then Some (OutFinalMask_toJson m) else Some JUndef) = Some k" "wire k = wire f"
    "os_finalmask y = m"
  shows "out_hasFinalMask y = out_hasFinalMask x"
  using assms out_masks_written [of m] out_masks_written [of "os_finalmask x"]
  by (auto simp: out_hasFinalMask_def out_masks_absent split: if_splits)

lemma OutStreamSettings_view:
  assumes ok: "OutStreamSettings_ok x" and enc: "OutStreamSettings_toJson x = Some j"
  shows "\<exists>y. OutStreamSettings_fromJson (wire j) = Some y \<and> OutStreamSettings_ok y
    \<and> map_option wire (OutStreamSettings_toJson y) = Some (wire j)"
proof -
  note oks = ok [unfolded OutStreamSettings_ok_def]
  obtain j0 j1 j2 j3 j4 j5 j6 j7 j8 j9
    where j0: "(if loosely (os_security x) ''tls'' then Some (OutTlsStreamSettings_toJson (os_tls x)) else Some JUndef) = Some j0"
      and j1: "(if loosely (os_security x) ''reality'' then Some (OutRealityStreamSettings_toJson (os_reality x)) else Some JUndef) = Some j1"
      and j2: "(if os_network x = JStr ''tcp'' then OutTcpStreamSettings_toJson (os_tcp x) else Some JUndef) = Some j2"
      and j3: "(if os_network x = JStr ''kcp'' then Some (OutKcpStreamSettings_toJson (os_kcp x)) else Some JUndef) = Some j3"
      and j4: "(if os_network x = JStr ''ws'' then Some (OutWsStreamSettings_toJson (os_ws x)) else Some JUndef) = Some j4"
      and j5: "(if os_network x = JStr ''grpc'' then Some (OutGrpcStreamSettings_toJson (os_grpc x)) else Some JUndef) = Some j5"
      and j6: "(if os_network x = JStr ''httpupgrade'' then Some (OutHttpUpgradeStreamSettings_toJson (os_httpupgrade x)) else Some JUndef) = Some j6"
      and j7: "(if os_network x = JStr ''xhttp'' then OutxHTTPStreamSettings_toJson (os_xhttp x) else Some JUndef) = Some j7"
      and j8: "(if os_network x = JStr ''hysteria'' then Some (OutHysteriaStreamSettings_toJson (os_hysteria x)) else Some JUndef) = Some j8"
      and j9: "(if out_hasFinalMask x then Some (OutFinalMask_toJson (os_finalmask x)) else Some JUndef) = Some j9"
      and j: "j = JObj
      [(''network'', os_network x), (''security'', os_security x),
       (''tlsSettings'', j0),
       (''realitySettings'', j1),
       (''tcpSettings'', j2),
       (''kcpSettings'', j3),
       (''wsSettings'', j4),
       (''grpcSettings'', j5),
       (''httpupgradeSettings'', j6),
       (''xhttpSettings'', j7),
       (''hysteriaSettings'', j8),
       (''finalmask'', j9),
       (''sockopt'', out_sockopt_toJson (os_sockopt x))]"
    using enc unfolding OutStreamSettings_toJson_def bind_eq_Some_conv by blast
  obtain y0 k0 where y0: "OutTlsStreamSettings_fromJson (wire j0) = Some y0" "OutTlsStreamSettings_ok y0"
    "(if loosely (os_security x) ''tls'' then Some (OutTlsStreamSettings_toJson y0) else Some JUndef) = Some k0" "wire k0 = wire j0"
    using out_tls_field.selected_again [OF _ j0] oks by blast
  obtain y1 k1 where y1: "OutRealityStreamSettings_fromJson (wire j1) = Some y1" "OutRealityStreamSettings_ok y1"
    "(if loosely (os_security x) ''reality'' then Some (OutRealityStreamSettings_toJson y1) else Some JUndef) = Some k1" "wire k1 = wire j1"
    using out_reality_field.selected_again [OF _ j1] oks by blast
  obtain y2 k2 where y2: "OutTcpStreamSettings_fromJson (wire j2) = Some y2" "OutTcpStreamSettings_ok y2"
    "(if os_network x = JStr ''tcp'' then OutTcpStreamSettings_toJson y2 else Some JUndef) = Some k2" "wire k2 = wire j2"
    using out_tcp.selected_again [OF _ j2] oks by blast
  obtain y3 k3 where y3: "OutKcpStreamSettings_fromJson (wire j3) = Some y3" "OutKcpStreamSettings_ok y3"
    "(if os_network x = JStr ''kcp'' then Some (OutKcpStreamSettings_toJson y3) else Some JUndef) = Some k3" "wire k3 = wire j3"
    using out_kcp_field.selected_again [OF _ j3] oks by blast
  obtain y4 k4 where y4: "OutWsStreamSettings_fromJson (wire j4) = Some y4" "OutWsStreamSettings_ok y4"
    "(if os_network x = JStr ''ws'' then Some (OutWsStreamSettings_toJson y4) else Some JUndef) = Some k4" "wire k4 = wire j4"
    using out_ws_field.selected_again [OF _ j4] oks by blast
  obtain y5 k5 where y5: "OutGrpcStreamSettings_fromJson (wire j5) = Some y5" "OutGrpcStreamSettings_ok y5"
    "(if os_network x = JStr ''grpc'' then Some (OutGrpcStreamSettings_toJson y5) else Some JUndef) = Some k5" "wire k5 = wire j5"
    using out_grpc_field.selected_again [OF _ j5] oks by blast
  obtain y6 k6 where y6: "OutHttpUpgradeStreamSettings_fromJson (wire j6) = Some y6" "OutHttpUpgradeStreamSettings_ok y6"
    "(if os_network x = JStr ''httpupgrade'' then Some (OutHttpUpgradeStreamSettings_toJson y6) else Some JUndef) = Some k6" "wire k6 = wire j6"
    using out_httpupgrade_field.selected_again [OF _ j6] oks by blast
  obtain y7 k7 where y7: "OutxHTTPStreamSettings_fromJson (wire j7) = Some y7" "OutxHTTPStreamSettings_ok y7"
    "(if os_network x = JStr ''xhttp'' then OutxHTTPStreamSettings_toJson y7 else Some JUndef) = Some k7" "wire k7 = wire j7"
    using out_xhttp.selected_again [OF _ j7] oks by blast
  obtain y8 k8 where y8: "OutHysteriaStreamSettings_fromJson (wire j8) = Some y8" "OutHysteriaStreamSettings_ok y8"
    "(if os_network x = JStr ''hysteria'' then Some (OutHysteriaStreamSettings_toJson y8) else Some JUndef) = Some k8" "wire k8 = wire j8"
    using out_hysteria.selected_again [OF _ j8] oks by blast
  obtain y9 k9 where y9: "OutFinalMask_fromJson (wire j9) = Some y9" "OutFinalMask_ok y9"
    "(if out_hasFinalMask x then Some (OutFinalMask_toJson y9) else Some JUndef) = Some k9" "wire k9 = wire j9"
    using out_finalmask.selected_again [OF _ j9] oks by blast
  obtain s where s: "OutSockoptStreamSettings_fromJson (wire (out_sockopt_toJson (os_sockopt x))) = Some s"
    "out_sockopt_ok s" "wire (out_sockopt_toJson s) = wire (out_sockopt_toJson (os_sockopt x))"
    using out_sockopt.view [of "os_sockopt x"] oks by auto
  let ?y = "\<lparr>os_network = os_network x, os_security = os_security x, os_tls = y0, os_reality = y1, os_tcp = y2, os_kcp = y3
    , os_ws = y4, os_grpc = y5, os_httpupgrade = y6, os_xhttp = y7
    , os_hysteria = y8, os_finalmask = y9,
    os_sockopt = s, os_undeclared = []\<rparr>"
  have dec: "OutStreamSettings_fromJson (wire j) = Some ?y"
    unfolding OutStreamSettings_fromJson_def j
    by (subst members_wire, simp) (use oks in \<open>simp add: y0(1) y1(1) y2(1) y3(1) y4(1) y5(1) y6(1) y7(1) y8(1) y9(1) s(1) OutStreamSettings_new_def\<close>)
  have again: "out_hasFinalMask ?y = out_hasFinalMask x"
    by (rule out_hasFinalMask_again [OF j9 y9(1,3,4)]) simp
  have "OutStreamSettings_toJson ?y = Some (JObj
      [(''network'', os_network x), (''security'', os_security x),
       (''tlsSettings'', k0),
       (''realitySettings'', k1),
       (''tcpSettings'', k2),
       (''kcpSettings'', k3),
       (''wsSettings'', k4),
       (''grpcSettings'', k5),
       (''httpupgradeSettings'', k6),
       (''xhttpSettings'', k7),
       (''hysteriaSettings'', k8),
       (''finalmask'', k9),
       (''sockopt'', out_sockopt_toJson s)])"
    unfolding OutStreamSettings_toJson_def again
    by (simp add: y0(3) y1(3) y2(3) y3(3) y4(3) y5(3) y6(3) y7(3) y8(3) y9(3) split del: if_split cong: if_cong)
  moreover have "wire (JObj
      [(''network'', os_network x), (''security'', os_security x),
       (''tlsSettings'', k0),
       (''realitySettings'', k1),
       (''tcpSettings'', k2),
       (''kcpSettings'', k3),
       (''wsSettings'', k4),
       (''grpcSettings'', k5),
       (''httpupgradeSettings'', k6),
       (''xhttpSettings'', k7),
       (''hysteriaSettings'', k8),
       (''finalmask'', k9),
       (''sockopt'', out_sockopt_toJson s)]) = wire j"
    unfolding j wire.simps by (rule arg_cong [where f = JObj], rule wire_props_cong)
      (simp add: y0(4) y1(4) y2(4) y3(4) y4(4) y5(4) y6(4) y7(4) y8(4) y9(4) s(3))
  moreover have "OutStreamSettings_ok ?y"
    using oks by (simp add: OutStreamSettings_ok_def y0(2) y1(2) y2(2) y3(2) y4(2) y5(2) y6(2) y7(2) y8(2) y9(2) s(2))
  ultimately show ?thesis using dec by simp
qed

lemma OutStreamSettings_absent: "OutStreamSettings_fromJson JUndef \<noteq> None" "out_stream_doc JUndef"
  using out_tls_field.absent(2)
    out_reality_field.absent(2)
    out_tcp.absent(2)
    out_kcp_field.absent(2)
    out_ws_field.absent(2)
    out_grpc_field.absent(2)
    out_httpupgrade_field.absent(2)
    out_xhttp.absent(2)
    out_hysteria.absent(2)
    out_finalmask.absent(2) out_sockopt.absent(2)
  by (auto simp: OutStreamSettings_fromJson_def out_stream_doc_def out_hysteria_doc_def finalmask_doc_def)

interpretation out_stream: json_optional OutStreamSettings_toJson OutStreamSettings_fromJson
  OutStreamSettings_ok out_stream_doc
  by unfold_locales
    (rule OutStreamSettings_dec_ok OutStreamSettings_view OutStreamSettings_absent; assumption?)+

end
