(* ===== verification/Outbound_Dns.thy ===== *)
theory Outbound_Dns
  imports Json_Codec Object_Util
begin

text \<open>
  The DNS outbound (\<open>web/assets/js/model/outbound.js\<close>): the rules, the normalisation of their
  fields, and the upgrade of documents from before the rules, which had the two members
  \<open>nonIPQuery\<close> and \<open>blockTypes\<close>.
\<close>

section \<open>Trimmed texts\<close>

lemma set_js_trim: "set (js_trim s) \<subseteq> set s"
  using set_dropWhileD [of _ is_space] unfolding js_trim_def by (fastforce dest: set_dropWhileD)

definition no_outer_space :: "string \<Rightarrow> bool" where
  "no_outer_space s \<longleftrightarrow> s = [] \<or> \<not> is_space (hd s) \<and> \<not> is_space (last s)"

lemma hd_dropWhile_not: "dropWhile P s \<noteq> [] \<Longrightarrow> \<not> P (hd (dropWhile P s))"
  by (induction s) auto

lemma last_dropWhile: "dropWhile P s \<noteq> [] \<Longrightarrow> last (dropWhile P s) = last s"
  by (induction s) auto

lemma dropWhile_id: "s = [] \<or> \<not> P (hd s) \<Longrightarrow> dropWhile P s = s"
  by (cases s) auto

lemma trimmed_js_trim: "no_outer_space (js_trim s)"
proof -
  let ?d = "dropWhile is_space s"
  let ?e = "dropWhile is_space (rev ?d)"
  have "\<not> is_space (hd ?e)" "\<not> is_space (last ?e)" if "?e \<noteq> []"
  proof -
    show "\<not> is_space (hd ?e)" by (rule hd_dropWhile_not [OF that])
    have "?d \<noteq> []" using that by (metis dropWhile.simps(1) rev.simps(1))
    then show "\<not> is_space (last ?e)"
      unfolding last_dropWhile [OF that] using hd_dropWhile_not [of is_space s] by (metis last_rev)
  qed
  then show ?thesis by (cases "?e = []") (simp_all add: no_outer_space_def js_trim_def hd_rev last_rev del: dropWhile_eq_Nil_conv)
qed

lemma js_trim_trimmed: "no_outer_space s \<Longrightarrow> js_trim s = s"
  by (auto simp: no_outer_space_def js_trim_def dropWhile_id hd_rev)

lemma js_trim_idem: "js_trim (js_trim s) = js_trim s"
  by (rule js_trim_trimmed [OF trimmed_js_trim])

lemma js_join_nonempty: "\<lbrakk>ps \<noteq> []; \<forall>p \<in> set ps. p \<noteq> []\<rbrakk> \<Longrightarrow>
   js_join sep ps \<noteq> [] \<and> hd (js_join sep ps) = hd (hd ps) \<and> last (js_join sep ps) = last (last ps)"
  by (induction sep ps rule: js_join.induct) auto

lemma trimmed_join:
  assumes "\<forall>p \<in> set ps. p \<noteq> [] \<and> no_outer_space p"
  shows "no_outer_space (js_join sep ps)"
proof (cases "ps = []")
  case False
  then have "hd ps \<in> set ps" "last ps \<in> set ps" by simp_all
  with assms have "hd ps \<noteq> []" "last ps \<noteq> []" "no_outer_space (hd ps)" "no_outer_space (last ps)" by blast+
  with js_join_nonempty [OF False, of sep] assms show ?thesis by (auto simp: no_outer_space_def)
qed (simp add: no_outer_space_def)

lemma digits_trimmed: "list_all is_digit s \<Longrightarrow> no_outer_space s"
proof -
  assume d: "list_all is_digit s"
  have "\<not> is_space c" if "is_digit c" for c
    using that by (auto simp: is_digit_def is_space_def)
  with d show ?thesis by (cases "s = []") (auto simp: no_outer_space_def list_all_iff)
qed

section \<open>Fields and actions of a rule\<close>

definition DNSRuleActions :: "string list" where
  "DNSRuleActions = [''direct'', ''drop'', ''reject'', ''hijack'']"

text \<open>\<open>item.toString().trim()\<close> throws on \<open>null\<close>.\<close>

definition item_text :: "jsval \<Rightarrow> string option" where
  "item_text v = (if nullish v then None else Some (js_trim (js_str v)))"

definition normalizeDNSRuleField :: "jsval \<Rightarrow> string option" where
  "normalizeDNSRuleField value =
     (if nullish value then Some []
      else case value of
        JArr items \<Rightarrow> map_option (\<lambda>ss. js_join '','' (filter (\<lambda>s. s \<noteq> []) ss)) (traverse item_text items)
      | _ \<Rightarrow> Some (js_trim (js_str value)))"

definition normalizeDNSRuleAction :: "jsval \<Rightarrow> string" where
  "normalizeDNSRuleAction action =
     (let action = (if isEmpty action then ''direct'' else js_trim (js_lower (js_str action)))
      in if action \<in> set DNSRuleActions then action else ''direct'')"

lemma normalizeDNSRuleField_trimmed: "normalizeDNSRuleField v = Some s \<Longrightarrow> no_outer_space s"
proof -
  assume n: "normalizeDNSRuleField v = Some s"
  have items: "\<forall>t \<in> set ss. no_outer_space t" if "traverse item_text xs = Some ss" for xs ss
    by (rule traverse_all [OF that]) (auto simp: item_text_def trimmed_js_trim split: if_splits)
  show ?thesis
    using n items
    by (cases v) (auto simp: normalizeDNSRuleField_def nullish_def trimmed_js_trim no_outer_space_def [of "[]"]
        intro!: trimmed_join)
qed

lemma normalizeDNSRuleField_text: "no_outer_space s \<Longrightarrow> normalizeDNSRuleField (JStr s) = Some s"
  by (simp add: normalizeDNSRuleField_def nullish_def js_trim_trimmed)

lemma normalizeDNSRuleAction_known: "normalizeDNSRuleAction v \<in> set DNSRuleActions"
  by (simp add: normalizeDNSRuleAction_def DNSRuleActions_def Let_def)

lemma known_action: "a \<in> set DNSRuleActions \<Longrightarrow> normalizeDNSRuleAction (JStr a) = a"
  by (auto simp: DNSRuleActions_def normalizeDNSRuleAction_def isEmpty_def js_lower_def lower_char_def
      js_trim_def is_space_def)

lemma normalizeDNSRuleAction_idem: "normalizeDNSRuleAction (JStr (normalizeDNSRuleAction v)) = normalizeDNSRuleAction v"
  by (rule known_action [OF normalizeDNSRuleAction_known])

section \<open>Rules\<close>

record DNSRule =
  dr_action :: jsval
  dr_qtype :: jsval
  dr_domain :: jsval

definition DNSRule_new :: "jsval \<Rightarrow> jsval \<Rightarrow> jsval \<Rightarrow> DNSRule" where
  "DNSRule_new action qtype domain =
     \<lparr>dr_action = dflt (JStr ''direct'') action, dr_qtype = dflt (JStr []) qtype,
       dr_domain = dflt (JStr []) domain\<rparr>"

definition DNSRule_fromJson :: "jsval \<Rightarrow> DNSRule option" where
  "DNSRule_fromJson json0 = do {
     json \<leftarrow> members (dflt emptyObj json0);
     qtype \<leftarrow> normalizeDNSRuleField (json ''qtype'');
     domain \<leftarrow> normalizeDNSRuleField (json ''domain'');
     Some (DNSRule_new (json ''action'') (JStr qtype) (JStr domain)) }"

text \<open>\<open>/^\d+$/\<close>.\<close>

definition all_digits :: "string \<Rightarrow> bool" where
  "all_digits s \<longleftrightarrow> s \<noteq> [] \<and> list_all is_digit s"

definition rule_qtype :: "string \<Rightarrow> jsval" where
  "rule_qtype q = (if all_digits q then JNum (int (nat_of_digits q)) else JStr q)"

definition rule_domains :: "string \<Rightarrow> string list" where
  "rule_domains s = filter (\<lambda>d. d \<noteq> []) (map js_trim (js_split (CHR '','') s))"

definition DNSRule_toJson :: "DNSRule \<Rightarrow> jsval option" where
  "DNSRule_toJson this = do {
     qtype \<leftarrow> normalizeDNSRuleField (dr_qtype this);
     domain \<leftarrow> normalizeDNSRuleField (dr_domain this);
     let domains = rule_domains domain;
     Some (JObj ([(''action'', JStr (normalizeDNSRuleAction (dr_action this)))]
       @ prop_if (qtype \<noteq> []) ''qtype'' (rule_qtype qtype)
       @ prop_if (domains \<noteq> []) ''domain'' (JArr (map JStr domains)))) }"

lemma rule_domains_pieces: "d \<in> set (rule_domains s) \<Longrightarrow> d \<noteq> [] \<and> no_outer_space d \<and> CHR '','' \<notin> set d"
proof -
  assume "d \<in> set (rule_domains s)"
  then obtain p where p: "p \<in> set (js_split (CHR '','') s)" "d = js_trim p" "d \<noteq> []"
    by (auto simp: rule_domains_def)
  with set_js_trim [of p] js_split_free [OF p(1)] show ?thesis by (auto simp: trimmed_js_trim)
qed

lemma rule_domains_join: "rule_domains (js_join '','' (rule_domains s)) = rule_domains s"
proof (cases "rule_domains s = []")
  case True
  then show ?thesis by (simp add: rule_domains_def js_trim_def)
next
  case False
  then have "js_split (CHR '','') (js_join '','' (rule_domains s)) = rule_domains s"
    using rule_domains_pieces by (intro js_split_join) blast+
  moreover have "map js_trim (rule_domains s) = rule_domains s" "filter (\<lambda>d. d \<noteq> []) (rule_domains s) = rule_domains s"
    using rule_domains_pieces by (auto intro: map_idI js_trim_trimmed simp: filter_id_conv)
  ultimately show ?thesis by (simp add: rule_domains_def [of "js_join _ _"])
qed

lemma normalize_domains:
  "normalizeDNSRuleField (JArr (map JStr (rule_domains s))) = Some (js_join '','' (rule_domains s))"
proof -
  have "traverse item_text (map JStr ds) = Some (map js_trim ds)" for ds
    by (induction ds) (simp_all add: item_text_def nullish_def)
  moreover have "map js_trim (rule_domains s) = rule_domains s" "filter (\<lambda>d. d \<noteq> []) (rule_domains s) = rule_domains s"
    using rule_domains_pieces by (auto intro: map_idI js_trim_trimmed simp: filter_id_conv)
  ultimately show ?thesis by (simp add: normalizeDNSRuleField_def nullish_def)
qed

lemma join_trimmed: "no_outer_space (js_join '','' (rule_domains s))"
  using rule_domains_pieces by (intro trimmed_join) blast

text \<open>The text of a saved query type, read and written again.\<close>

lemma rule_qtype_again:
  assumes "no_outer_space q"
  obtains r where "normalizeDNSRuleField (rule_qtype q) = Some r" "no_outer_space r" "rule_qtype r = rule_qtype q"
    "r = [] \<longleftrightarrow> q = []" "rule_qtype q \<noteq> JUndef" "wire (rule_qtype q) = rule_qtype q"
proof (cases "all_digits q")
  case True
  let ?n = "nat_of_digits q"
  have d: "list_all is_digit (nat_str ?n)" using nat_str_digits [of ?n] by (simp add: list_all_iff)
  show thesis
    using True d nat_str_nonempty [of ?n]
    by (intro that [of "nat_str ?n"])
      (simp_all add: rule_qtype_def normalizeDNSRuleField_def nullish_def int_str_def js_trim_trimmed
        digits_trimmed all_digits_def nat_of_digits_nat_str)
next
  case False
  with assms show thesis
    by (intro that [of q]) (simp_all add: rule_qtype_def normalizeDNSRuleField_text)
qed

text \<open>A saved rule reads back as a rule that saves the same, whatever the form holds.\<close>

lemma DNSRule_view:
  assumes "DNSRule_toJson x = Some j"
  shows "\<exists>y. DNSRule_fromJson (wire j) = Some y \<and> map_option wire (DNSRule_toJson y) = Some (wire j)"
proof -
  obtain q d where q: "normalizeDNSRuleField (dr_qtype x) = Some q" and d: "normalizeDNSRuleField (dr_domain x) = Some d"
    and j: "j = JObj ([(''action'', JStr (normalizeDNSRuleAction (dr_action x)))]
       @ prop_if (q \<noteq> []) ''qtype'' (rule_qtype q)
       @ prop_if (rule_domains d \<noteq> []) ''domain'' (JArr (map JStr (rule_domains d))))"
    using assms by (auto simp: DNSRule_toJson_def bind_eq_Some_conv Let_def)
  obtain r where r: "normalizeDNSRuleField (rule_qtype q) = Some r" "no_outer_space r" "rule_qtype r = rule_qtype q"
    "r = [] \<longleftrightarrow> q = []" "rule_qtype q \<noteq> JUndef" "wire (rule_qtype q) = rule_qtype q"
    using rule_qtype_again [OF normalizeDNSRuleField_trimmed [OF q]] by blast
  let ?d = "js_join '','' (rule_domains d)"
  let ?y = "\<lparr>dr_action = JStr (normalizeDNSRuleAction (dr_action x)), dr_qtype = JStr r, dr_domain = JStr ?d\<rparr>"
  have items: "wire_items (map JStr ss) = map JStr ss" for ss by (induction ss) auto
  have w: "wire j = j" using r(5,6) by (simp add: j wire_props_append wire_prop_if items)
  have "oget (tl (case j of JObj ps \<Rightarrow> ps)) k
      = (if k = ''qtype'' \<and> q \<noteq> [] then rule_qtype q
         else if k = ''domain'' \<and> rule_domains d \<noteq> [] then JArr (map JStr (rule_domains d)) else JUndef)" for k
    by (auto simp: j oget_prop_if oget_prop_if_end)
  then have get: "members (dflt emptyObj (wire j)) = Some (\<lambda>k. if k = ''action'' then JStr (normalizeDNSRuleAction (dr_action x))
      else if k = ''qtype'' \<and> q \<noteq> [] then rule_qtype q
      else if k = ''domain'' \<and> rule_domains d \<noteq> [] then JArr (map JStr (rule_domains d)) else JUndef)"
    unfolding w by (simp add: j fun_eq_iff)
  have n: "normalizeDNSRuleField JUndef = Some []" by (simp add: normalizeDNSRuleField_def nullish_def)
  have "DNSRule_fromJson (wire j) = Some ?y"
    unfolding DNSRule_fromJson_def get
    using r(1,4) normalize_domains [of d] n
    by (cases "q = []"; cases "rule_domains d = []") (auto simp: DNSRule_new_def dflt_def)
  moreover have "DNSRule_toJson ?y = Some j"
    using r(2-4) join_trimmed [of d]
    by (simp add: DNSRule_toJson_def normalizeDNSRuleField_text normalizeDNSRuleAction_idem
        rule_domains_join j Let_def)
  ultimately show ?thesis by auto
qed

interpretation dns_rule: json_view DNSRule_toJson DNSRule_fromJson "\<lambda>x. True" "\<lambda>j. True"
  by unfold_locales (auto dest: DNSRule_view)

section \<open>Documents from before the rules\<close>

definition valid_type :: "int \<Rightarrow> bool" where
  "valid_type n \<longleftrightarrow> 0 \<le> n \<and> n \<le> 65535"

definition parseLegacyDNSBlockTypes :: "jsval \<Rightarrow> int list" where
  "parseLegacyDNSBlockTypes blockTypes =
     (if nullish blockTypes \<or> blockTypes = JStr [] then []
      else case blockTypes of
        JArr items \<Rightarrow> filter valid_type (List.map_filter js_number items)
      | JNum n \<Rightarrow> (if valid_type n then [n] else [])
      | v \<Rightarrow> filter valid_type (map (\<lambda>item. int (nat_of_digits item))
          (filter all_digits (map js_trim (js_split (CHR '','') (js_str v))))))"

definition dns_rule_of :: "string \<Rightarrow> string \<Rightarrow> DNSRule" where
  "dns_rule_of action qtype = DNSRule_new (JStr action) (JStr qtype) JUndef"

definition legacy_mode :: "jsval \<Rightarrow> string" where
  "legacy_mode nonIPQuery =
     (case nonIPQuery of JStr s \<Rightarrow> if s \<in> {''reject'', ''drop'', ''skip''} then s else ''reject'' | _ \<Rightarrow> ''reject'')"

definition buildLegacyDNSRules :: "jsval \<Rightarrow> jsval \<Rightarrow> DNSRule list" where
  "buildLegacyDNSRules nonIPQuery blockTypes =
     (let mode = legacy_mode nonIPQuery; parsedBlockTypes = parseLegacyDNSBlockTypes blockTypes in
      (if parsedBlockTypes \<noteq> []
       then [dns_rule_of (if mode = ''reject'' then ''reject'' else ''drop'') (js_join '','' (map int_str parsedBlockTypes))]
       else [])
      @ [dns_rule_of ''hijack'' ''1,28'', dns_rule_of (if mode = ''skip'' then ''direct'' else mode) []])"

definition getDNSRulesFromJson :: "jsval \<Rightarrow> DNSRule list option" where
  "getDNSRulesFromJson json0 = do {
     json \<leftarrow> members (dflt emptyObj json0);
     (case json ''rules'' of
        JArr (r # rs) \<Rightarrow> traverse DNSRule_fromJson (r # rs)
      | _ \<Rightarrow> Some (if json ''nonIPQuery'' \<noteq> JUndef \<or> json ''blockTypes'' \<noteq> JUndef
          then buildLegacyDNSRules (json ''nonIPQuery'') (json ''blockTypes'') else [])) }"

lemma legacy_types_valid: "\<forall>n \<in> set (parseLegacyDNSBlockTypes v). 0 \<le> n \<and> n \<le> 65535"
  by (cases v) (auto simp: parseLegacyDNSBlockTypes_def valid_type_def)

lemma legacy_mode_cases: "legacy_mode v \<in> {''reject'', ''drop'', ''skip''}"
  by (cases v) (auto simp: legacy_mode_def)

text \<open>A rule of the upgrade is in the form its own reader gives it.\<close>

lemma dns_rule_of_again:
  assumes "action \<in> set DNSRuleActions" "no_outer_space qtype" "\<not> all_digits qtype \<or> (\<exists>n. qtype = nat_str n)"
  shows "DNSRule_toJson (dns_rule_of action qtype) \<noteq> None
    \<and> (\<forall>j. DNSRule_toJson (dns_rule_of action qtype) = Some j \<longrightarrow> DNSRule_fromJson (wire j) = Some (dns_rule_of action qtype))"
proof -
  have a: "normalizeDNSRuleAction (JStr action) = action"
    by (rule known_action [OF assms(1)])
  have e: "no_outer_space []" "rule_domains [] = []" by (simp_all add: no_outer_space_def rule_domains_def js_trim_def)
  have n: "normalizeDNSRuleField JUndef = Some []" by (simp add: normalizeDNSRuleField_def nullish_def)
  have q: "normalizeDNSRuleField (rule_qtype qtype) = Some qtype"
  proof (cases "all_digits qtype")
    case True
    with assms(3) obtain m where "qtype = nat_str m" by auto
    with True assms(2) show ?thesis
      by (simp add: rule_qtype_def nat_of_digits_nat_str normalizeDNSRuleField_def nullish_def int_str_def js_trim_trimmed)
  qed (simp add: rule_qtype_def normalizeDNSRuleField_text assms(2))
  have "rule_qtype qtype \<noteq> JUndef" "wire (rule_qtype qtype) = rule_qtype qtype"
    by (simp_all add: rule_qtype_def)
  with a e n q assms(2) show ?thesis
    by (auto simp: dns_rule_of_def DNSRule_new_def DNSRule_toJson_def DNSRule_fromJson_def
        normalizeDNSRuleField_text prop_if_def dflt_def)
qed

lemma int_str_pieces: "0 \<le> n \<Longrightarrow> int_str n = nat_str (nat n)"
  by (simp add: int_str_def)

lemma js_join_map_nat:
  "\<lbrakk>ns \<noteq> []; \<forall>n \<in> set ns. 0 \<le> n\<rbrakk> \<Longrightarrow>
   let q = js_join '','' (map int_str ns) in no_outer_space q \<and> (\<not> all_digits q \<or> (\<exists>n. q = nat_str n))"
proof -
  assume ns: "ns \<noteq> []" "\<forall>n \<in> set ns. 0 \<le> n"
  have pieces: "\<forall>p \<in> set (map int_str ns). p \<noteq> [] \<and> no_outer_space p"
    using ns(2) nat_str_digits nat_str_nonempty by (auto simp: int_str_pieces list_all_iff intro!: digits_trimmed)
  have "\<not> all_digits (js_join '','' (map int_str ns))" if l: "length ns \<noteq> 1"
  proof -
    obtain a b ms where "ns = a # b # ms"
      using ns(1) l by (cases ns; cases "tl ns") auto
    moreover have "\<not> is_digit (CHR '','')" by (simp add: is_digit_def)
    ultimately show ?thesis by (simp add: all_digits_def)
  qed
  moreover have "\<exists>n. js_join '','' (map int_str ns) = nat_str n" if "length ns = 1"
    using that ns(2) by (cases ns) (auto simp: int_str_pieces)
  ultimately show ?thesis using trimmed_join [OF pieces] by (auto simp: Let_def)
qed

lemma legacy_rules_again:
  "r \<in> set (buildLegacyDNSRules nonIPQuery blockTypes) \<Longrightarrow>
   DNSRule_toJson r \<noteq> None \<and> (\<forall>j. DNSRule_toJson r = Some j \<longrightarrow> DNSRule_fromJson (wire j) = Some r)"
proof -
  assume r: "r \<in> set (buildLegacyDNSRules nonIPQuery blockTypes)"
  let ?ts = "parseLegacyDNSBlockTypes blockTypes"
  let ?q = "js_join '','' (map int_str ?ts)"
  have acts: "''direct'' \<in> set DNSRuleActions" "''drop'' \<in> set DNSRuleActions"
    "''reject'' \<in> set DNSRuleActions" "''hijack'' \<in> set DNSRuleActions"
    by (simp_all add: DNSRuleActions_def)
  have q: "?ts \<noteq> [] \<Longrightarrow> no_outer_space ?q \<and> (\<not> all_digits ?q \<or> (\<exists>n. ?q = nat_str n))"
    using js_join_map_nat [of ?ts] legacy_types_valid [of blockTypes] by (auto simp: Let_def)
  have c: "no_outer_space ''1,28''" "\<not> all_digits ''1,28''" "no_outer_space []" "\<not> all_digits []"
    by (simp_all add: no_outer_space_def all_digits_def is_digit_def is_space_def)
  have m: "(if legacy_mode nonIPQuery = ''skip'' then ''direct'' else legacy_mode nonIPQuery) \<in> set DNSRuleActions"
    "(if legacy_mode nonIPQuery = ''reject'' then ''reject'' else ''drop'') \<in> set DNSRuleActions"
    using legacy_mode_cases [of nonIPQuery] acts by auto
  have "\<exists>a q. r = dns_rule_of a q \<and> a \<in> set DNSRuleActions \<and> no_outer_space q \<and> (\<not> all_digits q \<or> (\<exists>n. q = nat_str n))"
    using r q c m acts(4) by (auto simp: buildLegacyDNSRules_def Let_def split: if_splits)
  then show ?thesis using dns_rule_of_again by blast
qed

section \<open>The settings\<close>

record OutDnsSettings =
  od_network :: jsval
  od_address :: jsval
  od_port :: jsval
  od_rules :: "DNSRule list"

definition OutDnsSettings_new :: "jsval \<Rightarrow> jsval \<Rightarrow> jsval \<Rightarrow> DNSRule list \<Rightarrow> OutDnsSettings" where
  "OutDnsSettings_new network address port rules =
     \<lparr>od_network = dflt (JStr ''udp'') network, od_address = dflt (JStr []) address,
       od_port = dflt (JNum 53) port, od_rules = rules\<rparr>"

definition addRule :: "jsval \<Rightarrow> OutDnsSettings \<Rightarrow> OutDnsSettings" where
  "addRule action this = this\<lparr>od_rules :=
     od_rules this @ [DNSRule_new (dflt (JStr ''direct'') action) JUndef JUndef]\<rparr>"

definition delRule :: "int \<Rightarrow> OutDnsSettings \<Rightarrow> OutDnsSettings" where
  "delRule index this = this\<lparr>od_rules := splice1 index (od_rules this)\<rparr>"

definition OutDnsSettings_fromJson :: "jsval \<Rightarrow> OutDnsSettings option" where
  "OutDnsSettings_fromJson json0 = do {
     json \<leftarrow> members (dflt emptyObj json0);
     rules \<leftarrow> getDNSRulesFromJson (dflt emptyObj json0);
     Some (OutDnsSettings_new (json ''network'') (json ''address'') (json ''port'') rules) }"

definition OutDnsSettings_toJson :: "OutDnsSettings \<Rightarrow> jsval option" where
  "OutDnsSettings_toJson this = do {
     rules \<leftarrow> traverse DNSRule_toJson (od_rules this);
     Some (JObj ([(''network'', od_network this), (''address'', od_address this), (''port'', od_port this)]
       @ prop_if (rules \<noteq> []) ''rules'' (JArr rules))) }"

definition OutDnsSettings_ok :: "OutDnsSettings \<Rightarrow> bool" where
  "OutDnsSettings_ok x \<longleftrightarrow> json_ok (od_network x) \<and> json_ok (od_address x) \<and> json_ok (od_port x)"

lemmas OutDnsSettings_defs = OutDnsSettings_new_def OutDnsSettings_fromJson_def
  OutDnsSettings_toJson_def OutDnsSettings_ok_def

lemma DNSRule_toJson_obj: "DNSRule_toJson r = Some j \<Longrightarrow> j \<noteq> JUndef"
  by (auto simp: DNSRule_toJson_def bind_eq_Some_conv Let_def)

lemma wire_items_rules: "traverse DNSRule_toJson rs = Some js \<Longrightarrow> wire_items js = map wire js"
  by (induction rs arbitrary: js) (auto simp: bind_eq_Some_conv dest: DNSRule_toJson_obj)

text \<open>Reading a saved document: its rules are the saved ones.\<close>

lemma OutDnsSettings_read_saved:
  assumes ok: "OutDnsSettings_ok x" and rs: "traverse DNSRule_toJson (od_rules x) = Some rs"
    and ys: "traverse DNSRule_fromJson (map wire rs) = Some ys"
  shows "\<exists>j. OutDnsSettings_toJson x = Some j \<and> OutDnsSettings_fromJson (wire j) = Some (x\<lparr>od_rules := ys\<rparr>)"
proof (cases rs)
  case Nil
  with assms show ?thesis
    by (auto simp: OutDnsSettings_defs getDNSRulesFromJson_def prop_if_def dflt_obj)
next
  case (Cons r rest)
  with assms wire_items_rules [OF rs] show ?thesis
    by (auto simp: OutDnsSettings_defs getDNSRulesFromJson_def prop_if_def bind_eq_Some_conv dflt_obj)
qed

interpretation out_dns: json_view OutDnsSettings_toJson OutDnsSettings_fromJson OutDnsSettings_ok clean
proof unfold_locales
  show "\<lbrakk>clean j; OutDnsSettings_fromJson j = Some x\<rbrakk> \<Longrightarrow> OutDnsSettings_ok x" for j x
    by (auto simp: OutDnsSettings_new_def OutDnsSettings_fromJson_def OutDnsSettings_ok_def bind_eq_Some_conv
        intro!: json_ok_dflt intro: clean_member)
next
  fix x j
  assume ok: "OutDnsSettings_ok x" and j: "OutDnsSettings_toJson x = Some j"
  then obtain rs where rs: "traverse DNSRule_toJson (od_rules x) = Some rs"
    by (auto simp: OutDnsSettings_toJson_def bind_eq_Some_conv)
  obtain ys where ys: "traverse DNSRule_fromJson (map wire rs) = Some ys"
    "map_option (map wire) (traverse DNSRule_toJson ys) = Some (map wire rs)"
    using dns_rule.view_list [OF _ rs] by auto
  then obtain ks where ks: "traverse DNSRule_toJson ys = Some ks" "map wire ks = map wire rs" by auto
  have e: "ks = [] \<longleftrightarrow> rs = []" using ks(2) by auto
  have "wire_items ks = map wire ks" "wire_items rs = map wire rs"
    using wire_items_rules ks(1) rs by blast+
  with ok j ks e rs have "map_option wire (OutDnsSettings_toJson (x\<lparr>od_rules := ys\<rparr>)) = Some (wire j)"
    by (auto simp: OutDnsSettings_toJson_def wire_props_append wire_prop_if)
  with OutDnsSettings_read_saved [OF ok rs ys(1)] ok j
  show "\<exists>y. OutDnsSettings_fromJson (wire j) = Some y \<and> OutDnsSettings_ok y
      \<and> map_option wire (OutDnsSettings_toJson y) = Some (wire j)"
    by (auto simp: OutDnsSettings_ok_def)
qed

text \<open>The upgrade is stable: an old document, opened and saved, opens as the same settings.\<close>

lemma legacy_upgrade_once:
  assumes "clean j" "OutDnsSettings_fromJson j = Some x"
    "od_rules x = buildLegacyDNSRules nonIPQuery blockTypes"
  shows "\<exists>k. OutDnsSettings_toJson x = Some k \<and> OutDnsSettings_fromJson (wire k) = Some x"
proof -
  have "\<exists>js. traverse DNSRule_toJson rs = Some js \<and> traverse DNSRule_fromJson (map wire js) = Some rs"
    if "\<forall>r \<in> set rs. DNSRule_toJson r \<noteq> None \<and> (\<forall>j. DNSRule_toJson r = Some j \<longrightarrow> DNSRule_fromJson (wire j) = Some r)" for rs
    using that by (induction rs) auto
  then obtain js where "traverse DNSRule_toJson (od_rules x) = Some js" "traverse DNSRule_fromJson (map wire js) = Some (od_rules x)"
    using legacy_rules_again assms(3) by metis
  from OutDnsSettings_read_saved [OF out_dns.dec_ok [OF assms(1,2)] this] show ?thesis by simp
qed

end
