(* ===== verification/Outbound_Settings.thy ===== *)
theory Outbound_Settings
  imports Outbound_Dns Outbound_Transports Wireguard_Settings
begin

text \<open>
  The protocol settings of an outbound (\<open>web/assets/js/model/outbound.js\<close>), in the order of the
  source after the DNS outbound. The readers of the protocols with servers index their document
  without a test for an absent member: \<open>isArrEmpty\<close> is false for \<open>undefined\<close>.
\<close>

section \<open>Reading arrays\<close>

text \<open>\<open>v[0]\<close>.\<close>

fun index0 :: "jsval \<Rightarrow> jsval option" where
  "index0 JUndef = None"
| "index0 JNull = None"
| "index0 (JArr xs) = Some (case xs of [] \<Rightarrow> JUndef | x # _ \<Rightarrow> x)"
| "index0 (JStr s) = Some (case s of [] \<Rightarrow> JUndef | c # _ \<Rightarrow> JStr [c])"
| "index0 (JObj ps) = Some (oget ps ''0'')"
| "index0 v = Some JUndef"

lemma clean_index0: "\<lbrakk>index0 v = Some w; clean v\<rbrakk> \<Longrightarrow> clean w"
  by (cases v) (auto simp: clean_oget_all split: list.splits intro: clean_json_ok)

lemma isArrEmpty_simps [simp]: "\<not> isArrEmpty JUndef" "\<not> isArrEmpty JNull"
  "isArrEmpty (JArr xs) \<longleftrightarrow> xs = []"
  by (auto simp: isArrEmpty_def isEmpty_def)

lemma wire_prop_opt: "wire_props ((k, v) # ps) = prop_if (v \<noteq> JUndef) k (wire v) @ wire_props ps"
  by (simp add: prop_if_def)

section \<open>Freedom\<close>

record Fragment =
  fg_packets :: jsval
  fg_length :: jsval
  fg_interval :: jsval
  fg_maxSplit :: jsval

definition Fragment_new ::
  "jsval \<Rightarrow> jsval \<Rightarrow> jsval \<Rightarrow> jsval \<Rightarrow> Fragment" where
  "Fragment_new packets length0 interval maxSplit =
     \<lparr>fg_packets = dflt (JStr ''1-3'') packets, fg_length = dflt (JStr []) length0,
       fg_interval = dflt (JStr []) interval, fg_maxSplit = dflt (JStr []) maxSplit\<rparr>"

definition Fragment_fromJson :: "jsval \<Rightarrow> Fragment option" where
  "Fragment_fromJson json0 = do {
     json \<leftarrow> members (dflt emptyObj json0);
     Some (Fragment_new
       (json ''packets'') (json ''length'') (json ''interval'') (json ''maxSplit'')) }"

definition Fragment_toJson :: "Fragment \<Rightarrow> jsval" where
  "Fragment_toJson this = JObj
      [(''packets'', fg_packets this), (''length'', fg_length this),
       (''interval'', fg_interval this), (''maxSplit'', fg_maxSplit this)]"

definition Fragment_ok :: "Fragment \<Rightarrow> bool" where
  "Fragment_ok x \<longleftrightarrow>
     json_ok (fg_packets x) \<and> json_ok (fg_length x) \<and>
     json_ok (fg_interval x) \<and> json_ok (fg_maxSplit x)"

lemmas Fragment_defs = Fragment_new_def Fragment_fromJson_def
  Fragment_toJson_def Fragment_ok_def

interpretation fragment: json_codec "\<lambda>x. Some (Fragment_toJson x)"
  Fragment_fromJson Fragment_ok clean
  by unfold_locales
    (auto simp: Fragment_defs bind_eq_Some_conv intro!: json_ok_dflt intro: clean_member)


record Noise =
  no_type :: jsval
  no_packet :: jsval
  no_delay :: jsval
  no_applyTo :: jsval

definition Noise_new ::
  "jsval \<Rightarrow> jsval \<Rightarrow> jsval \<Rightarrow> jsval \<Rightarrow> Noise" where
  "Noise_new type0 packet delay applyTo =
     \<lparr>no_type = dflt (JStr ''rand'') type0, no_packet = dflt (JStr ''10-20'') packet,
       no_delay = dflt (JStr ''10-16'') delay, no_applyTo = dflt (JStr ''ip'') applyTo\<rparr>"

definition Noise_fromJson :: "jsval \<Rightarrow> Noise option" where
  "Noise_fromJson json0 = do {
     json \<leftarrow> members (dflt emptyObj json0);
     Some (Noise_new
       (json ''type'') (json ''packet'') (json ''delay'') (json ''applyTo'')) }"

definition Noise_toJson :: "Noise \<Rightarrow> jsval" where
  "Noise_toJson this = JObj
      [(''type'', no_type this), (''packet'', no_packet this), (''delay'', no_delay this),
       (''applyTo'', no_applyTo this)]"

definition Noise_ok :: "Noise \<Rightarrow> bool" where
  "Noise_ok x \<longleftrightarrow>
     json_ok (no_type x) \<and> json_ok (no_packet x) \<and> json_ok (no_delay x) \<and>
     json_ok (no_applyTo x)"

lemmas Noise_defs = Noise_new_def Noise_fromJson_def
  Noise_toJson_def Noise_ok_def

interpretation noise: json_codec "\<lambda>x. Some (Noise_toJson x)"
  Noise_fromJson Noise_ok clean
  by unfold_locales
    (auto simp: Noise_defs bind_eq_Some_conv intro!: json_ok_dflt intro: clean_member)


record FinalRule =
  fr_action :: jsval
  fr_network :: jsval
  fr_port :: jsval
  fr_ip :: "jsval list"
  fr_blockDelay :: jsval

definition FinalRule_new :: "jsval \<Rightarrow> jsval \<Rightarrow> jsval \<Rightarrow> jsval \<Rightarrow> jsval \<Rightarrow> FinalRule" where
  "FinalRule_new action network port ip blockDelay =
     \<lparr>fr_action = dflt (JStr ''block'') action, fr_network = dflt (JStr []) network,
       fr_port = dflt (JStr []) port,
       fr_ip = (case dflt (JArr []) ip of JArr xs \<Rightarrow> xs | _ \<Rightarrow> []),
       fr_blockDelay = dflt (JStr []) blockDelay\<rparr>"

definition FinalRule_fromJson :: "jsval \<Rightarrow> FinalRule option" where
  "FinalRule_fromJson json0 = do {
     json \<leftarrow> members (dflt emptyObj json0);
     Some (FinalRule_new (json ''action'')
       (case json ''network'' of JArr xs \<Rightarrow> JStr (arr_join '','' xs) | v \<Rightarrow> v)
       (json ''port'') (js_or (json ''ip'') (JArr [])) (json ''blockDelay'')) }"

definition unless_empty :: "jsval \<Rightarrow> jsval" where
  "unless_empty v = (if isEmpty v then JUndef else v)"

definition FinalRule_toJson :: "FinalRule \<Rightarrow> jsval" where
  "FinalRule_toJson this = JObj
     [(''action'', if one_of (fr_action this) [''allow'', ''block''] then fr_action this else JStr ''block''),
      (''network'', unless_empty (fr_network this)), (''port'', unless_empty (fr_port this)),
      (''ip'', if fr_ip this = [] then JUndef else JArr (fr_ip this)),
      (''blockDelay'', if fr_action this = JStr ''block'' \<and> \<not> isEmpty (fr_blockDelay this)
         then fr_blockDelay this else JUndef)]"

definition FinalRule_ok :: "FinalRule \<Rightarrow> bool" where
  "FinalRule_ok x \<longleftrightarrow> json_ok (fr_network x) \<and> \<not> is_array (fr_network x) \<and> json_ok (fr_port x)
     \<and> (\<forall>v \<in> set (fr_ip x). json_ok v) \<and> json_ok (fr_blockDelay x)"

lemma unless_empty_again:
  assumes "json_ok v"
  shows "unless_empty (dflt (JStr []) (unless_empty v)) = unless_empty v" "wire (unless_empty v) = unless_empty v"
    "json_ok (dflt (JStr []) (unless_empty v))"
  using assms by (auto simp: unless_empty_def isEmpty_def dflt_def)

definition FinalRule_reloaded :: "FinalRule \<Rightarrow> FinalRule" where
  "FinalRule_reloaded x = \<lparr>fr_action = (if one_of (fr_action x) [''allow'', ''block''] then fr_action x else JStr ''block''),
     fr_network = dflt (JStr []) (unless_empty (fr_network x)), fr_port = dflt (JStr []) (unless_empty (fr_port x)),
     fr_ip = fr_ip x,
     fr_blockDelay = (if fr_action x = JStr ''block'' \<and> \<not> isEmpty (fr_blockDelay x) then fr_blockDelay x else JStr [])\<rparr>"

lemma FinalRule_fromJson_saved:
  assumes ok: "FinalRule_ok x"
  shows "FinalRule_fromJson (wire (FinalRule_toJson x)) = Some (FinalRule_reloaded x)"
proof -
  define a where "a = (if one_of (fr_action x) [''allow'', ''block''] then fr_action x else JStr ''block'')"
  define b where "b = (if fr_action x = JStr ''block'' \<and> \<not> isEmpty (fr_blockDelay x) then fr_blockDelay x else JUndef)"
  define i where "i = (if fr_ip x = [] then JUndef else JArr (fr_ip x))"
  define n where "n = unless_empty (fr_network x)"
  define p where "p = unless_empty (fr_port x)"
  have wa: "dflt (JStr ''block'') (wire a) = a"
    by (auto simp: a_def one_of_def dflt_def)
  have wb: "dflt (JStr []) (wire b)
      = (if fr_action x = JStr ''block'' \<and> \<not> isEmpty (fr_blockDelay x) then fr_blockDelay x else JStr [])"
    using ok by (auto simp: b_def FinalRule_ok_def)
  have wi: "(case dflt (JArr []) (js_or (wire i) (JArr [])) of JArr xs \<Rightarrow> xs | _ \<Rightarrow> []) = fr_ip x"
    using ok by (simp add: i_def FinalRule_ok_def wire_json_ok_all(2) dflt_def)
  have wn: "(case wire n of JArr xs \<Rightarrow> JStr (arr_join '','' xs) | v \<Rightarrow> v) = n" and wp: "wire p = p"
    using ok unless_empty_again(2) [of "fr_network x"] unless_empty_again(2) [of "fr_port x"]
    by (cases "fr_network x"; auto simp: n_def p_def FinalRule_ok_def unless_empty_def isEmpty_def)+
  have "members (dflt emptyObj (wire (FinalRule_toJson x))) = Some (\<lambda>k. wire (oget
     [(''action'', a), (''network'', n), (''port'', p), (''ip'', i), (''blockDelay'', b)] k))"
    unfolding FinalRule_toJson_def a_def b_def i_def n_def p_def by (rule members_wire) simp
  then show ?thesis
    by (simp add: FinalRule_fromJson_def FinalRule_new_def FinalRule_reloaded_def wa wb wi wn wp)
      (simp add: a_def n_def p_def)
qed

interpretation final_rule: json_view "\<lambda>x. Some (FinalRule_toJson x)" FinalRule_fromJson FinalRule_ok clean
proof unfold_locales
  fix j x
  assume j: "clean j" and "FinalRule_fromJson j = Some x"
  then obtain json where json: "members (dflt emptyObj j) = Some json"
    and x: "x = FinalRule_new (json ''action'')
       (case json ''network'' of JArr xs \<Rightarrow> JStr (arr_join '','' xs) | v \<Rightarrow> v)
       (json ''port'') (js_or (json ''ip'') (JArr [])) (json ''blockDelay'')"
    by (auto simp: FinalRule_fromJson_def bind_eq_Some_conv)
  have cl: "clean (json k)" for k by (rule clean_member [OF json j])
  let ?net = "case json ''network'' of JArr xs \<Rightarrow> JStr (arr_join '','' xs) | v \<Rightarrow> v"
  let ?ip = "js_or (json ''ip'') (JArr [])"
  have "json_ok (dflt (JStr []) ?net) \<and> \<not> is_array (dflt (JStr []) ?net)"
    using cl [of "''network''"] by (cases "json ''network''") (auto simp: dflt_def)
  moreover have "json_ok ?ip" by (rule json_ok_js_or) (simp_all add: cl)
  then have "\<forall>v \<in> set (case dflt (JArr []) ?ip of JArr xs \<Rightarrow> xs | _ \<Rightarrow> []). json_ok v"
    by (cases ?ip) (simp_all add: dflt_def)
  moreover have "json_ok (dflt (JStr []) (json k))" for k by (rule json_ok_dflt) (simp_all add: cl)
  ultimately show "FinalRule_ok x"
    by (simp only: x FinalRule_new_def FinalRule_ok_def FinalRule.simps simp_thms)
next
  fix x j
  assume ok: "FinalRule_ok x" and "Some (FinalRule_toJson x) = Some j"
  moreover have "FinalRule_ok (FinalRule_reloaded x)"
    using ok unless_empty_again(3) by (auto simp: FinalRule_ok_def FinalRule_reloaded_def dflt_def unless_empty_def)
  moreover have "FinalRule_toJson (FinalRule_reloaded x) = FinalRule_toJson x"
    using ok unless_empty_again(1)
    by (cases "fr_action x = JStr ''block''"; cases "fr_action x = JStr ''allow''")
      (simp_all add: FinalRule_ok_def FinalRule_reloaded_def FinalRule_toJson_def one_of_def isEmpty_def)
  ultimately show "\<exists>y. FinalRule_fromJson (wire j) = Some y \<and> FinalRule_ok y
      \<and> map_option wire (Some (FinalRule_toJson y)) = Some (wire j)"
    using FinalRule_fromJson_saved [OF ok] by auto
qed

text \<open>\<open>fragment\<close> is \<open>{}\<close> or an instance of \<open>Fragment\<close>, whose \<open>toJson\<close> is the inherited \<open>return this\<close>.\<close>

record FreedomSettings =
  fd_domainStrategy :: jsval
  fd_redirect :: jsval
  fd_fragment :: "Fragment option"
  fd_noises :: "Noise list"
  fd_finalRules :: "FinalRule list"

definition FreedomSettings_new ::
  "jsval \<Rightarrow> jsval \<Rightarrow> Fragment option \<Rightarrow> Noise list \<Rightarrow> FinalRule list \<Rightarrow> FreedomSettings" where
  "FreedomSettings_new domainStrategy redirect fragment noises finalRules =
     \<lparr>fd_domainStrategy = dflt (JStr []) domainStrategy, fd_redirect = dflt (JStr []) redirect,
       fd_fragment = fragment, fd_noises = noises, fd_finalRules = finalRules\<rparr>"

definition addNoise :: "FreedomSettings \<Rightarrow> FreedomSettings" where
  "addNoise this = this\<lparr>fd_noises := fd_noises this @ [Noise_new JUndef JUndef JUndef JUndef]\<rparr>"

definition delNoise :: "int \<Rightarrow> FreedomSettings \<Rightarrow> FreedomSettings" where
  "delNoise index this = this\<lparr>fd_noises := splice1 index (fd_noises this)\<rparr>"

definition addFinalRule :: "jsval \<Rightarrow> FreedomSettings \<Rightarrow> FreedomSettings" where
  "addFinalRule action this = this\<lparr>fd_finalRules := fd_finalRules this
     @ [FinalRule_new (dflt (JStr ''block'') action) JUndef JUndef JUndef JUndef]\<rparr>"

definition delFinalRule :: "int \<Rightarrow> FreedomSettings \<Rightarrow> FreedomSettings" where
  "delFinalRule index this = this\<lparr>fd_finalRules := splice1 index (fd_finalRules this)\<rparr>"

text \<open>The final rules, or the addresses an older document blocks.\<close>

definition final_rules_of :: "(string \<Rightarrow> jsval) \<Rightarrow> FinalRule list option" where
  "final_rules_of json = do {
     finalRules \<leftarrow> (case json ''finalRules'' of JArr rs \<Rightarrow> traverse FinalRule_fromJson rs | _ \<Rightarrow> Some []);
     Some (case json ''ipsBlocked'' of
         JArr (ip # ips) \<Rightarrow> if finalRules = []
           then [FinalRule_new (JStr ''block'') (JStr []) (JStr []) (JArr (ip # ips)) (JStr [])] else finalRules
       | _ \<Rightarrow> finalRules) }"

definition FreedomSettings_fromJson :: "jsval \<Rightarrow> FreedomSettings option" where
  "FreedomSettings_fromJson json0 = do {
     json \<leftarrow> members (dflt emptyObj json0);
     finalRules \<leftarrow> final_rules_of json;
     fragment \<leftarrow> (if truthy (json ''fragment'') then map_option Some (Fragment_fromJson (json ''fragment''))
       else Some None);
     noises \<leftarrow> (if truthy (json ''noises'') then Option.bind (as_array (json ''noises'')) (traverse Noise_fromJson)
       else Some []);
     Some (FreedomSettings_new (json ''domainStrategy'') (json ''redirect'') fragment noises finalRules) }"

definition list_or_undef :: "jsval list \<Rightarrow> jsval" where
  "list_or_undef xs = (if xs = [] then JUndef else JArr xs)"

definition fragment_value :: "Fragment option \<Rightarrow> jsval" where
  "fragment_value f = (case f of None \<Rightarrow> JUndef | Some f \<Rightarrow> Fragment_toJson f)"

definition FreedomSettings_toJson :: "FreedomSettings \<Rightarrow> jsval" where
  "FreedomSettings_toJson this = JObj
     [(''domainStrategy'', unless_empty (fd_domainStrategy this)), (''redirect'', unless_empty (fd_redirect this)),
      (''fragment'', fragment_value (fd_fragment this)),
      (''noises'', list_or_undef (map Noise_toJson (fd_noises this))),
      (''finalRules'', list_or_undef (map FinalRule_toJson (fd_finalRules this)))]"

definition FreedomSettings_ok :: "FreedomSettings \<Rightarrow> bool" where
  "FreedomSettings_ok x \<longleftrightarrow> json_ok (fd_domainStrategy x) \<and> json_ok (fd_redirect x)
     \<and> (case fd_fragment x of None \<Rightarrow> True | Some f \<Rightarrow> Fragment_ok f)
     \<and> (\<forall>n \<in> set (fd_noises x). Noise_ok n) \<and> (\<forall>r \<in> set (fd_finalRules x). FinalRule_ok r)"

lemma list_or_undef_wire:
  "list_or_undef (map f xs) = JUndef \<longleftrightarrow> xs = []"
  "\<forall>x. f x \<noteq> JUndef \<Longrightarrow> wire (list_or_undef (map f xs)) = list_or_undef (map wire (map f xs))"
  by (simp_all add: list_or_undef_def wire_items_map)

text \<open>A list member that is written when it is not empty, read again.\<close>

lemma list_or_undef_read:
  assumes "\<forall>x. f x \<noteq> JUndef" "traverse g (map wire (map f xs)) = Some ys"
  shows "(if truthy (wire (list_or_undef (map f xs)))
      then Option.bind (as_array (wire (list_or_undef (map f xs)))) (traverse g) else Some []) = Some ys"
    "(case wire (list_or_undef (map f xs)) of JArr rs \<Rightarrow> traverse g rs | _ \<Rightarrow> Some []) = Some ys"
proof -
  have "wire (list_or_undef (map f xs)) = (if xs = [] then JUndef else JArr (map wire (map f xs)))"
    unfolding list_or_undef_wire(2) [OF assms(1)] by (simp add: list_or_undef_def)
  with assms(2) show "(if truthy (wire (list_or_undef (map f xs)))
      then Option.bind (as_array (wire (list_or_undef (map f xs)))) (traverse g) else Some []) = Some ys"
    "(case wire (list_or_undef (map f xs)) of JArr rs \<Rightarrow> traverse g rs | _ \<Rightarrow> Some []) = Some ys"
    by (auto simp del: map_map split: if_splits)
qed

lemma fragment_value_read:
  assumes "case f of None \<Rightarrow> True | Some f \<Rightarrow> Fragment_ok f"
  shows "(if truthy (wire (fragment_value f)) then map_option Some (Fragment_fromJson (wire (fragment_value f)))
      else Some None) = Some f"
proof (cases f)
  case (Some g)
  then have "Fragment_fromJson (wire (Fragment_toJson g)) = Some g" using assms fragment.enc_dec by auto
  then show ?thesis by (simp add: Some fragment_value_def) (simp add: Fragment_toJson_def)
qed (simp add: fragment_value_def)

lemma final_rules_dec_ok:
  assumes cl: "\<And>k. clean (json k)" and r: "final_rules_of json = Some rs"
  shows "\<forall>r \<in> set rs. FinalRule_ok r"
proof -
  obtain fs where fs: "(case json ''finalRules'' of JArr rs \<Rightarrow> traverse FinalRule_fromJson rs | _ \<Rightarrow> Some []) = Some fs"
    and rs: "rs = (case json ''ipsBlocked'' of JArr (ip # ips) \<Rightarrow> if fs = []
        then [FinalRule_new (JStr ''block'') (JStr []) (JStr []) (JArr (ip # ips)) (JStr [])] else fs | _ \<Rightarrow> fs)"
    using r by (auto simp: final_rules_of_def bind_eq_Some_conv)
  have "\<forall>r \<in> set fs. FinalRule_ok r"
    using fs cl [of "''finalRules''"]
    by (cases "json ''finalRules''") (auto dest: final_rule.dec_list_ok [rotated] intro: clean_json_ok)
  moreover have "FinalRule_ok (FinalRule_new (JStr ''block'') (JStr []) (JStr []) (JArr xs) (JStr []))"
    if "json ''ipsBlocked'' = JArr xs" for xs
    using that cl [of "''ipsBlocked''"] by (simp add: FinalRule_ok_def FinalRule_new_def)
  moreover have "rs = fs \<or> (\<exists>xs. json ''ipsBlocked'' = JArr xs
      \<and> rs = [FinalRule_new (JStr ''block'') (JStr []) (JStr []) (JArr xs) (JStr [])])"
  proof (cases "json ''ipsBlocked''")
    case (JArr xs)
    then show ?thesis unfolding rs by (cases xs) auto
  qed (auto simp: rs)
  ultimately show ?thesis by auto
qed

lemma FreedomSettings_dec_ok:
  assumes j: "clean j" and d: "FreedomSettings_fromJson j = Some x"
  shows "FreedomSettings_ok x"
proof -
  obtain json rs f ns where json: "members (dflt emptyObj j) = Some json" and rs: "final_rules_of json = Some rs"
    and f: "(if truthy (json ''fragment'') then map_option Some (Fragment_fromJson (json ''fragment'')) else Some None) = Some f"
    and ns: "(if truthy (json ''noises'') then Option.bind (as_array (json ''noises'')) (traverse Noise_fromJson) else Some []) = Some ns"
    and x: "x = FreedomSettings_new (json ''domainStrategy'') (json ''redirect'') f ns rs"
    using d by (auto simp: FreedomSettings_fromJson_def bind_eq_Some_conv)
  have cl: "clean (json k)" for k by (rule clean_member [OF json j])
  have "case f of None \<Rightarrow> True | Some f \<Rightarrow> Fragment_ok f"
    using f fragment.dec_ok [OF cl] by (auto split: if_splits)
  moreover have "\<forall>n \<in> set ns. Noise_ok n"
    using ns cl [of "''noises''"]
    by (cases "json ''noises''") (auto dest: noise.dec_list_ok [rotated] intro: clean_json_ok split: if_splits)
  ultimately show ?thesis
    using final_rules_dec_ok [OF cl rs] by (simp add: x FreedomSettings_new_def FreedomSettings_ok_def json_ok_dflt cl)
qed

lemma FreedomSettings_view:
  assumes ok: "FreedomSettings_ok x"
  shows "\<exists>y. FreedomSettings_fromJson (wire (FreedomSettings_toJson x)) = Some y \<and> FreedomSettings_ok y
    \<and> wire (FreedomSettings_toJson y) = wire (FreedomSettings_toJson x)"
proof -
  obtain ns where ns: "traverse Noise_fromJson (map wire (map Noise_toJson (fd_noises x))) = Some ns"
    "\<forall>n \<in> set ns. Noise_ok n" "map wire (map Noise_toJson ns) = map wire (map Noise_toJson (fd_noises x))"
    using noise.view_list [of "fd_noises x" "map Noise_toJson (fd_noises x)"] ok
    by (auto simp: traverse_total FreedomSettings_ok_def)
  obtain rs where rs: "traverse FinalRule_fromJson (map wire (map FinalRule_toJson (fd_finalRules x))) = Some rs"
    "\<forall>r \<in> set rs. FinalRule_ok r" "map wire (map FinalRule_toJson rs) = map wire (map FinalRule_toJson (fd_finalRules x))"
    using final_rule.view_list [of "fd_finalRules x" "map FinalRule_toJson (fd_finalRules x)"] ok
    by (auto simp: traverse_total FreedomSettings_ok_def)
  have len: "ns = [] \<longleftrightarrow> fd_noises x = []" "rs = [] \<longleftrightarrow> fd_finalRules x = []"
    using traverse_length [OF ns(1)] traverse_length [OF rs(1)] by auto
  have objs: "\<forall>n. Noise_toJson n \<noteq> JUndef" "\<forall>r. FinalRule_toJson r \<noteq> JUndef"
    by (simp_all add: Noise_toJson_def FinalRule_toJson_def)
  have f: "case fd_fragment x of None \<Rightarrow> True | Some f \<Rightarrow> Fragment_ok f"
    using ok by (simp add: FreedomSettings_ok_def)
  have dr: "json_ok (fd_domainStrategy x)" "json_ok (fd_redirect x)"
    using ok by (simp_all add: FreedomSettings_ok_def)
  note e = unless_empty_again [OF dr(1)] unless_empty_again [OF dr(2)]
  let ?y = "\<lparr>fd_domainStrategy = dflt (JStr []) (unless_empty (fd_domainStrategy x)),
    fd_redirect = dflt (JStr []) (unless_empty (fd_redirect x)), fd_fragment = fd_fragment x,
    fd_noises = ns, fd_finalRules = rs\<rparr>"
  have m: "members (dflt emptyObj (wire (FreedomSettings_toJson x))) = Some (\<lambda>k. wire (oget
     [(''domainStrategy'', unless_empty (fd_domainStrategy x)), (''redirect'', unless_empty (fd_redirect x)),
      (''fragment'', fragment_value (fd_fragment x)),
      (''noises'', list_or_undef (map Noise_toJson (fd_noises x))),
      (''finalRules'', list_or_undef (map FinalRule_toJson (fd_finalRules x)))] k))"
    unfolding FreedomSettings_toJson_def by (rule members_wire) simp
  let ?get = "\<lambda>a b c d e. oget [(''domainStrategy'', a), (''redirect'', b), (''fragment'', c), (''noises'', d), (''finalRules'', e)]"
  have get: "?get a b c d e ''domainStrategy'' = a" "?get a b c d e ''redirect'' = b" "?get a b c d e ''fragment'' = c"
    "?get a b c d e ''noises'' = d" "?get a b c d e ''finalRules'' = e" "?get a b c d e ''ipsBlocked'' = JUndef"
    for a b c d e :: jsval by simp_all
  have wl: "wire (list_or_undef (map Noise_toJson ns)) = wire (list_or_undef (map Noise_toJson (fd_noises x)))"
    "wire (list_or_undef (map FinalRule_toJson rs)) = wire (list_or_undef (map FinalRule_toJson (fd_finalRules x)))"
    by (simp_all only: list_or_undef_wire(2) [OF objs(1)] list_or_undef_wire(2) [OF objs(2)] ns(3) rs(3))
  have "FreedomSettings_fromJson (wire (FreedomSettings_toJson x)) = Some ?y"
    unfolding FreedomSettings_fromJson_def m final_rules_of_def
    by (simp only: get list_or_undef_read(1) [OF objs(1) ns(1)] list_or_undef_read(2) [OF objs(2) rs(1)]
        fragment_value_read [OF f] e(2,5) FreedomSettings_new_def bind.simps wire.simps jsval.simps)
  moreover have "FreedomSettings_ok ?y"
    using ok ns(2) rs(2) e by (simp add: FreedomSettings_ok_def)
  moreover have "wire (FreedomSettings_toJson ?y) = wire (FreedomSettings_toJson x)"
    unfolding FreedomSettings_toJson_def wire.simps
    by (rule arg_cong [where f = JObj], rule wire_props_cong)
      (simp add: e wl)
  ultimately show ?thesis by blast
qed

interpretation freedom: json_view "\<lambda>x. Some (FreedomSettings_toJson x)" FreedomSettings_fromJson FreedomSettings_ok clean
  by unfold_locales (auto intro: FreedomSettings_dec_ok dest: FreedomSettings_view)

section \<open>Blackhole\<close>

record BlackholeSettings =
  bh_type :: jsval

definition BlackholeSettings_new :: "jsval \<Rightarrow> BlackholeSettings" where
  "BlackholeSettings_new type0 = \<lparr>bh_type = type0\<rparr>"

definition BlackholeSettings_fromJson :: "jsval \<Rightarrow> BlackholeSettings option" where
  "BlackholeSettings_fromJson json0 = do {
     json \<leftarrow> members (dflt emptyObj json0);
     Some (BlackholeSettings_new (if truthy (json ''response'') then mget (json ''response'') ''type'' else JUndef)) }"

definition BlackholeSettings_toJson :: "BlackholeSettings \<Rightarrow> jsval" where
  "BlackholeSettings_toJson this = JObj
     [(''response'', if isEmpty (bh_type this) then JUndef else JObj [(''type'', bh_type this)])]"

definition BlackholeSettings_ok :: "BlackholeSettings \<Rightarrow> bool" where
  "BlackholeSettings_ok x \<longleftrightarrow> clean (bh_type x)"

interpretation blackhole: json_view "\<lambda>x. Some (BlackholeSettings_toJson x)" BlackholeSettings_fromJson
  BlackholeSettings_ok clean
proof unfold_locales
  show "\<lbrakk>clean j; BlackholeSettings_fromJson j = Some x\<rbrakk> \<Longrightarrow> BlackholeSettings_ok x" for j x
    by (auto simp: BlackholeSettings_fromJson_def BlackholeSettings_new_def BlackholeSettings_ok_def
        bind_eq_Some_conv intro: clean_mget [OF clean_member])
next
  fix x j
  assume "BlackholeSettings_ok x" "Some (BlackholeSettings_toJson x) = Some j"
  then show "\<exists>y. BlackholeSettings_fromJson (wire j) = Some y \<and> BlackholeSettings_ok y
      \<and> map_option wire (Some (BlackholeSettings_toJson y)) = Some (wire j)"
    by (intro exI [of _ "\<lparr>bh_type = if isEmpty (bh_type x) then JUndef else bh_type x\<rparr>"])
      (auto simp: BlackholeSettings_fromJson_def BlackholeSettings_new_def BlackholeSettings_ok_def
        BlackholeSettings_toJson_def isEmpty_def clean_def)
qed


end

