(* ===== verification/Outbound_Protocols.thy ===== *)
theory Outbound_Protocols
  imports Outbound_Settings
begin

text \<open>
  The settings of the protocols that have a server (\<open>web/assets/js/model/outbound.js\<close>): VMess, VLESS,
  Trojan, Shadowsocks, Socks, HTTP, WireGuard and Hysteria.
\<close>

section \<open>VMess\<close>

record OutVmessSettings =
  ovm_address :: jsval
  ovm_port :: jsval
  ovm_id :: jsval
  ovm_security :: jsval

definition OutVmessSettings_new :: "jsval \<Rightarrow> jsval \<Rightarrow> jsval \<Rightarrow> jsval \<Rightarrow> OutVmessSettings" where
  "OutVmessSettings_new address port id0 security =
     \<lparr>ovm_address = address, ovm_port = port, ovm_id = id0, ovm_security = security\<rparr>"

text \<open>\<open>isArrEmpty(v) ? d : v[0]\<close>.\<close>

definition first_or :: "jsval \<Rightarrow> jsval \<Rightarrow> jsval option" where
  "first_or d v = (if isArrEmpty v then Some d else index0 v)"

text \<open>The reader returns \<open>undefined\<close>, here the inner \<open>None\<close>, for an empty list of servers.\<close>

definition OutVmessSettings_fromJson :: "jsval \<Rightarrow> OutVmessSettings option option" where
  "OutVmessSettings_fromJson json0 = do {
     json \<leftarrow> members (dflt emptyObj json0);
     if isArrEmpty (json ''vnext'') then Some None
     else do {
       server \<leftarrow> index0 (json ''vnext'');
       let v = js_or server emptyObj;
       user \<leftarrow> first_or emptyObj (mget v ''users'');
       u \<leftarrow> members user;
       Some (Some (OutVmessSettings_new (mget v ''address'') (mget v ''port'') (u ''id'') (u ''security''))) } }"

definition OutVmessSettings_toJson :: "OutVmessSettings \<Rightarrow> jsval" where
  "OutVmessSettings_toJson this = JObj [(''vnext'', JArr [JObj
     [(''address'', ovm_address this), (''port'', ovm_port this),
      (''users'', JArr [JObj [(''id'', ovm_id this), (''security'', ovm_security this)]])]])]"

definition OutVmessSettings_ok :: "OutVmessSettings \<Rightarrow> bool" where
  "OutVmessSettings_ok x \<longleftrightarrow> clean (ovm_address x) \<and> clean (ovm_port x) \<and> clean (ovm_id x)
     \<and> clean (ovm_security x)"

lemma clean_js_or: "\<lbrakk>clean a; clean b\<rbrakk> \<Longrightarrow> clean (js_or a b)"
  by (simp add: js_or_def)

lemma OutVmessSettings_dec_ok:
  assumes j: "clean j" and d: "OutVmessSettings_fromJson j = Some (Some x)"
  shows "OutVmessSettings_ok x"
proof -
  obtain json server user u where json: "members (dflt emptyObj j) = Some json"
    and server: "index0 (json ''vnext'') = Some server"
    and user: "first_or emptyObj (mget (js_or server emptyObj) ''users'') = Some user"
    and u: "members user = Some u"
    and x: "x = OutVmessSettings_new (mget (js_or server emptyObj) ''address'')
      (mget (js_or server emptyObj) ''port'') (u ''id'') (u ''security'')"
    using d by (auto simp: OutVmessSettings_fromJson_def bind_eq_Some_conv Let_def split: if_splits)
  have v: "clean (js_or server emptyObj)"
    using clean_index0 [OF server clean_member [OF json j]] by (simp add: js_or_def)
  then have "clean user"
    using user clean_index0 [of "mget (js_or server emptyObj) ''users''" user]
    by (auto simp: first_or_def clean_mget split: if_splits)
  then have "clean (u k)" for k by (rule clean_members [OF _ u])
  with clean_mget [OF v] show ?thesis by (simp add: x OutVmessSettings_new_def OutVmessSettings_ok_def)
qed

lemma OutVmessSettings_saved:
  "OutVmessSettings_ok x \<Longrightarrow> OutVmessSettings_fromJson (wire (OutVmessSettings_toJson x)) = Some (Some x)"
proof -
  assume ok: "OutVmessSettings_ok x"
  have "wire (OutVmessSettings_toJson x) = JObj [(''vnext'', JArr [JObj
      (prop_if (ovm_address x \<noteq> JUndef) ''address'' (ovm_address x) @ prop_if (ovm_port x \<noteq> JUndef) ''port'' (ovm_port x)
       @ [(''users'', JArr [JObj (prop_if (ovm_id x \<noteq> JUndef) ''id'' (ovm_id x)
            @ prop_if (ovm_security x \<noteq> JUndef) ''security'' (ovm_security x))])])])]"
    using ok by (simp add: OutVmessSettings_ok_def OutVmessSettings_toJson_def prop_if_def wire_clean)
  then show ?thesis
    by (simp add: OutVmessSettings_fromJson_def first_or_def oget_prop_if oget_prop_if_end OutVmessSettings_new_def)
qed

interpretation out_vmess: json_codec "\<lambda>x. Some (OutVmessSettings_toJson x)"
  "\<lambda>j. Option.bind (OutVmessSettings_fromJson j) (\<lambda>x. x)" OutVmessSettings_ok clean
  by unfold_locales (auto simp: bind_eq_Some_conv OutVmessSettings_saved intro: OutVmessSettings_dec_ok)

section \<open>VLESS\<close>

record OutVLESSSettings =
  ovl_address :: jsval
  ovl_port :: jsval
  ovl_id :: jsval
  ovl_flow :: jsval
  ovl_encryption :: jsval
  ovl_reverseTag :: jsval
  ovl_testpre :: jsval
  ovl_testseed :: jsval

definition out_testseed :: jsval where
  "out_testseed = JArr [JNum 900, JNum 500, JNum 900, JNum 256]"

definition OutVLESSSettings_new ::
  "jsval \<Rightarrow> jsval \<Rightarrow> jsval \<Rightarrow> jsval \<Rightarrow> jsval \<Rightarrow> jsval \<Rightarrow> jsval \<Rightarrow> jsval \<Rightarrow> OutVLESSSettings" where
  "OutVLESSSettings_new address port id0 flow encryption reverseTag testpre testseed =
     \<lparr>ovl_address = address, ovl_port = port, ovl_id = id0, ovl_flow = flow, ovl_encryption = encryption,
       ovl_reverseTag = dflt (JStr []) reverseTag, ovl_testpre = dflt (JNum 0) testpre,
       ovl_testseed = dflt out_testseed testseed\<rparr>"

text \<open>\<open>v && v.length >= 4\<close>.\<close>

definition has_length4 :: "jsval \<Rightarrow> bool" where
  "has_length4 v \<longleftrightarrow> truthy v \<and> (case js_number (mget v ''length'') of None \<Rightarrow> False | Some n \<Rightarrow> 4 \<le> n)"

definition blank_vless :: OutVLESSSettings where
  "blank_vless = OutVLESSSettings_new JUndef JUndef JUndef JUndef JUndef JUndef JUndef JUndef"

definition OutVLESSSettings_fromJson :: "jsval \<Rightarrow> OutVLESSSettings option" where
  "OutVLESSSettings_fromJson json0 = do {
     json \<leftarrow> members (dflt emptyObj json0);
     Some (if isEmpty (json ''address'') \<or> isEmpty (json ''port'') then blank_vless
       else OutVLESSSettings_new (json ''address'') (json ''port'') (json ''id'') (json ''flow'')
         (json ''encryption'')
         (js_or (if nullish (json ''reverse'') then JUndef else mget (json ''reverse'') ''tag'') (JStr []))
         (js_or (json ''testpre'') (JNum 0))
         (if has_length4 (json ''testseed'') then json ''testseed'' else out_testseed)) }"

definition flow_set :: "OutVLESSSettings \<Rightarrow> bool" where
  "flow_set this \<longleftrightarrow> truthy (ovl_flow this) \<and> ovl_flow this \<noteq> JStr []"

definition OutVLESSSettings_toJson :: "OutVLESSSettings \<Rightarrow> jsval" where
  "OutVLESSSettings_toJson this = JObj
     ([(''address'', ovl_address this), (''port'', ovl_port this), (''id'', ovl_id this),
       (''flow'', ovl_flow this), (''encryption'', ovl_encryption this)]
      @ prop_if (\<not> isEmpty (ovl_reverseTag this)) ''reverse'' (JObj [(''tag'', ovl_reverseTag this)])
      @ prop_if (flow_set this \<and> gt0 (ovl_testpre this)) ''testpre'' (ovl_testpre this)
      @ prop_if (flow_set this \<and> has_length4 (ovl_testseed this)) ''testseed'' (ovl_testseed this))"

text \<open>Settings without an address or a port lose the rest of what was typed, their document reads as
  blank settings; a seed of less than four numbers is not written, and the default comes back.\<close>

definition OutVLESSSettings_ok :: "OutVLESSSettings \<Rightarrow> bool" where
  "OutVLESSSettings_ok x \<longleftrightarrow> x = blank_vless
     \<or> \<not> isEmpty (ovl_address x) \<and> \<not> isEmpty (ovl_port x) \<and> json_ok (ovl_address x) \<and> json_ok (ovl_port x)
       \<and> clean (ovl_id x) \<and> clean (ovl_flow x) \<and> clean (ovl_encryption x)
       \<and> (ovl_reverseTag x = JStr [] \<or> json_ok (ovl_reverseTag x) \<and> truthy (ovl_reverseTag x))
       \<and> json_ok (ovl_testpre x) \<and> json_ok (ovl_testseed x) \<and> has_length4 (ovl_testseed x)"

definition OutVLESSSettings_reloaded :: "OutVLESSSettings \<Rightarrow> OutVLESSSettings" where
  "OutVLESSSettings_reloaded x = x\<lparr>
     ovl_testpre := if flow_set x \<and> gt0 (ovl_testpre x) then ovl_testpre x else JNum 0,
     ovl_testseed := if flow_set x \<and> has_length4 (ovl_testseed x) then ovl_testseed x else out_testseed\<rparr>"

lemma truthy_gt0: "gt0 v \<Longrightarrow> truthy v"
  by (cases v) (auto simp: gt0_def js_trim_def split: if_splits)

lemma truthy_not_empty: "truthy v \<Longrightarrow> \<not> isEmpty v"
  by (auto simp: isEmpty_def)

lemma json_ok_testseed: "json_ok out_testseed" "has_length4 out_testseed"
  by (simp_all add: out_testseed_def has_length4_def mget_def)

lemma OutVLESSSettings_dec_ok:
  assumes j: "clean j" and d: "OutVLESSSettings_fromJson j = Some x"
  shows "OutVLESSSettings_ok x"
proof -
  obtain json where json: "members (dflt emptyObj j) = Some json"
    using d by (auto simp: OutVLESSSettings_fromJson_def bind_eq_Some_conv)
  have cl: "clean (json k)" for k by (rule clean_member [OF json j])
  show ?thesis
  proof (cases "isEmpty (json ''address'') \<or> isEmpty (json ''port'')")
    case True
    with d json show ?thesis by (simp add: OutVLESSSettings_fromJson_def OutVLESSSettings_ok_def)
  next
    case False
    let ?tag = "if nullish (json ''reverse'') then JUndef else mget (json ''reverse'') ''tag''"
    have "clean ?tag" by (simp add: clean_mget cl)
    define t where "t = js_or ?tag (JStr [])"
    have tag: "t = JStr [] \<or> json_ok t \<and> truthy t"
      using \<open>clean ?tag\<close> by (auto simp: t_def js_or_def clean_def)
    have ap: "json_ok (json ''address'')" "json_ok (json ''port'')"
      using False cl by (auto simp: clean_def isEmpty_def)
    have "json_ok (js_or (json ''testpre'') (JNum 0))" by (rule json_ok_js_or) (simp_all add: cl)
    moreover have "json_ok (if has_length4 (json ''testseed'') then json ''testseed'' else out_testseed)"
      using cl [of "''testseed''"] by (auto simp: has_length4_def clean_def json_ok_testseed)
    moreover have "has_length4 (if has_length4 (json ''testseed'') then json ''testseed'' else out_testseed)"
      by (simp add: json_ok_testseed)
    moreover have "dflt d (js_or v e) = js_or v e" if "e \<noteq> JUndef" for d v e
      using that by (auto simp: dflt_def js_or_def)
    then have "x = \<lparr>ovl_address = json ''address'', ovl_port = json ''port'', ovl_id = json ''id'',
        ovl_flow = json ''flow'', ovl_encryption = json ''encryption'', ovl_reverseTag = t,
        ovl_testpre = js_or (json ''testpre'') (JNum 0),
        ovl_testseed = dflt out_testseed (if has_length4 (json ''testseed'') then json ''testseed'' else out_testseed)\<rparr>"
      using d False by (simp add: OutVLESSSettings_fromJson_def json OutVLESSSettings_new_def t_def)
    ultimately show ?thesis using tag ap False cl
      by (simp add: OutVLESSSettings_ok_def)
  qed
qed

lemma OutVLESSSettings_reloaded_same:
  "OutVLESSSettings_ok x \<Longrightarrow> OutVLESSSettings_toJson (OutVLESSSettings_reloaded x) = OutVLESSSettings_toJson x"
proof -
  assume "OutVLESSSettings_ok x"
  then have "has_length4 (ovl_testseed x)"
    by (auto simp: OutVLESSSettings_ok_def blank_vless_def OutVLESSSettings_new_def json_ok_testseed)
  then show ?thesis
    by (simp add: OutVLESSSettings_toJson_def OutVLESSSettings_reloaded_def flow_set_def prop_if_def)
qed

lemma OutVLESSSettings_saved:
  assumes ok: "OutVLESSSettings_ok x"
  shows "OutVLESSSettings_fromJson (wire (OutVLESSSettings_toJson x)) = Some (OutVLESSSettings_reloaded x)"
proof (cases "x = blank_vless")
  case True
  then show ?thesis
    by (simp add: blank_vless_def OutVLESSSettings_new_def OutVLESSSettings_toJson_def isEmpty_def flow_set_def
        prop_if_def OutVLESSSettings_fromJson_def OutVLESSSettings_reloaded_def)
next
  case False
  let ?tag = "\<not> isEmpty (ovl_reverseTag x)"
  let ?pre = "flow_set x \<and> gt0 (ovl_testpre x)" and ?seed = "flow_set x \<and> has_length4 (ovl_testseed x)"
  have facts: "json_ok (ovl_address x)" "json_ok (ovl_port x)" "clean (ovl_id x)" "clean (ovl_flow x)"
    "clean (ovl_encryption x)" "json_ok (ovl_reverseTag x)" "json_ok (ovl_testpre x)" "json_ok (ovl_testseed x)"
    "\<not> isEmpty (ovl_address x)" "\<not> isEmpty (ovl_port x)"
    "truthy (ovl_reverseTag x) \<longleftrightarrow> ?tag" "\<not> ?tag \<Longrightarrow> ovl_reverseTag x = JStr []"
    using ok False truthy_not_empty unfolding OutVLESSSettings_ok_def by (auto simp: isEmpty_def)
  define ps where "ps = prop_if True ''address'' (ovl_address x) @ prop_if True ''port'' (ovl_port x)
       @ prop_if (ovl_id x \<noteq> JUndef) ''id'' (ovl_id x) @ prop_if (ovl_flow x \<noteq> JUndef) ''flow'' (ovl_flow x)
       @ prop_if (ovl_encryption x \<noteq> JUndef) ''encryption'' (ovl_encryption x)
       @ prop_if ?tag ''reverse'' (JObj [(''tag'', ovl_reverseTag x)])
       @ prop_if ?pre ''testpre'' (ovl_testpre x) @ prop_if ?seed ''testseed'' (ovl_testseed x)"
  have w: "wire (OutVLESSSettings_toJson x) = JObj ps"
    using facts(1-8)
    by (simp add: OutVLESSSettings_toJson_def ps_def wire_props_append wire_prop_if prop_if_def wire_clean)
  have g: "oget ps ''address'' = ovl_address x" "oget ps ''port'' = ovl_port x" "oget ps ''id'' = ovl_id x"
    "oget ps ''flow'' = ovl_flow x" "oget ps ''encryption'' = ovl_encryption x"
    "oget ps ''reverse'' = (if ?tag then JObj [(''tag'', ovl_reverseTag x)] else JUndef)"
    "oget ps ''testpre'' = (if ?pre then ovl_testpre x else JUndef)"
    "oget ps ''testseed'' = (if ?seed then ovl_testseed x else JUndef)"
    by (simp_all add: ps_def oget_prop_if oget_prop_if_end)
  have tag: "js_or (if nullish (oget ps ''reverse'') then JUndef else mget (oget ps ''reverse'') ''tag'') (JStr []) = ovl_reverseTag x"
    using facts(11,12) by (cases ?tag) (simp_all add: g(6) nullish_def)
  have pre: "js_or (oget ps ''testpre'') (JNum 0) = (if ?pre then ovl_testpre x else JNum 0)"
    using truthy_gt0 by (cases ?pre) (auto simp: g(7))
  have seed: "(if has_length4 (oget ps ''testseed'') then oget ps ''testseed'' else out_testseed)
      = (if ?seed then ovl_testseed x else out_testseed)"
    by (auto simp: g(8) has_length4_def)
  have u: "dflt d v = v" if "v \<noteq> JUndef" for d v using that by (simp add: dflt_def)
  have n: "ovl_reverseTag x \<noteq> JUndef" "(if ?pre then ovl_testpre x else JNum 0) \<noteq> JUndef"
    "(if ?seed then ovl_testseed x else out_testseed) \<noteq> JUndef"
    using facts(6-8) by (auto simp: out_testseed_def)
  show ?thesis
    unfolding OutVLESSSettings_fromJson_def w members_default_obj OutVLESSSettings_reloaded_def
    using facts(9,10)
    by (simp only: bind.simps tag pre seed g(1-5) OutVLESSSettings_new_def u [OF n(1)] u [OF n(2)] u [OF n(3)]
        if_False simp_thms) (cases x, simp)
qed

lemma OutVLESSSettings_reloaded_ok: "OutVLESSSettings_ok x \<Longrightarrow> OutVLESSSettings_ok (OutVLESSSettings_reloaded x)"
  by (auto simp: OutVLESSSettings_ok_def OutVLESSSettings_reloaded_def json_ok_testseed
      blank_vless_def OutVLESSSettings_new_def flow_set_def)

interpretation out_vless: json_view "\<lambda>x. Some (OutVLESSSettings_toJson x)" OutVLESSSettings_fromJson
  OutVLESSSettings_ok clean
  by unfold_locales
    (auto simp: OutVLESSSettings_saved OutVLESSSettings_reloaded_same intro: OutVLESSSettings_dec_ok OutVLESSSettings_reloaded_ok)

section \<open>Trojan and Shadowsocks\<close>

text \<open>The first server of a saved document.\<close>

lemma saved_server:
  assumes "distinct (map fst ps)"
  shows "members (dflt emptyObj (wire (JObj [(''servers'', JArr [JObj ps])])))
      = Some (oget [(''servers'', JArr [JObj (wire_props ps)])])"
    "members (JObj (wire_props ps)) = Some (\<lambda>k. wire (oget ps k))"
  using oget_wire_props [OF assms] by (simp_all add: fun_eq_iff)

record OutTrojanSettings =
  otr_address :: jsval
  otr_port :: jsval
  otr_password :: jsval

definition OutTrojanSettings_new :: "jsval \<Rightarrow> jsval \<Rightarrow> jsval \<Rightarrow> OutTrojanSettings" where
  "OutTrojanSettings_new address port password =
     \<lparr>otr_address = address, otr_port = port, otr_password = password\<rparr>"

definition OutTrojanSettings_fromJson :: "jsval \<Rightarrow> OutTrojanSettings option" where
  "OutTrojanSettings_fromJson json0 = do {
     json \<leftarrow> members (dflt emptyObj json0);
     if isArrEmpty (json ''servers'') then Some (OutTrojanSettings_new JUndef JUndef JUndef)
     else do {
       server \<leftarrow> index0 (json ''servers'');
       s \<leftarrow> members server;
       Some (OutTrojanSettings_new (s ''address'') (s ''port'') (s ''password'')) } }"

definition OutTrojanSettings_toJson :: "OutTrojanSettings \<Rightarrow> jsval" where
  "OutTrojanSettings_toJson this = JObj [(''servers'', JArr [JObj
     [(''address'', otr_address this), (''port'', otr_port this), (''password'', otr_password this)]])]"

definition OutTrojanSettings_ok :: "OutTrojanSettings \<Rightarrow> bool" where
  "OutTrojanSettings_ok x \<longleftrightarrow> clean (otr_address x) \<and> clean (otr_port x) \<and> clean (otr_password x)"

lemma clean_server:
  assumes "members (dflt emptyObj j) = Some json" "clean j" "index0 (json k) = Some server" "members server = Some s"
  shows "clean (s a)"
  using clean_members [OF clean_index0 [OF assms(3) clean_member [OF assms(1,2)]] assms(4)] .

interpretation out_trojan: json_codec "\<lambda>x. Some (OutTrojanSettings_toJson x)" OutTrojanSettings_fromJson
  OutTrojanSettings_ok clean
proof unfold_locales
  show "\<lbrakk>clean j; OutTrojanSettings_fromJson j = Some x\<rbrakk> \<Longrightarrow> OutTrojanSettings_ok x" for j x
    by (auto simp: OutTrojanSettings_fromJson_def OutTrojanSettings_new_def OutTrojanSettings_ok_def
        bind_eq_Some_conv intro: clean_server split: if_splits)
next
  fix x j
  assume "OutTrojanSettings_ok x" "Some (OutTrojanSettings_toJson x) = Some j"
  then show "OutTrojanSettings_fromJson (wire j) = Some x"
    by (auto simp: OutTrojanSettings_toJson_def OutTrojanSettings_fromJson_def OutTrojanSettings_ok_def
        OutTrojanSettings_new_def saved_server wire_clean simp del: wire.simps)
qed

record OutShadowsocksSettings =
  osh_address :: jsval
  osh_port :: jsval
  osh_password :: jsval
  osh_method :: jsval
  osh_uot :: jsval
  osh_UoTVersion :: jsval

definition OutShadowsocksSettings_new ::
  "jsval \<Rightarrow> jsval \<Rightarrow> jsval \<Rightarrow> jsval \<Rightarrow> jsval \<Rightarrow> jsval \<Rightarrow> OutShadowsocksSettings" where
  "OutShadowsocksSettings_new address port password method0 uot UoTVersion =
     \<lparr>osh_address = address, osh_port = port, osh_password = password, osh_method = method0,
       osh_uot = uot, osh_UoTVersion = UoTVersion\<rparr>"

definition OutShadowsocksSettings_fromJson :: "jsval \<Rightarrow> OutShadowsocksSettings option" where
  "OutShadowsocksSettings_fromJson json0 = do {
     json \<leftarrow> members (dflt emptyObj json0);
     server \<leftarrow> first_or emptyObj (json ''servers'');
     s \<leftarrow> members server;
     Some (OutShadowsocksSettings_new (s ''address'') (s ''port'') (s ''password'') (s ''method'')
       (s ''uot'') (s ''UoTVersion'')) }"

definition OutShadowsocksSettings_toJson :: "OutShadowsocksSettings \<Rightarrow> jsval" where
  "OutShadowsocksSettings_toJson this = JObj [(''servers'', JArr [JObj
     [(''address'', osh_address this), (''port'', osh_port this), (''password'', osh_password this),
      (''method'', osh_method this), (''uot'', osh_uot this), (''UoTVersion'', osh_UoTVersion this)]])]"

definition OutShadowsocksSettings_ok :: "OutShadowsocksSettings \<Rightarrow> bool" where
  "OutShadowsocksSettings_ok x \<longleftrightarrow> clean (osh_address x) \<and> clean (osh_port x) \<and> clean (osh_password x)
     \<and> clean (osh_method x) \<and> clean (osh_uot x) \<and> clean (osh_UoTVersion x)"

lemma clean_first_or: "\<lbrakk>first_or d v = Some w; clean v; clean d\<rbrakk> \<Longrightarrow> clean w"
  by (auto simp: first_or_def dest: clean_index0 split: if_splits)

interpretation out_shadowsocks: json_codec "\<lambda>x. Some (OutShadowsocksSettings_toJson x)"
  OutShadowsocksSettings_fromJson OutShadowsocksSettings_ok clean
proof unfold_locales
  fix j x
  assume j: "clean j" and "OutShadowsocksSettings_fromJson j = Some x"
  then obtain json server s where json: "members (dflt emptyObj j) = Some json"
    and server: "first_or emptyObj (json ''servers'') = Some server" and s: "members server = Some s"
    and x: "x = OutShadowsocksSettings_new (s ''address'') (s ''port'') (s ''password'') (s ''method'')
       (s ''uot'') (s ''UoTVersion'')"
    by (auto simp: OutShadowsocksSettings_fromJson_def bind_eq_Some_conv)
  have "clean (s k)" for k
    by (rule clean_members [OF clean_first_or [OF server clean_member [OF json j]] s]) simp
  then show "OutShadowsocksSettings_ok x" by (simp add: x OutShadowsocksSettings_new_def OutShadowsocksSettings_ok_def)
next
  fix x j
  assume "OutShadowsocksSettings_ok x" "Some (OutShadowsocksSettings_toJson x) = Some j"
  then show "OutShadowsocksSettings_fromJson (wire j) = Some x"
    by (auto simp: OutShadowsocksSettings_toJson_def OutShadowsocksSettings_fromJson_def OutShadowsocksSettings_ok_def
        OutShadowsocksSettings_new_def first_or_def saved_server wire_clean simp del: wire.simps)
qed

section \<open>Socks and HTTP\<close>

text \<open>\<open>SocksSettings\<close> and \<open>HttpSettings\<close> are the same text.\<close>

record OutAccountSettings =
  oac_address :: jsval
  oac_port :: jsval
  oac_user :: jsval
  oac_pass :: jsval

definition OutAccountSettings_new :: "jsval \<Rightarrow> jsval \<Rightarrow> jsval \<Rightarrow> jsval \<Rightarrow> OutAccountSettings" where
  "OutAccountSettings_new address port user pass =
     \<lparr>oac_address = address, oac_port = port, oac_user = user, oac_pass = pass\<rparr>"

text \<open>\<open>isArrEmpty(users) ? '' : users[0].user\<close>, and the same for the password.\<close>

definition first_account :: "jsval \<Rightarrow> (jsval \<times> jsval) option" where
  "first_account users =
     (if isArrEmpty users then Some (JStr [], JStr [])
      else do { account \<leftarrow> index0 users; a \<leftarrow> members account; Some (a ''user'', a ''pass'') })"

definition account_fromJson :: "jsval \<Rightarrow> OutAccountSettings option" where
  "account_fromJson json0 = do {
     json \<leftarrow> members (dflt emptyObj json0);
     server \<leftarrow> first_or (JObj [(''users'', JArr [emptyObj])]) (json ''servers'');
     s \<leftarrow> members server;
     (user, pass) \<leftarrow> first_account (s ''users'');
     Some (OutAccountSettings_new (s ''address'') (s ''port'') user pass) }"

definition account_toJson :: "OutAccountSettings \<Rightarrow> jsval" where
  "account_toJson this = JObj [(''servers'', JArr [JObj
     [(''address'', oac_address this), (''port'', oac_port this),
      (''users'', if isEmpty (oac_user this) then JArr []
         else JArr [JObj [(''user'', oac_user this), (''pass'', oac_pass this)]])]])]"

definition OutSocksSettings_fromJson :: "jsval \<Rightarrow> OutAccountSettings option" where
  "OutSocksSettings_fromJson = account_fromJson"

definition OutSocksSettings_toJson :: "OutAccountSettings \<Rightarrow> jsval" where
  "OutSocksSettings_toJson = account_toJson"

definition OutHttpSettings_fromJson :: "jsval \<Rightarrow> OutAccountSettings option" where
  "OutHttpSettings_fromJson = account_fromJson"

definition OutHttpSettings_toJson :: "OutAccountSettings \<Rightarrow> jsval" where
  "OutHttpSettings_toJson = account_toJson"

definition account_ok :: "OutAccountSettings \<Rightarrow> bool" where
  "account_ok x \<longleftrightarrow> clean (oac_address x) \<and> clean (oac_port x) \<and> clean (oac_user x) \<and> clean (oac_pass x)"

lemma first_account_clean:
  "\<lbrakk>first_account users = Some (u, p); clean users\<rbrakk> \<Longrightarrow> clean u \<and> clean p"
  by (auto simp: first_account_def bind_eq_Some_conv intro: clean_members clean_index0 split: if_splits)

text \<open>A password without a user is not saved.\<close>

lemma account_saved:
  assumes ok: "account_ok x"
  shows "account_fromJson (wire (account_toJson x))
    = Some (if isEmpty (oac_user x) then x\<lparr>oac_user := JStr [], oac_pass := JStr []\<rparr> else x)"
proof -
  have u: "wire (JArr [JObj [(''user'', u), (''pass'', p)]]) = JArr [JObj (prop_if True ''user'' u @ prop_if (p \<noteq> JUndef) ''pass'' p)]"
    if "clean u" "clean p" "\<not> isEmpty u" for u p
    using that by (simp add: prop_if_def wire_clean isEmpty_def)
  show ?thesis
    using ok by (auto simp: account_toJson_def account_fromJson_def account_ok_def OutAccountSettings_new_def
        first_account_def first_or_def saved_server wire_clean u oget_prop_if oget_prop_if_end wire.simps(6)
        simp del: wire.simps)
qed

interpretation account: json_view "\<lambda>x. Some (account_toJson x)" account_fromJson account_ok clean
proof unfold_locales
  fix j x
  assume j: "clean j" and "account_fromJson j = Some x"
  then obtain json server s u p where json: "members (dflt emptyObj j) = Some json"
    and server: "first_or (JObj [(''users'', JArr [emptyObj])]) (json ''servers'') = Some server"
    and s: "members server = Some s" and up: "first_account (s ''users'') = Some (u, p)"
    and x: "x = OutAccountSettings_new (s ''address'') (s ''port'') u p"
    by (auto simp: account_fromJson_def bind_eq_Some_conv)
  have cl: "clean (s k)" for k
    by (rule clean_members [OF clean_first_or [OF server clean_member [OF json j]] s]) simp
  with first_account_clean [OF up] show "account_ok x" by (simp add: x OutAccountSettings_new_def account_ok_def)
next
  fix x j
  assume ok: "account_ok x" and j: "Some (account_toJson x) = Some j"
  let ?y = "if isEmpty (oac_user x) then x\<lparr>oac_user := JStr [], oac_pass := JStr []\<rparr> else x"
  have "account_ok ?y" "account_toJson ?y = account_toJson x"
    using ok by (simp_all add: account_ok_def account_toJson_def isEmpty_def)
  moreover have "account_fromJson (wire j) = Some ?y" "wire (account_toJson x) = wire j"
    using account_saved [OF ok] j by simp_all
  ultimately show "\<exists>y. account_fromJson (wire j) = Some y \<and> account_ok y
      \<and> map_option wire (Some (account_toJson y)) = Some (wire j)"
    by (metis option.map(2))
qed

section \<open>Hysteria\<close>

record OutHysteriaSettings =
  ohs_address :: jsval
  ohs_port :: jsval
  ohs_version :: jsval

definition OutHysteriaSettings_new :: "jsval \<Rightarrow> jsval \<Rightarrow> jsval \<Rightarrow> OutHysteriaSettings" where
  "OutHysteriaSettings_new address port version =
     \<lparr>ohs_address = dflt (JStr []) address, ohs_port = dflt (JNum 443) port,
       ohs_version = dflt (JNum 2) version\<rparr>"

definition OutHysteriaSettings_fromJson :: "jsval \<Rightarrow> OutHysteriaSettings option" where
  "OutHysteriaSettings_fromJson json0 = do {
     let j = dflt emptyObj json0;
     json \<leftarrow> members j;
     Some (if object_entries j = [] then OutHysteriaSettings_new JUndef JUndef JUndef
       else OutHysteriaSettings_new (json ''address'') (json ''port'') (json ''version'')) }"

definition OutHysteriaSettings_toJson :: "OutHysteriaSettings \<Rightarrow> jsval" where
  "OutHysteriaSettings_toJson this = JObj
     [(''address'', ohs_address this), (''port'', ohs_port this), (''version'', ohs_version this)]"

definition OutHysteriaSettings_ok :: "OutHysteriaSettings \<Rightarrow> bool" where
  "OutHysteriaSettings_ok x \<longleftrightarrow> json_ok (ohs_address x) \<and> json_ok (ohs_port x) \<and> json_ok (ohs_version x)"

interpretation out_hysteria_settings: json_codec "\<lambda>x. Some (OutHysteriaSettings_toJson x)"
  OutHysteriaSettings_fromJson OutHysteriaSettings_ok clean
  by unfold_locales
    (auto simp: OutHysteriaSettings_new_def OutHysteriaSettings_fromJson_def OutHysteriaSettings_toJson_def
      OutHysteriaSettings_ok_def Let_def bind_eq_Some_conv intro!: json_ok_dflt intro: clean_member)

end
