(* ===== verification/Outbound_Wireguard.thy ===== *)
theory Outbound_Wireguard
  imports Outbound_Protocols
begin

text \<open>
  The WireGuard outbound and its peers (\<open>web/assets/js/model/outbound.js\<close>). The form edits the
  addresses and the reserved bytes as comma separated texts. \<open>NaN\<close>, which \<open>Number\<close> makes of a text
  that is no numeral and JSON writes as \<open>null\<close>, is \<open>JNull\<close> here.
\<close>

section \<open>Texts of numbers\<close>

lemma numeral_not_space: "is_digit c \<Longrightarrow> \<not> is_space c"
  by (auto simp: is_digit_def is_space_def)

lemma js_trim_int_str: "js_trim (int_str n) = int_str n"
proof -
  have d: "\<forall>c \<in> set (nat_str m). is_digit c" "nat_str m \<noteq> []" for m
    using nat_str_digits nat_str_nonempty by auto
  have "\<not> is_space (hd (nat_str m))" "\<not> is_space (last (nat_str m))" for m
    using d [of m] numeral_not_space by simp_all
  moreover have "\<not> is_space (CHR ''-'')" by (simp add: is_space_def)
  ultimately have "no_outer_space (int_str n)" using d(2) by (simp add: no_outer_space_def int_str_def)
  then show ?thesis by (rule js_trim_trimmed)
qed

lemma js_number_int_str: "js_number (JStr (int_str n)) = Some n"
proof (cases "n < 0")
  case True
  have "list_all is_digit (nat_str (nat (- n)))" "nat_str (nat (- n)) \<noteq> []"
    using nat_str_digits nat_str_nonempty by (auto simp: list_all_iff)
  with True show ?thesis
    using js_trim_int_str [of n] by (simp add: int_str_def nat_of_digits_nat_str)
next
  case False
  have d: "list_all is_digit (nat_str (nat n))" using nat_str_digits by (auto simp: list_all_iff)
  obtain c cs where c: "nat_str (nat n) = c # cs" using nat_str_nonempty by (cases "nat_str (nat n)") auto
  with d have "is_digit c" by simp
  then have "c \<noteq> CHR ''-''" "c \<noteq> CHR ''+''" by (auto simp: is_digit_def)
  with False c d show ?thesis
    using js_trim_int_str [of n] nat_of_digits_nat_str [of "nat n"] by (simp add: int_str_def)
qed

lemma int_str_no_comma: "CHR '','' \<notin> set (int_str n)" "int_str n \<noteq> []"
proof -
  have "\<not> is_digit (CHR '','')" by (simp add: is_digit_def)
  then show "CHR '','' \<notin> set (int_str n)" using nat_str_digits by (auto simp: int_str_def)
  show "int_str n \<noteq> []" by (simp add: int_str_def nat_str_nonempty)
qed

definition number_value :: "string \<Rightarrow> jsval" where
  "number_value s = (case js_number (JStr s) of Some n \<Rightarrow> JNum n | None \<Rightarrow> JNull)"

definition numeric_text :: "string \<Rightarrow> bool" where
  "numeric_text s \<longleftrightarrow> (\<forall>p \<in> set (js_split (CHR '','') s). js_number (JStr p) \<noteq> None)"

text \<open>\<open>s.split(",").map(Number)\<close> of a text of numerals, joined and split again.\<close>

lemma numbers_again:
  assumes "numeric_text s"
  obtains r where "arr_join '','' (map number_value (js_split (CHR '','') s)) = r" "r \<noteq> []"
    "map number_value (js_split (CHR '','') r) = map number_value (js_split (CHR '','') s)"
    "numeric_text r" "\<forall>v \<in> set (map number_value (js_split (CHR '','') s)). json_ok v"
proof -
  let ?ps = "js_split (CHR '','') s"
  define ns where "ns = map (\<lambda>p. the (js_number (JStr p))) ?ps"
  have v: "map number_value ?ps = map JNum ns"
    using assms by (auto simp: ns_def number_value_def numeric_text_def)
  have ne: "ns \<noteq> []" by (simp add: ns_def js_split_nonempty)
  let ?r = "js_join '','' (map int_str ns)"
  have r: "arr_join '','' (map JNum ns) = ?r"
    by (simp add: arr_join_def nullish_def comp_def)
  have sp: "js_split (CHR '','') ?r = map int_str ns"
    using ne int_str_no_comma(1) by (intro js_split_join) auto
  have "?r \<noteq> []" using js_join_nonempty [of "map int_str ns"] ne int_str_no_comma(2) by auto
  moreover have "map number_value (js_split (CHR '','') ?r) = map JNum ns"
    by (simp only: sp map_map comp_def number_value_def js_number_int_str option.case)
  moreover have "numeric_text ?r"
    unfolding numeric_text_def sp using js_number_int_str by auto
  ultimately show thesis using that [OF r [folded v]] v by auto
qed

section \<open>Peers\<close>

record OutPeer =
  opr_publicKey :: jsval
  opr_psk :: jsval
  opr_allowedIPs :: jsval
  opr_endpoint :: jsval
  opr_keepAlive :: jsval

definition OutPeer_new :: "jsval \<Rightarrow> jsval \<Rightarrow> jsval \<Rightarrow> jsval \<Rightarrow> jsval \<Rightarrow> OutPeer" where
  "OutPeer_new publicKey psk allowedIPs endpoint keepAlive =
     \<lparr>opr_publicKey = dflt (JStr []) publicKey, opr_psk = dflt (JStr []) psk,
       opr_allowedIPs = dflt (JArr [JStr ''0.0.0.0/0'', JStr ''::/0'']) allowedIPs,
       opr_endpoint = dflt (JStr []) endpoint, opr_keepAlive = dflt (JNum 0) keepAlive\<rparr>"

definition OutPeer_fromJson :: "jsval \<Rightarrow> OutPeer option" where
  "OutPeer_fromJson json0 = do {
     json \<leftarrow> members (dflt emptyObj json0);
     Some (OutPeer_new (json ''publicKey'') (json ''preSharedKey'') (json ''allowedIPs'') (json ''endpoint'')
       (json ''keepAlive'')) }"

definition OutPeer_toJson :: "OutPeer \<Rightarrow> jsval option" where
  "OutPeer_toJson this = do {
     psk \<leftarrow> members (opr_psk this);
     Some (JObj
       [(''publicKey'', opr_publicKey this),
        (''preSharedKey'', if gt0 (psk ''length'') then opr_psk this else JUndef),
        (''allowedIPs'', if truthy (opr_allowedIPs this) then opr_allowedIPs this else JUndef),
        (''endpoint'', opr_endpoint this), (''keepAlive'', js_coalesce (opr_keepAlive this) JUndef)]) }"

text \<open>The peers a save keeps: no lists of addresses were deleted, and the interval is a value.\<close>

definition OutPeer_ok :: "OutPeer \<Rightarrow> bool" where
  "OutPeer_ok x \<longleftrightarrow> json_ok (opr_publicKey x) \<and> json_ok (opr_psk x) \<and> json_ok (opr_allowedIPs x)
     \<and> truthy (opr_allowedIPs x) \<and> json_ok (opr_endpoint x) \<and> json_ok (opr_keepAlive x) \<and> opr_keepAlive x \<noteq> JNull"

definition out_peer_doc :: "jsval \<Rightarrow> bool" where
  "out_peer_doc j \<longleftrightarrow> clean j \<and> mget j ''keepAlive'' \<noteq> JNull
     \<and> (mget j ''allowedIPs'' = JUndef \<or> truthy (mget j ''allowedIPs''))"

lemma dflt_JNum [simp]: "dflt (JNum n) v = JNull \<longleftrightarrow> v = JNull"
  by (simp add: dflt_def)

lemma truthy_dflt: "\<lbrakk>v = JUndef \<or> truthy v; truthy d\<rbrakk> \<Longrightarrow> truthy (dflt d v)"
  by (auto simp: dflt_def)

lemma coalesce_value: "\<lbrakk>json_ok v; v \<noteq> JNull\<rbrakk> \<Longrightarrow> js_coalesce v d = v"
  by (auto simp: js_coalesce_def nullish_def)

interpretation out_peer: json_view OutPeer_toJson OutPeer_fromJson OutPeer_ok out_peer_doc
proof unfold_locales
  fix j x
  assume doc: "out_peer_doc j" and "OutPeer_fromJson j = Some x"
  then obtain json where json: "members (dflt emptyObj j) = Some json"
    and x: "x = OutPeer_new (json ''publicKey'') (json ''preSharedKey'') (json ''allowedIPs'') (json ''endpoint'')
       (json ''keepAlive'')"
    by (auto simp: OutPeer_fromJson_def bind_eq_Some_conv)
  have cl: "clean (json k)" for k
    by (rule clean_member [OF json]) (use doc in \<open>simp add: out_peer_doc_def\<close>)
  then show "OutPeer_ok x"
    using doc by (auto simp: x OutPeer_new_def OutPeer_ok_def out_peer_doc_def mget_members [OF json] json_ok_dflt
        intro!: truthy_dflt)
next
  fix x j
  assume ok: "OutPeer_ok x" and "OutPeer_toJson x = Some j"
  then obtain psk where psk: "members (opr_psk x) = Some psk" and j: "j = JObj
       [(''publicKey'', opr_publicKey x), (''preSharedKey'', if gt0 (psk ''length'') then opr_psk x else JUndef),
        (''allowedIPs'', opr_allowedIPs x), (''endpoint'', opr_endpoint x), (''keepAlive'', opr_keepAlive x)]"
    by (auto simp: OutPeer_toJson_def bind_eq_Some_conv OutPeer_ok_def coalesce_value)
  let ?y = "if gt0 (psk ''length'') then x else x\<lparr>opr_psk := JStr []\<rparr>"
  have "OutPeer_fromJson (wire j) = Some ?y"
    using ok by (cases "gt0 (psk ''length'')") (simp_all add: j OutPeer_fromJson_def OutPeer_new_def OutPeer_ok_def)
  moreover have "OutPeer_ok ?y" "OutPeer_toJson ?y = Some j"
    using ok psk by (auto simp: j OutPeer_toJson_def OutPeer_ok_def coalesce_value)
  ultimately show "\<exists>y. OutPeer_fromJson (wire j) = Some y \<and> OutPeer_ok y
      \<and> map_option wire (OutPeer_toJson y) = Some (wire j)"
    by (intro exI [of _ ?y]) simp
qed

section \<open>The settings\<close>

definition WireguardDomainStrategy :: "string list" where
  "WireguardDomainStrategy = [''ForceIP'', ''ForceIPv4'', ''ForceIPv4v6'', ''ForceIPv6'', ''ForceIPv6v4'']"

record OutWireguardSettings =
  owg_mtu :: jsval
  owg_secretKey :: jsval
  owg_pubKey :: string
  owg_address :: jsval
  owg_workers :: jsval
  owg_domainStrategy :: jsval
  owg_reserved :: jsval
  owg_peers :: "OutPeer list"
  owg_noKernelTun :: jsval

text \<open>The public key the constructor shows; \<open>generateKeypair\<close> draws nothing for a given secret.\<close>

definition out_pubKey :: "jsval \<Rightarrow> string option" where
  "out_pubKey secretKey = do {
     sk \<leftarrow> members secretKey;
     if gt0 (sk ''length'') then map_option kp_publicKey (generateKeypair [] (js_str secretKey)) else Some [] }"

definition join_array :: "jsval \<Rightarrow> jsval" where
  "join_array v = (case v of JArr xs \<Rightarrow> JStr (arr_join '','' xs) | _ \<Rightarrow> v)"

definition OutWireguardSettings_new ::
  "jsval \<Rightarrow> jsval \<Rightarrow> jsval \<Rightarrow> jsval \<Rightarrow> jsval \<Rightarrow> jsval \<Rightarrow> OutPeer list \<Rightarrow> jsval \<Rightarrow> OutWireguardSettings option" where
  "OutWireguardSettings_new mtu secretKey address workers domainStrategy reserved peers noKernelTun = do {
     let secretKey = dflt (JStr []) secretKey;
     pubKey \<leftarrow> out_pubKey secretKey;
     Some \<lparr>owg_mtu = dflt (JNum 1420) mtu, owg_secretKey = secretKey, owg_pubKey = pubKey,
       owg_address = join_array (dflt (JArr [JStr []]) address), owg_workers = dflt (JNum 2) workers,
       owg_domainStrategy = dflt (JStr []) domainStrategy, owg_reserved = join_array (dflt (JStr []) reserved),
       owg_peers = peers, owg_noKernelTun = dflt (JBool True) noKernelTun\<rparr> }"

definition out_addPeer :: "OutWireguardSettings \<Rightarrow> OutWireguardSettings" where
  "out_addPeer this = this\<lparr>owg_peers := owg_peers this @ [OutPeer_new JUndef JUndef JUndef JUndef JUndef]\<rparr>"

definition out_delPeer :: "int \<Rightarrow> OutWireguardSettings \<Rightarrow> OutWireguardSettings" where
  "out_delPeer index this = this\<lparr>owg_peers := splice1 index (owg_peers this)\<rparr>"

text \<open>\<open>json.peers.map\<close> throws where the member is absent.\<close>

definition OutWireguardSettings_fromJson :: "jsval \<Rightarrow> OutWireguardSettings option" where
  "OutWireguardSettings_fromJson json0 = do {
     json \<leftarrow> members (dflt emptyObj json0);
     js \<leftarrow> as_array (json ''peers'');
     peers \<leftarrow> traverse OutPeer_fromJson js;
     OutWireguardSettings_new (json ''mtu'') (json ''secretKey'') (json ''address'') (json ''workers'')
       (json ''domainStrategy'') (json ''reserved'') peers (JBool (json ''noKernelTun'' = JBool True)) }"

text \<open>\<open>v ? v.split(",") : d\<close>; of the truthy values only texts have \<open>split\<close>.\<close>

definition split_text :: "jsval \<Rightarrow> string list option option" where
  "split_text v = (if truthy v then (case v of JStr s \<Rightarrow> Some (Some (js_split (CHR '','') s)) | _ \<Rightarrow> None)
     else Some None)"

definition OutWireguardSettings_toJson :: "OutWireguardSettings \<Rightarrow> jsval option" where
  "OutWireguardSettings_toJson this = do {
     address \<leftarrow> split_text (owg_address this);
     reserved \<leftarrow> split_text (owg_reserved this);
     peers \<leftarrow> traverse OutPeer_toJson (owg_peers this);
     Some (JObj
       [(''mtu'', js_coalesce (owg_mtu this) JUndef), (''secretKey'', owg_secretKey this),
        (''address'', JArr (case address of Some ss \<Rightarrow> map JStr ss | None \<Rightarrow> [])),
        (''workers'', js_coalesce (owg_workers this) JUndef),
        (''domainStrategy'', if one_of (owg_domainStrategy this) WireguardDomainStrategy
           then owg_domainStrategy this else JUndef),
        (''reserved'', case reserved of Some ss \<Rightarrow> JArr (map number_value ss) | None \<Rightarrow> JUndef),
        (''peers'', JArr peers), (''noKernelTun'', owg_noKernelTun this)]) }"

definition numeric_field :: "jsval \<Rightarrow> bool" where
  "numeric_field v \<longleftrightarrow> (case v of JStr s \<Rightarrow> s = [] \<or> numeric_text s | _ \<Rightarrow> True)"

definition is_flag :: "jsval \<Rightarrow> bool" where
  "is_flag v \<longleftrightarrow> v = JBool True \<or> v = JBool False"

lemma numeric_field_text: "numeric_field v \<longleftrightarrow> (\<forall>s. v = JStr s \<longrightarrow> s = [] \<or> numeric_text s)"
  by (simp add: numeric_field_def split: jsval.split)

lemma is_flag_bool: "is_flag v \<longleftrightarrow> (\<exists>b. v = JBool b)"
  by (auto simp: is_flag_def)

definition OutWireguardSettings_ok :: "OutWireguardSettings \<Rightarrow> bool" where
  "OutWireguardSettings_ok x \<longleftrightarrow> json_ok (owg_mtu x) \<and> owg_mtu x \<noteq> JNull \<and> json_ok (owg_secretKey x)
     \<and> out_pubKey (owg_secretKey x) = Some (owg_pubKey x)
     \<and> json_ok (owg_workers x) \<and> owg_workers x \<noteq> JNull
     \<and> numeric_field (owg_reserved x)
     \<and> (\<forall>p \<in> set (owg_peers x). OutPeer_ok p)
     \<and> is_flag (owg_noKernelTun x)"

definition out_wg_doc :: "jsval \<Rightarrow> bool" where
  "out_wg_doc j \<longleftrightarrow> clean j \<and> mget j ''mtu'' \<noteq> JNull \<and> mget j ''workers'' \<noteq> JNull
     \<and> numeric_field (join_array (mget j ''reserved''))
     \<and> (case mget j ''peers'' of JArr ps \<Rightarrow> list_all out_peer_doc ps | _ \<Rightarrow> True)"

lemma OutWireguardSettings_dec_ok:
  assumes doc: "out_wg_doc j" and d: "OutWireguardSettings_fromJson j = Some x"
  shows "OutWireguardSettings_ok x"
proof -
  obtain json js peers where json: "members (dflt emptyObj j) = Some json" and js: "as_array (json ''peers'') = Some js"
    and peers: "traverse OutPeer_fromJson js = Some peers"
    and x: "OutWireguardSettings_new (json ''mtu'') (json ''secretKey'') (json ''address'') (json ''workers'')
       (json ''domainStrategy'') (json ''reserved'') peers (JBool (json ''noKernelTun'' = JBool True)) = Some x"
    using d by (auto simp: OutWireguardSettings_fromJson_def bind_eq_Some_conv)
  have cl: "clean (json k)" for k
    by (rule clean_member [OF json]) (use doc in \<open>simp add: out_wg_doc_def\<close>)
  note doc' = doc [unfolded out_wg_doc_def numeric_field_text mget_members [OF json]]
  have "json ''peers'' = JArr js" using js by (cases "json ''peers''") auto
  then have "\<forall>p \<in> set peers. OutPeer_ok p"
    using doc' out_peer.dec_list_ok [OF _ peers] by (simp add: list_all_iff)
  moreover have "\<forall>s. join_array (dflt (JStr []) (json ''reserved'')) = JStr s \<longrightarrow> s = [] \<or> numeric_text s"
    using doc' by (auto simp: dflt_def join_array_def)
  moreover have "json_ok (dflt (JNum 1420) (json ''mtu''))" "dflt (JNum 1420) (json ''mtu'') \<noteq> JNull"
    "json_ok (dflt (JNum 2) (json ''workers''))" "dflt (JNum 2) (json ''workers'') \<noteq> JNull"
    "json_ok (dflt (JStr []) (json ''secretKey''))"
    using doc' cl by (auto simp: json_ok_dflt)
  moreover have "\<exists>b. dflt (JBool True) (JBool (json ''noKernelTun'' = JBool True)) = JBool b" by (simp add: dflt_def)
  ultimately show ?thesis
    using x unfolding OutWireguardSettings_new_def OutWireguardSettings_ok_def Let_def numeric_field_text is_flag_bool
    by (auto simp: bind_eq_Some_conv)
qed

text \<open>The text of the addresses comes back; that of the reserved bytes as the text of their numbers.\<close>

lemma split_text_address:
  assumes "split_text v = Some a"
  obtains t where "join_array (wire (JArr (case a of Some ss \<Rightarrow> map JStr ss | None \<Rightarrow> []))) = JStr t"
    "(case a of Some ss \<Rightarrow> JArr (map JStr ss) | None \<Rightarrow> JArr []) =
       (case (if t = [] then None else Some (js_split (CHR '','') t)) of Some ss \<Rightarrow> JArr (map JStr ss) | None \<Rightarrow> JArr [])"
proof (cases a)
  case None
  then show thesis by (intro that [of "[]"]) (simp_all add: join_array_def arr_join_def)
next
  case (Some ss)
  then obtain s where s: "v = JStr s" "s \<noteq> []" "ss = js_split (CHR '','') s"
    using assms by (auto simp: split_text_def split: if_splits jsval.splits)
  have items: "wire_items (map JStr us) = map JStr us" for us by (induction us) auto
  show thesis
    using s Some by (intro that [of s]) (simp_all add: join_array_def items arr_join_strings js_join_split)
qed

lemma split_text_reserved:
  assumes "split_text v = Some a" "\<forall>s. v = JStr s \<longrightarrow> s = [] \<or> numeric_text s"
  obtains t where "join_array (dflt (JStr []) (wire (case a of Some ss \<Rightarrow> JArr (map number_value ss) | None \<Rightarrow> JUndef))) = JStr t"
    "t = [] \<or> numeric_text t" "wire (case a of Some ss \<Rightarrow> JArr (map number_value ss) | None \<Rightarrow> JUndef)
      = (case a of Some ss \<Rightarrow> JArr (map number_value ss) | None \<Rightarrow> JUndef)"
    "(case a of Some ss \<Rightarrow> JArr (map number_value ss) | None \<Rightarrow> JUndef) =
       (case (if t = [] then None else Some (js_split (CHR '','') t)) of Some ss \<Rightarrow> JArr (map number_value ss) | None \<Rightarrow> JUndef)"
proof (cases a)
  case None
  then show thesis by (intro that [of "[]"]) (simp_all add: join_array_def)
next
  case (Some ss)
  then obtain s where s: "v = JStr s" "s \<noteq> []" "ss = js_split (CHR '','') s"
    using assms(1) by (auto simp: split_text_def split: if_splits jsval.splits)
  with assms(2) have "numeric_text s" by simp
  from numbers_again [OF this] obtain r where r: "arr_join '','' (map number_value ss) = r" "r \<noteq> []"
    "map number_value (js_split (CHR '','') r) = map number_value ss" "numeric_text r"
    "\<forall>v \<in> set (map number_value ss). json_ok v"
    unfolding s(3) by blast
  then show thesis
    using Some by (intro that [of r]) (simp_all add: join_array_def wire_json_ok_all(2) dflt_def)
qed

lemma OutPeer_toJson_obj: "OutPeer_toJson p = Some j \<Longrightarrow> j \<noteq> JUndef"
  by (auto simp: OutPeer_toJson_def bind_eq_Some_conv)

lemma wire_items_peers: "traverse OutPeer_toJson ps = Some js \<Longrightarrow> wire_items js = map wire js"
  by (induction ps arbitrary: js) (auto simp: bind_eq_Some_conv dest: OutPeer_toJson_obj)

lemma OutWireguardSettings_view:
  assumes ok: "OutWireguardSettings_ok x" and j: "OutWireguardSettings_toJson x = Some j"
  shows "\<exists>y. OutWireguardSettings_fromJson (wire j) = Some y \<and> OutWireguardSettings_ok y
    \<and> map_option wire (OutWireguardSettings_toJson y) = Some (wire j)"
proof -
  note oks = ok [unfolded OutWireguardSettings_ok_def numeric_field_text is_flag_bool]
  define ds where "ds = (if one_of (owg_domainStrategy x) WireguardDomainStrategy then owg_domainStrategy x else JUndef)"
  define obj where "obj = (\<lambda>addr res peers. [(''mtu'', owg_mtu x), (''secretKey'', owg_secretKey x),
        (''address'', addr), (''workers'', owg_workers x), (''domainStrategy'', ds),
        (''reserved'', res), (''peers'', JArr peers), (''noKernelTun'', owg_noKernelTun x)])"
  have co: "js_coalesce (owg_mtu x) JUndef = owg_mtu x" "js_coalesce (owg_workers x) JUndef = owg_workers x"
    using oks by (simp_all add: coalesce_value)
  obtain a r ps where a: "split_text (owg_address x) = Some a" and r: "split_text (owg_reserved x) = Some r"
    and ps: "traverse OutPeer_toJson (owg_peers x) = Some ps"
    and j': "j = JObj (obj (JArr (case a of Some ss \<Rightarrow> map JStr ss | None \<Rightarrow> []))
      (case r of Some ss \<Rightarrow> JArr (map number_value ss) | None \<Rightarrow> JUndef) ps)"
    using j unfolding OutWireguardSettings_toJson_def co bind_eq_Some_conv option.inject obj_def ds_def
    by (elim exE conjE) (rule that, assumption+, simp only: obj_def ds_def)
  obtain t where t: "join_array (wire (JArr (case a of Some ss \<Rightarrow> map JStr ss | None \<Rightarrow> []))) = JStr t"
    "(case a of Some ss \<Rightarrow> JArr (map JStr ss) | None \<Rightarrow> JArr []) =
       (case (if t = [] then None else Some (js_split (CHR '','') t)) of Some ss \<Rightarrow> JArr (map JStr ss) | None \<Rightarrow> JArr [])"
    by (rule split_text_address [OF a])
  define res where "res = (case r of Some ss \<Rightarrow> JArr (map number_value ss) | None \<Rightarrow> JUndef)"
  obtain u where u: "join_array (dflt (JStr []) (wire res)) = JStr u" "u = [] \<or> numeric_text u" "wire res = res"
    "res = (case (if u = [] then None else Some (js_split (CHR '','') u)) of Some ss \<Rightarrow> JArr (map number_value ss) | None \<Rightarrow> JUndef)"
    unfolding res_def by (rule split_text_reserved [OF r]) (use oks in blast)
  obtain qs where qs: "traverse OutPeer_fromJson (map wire ps) = Some qs" "\<forall>q \<in> set qs. OutPeer_ok q"
    "map_option (map wire) (traverse OutPeer_toJson qs) = Some (map wire ps)"
    using out_peer.view_list [OF _ ps] oks by auto
  then obtain ks where ks: "traverse OutPeer_toJson qs = Some ks" "map wire ks = map wire ps" by auto
  let ?y = "x\<lparr>owg_address := JStr t, owg_domainStrategy := dflt (JStr []) ds, owg_reserved := JStr u, owg_peers := qs\<rparr>"
  define addr where "addr = JArr (case a of Some ss \<Rightarrow> map JStr ss | None \<Rightarrow> [])"
  have dist: "distinct (map fst (obj addr res ps))" by (simp add: obj_def)
  have dsw: "wire ds = ds" by (auto simp: ds_def one_of_def)
  have js: "wire (oget (obj addr res ps) ''peers'') = JArr (map wire ps)"
    using wire_items_peers [OF ps] by (simp add: obj_def)
  have fields: "wire (oget (obj addr res ps) ''mtu'') = owg_mtu x"
    "wire (oget (obj addr res ps) ''secretKey'') = owg_secretKey x"
    "wire (oget (obj addr res ps) ''workers'') = owg_workers x"
    "wire (oget (obj addr res ps) ''noKernelTun'') = owg_noKernelTun x"
    using oks by (auto simp: obj_def wire_json_ok)
  have texts: "wire (oget (obj addr res ps) ''address'') = wire addr"
    "wire (oget (obj addr res ps) ''reserved'') = wire res"
    "wire (oget (obj addr res ps) ''domainStrategy'') = ds"
    by (simp_all add: obj_def dsw)
  have flag: "JBool (owg_noKernelTun x = JBool True) = owg_noKernelTun x" using oks by auto
  have vals: "dflt (JNum 1420) (owg_mtu x) = owg_mtu x" "dflt (JStr []) (owg_secretKey x) = owg_secretKey x"
    "dflt (JNum 2) (owg_workers x) = owg_workers x" "dflt (JBool True) (owg_noKernelTun x) = owg_noKernelTun x"
    "dflt (JArr [JStr []]) (wire addr) = wire addr"
    using oks by (auto simp: dflt_def addr_def)
  have "OutWireguardSettings_fromJson (wire j) = Some ?y"
    unfolding OutWireguardSettings_fromJson_def j' addr_def [symmetric] res_def [symmetric] members_wire [OF dist]
      Option.bind.simps js as_array.simps qs(1) fields texts flag OutWireguardSettings_new_def vals Let_def
      t(1) [folded addr_def] u(1)
    using oks by simp
  moreover have "OutWireguardSettings_ok ?y"
    using oks qs(2) u(2) by (simp add: OutWireguardSettings_ok_def numeric_field_text is_flag_bool)
  moreover have "split_text (JStr s) = Some (if s = [] then None else Some (js_split (CHR '','') s))" for s
    by (simp add: split_text_def)
  moreover have again: "(if one_of (dflt (JStr []) ds) WireguardDomainStrategy then dflt (JStr []) ds else JUndef) = ds"
    by (auto simp: ds_def one_of_def dflt_def WireguardDomainStrategy_def)
  moreover have "JArr (case a of Some ss \<Rightarrow> map JStr ss | None \<Rightarrow> [])
      = JArr (case (if t = [] then None else Some (js_split (CHR '','') t)) of Some ss \<Rightarrow> map JStr ss | None \<Rightarrow> [])"
    using t(2) by (cases a) auto
  ultimately have "OutWireguardSettings_toJson ?y = Some (JObj (obj addr res ks))"
    using ks(1) u(4) co by (simp add: OutWireguardSettings_toJson_def obj_def addr_def
        split del: if_split cong: if_cong)
  moreover have "wire (JObj (obj addr res ks)) = wire j"
    unfolding j' addr_def [symmetric] res_def [symmetric] wire.simps
    by (rule arg_cong [where f = JObj], rule wire_props_cong)
      (use wire_items_peers [OF ks(1)] wire_items_peers [OF ps] ks(2) in \<open>simp add: obj_def\<close>)
  ultimately show ?thesis
    using \<open>OutWireguardSettings_fromJson (wire j) = Some ?y\<close> \<open>OutWireguardSettings_ok ?y\<close> by auto
qed

interpretation out_wireguard: json_view OutWireguardSettings_toJson OutWireguardSettings_fromJson
  OutWireguardSettings_ok out_wg_doc
  by unfold_locales (rule OutWireguardSettings_dec_ok OutWireguardSettings_view; assumption)+

end
