(* ===== verification/Outbound.thy ===== *)
theory Outbound
  imports Outbound_Stream Outbound_Dns Outbound_Wireguard
begin

text \<open>
  \<open>Outbound\<close> of \<open>web/assets/js/model/outbound.js\<close>: the object behind the outbound form, with
  the settings of one protocol, a stream and the multiplexing options. Nothing here is drawn at
  random.
\<close>

section \<open>The settings of a protocol\<close>

datatype OutSettings =
    FreedomO FreedomSettings
  | BlackholeO BlackholeSettings
  | DnsO OutDnsSettings
  | VmessO OutVmessSettings
  | VlessO OutVLESSSettings
  | TrojanO OutTrojanSettings
  | ShadowsocksO OutShadowsocksSettings
  | WireguardO OutWireguardSettings
  | HysteriaO OutHysteriaSettings
  | SocksO OutAccountSettings
  | HttpO OutAccountSettings

fun out_protocol_of :: "OutSettings \<Rightarrow> string" where
  "out_protocol_of (FreedomO s) = ''freedom''"
| "out_protocol_of (BlackholeO s) = ''blackhole''"
| "out_protocol_of (DnsO s) = ''dns''"
| "out_protocol_of (VmessO s) = ''vmess''"
| "out_protocol_of (VlessO s) = ''vless''"
| "out_protocol_of (TrojanO s) = ''trojan''"
| "out_protocol_of (ShadowsocksO s) = ''shadowsocks''"
| "out_protocol_of (WireguardO s) = ''wireguard''"
| "out_protocol_of (HysteriaO s) = ''hysteria''"
| "out_protocol_of (SocksO s) = ''socks''"
| "out_protocol_of (HttpO s) = ''http''"

definition OutProtocols :: "string list" where
  "OutProtocols = [''freedom'', ''blackhole'', ''dns'', ''vmess'', ''vless'', ''trojan'', ''shadowsocks'',
     ''wireguard'', ''hysteria'', ''socks'', ''http'']"

definition blank_freedom :: FreedomSettings where
  "blank_freedom = FreedomSettings_new JUndef JUndef None [] []"

text \<open>The outer \<open>None\<close> is an exception, the inner one \<open>null\<close> or \<open>undefined\<close>.\<close>

definition out_getSettings :: "jsval \<Rightarrow> OutSettings option option" where
  "out_getSettings protocol =
     (if protocol = JStr ''freedom'' then Some (Some (FreedomO blank_freedom))
      else if protocol = JStr ''blackhole'' then Some (Some (BlackholeO (BlackholeSettings_new JUndef)))
      else if protocol = JStr ''dns'' then Some (Some (DnsO (OutDnsSettings_new JUndef JUndef JUndef [])))
      else if protocol = JStr ''vmess'' then Some (Some (VmessO (OutVmessSettings_new JUndef JUndef JUndef JUndef)))
      else if protocol = JStr ''vless'' then Some (Some (VlessO blank_vless))
      else if protocol = JStr ''trojan'' then Some (Some (TrojanO (OutTrojanSettings_new JUndef JUndef JUndef)))
      else if protocol = JStr ''shadowsocks'' then
        Some (Some (ShadowsocksO (OutShadowsocksSettings_new JUndef JUndef JUndef JUndef JUndef JUndef)))
      else if protocol = JStr ''socks'' then
        Some (Some (SocksO (OutAccountSettings_new JUndef JUndef JUndef JUndef)))
      else if protocol = JStr ''http'' then
        Some (Some (HttpO (OutAccountSettings_new JUndef JUndef JUndef JUndef)))
      else if protocol = JStr ''wireguard'' then
        map_option (Some \<circ> WireguardO)
          (OutWireguardSettings_new JUndef JUndef JUndef JUndef JUndef JUndef [OutPeer_new JUndef JUndef JUndef JUndef JUndef] JUndef)
      else if protocol = JStr ''hysteria'' then
        Some (Some (HysteriaO (OutHysteriaSettings_new JUndef JUndef JUndef)))
      else Some None)"

definition OutSettings_fromJson :: "jsval \<Rightarrow> jsval \<Rightarrow> OutSettings option option" where
  "OutSettings_fromJson protocol json =
     (if protocol = JStr ''freedom'' then map_option (Some \<circ> FreedomO) (FreedomSettings_fromJson json)
      else if protocol = JStr ''blackhole'' then map_option (Some \<circ> BlackholeO) (BlackholeSettings_fromJson json)
      else if protocol = JStr ''dns'' then map_option (Some \<circ> DnsO) (OutDnsSettings_fromJson json)
      else if protocol = JStr ''vmess'' then map_option (map_option VmessO) (OutVmessSettings_fromJson json)
      else if protocol = JStr ''vless'' then map_option (Some \<circ> VlessO) (OutVLESSSettings_fromJson json)
      else if protocol = JStr ''trojan'' then map_option (Some \<circ> TrojanO) (OutTrojanSettings_fromJson json)
      else if protocol = JStr ''shadowsocks'' then
        map_option (Some \<circ> ShadowsocksO) (OutShadowsocksSettings_fromJson json)
      else if protocol = JStr ''socks'' then map_option (Some \<circ> SocksO) (OutSocksSettings_fromJson json)
      else if protocol = JStr ''http'' then map_option (Some \<circ> HttpO) (OutHttpSettings_fromJson json)
      else if protocol = JStr ''wireguard'' then
        map_option (Some \<circ> WireguardO) (OutWireguardSettings_fromJson json)
      else if protocol = JStr ''hysteria'' then
        map_option (Some \<circ> HysteriaO) (OutHysteriaSettings_fromJson json)
      else Some None)"

text \<open>\<open>this.settings instanceof CommonClass ? this.settings.toJson() : this.settings\<close>.\<close>

fun OutSettings_toJson :: "OutSettings option \<Rightarrow> jsval option" where
  "OutSettings_toJson None = Some JNull"
| "OutSettings_toJson (Some (FreedomO s)) = Some (FreedomSettings_toJson s)"
| "OutSettings_toJson (Some (BlackholeO s)) = Some (BlackholeSettings_toJson s)"
| "OutSettings_toJson (Some (DnsO s)) = OutDnsSettings_toJson s"
| "OutSettings_toJson (Some (VmessO s)) = Some (OutVmessSettings_toJson s)"
| "OutSettings_toJson (Some (VlessO s)) = Some (OutVLESSSettings_toJson s)"
| "OutSettings_toJson (Some (TrojanO s)) = Some (OutTrojanSettings_toJson s)"
| "OutSettings_toJson (Some (ShadowsocksO s)) = Some (OutShadowsocksSettings_toJson s)"
| "OutSettings_toJson (Some (WireguardO s)) = OutWireguardSettings_toJson s"
| "OutSettings_toJson (Some (HysteriaO s)) = Some (OutHysteriaSettings_toJson s)"
| "OutSettings_toJson (Some (SocksO s)) = Some (OutSocksSettings_toJson s)"
| "OutSettings_toJson (Some (HttpO s)) = Some (OutHttpSettings_toJson s)"

definition out_match :: "jsval \<Rightarrow> OutSettings option \<Rightarrow> bool" where
  "out_match protocol settings \<longleftrightarrow> (case settings of
     Some s \<Rightarrow> protocol = JStr (out_protocol_of s)
   | None \<Rightarrow> \<forall>p \<in> set OutProtocols. protocol \<noteq> JStr p)"

lemma out_protocol_of_in: "out_protocol_of s \<in> set OutProtocols"
  by (cases s) (simp_all add: OutProtocols_def)

lemma out_getSettings_match: "out_getSettings protocol = Some s \<Longrightarrow> out_match protocol s"
  by (auto simp: out_getSettings_def OutProtocols_def out_match_def split: if_splits)

text \<open>Only the VMess reader returns nothing for a protocol that has settings.\<close>

lemma OutSettings_fromJson_match:
  "OutSettings_fromJson protocol json = Some s \<Longrightarrow> out_match protocol s \<or> protocol = JStr ''vmess'' \<and> s = None"
  by (auto simp: OutSettings_fromJson_def OutProtocols_def out_match_def split: if_splits)

section \<open>Multiplexing\<close>

record Mux =
  mux_enabled :: jsval
  mux_concurrency :: jsval
  mux_xudpConcurrency :: jsval
  mux_xudpProxyUDP443 :: jsval

definition Mux_new :: "jsval \<Rightarrow> jsval \<Rightarrow> jsval \<Rightarrow> jsval \<Rightarrow> Mux" where
  "Mux_new enabled concurrency xudpConcurrency xudpProxyUDP443 =
     \<lparr>mux_enabled = dflt (JBool False) enabled, mux_concurrency = dflt (JNum 8) concurrency,
       mux_xudpConcurrency = dflt (JNum 16) xudpConcurrency,
       mux_xudpProxyUDP443 = dflt (JStr ''reject'') xudpProxyUDP443\<rparr>"

definition Mux_fromJson :: "jsval \<Rightarrow> Mux option option" where
  "Mux_fromJson json0 = do {
     let j = dflt emptyObj json0;
     json \<leftarrow> members j;
     Some (if object_entries j = [] then None
       else Some (Mux_new (json ''enabled'') (json ''concurrency'') (json ''xudpConcurrency'')
         (json ''xudpProxyUDP443''))) }"

definition Mux_toJson :: "Mux \<Rightarrow> jsval" where
  "Mux_toJson this = JObj
     [(''enabled'', mux_enabled this), (''concurrency'', mux_concurrency this),
      (''xudpConcurrency'', mux_xudpConcurrency this), (''xudpProxyUDP443'', mux_xudpProxyUDP443 this)]"

definition Mux_ok :: "Mux \<Rightarrow> bool" where
  "Mux_ok x \<longleftrightarrow> json_ok (mux_enabled x) \<and> json_ok (mux_concurrency x) \<and> json_ok (mux_xudpConcurrency x)
     \<and> json_ok (mux_xudpProxyUDP443 x)"

interpretation mux: json_codec "\<lambda>x. Some (Mux_toJson x)" "\<lambda>j. Option.bind (Mux_fromJson j) (\<lambda>x. x)" Mux_ok clean
  by unfold_locales
    (auto simp: Mux_new_def Mux_fromJson_def Mux_toJson_def Mux_ok_def Let_def bind_eq_Some_conv
      intro!: json_ok_dflt intro: clean_member split: if_splits)

section \<open>The outbound\<close>

record Outbound =
  ob_tag :: jsval
  ob_protocol :: jsval
  ob_settings :: "OutSettings option"
  ob_stream :: OutStreamSettings
  ob_sendThrough :: jsval
  ob_mux :: Mux

text \<open>\<open>None\<close> stands for settings that are \<open>null\<close> or \<open>undefined\<close>, and for an \<open>undefined\<close> \<open>mux\<close>.\<close>

definition Outbound_new ::
  "jsval \<Rightarrow> jsval \<Rightarrow> OutSettings option \<Rightarrow> OutStreamSettings \<Rightarrow> jsval \<Rightarrow> Mux option \<Rightarrow> Outbound option" where
  "Outbound_new tag protocol settings streamSettings sendThrough mux = do {
     let protocol = dflt (JStr ''vless'') protocol;
     settings \<leftarrow> (case settings of None \<Rightarrow> out_getSettings protocol | Some s \<Rightarrow> Some (Some s));
     Some \<lparr>ob_tag = dflt (JStr []) tag, ob_protocol = protocol, ob_settings = settings,
       ob_stream = streamSettings, ob_sendThrough = sendThrough,
       ob_mux = (case mux of None \<Rightarrow> Mux_new JUndef JUndef JUndef JUndef | Some m \<Rightarrow> m)\<rparr> }"

definition set_out_protocol :: "jsval \<Rightarrow> Outbound \<Rightarrow> Outbound option" where
  "set_out_protocol protocol this = do {
     settings \<leftarrow> out_getSettings protocol;
     Some (this\<lparr>ob_protocol := protocol, ob_settings := settings,
       ob_stream := OutStreamSettings_default JUndef JUndef\<rparr>) }"

definition out_network_in :: "Outbound \<Rightarrow> string list \<Rightarrow> bool" where
  "out_network_in this ns \<longleftrightarrow> os_network (ob_stream this) \<in> set (map JStr ns)"

definition out_protocol_in :: "Outbound \<Rightarrow> string list \<Rightarrow> bool" where
  "out_protocol_in this ps \<longleftrightarrow> ob_protocol this \<in> set (map JStr ps)"

definition out_canEnableTls :: "Outbound \<Rightarrow> bool" where
  "out_canEnableTls this \<longleftrightarrow>
     (if ob_protocol this = JStr ''hysteria'' then True
      else if \<not> out_protocol_in this [''vmess'', ''vless'', ''trojan'', ''shadowsocks''] then False
      else out_network_in this [''tcp'', ''ws'', ''http'', ''grpc'', ''httpupgrade'', ''xhttp''])"

text \<open>\<open>security != 'none'\<close> compares loosely.\<close>

definition out_canEnableTlsFlow :: "Outbound \<Rightarrow> bool" where
  "out_canEnableTlsFlow this \<longleftrightarrow>
     (if \<not> loosely (os_security (ob_stream this)) ''none'' \<and> os_network (ob_stream this) = JStr ''tcp''
      then ob_protocol this = JStr ''vless'' else False)"

definition settings_flow :: "OutSettings option \<Rightarrow> jsval" where
  "settings_flow settings = (case settings of Some (VlessO s) \<Rightarrow> ovl_flow s | _ \<Rightarrow> JUndef)"

definition out_canEnableVisionSeed :: "Outbound \<Rightarrow> bool" where
  "out_canEnableVisionSeed this \<longleftrightarrow>
     (if \<not> out_canEnableTlsFlow this then False
      else settings_flow (ob_settings this) = JStr ''xtls-rprx-vision''
        \<or> settings_flow (ob_settings this) = JStr ''xtls-rprx-vision-udp443'')"

definition out_canEnableReality :: "Outbound \<Rightarrow> bool" where
  "out_canEnableReality this \<longleftrightarrow>
     (if \<not> out_protocol_in this [''vless'', ''trojan''] then False
      else out_network_in this [''tcp'', ''http'', ''grpc'', ''xhttp''])"

definition out_canEnableStream :: "Outbound \<Rightarrow> bool" where
  "out_canEnableStream this \<longleftrightarrow>
     out_protocol_in this [''vmess'', ''vless'', ''trojan'', ''shadowsocks'', ''hysteria'']"

text \<open>The question the form asks of the multiplexing switch also turns it off. It throws without
  settings.\<close>

definition mux_off :: "Outbound \<Rightarrow> Outbound" where
  "mux_off this = this\<lparr>ob_mux := (ob_mux this)\<lparr>mux_enabled := JBool False\<rparr>\<rparr>"

definition canEnableMux :: "Outbound \<Rightarrow> (bool \<times> Outbound) option" where
  "canEnableMux this = (case ob_settings this of
     None \<Rightarrow> None
   | Some s \<Rightarrow>
       if truthy (settings_flow (Some s)) \<and> settings_flow (Some s) \<noteq> JStr [] then Some (False, mux_off this)
       else if os_network (ob_stream this) = JStr ''xhttp'' then Some (False, mux_off this)
       else Some (out_protocol_in this [''vmess'', ''vless'', ''trojan'', ''shadowsocks'', ''http'', ''socks''], this))"

definition hasServers :: "Outbound \<Rightarrow> bool" where
  "hasServers this \<longleftrightarrow> out_protocol_in this [''trojan'', ''shadowsocks'', ''socks'', ''http'']"

definition hasAddressPort :: "Outbound \<Rightarrow> bool" where
  "hasAddressPort this \<longleftrightarrow> out_protocol_in this
     [''dns'', ''vmess'', ''vless'', ''trojan'', ''shadowsocks'', ''socks'', ''http'', ''hysteria'']"

definition hasUsername :: "Outbound \<Rightarrow> bool" where
  "hasUsername this \<longleftrightarrow> out_protocol_in this [''socks'', ''http'']"

definition Outbound_fromJson :: "jsval \<Rightarrow> Outbound option" where
  "Outbound_fromJson json0 = do {
     json \<leftarrow> members (dflt emptyObj json0);
     settings \<leftarrow> OutSettings_fromJson (json ''protocol'') (json ''settings'');
     stream \<leftarrow> OutStreamSettings_fromJson (json ''streamSettings'');
     mux \<leftarrow> Mux_fromJson (json ''mux'');
     Outbound_new (json ''tag'') (json ''protocol'') settings stream (json ''sendThrough'') mux }"

text \<open>The \<open>var stream\<close> of \<open>toJson\<close>; \<open>JUndef\<close> where nothing is assigned.\<close>

definition out_stream_json :: "Outbound \<Rightarrow> jsval option" where
  "out_stream_json this =
     (if out_canEnableStream this then OutStreamSettings_toJson (ob_stream this)
      else Some (case os_sockopt (ob_stream this) of
          Some s \<Rightarrow> JObj [(''sockopt'', OutSockoptStreamSettings_toJson s)]
        | None \<Rightarrow> JUndef))"

definition Outbound_toJson :: "Outbound \<Rightarrow> jsval option" where
  "Outbound_toJson this = do {
     stream \<leftarrow> out_stream_json this;
     settingsOut \<leftarrow> OutSettings_toJson (ob_settings this);
     Some (JObj ([(''protocol'', ob_protocol this), (''settings'', settingsOut)]
       @ prop_if (truthy (ob_tag this)) ''tag'' (ob_tag this)
       @ prop_if (truthy stream) ''streamSettings'' stream
       @ prop_if (truthy (ob_sendThrough this)) ''sendThrough'' (ob_sendThrough this)
       @ prop_if (truthy (mux_enabled (ob_mux this))) ''mux'' (Mux_toJson (ob_mux this)))) }"

section \<open>The settings are those of the protocol\<close>

definition Outbound_wf :: "Outbound \<Rightarrow> bool" where
  "Outbound_wf x \<longleftrightarrow> out_match (ob_protocol x) (ob_settings x)"

lemma Outbound_new_wf:
  assumes "Outbound_new tag protocol settings stream sendThrough mux = Some x"
    "\<And>s. settings = Some s \<Longrightarrow> protocol = JStr (out_protocol_of s)"
  shows "Outbound_wf x"
  using assms
  by (auto simp: Outbound_new_def Outbound_wf_def bind_eq_Some_conv Let_def dest: out_getSettings_match
      split: option.splits) (simp_all add: out_match_def dflt_def)

lemma Outbound_fromJson_wf: "Outbound_fromJson j = Some x \<Longrightarrow> Outbound_wf x"
  unfolding Outbound_fromJson_def bind_eq_Some_conv
  by (elim exE conjE, erule Outbound_new_wf) (auto dest: OutSettings_fromJson_match simp: out_match_def)

lemma canEnableMux_same:
  assumes "canEnableMux x = Some (b, y)"
  shows "ob_protocol y = ob_protocol x" "ob_settings y = ob_settings x" "ob_stream y = ob_stream x"
  using assms by (auto simp: canEnableMux_def mux_off_def split: option.splits if_splits)

section \<open>Saving and reloading\<close>

fun OutSettings_ok :: "OutSettings \<Rightarrow> bool" where
  "OutSettings_ok (FreedomO s) = FreedomSettings_ok s"
| "OutSettings_ok (BlackholeO s) = BlackholeSettings_ok s"
| "OutSettings_ok (DnsO s) = OutDnsSettings_ok s"
| "OutSettings_ok (VmessO s) = OutVmessSettings_ok s"
| "OutSettings_ok (VlessO s) = OutVLESSSettings_ok s"
| "OutSettings_ok (TrojanO s) = OutTrojanSettings_ok s"
| "OutSettings_ok (ShadowsocksO s) = OutShadowsocksSettings_ok s"
| "OutSettings_ok (WireguardO s) = OutWireguardSettings_ok s"
| "OutSettings_ok (HysteriaO s) = OutHysteriaSettings_ok s"
| "OutSettings_ok (SocksO s) = account_ok s"
| "OutSettings_ok (HttpO s) = account_ok s"

definition out_settings_doc :: "jsval \<Rightarrow> jsval \<Rightarrow> bool" where
  "out_settings_doc protocol j \<longleftrightarrow> (if protocol = JStr ''wireguard'' then out_wg_doc j else clean j)"

lemmas account_names = OutSocksSettings_fromJson_def OutSocksSettings_toJson_def
  OutHttpSettings_fromJson_def OutHttpSettings_toJson_def

lemma OutSettings_fromJson_ok:
  assumes "out_settings_doc protocol j" "OutSettings_fromJson protocol j = Some (Some s)"
  shows "OutSettings_ok s"
  using assms
  by (auto simp: OutSettings_fromJson_def out_settings_doc_def account_names split: if_splits
      dest: freedom.dec_ok [rotated] blackhole.dec_ok [rotated] out_dns.dec_ok [rotated]
        OutVmessSettings_dec_ok [rotated] out_vless.dec_ok [rotated] out_trojan.dec_ok [rotated]
        out_shadowsocks.dec_ok [rotated] out_wireguard.dec_ok [rotated]
        out_hysteria_settings.dec_ok [rotated] account.dec_ok [rotated])

definition out_reloads :: "OutSettings \<Rightarrow> jsval \<Rightarrow> bool" where
  "out_reloads s j \<longleftrightarrow> (\<exists>t. OutSettings_fromJson (JStr (out_protocol_of s)) (wire j) = Some (Some t)
     \<and> out_protocol_of t = out_protocol_of s \<and> OutSettings_ok t
     \<and> map_option wire (OutSettings_toJson (Some t)) = Some (wire j))"

lemma out_reloadsI:
  "\<lbrakk>OutSettings_fromJson (JStr (out_protocol_of s)) (wire j) = Some (Some t);
    out_protocol_of t = out_protocol_of s; OutSettings_ok t;
    map_option wire (OutSettings_toJson (Some t)) = Some (wire j)\<rbrakk> \<Longrightarrow> out_reloads s j"
  by (auto simp: out_reloads_def)

text \<open>Each class keeps its contract, so the dispatch keeps it.\<close>

lemma OutSettings_reload:
  assumes "OutSettings_ok s" "OutSettings_toJson (Some s) = Some j"
  shows "out_reloads s j"
proof (cases s)
  case (FreedomO x)
  with assms freedom.view [of x j] obtain y where "FreedomSettings_fromJson (wire j) = Some y"
    "FreedomSettings_ok y" "map_option wire (Some (FreedomSettings_toJson y)) = Some (wire j)" by auto
  with FreedomO show ?thesis by (intro out_reloadsI [of _ _ "FreedomO y"]) (simp_all add: OutSettings_fromJson_def)
next
  case (BlackholeO x)
  with assms blackhole.view [of x j] obtain y where "BlackholeSettings_fromJson (wire j) = Some y"
    "BlackholeSettings_ok y" "map_option wire (Some (BlackholeSettings_toJson y)) = Some (wire j)" by auto
  with BlackholeO show ?thesis by (intro out_reloadsI [of _ _ "BlackholeO y"]) (simp_all add: OutSettings_fromJson_def)
next
  case (DnsO x)
  with assms out_dns.view [of x j] obtain y where "OutDnsSettings_fromJson (wire j) = Some y"
    "OutDnsSettings_ok y" "map_option wire (OutDnsSettings_toJson y) = Some (wire j)" by auto
  with DnsO show ?thesis by (intro out_reloadsI [of _ _ "DnsO y"]) (simp_all add: OutSettings_fromJson_def)
next
  case (VmessO x)
  with assms OutVmessSettings_saved [of x] show ?thesis
    by (intro out_reloadsI [of _ _ s]) (auto simp: OutSettings_fromJson_def)
next
  case (VlessO x)
  with assms out_vless.view [of x j] obtain y where "OutVLESSSettings_fromJson (wire j) = Some y"
    "OutVLESSSettings_ok y" "map_option wire (Some (OutVLESSSettings_toJson y)) = Some (wire j)" by auto
  with VlessO show ?thesis by (intro out_reloadsI [of _ _ "VlessO y"]) (simp_all add: OutSettings_fromJson_def)
next
  case (TrojanO x)
  with assms out_trojan.enc_dec [of x j] show ?thesis
    by (intro out_reloadsI [of _ _ s]) (simp_all add: OutSettings_fromJson_def)
next
  case (ShadowsocksO x)
  with assms out_shadowsocks.enc_dec [of x j] show ?thesis
    by (intro out_reloadsI [of _ _ s]) (simp_all add: OutSettings_fromJson_def)
next
  case (WireguardO x)
  with assms out_wireguard.view [of x j] obtain y where "OutWireguardSettings_fromJson (wire j) = Some y"
    "OutWireguardSettings_ok y" "map_option wire (OutWireguardSettings_toJson y) = Some (wire j)" by auto
  with WireguardO show ?thesis by (intro out_reloadsI [of _ _ "WireguardO y"]) (simp_all add: OutSettings_fromJson_def)
next
  case (HysteriaO x)
  with assms out_hysteria_settings.enc_dec [of x j] show ?thesis
    by (intro out_reloadsI [of _ _ s]) (simp_all add: OutSettings_fromJson_def)
next
  case (SocksO x)
  with assms account.view [of x j] obtain y where "account_fromJson (wire j) = Some y"
    "account_ok y" "map_option wire (Some (account_toJson y)) = Some (wire j)" by (auto simp: account_names)
  with SocksO show ?thesis
    by (intro out_reloadsI [of _ _ "SocksO y"]) (simp_all add: OutSettings_fromJson_def account_names)
next
  case (HttpO x)
  with assms account.view [of x j] obtain y where "account_fromJson (wire j) = Some y"
    "account_ok y" "map_option wire (Some (account_toJson y)) = Some (wire j)" by (auto simp: account_names)
  with HttpO show ?thesis
    by (intro out_reloadsI [of _ _ "HttpO y"]) (simp_all add: OutSettings_fromJson_def account_names)
qed

lemma OutSettings_toJson_obj: "OutSettings_toJson s = Some j \<Longrightarrow> j \<noteq> JUndef"
  by (induction s rule: OutSettings_toJson.induct)
    (auto simp: FreedomSettings_toJson_def BlackholeSettings_toJson_def OutDnsSettings_toJson_def
      OutVmessSettings_toJson_def OutVLESSSettings_toJson_def OutTrojanSettings_toJson_def
      OutShadowsocksSettings_toJson_def OutWireguardSettings_toJson_def OutHysteriaSettings_toJson_def
      account_names account_toJson_def bind_eq_Some_conv)

lemma out_settings_again:
  assumes "out_match protocol s" "\<forall>x. s = Some x \<longrightarrow> OutSettings_ok x" "OutSettings_toJson s = Some j"
  obtains t k where "OutSettings_fromJson protocol (wire j) = Some t" "out_match protocol t"
    "\<forall>x. t = Some x \<longrightarrow> OutSettings_ok x" "OutSettings_toJson t = Some k" "wire k = wire j"
    "t = None \<Longrightarrow> out_getSettings protocol = Some None"
proof (cases s)
  case None
  then have p: "\<forall>p \<in> set OutProtocols. protocol \<noteq> JStr p" using assms(1) by (simp add: out_match_def)
  then have "OutSettings_fromJson protocol (wire j) = Some None" "out_getSettings protocol = Some None"
    by (simp_all add: OutSettings_fromJson_def out_getSettings_def OutProtocols_def)
  with None p assms(3) show thesis
    by (intro that [of None JNull]) (auto simp: out_match_def)
next
  case (Some x)
  with assms have "out_reloads x j" "protocol = JStr (out_protocol_of x)"
    by (auto intro: OutSettings_reload simp: out_match_def)
  then obtain t where "OutSettings_fromJson protocol (wire j) = Some (Some t)" "out_protocol_of t = out_protocol_of x"
    "OutSettings_ok t" "map_option wire (OutSettings_toJson (Some t)) = Some (wire j)"
    by (auto simp: out_reloads_def)
  with \<open>protocol = _\<close> show thesis
    by (intro that [of "Some t" "the (OutSettings_toJson (Some t))"]) (auto simp: out_match_def)
qed

text \<open>The documents the form is specified for: those its parts are specified for.\<close>

definition outbound_doc :: "jsval \<Rightarrow> bool" where
  "outbound_doc j \<longleftrightarrow> clean j \<and> mget j ''protocol'' \<noteq> JUndef
     \<and> out_settings_doc (mget j ''protocol'') (mget j ''settings'') \<and> out_stream_doc (mget j ''streamSettings'')"

definition Outbound_ok :: "Outbound \<Rightarrow> bool" where
  "Outbound_ok x \<longleftrightarrow> Outbound_wf x \<and> json_ok (ob_tag x) \<and> json_ok (ob_protocol x)
     \<and> (\<forall>s. ob_settings x = Some s \<longrightarrow> OutSettings_ok s) \<and> OutStreamSettings_ok (ob_stream x)
     \<and> clean (ob_sendThrough x) \<and> Mux_ok (ob_mux x)"

lemma vmess_blank_ok: "out_getSettings (JStr ''vmess'') = Some (Some (VmessO (OutVmessSettings_new JUndef JUndef JUndef JUndef)))"
  "OutSettings_ok (VmessO (OutVmessSettings_new JUndef JUndef JUndef JUndef))"
  by (simp_all add: out_getSettings_def OutVmessSettings_new_def OutVmessSettings_ok_def)

lemma Outbound_new_settings:
  assumes "Outbound_new tag protocol settings stream st mux = Some x" "protocol \<noteq> JUndef"
    "out_match protocol settings \<or> protocol = JStr ''vmess'' \<and> settings = None"
    "\<forall>s. settings = Some s \<longrightarrow> OutSettings_ok s" "ob_settings x = Some s"
  shows "OutSettings_ok s"
proof (cases settings)
  case None
  show ?thesis
  proof (cases "protocol = JStr ''vmess''")
    case True
    with None assms(1,5) vmess_blank_ok show ?thesis by (auto simp: Outbound_new_def dflt_def)
  next
    case False
    with None assms(3) have "\<forall>p \<in> set OutProtocols. protocol \<noteq> JStr p" by (simp add: out_match_def)
    then have "out_getSettings protocol = Some None" by (simp add: out_getSettings_def OutProtocols_def)
    with None assms(1,2,5) show ?thesis by (auto simp: Outbound_new_def dflt_def)
  qed
next
  case (Some t)
  with assms show ?thesis by (auto simp: Outbound_new_def)
qed

lemma Outbound_fromJson_ok:
  assumes doc: "outbound_doc j" and x: "Outbound_fromJson j = Some x"
  shows "Outbound_ok x"
proof -
  obtain json settings stream mux where json: "members (dflt emptyObj j) = Some json"
    and settings: "OutSettings_fromJson (json ''protocol'') (json ''settings'') = Some settings"
    and stream: "OutStreamSettings_fromJson (json ''streamSettings'') = Some stream"
    and mux: "Mux_fromJson (json ''mux'') = Some mux"
    and new: "Outbound_new (json ''tag'') (json ''protocol'') settings stream (json ''sendThrough'') mux = Some x"
    using x by (auto simp: Outbound_fromJson_def bind_eq_Some_conv)
  note docs = doc [unfolded outbound_doc_def mget_members [OF json]]
  have cl: "clean (json k)" for k by (rule clean_member [OF json]) (use docs in blast)
  have set_ok: "\<forall>s. settings = Some s \<longrightarrow> OutSettings_ok s"
    using settings docs by (auto intro: OutSettings_fromJson_ok)
  have "OutStreamSettings_ok stream" using out_stream.dec_ok [OF _ stream] docs by blast
  moreover have "\<forall>s. ob_settings x = Some s \<longrightarrow> OutSettings_ok s"
    using Outbound_new_settings [OF new _ OutSettings_fromJson_match [OF settings] set_ok] docs by blast
  moreover have "Mux_ok (Mux_new JUndef JUndef JUndef JUndef)" by (simp add: Mux_ok_def Mux_new_def dflt_def)
  moreover have "Mux_ok m" if "mux = Some m" for m
    using mux.dec_ok [OF cl, of "''mux''" m] mux that by simp
  ultimately show ?thesis
    using new cl Outbound_fromJson_wf [OF x]
    by (auto simp: Outbound_ok_def Outbound_new_def Let_def bind_eq_Some_conv json_ok_dflt split: option.splits)
qed

text \<open>The stream is written again as it was: the protocol decides how much of it.\<close>

lemma out_stream_sockopt_only:
  assumes "out_sockopt_ok s"
  obtains t u where "OutStreamSettings_fromJson (wire (case s of Some s \<Rightarrow> JObj [(''sockopt'', OutSockoptStreamSettings_toJson s)]
      | None \<Rightarrow> JUndef)) = Some t" "OutStreamSettings_ok t" "os_sockopt t = u"
    "wire (out_sockopt_toJson u) = wire (out_sockopt_toJson s)"
proof -
  obtain base where base: "OutStreamSettings_fromJson JUndef = Some base" using OutStreamSettings_absent(1) by auto
  obtain u where u: "OutSockoptStreamSettings_fromJson (wire (out_sockopt_toJson s)) = Some u" "out_sockopt_ok u"
    "wire (out_sockopt_toJson u) = wire (out_sockopt_toJson s)"
    using out_sockopt.view [OF assms] by auto
  have "OutStreamSettings_fromJson (wire (case s of Some s \<Rightarrow> JObj [(''sockopt'', OutSockoptStreamSettings_toJson s)]
      | None \<Rightarrow> JUndef)) = Some (base\<lparr>os_sockopt := u\<rparr>)"
    using base u(1) by (cases s)
      (auto simp: OutStreamSettings_fromJson_def bind_eq_Some_conv OutStreamSettings_new_def out_sockopt_toJson_def
        OutSockoptStreamSettings_toJson_def)
  moreover have "OutStreamSettings_ok (base\<lparr>os_sockopt := u\<rparr>)"
    using out_stream.dec_ok [OF OutStreamSettings_absent(2) base] u(2) by (simp add: OutStreamSettings_ok_def)
  ultimately show thesis using that u(3) by simp
qed

lemma out_stream_json_again:
  assumes "OutStreamSettings_ok (ob_stream x)" "out_stream_json x = Some j"
  obtains t where "OutStreamSettings_fromJson (wire j) = Some t" "OutStreamSettings_ok t"
    "\<And>y. \<lbrakk>ob_protocol y = ob_protocol x; ob_stream y = t\<rbrakk> \<Longrightarrow> map_option wire (out_stream_json y) = Some (wire j)"
proof (cases "out_canEnableStream x")
  case True
  with assms obtain t where "OutStreamSettings_fromJson (wire j) = Some t" "OutStreamSettings_ok t"
    "map_option wire (OutStreamSettings_toJson t) = Some (wire j)"
    using out_stream.view [OF assms(1), of j] by (auto simp: out_stream_json_def)
  with True that show thesis by (auto simp: out_stream_json_def out_canEnableStream_def out_protocol_in_def)
next
  case False
  let ?w = "\<lambda>s. (case s of Some s \<Rightarrow> JObj [(''sockopt'', OutSockoptStreamSettings_toJson s)] | None \<Rightarrow> JUndef)"
  have w: "wire (?w s) = (if wire (out_sockopt_toJson s) = JUndef then JUndef
      else JObj [(''sockopt'', wire (out_sockopt_toJson s))])" for s
    by (cases s) (simp_all add: out_sockopt_toJson_def OutSockoptStreamSettings_toJson_def)
  from False assms(2) have j: "j = ?w (os_sockopt (ob_stream x))" by (simp add: out_stream_json_def)
  have "out_sockopt_ok (os_sockopt (ob_stream x))" using assms(1) by (simp add: OutStreamSettings_ok_def)
  then obtain t u where "OutStreamSettings_fromJson (wire j) = Some t" "OutStreamSettings_ok t" "os_sockopt t = u"
    "wire (out_sockopt_toJson u) = wire (out_sockopt_toJson (os_sockopt (ob_stream x)))"
    unfolding j by (rule out_stream_sockopt_only)
  moreover have "map_option wire (out_stream_json y) = Some (wire j)"
    if "ob_protocol y = ob_protocol x" "ob_stream y = t" for y
  proof -
    from False that(1) have "\<not> out_canEnableStream y" by (simp add: out_canEnableStream_def out_protocol_in_def)
    then have "map_option wire (out_stream_json y) = Some (wire (?w u))"
      using that(2) \<open>os_sockopt t = u\<close> by (simp add: out_stream_json_def)
    then show ?thesis unfolding j w \<open>wire (out_sockopt_toJson u) = _\<close> .
  qed
  ultimately show thesis by (intro that)
qed

definition Outbound_json :: "jsval \<Rightarrow> jsval \<Rightarrow> jsval \<Rightarrow> jsval \<Rightarrow> jsval \<Rightarrow> jsval \<Rightarrow> jsval" where
  "Outbound_json protocol settings tag stream sendThrough mux = JObj
     ([(''protocol'', protocol), (''settings'', settings)] @ prop_if (truthy tag) ''tag'' tag
       @ prop_if (truthy stream) ''streamSettings'' stream @ prop_if (truthy sendThrough) ''sendThrough'' sendThrough
       @ prop_if (truthy mux) ''mux'' mux)"

definition mux_json :: "Mux \<Rightarrow> jsval" where
  "mux_json m = (if truthy (mux_enabled m) then Mux_toJson m else JUndef)"

lemma Outbound_toJson_parts:
  "Outbound_toJson x = Some j \<longleftrightarrow> (\<exists>stream settings. out_stream_json x = Some stream
     \<and> OutSettings_toJson (ob_settings x) = Some settings
     \<and> j = Outbound_json (ob_protocol x) settings (ob_tag x) stream (ob_sendThrough x) (mux_json (ob_mux x)))"
  by (auto simp: Outbound_toJson_def Outbound_json_def mux_json_def bind_eq_Some_conv prop_if_def Mux_toJson_def)

lemma truthy_wire: "truthy (wire v) = truthy v"
  by (cases v) simp_all

lemma Outbound_json_wire:
  "settings \<noteq> JUndef \<Longrightarrow> protocol \<noteq> JUndef \<Longrightarrow> wire (Outbound_json protocol settings tag stream sendThrough mux)
     = Outbound_json (wire protocol) (wire settings) (wire tag) (wire stream) (wire sendThrough) (wire mux)"
  by (auto simp: Outbound_json_def prop_if_def wire_props_append truthy_wire)

text \<open>A value that is dropped where it is falsy is read as absent.\<close>

definition unless_falsy :: "jsval \<Rightarrow> jsval" where
  "unless_falsy v = (if truthy v then v else JUndef)"

lemma Outbound_json_members:
  assumes "json = oget ([(''protocol'', protocol), (''settings'', settings)] @ prop_if (truthy tag) ''tag'' tag
       @ prop_if (truthy stream) ''streamSettings'' stream @ prop_if (truthy sendThrough) ''sendThrough'' sendThrough
       @ prop_if (truthy mux) ''mux'' mux)"
  shows "json ''protocol'' = protocol" "json ''settings'' = settings" "json ''tag'' = unless_falsy tag"
    "json ''streamSettings'' = unless_falsy stream" "json ''sendThrough'' = unless_falsy sendThrough"
    "json ''mux'' = unless_falsy mux"
  unfolding assms by (simp_all add: prop_if_def unless_falsy_def)

lemma mux_again:
  assumes "Mux_ok m"
  obtains n where "Mux_fromJson (unless_falsy (wire (mux_json m))) = Some n"
    "Mux_ok (case n of None \<Rightarrow> Mux_new JUndef JUndef JUndef JUndef | Some m \<Rightarrow> m)"
    "mux_json (case n of None \<Rightarrow> Mux_new JUndef JUndef JUndef JUndef | Some m \<Rightarrow> m) = mux_json m"
proof (cases "truthy (mux_enabled m)")
  case True
  have "Option.bind (Mux_fromJson (wire (Mux_toJson m))) (\<lambda>x. x) = Some m" using mux.enc_dec [OF assms] by simp
  then have "Mux_fromJson (wire (Mux_toJson m)) = Some (Some m)" by (simp add: bind_eq_Some_conv)
  moreover have "truthy (wire (Mux_toJson m))" by (simp add: Mux_toJson_def)
  ultimately show thesis using True assms that [of "Some m"] by (simp add: mux_json_def unless_falsy_def)
next
  case False
  then have "Mux_fromJson (unless_falsy (wire (mux_json m))) = Some None"
    by (simp add: mux_json_def unless_falsy_def Mux_fromJson_def dflt_def)
  with False show thesis
    by (intro that [of None]) (simp_all add: Mux_ok_def Mux_new_def dflt_def mux_json_def)
qed

lemma out_stream_json_value: "out_stream_json x = Some j \<Longrightarrow> unless_falsy (wire j) = wire j"
  by (auto simp: out_stream_json_def OutStreamSettings_toJson_def unless_falsy_def bind_eq_Some_conv
      split: if_splits option.splits)

lemma Outbound_json_same:
  assumes "truthy tag' = truthy tag" "truthy tag \<Longrightarrow> tag' = tag" "truthy st' = truthy st" "truthy st \<Longrightarrow> st' = st"
  shows "Outbound_json p s tag' stream st' m = Outbound_json p s tag stream st m"
  using assms by (auto simp: Outbound_json_def prop_if_def)

lemma Outbound_view:
  assumes ok: "Outbound_ok x" and enc: "Outbound_toJson x = Some j"
  shows "\<exists>y. Outbound_fromJson (wire j) = Some y \<and> Outbound_ok y \<and> map_option wire (Outbound_toJson y) = Some (wire j)"
proof -
  note oks = ok [unfolded Outbound_ok_def]
  obtain sj cj where sj: "out_stream_json x = Some sj" and cj: "OutSettings_toJson (ob_settings x) = Some cj"
    and j: "j = Outbound_json (ob_protocol x) cj (ob_tag x) sj (ob_sendThrough x) (mux_json (ob_mux x))"
    using enc unfolding Outbound_toJson_parts by blast
  have cu: "cj \<noteq> JUndef" by (rule OutSettings_toJson_obj [OF cj])
  obtain t k where t: "OutSettings_fromJson (ob_protocol x) (wire cj) = Some t" "out_match (ob_protocol x) t"
    "\<forall>x. t = Some x \<longrightarrow> OutSettings_ok x" "OutSettings_toJson t = Some k" "wire k = wire cj"
    "t = None \<Longrightarrow> out_getSettings (ob_protocol x) = Some None"
    using out_settings_again [OF _ _ cj] oks by (auto simp: Outbound_wf_def)
  obtain u where u: "OutStreamSettings_fromJson (wire sj) = Some u" "OutStreamSettings_ok u"
    "\<And>y. \<lbrakk>ob_protocol y = ob_protocol x; ob_stream y = u\<rbrakk> \<Longrightarrow> map_option wire (out_stream_json y) = Some (wire sj)"
    using out_stream_json_again [OF _ sj] oks by blast
  obtain n where n: "Mux_fromJson (unless_falsy (wire (mux_json (ob_mux x)))) = Some n"
    "Mux_ok (case n of None \<Rightarrow> Mux_new JUndef JUndef JUndef JUndef | Some m \<Rightarrow> m)"
    "mux_json (case n of None \<Rightarrow> Mux_new JUndef JUndef JUndef JUndef | Some m \<Rightarrow> m) = mux_json (ob_mux x)"
    using mux_again oks by blast
  let ?y = "\<lparr>ob_tag = dflt (JStr []) (unless_falsy (ob_tag x)), ob_protocol = ob_protocol x, ob_settings = t,
    ob_stream = u, ob_sendThrough = unless_falsy (ob_sendThrough x),
    ob_mux = (case n of None \<Rightarrow> Mux_new JUndef JUndef JUndef JUndef | Some m \<Rightarrow> m)\<rparr>"
  have p: "ob_protocol x \<noteq> JUndef" "wire (ob_protocol x) = ob_protocol x" "wire (ob_tag x) = ob_tag x"
    "wire (ob_sendThrough x) = ob_sendThrough x"
    using oks by (auto simp: wire_clean wire_json_ok)
  have new: "Outbound_new (unless_falsy (ob_tag x)) (ob_protocol x) t u (unless_falsy (ob_sendThrough x)) n = Some ?y"
    using t(6) p(1) by (cases t) (simp_all add: Outbound_new_def dflt_def)
  have w: "wire j = Outbound_json (ob_protocol x) (wire cj) (ob_tag x) (wire sj) (ob_sendThrough x)
      (wire (mux_json (ob_mux x)))"
    unfolding j by (simp add: Outbound_json_wire cu p)
  obtain json where json: "members (dflt emptyObj (wire j)) = Some json"
    "json ''protocol'' = ob_protocol x" "json ''settings'' = wire cj" "json ''tag'' = unless_falsy (ob_tag x)"
    "json ''streamSettings'' = unless_falsy (wire sj)" "json ''sendThrough'' = unless_falsy (ob_sendThrough x)"
    "json ''mux'' = unless_falsy (wire (mux_json (ob_mux x)))"
    unfolding w Outbound_json_def using Outbound_json_members [OF refl] by (simp add: dflt_def)
  have "Outbound_fromJson (wire j) = Some ?y"
    unfolding Outbound_fromJson_def json(1) Option.bind.simps json(2-)
    by (simp add: t(1) u(1) n(1) new out_stream_json_value [OF sj])
  moreover have "Outbound_ok ?y"
    using oks t(2,3) u(2) n(2) by (auto simp: Outbound_ok_def Outbound_wf_def unless_falsy_def dflt_def)
  moreover obtain l where l: "out_stream_json ?y = Some l" "wire l = wire sj"
    using u(3) [of ?y] by auto
  moreover have "Outbound_toJson ?y = Some (Outbound_json (ob_protocol x) k (ob_tag ?y) l (ob_sendThrough ?y)
      (mux_json (ob_mux x)))"
    unfolding Outbound_toJson_parts using l(1) t(4) n(3) by auto
  moreover have "wire (Outbound_json (ob_protocol x) k (ob_tag ?y) l (ob_sendThrough ?y) (mux_json (ob_mux x))) = wire j"
  proof -
    have "Outbound_json (ob_protocol x) k (ob_tag ?y) l (ob_sendThrough ?y) (mux_json (ob_mux x))
        = Outbound_json (ob_protocol x) k (ob_tag x) l (ob_sendThrough x) (mux_json (ob_mux x))"
      by (rule Outbound_json_same) (auto simp: unless_falsy_def dflt_def)
    moreover have "k \<noteq> JUndef" by (rule OutSettings_toJson_obj [OF t(4)])
    ultimately show ?thesis by (simp add: w Outbound_json_wire p t(5) l(2))
  qed
  ultimately show ?thesis by (intro exI [of _ ?y]) simp
qed

interpretation outbound: json_view Outbound_toJson Outbound_fromJson Outbound_ok outbound_doc
  by unfold_locales (rule Outbound_fromJson_ok Outbound_view; assumption)+

end
