(* ===== verification/Outbound_Links.thy ===== *)
theory Outbound_Links
  imports Outbound Link_Facts
begin

text \<open>
  The import of a share link into the outbound form (\<open>Outbound.fromLink\<close> and its three readers in
  \<open>web/assets/js/model/outbound.js\<close>). The two regular expressions are matched the way the language
  does it: greedily, longest run first, with backtracking. What the browser and the caller supply is
  one argument: \<open>URL\<close> (its search parameters and its fragment; \<open>None\<close> is thrown), \<open>URLSearchParams\<close>,
  \<open>atob\<close> and \<open>JSON.parse\<close>.
\<close>

section \<open>Regular expressions\<close>

text \<open>A literal text, a greedy run of at least so many characters of a class, or a character with a
  run after it that may both be absent.\<close>

datatype rx = Lit string | Run nat "char \<Rightarrow> bool" | Opt char "char \<Rightarrow> bool"

definition run_splits :: "nat \<Rightarrow> (char \<Rightarrow> bool) \<Rightarrow> string \<Rightarrow> (string \<times> string) list" where
  "run_splits m P s = map (\<lambda>n. (take n s, drop n s)) (rev [m..<Suc (length (takeWhile P s))])"

text \<open>The ways an item can begin a text, in the order they are tried.\<close>

fun rx_splits :: "rx \<Rightarrow> string \<Rightarrow> (string \<times> string) list" where
  "rx_splits (Lit l) s = (if starts_with s l then [(l, drop (length l) s)] else [])"
| "rx_splits (Run m P) s = run_splits m P s"
| "rx_splits (Opt c P) s = (case s of
       x # xs \<Rightarrow> if x = c then map (\<lambda>(a, b). (c # a, b)) (run_splits 0 P xs) else []
     | [] \<Rightarrow> []) @ [([], s)]"

fun first_some :: "('a \<Rightarrow> 'b option) \<Rightarrow> 'a list \<Rightarrow> 'b option" where
  "first_some f [] = None"
| "first_some f (x # xs) = (case f x of None \<Rightarrow> first_some f xs | Some y \<Rightarrow> Some y)"

text \<open>The texts of the items when they match up to the end (\<open>$\<close>).\<close>

primrec rx_match :: "rx list \<Rightarrow> string \<Rightarrow> string list option" where
  "rx_match [] = (\<lambda>s. if s = [] then Some [] else None)"
| "rx_match (r # rs) = (\<lambda>s. first_some (\<lambda>(a, b). map_option ((#) a) (rx_match rs b)) (rx_splits r s))"

text \<open>Without \<open>^\<close> the first place where a match starts.\<close>

fun rx_search :: "rx list \<Rightarrow> string \<Rightarrow> string list option" where
  "rx_search rs [] = rx_match rs []"
| "rx_search rs (c # cs) = (case rx_match rs (c # cs) of None \<Rightarrow> rx_search rs cs | Some m \<Rightarrow> Some m)"

lemma run_splits_nil: "run_splits 0 P [] = [([], [])]" "run_splits (Suc m) P [] = []"
  by (simp_all add: run_splits_def)

lemma run_splits_sound: "(a, b) \<in> set (run_splits m P s) \<Longrightarrow> s = a @ b \<and> m \<le> length a \<and> (\<forall>c \<in> set a. P c)"
proof -
  assume "(a, b) \<in> set (run_splits m P s)"
  then obtain n where n: "m \<le> n" "n \<le> length (takeWhile P s)" "a = take n s" "b = drop n s"
    by (auto simp: run_splits_def)
  have "a = take n (takeWhile P s)" using n(2,3) by (metis takeWhile_eq_take take_take min.absorb1)
  then have "\<forall>c \<in> set a. P c" by (metis in_set_takeD set_takeWhileD)
  moreover have "m \<le> length a" using n length_takeWhile_le [of P s] by simp
  ultimately show ?thesis using n by simp
qed

lemma rx_splits_sound: "(a, b) \<in> set (rx_splits r s) \<Longrightarrow> s = a @ b"
proof (cases r)
  case (Lit l)
  assume "(a, b) \<in> set (rx_splits r s)"
  with Lit have "a = l" "b = drop (length l) s" "take (length l) s = l"
    by (auto simp: starts_with_take split: if_splits)
  then show ?thesis by (metis append_take_drop_id)
next
  case (Run m P)
  assume "(a, b) \<in> set (rx_splits r s)"
  with Run show ?thesis using run_splits_sound by fastforce
next
  case (Opt c P)
  assume "(a, b) \<in> set (rx_splits r s)"
  with Opt show ?thesis by (auto split: list.splits if_splits dest: run_splits_sound)
qed

lemma first_some_in: "first_some f xs = Some y \<Longrightarrow> \<exists>x \<in> set xs. f x = Some y"
  by (induction xs) (auto split: option.splits)

text \<open>The matched texts, one for each item, make up the text.\<close>

lemma rx_match_sound: "rx_match rs s = Some m \<Longrightarrow> concat m = s \<and> length m = length rs"
proof (induction rs arbitrary: s m)
  case Nil
  then show ?case by (auto split: if_splits)
next
  case (Cons r rs)
  then obtain a b n where "(a, b) \<in> set (rx_splits r s)" "rx_match rs b = Some n" "m = a # n"
    by (auto dest!: first_some_in)
  with Cons.IH [of b n] rx_splits_sound [of a b r s] show ?case by simp
qed

text \<open>A run that cannot be longer and matches: nothing else is tried.\<close>

lemma run_splits_first:
  assumes "\<forall>c \<in> set a. P c" "m \<le> length a" "b = [] \<or> \<not> P (hd b)"
  obtains rest where "run_splits m P (a @ b) = (a, b) # rest"
proof -
  have "takeWhile P (a @ b) = a" using assms by (cases b) auto
  then have "run_splits m P (a @ b) = map (\<lambda>n. (take n (a @ b), drop n (a @ b))) (rev ([m..<length a] @ [length a]))"
    using assms(2) by (simp add: run_splits_def)
  then show thesis using that by simp
qed

lemma rx_match_run:
  assumes "\<forall>c \<in> set a. P c" "m \<le> length a" "b = [] \<or> \<not> P (hd b)" "rx_match rs b = Some n"
  shows "rx_match (Run m P # rs) (a @ b) = Some (a # n)"
  using run_splits_first [OF assms(1-3)] assms(4) by (metis (no_types, lifting) case_prod_conv
      first_some.simps(2) option.simps(5) option.simps(9) rx_match.simps(2) rx_splits.simps(2))

lemma rx_match_lit: "rx_match (Lit l # rs) (l @ b) = map_option ((#) l) (rx_match rs b)"
  by (simp add: starts_with_append split: option.split)

lemma rx_match_lit_none: "\<not> starts_with s l \<Longrightarrow> rx_match (Lit l # rs) s = None"
  by simp

declare rx_match.simps(2) [simp del]

section \<open>Texts\<close>

function js_split_on :: "string \<Rightarrow> string \<Rightarrow> string list" where
  "js_split_on sep [] = [[]]"
| "js_split_on sep (c # cs) =
     (if sep \<noteq> [] \<and> starts_with (c # cs) sep then [] # js_split_on sep (drop (length sep) (c # cs))
      else (case js_split_on sep cs of [] \<Rightarrow> [[c]] | p # ps \<Rightarrow> (c # p) # ps))"
  by pat_completeness auto
termination
  by (relation "measure (\<lambda>(sep, s). length s)") auto

definition hex_char :: "char \<Rightarrow> bool" where
  "hex_char c \<longleftrightarrow> hex_value c \<noteq> None"

fun hex_number :: "nat \<Rightarrow> string \<Rightarrow> nat" where
  "hex_number n [] = n"
| "hex_number n (c # cs) = (case hex_value c of None \<Rightarrow> n | Some d \<Rightarrow> hex_number (16 * n + d) cs)"

text \<open>\<open>parseInt(s)\<close>: the numeral a text begins with, after space and a sign; \<open>NaN\<close> is \<open>JNull\<close>.\<close>

definition parse_unsigned :: "string \<Rightarrow> nat option" where
  "parse_unsigned s =
     (if starts_with s ''0x'' \<or> starts_with s ''0X'' then
        (if takeWhile hex_char (drop 2 s) = [] then None else Some (hex_number 0 (takeWhile hex_char (drop 2 s))))
      else if takeWhile is_digit s = [] then None
      else Some (nat_of_digits (takeWhile is_digit s)))"

definition js_parseInt :: "string \<Rightarrow> jsval" where
  "js_parseInt s =
     (let t = dropWhile is_space s; u = (if t \<noteq> [] \<and> hd t \<in> {CHR ''-'', CHR ''+''} then tl t else t) in
      case parse_unsigned u of
        None \<Rightarrow> JNull
      | Some n \<Rightarrow> JNum (if t \<noteq> [] \<and> hd t = CHR ''-'' then - int n else int n))"

text \<open>\<open>Number(v)\<close>, and the positive finite ones.\<close>

definition js_Number :: "jsval \<Rightarrow> jsval" where
  "js_Number v = (case js_number v of Some n \<Rightarrow> JNum n | None \<Rightarrow> JNull)"

definition positive_or :: "jsval \<Rightarrow> jsval \<Rightarrow> jsval" where
  "positive_or v d = (case js_number v of Some n \<Rightarrow> if 0 < n then JNum n else d | None \<Rightarrow> d)"

definition Base64_decode :: "(string \<Rightarrow> string option) \<Rightarrow> string \<Rightarrow> string option" where
  "Base64_decode atob content = do { bytes \<leftarrow> atob content; utf8_chars (map of_char bytes) }"

section \<open>What the importer is given\<close>

record link_env =
  le_url :: "string \<Rightarrow> ((string \<times> string) list \<times> string) option"
  le_params :: "string \<Rightarrow> (string \<times> string) list"
  le_atob :: "string \<Rightarrow> string option"
  le_parse :: "string \<Rightarrow> jsval option"

text \<open>\<open>searchParams.get(k)\<close>, with \<open>null\<close> for an absent one, and \<open>searchParams.has(k)\<close>.\<close>

definition get_param :: "(string \<times> string) list \<Rightarrow> string \<Rightarrow> jsval" where
  "get_param ps k = (case map_of ps k of None \<Rightarrow> JNull | Some v \<Rightarrow> JStr v)"

definition has_param :: "(string \<times> string) list \<Rightarrow> string \<Rightarrow> bool" where
  "has_param ps k \<longleftrightarrow> map_of ps k \<noteq> None"

definition text_list :: "string list option \<Rightarrow> jsval" where
  "text_list ss = JArr (case ss of None \<Rightarrow> [] | Some ss \<Rightarrow> map JStr ss)"

section \<open>VMess\<close>

definition vmess_link_stream :: "(string \<Rightarrow> jsval) \<Rightarrow> OutStreamSettings" where
  "vmess_link_stream json =
     (let stream = OutStreamSettings_default (json ''net'') (json ''tls''); network = json ''net'' in
      if network = JStr ''tcp'' then
        stream\<lparr>os_tcp := OutTcpStreamSettings_new (json ''type'') (js_coalesce (json ''host'') (JStr []))
          (js_coalesce (json ''path'') (JStr []))\<rparr>
      else if network = JStr ''kcp'' then
        stream\<lparr>os_kcp := (os_kcp stream)\<lparr>okcp_mtu := positive_or (json ''mtu'') (okcp_mtu (os_kcp stream)),
            okcp_tti := positive_or (json ''tti'') (okcp_tti (os_kcp stream))\<rparr>,
          os_undeclared := [(''type'', json ''type''), (''seed'', json ''path'')]\<rparr>
      else if network = JStr ''ws'' then
        stream\<lparr>os_ws := OutWsStreamSettings_new (json ''path'') (json ''host'') JUndef\<rparr>
      else if network = JStr ''grpc'' then
        stream\<lparr>os_grpc := OutGrpcStreamSettings_new (json ''path'') (json ''authority'')
          (JBool (loosely (json ''type'') ''multi''))\<rparr>
      else if network = JStr ''httpupgrade'' then
        stream\<lparr>os_httpupgrade := OutHttpUpgradeStreamSettings_new (json ''path'') (json ''host'')\<rparr>
      else if network = JStr ''xhttp'' then
        (let xh = OutxHTTPStreamSettings_new (json ''path'') (json ''host'') JUndef JUndef JUndef JUndef
         in stream\<lparr>os_xhttp := (if truthy (json ''mode'') then xh\<lparr>oxh_mode := json ''mode''\<rparr> else xh)\<rparr>)
      else stream)"

definition fromVmessLink :: "jsval \<Rightarrow> Outbound option" where
  "fromVmessLink json0 = do {
     json \<leftarrow> members (dflt emptyObj json0);
     let stream = vmess_link_stream json;
     stream \<leftarrow> (if truthy (json ''tls'') \<and> loosely (json ''tls'') ''tls'' then do {
         alpn \<leftarrow> split_text (json ''alpn'');
         Some (stream\<lparr>os_tls := OutTlsStreamSettings_new (json ''sni'') (text_list alpn) (json ''fp'')
           JUndef JUndef JUndef\<rparr>) }
       else Some stream);
     Outbound_new (json ''ps'') (JStr ''vmess'')
       (Some (VmessO (OutVmessSettings_new (json ''add'') (js_Number (json ''port'')) (json ''id'') (json ''scy''))))
       stream JUndef None }"

section \<open>Links with query parameters\<close>

definition or_undefined :: "jsval \<Rightarrow> jsval" where
  "or_undefined v = js_coalesce v JUndef"

text \<open>The members of the \<open>extra\<close> parameter that are copied onto the XHTTP settings, none of which the
  class of the outbound declares. A text \<open>JSON.parse\<close> throws on is ignored.\<close>

definition extra_members :: "jsval \<Rightarrow> props \<Rightarrow> props" where
  "extra_members extra obj =
     (let obj = put_if (text_given (mget extra ''xPaddingBytes'')) ''xhttp.xPaddingBytes''
            (mget extra ''xPaddingBytes'') obj;
          obj = put_if (mget extra ''xPaddingObfsMode'' = JBool True) ''xhttp.xPaddingObfsMode'' (JBool True) obj
      in fold (\<lambda>k. put_if (text_given (mget extra k)) (''xhttp.'' @ k) (mget extra k))
           [''xPaddingKey'', ''xPaddingHeader'', ''xPaddingPlacement'', ''xPaddingMethod''] obj)"

definition xhttp_undeclared :: "link_env \<Rightarrow> (string \<times> string) list \<Rightarrow> props" where
  "xhttp_undeclared env ps =
     (let xpb = get_param ps ''x_padding_bytes'';
          obj = put_if (truthy xpb) ''xhttp.xPaddingBytes'' xpb []
      in (case map_of ps ''extra'' of
            Some (c # cs) \<Rightarrow> (case le_parse env (c # cs) of Some e \<Rightarrow> extra_members e obj | None \<Rightarrow> obj)
          | _ \<Rightarrow> obj))"

definition link_stream :: "link_env \<Rightarrow> (string \<times> string) list \<Rightarrow> OutStreamSettings" where
  "link_stream env ps =
     (let get = get_param ps;
          type = js_coalesce (get ''type'') (JStr ''tcp'');
          stream = OutStreamSettings_default type (js_coalesce (get ''security'') (JStr ''none''));
          headerType = or_undefined (get ''headerType'');
          host = or_undefined (get ''host'');
          path = or_undefined (get ''path'');
          seed = or_undefined (js_coalesce (get ''seed'') path);
          mode = or_undefined (get ''mode'') in
      if type = JStr ''tcp'' \<or> type = JStr ''none'' then
        stream\<lparr>os_tcp := OutTcpStreamSettings_new (js_coalesce headerType (JStr ''none'')) host path\<rparr>
      else if type = JStr ''kcp'' then
        stream\<lparr>os_kcp := (os_kcp stream)\<lparr>okcp_mtu := positive_or (get ''mtu'') (okcp_mtu (os_kcp stream)),
            okcp_tti := positive_or (get ''tti'') (okcp_tti (os_kcp stream))\<rparr>,
          os_undeclared := [(''kcp.type'', js_coalesce headerType (JStr ''none'')), (''kcp.seed'', seed)]\<rparr>
      else if type = JStr ''ws'' then stream\<lparr>os_ws := OutWsStreamSettings_new path host JUndef\<rparr>
      else if type = JStr ''grpc'' then
        stream\<lparr>os_grpc := OutGrpcStreamSettings_new (js_coalesce (get ''serviceName'') (JStr []))
          (js_coalesce (get ''authority'') (JStr [])) (JBool (loosely (get ''mode'') ''multi''))\<rparr>
      else if type = JStr ''httpupgrade'' then
        stream\<lparr>os_httpupgrade := OutHttpUpgradeStreamSettings_new path host\<rparr>
      else if type = JStr ''xhttp'' then
        (let xh = OutxHTTPStreamSettings_new path host JUndef JUndef JUndef JUndef in
         stream\<lparr>os_xhttp := (if truthy mode then xh\<lparr>oxh_mode := mode\<rparr> else xh),
           os_undeclared := xhttp_undeclared env ps\<rparr>)
      else stream)"

definition link_security :: "(string \<times> string) list \<Rightarrow> OutStreamSettings \<Rightarrow> OutStreamSettings" where
  "link_security ps stream =
     (let get = get_param ps; security = js_coalesce (get ''security'') (JStr ''none'') in
      if security = JStr ''tls'' then
        stream\<lparr>os_tls := OutTlsStreamSettings_new (js_coalesce (get ''sni'') (JStr []))
          (text_list (case map_of ps ''alpn'' of Some (c # cs) \<Rightarrow> Some (js_split (CHR '','') (c # cs)) | _ \<Rightarrow> None))
          (js_coalesce (get ''fp'') (JStr ''none'')) (js_coalesce (get ''ech'') (JStr [])) JUndef JUndef\<rparr>
      else if security = JStr ''reality'' then
        stream\<lparr>os_reality := OutRealityStreamSettings_new (get ''pbk'') (get ''fp'')
          (js_coalesce (get ''sni'') (JStr [])) (js_coalesce (get ''sid'') (JStr []))
          (js_coalesce (get ''spx'') (JStr [])) (js_coalesce (get ''pqv'') (JStr []))\<rparr>
      else stream)"

text \<open>\<open>/([^@]+):\/\/([^@]+)@(.+):(\d+)(.*)$/\<close>; the groups are the items 0, 2, 4, 6 and 7.\<close>

definition not_at :: "char \<Rightarrow> bool" where
  "not_at c \<longleftrightarrow> c \<noteq> CHR ''@''"

definition not_newline :: "char \<Rightarrow> bool" where
  "not_newline c \<longleftrightarrow> c \<noteq> char_of (10 :: nat) \<and> c \<noteq> char_of (13 :: nat)"

definition param_regex :: "rx list" where
  "param_regex = [Run 1 not_at, Lit ''://'', Run 1 not_at, Lit ''@'', Run 1 not_newline, Lit '':'',
     Run 1 is_digit, Run 0 not_newline]"

text \<open>The settings of the link's protocol: \<open>None\<close> where a call throws, \<open>Some None\<close> where the reader
  returns \<open>null\<close>. The port is the number of its digits. Only \<open>ss\<close> turns the user part into an array;
  the text of a link that names the protocol in full has no \<open>splice\<close>.\<close>

definition link_settings ::
  "link_env \<Rightarrow> (string \<times> string) list \<Rightarrow> string \<Rightarrow> string \<Rightarrow> jsval \<Rightarrow> jsval \<Rightarrow> (string \<times> OutSettings) option option" where
  "link_settings env ps protocol userData address port =
     (if protocol = ''ss'' then do {
        user \<leftarrow> le_atob env userData;
        let parts = js_split (CHR '':'') user;
        Some (Some (''shadowsocks'', ShadowsocksO (OutShadowsocksSettings_new address port
          (JStr (js_join '':'' (tl parts))) (JStr (hd parts)) (JBool True) JUndef))) }
      else if protocol = ''vless'' then
        Some (Some (protocol, VlessO (OutVLESSSettings_new address port (JStr userData)
          (js_coalesce (get_param ps ''flow'') (JStr [])) (js_coalesce (get_param ps ''encryption'') (JStr ''none''))
          JUndef JUndef JUndef)))
      else if protocol = ''trojan'' then
        Some (Some (protocol, TrojanO (OutTrojanSettings_new address port (JStr userData))))
      else if protocol = ''shadowsocks'' then None
      else Some None)"

definition fromParamLink :: "link_env \<Rightarrow> string \<Rightarrow> Outbound option option" where
  "fromParamLink env link = do {
     (ps, hash) \<leftarrow> le_url env link;
     let stream = link_security ps (link_stream env ps);
     (case rx_search param_regex link of
        None \<Rightarrow> Some None
      | Some match \<Rightarrow> do {
          let port = int (nat_of_digits (match ! 6));
          settings \<leftarrow> link_settings env ps (match ! 0) (match ! 2) (JStr (match ! 4)) (JNum port);
          (case settings of
             None \<Rightarrow> Some None
           | Some (protocol, s) \<Rightarrow> do {
               remark \<leftarrow> decodeURIComponent hash;
               let remark = (if remark \<noteq> [] then tl remark else ''out-'' @ protocol @ ''-'' @ int_str port);
               map_option Some (Outbound_new (JStr remark) (JStr protocol) (Some s) stream JUndef None) }) }) }"

section \<open>Hysteria\<close>

text \<open>\<open>/^hysteria2?:\/\/([^@]+)@([^:?#]+):(\d+)([^#]*)(#.*)?$/\<close>; an absent last group reads as the
  empty text, which the code treats alike.\<close>

definition hysteria_regex :: "rx list" where
  "hysteria_regex = [Lit ''hysteria'', Opt (CHR ''2'') (\<lambda>c. False), Lit ''://'', Run 1 not_at, Lit ''@'',
     Run 1 (\<lambda>c. c \<notin> set '':?#''), Lit '':'', Run 1 is_digit, Run 0 (\<lambda>c. c \<noteq> CHR ''#''),
     Opt (CHR ''#'') not_newline]"

definition parsed_or :: "(string \<times> string) list \<Rightarrow> string \<Rightarrow> jsval \<Rightarrow> jsval" where
  "parsed_or ps k d = (case map_of ps k of Some v \<Rightarrow> js_parseInt v | None \<Rightarrow> d)"

definition hysteria_link_stream :: "(string \<times> string) list \<Rightarrow> string \<Rightarrow> OutStreamSettings" where
  "hysteria_link_stream ps password =
     (let stream = OutStreamSettings_default (JStr ''hysteria'') (JStr ''none'');
          h = os_hysteria stream;
          get = get_param ps in
      stream\<lparr>os_hysteria := h\<lparr>
        ohy_auth := JStr password,
        ohy_congestion := js_coalesce (get ''congestion'') (JStr []),
        ohy_up := js_coalesce (get ''up'') (JStr ''0''),
        ohy_down := js_coalesce (get ''down'') (JStr ''0''),
        ohy_udphopPort := js_coalesce (get ''udphopPort'') (JStr []),
        ohy_udphopIntervalMin := (if has_param ps ''udphopInterval'' then parsed_or ps ''udphopInterval'' JUndef
          else parsed_or ps ''udphopIntervalMin'' (JNum 30)),
        ohy_udphopIntervalMax := (if has_param ps ''udphopInterval'' then parsed_or ps ''udphopInterval'' JUndef
          else parsed_or ps ''udphopIntervalMax'' (JNum 30)),
        ohy_initStreamReceiveWindow := parsed_or ps ''initStreamReceiveWindow'' (ohy_initStreamReceiveWindow h),
        ohy_maxStreamReceiveWindow := parsed_or ps ''maxStreamReceiveWindow'' (ohy_maxStreamReceiveWindow h),
        ohy_initConnectionReceiveWindow :=
          parsed_or ps ''initConnectionReceiveWindow'' (ohy_initConnectionReceiveWindow h),
        ohy_maxConnectionReceiveWindow :=
          parsed_or ps ''maxConnectionReceiveWindow'' (ohy_maxConnectionReceiveWindow h),
        ohy_maxIdleTimeout := parsed_or ps ''maxIdleTimeout'' (ohy_maxIdleTimeout h),
        ohy_keepAlivePeriod := parsed_or ps ''keepAlivePeriod'' (ohy_keepAlivePeriod h),
        ohy_disablePathMTUDiscovery := (if has_param ps ''disablePathMTUDiscovery''
          then JBool (get ''disablePathMTUDiscovery'' = JStr ''true'') else ohy_disablePathMTUDiscovery h)\<rparr>\<rparr>)"

definition fromHysteriaLink :: "link_env \<Rightarrow> string \<Rightarrow> Outbound option option" where
  "fromHysteriaLink env link =
     (case rx_match hysteria_regex link of
        None \<Rightarrow> Some None
      | Some match \<Rightarrow> do {
          let port = int (nat_of_digits (match ! 7));
          let stream = hysteria_link_stream (le_params env (match ! 8)) (match ! 3);
          let hash = match ! 9;
          remark \<leftarrow> (if hash \<noteq> [] then decodeURIComponent (tl hash) else Some (''out-hysteria-'' @ int_str port));
          map_option Some (Outbound_new (JStr remark) (JStr ''hysteria'')
            (Some (HysteriaO (OutHysteriaSettings_new (JStr (match ! 5)) (JNum port) (JNum 2)))) stream JUndef None) })"

section \<open>The import\<close>

text \<open>\<open>data = link.split(...)\<close> assigns an undeclared name in the strict code of a class: it throws
  unless the page has a global variable of that name, which is the first argument. \<open>None\<close> is an
  exception, \<open>Some None\<close> the answer \<open>null\<close>.\<close>

definition fromLink :: "bool \<Rightarrow> link_env \<Rightarrow> string \<Rightarrow> Outbound option option" where
  "fromLink data_declared env link =
     (if \<not> data_declared then None
      else (case js_split_on ''://'' link of
          [scheme, rest] \<Rightarrow>
            (let protocol = js_lower scheme in
             if protocol = ''vmess'' then do {
               text \<leftarrow> Base64_decode (le_atob env) rest;
               json \<leftarrow> le_parse env text;
               map_option Some (fromVmessLink json) }
             else if protocol \<in> {''vless'', ''trojan'', ''ss''} then fromParamLink env link
             else if protocol \<in> {''hysteria2'', ''hysteria''} then fromHysteriaLink env link
             else Some None)
        | _ \<Rightarrow> Some None))"

section \<open>Matching the text of a link\<close>

text \<open>A run that has to give characters back: no longer choice matches.\<close>

lemma first_some_append: "first_some f (xs @ ys) = (case first_some f xs of None \<Rightarrow> first_some f ys | Some y \<Rightarrow> Some y)"
  by (induction xs) (auto split: option.split)

lemma first_some_none: "\<forall>x \<in> set xs. f x = None \<Longrightarrow> first_some f xs = None"
  by (induction xs) auto

lemma rx_match_run_back:
  assumes a: "\<forall>c \<in> set a. P c" "m \<le> length a" and b: "rx_match rs b = Some n"
    and longer: "\<And>c d. \<lbrakk>b = c @ d; c \<noteq> []; \<forall>x \<in> set c. P x\<rbrakk> \<Longrightarrow> rx_match rs d = None"
  shows "rx_match (Run m P # rs) (a @ b) = Some (a # n)"
proof -
  let ?s = "a @ b" and ?f = "\<lambda>(a, b). map_option ((#) a) (rx_match rs b)"
  define L where "L = length (takeWhile P ?s)"
  have L: "length a \<le> L" using a(1) by (simp add: L_def takeWhile_append)
  have "rev [m..<Suc L] = rev [Suc (length a)..<Suc L] @ rev [m..<Suc (length a)]"
    using L a(2) upt_add_eq_append [of m "Suc (length a)" "Suc L - Suc (length a)"]
    by (simp del: upt_Suc)
  then have sp: "run_splits m P ?s = map (\<lambda>n. (take n ?s, drop n ?s)) (rev [Suc (length a)..<Suc L])
      @ (a, b) # map (\<lambda>n. (take n ?s, drop n ?s)) (rev [m..<length a])"
    using a(2) by (simp add: run_splits_def L_def [symmetric])
  have "?f (take k ?s, drop k ?s) = None" if k: "length a < k" "k \<le> L" for k
  proof -
    have "\<forall>x \<in> set (take k ?s). P x"
      using k(2) by (metis L_def in_set_takeD min.absorb1 set_takeWhileD takeWhile_eq_take take_take)
    then have "rx_match rs (drop (k - length a) b) = None"
      using k by (intro longer [of "take (k - length a) b"]) (auto simp: L_def dest: length_takeWhile_le [THEN le_trans])
    then show ?thesis using k(1) by simp
  qed
  then have "first_some ?f (map (\<lambda>n. (take n ?s, drop n ?s)) (rev [Suc (length a)..<Suc L])) = None"
    by (intro first_some_none) auto
  then show ?thesis using b by (simp add: rx_match.simps(2) sp first_some_append)
qed

lemma rx_match_nil: "rx_match [Run 0 P] s = (if \<forall>c \<in> set s. P c then Some [s] else None)"
proof (cases "\<forall>c \<in> set s. P c")
  case True
  then show ?thesis using rx_match_run [of s P 0 "[]" "[]" "[]"] by simp
next
  case False
  have "m \<noteq> []" if "rx_match [Run 0 P] s = Some m" for m using rx_match_sound [OF that] by auto
  moreover have False if m: "rx_match [Run 0 P] s = Some m" for m
  proof -
    from m obtain a b where "(a, b) \<in> set (run_splits 0 P s)" "b = []"
      by (auto simp: rx_match.simps(2) dest!: first_some_in split: if_splits)
    then show False using run_splits_sound [of a b 0 P s] False by auto
  qed
  ultimately show ?thesis using False by (cases "rx_match [Run 0 P] s") auto
qed

text \<open>The address is what stands before the last colon, if the rest of the link has none.\<close>

definition after_port :: "string \<Rightarrow> bool" where
  "after_port q \<longleftrightarrow> (\<forall>c \<in> set q. c \<noteq> CHR '':'' \<and> c \<noteq> CHR ''@'' \<and> not_newline c) \<and> (q = [] \<or> \<not> is_digit (hd q))"

definition plain_user :: "string \<Rightarrow> bool" where
  "plain_user u \<longleftrightarrow> u \<noteq> [] \<and> (\<forall>c \<in> set u. c \<noteq> CHR '':'' \<and> c \<noteq> CHR ''@'' \<and> c \<noteq> CHR ''/'')"

definition plain_address :: "string \<Rightarrow> bool" where
  "plain_address a \<longleftrightarrow> a \<noteq> [] \<and> (\<forall>c \<in> set a. c \<noteq> CHR ''@'' \<and> c \<noteq> CHR ''/'' \<and> not_newline c)"

lemma digit_plain: "is_digit c \<Longrightarrow> c \<noteq> CHR '':'' \<and> c \<noteq> CHR ''@'' \<and> c \<noteq> CHR ''/'' \<and> not_newline c"
  by (auto simp: is_digit_def not_newline_def)

lemma starts_with_colon: "s = [] \<or> hd s \<noteq> CHR '':'' \<Longrightarrow> \<not> starts_with s (CHR '':'' # l)"
  by (cases s) auto

lemma suffix_hd: "\<lbrakk>s = c @ d; c \<noteq> []; k \<notin> set (tl s)\<rbrakk> \<Longrightarrow> d = [] \<or> hd d \<noteq> k"
  by (cases c; cases d) auto

lemma prefix_inside:
  assumes "a @ k # b = c @ d" "k \<notin> set c"
  obtains e where "a = c @ e" "d = e @ k # b"
  using assms by (auto simp: append_eq_append_conv2 append_eq_Cons_conv Cons_eq_append_conv)

lemma address_and_port:
  assumes "plain_address address" "digits \<noteq> []" "\<forall>c \<in> set digits. is_digit c" "after_port q"
  shows "rx_match [Run 1 not_newline, Lit '':'', Run 1 is_digit, Run 0 not_newline] (address @ '':'' @ digits @ q)
    = Some [address, '':'', digits, q]"
proof (rule rx_match_run_back)
  have "rx_match [Run 0 not_newline] q = Some [q]"
    using assms(4) by (subst rx_match_nil) (simp add: after_port_def)
  then have "rx_match [Run 1 is_digit, Run 0 not_newline] (digits @ q) = Some [digits, q]"
    by (rule rx_match_run [rotated 3]) (use assms(2-4) in \<open>auto simp: after_port_def Suc_le_eq\<close>)
  then show "rx_match [Lit '':'', Run 1 is_digit, Run 0 not_newline] ('':'' @ digits @ q) = Some ['':'', digits, q]"
    by (simp only: rx_match_lit option.map)
next
  fix c d
  assume "'':'' @ digits @ q = c @ d" "c \<noteq> []"
  moreover have "CHR '':'' \<notin> set (tl ('':'' @ digits @ q))"
    using assms(3,4) digit_plain by (auto simp: after_port_def)
  ultimately have "d = [] \<or> hd d \<noteq> CHR '':''" by (rule suffix_hd)
  then show "rx_match [Lit '':'', Run 1 is_digit, Run 0 not_newline] d = None"
    by (intro rx_match_lit_none starts_with_colon)
qed (use assms(1) in \<open>auto simp: plain_address_def Suc_le_eq\<close>)

lemma param_link_match:
  assumes scheme: "scheme \<noteq> []" "\<forall>c \<in> set scheme. not_at c" and u: "plain_user user" and a: "plain_address address"
    and d: "digits \<noteq> []" "\<forall>c \<in> set digits. is_digit c" and q: "after_port q"
  shows "rx_search param_regex (scheme @ ''://'' @ user @ ''@'' @ address @ '':'' @ digits @ q)
    = Some [scheme, ''://'', user, ''@'', address, '':'', digits, q]"
proof -
  let ?rest = "address @ '':'' @ digits @ q"
  have "rx_match (tl param_regex) (''://'' @ user @ ''@'' @ ?rest) = Some [''://'', user, ''@'', address, '':'', digits, q]"
  proof -
    have "rx_match (drop 3 param_regex) (''@'' @ ?rest) = Some [''@'', address, '':'', digits, q]"
      using address_and_port [OF a d q] by (simp only: param_regex_def drop_Suc_Cons numeral_3_eq_3 drop_0 rx_match_lit option.map)
    then have "rx_match (Run 1 not_at # drop 3 param_regex) (user @ ''@'' @ ?rest) = Some [user, ''@'', address, '':'', digits, q]"
      using u by (intro rx_match_run) (auto simp: plain_user_def not_at_def Suc_le_eq)
    then show ?thesis
      by (simp only: param_regex_def drop_Suc_Cons numeral_3_eq_3 drop_0 list.sel rx_match_lit option.map)
  qed
  moreover have "rx_match (tl param_regex) d = None"
    if "''://'' @ user @ ''@'' @ ?rest = c @ d" "c \<noteq> []" "\<forall>x \<in> set c. not_at x" for c d
  proof -
    have "CHR ''@'' \<notin> set c" using that(3) by (auto simp: not_at_def)
    with that(1) obtain e where e: "''://'' @ user = c @ e" "d = e @ CHR ''@'' # ?rest"
      using prefix_inside [of "''://'' @ user" "CHR ''@''" ?rest c d] by auto
    have "CHR '':'' \<notin> set (tl (''://'' @ user))" using u by (auto simp: plain_user_def)
    with suffix_hd [OF e(1) that(2)] e(2) have "hd d \<noteq> CHR '':''" by (cases e) auto
    then show ?thesis unfolding param_regex_def list.sel
      by (intro rx_match_lit_none starts_with_colon disjI2)
  qed
  ultimately have "rx_match (Run 1 not_at # tl param_regex) (scheme @ ''://'' @ user @ ''@'' @ ?rest)
      = Some (scheme # [''://'', user, ''@'', address, '':'', digits, q])"
    using scheme by (intro rx_match_run_back) (auto simp: Suc_le_eq)
  then have "rx_match param_regex (scheme @ ''://'' @ user @ ''@'' @ ?rest)
      = Some [scheme, ''://'', user, ''@'', address, '':'', digits, q]"
    by (simp add: param_regex_def)
  then show ?thesis using scheme(1) by (cases scheme) simp_all
qed

text \<open>The dispatch: the first separator is the only one.\<close>

lemma split_on_scheme:
  "CHR '':'' \<notin> set s \<Longrightarrow> js_split_on ''://'' (s @ ''://'' @ t) = s # js_split_on ''://'' t"
  by (induction s) auto

lemma split_on_none:
  "\<lbrakk>\<forall>c \<in> set a. c \<noteq> CHR ''/''; a = [] \<or> last a \<noteq> CHR '':''; CHR '':'' \<notin> set q\<rbrakk> \<Longrightarrow> js_split_on ''://'' (a @ q) = [a @ q]"
proof (induction a)
  case Nil
  then show ?case by (induction q) auto
next
  case (Cons c a)
  have "\<not> starts_with (c # a @ q) ''://''"
    using Cons.prems by (cases a) auto
  with Cons show ?case by (auto split: if_splits)
qed

text \<open>The greedy third group: a colon before digits anywhere later in the link, here in the remark,
  is taken for the one before the port.\<close>

lemma late_colon_is_port:
  "rx_search param_regex ''vless://id@host:443#eu:2''
     = Some [''vless'', ''://'', ''id'', ''@'', ''host:443#eu'', '':'', ''2'', []]"
  by code_simp

section \<open>A VLESS link, made by an inbound and imported as an outbound\<close>

text \<open>What the importer's \<open>URL\<close> documents of the text the inbound's \<open>URL\<close> wrote: it reads the same
  parameters and fragment, and after the port the serializer leaves no colon, no at sign and no line
  break unescaped.\<close>

definition url_text :: "link_env \<Rightarrow> string \<Rightarrow> (string \<times> string) list \<Rightarrow> string \<Rightarrow> string \<Rightarrow> bool" where
  "url_text env link ps fragment text \<longleftrightarrow>
     le_url env text = Some (ps, if fragment = [] then [] else CHR ''#'' # fragment)
     \<and> starts_with text link \<and> after_port (drop (length link) text)"

lemma decode_fragment:
  "decodeURIComponent (if encodeURIComponent s = [] then [] else CHR ''#'' # encodeURIComponent s)
    = Some (if s = [] then [] else CHR ''#'' # s)"
proof -
  have "\<forall>c \<in> set (CHR ''#'' # encodeURIComponent s). (of_char c :: nat) < 128"
    using encode_component_ascii [of s] by auto
  moreover have "char_of (35 :: nat) = CHR ''#''" by code_simp
  ultimately have "decodeURIComponent (CHR ''#'' # encodeURIComponent s) = Some (CHR ''#'' # s)"
    unfolding decodeURIComponent_def
    by (subst utf8_ascii) (simp_all add: encode_component_bytes utf8_chars_utf8)
  moreover have "decodeURIComponent [] = Some []" by (simp add: decodeURIComponent_def utf8_def)
  moreover have "encodeURIComponent [] = []" by (simp add: encodeURIComponent_def)
  ultimately show ?thesis using decode_encode_component [of s] by auto
qed

lemma get_param_js_str:
  "distinct (map fst ps) \<Longrightarrow> get_param (map (\<lambda>(k, v). (k, js_str v)) ps) k =
     (case map_of ps k of None \<Rightarrow> JNull | Some v \<Rightarrow> JStr (js_str v))"
  by (simp add: get_param_def map_of_map comp_def split: option.split)

lemma vless_security_flow_given:
  "vless_security br s security flow ps = Some qs \<Longrightarrow>
   map_of qs ''flow'' =
    (if loosely (ss_network s) ''tcp'' \<and> \<not> isEmpty flow
      \<and> (security = JStr ''reality'' \<or> security = JStr ''tls'' \<and> isTls s)
     then Some flow else map_of ps ''flow'')"
  by (auto simp: vless_security_def reality_params_def tls_base_params_def tls_sni_param_def tls_ech_param_def
      Let_def bind_eq_Some_conv map_of_pset map_of_pset_if split: if_splits)

lemma vless_flow_given:
  assumes "vless_params br this forceTls flow = Some qs"
  shows "map_of qs ''flow'' =
      (if loosely (ss_network (ib_stream this)) ''tcp'' \<and> \<not> isEmpty flow
        \<and> (chosen_security forceTls this = JStr ''reality''
          \<or> chosen_security forceTls this = JStr ''tls'' \<and> isTls (ib_stream this))
       then Some flow else None)"
proof -
  obtain e ns where ns: "network_params (ib_stream this)
      (pset ''encryption'' e (pset ''type'' (ss_network (ib_stream this)) [])) = Some ns"
    and qs: "vless_security br (ib_stream this) (chosen_security forceTls this) flow
      (applyFinalMaskToParams (ss_finalmask (ib_stream this)) ns) = Some qs"
    by (rule vless_stages [OF assms])
  have "map_of (applyFinalMaskToParams (ss_finalmask (ib_stream this)) ns) ''flow'' = None"
    using network_sets [OF ns] final_mask_sets [of ns "ss_finalmask (ib_stream this)"]
    by (simp add: sets_only_def map_of_pset)
  with vless_security_flow_given [OF qs] show ?thesis by simp
qed

lemma oget_given: "oget ps k = JStr v \<Longrightarrow> map_of ps k = Some (JStr v)"
  by (auto simp: oget_def split: option.splits)

lemma link_stream_names:
  "os_network (link_security ps (link_stream env ps)) = js_coalesce (get_param ps ''type'') (JStr ''tcp'')"
  "os_security (link_security ps (link_stream env ps)) = js_coalesce (get_param ps ''security'') (JStr ''none'')"
proof -
  have u: "v \<noteq> JUndef \<Longrightarrow> d \<noteq> JUndef \<Longrightarrow> dflt e (js_coalesce v d) = js_coalesce v d" for v d e
    by (simp add: dflt_def js_coalesce_def)
  have g: "get_param ps k \<noteq> JUndef" for k by (simp add: get_param_def split: option.split)
  show "os_network (link_security ps (link_stream env ps)) = js_coalesce (get_param ps ''type'') (JStr ''tcp'')"
    "os_security (link_security ps (link_stream env ps)) = js_coalesce (get_param ps ''security'') (JStr ''none'')"
    by (simp_all add: link_security_def link_stream_def Let_def OutStreamSettings_default_def OutStreamSettings_new_def u g)
qed

lemma vless_link_imported:
  fixes address id remark :: string and port :: nat
  assumes gen: "genVLESSLink br this (JStr address) (JNum (int port)) forceTls remark (JStr id) flow = Some text"
    and ps: "vless_params br this forceTls flow = Some ps"
    and url: "url_text env (link_text ''vless'' (JStr id) (JStr address) (JNum (int port)))
      (map (\<lambda>(k, v). (k, js_str v)) ps) (encodeURIComponent remark) text"
    and plain: "plain_user id" "plain_address address"
    and inbound: "ss_network (ib_stream this) = JStr network" "settings_encryption (ib_settings this) = Some (JStr encryption)"
  shows "\<exists>stream. fromLink True env text = Some (Some \<lparr>
      ob_tag = JStr (if remark = [] then ''out-vless-'' @ int_str (int port) else remark),
      ob_protocol = JStr ''vless'',
      ob_settings = Some (VlessO (OutVLESSSettings_new (JStr address) (JNum (int port)) (JStr id)
        (JStr (if loosely (JStr network) ''tcp'' \<and> \<not> isEmpty flow
            \<and> (chosen_security forceTls this = JStr ''reality''
              \<or> chosen_security forceTls this = JStr ''tls'' \<and> isTls (ib_stream this))
          then js_str flow else [])) (JStr encryption) JUndef JUndef JUndef)),
      ob_stream = stream, ob_sendThrough = JUndef, ob_mux = Mux_new JUndef JUndef JUndef JUndef\<rparr>)
    \<and> os_network stream = JStr network \<and> os_security stream = JStr (security_name (chosen_security forceTls this))"
proof -
  define digits where "digits = nat_str port"
  define q where "q = drop (length (link_text ''vless'' (JStr id) (JStr address) (JNum (int port)))) text"
  define params where "params = map (\<lambda>(k, v). (k, js_str v)) ps"
  have d: "digits \<noteq> []" "\<forall>c \<in> set digits. is_digit c" "nat_of_digits digits = port"
    by (simp_all add: digits_def nat_str_nonempty nat_str_digits nat_of_digits_nat_str)
  define hash where "hash = (if encodeURIComponent remark = [] then [] else CHR ''#'' # encodeURIComponent remark)"
  have q: "after_port q" and read: "le_url env text = Some (params, hash)"
    using url by (simp_all add: url_text_def q_def params_def hash_def)
  have hash: "decodeURIComponent hash = Some (if remark = [] then [] else CHR ''#'' # remark)"
    unfolding hash_def by (rule decode_fragment)
  have tx: "text = ''vless'' @ ''://'' @ (id @ ''@'' @ address @ '':'' @ digits) @ q"
  proof -
    have "text = link_text ''vless'' (JStr id) (JStr address) (JNum (int port)) @ q"
      using url unfolding url_text_def starts_with_take q_def by (metis append_take_drop_id)
    then show ?thesis by (simp add: link_text_def digits_def int_str_def)
  qed
  have "js_split_on ''://'' text = [''vless'', (id @ ''@'' @ address @ '':'' @ digits) @ q]"
  proof -
    have "is_digit (last digits)" using d(1,2) last_in_set [of digits] by blast
    with d(1) have "last (id @ ''@'' @ address @ '':'' @ digits) \<noteq> CHR '':''"
      using digit_plain [of "last digits"] by simp
    moreover have dd: "\<forall>c \<in> set digits. c \<noteq> CHR ''/''" using d(2) digit_plain by blast
    moreover have "\<forall>c \<in> set (id @ ''@'' @ address @ '':'' @ digits). c \<noteq> CHR ''/''"
      using plain unfolding plain_user_def plain_address_def set_append ball_Un by (simp add: dd)
    moreover have "CHR '':'' \<notin> set q" using q by (auto simp: after_port_def)
    ultimately have "js_split_on ''://'' ((id @ ''@'' @ address @ '':'' @ digits) @ q)
        = [(id @ ''@'' @ address @ '':'' @ digits) @ q]" by (intro split_on_none disjI2)
    then show ?thesis unfolding tx by (subst split_on_scheme) simp_all
  qed
  then have dispatch: "fromLink True env text = fromParamLink env text"
    by (simp add: fromLink_def js_lower_def lower_char_def)
  have match: "rx_search param_regex text = Some [''vless'', ''://'', id, ''@'', address, '':'', digits, q]"
    using param_link_match [of "''vless''" id address digits q] plain d q by (simp add: tx not_at_def)
  note common = vless_common [OF ps]
  have get: "get_param params k = (case map_of ps k of None \<Rightarrow> JNull | Some v \<Rightarrow> JStr (js_str v))" for k
    unfolding params_def by (rule get_param_js_str [OF common(1)])
  have "oget ps ''type'' = JStr network" "oget ps ''encryption'' = JStr encryption"
    "oget ps ''security'' = JStr (security_name (chosen_security forceTls this))"
    using common(2,3,4) inbound by simp_all
  note given = this [THEN oget_given]
  have flow: "js_coalesce (get_param params ''flow'') (JStr []) = JStr (if loosely (JStr network) ''tcp'' \<and> \<not> isEmpty flow
            \<and> (chosen_security forceTls this = JStr ''reality''
              \<or> chosen_security forceTls this = JStr ''tls'' \<and> isTls (ib_stream this))
          then js_str flow else [])"
    unfolding get vless_flow_given [OF ps] inbound(1) by (auto simp: js_coalesce_def nullish_def)
  have names: "js_coalesce (get_param params ''type'') (JStr ''tcp'') = JStr network"
    "js_coalesce (get_param params ''encryption'') (JStr ''none'') = JStr encryption"
    "js_coalesce (get_param params ''security'') (JStr ''none'') = JStr (security_name (chosen_security forceTls this))"
    by (simp_all add: get given js_coalesce_def nullish_def)
  have made: "link_settings env params ''vless'' id (JStr address) (JNum (int port)) =
      Some (Some (''vless'', VlessO (OutVLESSSettings_new (JStr address) (JNum (int port)) (JStr id)
        (js_coalesce (get_param params ''flow'') (JStr [])) (JStr encryption) JUndef JUndef JUndef)))"
    by (simp add: link_settings_def names(2))
  show ?thesis
    using link_stream_names [of params env] unfolding dispatch fromParamLink_def
    by (intro exI [of _ "link_security params (link_stream env params)"] conjI, cases remark)
      (simp_all add: read match made hash d(3) Outbound_new_def dflt_def flow names Let_def
        split del: if_split cong: if_cong)
qed

end
