(* ===== verification/Outbound_Form.thy ===== *)
theory Outbound_Form
  imports Outbound_Links
begin

text \<open>
  The outbound form as a state machine, and what holds of every outbound it can show: the settings
  are those of the protocol, also after a link was imported.
\<close>

section \<open>The steps of the form\<close>

text \<open>What the form does to an outbound: it opens a document, imports a link or makes a new one,
  chooses a protocol, edits the settings, the stream and the plain fields, and asks for the
  multiplexing switch each time it is drawn.\<close>

inductive outbound_step :: "Outbound \<Rightarrow> Outbound \<Rightarrow> bool" where
  out_choose: "set_out_protocol p x = Some y \<Longrightarrow> outbound_step x y"
| out_stream: "outbound_step x (x\<lparr>ob_stream := s\<rparr>)"
| out_settings: "\<lbrakk>ob_settings x = Some s; out_protocol_of s' = out_protocol_of s\<rbrakk> \<Longrightarrow>
    outbound_step x (x\<lparr>ob_settings := Some s'\<rparr>)"
| out_fields: "outbound_step x (x\<lparr>ob_tag := t, ob_sendThrough := st, ob_mux := m\<rparr>)"
| out_draw: "canEnableMux x = Some (b, y) \<Longrightarrow> outbound_step x y"

inductive outbound_reachable :: "Outbound \<Rightarrow> bool" where
  out_load: "Outbound_fromJson j = Some x \<Longrightarrow> outbound_reachable x"
| out_import: "fromLink g env link = Some (Some x) \<Longrightarrow> outbound_reachable x"
| out_new: "Outbound_new JUndef JUndef None (OutStreamSettings_default JUndef JUndef) JUndef None = Some x \<Longrightarrow>
    outbound_reachable x"
| out_step: "\<lbrakk>outbound_reachable x; outbound_step x y\<rbrakk> \<Longrightarrow> outbound_reachable y"

inductive_cases outbound_stepE: "outbound_step x y"

section \<open>The settings are those of the protocol\<close>

lemma fromVmessLink_wf: "fromVmessLink j = Some x \<Longrightarrow> Outbound_wf x"
  unfolding fromVmessLink_def Let_def bind_eq_Some_conv by (elim exE conjE, erule Outbound_new_wf) auto

lemma link_settings_protocol:
  "link_settings env ps protocol userData address port = Some (Some (p, s)) \<Longrightarrow> p = out_protocol_of s"
  by (auto simp: link_settings_def bind_eq_Some_conv Let_def split: if_splits)

lemma fromParamLink_wf: "fromParamLink env link = Some (Some x) \<Longrightarrow> Outbound_wf x"
  by (auto simp: fromParamLink_def bind_eq_Some_conv Let_def split: option.splits
      dest: link_settings_protocol elim!: Outbound_new_wf)

lemma fromHysteriaLink_wf: "fromHysteriaLink env link = Some (Some x) \<Longrightarrow> Outbound_wf x"
  by (auto simp: fromHysteriaLink_def bind_eq_Some_conv Let_def split: option.splits if_splits
      elim!: Outbound_new_wf)

lemma fromLink_wf: "fromLink g env link = Some (Some x) \<Longrightarrow> Outbound_wf x"
  by (auto simp: fromLink_def Let_def bind_eq_Some_conv split: if_splits list.splits
      intro: fromVmessLink_wf fromParamLink_wf fromHysteriaLink_wf)

lemma out_match_edit:
  "\<lbrakk>out_match protocol (Some s); out_protocol_of s' = out_protocol_of s\<rbrakk> \<Longrightarrow> out_match protocol (Some s')"
  by (simp add: out_match_def)

lemma outbound_step_wf: "outbound_step x y \<Longrightarrow> Outbound_wf x \<Longrightarrow> Outbound_wf y"
  by (erule outbound_stepE)
    (auto simp: set_out_protocol_def bind_eq_Some_conv Outbound_wf_def canEnableMux_same
      intro: out_match_edit dest: out_getSettings_match)

lemma outbound_reachable_wf: "outbound_reachable x \<Longrightarrow> Outbound_wf x"
  by (induction rule: outbound_reachable.induct)
    (auto intro: Outbound_fromJson_wf fromLink_wf outbound_step_wf Outbound_new_wf)

text \<open>The multiplexing switch: when it throws, and when it is turned off.\<close>

lemma canEnableMux_throws: "canEnableMux x = None \<longleftrightarrow> ob_settings x = None"
  by (auto simp: canEnableMux_def simp del: not_None_eq split: option.splits if_splits)

lemma canEnableMux_off:
  "\<lbrakk>canEnableMux x = Some (b, y); os_network (ob_stream x) = JStr ''xhttp'' \<or> truthy (settings_flow (ob_settings x))\<rbrakk>
   \<Longrightarrow> \<not> b \<and> mux_enabled (ob_mux y) = JBool False"
  by (auto simp: canEnableMux_def mux_off_def split: option.splits if_splits)

end
