(* ===== verification/Base64_Text.thy ===== *)
theory Base64_Text
  imports Text_Codec Wireguard
begin

text \<open>
  The base 64 text of the language's library (\<open>btoa\<close> beside the \<open>atob\<close> of the key code), and the
  values \<open>RandomUtil\<close> of \<open>web/assets/js/util/index.js\<close> draws with it: Shadowsocks passwords.
\<close>

section \<open>\<open>btoa\<close>\<close>

definition b64_char :: "int \<Rightarrow> char" where
  "b64_char x =
     (if x < 26 then char_of (x + 65) else if x < 52 then char_of (x + 71) else if x < 62 then char_of (x - 4)
      else if x = 62 then CHR ''+'' else CHR ''/'')"

fun btoa_bytes :: "int list \<Rightarrow> string" where
  "btoa_bytes [] = []"
| "btoa_bytes [a] = [b64_char (a div 4), b64_char ((a mod 4) * 16), CHR ''='', CHR ''='']"
| "btoa_bytes [a, b] =
     [b64_char (a div 4), b64_char ((a mod 4) * 16 + b div 16), b64_char ((b mod 16) * 4), CHR ''='']"
| "btoa_bytes (a # b # c # bs) =
     [b64_char (a div 4), b64_char ((a mod 4) * 16 + b div 16), b64_char ((b mod 16) * 4 + c div 64),
      b64_char (c mod 64)] @ btoa_bytes bs"

definition js_btoa :: "string \<Rightarrow> string" where
  "js_btoa s = btoa_bytes (map of_char s)"

text \<open>\<open>atob\<close> answers a string with one character for each byte.\<close>

definition js_atob_text :: "string \<Rightarrow> string option" where
  "js_atob_text s = map_option (map char_of) (js_atob s)"

lemma b64_char:
  assumes "0 \<le> x" "x < 64"
  shows "b64_value (b64_char x) = Some x" "b64_char x \<noteq> CHR ''=''" "b64_symbol (b64_char x)"
proof -
  show v: "b64_value (b64_char x) = Some x"
    using assms by (auto simp: b64_value_def b64_char_def of_char_of Let_def)
  show "b64_char x \<noteq> CHR ''=''" using v by (auto simp: b64_value_def)
  show "b64_symbol (b64_char x)" using v by (simp add: b64_symbol_def)
qed

definition sextet :: "int \<Rightarrow> bool" where
  "sextet x \<longleftrightarrow> 0 \<le> x \<and> x < 64"

lemma b64_sextet:
  "sextet x \<Longrightarrow> b64_value (b64_char x) = Some x" "sextet x \<Longrightarrow> b64_char x \<noteq> CHR ''=''"
  "sextet x \<Longrightarrow> b64_symbol (b64_char x)" "b64_symbol (CHR ''='')"
  by (simp_all add: sextet_def b64_char) (simp add: b64_symbol_def)

lemma byte_sextets:
  assumes "is_byte a" "is_byte b" "is_byte c"
  shows "sextet (a div 4)" "sextet ((a mod 4) * 16 + b div 16)" "sextet ((b mod 16) * 4 + c div 64)"
    "sextet (c mod 64)" "sextet ((a mod 4) * 16)" "sextet ((b mod 16) * 4)"
proof -
  have r: "0 \<le> a" "a < 256" "0 \<le> b" "b < 256" "0 \<le> c" "c < 256" using assms by (simp_all add: is_byte_def)
  show "sextet (a div 4)" "sextet ((a mod 4) * 16 + b div 16)" "sextet ((b mod 16) * 4 + c div 64)"
    "sextet (c mod 64)" unfolding sextet_def by (intro conjI sextets_range [OF r])+
  show "sextet ((a mod 4) * 16)" "sextet ((b mod 16) * 4)" by (simp_all add: sextet_def)
qed

text \<open>Four symbols of a text, and what is left of the bytes in the last group.\<close>

lemma atob_symbols:
  assumes "sextet x" "sextet y" "sextet z" "sextet w"
  shows "atob_groups (b64_char x # b64_char y # b64_char z # b64_char w # rest)
    = map_option ((@) [x * 4 + y div 16, (y mod 16) * 16 + z div 4, (z mod 4) * 64 + w]) (atob_groups rest)"
    "atob_groups [b64_char x, b64_char y, b64_char z, CHR ''='']
    = Some [x * 4 + y div 16, (y mod 16) * 16 + z div 4]"
    "atob_groups [b64_char x, b64_char y, CHR ''='', CHR ''=''] = Some [x * 4 + y div 16]"
  using assms by (cases rest; cases "atob_groups rest"; simp add: b64_sextet)+

lemma groups_btoa_bytes: "list_all is_byte bs \<Longrightarrow> atob_groups (btoa_bytes bs) = Some bs"
proof (induction bs rule: btoa_bytes.induct)
  case 1
  then show ?case by simp
next
  case (2 a)
  then have "is_byte a" "is_byte 0" by (simp_all add: is_byte_def)
  note s = byte_sextets [OF this(1,2,2)]
  have "a div 4 * 4 + a mod 4 * 16 div 16 = a" by simp
  then show ?case by (simp only: btoa_bytes.simps atob_symbols(3) [OF s(1,5,4,4)])
next
  case (3 a b)
  then have "is_byte a" "is_byte b" "is_byte 0" by (simp_all add: is_byte_def)
  note s = byte_sextets [OF this]
  have r: "0 \<le> a" "a < 256" "0 \<le> b" "b < 256" using 3 by (simp_all add: is_byte_def)
  have "((a mod 4) * 16 + b div 16) mod 16 * 16 + (b mod 16) * 4 div 4 = b"
    using bytes_back(2) [OF r, of 0] by simp
  moreover have t: "a div 4 * 4 + ((a mod 4) * 16 + b div 16) div 16 = a"
    by (rule bytes_back(1) [OF r order_refl]) simp
  ultimately show ?case
    by (simp only: btoa_bytes.simps atob_symbols(2) [OF s(1,2,6,4)])
next
  case (4 a b c bs)
  then have B: "is_byte a" "is_byte b" "is_byte c" and t: "list_all is_byte bs" by simp_all
  have r: "0 \<le> a" "a < 256" "0 \<le> b" "b < 256" "0 \<le> c" "c < 256" using B by (simp_all add: is_byte_def)
  show ?case
    by (simp only: btoa_bytes.simps append.simps atob_symbols(1) [OF byte_sextets(1-4) [OF B]] bytes_back [OF r] "4.IH" [OF t]
        option.map)
qed

lemma btoa_bytes_symbols: "list_all is_byte bs \<Longrightarrow> list_all b64_symbol (btoa_bytes bs)"
proof (induction bs rule: btoa_bytes.induct)
  case (2 a)
  then have "is_byte a" "is_byte 0" by (simp_all add: is_byte_def)
  note s = byte_sextets [OF this(1,2,2)]
  show ?case by (simp only: btoa_bytes.simps list.pred_inject simp_thms b64_sextet(4) b64_sextet(3) [OF s(1)] b64_sextet(3) [OF s(5)])
next
  case (3 a b)
  then have "is_byte a" "is_byte b" "is_byte 0" by (simp_all add: is_byte_def)
  note s = byte_sextets [OF this]
  show ?case by (simp only: btoa_bytes.simps list.pred_inject simp_thms b64_sextet(4) b64_sextet(3) [OF s(1)] b64_sextet(3) [OF s(2)]
        b64_sextet(3) [OF s(6)])
next
  case (4 a b c bs)
  then have B: "is_byte a" "is_byte b" "is_byte c" and t: "list_all is_byte bs" by simp_all
  note s = byte_sextets(1-4) [OF B, THEN b64_sextet(3)]
  show ?case by (simp only: btoa_bytes.simps append.simps list.pred_inject simp_thms s "4.IH" [OF t])
qed simp

lemma length_btoa_bytes: "length (btoa_bytes bs) = 4 * ((length bs + 2) div 3)"
proof (induction bs rule: btoa_bytes.induct)
  case (4 a b c bs)
  have "(length (a # b # c # bs) + 2) div 3 = Suc ((length bs + 2) div 3)" by simp
  with 4 show ?case by simp
qed simp_all

lemma atob_btoa_bytes: "list_all is_byte bs \<Longrightarrow> js_atob (btoa_bytes bs) = Some bs"
  by (simp add: atob_symbol_groups btoa_bytes_symbols length_btoa_bytes groups_btoa_bytes)

lemma of_char_bytes: "list_all is_byte (map of_char s)"
proof -
  have "is_byte (of_char c)" for c :: char
  proof -
    have "(of_char c :: int) = int (of_char c)" by (rule of_nat_of_char [symmetric])
    moreover have "(of_char c :: nat) < 256" by simp
    ultimately show ?thesis unfolding is_byte_def by linarith
  qed
  then show ?thesis by (simp add: list_all_iff)
qed

lemma char_of_bytes: "list_all is_byte bs \<Longrightarrow> map (of_char \<circ> (char_of :: int \<Rightarrow> char)) bs = bs"
  by (induction bs) (auto simp: is_byte_def of_char_of)

lemma atob_btoa: "js_atob (js_btoa s) = Some (map of_char s)"
  by (simp add: js_btoa_def atob_btoa_bytes of_char_bytes)

lemma atob_text_btoa: "js_atob_text (js_btoa s) = Some s"
  by (simp add: js_atob_text_def atob_btoa comp_def)

lemma btoa_symbols: "list_all b64_symbol (js_btoa s)"
  by (simp add: js_btoa_def btoa_bytes_symbols of_char_bytes)

lemma btoa_no_colon: "CHR '':'' \<notin> set (js_btoa s)"
proof -
  have "\<not> b64_symbol (CHR '':'')" by (simp add: b64_symbol_def b64_value_def)
  with btoa_symbols [of s] show ?thesis by (auto simp: list_all_iff)
qed


text \<open>\<open>Base64.decode\<close> is in the theory of the link import, which is its only caller.\<close>

section \<open>Random passwords\<close>

definition alternativeEncode :: "(string \<Rightarrow> string) \<Rightarrow> string \<Rightarrow> string" where
  "alternativeEncode btoa content = btoa content"

text \<open>\<open>draw\<close> holds the bytes \<open>crypto.getRandomValues\<close> fills the array with; its prefix is drawn.\<close>

definition randomBase64 :: "(string \<Rightarrow> string) \<Rightarrow> int list \<Rightarrow> nat \<Rightarrow> string" where
  "randomBase64 btoa draw n = alternativeEncode btoa (map char_of (take n draw))"

definition randomShadowsocksPassword :: "(string \<Rightarrow> string) \<Rightarrow> int list \<Rightarrow> jsval \<Rightarrow> string" where
  "randomShadowsocksPassword btoa draw method0 =
     (let n = (if dflt (JStr ''2022-blake3-aes-256-gcm'') method0 \<in> set [JStr ''2022-blake3-aes-128-gcm''] then 16 else 32)
      in alternativeEncode btoa (map char_of (take n draw)))"

lemma list_all_take: "list_all P xs \<Longrightarrow> list_all P (take n xs)"
  by (auto simp: list_all_iff dest: in_set_takeD)

lemma random_password:
  assumes "list_all is_byte draw" "32 \<le> length draw"
  shows "js_atob (randomShadowsocksPassword js_btoa draw m)
      = Some (take (if m = JStr ''2022-blake3-aes-128-gcm'' then 16 else 32) draw)"
    "length (randomShadowsocksPassword js_btoa draw m) = (if m = JStr ''2022-blake3-aes-128-gcm'' then 24 else 44)"
proof -
  have d: "dflt (JStr ''2022-blake3-aes-256-gcm'') m = JStr ''2022-blake3-aes-128-gcm'' \<longleftrightarrow> m = JStr ''2022-blake3-aes-128-gcm''"
    by (cases m) (simp_all add: dflt_def)
  show "js_atob (randomShadowsocksPassword js_btoa draw m)
      = Some (take (if m = JStr ''2022-blake3-aes-128-gcm'' then 16 else 32) draw)"
    using assms(1) by (simp add: randomShadowsocksPassword_def Let_def d alternativeEncode_def atob_btoa
        char_of_bytes list_all_take)
  show "length (randomShadowsocksPassword js_btoa draw m) = (if m = JStr ''2022-blake3-aes-128-gcm'' then 24 else 44)"
    using assms(2) by (simp add: randomShadowsocksPassword_def Let_def d alternativeEncode_def js_btoa_def
        length_btoa_bytes)
qed

end
