(* ===== verification/Vmess_Import.thy ===== *)
theory Vmess_Import
  imports Outbound_Links Base64_Text
begin

text \<open>
  A VMess link of an inbound (\<open>genVmessLink\<close> of \<open>web/assets/js/model/inbound.js\<close>), imported into the
  outbound form (\<open>fromVmessLink\<close> of \<open>web/assets/js/model/outbound.js\<close>).
\<close>

section \<open>What the builders put into the object\<close>

definition keeps_others :: "string list \<Rightarrow> props \<Rightarrow> props \<Rightarrow> bool" where
  "keeps_others K obj obj' \<longleftrightarrow> (\<forall>k. k \<notin> set K \<longrightarrow> oget obj' k = oget obj k)
     \<and> (obj_ordered obj \<longrightarrow> obj_ordered obj')"

named_theorems keeps_intros \<open>which members a builder of an object leaves alone\<close>

lemma keeps_refl [keeps_intros]: "keeps_others K obj obj"
  by (simp add: keeps_others_def)

lemma keeps_trans: "keeps_others K a b \<Longrightarrow> keeps_others K b c \<Longrightarrow> keeps_others K a c"
  by (simp add: keeps_others_def)

lemma keeps_put [keeps_intros]: "k \<in> set K \<Longrightarrow> keeps_others K a b \<Longrightarrow> keeps_others K a (obj_put b k v)"
  by (auto simp: keeps_others_def oget_obj_put obj_put_ordered)

lemma keeps_put_if [keeps_intros]: "k \<in> set K \<Longrightarrow> keeps_others K a b \<Longrightarrow> keeps_others K a (put_if c k v b)"
  by (simp add: put_if_def keeps_put)

lemma keeps_fold:
  "fst ` set kvs \<subseteq> set K \<Longrightarrow> keeps_others K a b \<Longrightarrow> keeps_others K a (fold (\<lambda>(k, v) obj. obj_put obj k v) kvs b)"
proof (induction kvs arbitrary: b)
  case (Cons p kvs)
  then show ?case by (cases p) (simp add: keeps_put)
qed simp

lemma keeps_ordered: "keeps_others K a b \<Longrightarrow> obj_ordered a \<Longrightarrow> obj_ordered b"
  by (simp add: keeps_others_def)

lemma keeps_oget: "keeps_others K a b \<Longrightarrow> k \<notin> set K \<Longrightarrow> oget b k = oget a k"
  by (simp add: keeps_others_def)

definition padding_names :: "string list" where
  "padding_names = [''x_padding_bytes'', ''xPaddingObfsMode'', ''xPaddingKey'', ''xPaddingHeader'',
     ''xPaddingPlacement'', ''xPaddingMethod'']"

definition vmess_keys :: "string list" where
  "vmess_keys = [''type'', ''path'', ''host'', ''mtu'', ''tti'', ''authority''] @ padding_names"

lemma vmess_key [simp]:
  "''type'' \<in> set vmess_keys" "''path'' \<in> set vmess_keys" "''host'' \<in> set vmess_keys" "''mtu'' \<in> set vmess_keys"
  "''tti'' \<in> set vmess_keys" "''authority'' \<in> set vmess_keys"
  "''ps'' \<notin> set vmess_keys" "''add'' \<notin> set vmess_keys" "''port'' \<notin> set vmess_keys" "''id'' \<notin> set vmess_keys"
  "''scy'' \<notin> set vmess_keys" "''net'' \<notin> set vmess_keys" "''tls'' \<notin> set vmess_keys" "''sni'' \<notin> set vmess_keys"
  "''fp'' \<notin> set vmess_keys" "''alpn'' \<notin> set vmess_keys" "''fm'' \<notin> set vmess_keys" "''v'' \<notin> set vmess_keys"
  by (simp_all add: vmess_keys_def padding_names_def)

lemma padding_name [simp]:
  "''x_padding_bytes'' \<in> set padding_names" "''xPaddingObfsMode'' \<in> set padding_names"
  "''type'' \<notin> set padding_names" "''path'' \<notin> set padding_names" "''host'' \<notin> set padding_names"
  by (simp_all add: padding_names_def)

lemma padding_keeps: "keeps_others padding_names obj (applyXhttpPaddingToObj xhttp obj)"
proof -
  have "fst ` set (given_keys xhttp) \<subseteq> set padding_names"
    by (auto simp: given_keys_def padding_keys_def padding_names_def)
  then show ?thesis
    by (auto simp: applyXhttpPaddingToObj_def Let_def intro!: keeps_fold keeps_intros)
qed

lemma keeps_mono: "keeps_others K a b \<Longrightarrow> set K \<subseteq> set L \<Longrightarrow> keeps_others L a b"
  by (auto simp: keeps_others_def)

lemma vmess_network_keeps: "vmess_network s obj = Some qs \<Longrightarrow> keeps_others vmess_keys obj qs"
proof -
  have p: "keeps_others vmess_keys a (applyXhttpPaddingToObj x b)" if "keeps_others vmess_keys a b" for a b x
  proof (rule keeps_trans [OF that keeps_mono [OF padding_keeps]])
    show "set padding_names \<subseteq> set vmess_keys" unfolding vmess_keys_def set_append by blast
  qed
  assume "vmess_network s obj = Some qs"
  then show ?thesis
    by (auto simp: vmess_network_def Let_def bind_eq_Some_conv split: if_splits intro!: keeps_intros p)
qed

text \<open>What a VMess link says about the transport, network by network.\<close>

definition vmess_tcp :: "StreamSettings \<Rightarrow> props \<Rightarrow> bool" where
  "vmess_tcp s obj \<longleftrightarrow> oget obj ''type'' = tcp_type (ss_tcp s)
     \<and> (if tcp_type (ss_tcp s) = JStr ''http''
        then \<exists>ps h. as_array (req_path (tcp_request (ss_tcp s))) = Some ps
          \<and> getHeader (req_headers (tcp_request (ss_tcp s))) ''host'' = Some h
          \<and> oget obj ''path'' = JStr (arr_join '','' ps) \<and> oget obj ''host'' = (if truthy h then h else JUndef)
        else oget obj ''path'' = JUndef \<and> oget obj ''host'' = JUndef)"

definition vmess_transport :: "StreamSettings \<Rightarrow> props \<Rightarrow> bool" where
  "vmess_transport s obj \<longleftrightarrow>
     (ss_network s = JStr ''tcp'' \<longrightarrow> vmess_tcp s obj)
     \<and> (ss_network s = JStr ''ws'' \<longrightarrow> oget obj ''path'' = ws_path (ss_ws s)
        \<and> host_or_header (ws_host (ss_ws s)) (ws_headers (ss_ws s)) = Some (oget obj ''host''))
     \<and> (ss_network s = JStr ''httpupgrade'' \<longrightarrow> oget obj ''path'' = hu_path (ss_httpupgrade s)
        \<and> host_or_header (hu_host (ss_httpupgrade s)) (hu_headers (ss_httpupgrade s)) = Some (oget obj ''host''))
     \<and> (ss_network s = JStr ''xhttp'' \<longrightarrow> oget obj ''path'' = xh_path (ss_xhttp s)
        \<and> host_or_header (xh_host (ss_xhttp s)) (xh_headers (ss_xhttp s)) = Some (oget obj ''host''))
     \<and> (ss_network s = JStr ''grpc'' \<longrightarrow> oget obj ''path'' = grpc_serviceName (ss_grpc s)
        \<and> oget obj ''authority'' = grpc_authority (ss_grpc s)
        \<and> (truthy (grpc_multiMode (ss_grpc s)) \<longleftrightarrow> oget obj ''type'' \<noteq> JUndef)
        \<and> (truthy (grpc_multiMode (ss_grpc s)) \<longrightarrow> oget obj ''type'' = JStr ''multi''))
     \<and> (ss_network s = JStr ''kcp'' \<longrightarrow> oget obj ''mtu'' = kcp_mtu (ss_kcp s) \<and> oget obj ''tti'' = kcp_tti (ss_kcp s))"

lemma vmess_network_tcp:
  assumes "vmess_network s obj = Some qs" "ss_network s = JStr ''tcp''" "oget obj ''path'' = JUndef" "oget obj ''host'' = JUndef"
  shows "vmess_tcp s qs"
proof (cases "tcp_type (ss_tcp s) = JStr ''http''")
  case True
  have "vmess_network s obj = do {
      ps \<leftarrow> as_array (req_path (tcp_request (ss_tcp s)));
      h \<leftarrow> getHeader (req_headers (tcp_request (ss_tcp s))) ''host'';
      Some (if truthy h then obj_put (obj_put (obj_put obj ''type'' (tcp_type (ss_tcp s))) ''path'' (JStr (arr_join '','' ps))) ''host'' h
        else obj_put (obj_put obj ''type'' (tcp_type (ss_tcp s))) ''path'' (JStr (arr_join '','' ps))) }"
    unfolding vmess_network_def Let_def assms(2) True by (simp only: if_True simp_thms)
  with assms(1) obtain ps h where p: "as_array (req_path (tcp_request (ss_tcp s))) = Some ps"
      "getHeader (req_headers (tcp_request (ss_tcp s))) ''host'' = Some h"
    and qs: "qs = (if truthy h then obj_put (obj_put (obj_put obj ''type'' (tcp_type (ss_tcp s))) ''path'' (JStr (arr_join '','' ps))) ''host'' h
        else obj_put (obj_put obj ''type'' (tcp_type (ss_tcp s))) ''path'' (JStr (arr_join '','' ps)))"
    by (auto simp: bind_eq_Some_conv)
  have "oget qs ''type'' = tcp_type (ss_tcp s)" "oget qs ''path'' = JStr (arr_join '','' ps)"
    "oget qs ''host'' = (if truthy h then h else JUndef)"
    unfolding qs using assms(4) by (simp_all add: oget_obj_put)
  with p True show ?thesis unfolding vmess_tcp_def by (simp only: if_True simp_thms) blast
next
  case False
  have "qs = obj_put obj ''type'' (tcp_type (ss_tcp s))"
    using assms(1) False unfolding vmess_network_def Let_def assms(2) by (simp only: if_True if_False option.inject simp_thms)
  with False assms(3,4) show ?thesis unfolding vmess_tcp_def by (simp only: if_False oget_obj_put) simp
qed

lemma vmess_network_transport:
  assumes "vmess_network s obj = Some qs" "oget obj ''type'' = JUndef" "oget obj ''path'' = JUndef" "oget obj ''host'' = JUndef"
  shows "vmess_transport s qs"
proof -
  have p: "oget (applyXhttpPaddingToObj x b) k = oget b k" if "k \<notin> set padding_names" for x b k
    using keeps_oget [OF padding_keeps that] .
  have "vmess_tcp s qs" if "ss_network s = JStr ''tcp''" by (rule vmess_network_tcp [OF assms(1) that assms(3,4)])
  with assms(1,2) show ?thesis
    by (auto simp: vmess_network_def vmess_transport_def Let_def bind_eq_Some_conv oget_obj_put p split: if_splits)
qed

section \<open>The members of the object\<close>

lemma vmess_obj_stages:
  fixes id :: jsval
  assumes "vmess_obj this address port forceTls remark id security = Some obj"
  obtains ns where
    "vmess_network (ib_stream this) [(''v'', JStr ''2''), (''ps'', JStr remark), (''add'', address), (''port'', port),
       (''id'', id), (''scy'', security), (''net'', ss_network (ib_stream this)), (''tls'', chosen_security forceTls this)] = Some ns"
    "keeps_others [''fm'', ''sni'', ''fp'', ''alpn''] ns obj"
    "oget obj ''alpn'' = JUndef \<or> (\<exists>t. oget obj ''alpn'' = JStr t)"
    "chosen_security forceTls this = JStr ''tls'' \<Longrightarrow>
       oget obj ''sni'' = (if isEmpty (tls_sni (ss_tls (ib_stream this))) then JUndef else tls_sni (ss_tls (ib_stream this)))"
proof -
  let ?s = "ib_stream this" and ?tls = "chosen_security forceTls this"
  from assms obtain ns where ns: "vmess_network ?s [(''v'', JStr ''2''), (''ps'', JStr remark), (''add'', address),
      (''port'', port), (''id'', id), (''scy'', security), (''net'', ss_network ?s), (''tls'', ?tls)] = Some ns"
    and obj: "(if ?tls = JStr ''tls'' then do {
        let t = ss_tls ?s;
        let obj = put_if (\<not> isEmpty (tls_sni t)) ''sni'' (tls_sni t) (applyFinalMaskToObj (ss_finalmask ?s) ns);
        let obj = put_if (\<not> isEmpty (tset_fingerprint (tls_settings t))) ''fp'' (tset_fingerprint (tls_settings t)) obj;
        alpn \<leftarrow> members (tls_alpn t);
        (if gt0 (alpn ''length'') then do {
           ps \<leftarrow> as_array (tls_alpn t);
           Some (obj_put obj ''alpn'' (JStr (arr_join '','' ps))) }
         else Some obj) }
      else Some (applyFinalMaskToObj (ss_finalmask ?s) ns)) = Some obj"
    unfolding vmess_obj_def Let_def bind_eq_Some_conv by blast
  have fm: "keeps_others [''fm''] ns (applyFinalMaskToObj (ss_finalmask ?s) ns)"
    by (auto simp: applyFinalMaskToObj_def Let_def intro: keeps_intros)
  have keeps: "keeps_others [''fm'', ''sni'', ''fp'', ''alpn''] ns obj"
  proof (rule keeps_trans [OF keeps_mono [OF fm]])
    show "keeps_others [''fm'', ''sni'', ''fp'', ''alpn''] (applyFinalMaskToObj (ss_finalmask ?s) ns) obj"
      using obj by (auto simp: Let_def bind_eq_Some_conv split: if_splits intro!: keeps_intros)
  qed simp
  have undef: "oget ns k = JUndef" if "k \<in> {''sni'', ''fp'', ''alpn''}" for k
    using that keeps_oget [OF vmess_network_keeps [OF ns], of k] by auto
  have alpn: "oget obj ''alpn'' = JUndef \<or> (\<exists>t. oget obj ''alpn'' = JStr t)"
    using obj undef [of "''alpn''"] keeps_oget [OF fm, of "''alpn''"]
    by (auto simp: Let_def bind_eq_Some_conv put_if_def oget_obj_put split: if_splits)
  have sni: "oget obj ''sni'' = (if isEmpty (tls_sni (ss_tls ?s)) then JUndef else tls_sni (ss_tls ?s))"
    if "?tls = JStr ''tls''"
    using obj that undef [of "''sni''"] keeps_oget [OF fm, of "''sni''"]
    by (auto simp: Let_def bind_eq_Some_conv put_if_def oget_obj_put split: if_splits)
  show thesis by (rule that [OF ns keeps alpn sni])
qed

section \<open>The import\<close>

text \<open>What the imported outbound has of the inbound's transport: the camouflage of TCP with the path and the
  host of its request, the paths and hosts, the service of gRPC with its mode, the times of KCP if they are
  positive numbers. The text passes every value through JSON. The mode of XHTTP is not among them: the link
  has it under another name than the importer reads, so the mode is the default one.\<close>

definition tcp_imported :: "StreamSettings \<Rightarrow> OutStreamSettings \<Rightarrow> bool" where
  "tcp_imported s t \<longleftrightarrow>
     (if tcp_type (ss_tcp s) = JStr ''http''
      then \<exists>ps h. as_array (req_path (tcp_request (ss_tcp s))) = Some ps
        \<and> getHeader (req_headers (tcp_request (ss_tcp s))) ''host'' = Some h
        \<and> os_tcp t = OutTcpStreamSettings_new (JStr ''http'') (if truthy h then wire h else JStr []) (JStr (arr_join '','' ps))
      else os_tcp t = OutTcpStreamSettings_new (wire (tcp_type (ss_tcp s))) (JStr []) (JStr []))"

definition vmess_imported :: "StreamSettings \<Rightarrow> OutStreamSettings \<Rightarrow> bool" where
  "vmess_imported s t \<longleftrightarrow>
     (ss_network s = JStr ''tcp'' \<longrightarrow> tcp_imported s t)
     \<and> (ss_network s = JStr ''ws'' \<longrightarrow> (\<exists>h. host_or_header (ws_host (ss_ws s)) (ws_headers (ss_ws s)) = Some h
        \<and> os_ws t = OutWsStreamSettings_new (wire (ws_path (ss_ws s))) (wire h) JUndef))
     \<and> (ss_network s = JStr ''httpupgrade'' \<longrightarrow>
        (\<exists>h. host_or_header (hu_host (ss_httpupgrade s)) (hu_headers (ss_httpupgrade s)) = Some h
        \<and> os_httpupgrade t = OutHttpUpgradeStreamSettings_new (wire (hu_path (ss_httpupgrade s))) (wire h)))
     \<and> (ss_network s = JStr ''xhttp'' \<longrightarrow>
        (\<exists>h. host_or_header (xh_host (ss_xhttp s)) (xh_headers (ss_xhttp s)) = Some h
        \<and> os_xhttp t = OutxHTTPStreamSettings_new (wire (xh_path (ss_xhttp s))) (wire h) JUndef JUndef JUndef JUndef))
     \<and> (ss_network s = JStr ''grpc'' \<longrightarrow>
        os_grpc t = OutGrpcStreamSettings_new (wire (grpc_serviceName (ss_grpc s))) (wire (grpc_authority (ss_grpc s)))
          (JBool (truthy (grpc_multiMode (ss_grpc s)))))
     \<and> (ss_network s = JStr ''kcp'' \<longrightarrow>
        okcp_mtu (os_kcp t) = positive_or (wire (kcp_mtu (ss_kcp s))) (JNum 1350)
        \<and> okcp_tti (os_kcp t) = positive_or (wire (kcp_tti (ss_kcp s))) (JNum 20))"

lemma vmess_stream_tcp: "json ''net'' = JStr ''tcp'' \<Longrightarrow>
   os_tcp (vmess_link_stream json) = OutTcpStreamSettings_new (json ''type'')
     (js_coalesce (json ''host'') (JStr [])) (js_coalesce (json ''path'') (JStr []))"
  by (simp add: vmess_link_stream_def Let_def)

lemma coalesce_wire: "js_coalesce (wire (if truthy h then h else JUndef)) (JStr []) = (if truthy h then wire h else JStr [])"
  by (cases h) (auto simp: js_coalesce_def nullish_def)

lemma vmess_stream_parts:
  "json ''net'' = JStr ''ws'' \<Longrightarrow>
     os_ws (vmess_link_stream json) = OutWsStreamSettings_new (json ''path'') (json ''host'') JUndef"
  "json ''net'' = JStr ''httpupgrade'' \<Longrightarrow>
     os_httpupgrade (vmess_link_stream json) = OutHttpUpgradeStreamSettings_new (json ''path'') (json ''host'')"
  "json ''net'' = JStr ''xhttp'' \<Longrightarrow> json ''mode'' = JUndef \<Longrightarrow>
     os_xhttp (vmess_link_stream json)
       = OutxHTTPStreamSettings_new (json ''path'') (json ''host'') JUndef JUndef JUndef JUndef"
  "json ''net'' = JStr ''grpc'' \<Longrightarrow>
     os_grpc (vmess_link_stream json)
       = OutGrpcStreamSettings_new (json ''path'') (json ''authority'') (JBool (loosely (json ''type'') ''multi''))"
  by (simp_all add: vmess_link_stream_def Let_def)

lemma vmess_stream_kcp:
  assumes "json ''net'' = JStr ''kcp''"
  shows "okcp_mtu (os_kcp (vmess_link_stream json)) = positive_or (json ''mtu'') (JNum 1350)"
    "okcp_tti (os_kcp (vmess_link_stream json)) = positive_or (json ''tti'') (JNum 20)"
  using assms by (simp_all add: vmess_link_stream_def Let_def OutStreamSettings_default_def OutStreamSettings_new_def
      OutKcpStreamSettings_new_def dflt_def)

lemma vmess_stream_names:
  "os_network (vmess_link_stream json) = dflt (JStr ''tcp'') (json ''net'')"
  "os_security (vmess_link_stream json) = dflt (JStr ''none'') (json ''tls'')"
  by (simp_all add: vmess_link_stream_def Let_def OutStreamSettings_default_def OutStreamSettings_new_def)

lemma vmess_imported_tls: "vmess_imported s (t\<lparr>os_tls := x\<rparr>) \<longleftrightarrow> vmess_imported s t"
  by (simp add: vmess_imported_def tcp_imported_def)

lemma vmess_stream_imported:
  assumes "vmess_transport s obj" and json: "json = (\<lambda>k. wire (oget obj k))"
    and net: "oget obj ''net'' = ss_network s" and mode: "oget obj ''mode'' = JUndef"
  shows "vmess_imported s (vmess_link_stream json)"
proof -
  have given: "json ''net'' = JStr n" if "ss_network s = JStr n" for n
    by (simp add: json net that)
  have grpc: "loosely (json ''type'') ''multi'' \<longleftrightarrow> truthy (grpc_multiMode (ss_grpc s))" if "ss_network s = JStr ''grpc''"
    using assms(1) that by (cases "truthy (grpc_multiMode (ss_grpc s))") (simp_all add: vmess_transport_def json)
  have of: "json k = wire (oget obj k)" for k by (simp only: json)
  have undef: "json ''mode'' = JUndef" by (simp only: of mode wire.simps)
  have tcp: "tcp_imported s (vmess_link_stream json)" if n: "ss_network s = JStr ''tcp''"
  proof -
    have v: "vmess_tcp s obj" using assms(1) n by (simp only: vmess_transport_def simp_thms)
    have made: "os_tcp (vmess_link_stream json) = OutTcpStreamSettings_new (wire (oget obj ''type''))
        (js_coalesce (wire (oget obj ''host'')) (JStr [])) (js_coalesce (wire (oget obj ''path'')) (JStr []))"
      unfolding vmess_stream_tcp [where json = json, OF given [OF n]] of ..
    have coalesce: "js_coalesce (wire (JStr x)) (JStr []) = JStr x" "js_coalesce (wire JUndef) (JStr []) = JStr []" for x
      by (simp_all add: js_coalesce_def nullish_def)
    show ?thesis
    proof (cases "tcp_type (ss_tcp s) = JStr ''http''")
      case True
      with v obtain ps h where p: "as_array (req_path (tcp_request (ss_tcp s))) = Some ps"
        "getHeader (req_headers (tcp_request (ss_tcp s))) ''host'' = Some h"
        "oget obj ''type'' = JStr ''http''" "oget obj ''path'' = JStr (arr_join '','' ps)"
        "oget obj ''host'' = (if truthy h then h else JUndef)"
        unfolding vmess_tcp_def by (simp only: if_True simp_thms) blast
      have tcp: "os_tcp (vmess_link_stream json)
          = OutTcpStreamSettings_new (JStr ''http'') (if truthy h then wire h else JStr []) (JStr (arr_join '','' ps))"
        unfolding made p(3-5) coalesce coalesce_wire by simp
      show ?thesis unfolding tcp_imported_def if_P [OF True] by (intro exI conjI) (fact p(1), fact p(2), fact tcp)
    next
      case False
      with v have "oget obj ''type'' = tcp_type (ss_tcp s)" "oget obj ''path'' = JUndef" "oget obj ''host'' = JUndef"
        unfolding vmess_tcp_def by (simp_all only: if_False simp_thms)
      with False show ?thesis unfolding tcp_imported_def made by (simp only: if_False coalesce)
    qed
  qed
  note t = assms(1) [unfolded vmess_transport_def, THEN conjunct2]
  note parts = vmess_stream_parts [where json = json] and kcp = vmess_stream_kcp [where json = json]
  have ws: "\<exists>h. host_or_header (ws_host (ss_ws s)) (ws_headers (ss_ws s)) = Some h
      \<and> os_ws (vmess_link_stream json) = OutWsStreamSettings_new (wire (ws_path (ss_ws s))) (wire h) JUndef"
    if n: "ss_network s = JStr ''ws''"
    using t [THEN conjunct1, rule_format, OF n] by (intro exI conjI) (simp_all only: parts(1) [OF given [OF n]] of)
  have hu: "\<exists>h. host_or_header (hu_host (ss_httpupgrade s)) (hu_headers (ss_httpupgrade s)) = Some h
      \<and> os_httpupgrade (vmess_link_stream json) = OutHttpUpgradeStreamSettings_new (wire (hu_path (ss_httpupgrade s))) (wire h)"
    if n: "ss_network s = JStr ''httpupgrade''"
    using t [THEN conjunct2, THEN conjunct1, rule_format, OF n] by (intro exI conjI) (simp_all only: parts(2) [OF given [OF n]] of)
  have xh: "\<exists>h. host_or_header (xh_host (ss_xhttp s)) (xh_headers (ss_xhttp s)) = Some h
      \<and> os_xhttp (vmess_link_stream json)
        = OutxHTTPStreamSettings_new (wire (xh_path (ss_xhttp s))) (wire h) JUndef JUndef JUndef JUndef"
    if n: "ss_network s = JStr ''xhttp''"
    using t [THEN conjunct2, THEN conjunct2, THEN conjunct1, rule_format, OF n]
    by (intro exI conjI) (simp_all only: parts(3) [OF given [OF n] undef] of)
  have gr: "os_grpc (vmess_link_stream json) = OutGrpcStreamSettings_new (wire (grpc_serviceName (ss_grpc s)))
      (wire (grpc_authority (ss_grpc s))) (JBool (truthy (grpc_multiMode (ss_grpc s))))"
    if n: "ss_network s = JStr ''grpc''"
    using t [THEN conjunct2, THEN conjunct2, THEN conjunct2, THEN conjunct1, rule_format, OF n]
    by (simp only: parts(4) [OF given [OF n]] grpc [OF n]) (simp only: of)
  have kc: "okcp_mtu (os_kcp (vmess_link_stream json)) = positive_or (wire (kcp_mtu (ss_kcp s))) (JNum 1350)
      \<and> okcp_tti (os_kcp (vmess_link_stream json)) = positive_or (wire (kcp_tti (ss_kcp s))) (JNum 20)"
    if n: "ss_network s = JStr ''kcp''"
    using t [THEN conjunct2, THEN conjunct2, THEN conjunct2, THEN conjunct2, rule_format, OF n]
    by (simp only: kcp [OF given [OF n]] of)
  show ?thesis unfolding vmess_imported_def by (intro conjI impI tcp ws hu xh gr kc)
qed

lemma json_text_decoded: "Base64_decode js_atob_text (Base64_encode js_btoa content False) = Some content"
  by (simp add: Base64_decode_def Base64_encode_def atob_text_btoa utf8_chars_utf8)

lemma vmess_dispatch:
  assumes "le_atob env = js_atob_text" "le_parse env content = Some json"
  shows "fromLink True env (''vmess://'' @ Base64_encode js_btoa content False) = map_option Some (fromVmessLink json)"
proof -
  let ?b = "Base64_encode js_btoa content False"
  have "CHR '':'' \<notin> set ?b" by (simp add: Base64_encode_def btoa_no_colon)
  then have "js_split_on ''://'' ([] @ ?b) = [[] @ ?b]" by (intro split_on_none) simp_all
  then have "js_split_on ''://'' (''vmess'' @ ''://'' @ ?b) = [''vmess'', ?b]"
    by (subst split_on_scheme) simp_all
  then show ?thesis
    using json_text_decoded [of content] assms by (simp add: fromLink_def js_lower_def lower_char_def)
qed

lemma from_vmess_object:
  assumes "distinct (map fst obj)" and json: "json = (\<lambda>k. wire (oget obj k))"
    and alpn: "oget obj ''alpn'' = JUndef \<or> (\<exists>t. oget obj ''alpn'' = JStr t)"
  obtains stream where
    "fromVmessLink (wire (JObj obj)) = Outbound_new (json ''ps'') (JStr ''vmess'')
       (Some (VmessO (OutVmessSettings_new (json ''add'') (js_Number (json ''port'')) (json ''id'') (json ''scy''))))
       stream JUndef None"
    "stream = vmess_link_stream json
     \<or> (\<exists>alpn. stream = vmess_link_stream json\<lparr>os_tls := OutTlsStreamSettings_new (json ''sni'') alpn (json ''fp'')
          JUndef JUndef JUndef\<rparr>)"
    "json ''tls'' = JStr ''tls'' \<Longrightarrow> otls_serverName (os_tls stream) = dflt (JStr []) (json ''sni'')"
proof -
  obtain ls where ls: "split_text (json ''alpn'') = Some ls"
  proof -
    from alpn consider "json ''alpn'' = JUndef" | t where "json ''alpn'' = JStr t" by (auto simp: json)
    then show thesis
    proof cases
      case (2 t)
      then show thesis by (cases t) (use that in \<open>simp_all add: split_text_def\<close>)
    qed (use that in \<open>simp add: split_text_def\<close>)
  qed
  have m: "oget (wire_props obj) = json"
    by (simp add: json fun_eq_iff oget_wire_props [OF assms(1)])
  let ?tls = "vmess_link_stream json\<lparr>os_tls := OutTlsStreamSettings_new (json ''sni'') (text_list ls) (json ''fp'')
    JUndef JUndef JUndef\<rparr>"
  show thesis
  proof (cases "truthy (json ''tls'') \<and> loosely (json ''tls'') ''tls''")
    case True
    then show thesis
      by (intro that [of ?tls]) (auto simp: fromVmessLink_def m ls Let_def OutTlsStreamSettings_new_def)
  next
    case False
    then show thesis by (intro that [of "vmess_link_stream json"]) (auto simp: fromVmessLink_def m Let_def)
  qed
qed

lemma vmess_base_ordered:
  "obj_ordered [(''v'', a), (''ps'', b), (''add'', c), (''port'', d), (''id'', e), (''scy'', f), (''net'', g), (''tls'', h)]"
  by (simp add: obj_ordered_def key_before_def is_index_def is_digit_def)

lemma vmess_link_imported:
  fixes address id remark network tls :: string and port :: int
  assumes gen: "genVmessLink br this (JStr address) (JNum port) forceTls remark (JStr id) security = Some text"
    and obj: "vmess_obj this (JStr address) (JNum port) forceTls remark (JStr id) security = Some obj"
    and vmess: "ib_protocol this = JStr ''vmess''"
    and base64: "br_btoa br = js_btoa" "le_atob env = js_atob_text"
    and parse: "le_parse env (stringify_flat obj) = Some (wire (JObj obj))"
    and names: "ss_network (ib_stream this) = JStr network" "chosen_security forceTls this = JStr tls"
  shows "\<exists>stream. fromLink True env text = Some (Some \<lparr>
      ob_tag = JStr remark, ob_protocol = JStr ''vmess'',
      ob_settings = Some (VmessO (OutVmessSettings_new (JStr address) (JNum port) (JStr id) (wire security))),
      ob_stream = stream, ob_sendThrough = JUndef, ob_mux = Mux_new JUndef JUndef JUndef JUndef\<rparr>)
    \<and> os_network stream = JStr network \<and> os_security stream = JStr tls
    \<and> vmess_imported (ib_stream this) stream
    \<and> (tls = ''tls'' \<longrightarrow> otls_serverName (os_tls stream)
        = (if isEmpty (tls_sni (ss_tls (ib_stream this))) then JStr [] else wire (tls_sni (ss_tls (ib_stream this)))))"
proof -
  let ?base = "[(''v'', JStr ''2''), (''ps'', JStr remark), (''add'', JStr address), (''port'', JNum port),
    (''id'', JStr id), (''scy'', security), (''net'', ss_network (ib_stream this)), (''tls'', chosen_security forceTls this)]"
  obtain ns where ns: "vmess_network (ib_stream this) ?base = Some ns"
    and rest: "keeps_others [''fm'', ''sni'', ''fp'', ''alpn''] ns obj"
    and alpn: "oget obj ''alpn'' = JUndef \<or> (\<exists>t. oget obj ''alpn'' = JStr t)"
    and sni: "chosen_security forceTls this = JStr ''tls'' \<Longrightarrow>
       oget obj ''sni'' = (if isEmpty (tls_sni (ss_tls (ib_stream this))) then JUndef else tls_sni (ss_tls (ib_stream this)))"
    using vmess_obj_stages [OF obj] by blast
  note net = vmess_network_keeps [OF ns]
  have distinct: "distinct (map fst obj)"
    using keeps_ordered [OF net] keeps_ordered [OF rest] vmess_base_ordered obj_ordered_distinct by blast
  define json where "json = (\<lambda>k. wire (oget obj k))"
  have base: "oget obj k = oget ?base k" if "k \<notin> set vmess_keys" "k \<notin> set [''fm'', ''sni'', ''fp'', ''alpn'']" for k
    using keeps_oget [OF net that(1)] keeps_oget [OF rest that(2)] by simp
  have parts: "json ''ps'' = JStr remark" "json ''add'' = JStr address" "json ''port'' = JNum port" "json ''id'' = JStr id"
    "json ''scy'' = wire security" "json ''net'' = JStr network" "json ''tls'' = JStr tls"
    by (simp_all add: json_def base names)
  have mode: "oget obj ''mode'' = JUndef"
    by (subst base) (simp_all add: vmess_keys_def padding_names_def)
  have transport: "vmess_transport (ib_stream this) obj"
  proof -
    have "oget obj ''path'' = oget ns ''path''" "oget obj ''host'' = oget ns ''host''" "oget obj ''authority'' = oget ns ''authority''"
      "oget obj ''type'' = oget ns ''type''" "oget obj ''mtu'' = oget ns ''mtu''" "oget obj ''tti'' = oget ns ''tti''"
      by (rule keeps_oget [OF rest]; simp)+
    moreover have "vmess_transport (ib_stream this) ns" by (rule vmess_network_transport [OF ns]) simp_all
    ultimately show ?thesis by (simp only: vmess_transport_def vmess_tcp_def)
  qed
  have imported: "vmess_imported (ib_stream this) (vmess_link_stream json)"
    by (rule vmess_stream_imported [OF transport json_def _ mode]) (simp add: base)
  obtain stream where x: "fromVmessLink (wire (JObj obj)) = Outbound_new (json ''ps'') (JStr ''vmess'')
       (Some (VmessO (OutVmessSettings_new (json ''add'') (js_Number (json ''port'')) (json ''id'') (json ''scy''))))
       stream JUndef None"
    and stream: "stream = vmess_link_stream json
     \<or> (\<exists>alpn. stream = vmess_link_stream json\<lparr>os_tls := OutTlsStreamSettings_new (json ''sni'') alpn (json ''fp'')
          JUndef JUndef JUndef\<rparr>)"
    and name: "json ''tls'' = JStr ''tls'' \<Longrightarrow> otls_serverName (os_tls stream) = dflt (JStr []) (json ''sni'')"
    using from_vmess_object [OF distinct json_def alpn] by blast
  have "text = ''vmess://'' @ Base64_encode js_btoa (stringify_flat obj) False"
    using gen obj vmess base64 by (simp add: genVmessLink_def dflt_def)
  then have read: "fromLink True env text = map_option Some (fromVmessLink (wire (JObj obj)))"
    using vmess_dispatch [OF base64(2) parse] by simp
  have made: "Outbound_new (JStr remark) (JStr ''vmess'') s stream JUndef None = Some \<lparr>
      ob_tag = JStr remark, ob_protocol = JStr ''vmess'', ob_settings = s,
      ob_stream = stream, ob_sendThrough = JUndef, ob_mux = Mux_new JUndef JUndef JUndef JUndef\<rparr>" if "s \<noteq> None" for s
    using that by (cases s) (simp_all add: Outbound_new_def dflt_def)
  have number: "js_Number (JNum port) = JNum port" by (simp add: js_Number_def)
  have kept: "os_network stream = JStr network" "os_security stream = JStr tls" "vmess_imported (ib_stream this) stream"
    using stream imported by (auto simp: vmess_stream_names parts dflt_def vmess_imported_tls)
  have server: "tls = ''tls'' \<longrightarrow> otls_serverName (os_tls stream)
      = (if isEmpty (tls_sni (ss_tls (ib_stream this))) then JStr [] else wire (tls_sni (ss_tls (ib_stream this))))"
  proof
    assume "tls = ''tls''"
    with name parts(7) sni names(2)
    have "otls_serverName (os_tls stream) = dflt (JStr []) (wire (if isEmpty (tls_sni (ss_tls (ib_stream this)))
        then JUndef else tls_sni (ss_tls (ib_stream this))))" by (simp add: json_def)
    moreover have "v \<noteq> JUndef" if "\<not> isEmpty v" for v using that by (auto simp: isEmpty_def)
    ultimately show "otls_serverName (os_tls stream)
      = (if isEmpty (tls_sni (ss_tls (ib_stream this))) then JStr [] else wire (tls_sni (ss_tls (ib_stream this))))"
      by (auto simp: dflt_def)
  qed
  show ?thesis
    by (intro exI [of _ stream] conjI kept server)
      (simp only: read x parts number made option.map option.distinct not_False_eq_True)
qed

end
