(* ===== verification/Subscription.thy ===== *)
theory Subscription
  imports Vmess_Import Cookies
begin

text \<open>
  The subscription page (\<open>web/assets/js/subscription.js\<close>): what it reads from the attributes of its
  document, the name it shows for a link, the addresses that hand the subscription to an
  application, and the life of the page. \<open>parseInt\<close> is the one of the link import; the document's
  attributes, the result of drawing a code and the size of the window are arguments.
\<close>

section \<open>The data of the page\<close>

record sub_data =
  sd_sId :: string
  sd_enabled :: bool
  sd_subUrl :: string
  sd_subJsonUrl :: string
  sd_subClashUrl :: string
  sd_download :: string
  sd_upload :: string
  sd_used :: string
  sd_total :: string
  sd_remained :: string
  sd_expireMs :: int
  sd_lastOnlineMs :: int
  sd_downloadByte :: int
  sd_uploadByte :: int
  sd_totalByte :: int
  sd_datepicker :: string

text \<open>\<open>el.getAttribute(name) || d\<close>, and \<open>parseInt(el.getAttribute(name) || '0', 10) || 0\<close>.\<close>

definition attr_or :: "(string \<Rightarrow> string option) \<Rightarrow> string \<Rightarrow> string \<Rightarrow> string" where
  "attr_or el name d = (case el name of Some (c # cs) \<Rightarrow> c # cs | _ \<Rightarrow> d)"

definition parse_decimal :: "string \<Rightarrow> int option" where
  "parse_decimal s =
     (let t = dropWhile is_space s;
          u = (if t \<noteq> [] \<and> hd t \<in> {CHR ''-'', CHR ''+''} then tl t else t);
          n = int (nat_of_digits (takeWhile is_digit u)) in
      if takeWhile is_digit u = [] then None else Some (if hd t = CHR ''-'' then - n else n))"

definition attr_number :: "(string \<Rightarrow> string option) \<Rightarrow> string \<Rightarrow> int" where
  "attr_number el name = (case parse_decimal (attr_or el name ''0'') of Some n \<Rightarrow> n | None \<Rightarrow> 0)"

text \<open>A time below ten thousand million is taken for seconds.\<close>

definition in_milliseconds :: "int \<Rightarrow> int" where
  "in_milliseconds t = (if t \<noteq> 0 \<and> t < 10000000000 then t * 1000 else t)"

definition page_data :: "(string \<Rightarrow> string option) \<Rightarrow> sub_data" where
  "page_data el =
     \<lparr>sd_sId = attr_or el ''data-sid'' [],
      sd_enabled = (js_lower (attr_or el ''data-enabled'' []) = ''true''),
      sd_subUrl = attr_or el ''data-sub-url'' [],
      sd_subJsonUrl = attr_or el ''data-subjson-url'' [],
      sd_subClashUrl = attr_or el ''data-subclash-url'' [],
      sd_download = attr_or el ''data-download'' [],
      sd_upload = attr_or el ''data-upload'' [],
      sd_used = attr_or el ''data-used'' [],
      sd_total = attr_or el ''data-total'' [],
      sd_remained = attr_or el ''data-remained'' [],
      sd_expireMs = attr_number el ''data-expire'' * 1000,
      sd_lastOnlineMs = in_milliseconds (attr_number el ''data-lastonline''),
      sd_downloadByte = attr_number el ''data-downloadbyte'',
      sd_uploadByte = attr_number el ''data-uploadbyte'',
      sd_totalByte = attr_number el ''data-totalbyte'',
      sd_datepicker = attr_or el ''data-datepicker'' ''gregorian''\<rparr>"

definition rawLinks :: "string option \<Rightarrow> string list" where
  "rawLinks textarea =
     filter (\<lambda>l. l \<noteq> []) (js_split (char_of (10 :: nat)) (case textarea of Some v \<Rightarrow> v | None \<Rightarrow> []))"

section \<open>The name of a link\<close>

fun js_indexOf :: "string \<Rightarrow> string \<Rightarrow> nat option" where
  "js_indexOf sub [] = (if sub = [] then Some 0 else None)"
| "js_indexOf sub (c # cs) = (if starts_with (c # cs) sub then Some 0 else map_option Suc (js_indexOf sub cs))"

definition js_substring :: "nat \<Rightarrow> nat \<Rightarrow> string \<Rightarrow> string" where
  "js_substring a b s = take (max a b - min a b) (drop (min a b) s)"

text \<open>A branch of \<open>linkName\<close>: \<open>None\<close> is thrown and caught, \<open>Some JUndef\<close> falls through.\<close>

definition vmess_name :: "link_env \<Rightarrow> string \<Rightarrow> jsval option" where
  "vmess_name env link = do {
     bytes \<leftarrow> le_atob env (drop 8 link);
     parsed \<leftarrow> le_parse env bytes;
     json \<leftarrow> members parsed;
     Some (if truthy (json ''ps'') then json ''ps''
       else if truthy (json ''add'') \<and> truthy (json ''id'') then json ''add'' else JUndef) }"

definition fragment_name :: "string \<Rightarrow> nat \<Rightarrow> jsval option" where
  "fragment_name link hashIdx = map_option JStr (decodeURIComponent (drop (Suc hashIdx) link))"

definition param_name :: "link_env \<Rightarrow> string \<Rightarrow> jsval option" where
  "param_name env link = do {
     named \<leftarrow> (case str_index (CHR ''?'') link of
         None \<Rightarrow> Some JUndef
       | Some qIdx \<Rightarrow> do {
           (qs, hash) \<leftarrow> le_url env (''http://x/?'' @ drop (Suc qIdx) link);
           Some (if truthy (get_param qs ''remark'') then get_param qs ''remark''
             else if truthy (get_param qs ''email'') then get_param qs ''email'' else JUndef) });
     Some (if named \<noteq> JUndef then named
       else (case (str_index (CHR ''@'') link, js_indexOf ''://'' link) of
           (Some atPos, Some protSep) \<Rightarrow> JStr (js_substring (protSep + 3) atPos link)
         | _ \<Rightarrow> JUndef)) }"

definition link_label :: "link_env \<Rightarrow> string \<Rightarrow> jsval option" where
  "link_label env link =
     (if starts_with link ''vmess://'' then vmess_name env link
      else if starts_with link ''vless://'' \<or> starts_with link ''trojan://'' then
        (case str_index (CHR ''#'') link of
           Some hashIdx \<Rightarrow> fragment_name link hashIdx
         | None \<Rightarrow> param_name env link)
      else if starts_with link ''ss://'' then
        (case str_index (CHR ''#'') link of
           Some hashIdx \<Rightarrow> fragment_name link hashIdx
         | None \<Rightarrow> Some JUndef)
      else Some JUndef)"

definition linkName :: "link_env \<Rightarrow> string \<Rightarrow> nat \<Rightarrow> jsval" where
  "linkName env link idx = (case link_label env link of
       None \<Rightarrow> JStr (''Link '' @ nat_str (idx + 1))
     | Some v \<Rightarrow> if v = JUndef then JStr (''Link '' @ nat_str (idx + 1)) else v)"

section \<open>What the page shows of the account\<close>

definition isUnlimited :: "sub_data \<Rightarrow> bool" where
  "isUnlimited app \<longleftrightarrow> sd_totalByte app = 0"

definition sub_isActive :: "int \<Rightarrow> sub_data \<Rightarrow> bool" where
  "sub_isActive now app \<longleftrightarrow> sd_enabled app \<and> (sd_expireMs app = 0 \<or> sd_expireMs app \<ge> now)
     \<and> (sd_totalByte app = 0 \<or> sd_uploadByte app + sd_downloadByte app \<le> sd_totalByte app)"

definition shadowrocketUrl :: "(string \<Rightarrow> string) \<Rightarrow> sub_data \<Rightarrow> string" where
  "shadowrocketUrl btoa app =
     ''shadowrocket://add/sub/'' @ btoa (sd_subUrl app @ ''?flag=shadowrocket'') @ ''?remark=''
       @ encodeURIComponent (if sd_sId app \<noteq> [] then sd_sId app else ''Subscription'')"

definition v2boxUrl :: "sub_data \<Rightarrow> string" where
  "v2boxUrl app = ''v2box://install-sub?url='' @ encodeURIComponent (sd_subUrl app)
     @ ''&name='' @ encodeURIComponent (sd_sId app)"

definition streisandUrl :: "sub_data \<Rightarrow> string" where
  "streisandUrl app = ''streisand://import/'' @ encodeURIComponent (sd_subUrl app)"

definition v2raytunUrl :: "sub_data \<Rightarrow> string" where
  "v2raytunUrl app = sd_subUrl app"

definition npvtunUrl :: "sub_data \<Rightarrow> string" where
  "npvtunUrl app = sd_subUrl app"

definition happUrl :: "sub_data \<Rightarrow> string" where
  "happUrl app = ''happ://add/'' @ sd_subUrl app"

section \<open>The life of the page\<close>

text \<open>\<open>sp_drawn\<close> lists the codes that were drawn, \<open>sp_listening\<close> the handlers of the window's
  \<open>resize\<close> event, of which the page holds one in \<open>_onResize\<close>.\<close>

record sub_page =
  sp_app :: sub_data
  sp_links :: "string list"
  sp_lang :: jsval
  sp_viewportWidth :: int
  sp_drawn :: "(string \<times> string) list"
  sp_onResize :: "nat option"
  sp_listening :: "nat list"
  sp_next :: nat
  sp_language :: lang_page

definition sub_page_new ::
  "(string \<Rightarrow> string option) option \<Rightarrow> string option \<Rightarrow> int \<Rightarrow> lang_page \<Rightarrow> sub_page option" where
  "sub_page_new el textarea innerWidth lp = map_option (\<lambda>el.
     \<lparr>sp_app = page_data el, sp_links = rawLinks textarea, sp_lang = JStr [], sp_viewportWidth = innerWidth,
      sp_drawn = [], sp_onResize = None, sp_listening = [], sp_next = 0, sp_language = lp\<rparr>) el"

text \<open>\<open>drawable\<close> tells whether the library draws a value into an element, or throws. In the second
  block a failure leaves out what follows it.\<close>

definition drawQR :: "(string \<Rightarrow> string \<Rightarrow> bool) \<Rightarrow> string \<Rightarrow> string \<Rightarrow> sub_page \<Rightarrow> sub_page" where
  "drawQR drawable element v p = (if drawable element v then p\<lparr>sp_drawn := sp_drawn p @ [(element, v)]\<rparr> else p)"

definition drawQR_both :: "(string \<Rightarrow> string \<Rightarrow> bool) \<Rightarrow> (string \<Rightarrow> bool) \<Rightarrow> sub_page \<Rightarrow> sub_page" where
  "drawQR_both drawable present p =
     (let json = sd_subJsonUrl (sp_app p); clash = sd_subClashUrl (sp_app p);
          second = (\<lambda>p. if present ''qrcode-subclash'' \<and> clash \<noteq> [] then drawQR drawable ''qrcode-subclash'' clash p else p) in
      if present ''qrcode-subjson'' \<and> json \<noteq> [] then
        (if drawable ''qrcode-subjson'' json then second (drawQR drawable ''qrcode-subjson'' json p) else p)
      else second p)"

definition sub_mounted ::
  "navigator option \<Rightarrow> (string \<Rightarrow> string option) option \<Rightarrow> (string \<Rightarrow> string \<Rightarrow> bool) \<Rightarrow> (string \<Rightarrow> bool)
    \<Rightarrow> sub_page \<Rightarrow> sub_page option" where
  "sub_mounted nav tpl drawable present p = do {
     (lang, lp) \<leftarrow> getLanguage nav (sp_language p);
     let app = sp_app p;
     let sj = (case tpl of Some el \<Rightarrow> attr_or el ''data-subjson-url'' [] | None \<Rightarrow> []);
     let sc = (case tpl of Some el \<Rightarrow> attr_or el ''data-subclash-url'' [] | None \<Rightarrow> []);
     let app = (if sj \<noteq> [] then app\<lparr>sd_subJsonUrl := sj\<rparr> else app);
     let app = (if sc \<noteq> [] then app\<lparr>sd_subClashUrl := sc\<rparr> else app);
     let p = p\<lparr>sp_lang := lang, sp_language := lp, sp_app := app\<rparr>;
     let p = drawQR drawable ''qrcode'' (sd_subUrl app) p;
     let p = drawQR_both drawable present p;
     Some (p\<lparr>sp_onResize := Some (sp_next p), sp_listening := sp_listening p @ [sp_next p], sp_next := Suc (sp_next p)\<rparr>) }"

definition sub_resized :: "int \<Rightarrow> sub_page \<Rightarrow> sub_page" where
  "sub_resized innerWidth p = (if sp_listening p = [] then p else p\<lparr>sp_viewportWidth := innerWidth\<rparr>)"

definition sub_beforeDestroy :: "sub_page \<Rightarrow> sub_page" where
  "sub_beforeDestroy p = (case sp_onResize p of
       None \<Rightarrow> p
     | Some h \<Rightarrow> p\<lparr>sp_listening := removeAll h (sp_listening p)\<rparr>)"

definition sub_isMobile :: "sub_page \<Rightarrow> bool" where
  "sub_isMobile p \<longleftrightarrow> sp_viewportWidth p < 576"

definition copy_message :: "bool \<Rightarrow> string \<times> string" where
  "copy_message ok = (if ok then ''success'' else ''error'', if ok then ''Copied'' else ''Copy failed'')"

section \<open>Links are shown under their remark\<close>

lemma str_index_first: "c \<notin> set s \<Longrightarrow> str_index c (s @ c # t) = Some (length s)"
  by (induction s) auto

lemma fragment_name_of:
  assumes "CHR ''#'' \<notin> set s"
  shows "str_index (CHR ''#'') (s @ CHR ''#'' # encodeURIComponent remark) = Some (length s)"
    "fragment_name (s @ CHR ''#'' # encodeURIComponent remark) (length s) = Some (JStr remark)"
  using str_index_first [OF assms] by (simp_all add: fragment_name_def decode_encode_component)

lemma linkName_fragment:
  assumes "scheme \<in> {''vless://'', ''trojan://'', ''ss://''}" "CHR ''#'' \<notin> set s"
  shows "linkName env (scheme @ s @ CHR ''#'' # encodeURIComponent remark) idx = JStr remark"
proof -
  have h: "CHR ''#'' \<notin> set (scheme @ s)" using assms by auto
  note f = fragment_name_of [OF h, unfolded append_assoc]
  have "link_label env (scheme @ s @ CHR ''#'' # encodeURIComponent remark) = Some (JStr remark)"
    using assms(1) f [of remark] by (auto simp: link_label_def)
  then show ?thesis by (simp add: linkName_def)
qed

lemma linkName_other:
  assumes "\<forall>scheme \<in> {''vmess://'', ''vless://'', ''trojan://'', ''ss://''}. \<not> starts_with link scheme"
  shows "linkName env link idx = JStr (''Link '' @ nat_str (idx + 1))"
  using assms by (simp add: linkName_def link_label_def)

section \<open>JSON text that was not decoded\<close>

text \<open>The page parses what \<open>atob\<close> answers, in which every byte is a character. It is the JSON text of
  the value whose strings have become their bytes.\<close>

fun utf8_value :: "jsval \<Rightarrow> jsval"
  and utf8_items :: "jsval list \<Rightarrow> jsval list"
  and utf8_props :: "props \<Rightarrow> props" where
  "utf8_value (JStr s) = JStr (utf8 s)"
| "utf8_value (JArr xs) = JArr (utf8_items xs)"
| "utf8_value (JObj ps) = JObj (utf8_props ps)"
| "utf8_value v = v"
| "utf8_items [] = []"
| "utf8_items (x # xs) = utf8_value x # utf8_items xs"
| "utf8_props [] = []"
| "utf8_props ((k, v) # ps) = (utf8 k, utf8_value v) # utf8_props ps"

lemma utf8_nil [simp]: "utf8 [] = []"
  by (simp add: utf8_def)

lemma utf8_append: "utf8 (s @ t) = utf8 s @ utf8 t"
  by (simp add: utf8_def)

lemma utf8_cons: "utf8 (c # s) = utf8 [c] @ utf8 s"
  using utf8_append [of "[c]" s] by simp

lemma utf8_inj: "utf8 s = utf8 t \<Longrightarrow> s = t"
  by (metis option.inject utf8_chars_utf8)

lemma json_escape_ascii: "(of_char c :: nat) < 128 \<Longrightarrow> \<forall>d \<in> set (json_escape c). (of_char d :: nat) < 128"
proof -
  have "\<forall>n < 16. (of_char (hex_digit n) :: nat) < 128" by (intro allI impI, erule below_all [rotated]) code_simp
  then have "(of_char (hex_digit (n div 16)) :: nat) < 128 \<and> (of_char (hex_digit (n mod 16)) :: nat) < 128"
    if "n < 32" for n :: nat using that by simp
  moreover assume "(of_char c :: nat) < 128"
  ultimately show ?thesis by (auto simp: json_escape_def Let_def hex4_def)
qed

lemma utf8_escape: "utf8 (json_escape c) = concat (map json_escape (utf8 [c]))"
proof (cases "(of_char c :: nat) < 128")
  case True
  then have "utf8 [c] = [c]" "utf8 (json_escape c) = json_escape c"
    using json_escape_ascii [OF True] by (simp_all add: utf8_ascii)
  then show ?thesis by simp
next
  case False
  define n :: nat where "n = of_char c"
  have n: "128 \<le> n" "n < 256" using False by (simp_all add: n_def)
  have plain: "json_escape (char_of m) = [char_of m]" if "128 \<le> m" "m < 256" for m :: nat
    using that by (simp add: json_escape_def Let_def of_char_of)
  have c: "c = char_of n" by (simp add: n_def)
  have u: "utf8 [c] = [char_of (192 + n div 64), char_of (128 + n mod 64)]"
    using n by (simp add: utf8_def Let_def flip: n_def)
  have "json_escape c = [c]" unfolding c by (rule plain [OF n])
  moreover have "json_escape (char_of (192 + n div 64)) = [char_of (192 + n div 64)]"
    "json_escape (char_of (128 + n mod 64)) = [char_of (128 + n mod 64)]" using n by (auto intro!: plain)
  ultimately show ?thesis by (simp add: u)
qed

lemma utf8_escapes: "utf8 (concat (map json_escape s)) = concat (map json_escape (utf8 s))"
proof (induction s)
  case (Cons c s)
  then show ?case by (simp add: utf8_append utf8_escape utf8_cons [of c s])
qed simp

lemma ascii_texts: "utf8 ''null'' = ''null''" "utf8 ''true'' = ''true''" "utf8 ''false'' = ''false''"
  "utf8 ''['' = ''[''" "utf8 '']'' = '']''" "utf8 ''{'' = ''{''" "utf8 ''}'' = ''}''" "utf8 '','' = '',''"
  "utf8 '':'' = '':''" "utf8 '': '' = '': ''" "utf8 ''  '' = ''  ''" "utf8 ''{}'' = ''{}''"
  "utf8 [char_of (34 :: nat)] = [char_of (34 :: nat)]" "utf8 [char_of (10 :: nat)] = [char_of (10 :: nat)]"
  by (rule utf8_ascii; simp)+

lemma utf8_quote: "utf8 (json_quote s) = json_quote (utf8 s)"
  unfolding json_quote_def Let_def utf8_append utf8_escapes ascii_texts ..

lemma utf8_int: "utf8 (int_str n) = int_str n"
proof (rule utf8_ascii)
  have "(of_char d :: nat) < 128" if "is_digit d" for d using that by (simp add: is_digit_def)
  then show "\<forall>c \<in> set (int_str n). (of_char c :: nat) < 128"
    using nat_str_digits by (auto simp: int_str_def)
qed

lemma utf8_join: "utf8 (js_join sep xs) = js_join (utf8 sep) (map utf8 xs)"
  by (induction sep xs rule: js_join.induct) (simp_all add: utf8_append)

lemma utf8_value_undef [simp]: "utf8_value v = JUndef \<longleftrightarrow> v = JUndef"
  by (cases v) simp_all

lemma utf8_stringify_all:
  "utf8 (stringify v) = stringify (utf8_value v)"
  "map utf8 (stringify_items xs) = stringify_items (utf8_items xs)"
  "map utf8 (stringify_props ps) = stringify_props (utf8_props ps)"
  by (induction v and xs and ps rule: stringify_stringify_items_stringify_props.induct)
    (simp_all add: utf8_append utf8_quote utf8_int utf8_join ascii_texts del: append_Cons append_Nil)

lemma utf8_stringify_flat: "utf8 (stringify_flat ps) = stringify_flat (utf8_props ps)"
proof -
  let ?entry = "\<lambda>(k, v). ''  '' @ json_quote k @ '': '' @ stringify v"
  have e: "map utf8 (map ?entry (filter (\<lambda>(k, v). v \<noteq> JUndef) ps))
      = map ?entry (filter (\<lambda>(k, v). v \<noteq> JUndef) (utf8_props ps))"
  proof (induction ps)
    case (Cons p ps)
    then show ?case
      by (cases p) (simp add: utf8_append utf8_quote utf8_stringify_all(1) ascii_texts del: append_Cons append_Nil)
  qed simp
  have framed: "utf8 (if xs = [] then ''{}'' else ''{'' @ [char_of (10 :: nat)] @ js_join ('','' @ [char_of (10 :: nat)]) xs
        @ [char_of (10 :: nat)] @ ''}'')
      = (if map utf8 xs = [] then ''{}'' else ''{'' @ [char_of (10 :: nat)] @ js_join ('','' @ [char_of (10 :: nat)]) (map utf8 xs)
        @ [char_of (10 :: nat)] @ ''}'')" for xs
    by (cases xs) (simp_all add: utf8_append utf8_join ascii_texts del: append_Cons append_Nil)
  show ?thesis unfolding stringify_flat_def Let_def framed e ..
qed

lemma utf8_props_keys: "map fst (utf8_props ps) = map utf8 (map fst ps)"
  by (induction ps rule: utf8_value_utf8_items_utf8_props.induct(3) [of "\<lambda>_. True" "\<lambda>_. True"]) simp_all

lemma oget_utf8: "oget (utf8_props ps) (utf8 k) = utf8_value (oget ps k)"
proof (induction ps)
  case (Cons p ps)
  then show ?case by (cases p) (auto dest: utf8_inj)
qed simp

lemma vmess_link_label:
  fixes remark :: string and id :: jsval
  assumes gen: "genVmessLink br this address port forceTls remark id security = Some text"
    and obj: "vmess_obj this (dflt (JStr []) address) (dflt (linkPort this) port) forceTls remark id security = Some obj"
    and vmess: "ib_protocol this = JStr ''vmess''" "remark \<noteq> []"
    and base64: "br_btoa br = js_btoa" "le_atob env = js_atob_text"
    and parse: "le_parse env (stringify_flat (utf8_props obj)) = Some (wire (JObj (utf8_props obj)))"
  shows "linkName env text idx = JStr (utf8 remark)"
proof -
  obtain ns where ns: "vmess_network (ib_stream this) [(''v'', JStr ''2''), (''ps'', JStr remark),
      (''add'', dflt (JStr []) address), (''port'', dflt (linkPort this) port), (''id'', id), (''scy'', security),
      (''net'', ss_network (ib_stream this)), (''tls'', chosen_security forceTls this)] = Some ns"
    and rest: "keeps_others [''fm'', ''sni'', ''fp'', ''alpn''] ns obj"
    using vmess_obj_stages [OF obj] by blast
  note net = vmess_network_keeps [OF ns]
  have "distinct (map fst obj)"
    using keeps_ordered [OF net] keeps_ordered [OF rest] vmess_base_ordered obj_ordered_distinct by blast
  then have d: "distinct (map fst (utf8_props obj))"
    by (simp only: utf8_props_keys distinct_map inj_on_def) (blast dest: utf8_inj)
  have "oget obj ''ps'' = oget ns ''ps''" by (rule keeps_oget [OF rest]) simp
  moreover have "oget ns ''ps'' = JStr remark" by (subst keeps_oget [OF net]) simp_all
  moreover have "utf8 ''ps'' = ''ps''" by (rule utf8_ascii) simp
  ultimately have ps: "oget (utf8_props obj) ''ps'' = JStr (utf8 remark)" using oget_utf8 [of obj "''ps''"] by simp
  have given: "utf8 remark \<noteq> []" using vmess(2) utf8_inj [of remark "[]"] by auto
  have "text = ''vmess://'' @ js_btoa (utf8 (stringify_flat obj))"
    using gen obj vmess base64 by (simp add: genVmessLink_def Base64_encode_def)
  then have "link_label env text = vmess_name env text" "drop 8 text = js_btoa (utf8 (stringify_flat obj))"
    by (simp_all add: link_label_def starts_with_append)
  moreover have "vmess_name env text = Some (JStr (utf8 remark))"
    using parse given calculation(2)
    by (simp add: vmess_name_def base64 atob_text_btoa utf8_stringify_flat oget_wire_props [OF d] ps)
  ultimately show ?thesis by (simp add: linkName_def)
qed

text \<open>The bytes of a text are its characters exactly if it is plain ASCII.\<close>

lemma utf8_length: "length s \<le> length (utf8 s)"
  by (induction s) (auto simp: utf8_def Let_def)

lemma utf8_same: "utf8 s = s \<longleftrightarrow> (\<forall>c \<in> set s. (of_char c :: nat) < 128)"
proof (induction s)
  case (Cons c s)
  show ?case
  proof (cases "(of_char c :: nat) < 128")
    case True
    then have "utf8 [c] = [c]" by (simp add: utf8_ascii)
    with Cons True show ?thesis by (simp add: utf8_cons [of c s])
  next
    case False
    then have "length (utf8 [c]) = 2" by (simp add: utf8_def Let_def)
    then have "length (utf8 (c # s)) \<noteq> length (c # s)" using utf8_length [of s] by (simp add: utf8_cons [of c s])
    with False show ?thesis by auto
  qed
qed simp

end
