(* ===== verification/Options.thy ===== *)
theory Options
  imports Inbound Outbound
begin

text \<open>
  The tables of options of the two forms (the constants at the head of
  \<open>web/assets/js/model/inbound.js\<close> and \<open>web/assets/js/model/outbound.js\<close>): objects from a name in the
  code to the text of the configuration, in their order, or plain lists. The tables of the outbound
  form have the prefix \<open>Out\<close>.
\<close>

section \<open>Tables\<close>

type_synonym options = "(string \<times> string) list"

definition SSMethods :: options where
  "SSMethods =
    [(''CHACHA20_POLY1305'', ''chacha20-poly1305''),
     (''CHACHA20_IETF_POLY1305'', ''chacha20-ietf-poly1305''),
     (''XCHACHA20_IETF_POLY1305'', ''xchacha20-ietf-poly1305''),
     (''BLAKE3_AES_128_GCM'', ''2022-blake3-aes-128-gcm''),
     (''BLAKE3_AES_256_GCM'', ''2022-blake3-aes-256-gcm''),
     (''BLAKE3_CHACHA20_POLY1305'', ''2022-blake3-chacha20-poly1305'')]"

definition TLS_FLOW_CONTROL :: options where
  "TLS_FLOW_CONTROL =
    [(''VISION'', ''xtls-rprx-vision''), (''VISION_UDP443'', ''xtls-rprx-vision-udp443'')]"

definition TLS_VERSION_OPTION :: options where
  "TLS_VERSION_OPTION =
    [(''TLS10'', ''1.0''), (''TLS11'', ''1.1''), (''TLS12'', ''1.2''), (''TLS13'', ''1.3'')]"

definition TLS_CIPHER_OPTION :: options where
  "TLS_CIPHER_OPTION =
    [(''AES_128_GCM'', ''TLS_AES_128_GCM_SHA256''), (''AES_256_GCM'', ''TLS_AES_256_GCM_SHA384''),
     (''CHACHA20_POLY1305'', ''TLS_CHACHA20_POLY1305_SHA256''),
     (''ECDHE_ECDSA_AES_128_CBC'', ''TLS_ECDHE_ECDSA_WITH_AES_128_CBC_SHA''),
     (''ECDHE_ECDSA_AES_256_CBC'', ''TLS_ECDHE_ECDSA_WITH_AES_256_CBC_SHA''),
     (''ECDHE_RSA_AES_128_CBC'', ''TLS_ECDHE_RSA_WITH_AES_128_CBC_SHA''),
     (''ECDHE_RSA_AES_256_CBC'', ''TLS_ECDHE_RSA_WITH_AES_256_CBC_SHA''),
     (''ECDHE_ECDSA_AES_128_GCM'', ''TLS_ECDHE_ECDSA_WITH_AES_128_GCM_SHA256''),
     (''ECDHE_ECDSA_AES_256_GCM'', ''TLS_ECDHE_ECDSA_WITH_AES_256_GCM_SHA384''),
     (''ECDHE_RSA_AES_128_GCM'', ''TLS_ECDHE_RSA_WITH_AES_128_GCM_SHA256''),
     (''ECDHE_RSA_AES_256_GCM'', ''TLS_ECDHE_RSA_WITH_AES_256_GCM_SHA384''),
     (''ECDHE_ECDSA_CHACHA20_POLY1305'', ''TLS_ECDHE_ECDSA_WITH_CHACHA20_POLY1305_SHA256''),
     (''ECDHE_RSA_CHACHA20_POLY1305'', ''TLS_ECDHE_RSA_WITH_CHACHA20_POLY1305_SHA256'')]"

definition UTLS_FINGERPRINT :: options where
  "UTLS_FINGERPRINT =
    [(''UTLS_CHROME'', ''chrome''), (''UTLS_FIREFOX'', ''firefox''), (''UTLS_SAFARI'', ''safari''),
     (''UTLS_IOS'', ''ios''), (''UTLS_android'', ''android''), (''UTLS_EDGE'', ''edge''),
     (''UTLS_360'', ''360''), (''UTLS_QQ'', ''qq''), (''UTLS_RANDOM'', ''random''),
     (''UTLS_RANDOMIZED'', ''randomized''), (''UTLS_RONDOMIZEDNOALPN'', ''randomizednoalpn''),
     (''UTLS_UNSAFE'', ''unsafe'')]"

definition ALPN_OPTION :: options where
  "ALPN_OPTION =
    [(''H3'', ''h3''), (''H2'', ''h2''), (''HTTP1'', ''http/1.1'')]"

definition SNIFFING_OPTION :: options where
  "SNIFFING_OPTION =
    [(''HTTP'', ''http''), (''TLS'', ''tls''), (''QUIC'', ''quic''), (''FAKEDNS'', ''fakedns'')]"

definition USAGE_OPTION :: options where
  "USAGE_OPTION =
    [(''ENCIPHERMENT'', ''encipherment''), (''VERIFY'', ''verify''), (''ISSUE'', ''issue'')]"

definition DOMAIN_STRATEGY_OPTION :: options where
  "DOMAIN_STRATEGY_OPTION =
    [(''AS_IS'', ''AsIs''), (''USE_IP'', ''UseIP''), (''USE_IPV6V4'', ''UseIPv6v4''),
     (''USE_IPV6'', ''UseIPv6''), (''USE_IPV4V6'', ''UseIPv4v6''), (''USE_IPV4'', ''UseIPv4''),
     (''FORCE_IP'', ''ForceIP''), (''FORCE_IPV6V4'', ''ForceIPv6v4''),
     (''FORCE_IPV6'', ''ForceIPv6''), (''FORCE_IPV4V6'', ''ForceIPv4v6''),
     (''FORCE_IPV4'', ''ForceIPv4'')]"

definition TCP_CONGESTION_OPTION :: options where
  "TCP_CONGESTION_OPTION =
    [(''BBR'', ''bbr''), (''CUBIC'', ''cubic''), (''RENO'', ''reno'')]"

definition USERS_SECURITY :: options where
  "USERS_SECURITY =
    [(''AES_128_GCM'', ''aes-128-gcm''), (''CHACHA20_POLY1305'', ''chacha20-poly1305''),
     (''AUTO'', ''auto''), (''NONE'', ''none''), (''ZERO'', ''zero'')]"

definition MODE_OPTION :: options where
  "MODE_OPTION =
    [(''AUTO'', ''auto''), (''PACKET_UP'', ''packet-up''), (''STREAM_UP'', ''stream-up''),
     (''STREAM_ONE'', ''stream-one'')]"

definition OutSSMethods :: options where
  "OutSSMethods =
    [(''AES_256_GCM'', ''aes-256-gcm''), (''AES_128_GCM'', ''aes-128-gcm''),
     (''CHACHA20_POLY1305'', ''chacha20-poly1305''),
     (''CHACHA20_IETF_POLY1305'', ''chacha20-ietf-poly1305''),
     (''XCHACHA20_POLY1305'', ''xchacha20-poly1305''),
     (''XCHACHA20_IETF_POLY1305'', ''xchacha20-ietf-poly1305''),
     (''BLAKE3_AES_128_GCM'', ''2022-blake3-aes-128-gcm''),
     (''BLAKE3_AES_256_GCM'', ''2022-blake3-aes-256-gcm''),
     (''BLAKE3_CHACHA20_POLY1305'', ''2022-blake3-chacha20-poly1305'')]"

definition OutTLS_FLOW_CONTROL :: options where
  "OutTLS_FLOW_CONTROL =
    [(''VISION'', ''xtls-rprx-vision''), (''VISION_UDP443'', ''xtls-rprx-vision-udp443'')]"

definition OutUTLS_FINGERPRINT :: options where
  "OutUTLS_FINGERPRINT =
    [(''UTLS_CHROME'', ''chrome''), (''UTLS_FIREFOX'', ''firefox''), (''UTLS_SAFARI'', ''safari''),
     (''UTLS_IOS'', ''ios''), (''UTLS_android'', ''android''), (''UTLS_EDGE'', ''edge''),
     (''UTLS_360'', ''360''), (''UTLS_QQ'', ''qq''), (''UTLS_RANDOM'', ''random''),
     (''UTLS_RANDOMIZED'', ''randomized''), (''UTLS_RONDOMIZEDNOALPN'', ''randomizednoalpn''),
     (''UTLS_UNSAFE'', ''unsafe'')]"

definition OutALPN_OPTION :: options where
  "OutALPN_OPTION =
    [(''H3'', ''h3''), (''H2'', ''h2''), (''HTTP1'', ''http/1.1'')]"

definition OutboundDomainStrategies :: "string list" where
  "OutboundDomainStrategies =
    [''AsIs'', ''UseIP'', ''UseIPv4'', ''UseIPv6'', ''UseIPv6v4'', ''UseIPv4v6'', ''ForceIP'',
     ''ForceIPv6v4'', ''ForceIPv6'', ''ForceIPv4v6'', ''ForceIPv4'']"

definition OutUSERS_SECURITY :: options where
  "OutUSERS_SECURITY =
    [(''AES_128_GCM'', ''aes-128-gcm''), (''CHACHA20_POLY1305'', ''chacha20-poly1305''),
     (''AUTO'', ''auto''), (''NONE'', ''none''), (''ZERO'', ''zero'')]"

definition OutMODE_OPTION :: options where
  "OutMODE_OPTION =
    [(''AUTO'', ''auto''), (''PACKET_UP'', ''packet-up''), (''STREAM_UP'', ''stream-up''),
     (''STREAM_ONE'', ''stream-one'')]"

definition OutAddress_Port_Strategy :: options where
  "OutAddress_Port_Strategy =
    [(''NONE'', ''none''), (''SrvPortOnly'', ''srvportonly''),
     (''SrvAddressOnly'', ''srvaddressonly''), (''SrvPortAndAddress'', ''srvportandaddress''),
     (''TxtPortOnly'', ''txtportonly''), (''TxtAddressOnly'', ''txtaddressonly''),
     (''TxtPortAndAddress'', ''txtportandaddress'')]"

section \<open>Defaults are options\<close>

definition offered :: "options \<Rightarrow> jsval \<Rightarrow> bool" where
  "offered table v \<longleftrightarrow> v \<in> JStr ` snd ` set table"

lemma offered_find: "offered table (JStr s) \<longleftrightarrow> list_ex (\<lambda>e. snd e = s) table"
  by (auto simp: offered_def list_ex_iff image_iff)

text \<open>What a constructor takes when it is given nothing can be found in the select box of the form.\<close>

lemma security_defaults_offered:
  "offered TLS_VERSION_OPTION (tls_minVersion (TlsStreamSettings_new JUndef JUndef JUndef JUndef JUndef JUndef JUndef None JUndef JUndef None))"
  "offered TLS_VERSION_OPTION (tls_maxVersion (TlsStreamSettings_new JUndef JUndef JUndef JUndef JUndef JUndef JUndef None JUndef JUndef None))"
  "offered USAGE_OPTION (cert_usage (TlsCert_new JUndef JUndef JUndef JUndef JUndef JUndef JUndef JUndef))"
  "offered UTLS_FINGERPRINT (tset_fingerprint (TlsSettings_new JUndef JUndef))"
  "offered UTLS_FINGERPRINT (rset_fingerprint (RealitySettings_new JUndef JUndef JUndef JUndef JUndef))"
  by (simp_all add: TlsStreamSettings_new_def TlsCert_new_def TlsSettings_new_def RealitySettings_new_def dflt_def
      offered_find TLS_VERSION_OPTION_def USAGE_OPTION_def UTLS_FINGERPRINT_def)

lemma protocol_defaults_offered:
  "offered USERS_SECURITY (vmess_security (VMESS_new r JUndef JUndef args))"
  "offered SSMethods (sss_method (ShadowsocksSettings_new rs JUndef JUndef JUndef None JUndef))"
  by (simp_all add: VMESS_new_def VMESS.fields_def ClientBase.extend_def ShadowsocksSettings_new_def dflt_def
      offered_find USERS_SECURITY_def SSMethods_def)

text \<open>The outbound form has every option an inbound can be given, so an imported link finds its own.\<close>

lemma outbound_has_inbound_options:
  "OutTLS_FLOW_CONTROL = TLS_FLOW_CONTROL" "OutUTLS_FINGERPRINT = UTLS_FINGERPRINT" "OutALPN_OPTION = ALPN_OPTION"
  "OutUSERS_SECURITY = USERS_SECURITY" "OutMODE_OPTION = MODE_OPTION"
  by (simp_all only: OutTLS_FLOW_CONTROL_def TLS_FLOW_CONTROL_def OutUTLS_FINGERPRINT_def UTLS_FINGERPRINT_def
      OutALPN_OPTION_def ALPN_OPTION_def OutUSERS_SECURITY_def USERS_SECURITY_def OutMODE_OPTION_def MODE_OPTION_def)

lemma outbound_has_inbound_methods:
  "list_all (\<lambda>m. List.member (map snd OutSSMethods) (snd m)) SSMethods"
  "list_all (\<lambda>m. List.member OutboundDomainStrategies (snd m)) DOMAIN_STRATEGY_OPTION"
  by code_simp+

end
