(* ===== verification/Requests.thy ===== *)
theory Requests
  imports Browser_Util Chain_Registry Monitoring
begin

text \<open>
  How a request of the pages reaches the network: the calls \<open>HttpUtil\<close> and \<open>MonApi\<close> make, and the two
  interceptors \<open>web/assets/js/axios-init.js\<close> installs. \<open>axios\<close> itself and \<open>Qs.stringify\<close> are libraries:
  what the first makes of the headers it is given is the argument \<open>merge\<close>, the second is \<open>qs\<close>.
\<close>

section \<open>Calls\<close>

datatype body = FormData | Value jsval

record axios_call =
  ac_method :: string
  ac_url :: string
  ac_data :: body
  ac_options :: props

text \<open>\<open>{...base, ...options}\<close>.\<close>

definition spread :: "props \<Rightarrow> props \<Rightarrow> props" where
  "spread base options = fold (\<lambda>(k, v) obj. obj_put obj k v) options base"

definition http_get :: "string \<Rightarrow> jsval \<Rightarrow> props \<Rightarrow> axios_call" where
  "http_get url params options =
     \<lparr>ac_method = ''get'', ac_url = url, ac_data = Value JUndef, ac_options = spread [(''params'', params)] options\<rparr>"

definition http_post :: "string \<Rightarrow> body \<Rightarrow> props \<Rightarrow> axios_call" where
  "http_post url data options = \<lparr>ac_method = ''post'', ac_url = url, ac_data = data, ac_options = options\<rparr>"

definition http_postJson :: "string \<Rightarrow> body \<Rightarrow> props \<Rightarrow> axios_call" where
  "http_postJson url data options =
     http_post url data (spread [(''headers'', JObj [(''Content-Type'', JStr ''application/json'')])] options)"

fun send_chain :: "request \<Rightarrow> axios_call" where
  "send_chain (Get url) = http_get url JUndef []"
| "send_chain (PostJson url data) = http_postJson url (Value data) []"

definition MonApi_request :: "string \<Rightarrow> string \<Rightarrow> jsval \<Rightarrow> axios_call" where
  "MonApi_request method url data =
     \<lparr>ac_method = method, ac_url = url, ac_data = Value data, ac_options = []\<rparr>"

definition MonApi_call :: "string \<Rightarrow> string \<Rightarrow> jsval \<Rightarrow> axios_call" where
  "MonApi_call method path data = MonApi_request method (''/panel/api/monitoring/'' @ path) data"

definition mon_targets :: axios_call where
  "mon_targets = MonApi_call ''get'' ''targets'' JUndef"

definition mon_events :: "jsval \<Rightarrow> axios_call" where
  "mon_events limit =
     MonApi_call ''get'' (''events?limit='' @ encodeURIComponent (js_str (js_or limit (JNum 50)))) JUndef"

definition mon_stats :: "jsval \<Rightarrow> jsval \<Rightarrow> jsval \<Rightarrow> axios_call" where
  "mon_stats inboundKind inboundId period =
     MonApi_call ''get'' (''stats?inboundKind='' @ encodeURIComponent (js_str inboundKind) @ ''&inboundId=''
       @ encodeURIComponent (js_str inboundId) @ ''&range='' @ encodeURIComponent (js_str period)) JUndef"

definition mon_probe :: axios_call where
  "mon_probe = MonApi_call ''get'' ''probe'' JUndef"

definition mon_removeProbe :: axios_call where
  "mon_removeProbe = MonApi_call ''delete'' ''probe'' JUndef"

definition mon_resetToken :: axios_call where
  "mon_resetToken = MonApi_call ''post'' ''token/reset'' JUndef"

definition mon_hopsHealth :: axios_call where
  "mon_hopsHealth = MonApi_request ''get'' ''/panel/api/chain/hops/health'' JUndef"

section \<open>The interceptors\<close>

definition default_post_headers :: props where
  "default_post_headers = [(''Content-Type'', JStr ''application/x-www-form-urlencoded; charset=UTF-8'')]"

definition default_common_headers :: props where
  "default_common_headers = [(''X-Requested-With'', JStr ''XMLHttpRequest'')]"

record axios_config =
  ax_call :: axios_call
  ax_headers :: props
  ax_data :: body

definition given_headers :: "axios_call \<Rightarrow> props" where
  "given_headers c = (case oget (ac_options c) ''headers'' of JObj hs \<Rightarrow> hs | _ \<Rightarrow> [])"

definition axios_config_of :: "(string \<Rightarrow> props \<Rightarrow> props) \<Rightarrow> axios_call \<Rightarrow> axios_config" where
  "axios_config_of merge c =
     \<lparr>ax_call = c, ax_headers = merge (ac_method c) (given_headers c), ax_data = ac_data c\<rparr>"

text \<open>\<open>contentType.indexOf('application/json') !== -1\<close>; a value with no \<open>indexOf\<close> throws.\<close>

definition says_json :: "jsval \<Rightarrow> bool option" where
  "says_json contentType =
     (if \<not> truthy contentType then Some False
      else (case contentType of
          JStr s \<Rightarrow> Some (str_includes s ''application/json'')
        | JArr xs \<Rightarrow> Some (JStr ''application/json'' \<in> set xs)
        | _ \<Rightarrow> None))"

definition request_interceptor :: "(jsval \<Rightarrow> string) \<Rightarrow> axios_config \<Rightarrow> axios_config option" where
  "request_interceptor qs config =
     (case ax_data config of
        FormData \<Rightarrow>
          Some (config\<lparr>ax_headers := obj_put (ax_headers config) ''Content-Type'' (JStr ''multipart/form-data'')\<rparr>)
      | Value v \<Rightarrow> do {
          json \<leftarrow> says_json (oget (ax_headers config) ''Content-Type'');
          Some (if json then
              (case v of
                 JStr s \<Rightarrow> config
               | JUndef \<Rightarrow> config
               | _ \<Rightarrow> config\<lparr>ax_data := Value (JStr (stringify v))\<rparr>)
            else config\<lparr>ax_data := Value (JStr (qs v))\<rparr>) })"

text \<open>A response with status 401 reloads the page, and the caller gets \<open>undefined\<close> as its response.\<close>

definition response_interceptor :: "outcome \<Rightarrow> outcome \<times> bool" where
  "response_interceptor out =
     (case out of
        Resolves response \<Rightarrow> (Resolves response, False)
      | Rejects error \<Rightarrow>
          if truthy (mget error ''response'') \<and> mget (mget error ''response'') ''status'' = JNum 401
          then (Resolves JUndef, True) else (Rejects error, False))"

text \<open>The whole of \<open>HttpUtil.get\<close>, \<open>post\<close> and \<open>postJson\<close>, where \<open>axios\<close> answers a call.\<close>

definition HttpUtil_get :: "(axios_call \<Rightarrow> outcome) \<Rightarrow> string \<Rightarrow> jsval \<Rightarrow> props \<Rightarrow> reply \<times> toast list" where
  "HttpUtil_get axios url params options = http_request (axios (http_get url params options))"

definition HttpUtil_post :: "(axios_call \<Rightarrow> outcome) \<Rightarrow> string \<Rightarrow> body \<Rightarrow> props \<Rightarrow> reply \<times> toast list" where
  "HttpUtil_post axios url data options = http_request (axios (http_post url data options))"

definition HttpUtil_postJson :: "(axios_call \<Rightarrow> outcome) \<Rightarrow> string \<Rightarrow> body \<Rightarrow> props \<Rightarrow> reply \<times> toast list" where
  "HttpUtil_postJson axios url data options = http_request (axios (http_postJson url data options))"

section \<open>What is sent\<close>

text \<open>What the documentation of \<open>axios\<close> says of headers: those of a request override the defaults, and
  the defaults are those that were set, or absent.\<close>

definition merges_headers :: "(string \<Rightarrow> props \<Rightarrow> props) \<Rightarrow> bool" where
  "merges_headers merge \<longleftrightarrow> (\<forall>method hs.
     (\<forall>v. map_of hs ''Content-Type'' = Some v \<longrightarrow> oget (merge method hs) ''Content-Type'' = v)
     \<and> (map_of hs ''Content-Type'' = None \<longrightarrow>
        oget (merge method hs) ''Content-Type'' \<in> {JUndef, oget default_post_headers ''Content-Type''}))"

lemma form_is_not_json: "\<not> str_includes ''application/x-www-form-urlencoded; charset=UTF-8'' ''application/json''"
  by code_simp

lemma spread_nil [simp]: "spread base [] = base"
  by (simp add: spread_def)

lemma post_form_encoded:
  assumes "merges_headers merge" "oget options ''headers'' = JUndef"
  shows "map_option ax_data (request_interceptor qs (axios_config_of merge (http_post url (Value v) options)))
    = Some (Value (JStr (qs v)))"
proof -
  have "given_headers (http_post url (Value v) options) = []"
    using assms(2) by (simp add: given_headers_def http_post_def)
  then have "oget (merge ''post'' (given_headers (http_post url (Value v) options))) ''Content-Type''
      \<in> {JUndef, oget default_post_headers ''Content-Type''}"
    using assms(1) by (simp add: merges_headers_def)
  then have "says_json (oget (merge ''post'' (given_headers (http_post url (Value v) options))) ''Content-Type'') = Some False"
    using form_is_not_json by (auto simp: says_json_def default_post_headers_def)
  then show ?thesis by (simp add: request_interceptor_def axios_config_of_def) (simp add: http_post_def)
qed

lemma postJson_json:
  assumes "merges_headers merge" "\<forall>s. v \<noteq> JStr s" "v \<noteq> JUndef"
  shows "map_option ax_data (request_interceptor qs (axios_config_of merge (http_postJson url (Value v) [])))
    = Some (Value (JStr (stringify v)))"
proof -
  have "given_headers (http_postJson url (Value v) []) = [(''Content-Type'', JStr ''application/json'')]"
    by (simp add: given_headers_def http_postJson_def http_post_def)
  then have "oget (merge ''post'' (given_headers (http_postJson url (Value v) []))) ''Content-Type''
      = JStr ''application/json''"
    using assms(1) by (simp add: merges_headers_def)
  moreover have "str_includes ''application/json'' ''application/json''" by simp
  ultimately have "says_json (oget (merge ''post'' (given_headers (http_postJson url (Value v) []))) ''Content-Type'')
      = Some True" by (simp add: says_json_def)
  moreover have "ac_method (http_postJson url (Value v) []) = ''post''" "ac_data (http_postJson url (Value v) []) = Value v"
    by (simp_all add: http_postJson_def http_post_def)
  ultimately show ?thesis
    using assms(2,3) by (simp add: request_interceptor_def axios_config_of_def split: jsval.split)
qed

text \<open>An answer 401 shows a toast of its own beside the reload.\<close>

lemma expired_session:
  assumes "mget (mget e ''response'') ''status'' = JNum 401"
  shows "response_interceptor (Rejects e) = (Resolves JUndef, True)"
    "http_request (fst (response_interceptor (Rejects e)))
      = (Message (Msg_new (JBool False) (JStr ''No response data'') JUndef), [Error (JStr ''No response data'')])"
proof -
  have "truthy (mget e ''response'')" using assms by (cases "mget e ''response''") (auto simp: mget_def)
  then show "response_interceptor (Rejects e) = (Resolves JUndef, True)"
    using assms by (simp add: response_interceptor_def)
  then show "http_request (fst (response_interceptor (Rejects e)))
      = (Message (Msg_new (JBool False) (JStr ''No response data'') JUndef), [Error (JStr ''No response data'')])"
    by (simp add: http_request_def respToMsg_def handleMsg_def Msg_new_def dflt_def Let_def)
qed

end
