(* ===== verification/Page_Util.thy ===== *)
theory Page_Util
  imports Formatters Cookies
begin

text \<open>
  The helpers of \<open>web/assets/js/util/index.js\<close> that act on the page: \<open>ClipboardManager\<close>,
  \<open>MediaQueryMixin\<close>, \<open>FileManager\<close> and \<open>IntlUtil\<close>. Elements are numbered and carry their text;
  their style is not modelled. \<open>Intl\<close> and the results of the document's calls are arguments.
\<close>

section \<open>Clipboard\<close>

text \<open>\<open>execCommand\<close> may refuse, which it answers with \<open>False\<close>, or throw.\<close>

datatype copying = Copy_throws | Copy_answers bool

record doc =
  doc_body :: "(nat \<times> string) list"
  doc_next :: nat
  doc_clipboard :: string

definition appendChild :: "string \<Rightarrow> doc \<Rightarrow> nat \<times> doc" where
  "appendChild t d = (doc_next d, d\<lparr>doc_body := doc_body d @ [(doc_next d, t)], doc_next := Suc (doc_next d)\<rparr>)"

definition removeChild :: "nat \<Rightarrow> doc \<Rightarrow> doc" where
  "removeChild e d = d\<lparr>doc_body := filter (\<lambda>x. fst x \<noteq> e) (doc_body d)\<rparr>"

text \<open>What the promise resolves to, and the document. The answer of \<open>execCommand\<close> is not looked at.\<close>

definition copyText :: "copying \<Rightarrow> string \<Rightarrow> doc \<Rightarrow> bool \<times> doc" where
  "copyText exec content d =
     (let (textarea, d) = appendChild content d in
      case exec of
        Copy_throws \<Rightarrow> (False, d)
      | Copy_answers ok \<Rightarrow> (True, removeChild textarea (if ok then d\<lparr>doc_clipboard := content\<rparr> else d)))"

definition doc_ok :: "doc \<Rightarrow> bool" where
  "doc_ok d \<longleftrightarrow> (\<forall>e \<in> set (doc_body d). fst e < doc_next d)"

lemma copyText_ok: "doc_ok d \<Longrightarrow> doc_ok (snd (copyText exec content d))"
  by (auto simp: copyText_def appendChild_def removeChild_def doc_ok_def split: copying.split)

text \<open>A copy that went through leaves the page as it was and the text on the clipboard; a refused one
  reports success all the same, and a thrown one leaves its element behind.\<close>

lemma copyText_done:
  assumes "doc_ok d"
  shows "doc_body (snd (copyText (Copy_answers ok) content d)) = doc_body d"
    "doc_clipboard (snd (copyText (Copy_answers ok) content d)) = (if ok then content else doc_clipboard d)"
    "fst (copyText (Copy_answers ok) content d)"
proof -
  have "filter (\<lambda>x. fst x \<noteq> doc_next d) (doc_body d) = doc_body d"
    using assms by (auto simp: doc_ok_def filter_id_conv)
  then show "doc_body (snd (copyText (Copy_answers ok) content d)) = doc_body d"
    by (simp add: copyText_def appendChild_def removeChild_def)
qed (simp_all add: copyText_def appendChild_def removeChild_def)

lemma copyText_thrown:
  "length (doc_body (snd (copyText Copy_throws content d))) = Suc (length (doc_body d))"
  "\<not> fst (copyText Copy_throws content d)"
  by (simp_all add: copyText_def appendChild_def)

section \<open>Files\<close>

text \<open>The downloads the browser started, and the object URLs that are alive.\<close>

record download =
  dl_name :: string
  dl_type :: string
  dl_content :: string

record files =
  fl_downloads :: "download list"
  fl_urls :: "nat list"
  fl_next :: nat

text \<open>An argument that is absent is \<open>None\<close>.\<close>

definition downloadTextFile :: "string \<Rightarrow> string option \<Rightarrow> string option \<Rightarrow> files \<Rightarrow> files" where
  "downloadTextFile content filename type0 f =
     (let href = fl_next f;
          f = f\<lparr>fl_urls := fl_urls f @ [href], fl_next := Suc href\<rparr>;
          f = f\<lparr>fl_downloads := fl_downloads f @ [\<lparr>dl_name = (case filename of Some n \<Rightarrow> n | None \<Rightarrow> ''file.txt''),
            dl_type = (case type0 of Some t \<Rightarrow> t | None \<Rightarrow> ''text/plain''), dl_content = content\<rparr>]\<rparr>
      in f\<lparr>fl_urls := removeAll href (fl_urls f)\<rparr>)"

lemma download_keeps_urls:
  assumes "\<forall>u \<in> set (fl_urls f). u < fl_next f"
  shows "fl_urls (downloadTextFile content filename type0 f) = fl_urls f"
    "length (fl_downloads (downloadTextFile content filename type0 f)) = Suc (length (fl_downloads f))"
  using assms by (auto simp: downloadTextFile_def Let_def removeAll_id)

section \<open>Width of the window\<close>

record media_page =
  mp_isMobile :: bool
  mp_listening :: nat

definition media_data :: "int \<Rightarrow> media_page" where
  "media_data innerWidth = \<lparr>mp_isMobile = (innerWidth \<le> 768), mp_listening = 0\<rparr>"

definition updateDeviceType :: "int \<Rightarrow> media_page \<Rightarrow> media_page" where
  "updateDeviceType innerWidth p = p\<lparr>mp_isMobile := innerWidth \<le> 768\<rparr>"

text \<open>A listener that is there already is not added again.\<close>

definition media_mounted :: "media_page \<Rightarrow> media_page" where
  "media_mounted p = p\<lparr>mp_listening := 1\<rparr>"

definition media_beforeDestroy :: "media_page \<Rightarrow> media_page" where
  "media_beforeDestroy p = p\<lparr>mp_listening := 0\<rparr>"

definition media_resized :: "int \<Rightarrow> media_page \<Rightarrow> media_page" where
  "media_resized innerWidth p = (if mp_listening p = 0 then p else updateDeviceType innerWidth p)"

section \<open>Intl\<close>

definition formatDate ::
  "(jsval \<Rightarrow> int \<Rightarrow> string option) \<Rightarrow> navigator option \<Rightarrow> int \<Rightarrow> lang_page \<Rightarrow> (string \<times> lang_page) option" where
  "formatDate intl nav date p = do {
     (language, p) \<leftarrow> getLanguage nav p;
     s \<leftarrow> intl language date;
     Some (s, p) }"

text \<open>A negative date is the length of a term that has not begun.\<close>

definition relative_days :: "int \<Rightarrow> int \<Rightarrow> int" where
  "relative_days now date = (if date < 0 then round_div date 86400000 else round_div (date - now) 86400000)"

definition formatRelativeTime ::
  "(jsval \<Rightarrow> int \<Rightarrow> string option) \<Rightarrow> navigator option \<Rightarrow> int \<Rightarrow> int \<Rightarrow> lang_page \<Rightarrow> (string \<times> lang_page) option" where
  "formatRelativeTime intl nav now date p = do {
     (language, p) \<leftarrow> getLanguage nav p;
     s \<leftarrow> intl language (relative_days now date);
     Some (s, p) }"

text \<open>The days are exact for whole days, and right to half a day otherwise.\<close>

lemma relative_days_whole: "relative_days now (- 86400000 * int (Suc n)) = - int (Suc n)"
  by (simp add: relative_days_def round_div_def)

lemma relative_days_near:
  assumes "0 \<le> date"
  shows "\<bar>2 * 86400000 * relative_days now date - 2 * (date - now)\<bar> \<le> 86400000"
proof -
  let ?n = "2 * (date - now) + 86400000"
  have "172800000 * (?n div 172800000) \<le> ?n" "?n < 172800000 * (?n div 172800000) + 172800000"
    using mult_div_mod_eq [of 172800000 ?n] pos_mod_sign [of 172800000 ?n] pos_mod_bound [of 172800000 ?n] by linarith+
  then show ?thesis using assms by (simp add: relative_days_def round_div_def abs_le_iff)
qed

end
