(* ===== verification/Calendar.thy ===== *)
theory Calendar
  imports Formatters
begin

text \<open>
  The calendar of \<open>Date.prototype.toISOString\<close>, as the language defines it, and the one format the
  chain editor prints a time in (\<open>ChainUtil.stamp\<close> of \<open>web/assets/js/model/chain.js\<close>). Years and
  days are counted as the standard of the language does: \<open>day_from_year\<close> is its \<open>DayFromYear\<close>.
\<close>

section \<open>Days and dates\<close>

definition day_from_year :: "int \<Rightarrow> int" where
  "day_from_year y = 365 * (y - 1970) + (y - 1969) div 4 - (y - 1901) div 100 + (y - 1601) div 400"

definition leap_year :: "int \<Rightarrow> bool" where
  "leap_year y \<longleftrightarrow> y mod 4 = 0 \<and> (y mod 100 \<noteq> 0 \<or> y mod 400 = 0)"

text \<open>The year with \<open>day_from_year y \<le> d < day_from_year (y + 1)\<close>, next to the estimate by the mean
  length of a year.\<close>

definition year_of_day :: "int \<Rightarrow> int" where
  "year_of_day d =
     (let e = 1970 + 400 * d div 146097 in
      if day_from_year (e + 1) \<le> d then e + 1 else if day_from_year e \<le> d then e else e - 1)"

definition month_start :: "bool \<Rightarrow> nat \<Rightarrow> int" where
  "month_start leap m =
     [0, 31, 59, 90, 120, 151, 181, 212, 243, 273, 304, 334, 365] ! m + (if leap \<and> 2 \<le> m then 1 else 0)"

definition month_of :: "bool \<Rightarrow> int \<Rightarrow> nat" where
  "month_of leap doy = last (filter (\<lambda>m. month_start leap m \<le> doy) [0..<12])"

text \<open>Year, month from 1 and day of the month from 1.\<close>

definition date_of_day :: "int \<Rightarrow> int \<times> int \<times> int" where
  "date_of_day d =
     (let y = year_of_day d; doy = d - day_from_year y; m = month_of (leap_year y) doy in
      (y, int m + 1, doy - month_start (leap_year y) m + 1))"

section \<open>The text of a time\<close>

text \<open>\<open>toISOString\<close> throws a \<open>RangeError\<close> for a time more than a hundred million days away.\<close>

definition iso_year :: "int \<Rightarrow> string" where
  "iso_year y =
     (if 0 \<le> y \<and> y \<le> 9999 then pad_zeros 4 (int_str y)
      else (if y < 0 then ''-'' else ''+'') @ pad_zeros 6 (int_str \<bar>y\<bar>))"

definition two_digits :: "int \<Rightarrow> string" where
  "two_digits n = pad_zeros 2 (int_str n)"

definition toISOString :: "int \<Rightarrow> string option" where
  "toISOString ms =
     (if \<bar>ms\<bar> > 8640000000000000 then None
      else (let (y, m, d) = date_of_day (ms div 86400000); t = ms mod 86400000 in
        Some (iso_year y @ ''-'' @ two_digits m @ ''-'' @ two_digits d @ ''T'' @ two_digits (t div 3600000)
          @ '':'' @ two_digits (t div 60000 mod 60) @ '':'' @ two_digits (t div 1000 mod 60)
          @ ''.'' @ pad_zeros 3 (int_str (t mod 1000)) @ ''Z'')))"

text \<open>\<open>s.replace(c, d)\<close> of two characters replaces the first one.\<close>

fun replace_first :: "char \<Rightarrow> char \<Rightarrow> string \<Rightarrow> string" where
  "replace_first c d [] = []"
| "replace_first c d (x # xs) = (if x = c then d # xs else x # replace_first c d xs)"

definition chain_stamp :: "int \<Rightarrow> string option" where
  "chain_stamp ms =
     (if ms = 0 then Some []
      else map_option (\<lambda>iso. replace_first (CHR ''T'') (CHR '' '') (take 16 iso) @ '' UTC'') (toISOString ms))"

section \<open>The calendar is the Gregorian one\<close>

lemma div_Suc_int:
  assumes "0 < (n :: int)"
  shows "(a + 1) div n = a div n + (if (a + 1) mod n = 0 then 1 else 0)"
proof (cases "a mod n + 1 = n")
  case True
  have "a + 1 = (a div n + 1) * n"
    using True div_mult_mod_eq [of a n] by (simp only: distrib_right mult_1_left)
  then show ?thesis using assms by simp
next
  case False
  then have r: "0 \<le> a mod n + 1" "a mod n + 1 < n"
    using assms pos_mod_sign [of n a] pos_mod_bound [of n a] by linarith+
  have "a + 1 = (a mod n + 1) + (a div n) * n" by (simp add: algebra_simps)
  then have "(a + 1) div n = a div n" "(a + 1) mod n = a mod n + 1"
    using r by (simp_all only: div_mult_self1 mod_mult_self1 div_pos_pos_trivial mod_pos_pos_trivial)
  moreover have "a mod n + 1 \<noteq> 0" using pos_mod_sign [OF assms, of a] by linarith
  ultimately show ?thesis by simp
qed

lemma mod_shift: "(y - k * n) mod n = y mod (n :: int)"
  using mod_mult_self1 [of y "- k" n] by simp

lemma year_length: "day_from_year (y + 1) = day_from_year y + (if leap_year y then 366 else 365)"
proof -
  have q: "(y - 1968) div 4 = (y - 1969) div 4 + (if y mod 4 = 0 then 1 else 0)"
    using div_Suc_int [of 4 "y - 1969"] mod_shift [of y 492 4] by simp
  have c: "(y - 1900) div 100 = (y - 1901) div 100 + (if y mod 100 = 0 then 1 else 0)"
    using div_Suc_int [of 100 "y - 1901"] mod_shift [of y 19 100] by simp
  have f: "(y - 1600) div 400 = (y - 1601) div 400 + (if y mod 400 = 0 then 1 else 0)"
    using div_Suc_int [of 400 "y - 1601"] mod_shift [of y 4 400] by simp
  have "y mod 400 mod 100 = y mod 100" "y mod 100 mod 4 = y mod 4" by (simp_all add: mod_mod_cancel)
  then have m: "y mod 400 = 0 \<Longrightarrow> y mod 100 = 0" "y mod 100 = 0 \<Longrightarrow> y mod 4 = 0" by (metis mod_0)+
  have e: "y + 1 - 1969 = y - 1968" "y + 1 - 1901 = y - 1900" "y + 1 - 1601 = y - 1600" by simp_all
  have sum: "365 * (y + 1 - 1970) + (A + (if P then 1 else 0)) - (B + (if Q then 1 else 0)) + (C + (if R then 1 else 0))
      = 365 * (y - 1970) + A - B + C + (if P \<and> (\<not> Q \<or> R) then 366 else 365)"
    if "R \<Longrightarrow> Q" "Q \<Longrightarrow> P" for A B C and P Q R
    using that by (cases P; cases Q; cases R) simp_all
  show ?thesis unfolding day_from_year_def leap_year_def e q c f by (rule sum [OF m])
qed

lemma day_from_year_mean:
  "400 * day_from_year (1970 + k) \<le> 146097 * k + 589" "146097 * k - 506 \<le> 400 * day_from_year (1970 + k)"
proof -
  have b: "n * (a div n) \<le> a" "a \<le> n * (a div n) + (n - 1)" if "0 < n" for a n :: int
    using that pos_mod_sign [of n a] pos_mod_bound [of n a] mult_div_mod_eq [of n a] by linarith+
  note q = b [of 4 "k + 1"] b [of 100 "k + 69"] b [of 400 "k + 369"]
  have "day_from_year (1970 + k) = 365 * k + (k + 1) div 4 - (k + 69) div 100 + (k + 369) div 400"
    by (simp add: day_from_year_def ac_simps)
  with q show "400 * day_from_year (1970 + k) \<le> 146097 * k + 589"
    "146097 * k - 506 \<le> 400 * day_from_year (1970 + k)" by linarith+
qed

lemma year_of_day: "day_from_year (year_of_day d) \<le> d \<and> d < day_from_year (year_of_day d + 1)"
proof -
  define k where "k = 400 * d div 146097"
  have k: "146097 * k \<le> 400 * d" "400 * d < 146097 * k + 146097" unfolding k_def
    using pos_mod_sign [of 146097 "400 * d"] pos_mod_bound [of 146097 "400 * d"] mult_div_mod_eq [of 146097 "400 * d"]
    by linarith+
  have "day_from_year (1970 + k - 1) \<le> d" "d < day_from_year (1970 + k + 2)"
    using day_from_year_mean(1) [of "k - 1"] day_from_year_mean(2) [of "k + 2"] k
    by (simp_all add: algebra_simps)
  then show ?thesis by (simp add: year_of_day_def Let_def flip: k_def)
qed

lemma day_from_year_mono: "y \<le> z \<Longrightarrow> day_from_year y \<le> day_from_year z"
proof (induction z rule: int_ge_induct)
  case (step z)
  then show ?case by (simp add: year_length)
qed simp

lemma year_of_day_unique:
  assumes "day_from_year y \<le> d" "d < day_from_year (y + 1)"
  shows "year_of_day d = y"
proof (rule antisym)
  show "year_of_day d \<le> y"
    using year_of_day [of d] assms day_from_year_mono [of "y + 1" "year_of_day d"] by linarith
  show "y \<le> year_of_day d"
    using year_of_day [of d] assms day_from_year_mono [of "year_of_day d + 1" y] by linarith
qed

text \<open>A reference: the date after a date, by the lengths of the months.\<close>

definition days_in_month :: "bool \<Rightarrow> int \<Rightarrow> int" where
  "days_in_month leap m = (if m = 2 then (if leap then 29 else 28) else if m \<in> {4, 6, 9, 11} then 30 else 31)"

fun next_date :: "int \<times> int \<times> int \<Rightarrow> int \<times> int \<times> int" where
  "next_date (y, m, d) =
     (if d < days_in_month (leap_year y) m then (y, m, d + 1) else if m < 12 then (y, m + 1, 1) else (y + 1, 1, 1))"

lemma below_12: "m < 12 \<Longrightarrow> (m :: nat) \<in> {0, 1, 2, 3, 4, 5, 6, 7, 8, 9, 10, 11}"
  by (simp add: numeral_eq_Suc less_Suc_eq)

lemma month_length: "m < 12 \<Longrightarrow> month_start leap (Suc m) = month_start leap m + days_in_month leap (int m + 1)"
  using below_12 [of m] by (auto simp: month_start_def days_in_month_def)

lemma month_of_unique:
  assumes "m < 12" "month_start leap m \<le> doy" "doy < month_start leap (Suc m)"
  shows "month_of leap doy = m"
  using below_12 [OF assms(1)] assms(2,3)
  by (elim insertE emptyE) (simp_all add: month_of_def month_start_def upt_rec)

lemma month_of_range:
  assumes "0 \<le> doy" "doy < 365 + (if leap then 1 else 0)"
  shows "month_of leap doy < 12" "month_start leap (month_of leap doy) \<le> doy"
    "doy < month_start leap (Suc (month_of leap doy))"
proof -
  have "\<exists>m < n. month_start leap m \<le> doy \<and> doy < month_start leap (Suc m)" if "doy < month_start leap n" "n \<le> 12" for n
    using that
  proof (induction n)
    case 0
    then show ?case using assms(1) by (simp add: month_start_def)
  next
    case (Suc n)
    then show ?case by (cases "doy < month_start leap n") (auto simp: less_Suc_eq)
  qed
  from this [of 12] obtain m where "m < 12" "month_start leap m \<le> doy" "doy < month_start leap (Suc m)"
    using assms(2) by (auto simp: month_start_def)
  with month_of_unique show "month_of leap doy < 12" "month_start leap (month_of leap doy) \<le> doy"
    "doy < month_start leap (Suc (month_of leap doy))" by simp_all
qed

lemma date_parts:
  assumes "day_from_year y \<le> d" "d < day_from_year (y + 1)" "m < 12"
    "month_start (leap_year y) m \<le> d - day_from_year y" "d - day_from_year y < month_start (leap_year y) (Suc m)"
  shows "date_of_day d = (y, int m + 1, d - day_from_year y - month_start (leap_year y) m + 1)"
  by (simp add: date_of_day_def Let_def year_of_day_unique [OF assms(1,2)] month_of_unique [OF assms(3-5)])

lemma date_of_day_cases:
  obtains y m where "day_from_year y \<le> d" "d < day_from_year (y + 1)" "m < 12"
    "month_start (leap_year y) m \<le> d - day_from_year y" "d - day_from_year y < month_start (leap_year y) (Suc m)"
proof -
  let ?y = "year_of_day d"
  have y: "day_from_year ?y \<le> d" "d < day_from_year (?y + 1)" using year_of_day [of d] by simp_all
  then have "0 \<le> d - day_from_year ?y" "d - day_from_year ?y < 365 + (if leap_year ?y then 1 else 0)"
    by (auto simp: year_length split: if_splits)
  from that [OF y month_of_range [OF this]] show thesis .
qed

lemma date_of_day_next: "date_of_day (d + 1) = next_date (date_of_day d)"
proof -
  obtain y m where y: "day_from_year y \<le> d" "d < day_from_year (y + 1)" and m: "m < 12"
    "month_start (leap_year y) m \<le> d - day_from_year y" "d - day_from_year y < month_start (leap_year y) (Suc m)"
    by (rule date_of_day_cases [of d])
  note now = date_parts [OF y m]
  note len = month_length [OF m(1), of "leap_year y"]
  show ?thesis
  proof (cases "d + 1 - day_from_year y < month_start (leap_year y) (Suc m)")
    case True
    have "month_start (leap_year y) (Suc m) \<le> 365 + (if leap_year y then 1 else 0)"
      using below_12 [OF m(1)] by (auto simp: month_start_def)
    then have "d + 1 < day_from_year (y + 1)" using True by (simp add: year_length split: if_splits)
    then have "date_of_day (d + 1) = (y, int m + 1, d + 1 - day_from_year y - month_start (leap_year y) m + 1)"
      using y m True by (intro date_parts) simp_all
    then show ?thesis using now len True by simp
  next
    case False
    then have last: "d + 1 - day_from_year y = month_start (leap_year y) (Suc m)" using m(3) by simp
    show ?thesis
    proof (cases "Suc m < 12")
      case True
      have "month_start (leap_year y) (Suc m) < 365" using below_12 [OF m(1)] True by (auto simp: month_start_def)
      then have "d + 1 < day_from_year (y + 1)" using last by (simp add: year_length)
      moreover have "0 < days_in_month l k" for l k by (simp add: days_in_month_def)
      ultimately have "date_of_day (d + 1) = (y, int (Suc m) + 1, d + 1 - day_from_year y - month_start (leap_year y) (Suc m) + 1)"
        using y True last month_length [OF True, of "leap_year y"] by (intro date_parts) simp_all
      then show ?thesis using now len last True by simp
    next
      case False
      then have m11: "m = 11" using m(1) by simp
      have "d + 1 = day_from_year (y + 1)" using last
        by (cases "leap_year y") (simp_all add: m11 month_start_def year_length)
      then have "date_of_day (d + 1) = (y + 1, int 0 + 1, d + 1 - day_from_year (y + 1) - month_start (leap_year (y + 1)) 0 + 1)"
        using year_length [of "y + 1"] by (intro date_parts) (simp_all add: month_start_def)
      then show ?thesis using now len last \<open>d + 1 = day_from_year (y + 1)\<close> by (simp add: m11 month_start_def)
    qed
  qed
qed

lemma date_of_day_0: "date_of_day 0 = (1970, 1, 1)"
  by code_simp

section \<open>The stamp\<close>

lemma nat_str_length: "n < 10 ^ Suc k \<Longrightarrow> length (nat_str n) \<le> Suc k"
proof (induction k arbitrary: n)
  case 0
  then show ?case by (simp add: nat_str.simps [of n])
next
  case (Suc k)
  show ?case
  proof (cases "n < 10")
    case False
    then have "n div 10 < 10 ^ Suc k" using Suc.prems by (simp add: less_mult_imp_div_less)
    with Suc.IH [of "n div 10"] False show ?thesis by (subst nat_str.simps) simp
  qed (simp add: nat_str.simps [of n])
qed

lemma padded:
  assumes "0 \<le> n" "n < 10 ^ Suc k"
  shows "length (pad_zeros (Suc k) (int_str n)) = Suc k" "CHR ''T'' \<notin> set (pad_zeros (Suc k) (int_str n))"
proof -
  have "int (nat n) < int (10 ^ Suc k)" using assms by simp
  then have "nat n < 10 ^ Suc k" by (simp only: of_nat_less_iff)
  then show "length (pad_zeros (Suc k) (int_str n)) = Suc k"
    using nat_str_length [of "nat n" k] assms(1) by (simp add: pad_zeros_def int_str_def)
  have "\<not> is_digit (CHR ''T'')" by (simp add: is_digit_def)
  then have "CHR ''T'' \<notin> set (nat_str (nat n))" using nat_str_digits [of "nat n"] by blast
  then show "CHR ''T'' \<notin> set (pad_zeros (Suc k) (int_str n))"
    using assms(1) by (auto simp: pad_zeros_def int_str_def)
qed

lemma replace_first_at: "c \<notin> set s \<Longrightarrow> replace_first c d (s @ c # t) = s @ d # t"
  by (induction s) auto

lemma date_range:
  assumes "date_of_day n = (y, m, d)"
  shows "1 \<le> m" "m \<le> 12" "1 \<le> d" "d \<le> days_in_month (leap_year y) m" "day_from_year y \<le> n" "n < day_from_year (y + 1)"
proof -
  obtain z k where z: "day_from_year z \<le> n" "n < day_from_year (z + 1)" and k: "k < 12"
    "month_start (leap_year z) k \<le> n - day_from_year z" "n - day_from_year z < month_start (leap_year z) (Suc k)"
    by (rule date_of_day_cases [of n])
  with date_parts [OF z k] assms month_length [OF k(1), of "leap_year z"]
  show "1 \<le> m" "m \<le> 12" "1 \<le> d" "d \<le> days_in_month (leap_year y) m" "day_from_year y \<le> n" "n < day_from_year (y + 1)"
    by auto
qed

lemma time_of_day:
  fixes ms :: int
  defines "t \<equiv> ms mod 86400000"
  shows "0 \<le> t div 3600000" "t div 3600000 < 24" "0 \<le> t div 60000 mod 60" "t div 60000 mod 60 < 60"
proof -
  have "0 \<le> t" "t < 86400000" by (simp_all add: t_def)
  then show "0 \<le> t div 3600000" "t div 3600000 < 24" "0 \<le> t div 60000 mod 60" "t div 60000 mod 60 < 60"
    using mult_div_mod_eq [of 3600000 t] pos_mod_sign [of 3600000 t] by (simp_all add: pos_imp_zdiv_nonneg_iff)
qed

text \<open>A time of the years 0 to 9999 is shown as its date, its hour and its minute, in universal time.\<close>

lemma chain_stamp_text:
  assumes "ms \<noteq> 0" and date: "date_of_day (ms div 86400000) = (y, m, d)" and y: "0 \<le> y" "y \<le> 9999"
  shows "chain_stamp ms = Some (pad_zeros 4 (int_str y) @ ''-'' @ two_digits m @ ''-'' @ two_digits d @ '' ''
    @ two_digits (ms mod 86400000 div 3600000) @ '':'' @ two_digits (ms mod 86400000 div 60000 mod 60) @ '' UTC'')"
proof -
  note r = date_range [OF date]
  have dim: "days_in_month l k \<le> 31" for l k by (simp add: days_in_month_def)
  define t where "t = ms mod 86400000"
  define h mi where "h = t div 3600000" and "mi = t div 60000 mod 60"
  have hr: "0 \<le> h" "h < 24" "0 \<le> mi" "mi < 60" using time_of_day [of ms] by (simp_all add: h_def mi_def t_def)
  have two: "length (two_digits n) = 2" "CHR ''T'' \<notin> set (two_digits n)" if "0 \<le> n" "n < 100" for n
    using padded [of n 1] that by (simp_all add: two_digits_def numeral_2_eq_2)
  have four: "length (pad_zeros 4 (int_str y)) = 4" "CHR ''T'' \<notin> set (pad_zeros 4 (int_str y))"
    using padded [of y 3] y by simp_all
  have m: "0 \<le> m" "m < 100" and d: "0 \<le> d" "d < 100" using r(1-4) dim [of "leap_year y" m] by simp_all
  define date time where "date = pad_zeros 4 (int_str y) @ ''-'' @ two_digits m @ ''-'' @ two_digits d"
    and "time = two_digits h @ '':'' @ two_digits mi"
  have len: "length date = 10" "length time = 5" and noT: "CHR ''T'' \<notin> set date"
    using four two [OF m] two [OF d] two [of h] two [of mi] hr by (simp_all add: date_def time_def)
  have "day_from_year 0 \<le> ms div 86400000" "ms div 86400000 < day_from_year 10000"
    using r(5,6) day_from_year_mono [OF y(1)] day_from_year_mono [of "y + 1" 10000] y(2) by simp_all
  then have "- 719528 \<le> ms div 86400000" "ms div 86400000 < 2932897" by (simp_all add: day_from_year_def)
  then have "\<bar>ms\<bar> \<le> 8640000000000000"
    using mult_div_mod_eq [of 86400000 ms] pos_mod_sign [of 86400000 ms] pos_mod_bound [of 86400000 ms] by linarith
  then obtain rest where "toISOString ms = Some ((date @ CHR ''T'' # time) @ rest)"
    using y by (simp add: toISOString_def date Let_def iso_year_def date_def time_def h_def mi_def t_def)
  moreover have "take 16 ((date @ CHR ''T'' # time) @ rest) = date @ CHR ''T'' # time" for rest
    using len by simp
  ultimately show ?thesis
    using assms(1) by (simp add: chain_stamp_def replace_first_at [OF noT] del: append_assoc)
      (simp add: date_def time_def h_def mi_def t_def)
qed

end
