(* ===== verification/WebSocket_Client.thy ===== *)
theory WebSocket_Client
  imports Complex_Main Text_Codec
begin

text \<open>
  The client of the panel's live updates (\<open>WebSocketClient\<close> of \<open>web/assets/js/websocket.js\<close>)
  together with the part of the browser it depends on: the sockets it has opened, with their
  \<open>readyState\<close>, and the pending timeouts. A state of the page is changed by calls of the client's
  methods and by events of the browser, in any order.

  The events of a socket follow the browser's rules: \<open>open\<close> is delivered while the socket connects,
  \<open>message\<close> while it is open, \<open>close\<close> once, at the end; \<open>close()\<close> only starts the closing, so the
  event \<open>close\<close> comes later. A callback is a number, and a call of it an entry of a log. Not
  modelled: callbacks that themselves call the client, and what the code prints on the console.
\<close>

section \<open>The state\<close>

datatype ready_state = CONNECTING | OPEN | CLOSING | CLOSED

record socket =
  sock_url :: string
  sock_state :: ready_state
  sock_sent :: "string list"

record ws_client =
  basePath :: string
  maxReconnectAttempts :: int
  reconnectAttempts :: int
  isConnected :: bool
  ws :: "nat option"
  shouldReconnect :: bool
  reconnectTimer :: "nat option"
  listeners :: "(string \<times> nat list) list"

record call =
  call_event :: string
  call_callback :: nat
  call_args :: "jsval list"

record page =
  client :: ws_client
  sockets :: "socket list"
  timeouts :: "(nat \<times> rat) list"
  next_timer :: nat
  calls :: "call list"

text \<open>Where the page comes from, and what the browser does when a socket or a delay is asked for:
  \<open>new WebSocket\<close> may throw, and \<open>Math.random\<close> yields a number below 1.\<close>

record location =
  loc_protocol :: string
  loc_host :: string

record attempt =
  at_constructed :: bool
  at_error :: jsval
  at_random :: rat

definition attempt_ok :: "attempt \<Rightarrow> bool" where
  "attempt_ok a \<longleftrightarrow> 0 \<le> at_random a \<and> at_random a < 1"

definition MAX_PAYLOAD_BYTES :: nat where "MAX_PAYLOAD_BYTES = 10 * 1024 * 1024"
definition BASE_RECONNECT_MS :: int where "BASE_RECONNECT_MS = 1000"
definition MAX_RECONNECT_MS :: int where "MAX_RECONNECT_MS = 30000"
definition SLOW_RETRY_MS :: int where "SLOW_RETRY_MS = 60000"

definition WebSocketClient :: "string \<Rightarrow> ws_client" where
  "WebSocketClient path = \<lparr>basePath = path, maxReconnectAttempts = 10, reconnectAttempts = 0,
     isConnected = False, ws = None, shouldReconnect = True, reconnectTimer = None, listeners = []\<rparr>"

definition new_page :: "string \<Rightarrow> page" where
  "new_page path = \<lparr>client = WebSocketClient path, sockets = [], timeouts = [], next_timer = 1, calls = []\<rparr>"

definition on_client :: "(ws_client \<Rightarrow> ws_client) \<Rightarrow> page \<Rightarrow> page" where
  "on_client f p = p\<lparr>client := f (client p)\<rparr>"

definition set_state :: "nat \<Rightarrow> ready_state \<Rightarrow> page \<Rightarrow> page" where
  "set_state i r p = p\<lparr>sockets := (sockets p)[i := (sockets p ! i)\<lparr>sock_state := r\<rparr>]\<rparr>"

definition state_of :: "page \<Rightarrow> nat \<Rightarrow> ready_state" where
  "state_of p i = (if i < length (sockets p) then sock_state (sockets p ! i) else CLOSED)"

text \<open>\<open>socket.close()\<close>.\<close>

definition close_socket :: "nat \<Rightarrow> page \<Rightarrow> page" where
  "close_socket i p = (if state_of p i \<in> {CONNECTING, OPEN} then set_state i CLOSING p else p)"

section \<open>Listeners\<close>

text \<open>The map from events to sets of callbacks keeps both in insertion order.\<close>

definition on_event :: "string \<Rightarrow> nat \<Rightarrow> page \<Rightarrow> page" where
  "on_event event callback = on_client (\<lambda>c.
     (case map_of (listeners c) event of
        None \<Rightarrow> c\<lparr>listeners := listeners c @ [(event, [callback])]\<rparr>
      | Some cbs \<Rightarrow> c\<lparr>listeners := AList.update event
          (if callback \<in> set cbs then cbs else cbs @ [callback]) (listeners c)\<rparr>))"

definition off_event :: "string \<Rightarrow> nat \<Rightarrow> page \<Rightarrow> page" where
  "off_event event callback = on_client (\<lambda>c.
     (case map_of (listeners c) event of
        None \<Rightarrow> c
      | Some cbs \<Rightarrow>
          (let rest = filter (\<lambda>b. b \<noteq> callback) cbs
           in c\<lparr>listeners := (if rest = [] then AList.delete event (listeners c)
                else AList.update event rest (listeners c))\<rparr>)))"

definition subscribers :: "page \<Rightarrow> string \<Rightarrow> nat list" where
  "subscribers p event = (case map_of (listeners (client p)) event of None \<Rightarrow> [] | Some cbs \<Rightarrow> cbs)"

definition emit :: "string \<Rightarrow> jsval list \<Rightarrow> page \<Rightarrow> page" where
  "emit event args p = p\<lparr>calls := calls p @
     map (\<lambda>b. \<lparr>call_event = event, call_callback = b, call_args = args\<rparr>) (subscribers p event)\<rparr>"

section \<open>Connecting and reconnecting\<close>

definition ends_with :: "string \<Rightarrow> string \<Rightarrow> bool" where
  "ends_with s t = starts_with (rev s) (rev t)"

definition buildUrl :: "location \<Rightarrow> ws_client \<Rightarrow> string" where
  "buildUrl loc c =
     (let protocol = (if loc_protocol loc = ''https:'' then ''wss:'' else ''ws:'');
          path = basePath c;
          path = (if path \<noteq> [] \<and> \<not> ends_with path ''/'' then path @ ''/'' else path)
      in protocol @ ''//'' @ loc_host loc @ path @ ''ws'')"

definition cancelReconnect :: "page \<Rightarrow> page" where
  "cancelReconnect p =
     (case reconnectTimer (client p) of
        None \<Rightarrow> p
      | Some t \<Rightarrow> on_client (reconnectTimer_update (\<lambda>_. None))
          (p\<lparr>timeouts := filter (\<lambda>e. fst e \<noteq> t) (timeouts p)\<rparr>))"

text \<open>The delay before the next attempt, and the number of attempts after it was scheduled.\<close>

definition backoff :: "ws_client \<Rightarrow> int \<times> int" where
  "backoff c =
     (if reconnectAttempts c < maxReconnectAttempts c then
        (let n = reconnectAttempts c + 1
         in (n, min MAX_RECONNECT_MS (BASE_RECONNECT_MS * 2 ^ nat (n - 1))))
      else (reconnectAttempts c, SLOW_RETRY_MS))"

definition jittered :: "int \<Rightarrow> rat \<Rightarrow> rat" where
  "jittered base random = of_int base * (3 / 4 + random * (1 / 2))"

definition scheduleReconnect :: "attempt \<Rightarrow> page \<Rightarrow> page" where
  "scheduleReconnect a p =
     (if \<not> shouldReconnect (client p) then p
      else (let p = cancelReconnect p; b = backoff (client p); t = next_timer p
            in on_client (\<lambda>c. c\<lparr>reconnectAttempts := fst b, reconnectTimer := Some t\<rparr>)
                 (p\<lparr>timeouts := (t, jittered (snd b) (at_random a)) # timeouts p, next_timer := t + 1\<rparr>)))"

definition openSocket :: "location \<Rightarrow> attempt \<Rightarrow> page \<Rightarrow> page" where
  "openSocket loc a p =
     (if at_constructed a then
        on_client (ws_update (\<lambda>_. Some (length (sockets p))))
          (p\<lparr>sockets := sockets p @
             [\<lparr>sock_url = buildUrl loc (client p), sock_state = CONNECTING, sock_sent = []\<rparr>]\<rparr>)
      else scheduleReconnect a (emit ''error'' [at_error a] p))"

definition live_ws :: "page \<Rightarrow> bool" where
  "live_ws p = (case ws (client p) of None \<Rightarrow> False | Some i \<Rightarrow> state_of p i \<in> {CONNECTING, OPEN})"

definition connect :: "location \<Rightarrow> attempt \<Rightarrow> page \<Rightarrow> page" where
  "connect loc a p =
     (if live_ws p then p
      else openSocket loc a (cancelReconnect (on_client (shouldReconnect_update (\<lambda>_. True)) p)))"

definition disconnect :: "page \<Rightarrow> page" where
  "disconnect p =
     (let p = cancelReconnect (on_client (shouldReconnect_update (\<lambda>_. False)) p);
          p = on_client (reconnectAttempts_update (\<lambda>_. 0)) p;
          p = (case ws (client p) of
              None \<Rightarrow> p
            | Some i \<Rightarrow> on_client (ws_update (\<lambda>_. None)) (close_socket i p))
      in on_client (isConnected_update (\<lambda>_. False)) p)"

definition send :: "jsval \<Rightarrow> page \<Rightarrow> page" where
  "send data p =
     (case ws (client p) of
        Some i \<Rightarrow>
          if state_of p i = OPEN then
            p\<lparr>sockets := (sockets p)[i := (sockets p ! i)\<lparr>sock_sent := sock_sent (sockets p ! i) @ [stringify data]\<rparr>]\<rparr>
          else p
      | None \<Rightarrow> p)"

section \<open>Events of the browser\<close>

definition opened :: "page \<Rightarrow> page" where
  "opened p = emit ''connected'' [] (on_client (\<lambda>c. c\<lparr>isConnected := True, reconnectAttempts := 0\<rparr>) p)"

definition closed :: "attempt \<Rightarrow> page \<Rightarrow> page" where
  "closed a p =
     (let p = on_client (\<lambda>c. c\<lparr>isConnected := False, ws := None\<rparr>) p;
          p = emit ''disconnected'' [] p
      in if shouldReconnect (client p) then scheduleReconnect a p else p)"

text \<open>A message: a text with what \<open>JSON.parse\<close> makes of it (\<open>None\<close> if it throws), or binary data,
  which is no JSON.\<close>

datatype message = Text string "jsval option" | Binary

definition deliver :: "jsval \<Rightarrow> page \<Rightarrow> page" where
  "deliver v p =
     (case v of
        JObj ps \<Rightarrow>
          (case oget ps ''type'' of
             JStr t \<Rightarrow> emit ''message'' [v] (emit t [oget ps ''payload'', oget ps ''time''] p)
           | _ \<Rightarrow> p)
      | _ \<Rightarrow> p)"

definition onMessage :: "message \<Rightarrow> page \<Rightarrow> page" where
  "onMessage m p =
     (case m of
        Text data parsed \<Rightarrow>
          if length (utf8 data) > MAX_PAYLOAD_BYTES then
            (case ws (client p) of None \<Rightarrow> p | Some i \<Rightarrow> close_socket i p)
          else (case parsed of None \<Rightarrow> p | Some v \<Rightarrow> deliver v p)
      | Binary \<Rightarrow> p)"

definition retry :: "location \<Rightarrow> attempt \<Rightarrow> page \<Rightarrow> page" where
  "retry loc a p = openSocket loc a (on_client (reconnectTimer_update (\<lambda>_. None)) p)"

text \<open>What can happen next, and what it does. An event that cannot happen is \<open>None\<close>.\<close>

datatype ws_event =
    Connect attempt
  | Disconnect
  | On string nat
  | Off string nat
  | Send jsval
  | Opened nat
  | Received nat message
  | Failed nat jsval
  | Closing nat
  | Closed nat attempt
  | Fired nat attempt

fun happen :: "location \<Rightarrow> ws_event \<Rightarrow> page \<Rightarrow> page option" where
  "happen loc (Connect a) p = Some (connect loc a p)"
| "happen loc Disconnect p = Some (disconnect p)"
| "happen loc (On event callback) p = Some (on_event event callback p)"
| "happen loc (Off event callback) p = Some (off_event event callback p)"
| "happen loc (Send data) p = Some (send data p)"
| "happen loc (Opened i) p =
     (if state_of p i = CONNECTING then Some (opened (set_state i OPEN p)) else None)"
| "happen loc (Received i m) p = (if state_of p i = OPEN then Some (onMessage m p) else None)"
| "happen loc (Failed i e) p = (if state_of p i \<noteq> CLOSED then Some (emit ''error'' [e] p) else None)"
| "happen loc (Closing i) p = (if state_of p i = OPEN then Some (set_state i CLOSING p) else None)"
| "happen loc (Closed i a) p =
     (if state_of p i \<noteq> CLOSED then Some (closed a (set_state i CLOSED p)) else None)"
| "happen loc (Fired t a) p =
     (if t \<in> fst ` set (timeouts p)
      then Some (retry loc a (p\<lparr>timeouts := filter (\<lambda>e. fst e \<noteq> t) (timeouts p)\<rparr>)) else None)"

fun event_ok :: "ws_event \<Rightarrow> bool" where
  "event_ok (Connect a) = attempt_ok a"
| "event_ok (Closed i a) = attempt_ok a"
| "event_ok (Fired t a) = attempt_ok a"
| "event_ok _ = True"

inductive ws_reachable :: "location \<Rightarrow> page \<Rightarrow> bool" for loc where
  start: "ws_reachable loc (new_page path)"
| step: "\<lbrakk>ws_reachable loc p; event_ok e; happen loc e p = Some q\<rbrakk> \<Longrightarrow> ws_reachable loc q"

text \<open>A run of given events.\<close>

fun run :: "location \<Rightarrow> ws_event list \<Rightarrow> page \<Rightarrow> page option" where
  "run loc [] p = Some p"
| "run loc (e # es) p = do { q \<leftarrow> happen loc e p; run loc es q }"

lemma run_reachable:
  "\<lbrakk>ws_reachable loc p; list_all event_ok es; run loc es p = Some q\<rbrakk> \<Longrightarrow> ws_reachable loc q"
  by (induction es arbitrary: p) (auto simp: bind_eq_Some_conv intro: ws_reachable.step)

section \<open>What the operations leave alone\<close>

lemma on_client_simps [simp]:
  "client (on_client f p) = f (client p)" "sockets (on_client f p) = sockets p"
  "timeouts (on_client f p) = timeouts p" "calls (on_client f p) = calls p" "state_of (on_client f p) = state_of p"
  by (simp_all add: on_client_def state_of_def fun_eq_iff)

lemma emit_simps [simp]:
  "client (emit e args p) = client p" "sockets (emit e args p) = sockets p"
  "timeouts (emit e args p) = timeouts p" "state_of (emit e args p) = state_of p"
  by (simp_all add: emit_def state_of_def fun_eq_iff)

lemma set_state_simps [simp]:
  "client (set_state i r p) = client p" "timeouts (set_state i r p) = timeouts p"
  "calls (set_state i r p) = calls p" "length (sockets (set_state i r p)) = length (sockets p)"
  by (simp_all add: set_state_def)

lemma state_of_set_state [simp]:
  "state_of (set_state i r p) j = (if j = i \<and> i < length (sockets p) then r else state_of p j)"
  by (auto simp: state_of_def set_state_def)

lemma state_of_other [simp]: "length (sockets p) \<le> i \<Longrightarrow> state_of p i = CLOSED"
  by (simp add: state_of_def)

lemma state_of_bound: "state_of p i \<noteq> CLOSED \<Longrightarrow> i < length (sockets p)"
  by (auto simp: state_of_def split: if_splits)

lemma close_socket_simps [simp]:
  "client (close_socket i p) = client p" "timeouts (close_socket i p) = timeouts p"
  "length (sockets (close_socket i p)) = length (sockets p)"
  by (simp_all add: close_socket_def)

lemma state_of_close_socket [simp]:
  "state_of (close_socket i p) j = (if j = i \<and> state_of p i \<in> {CONNECTING, OPEN} then CLOSING else state_of p j)"
  using state_of_bound [of p i] by (auto simp: close_socket_def)

lemma cancel_simps [simp]:
  "client (cancelReconnect p) = (client p)\<lparr>reconnectTimer := None\<rparr>"
  "sockets (cancelReconnect p) = sockets p" "state_of (cancelReconnect p) = state_of p"
  by (auto simp: cancelReconnect_def state_of_def fun_eq_iff split: option.splits)

lemma state_of_new [simp]:
  "state_of (p\<lparr>sockets := sockets p @ [s]\<rparr>) i =
     (if i = length (sockets p) then sock_state s else state_of p i)"
  by (auto simp: state_of_def nth_append)

lemma state_of_timeouts [simp]:
  "state_of (p\<lparr>timeouts := ts\<rparr>) = state_of p" "state_of (p\<lparr>timeouts := ts, next_timer := n\<rparr>) = state_of p"
  by (simp_all add: state_of_def fun_eq_iff)

lemma deliver_simps [simp]:
  "client (deliver v p) = client p" "timeouts (deliver v p) = timeouts p" "state_of (deliver v p) = state_of p"
  by (auto simp: deliver_def split: jsval.splits)

lemma onMessage_simps [simp]:
  "client (onMessage m p) = client p" "timeouts (onMessage m p) = timeouts p"
  by (auto simp: onMessage_def split: message.splits option.splits)

lemma send_simps [simp]:
  "client (send v p) = client p" "timeouts (send v p) = timeouts p" "state_of (send v p) = state_of p"
  by (auto simp: send_def state_of_def fun_eq_iff nth_list_update split: option.splits)

lemma listener_simps [simp]:
  "sockets (on_event e b p) = sockets p" "timeouts (on_event e b p) = timeouts p"
  "state_of (on_event e b p) = state_of p" "sockets (off_event e b p) = sockets p"
  "timeouts (off_event e b p) = timeouts p" "state_of (off_event e b p) = state_of p"
  by (simp_all add: on_event_def off_event_def)

text \<open>The fields of the client the connection depends on.\<close>

definition core :: "ws_client \<Rightarrow> int \<times> int \<times> bool \<times> nat option \<times> bool \<times> nat option" where
  "core c = (maxReconnectAttempts c, reconnectAttempts c, isConnected c, ws c, shouldReconnect c, reconnectTimer c)"

lemma listener_core:
  "core (client (on_event e b p)) = core (client p)" "core (client (off_event e b p)) = core (client p)"
  by (auto simp: on_event_def off_event_def core_def Let_def split: option.splits)

section \<open>The retry timer\<close>

definition timer_ok :: "page \<Rightarrow> bool" where
  "timer_ok p \<longleftrightarrow> (case reconnectTimer (client p) of
       None \<Rightarrow> timeouts p = []
     | Some t \<Rightarrow> shouldReconnect (client p) \<and> (\<exists>d. timeouts p = [(t, d)] \<and> 750 \<le> d \<and> d \<le> 75000))"

definition attempts_ok :: "page \<Rightarrow> bool" where
  "attempts_ok p \<longleftrightarrow> maxReconnectAttempts (client p) = 10 \<and> 0 \<le> reconnectAttempts (client p)
     \<and> reconnectAttempts (client p) \<le> 10"

definition ws_inv :: "page \<Rightarrow> bool" where
  "ws_inv p \<longleftrightarrow> timer_ok p \<and> attempts_ok p
     \<and> (case ws (client p) of None \<Rightarrow> True | Some i \<Rightarrow> state_of p i \<noteq> CLOSED)"

lemma cancel_timeouts [simp]: "timer_ok p \<Longrightarrow> timeouts (cancelReconnect p) = []"
  by (auto simp: timer_ok_def cancelReconnect_def split: option.splits)

lemma backoff_bounds:
  "1000 \<le> snd (backoff c) \<and> snd (backoff c) \<le> 60000"
proof -
  have "(1::int) \<le> 2 ^ n" for n :: nat by simp
  then show ?thesis
    by (simp add: backoff_def Let_def min_le_iff_disj MAX_RECONNECT_MS_def BASE_RECONNECT_MS_def SLOW_RETRY_MS_def)
qed

lemma jittered_bounds:
  assumes "attempt_ok a" "0 \<le> base"
  shows "3 / 4 * of_int base \<le> jittered base (at_random a)"
    and "jittered base (at_random a) \<le> 5 / 4 * of_int base"
proof -
  have r: "0 \<le> at_random a" "at_random a < 1" and b: "(0::rat) \<le> of_int base"
    using assms by (simp_all add: attempt_ok_def)
  show "3 / 4 * of_int base \<le> jittered base (at_random a)"
    using mult_left_mono [of "3 / 4" "3 / 4 + at_random a * (1 / 2)" "of_int base"] r b
    by (simp add: jittered_def mult.commute)
  show "jittered base (at_random a) \<le> 5 / 4 * of_int base"
    using mult_left_mono [of "3 / 4 + at_random a * (1 / 2)" "5 / 4" "of_int base"] r b
    by (simp add: jittered_def mult.commute)
qed

lemma schedule_fields:
  "client (scheduleReconnect a p) = (if shouldReconnect (client p)
     then (client p)\<lparr>reconnectAttempts := fst (backoff (client p)), reconnectTimer := Some (next_timer (cancelReconnect p))\<rparr>
     else client p)"
  "sockets (scheduleReconnect a p) = sockets p" "state_of (scheduleReconnect a p) = state_of p"
  by (simp_all add: scheduleReconnect_def Let_def backoff_def)

lemma schedule_ok:
  assumes "timer_ok p" "attempts_ok p" "attempt_ok a"
  shows "timer_ok (scheduleReconnect a p)" "attempts_ok (scheduleReconnect a p)"
proof -
  let ?b = "snd (backoff (client (cancelReconnect p)))"
  have "(1000::rat) \<le> of_int ?b" "of_int ?b \<le> (60000::rat)"
    using backoff_bounds [of "client (cancelReconnect p)"] by linarith+
  moreover have "0 \<le> ?b" using backoff_bounds [of "client (cancelReconnect p)"] by linarith
  ultimately have "750 \<le> jittered ?b (at_random a)" "jittered ?b (at_random a) \<le> 75000"
    using jittered_bounds [OF assms(3), of ?b] by linarith+
  with assms(1) show "timer_ok (scheduleReconnect a p)"
    by (auto simp: timer_ok_def [of "scheduleReconnect a p"] schedule_fields scheduleReconnect_def Let_def)
       (simp add: timer_ok_def split: option.splits)
  show "attempts_ok (scheduleReconnect a p)"
    using assms(2) by (auto simp: attempts_ok_def schedule_fields backoff_def Let_def)
qed

text \<open>The invariant depends on the core of the client, the pending timeouts and the states of the
  sockets only.\<close>

lemma ws_inv_cong:
  "\<lbrakk>core (client q) = core (client p); timeouts q = timeouts p;
    \<And>i. state_of q i = CLOSED \<longleftrightarrow> state_of p i = CLOSED; ws_inv p\<rbrakk> \<Longrightarrow> ws_inv q"
  by (simp add: ws_inv_def timer_ok_def attempts_ok_def core_def split: option.splits)

lemma onMessage_closed: "state_of (onMessage m p) i = CLOSED \<longleftrightarrow> state_of p i = CLOSED"
  by (auto simp: onMessage_def split: message.splits option.splits)

lemma openSocket_inv:
  assumes "ws_inv p" "reconnectTimer (client p) = None" "attempt_ok a"
  shows "ws_inv (openSocket loc a p)"
proof (cases "at_constructed a")
  case True
  with assms(1,2) show ?thesis
    by (simp add: openSocket_def ws_inv_def timer_ok_def attempts_ok_def)
next
  case False
  have "timer_ok (emit ''error'' [at_error a] p)" "attempts_ok (emit ''error'' [at_error a] p)"
    using assms(1) by (simp_all add: ws_inv_def timer_ok_def attempts_ok_def split: option.splits)
  from schedule_ok [OF this assms(3)] False assms(1) show ?thesis
    by (simp add: openSocket_def ws_inv_def schedule_fields split: option.splits)
qed

lemma cancelled_inv:
  assumes "ws_inv p" "client q = (client p)\<lparr>reconnectTimer := None, shouldReconnect := b\<rparr>"
    "timeouts q = []" "state_of q = state_of p"
  shows "ws_inv q"
  using assms by (simp add: ws_inv_def timer_ok_def attempts_ok_def split: option.splits)

lemma connect_inv:
  assumes "ws_inv p" "attempt_ok a"
  shows "ws_inv (connect loc a p)"
proof -
  let ?p = "on_client (shouldReconnect_update (\<lambda>_. True)) p"
  have "timer_ok ?p" using assms(1) by (simp add: ws_inv_def timer_ok_def split: option.splits)
  then have "ws_inv (cancelReconnect ?p)"
    using cancelled_inv [OF assms(1), of "cancelReconnect ?p" True] by simp
  from openSocket_inv [OF this _ assms(2), of loc] assms(1) show ?thesis by (simp add: connect_def)
qed

lemma disconnect_inv:
  assumes "ws_inv p"
  shows "ws_inv (disconnect p)"
proof -
  let ?p = "on_client (shouldReconnect_update (\<lambda>_. False)) p"
  have "timeouts (cancelReconnect ?p) = []"
    using assms by (auto simp: ws_inv_def timer_ok_def cancelReconnect_def split: option.splits)
  with assms show ?thesis
    by (auto simp: disconnect_def Let_def ws_inv_def timer_ok_def attempts_ok_def split: option.splits)
qed

lemma closed_inv:
  assumes "ws_inv p" "attempt_ok a"
  shows "ws_inv (closed a (set_state i CLOSED p))"
proof -
  let ?q = "emit ''disconnected'' [] (on_client (\<lambda>c. c\<lparr>isConnected := False, ws := None\<rparr>) (set_state i CLOSED p))"
  have "timer_ok ?q" "attempts_ok ?q"
    using assms(1) by (simp_all add: ws_inv_def timer_ok_def attempts_ok_def split: option.splits)
  with schedule_ok [OF this assms(2)] show ?thesis
    by (simp add: closed_def Let_def ws_inv_def schedule_fields)
qed

lemma fired_inv:
  assumes "ws_inv p" "attempt_ok a" "t \<in> fst ` set (timeouts p)"
  shows "ws_inv (retry loc a (p\<lparr>timeouts := filter (\<lambda>e. fst e \<noteq> t) (timeouts p)\<rparr>))"
proof -
  let ?q = "on_client (reconnectTimer_update (\<lambda>_. None)) (p\<lparr>timeouts := filter (\<lambda>e. fst e \<noteq> t) (timeouts p)\<rparr>)"
  have "ws_inv ?q"
    using assms(1,3) by (auto simp: ws_inv_def timer_ok_def attempts_ok_def split: option.splits)
  from openSocket_inv [OF this _ assms(2), of loc] show ?thesis by (simp add: retry_def)
qed

lemma happen_inv:
  assumes "ws_inv p" "event_ok e" "happen loc e p = Some q"
  shows "ws_inv q"
proof (cases e)
  case (Connect a)
  with assms connect_inv show ?thesis by auto
next
  case Disconnect
  with assms disconnect_inv show ?thesis by auto
next
  case (On ev b)
  with assms ws_inv_cong [of q p] show ?thesis by (auto simp: listener_core)
next
  case (Off ev b)
  with assms ws_inv_cong [of q p] show ?thesis by (auto simp: listener_core)
next
  case (Opened i)
  with assms show ?thesis
    by (auto simp: opened_def ws_inv_def timer_ok_def attempts_ok_def split: if_splits option.splits)
next
  case (Received i m)
  with assms ws_inv_cong [of q p] show ?thesis by (auto simp: onMessage_closed core_def split: if_splits)
next
  case (Closed i a)
  with assms closed_inv show ?thesis by (auto split: if_splits)
next
  case (Fired t a)
  with assms fired_inv [of p a t loc] show ?thesis by (simp split: if_splits)
qed (use assms ws_inv_cong [of q p] in \<open>auto simp: core_def split: if_splits\<close>)

lemma new_page_inv: "ws_inv (new_page path)"
  by (simp add: ws_inv_def timer_ok_def attempts_ok_def new_page_def WebSocketClient_def)

lemma reachable_inv: "ws_reachable loc p \<Longrightarrow> ws_inv p"
  by (induction rule: ws_reachable.induct) (auto intro: new_page_inv happen_inv)

section \<open>Never stuck\<close>

text \<open>A client that wants a connection has a socket or waits for a retry.\<close>

definition awake :: "page \<Rightarrow> bool" where
  "awake p \<longleftrightarrow> \<not> shouldReconnect (client p) \<or> ws (client p) \<noteq> None \<or> reconnectTimer (client p) \<noteq> None"

lemma openSocket_awake: "awake (openSocket loc a p)"
  by (simp add: awake_def openSocket_def schedule_fields)

lemma connect_awake: "awake (connect loc a p)"
  using openSocket_awake by (auto simp: connect_def awake_def live_ws_def split: option.splits)

lemma awake_core: "core (client q) = core (client p) \<Longrightarrow> awake q \<longleftrightarrow> awake p"
  by (simp add: awake_def core_def)

lemma happen_awake:
  assumes "awake p" "happen loc e p = Some q"
  shows "awake q"
proof (cases e)
  case (Connect a)
  with assms connect_awake show ?thesis by auto
next
  case (On ev b)
  with assms awake_core [of q p] show ?thesis by (auto simp: listener_core)
next
  case (Off ev b)
  with assms awake_core [of q p] show ?thesis by (auto simp: listener_core)
next
  case (Fired t a)
  with assms openSocket_awake show ?thesis by (auto simp: retry_def split: if_splits)
qed (use assms in \<open>auto simp: awake_def disconnect_def Let_def opened_def closed_def schedule_fields
  split: if_splits option.splits\<close>)

lemma run_awake: "\<lbrakk>awake p; run loc es p = Some q\<rbrakk> \<Longrightarrow> awake q"
  by (induction es arbitrary: p) (auto simp: bind_eq_Some_conv dest: happen_awake)

lemma run_inv: "\<lbrakk>ws_inv p; list_all event_ok es; run loc es p = Some q\<rbrakk> \<Longrightarrow> ws_inv q"
  by (induction es arbitrary: p) (auto simp: bind_eq_Some_conv dest: happen_inv)

section \<open>One socket\<close>

text \<open>\<open>patient\<close>: \<open>connect\<close> is called only when it does nothing or when every socket has finished
  closing. Then there is never a second socket, and the client's view is the truth.\<close>

definition patient :: "page \<Rightarrow> ws_event \<Rightarrow> bool" where
  "patient p e \<longleftrightarrow> (case e of Connect a \<Rightarrow> live_ws p \<or> list_all (\<lambda>s. sock_state s = CLOSED) (sockets p) | _ \<Rightarrow> True)"

fun patient_run :: "location \<Rightarrow> ws_event list \<Rightarrow> page \<Rightarrow> bool" where
  "patient_run loc [] p = True"
| "patient_run loc (e # es) p =
     (patient p e \<and> (case happen loc e p of None \<Rightarrow> True | Some q \<Rightarrow> patient_run loc es q))"

definition one_socket :: "page \<Rightarrow> bool" where
  "one_socket p \<longleftrightarrow>
     (\<forall>i. state_of p i \<noteq> CLOSED \<longrightarrow> ws (client p) = Some i
        \<or> ws (client p) = None \<and> \<not> shouldReconnect (client p) \<and> state_of p i = CLOSING)
     \<and> (\<forall>i j. state_of p i \<noteq> CLOSED \<and> state_of p j \<noteq> CLOSED \<longrightarrow> i = j)
     \<and> (reconnectTimer (client p) \<noteq> None \<longrightarrow> (\<forall>i. state_of p i = CLOSED))
     \<and> (isConnected (client p) \<longrightarrow> (\<exists>i. ws (client p) = Some i \<and> state_of p i \<in> {OPEN, CLOSING}))"

lemma one_socket_cong:
  "\<lbrakk>core (client q) = core (client p); state_of q = state_of p; one_socket p\<rbrakk> \<Longrightarrow> one_socket q"
  by (simp add: one_socket_def core_def)

lemma all_closed: "list_all (\<lambda>s. sock_state s = CLOSED) (sockets p) \<Longrightarrow> state_of p i = CLOSED"
  by (auto simp: state_of_def list_all_length)

lemma openSocket_one:
  assumes "\<forall>i. state_of p i = CLOSED" "\<not> isConnected (client p)" "reconnectTimer (client p) = None"
  shows "one_socket (openSocket loc a p)"
  using assms by (auto simp: one_socket_def openSocket_def schedule_fields)

lemma idle_not_connected: "\<lbrakk>one_socket p; \<forall>i. state_of p i = CLOSED\<rbrakk> \<Longrightarrow> \<not> isConnected (client p)"
  by (auto simp: one_socket_def)

lemma connect_one:
  assumes "one_socket p" "patient p (Connect a)"
  shows "one_socket (connect loc a p)"
proof (cases "live_ws p")
  case True
  with assms(1) show ?thesis by (simp add: connect_def)
next
  case False
  with assms(2) all_closed have "\<forall>i. state_of p i = CLOSED" by (auto simp: patient_def)
  with False idle_not_connected [OF assms(1)] show ?thesis
    by (simp add: connect_def openSocket_one)
qed

lemma disconnect_one: "one_socket p \<Longrightarrow> one_socket (disconnect p)"
  unfolding one_socket_def disconnect_def Let_def
  by (cases "ws (client p)") (auto, (metis ready_state.exhaust)+)

lemma opened_one:
  assumes "one_socket p" "state_of p i = CONNECTING"
  shows "one_socket (opened (set_state i OPEN p))"
proof -
  have i: "i < length (sockets p)" using state_of_bound assms(2) by (metis ready_state.distinct(5))
  have "ws (client p) = Some i" using assms unfolding one_socket_def by (metis ready_state.distinct(3,5))
  with i assms show ?thesis unfolding one_socket_def opened_def by auto
qed

lemma message_one: "one_socket p \<Longrightarrow> one_socket (onMessage m p)"
  unfolding onMessage_def
  by (auto simp: one_socket_def split: message.splits option.splits)

lemma closing_one: "\<lbrakk>one_socket p; state_of p i = OPEN\<rbrakk> \<Longrightarrow> one_socket (set_state i CLOSING p)"
  using state_of_bound [of p i] by (auto simp: one_socket_def)

lemma closed_one:
  assumes "one_socket p" "state_of p i \<noteq> CLOSED"
  shows "one_socket (closed a (set_state i CLOSED p))"
proof -
  have i: "i < length (sockets p)" by (rule state_of_bound [OF assms(2)])
  have "state_of (set_state i CLOSED p) j = CLOSED" for j
    using assms i by (auto simp: one_socket_def)
  then show ?thesis using assms(1) by (simp add: one_socket_def closed_def Let_def schedule_fields)
qed

lemma fired_one:
  assumes "one_socket p" "ws_inv p" "t \<in> fst ` set (timeouts p)"
  shows "one_socket (retry loc a (p\<lparr>timeouts := filter (\<lambda>e. fst e \<noteq> t) (timeouts p)\<rparr>))"
proof -
  have "reconnectTimer (client p) \<noteq> None"
    using assms(2,3) by (auto simp: ws_inv_def timer_ok_def split: option.splits)
  with assms(1) have "\<forall>i. state_of p i = CLOSED" by (simp add: one_socket_def)
  with idle_not_connected [OF assms(1)] show ?thesis by (simp add: retry_def openSocket_one)
qed

lemma happen_one:
  assumes "one_socket p" "ws_inv p" "patient p e" "happen loc e p = Some q"
  shows "one_socket q"
proof (cases e)
  case (Connect a)
  with assms connect_one show ?thesis by auto
next
  case Disconnect
  with assms disconnect_one show ?thesis by auto
next
  case (On ev b)
  with assms one_socket_cong [of q p] show ?thesis by (auto simp: listener_core)
next
  case (Off ev b)
  with assms one_socket_cong [of q p] show ?thesis by (auto simp: listener_core)
next
  case (Opened i)
  with assms opened_one show ?thesis by (auto split: if_splits)
next
  case (Received i m)
  with assms message_one show ?thesis by (auto split: if_splits)
next
  case (Closing i)
  with assms closing_one show ?thesis by (auto split: if_splits)
next
  case (Closed i a)
  with assms closed_one show ?thesis by (auto split: if_splits)
next
  case (Fired t a)
  with assms fired_one [of p t loc a] show ?thesis by (simp split: if_splits)
qed (use assms one_socket_cong [of q p] in \<open>auto simp: core_def split: if_splits\<close>)

lemma run_one:
  "\<lbrakk>one_socket p; ws_inv p; list_all event_ok es; patient_run loc es p; run loc es p = Some q\<rbrakk> \<Longrightarrow> one_socket q"
proof (induction es arbitrary: p)
  case (Cons e es)
  then obtain r where "happen loc e p = Some r" "run loc es r = Some q" "event_ok e" "patient p e"
    "patient_run loc es r" by (auto simp: bind_eq_Some_conv)
  with Cons happen_one [of p e loc r] happen_inv [of p e loc r] show ?case by simp
qed simp

lemma new_page_one: "one_socket (new_page path)"
  by (simp add: one_socket_def new_page_def WebSocketClient_def)

text \<open>The number of sockets that are not closed, counted.\<close>

definition live_sockets :: "page \<Rightarrow> nat" where
  "live_sockets p = length (filter (\<lambda>s. sock_state s \<noteq> CLOSED) (sockets p))"

lemma one_socket_count: "one_socket p \<Longrightarrow> live_sockets p \<le> 1"
proof -
  assume "one_socket p"
  then have "i = j" if "i < length (sockets p)" "j < length (sockets p)" "sock_state (sockets p ! i) \<noteq> CLOSED"
    "sock_state (sockets p ! j) \<noteq> CLOSED" for i j
    using that by (auto simp: one_socket_def state_of_def)
  then have "card {i. i < length (sockets p) \<and> sock_state (sockets p ! i) \<noteq> CLOSED} \<le> 1"
    by (intro card_le_Suc0_iff_eq [THEN iffD2, folded One_nat_def]) auto
  then show ?thesis by (simp add: live_sockets_def length_filter_conv_card)
qed

section \<open>Listeners\<close>

definition listeners_ok :: "page \<Rightarrow> bool" where
  "listeners_ok p \<longleftrightarrow> distinct (map fst (listeners (client p)))
     \<and> (\<forall>e \<in> set (listeners (client p)). snd e \<noteq> [] \<and> distinct (snd e))"

lemma on_subscribers:
  "subscribers (on_event ev b p) e =
     (if e = ev then (if b \<in> set (subscribers p ev) then subscribers p ev else subscribers p ev @ [b])
      else subscribers p e)"
  by (auto simp: subscribers_def on_event_def update_conv' map_add_def split: option.splits)

lemma off_subscribers:
  "subscribers (off_event ev b p) e =
     (if e = ev then filter (\<lambda>c. c \<noteq> b) (subscribers p ev) else subscribers p e)"
  by (auto simp: subscribers_def off_event_def Let_def update_conv' delete_conv' split: option.splits)

lemma subscribers_ok:
  "listeners_ok p \<Longrightarrow> distinct (subscribers p e)"
  by (auto simp: listeners_ok_def subscribers_def split: option.splits dest: map_of_SomeD)

lemma emit_calls:
  "calls (emit e args p) = calls p
     @ map (\<lambda>b. \<lparr>call_event = e, call_callback = b, call_args = args\<rparr>) (subscribers p e)"
  by (simp add: emit_def)

lemma listeners_kept:
  "listeners (client (scheduleReconnect a p)) = listeners (client p)"
  "listeners (client (openSocket loc a p)) = listeners (client p)"
  "listeners (client (connect loc a p)) = listeners (client p)"
  "listeners (client (disconnect p)) = listeners (client p)"
  by (auto simp: schedule_fields openSocket_def connect_def disconnect_def Let_def split: option.splits)

definition entries_ok :: "(string \<times> nat list) list \<Rightarrow> bool" where
  "entries_ok xs \<longleftrightarrow> distinct (map fst xs) \<and> (\<forall>e \<in> set xs. snd e \<noteq> [] \<and> distinct (snd e))"

lemma listeners_entries: "listeners_ok p \<longleftrightarrow> entries_ok (listeners (client p))"
  by (simp add: listeners_ok_def entries_ok_def)

lemma entries_update: "\<lbrakk>entries_ok xs; v \<noteq> []; distinct v\<rbrakk> \<Longrightarrow> entries_ok (AList.update k v xs)"
proof -
  have "e = (k, v) \<or> e \<in> set xs" if "e \<in> set (AList.update k v xs)" for e
    using that by (induction xs) (auto split: if_splits)
  then show "\<lbrakk>entries_ok xs; v \<noteq> []; distinct v\<rbrakk> \<Longrightarrow> entries_ok (AList.update k v xs)"
    unfolding entries_ok_def by (metis distinct_update snd_conv)
qed

lemma entries_delete: "entries_ok xs \<Longrightarrow> entries_ok (AList.delete k xs)"
  by (auto simp: entries_ok_def AList.delete_eq distinct_map_filter)

lemma entries_found: "\<lbrakk>entries_ok xs; map_of xs k = Some v\<rbrakk> \<Longrightarrow> v \<noteq> [] \<and> distinct v"
  by (auto simp: entries_ok_def dest: map_of_SomeD)

lemma entries_new: "\<lbrakk>entries_ok xs; map_of xs k = None\<rbrakk> \<Longrightarrow> entries_ok (xs @ [(k, [b])])"
  by (auto simp: entries_ok_def map_of_eq_None_iff)

lemma on_listeners_ok: "listeners_ok p \<Longrightarrow> listeners_ok (on_event ev b p)"
  using entries_found [of "listeners (client p)" ev] entries_new [of "listeners (client p)" ev]
  by (cases "map_of (listeners (client p)) ev")
    (simp_all add: listeners_entries on_event_def entries_update)

lemma off_listeners_ok: "listeners_ok p \<Longrightarrow> listeners_ok (off_event ev b p)"
  using entries_found [of "listeners (client p)" ev]
  by (cases "map_of (listeners (client p)) ev")
    (simp_all add: listeners_entries off_event_def Let_def entries_update entries_delete)

lemma happen_listeners_ok:
  assumes "listeners_ok p" "happen loc e p = Some q"
  shows "listeners_ok q"
proof (cases e)
  case (On ev b)
  with assms on_listeners_ok show ?thesis by auto
next
  case (Off ev b)
  with assms off_listeners_ok show ?thesis by auto
qed (use assms in \<open>auto simp: listeners_ok_def listeners_kept opened_def closed_def retry_def Let_def split: if_splits\<close>)

lemma reachable_listeners_ok: "ws_reachable loc p \<Longrightarrow> listeners_ok p"
proof (induction rule: ws_reachable.induct)
  case (start path)
  then show ?case by (simp add: listeners_ok_def new_page_def WebSocketClient_def)
qed (rule happen_listeners_ok)

text \<open>A callback is subscribed after a sequence of events if it was registered and not removed since.\<close>

definition subscribed_after :: "ws_event list \<Rightarrow> string \<Rightarrow> nat \<Rightarrow> bool" where
  "subscribed_after es e b \<longleftrightarrow> (\<exists>xs ys. es = xs @ On e b # ys \<and> Off e b \<notin> set ys)"

lemma subscribed_snoc:
  "subscribed_after (es @ [ev]) e b \<longleftrightarrow> ev = On e b \<or> subscribed_after es e b \<and> ev \<noteq> Off e b"
proof
  assume "subscribed_after (es @ [ev]) e b"
  then obtain xs ys where s: "es @ [ev] = xs @ On e b # ys" "Off e b \<notin> set ys" by (auto simp: subscribed_after_def)
  show "ev = On e b \<or> subscribed_after es e b \<and> ev \<noteq> Off e b"
  proof (cases ys rule: rev_cases)
    case (snoc zs z)
    with s have "es = xs @ On e b # zs" "ev = z" "Off e b \<notin> set zs" "z \<noteq> Off e b" by auto
    then show ?thesis unfolding subscribed_after_def by blast
  qed (use s in simp)
next
  assume "ev = On e b \<or> subscribed_after es e b \<and> ev \<noteq> Off e b"
  then show "subscribed_after (es @ [ev]) e b"
  proof
    assume "ev = On e b"
    then have "es @ [ev] = es @ On e b # [] \<and> Off e b \<notin> set []" by simp
    then show ?thesis unfolding subscribed_after_def by blast
  next
    assume "subscribed_after es e b \<and> ev \<noteq> Off e b"
    then obtain xs ys where "es = xs @ On e b # ys" "Off e b \<notin> set ys" "ev \<noteq> Off e b"
      by (auto simp: subscribed_after_def)
    then have "es @ [ev] = xs @ On e b # (ys @ [ev]) \<and> Off e b \<notin> set (ys @ [ev])" by simp
    then show ?thesis unfolding subscribed_after_def by blast
  qed
qed

lemma subscribers_kept: "listeners (client q) = listeners (client p) \<Longrightarrow> subscribers q = subscribers p"
  by (simp add: subscribers_def fun_eq_iff)

lemma happen_subscribers:
  assumes "happen loc ev p = Some q"
  shows "b \<in> set (subscribers q e) \<longleftrightarrow> ev = On e b \<or> b \<in> set (subscribers p e) \<and> ev \<noteq> Off e b"
proof (cases "\<exists>f c. ev = On f c \<or> ev = Off f c")
  case True
  with assms show ?thesis by (auto simp: on_subscribers off_subscribers split: if_splits)
next
  case False
  then have "listeners (client q) = listeners (client p)"
    using assms by (cases ev) (auto simp: listeners_kept opened_def closed_def retry_def Let_def split: if_splits)
  from subscribers_kept [OF this] False show ?thesis by auto
qed

lemma run_snoc: "run loc (es @ [ev]) p = Option.bind (run loc es p) (happen loc ev)"
  by (induction es arbitrary: p) (auto simp: bind_eq_Some_conv split: bind_splits)

lemma run_subscribers: "run loc es (new_page path) = Some p \<Longrightarrow> b \<in> set (subscribers p e) \<longleftrightarrow> subscribed_after es e b"
proof (induction es arbitrary: p rule: rev_induct)
  case Nil
  then show ?case by (auto simp: subscribed_after_def subscribers_def new_page_def WebSocketClient_def)
next
  case (snoc ev es)
  then obtain r where "run loc es (new_page path) = Some r" "happen loc ev r = Some p"
    by (auto simp: run_snoc bind_eq_Some_conv)
  with snoc.IH happen_subscribers show ?case by (simp add: subscribed_snoc)
qed

lemma run_listeners_ok: "run loc es p = Some q \<Longrightarrow> listeners_ok p \<Longrightarrow> listeners_ok q"
  by (induction es arbitrary: p) (auto simp: bind_eq_Some_conv dest: happen_listeners_ok)

lemma new_page_listeners: "listeners_ok (new_page path)"
  by (simp add: listeners_ok_def new_page_def WebSocketClient_def)

definition calls_to :: "string \<Rightarrow> nat \<Rightarrow> call list \<Rightarrow> call list" where
  "calls_to e b cs = filter (\<lambda>c. call_event c = e \<and> call_callback c = b) cs"

definition new_calls :: "page \<Rightarrow> page \<Rightarrow> call list" where
  "new_calls p q = drop (length (calls p)) (calls q)"

lemma calls_to_one:
  "distinct bs \<Longrightarrow> calls_to e b (map (\<lambda>b. \<lparr>call_event = f, call_callback = b, call_args = args\<rparr>) bs)
    = (if e = f \<and> b \<in> set bs then [\<lparr>call_event = e, call_callback = b, call_args = args\<rparr>] else [])"
  by (induction bs) (auto simp: calls_to_def)

lemma calls_to_append: "calls_to e b (xs @ ys) = calls_to e b xs @ calls_to e b ys"
  by (simp add: calls_to_def)

lemma emitted_once:
  assumes "run loc es (new_page path) = Some p"
  shows "calls_to e b (new_calls p (emit e args p))
    = (if subscribed_after es e b then [\<lparr>call_event = e, call_callback = b, call_args = args\<rparr>] else [])"
  using run_subscribers [OF assms] subscribers_ok [OF run_listeners_ok [OF assms new_page_listeners], of e]
  by (simp add: new_calls_def emit_calls calls_to_one)

lemma message_calls:
  assumes run: "run loc es (new_page path) = Some p"
    and got: "happen loc (Received i (Text data (Some (JObj ps)))) p = Some q"
    and msg: "length (utf8 data) \<le> MAX_PAYLOAD_BYTES" "oget ps ''type'' = JStr t" "t \<noteq> ''message''"
  shows "calls_to t b (new_calls p q) = (if subscribed_after es t b
      then [\<lparr>call_event = t, call_callback = b, call_args = [oget ps ''payload'', oget ps ''time'']\<rparr>] else [])"
    "calls_to ''message'' b (new_calls p q) = (if subscribed_after es ''message'' b
      then [\<lparr>call_event = ''message'', call_callback = b, call_args = [JObj ps]\<rparr>] else [])"
proof -
  let ?r = "emit t [oget ps ''payload'', oget ps ''time''] p"
  have q: "q = emit ''message'' [JObj ps] ?r"
    using got msg(1,2) by (simp add: onMessage_def deliver_def split: if_splits)
  have subs: "subscribers ?r = subscribers p" by (rule subscribers_kept) simp
  have "distinct (subscribers p e)" for e by (rule subscribers_ok [OF run_listeners_ok [OF run new_page_listeners]])
  with msg(3) show "calls_to t b (new_calls p q) = (if subscribed_after es t b
      then [\<lparr>call_event = t, call_callback = b, call_args = [oget ps ''payload'', oget ps ''time'']\<rparr>] else [])"
    "calls_to ''message'' b (new_calls p q) = (if subscribed_after es ''message'' b
      then [\<lparr>call_event = ''message'', call_callback = b, call_args = [JObj ps]\<rparr>] else [])"
    by (simp_all add: q new_calls_def emit_calls subs calls_to_append calls_to_one run_subscribers [OF run])
qed

section \<open>A second socket\<close>

text \<open>\<open>connect\<close> after \<open>disconnect\<close>, before the old socket has closed: the \<open>close\<close> event of the old
  socket takes the new one away from the client and starts a retry, which opens a third socket while
  the second is open. This happens from every state with a socket that connects or is open.\<close>

lemma openSocket_made:
  assumes "at_constructed a"
  shows "state_of (openSocket loc a p) j = (if j = length (sockets p) then CONNECTING else state_of p j)"
    "length (sockets (openSocket loc a p)) = Suc (length (sockets p))"
    "shouldReconnect (client (openSocket loc a p)) = shouldReconnect (client p)"
  using assms by (simp_all add: openSocket_def)

lemma stale_close_run:
  assumes "ws_inv p" "ws (client p) = Some i" "state_of p i \<in> {CONNECTING, OPEN}" "at_constructed a"
  obtains q t d where "run loc [Disconnect, Connect a, Closed i b, Opened (length (sockets p))] p = Some q"
    "isConnected (client q)" "ws (client q) = None" "state_of q (length (sockets p)) = OPEN"
    "length (sockets q) = Suc (length (sockets p))" "reconnectTimer (client q) = Some t" "t \<in> fst ` set (timeouts q)"
proof -
  let ?n = "length (sockets p)"
  have i: "i < ?n" using state_of_bound [of p i] assms(3) by auto
  let ?p1 = "disconnect p"
  have p1: "ws (client ?p1) = None" "length (sockets ?p1) = ?n" "state_of ?p1 i = CLOSING"
    using assms(2,3) by (auto simp: disconnect_def Let_def)
  let ?p2 = "connect loc a ?p1"
  have p2: "?p2 = openSocket loc a (cancelReconnect (on_client (shouldReconnect_update (\<lambda>_. True)) ?p1))"
    using p1(1) by (simp add: connect_def live_ws_def)
  have len: "length (sockets ?p2) = Suc ?n" "state_of ?p2 ?n = CONNECTING" "state_of ?p2 i = CLOSING"
    "shouldReconnect (client ?p2)"
    unfolding p2 using assms(4) p1(2,3) i by (simp_all add: openSocket_made)
  let ?p3 = "closed b (set_state i CLOSED ?p2)"
  have p3: "ws (client ?p3) = None" "state_of ?p3 ?n = CONNECTING" "length (sockets ?p3) = Suc ?n"
    "\<exists>t. reconnectTimer (client ?p3) = Some t \<and> t \<in> fst ` set (timeouts ?p3)"
    using len i by (simp_all add: closed_def Let_def schedule_fields) (simp add: scheduleReconnect_def Let_def)
  have runs: "run loc [Disconnect, Connect a, Closed i b, Opened ?n] p = Some (opened (set_state ?n OPEN ?p3))"
    using len(3) p3(2) by simp
  from p3(4) obtain t where t: "reconnectTimer (client ?p3) = Some t" "t \<in> fst ` set (timeouts ?p3)" by blast
  show thesis
    by (rule that [OF runs]) (use p3 t in \<open>simp_all add: opened_def\<close>)
qed

lemma retry_run:
  assumes "t \<in> fst ` set (timeouts q)" "at_constructed c" "n < length (sockets q)" "state_of q n = OPEN"
  shows "\<exists>r. run loc [Fired t c, Opened (length (sockets q))] q = Some r
    \<and> state_of r n = OPEN \<and> state_of r (length (sockets q)) = OPEN"
  using assms by (simp add: retry_def openSocket_made opened_def)

definition sure :: attempt where
  "sure = \<lparr>at_constructed = True, at_error = JUndef, at_random = 0\<rparr>"

definition here :: location where
  "here = \<lparr>loc_protocol = ''https:'', loc_host = ''h''\<rparr>"

lemma sure_ok [simp]: "attempt_ok sure"
  by (simp add: attempt_ok_def sure_def)

end
