(* ===== verification/Spec2Isabelle.thy ===== *)
theory Spec2Isabelle
  imports Wireguard_Doubles Link_Facts DB_Inbound Formatters Browser_Util Cookies Monitoring Chain_Registry Tunnel
    All_Setting Outbound_Form Subscription Options Requests Page_Util Calendar WebSocket_Client
begin

text \<open>
  A model of the JavaScript core of the panel's front end (\<open>web/assets/js\<close>): the classes behind
  the inbound and outbound forms with their JSON documents, the share links between the two, the
  pages' clients of the panel (requests, live updates, monitoring, chain, tunnels, settings), and
  the helpers they use.

  The program. The panel edits the configuration of a proxy server. An inbound is one object
  (\<open>Inbound\<close>, \<open>model/inbound.js\<close>) which owns the settings of one protocol, a stream with
  one object per transport and security layer, and sniffing options; an outbound (\<open>Outbound\<close>,
  \<open>model/outbound.js\<close>) is built alike from classes of its own. Every class reads itself
  from a JSON document (\<open>fromJson\<close>), is edited by the form, and writes itself back
  (\<open>toJson\<close>); the document is what the server stores. An inbound also writes share links, which the
  subscription page names and an outbound imports. \<open>util/index.js\<close> holds the helpers:
  object copies, random values, the Curve25519 arithmetic behind WireGuard keys, formatters,
  cookies, requests.

  The theories. Foundations:
    \<^item> \<open>Js_Prelude\<close>: JavaScript values, operators, objects in enumeration order, strings, and
      \<open>wire\<close>, the effect of writing a value as JSON and reading it back.
    \<^item> \<open>Json_Codec\<close>: the contracts of a class with the form, as locales (\<open>json_view\<close>: what
      was saved reloads as an object that saves the same; \<open>json_optional\<close>: also when the member
      is absent; \<open>json_codec\<close>: the same object comes back).
    \<^item> \<open>Doubles\<close>: the numbers of the language, rounded to the nearest double.
    \<^item> \<open>Text_Codec\<close>: \<open>JSON.stringify\<close>, \<open>encodeURIComponent\<close> and its inverse. \<open>Base64_Text\<close>: \<open>btoa\<close>,
      \<open>atob\<close>. \<open>Calendar\<close>: \<open>toISOString\<close>.
  The inbound form (\<open>model/inbound.js\<close>):
    \<^item> \<open>Headers\<close>: \<open>toHeaders\<close> and \<open>toV2Headers\<close>.
    \<^item> \<open>Transports\<close>, \<open>Security_Settings\<close>, \<open>Final_Mask\<close>, \<open>Stream_Settings\<close>: the classes
      below \<open>StreamSettings\<close>, in the order of the source, and \<open>Sniffing\<close>. Each interprets
      the contract on its own reader and writer.
    \<^item> \<open>Clients\<close>, \<open>Protocol_Settings\<close>: the clients (\<open>client_class\<close>, \<open>client_codec\<close>) and
      the settings of the protocols (\<open>settings_class\<close>), whose readers draw random defaults.
    \<^item> \<open>Wireguard\<close>, \<open>Wireguard_Doubles\<close>, \<open>Wireguard_Settings\<close>: the limb arithmetic modulo
      \<open>2^255 - 19\<close> on integers, the same code on doubles, the text form of keys, and the WireGuard inbound.
    \<^item> \<open>Inbound\<close>: the inbound, its operations and the step relation of the form. \<open>Options\<close>: the tables
      of options of both forms.
    \<^item> \<open>Share_Links\<close>, \<open>Link_Facts\<close>: the links an inbound gives to its clients, and what they carry.
    \<^item> \<open>DB_Inbound\<close> (\<open>model/dbinbound.js\<close>): the row of the table an inbound is made of.
  The outbound form (\<open>model/outbound.js\<close>). Its classes are named like those of the inbound; their
  definitions here have the prefix \<open>Out\<close>, and its functions the prefix \<open>out_\<close> or \<open>set_out_\<close>:
    \<^item> \<open>Outbound_Transports\<close>, \<open>Outbound_Stream\<close>, \<open>Outbound_Dns\<close>, \<open>Outbound_Settings\<close>,
      \<open>Outbound_Protocols\<close>, \<open>Outbound_Wireguard\<close>: the parts. \<open>Outbound\<close>: the outbound itself.
    \<^item> \<open>Outbound_Links\<close>: \<open>fromLink\<close> and its readers. \<open>Outbound_Form\<close>: the form as a step relation.
    \<^item> \<open>Vmess_Import\<close>: a VMess link of an inbound, imported.
  The pages:
    \<^item> \<open>Subscription\<close> (\<open>subscription.js\<close>), \<open>WebSocket_Client\<close> (\<open>websocket.js\<close>), \<open>Monitoring\<close>
      (\<open>util/monitoring.js\<close>), \<open>Chain_Registry\<close> (\<open>model/chain.js\<close>), \<open>Tunnel\<close> (\<open>model/tunnel.js\<close>),
      \<open>All_Setting\<close> (\<open>model/setting.js\<close>), \<open>Requests\<close> (\<open>axios-init.js\<close> and the requests sent through it).
  The helpers (\<open>util/index.js\<close>):
    \<^item> \<open>Object_Util\<close>: \<open>ObjectUtil\<close>. \<open>Random_Util\<close>: \<open>RandomUtil\<close> and \<open>Base64\<close>. \<open>Formatters\<close>: sizes,
      times, quotas, colours. \<open>Browser_Util\<close>, \<open>Cookies\<close>, \<open>Page_Util\<close>: what acts on the browser.

  Correspondence. A class is a record with its fields, its constructor the definition with the
  suffix \<open>_new\<close>, its reader and writer those with \<open>_fromJson\<close> and \<open>_toJson\<close>; \<open>None\<close> is a thrown
  \<open>TypeError\<close>. An argument that was not passed is \<open>JUndef\<close>, and \<open>dflt\<close> gives a parameter its
  default. What \<open>crypto.getRandomValues\<close> and \<open>Math.random\<close> yield is an argument of the
  definitions (\<open>client_draw\<close>, \<open>reality_draw\<close>, \<open>inbound_draw\<close>), so every lemma holds for every
  draw. What the browser or a library answers (\<open>URL\<close>, \<open>URLSearchParams\<close>, \<open>atob\<close> and \<open>JSON.parse\<close> of
  a link, \<open>moment\<close>, \<open>axios\<close>, \<open>Qs\<close>, \<open>Intl\<close>) is an argument too; where a property needs more of it, its
  hypothesis says so. Objects are values: the model does not follow aliasing, and the one writer that
  changes its object (the addresses of WireGuard peers) returns the changed object. An assignment of
  the link import to a member no class declares is kept in \<open>os_undeclared\<close>, which nothing writes out.
  The WebSocket client, the Health column and the debounced calls are state machines over the
  sockets, intervals and timeouts of the browser, whose events come in any order.

  What the lemmas show. For every settings class: a well-formedness condition that the reader
  establishes on the documents it is specified for, and that saving is stable under reloading.
  These compose to the inbound and to the outbound. The documents are restricted where the code is
  not stable, and the restriction is the condition \<open>_doc\<close> of the class: a header with several values
  in an object that keeps one, falsy VLESS decryption, zero QUIC windows, peers without a key text.
  For the links: what each builder writes, and that the import of a VLESS and of a VMess link gives
  an outbound to the link's address, with what the link carries of the inbound. For the helpers: their results in full, against the
  standard they follow (RFC 4648, the field of Curve25519, the calendar). For the pages: the
  invariants of their states in all reachable states, and the shape of what they send.

  Bounds and fuel. There is no fuel: recursions are structural or have a measure, and the one loop
  whose end is not evident, the inner loop of the base 32 encoder, is a partial function with its
  termination proved (\<open>base32_drain_ends\<close>). The key arithmetic is on integers, and
  \<open>Wireguard_Doubles\<close> proves that the computation in doubles, with every rounding, is the same; quotas
  are computed in doubles too. The base 32 buffer is a 32-bit word. Numbers of documents are integers, and
  \<open>NaN\<close> is \<open>JNull\<close>, as JSON writes it. Text codecs are for strings of characters below 256.

  Not modelled: the drawing of the subscription page (\<open>renderLink\<close>, \<open>open\<close>, \<open>i18nLabel\<close>), element
  styles and console output, which are the browser's; \<open>PromiseUtil.sleep\<close>, \<open>ObjectUtil.execute\<close> and the
  \<open>toString\<close> of the model classes, which only call their arguments; the exact rounding of doubles
  that are not integers or ratios; the Vue pages, the vendored libraries and the Go back end.
\<close>

section \<open>The inbound form\<close>

text \<open>A small inbound the witnesses below use.\<close>

definition sample_draw :: inbound_draw where
  "sample_draw = \<lparr>in_clients = (\<lambda>i. \<lparr>draw_email = ''a'', draw_subId = ''b'', draw_id = ''c'', draw_password = ''d''\<rparr>),
     in_keys = (\<lambda>i. replicate 32 7), in_reality = \<lparr>draw_shortIds = ''ab'', draw_target = Some 0\<rparr>, in_port = 5\<rparr>"

definition sample_client :: jsval where
  "sample_client = JObj [(''id'', JStr ''u1''), (''email'', JStr ''bob''), (''enable'', JBool True)]"

definition sample_doc :: jsval where
  "sample_doc = JObj [(''port'', JNum 443), (''listen'', JStr []), (''protocol'', JStr ''vmess''),
     (''settings'', JObj [(''clients'', JArr [sample_client])]),
     (''streamSettings'', JObj [(''network'', JStr ''grpc''), (''security'', JStr ''none'')]),
     (''tag'', JStr ''in''), (''sniffing'', JObj [])]"

text \<open>C1: opening an inbound, saving it, and opening and saving what was saved changes nothing,
  whatever the constructors draw in between.\<close>

theorem inbound_open_save_open_save:
  assumes "inbound_doc d j" "Inbound_fromJson d j = Some x" "Inbound_toJson x = Some (s, x')"
  shows "\<exists>y. Inbound_fromJson d' (wire s) = Some y
    \<and> map_option (\<lambda>p. wire (fst p)) (Inbound_toJson y) = Some (wire s)"
  using Inbound_view [OF Inbound_fromJson_ok [OF assms(1,2)] assms(3), of d'] by auto

lemma sample_stream_doc:
  "stream_doc (JObj [(''network'', JStr ''grpc''), (''security'', JStr ''none'')])"
  by code_simp

lemma sample_doc_ok: "inbound_doc sample_draw sample_doc"
  using sample_stream_doc
  by (simp add: inbound_doc_def sample_doc_def sample_draw_def sample_client_def settings_doc_def draw_ok_def)

lemma sample_saved:
  "(case Inbound_fromJson sample_draw sample_doc of None \<Rightarrow> False | Some x \<Rightarrow> Inbound_toJson x \<noteq> None)"
  by code_simp

definition sample_inbound :: Inbound where
  "sample_inbound = the (Inbound_fromJson sample_draw sample_doc)"

definition sample_written :: "jsval \<times> Inbound" where
  "sample_written = the (Inbound_toJson sample_inbound)"

lemma sample_read: "Inbound_fromJson sample_draw sample_doc = Some sample_inbound"
  using sample_saved by (auto simp: sample_inbound_def split: option.splits)

lemma sample_write: "Inbound_toJson sample_inbound = Some sample_written"
  using sample_saved by (auto simp: sample_written_def sample_inbound_def split: option.splits)

lemma inbound_open_save_open_save_witness:
  "\<exists>y. Inbound_fromJson sample_draw (wire (fst sample_written)) = Some y
    \<and> map_option (\<lambda>p. wire (fst p)) (Inbound_toJson y) = Some (wire (fst sample_written))"
  by (rule inbound_open_save_open_save [OF sample_doc_ok sample_read, where x' = "snd sample_written"])
    (simp add: sample_write)

text \<open>C2: whatever the user does with the form, the settings of an inbound are those of its
  protocol, and are absent exactly for a protocol the panel does not know.\<close>

theorem inbound_settings_match_protocol:
  assumes "inbound_reachable x"
  shows "(case ib_settings x of
      Some s \<Rightarrow> ib_protocol x = JStr (protocol_of s)
    | None \<Rightarrow> ib_protocol x \<notin> JStr ` set Protocols)"
  using reachable_wf [OF assms] by (auto simp: Inbound_wf_def settings_match_def split: option.splits)

lemma inbound_settings_match_protocol_witness:
  "(case ib_settings (set_network (JStr ''ws'') sample_inbound) of
      Some s \<Rightarrow> ib_protocol (set_network (JStr ''ws'') sample_inbound) = JStr (protocol_of s)
    | None \<Rightarrow> ib_protocol (set_network (JStr ''ws'') sample_inbound) \<notin> JStr ` set Protocols)"
  by (rule inbound_settings_match_protocol)
    (rule inbound_reachable.step [OF inbound_reachable.load [OF sample_read] inbound_step.network])

text \<open>C7: saved settings of every protocol read back without a draw: the reader returns the same
  object whatever the random generator yields, and that object saves the same document.\<close>

theorem settings_reload_without_draws:
  assumes "Settings_ok s" "Settings_toJson s = Some (j, s')"
  shows "\<exists>t. Settings_fromJson d (JStr (protocol_of s)) (wire j) = Some (Some t)
    \<and> Settings_fromJson d' (JStr (protocol_of s)) (wire j) = Some (Some t)
    \<and> map_option (\<lambda>p. wire (fst p)) (Settings_toJson t) = Some (wire j)"
  using Settings_reload [OF assms] by (auto simp: Settings_reloads_def)

definition sample_tun :: TunSettings where
  "sample_tun = TunSettings_new JUndef (JNum 9000) JUndef JUndef JUndef JUndef JUndef"

lemma sample_tun_ok: "Settings_ok (TunS sample_tun)"
  by (auto simp: sample_tun_def TunSettings_ok_def TunSettings_new_def json_array_def arrayize_def Let_def)

lemma settings_reload_without_draws_witness:
  "\<exists>t. Settings_fromJson sample_draw (JStr ''tun'') (wire (TunSettings_toJson sample_tun)) = Some (Some t)
    \<and> Settings_fromJson (sample_draw\<lparr>in_port := 9\<rparr>) (JStr ''tun'') (wire (TunSettings_toJson sample_tun)) = Some (Some t)
    \<and> map_option (\<lambda>p. wire (fst p)) (Settings_toJson t) = Some (wire (TunSettings_toJson sample_tun))"
  using settings_reload_without_draws [OF sample_tun_ok, of "TunSettings_toJson sample_tun" "TunS sample_tun"
    sample_draw "sample_draw\<lparr>in_port := 9\<rparr>"] by simp

section \<open>Keys\<close>

text \<open>C8: the limb multiplication of the key code is multiplication modulo \<open>2^255 - 19\<close>, for every
  pair of limb vectors.\<close>

theorem multmod_is_field_product:
  "limbs_val (multmod a b) mod p25519 = limbs_val a * limbs_val b mod p25519"
  using multmod_val [of a b] by (simp add: cong_p_def)

text \<open>C9: the inversion loop raises to the power \<open>p - 2\<close>.\<close>

theorem invert_is_field_inverse_power:
  "limbs_val (invert a) mod p25519 = limbs_val a ^ nat (p25519 - 2) mod p25519"
proof -
  have "nat (p25519 - 2) = 2 ^ 255 - 21"
    by (simp add: p25519_def nat_diff_distrib)
  then show ?thesis using invert_val [of a] by (simp only: cong_p_def)
qed

text \<open>C10: a drawn private key is the same key after it has been written as text and read back, and
  gives the same public key.\<close>

theorem drawn_keypair_survives_text:
  assumes "length fresh = 32" "list_all is_byte fresh" "generateKeypair fresh [] = Some kp"
  shows "generateKeypair fresh' (kp_privateKey kp) = Some kp
    \<and> keyFromBase64 (kp_privateKey kp) = Some (clamp fresh)"
  using keypair_again [OF assms(1) _ assms(3)] key_text_roundtrip [of "clamp fresh"] clamp_bytes [of fresh]
    assms(1-3) by (auto simp: list_all_iff generateKeypair_def generatePrivateKey_def)

definition sample_fresh :: "int list" where
  "sample_fresh = replicate 32 201"

lemma drawn_keypair_survives_text_witness:
  "\<exists>kp. generateKeypair sample_fresh [] = Some kp
    \<and> generateKeypair [] (kp_privateKey kp) = Some kp
    \<and> keyFromBase64 (kp_privateKey kp) = Some (clamp sample_fresh)"
proof -
  obtain kp where kp: "generateKeypair sample_fresh [] = Some kp" by (simp add: generateKeypair_def)
  then show ?thesis
    using drawn_keypair_survives_text [OF _ _ kp, of "[]"]
    by (simp add: sample_fresh_def is_byte_def list_all_iff)
qed

text \<open>C11: the code keeps the limbs in doubles. A public key computed with every sum, difference and
  product rounded to the nearest double is the one the integers give, for every private key: in the whole
  ladder, the inversion and the packing no rounding happens.\<close>

theorem public_key_exact_in_doubles: "fl_generatePublicKey privateKey = generatePublicKey privateKey"
  by (rule fl_generatePublicKey_eq)

section \<open>Random values\<close>

text \<open>C12: the base 32 encoder, whose 32-bit buffer is never cleared, computes the encoding of
  RFC 4648 without padding.\<close>

theorem base32_is_rfc4648: "randomBase32String array = Some (base32_spec array)"
  by (rule base32_correct)

text \<open>C13: the loop that takes five bits at a time from the buffer ends from every state, with less than
  five bits left and one character for each five it took.\<close>

theorem base32_drain_ends:
  "\<exists>s. base32_drain buffer bits result = Some (bits mod 5, result @ s) \<and> length s = bits div 5"
  using base32_drain_quintets [of buffer bits result "[]"] by blast

text \<open>C14: a random port or index is within its bounds, and every value within them can be drawn.\<close>

theorem randomInteger_exact_range:
  assumes "lo \<le> hi" "hi - lo < 2 ^ 32"
  shows "range (randomInteger lo hi) = {lo..hi}"
  using randomInteger_range [OF assms(1)] randomInteger_onto [OF _ _ assms(2)] by force

lemma randomInteger_exact_range_witness: "range (randomInteger 10000 60000) = {10000..60000}"
  by (rule randomInteger_exact_range) simp_all

text \<open>C16: an identifier made without the browser's generator has the shape of a version 4 UUID,
  whatever bytes are drawn.\<close>

theorem uuid_is_version_4:
  "protocol \<noteq> ''https:'' \<Longrightarrow>
   template_fits ''xxxxxxxx-xxxx-4xxx-yxxx-xxxxxxxxxxxx'' (randomUUID protocol native bs)"
  using fill_template_fits [of uuid_template bs] by (simp only: randomUUID_def uuid_template_def if_False)

lemma uuid_is_version_4_witness:
  "template_fits ''xxxxxxxx-xxxx-4xxx-yxxx-xxxxxxxxxxxx'' (randomUUID ''http:'' [] (replicate 31 255))"
  by (rule uuid_is_version_4) simp

text \<open>The short ids of a new REALITY inbound are eight hexadecimal strings of the eight even
  lengths up to 16.\<close>

lemma short_ids_shape:
  assumes "mset lengths = mset [2, 4, 6, 8, 10, 12, 14, 16]" "list_all (\<lambda>i. 16 \<le> length (draw i)) [0..<8]"
  shows "mset (map length (js_split (CHR '','') (randomShortIds lengths draw))) = mset [2, 4, 6, 8, 10, 12, 14, 16]
    \<and> list_all (\<lambda>s. set s \<subseteq> set ''0123456789abcdef'') (js_split (CHR '','') (randomShortIds lengths draw))"
proof -
  have "\<forall>i<8. 16 \<le> length (draw i)" using assms(2) by (simp add: list_all_iff)
  from randomShortIds_shape [OF assms(1) this] show ?thesis
    by (elim exE conjE) (simp only: list_all_iff simp_thms)
qed

lemma short_ids_shape_witness:
  "mset (map length (js_split (CHR '','') (randomShortIds [16, 2, 4, 6, 8, 10, 12, 14] (\<lambda>i. replicate 16 77))))
     = mset [2, 4, 6, 8, 10, 12, 14, 16]
   \<and> list_all (\<lambda>s. set s \<subseteq> set ''0123456789abcdef'')
       (js_split (CHR '','') (randomShortIds [16, 2, 4, 6, 8, 10, 12, 14] (\<lambda>i. replicate 16 77)))"
  by (rule short_ids_shape) (simp_all add: list_all_iff)

section \<open>Headers\<close>

text \<open>C18: writing a header list throws exactly if a usable header has the name of a property every
  object inherits; otherwise every name has its values, in the order of the form.\<close>

theorem headers_grouped_or_thrown:
  "(case toV2Headers hs True of
      None \<Rightarrow> list_ex (\<lambda>h. usable h \<and> js_str (hname h) \<in> set prototype_names) hs
    | Some v \<Rightarrow> \<not> list_ex (\<lambda>h. usable h \<and> js_str (hname h) \<in> set prototype_names) hs
        \<and> mget v n = (if values_of n hs = [] then JUndef else JArr (values_of n hs)))"
proof (cases "v2_loop True [] hs")
  case None
  then show ?thesis using v2_loop_throws [of "[]" hs] by (auto simp: toV2Headers_def list_ex_iff)
next
  case (Some w)
  then show ?thesis using v2_loop_throws [of "[]" hs] v2_loop_values [of "[]" hs w n]
    by (auto simp: toV2Headers_def list_ex_iff)
qed

section \<open>Clients and settings\<close>

text \<open>C19: a quota is typed in gigabytes, as any double below \<open>2 ^ 18\<close>, and kept in whole bytes. What the
  form shows then is the double nearest to a number of hundredths: as many as the typed number has, if the
  first whole byte of the last of them is within the typed number, and one less otherwise. In particular a typed number
  of hundredths is shown again exactly if it is a multiple of a quarter, and a hundredth less otherwise.\<close>

theorem quota_shown_after_typing:
  fixes gb :: rat
  assumes "is_double gb" "0 \<le> gb" "gb < 2 ^ 18"
  shows "quota_get (quota_set gb) = to_double (of_int (let h = \<lfloor>gb * 100\<rfloor>
      in if of_int \<lceil>of_int h * 2 ^ 30 / 100 :: rat\<rceil> \<le> gb * 2 ^ 30 then h else h - 1) / 100)
    \<and> (\<forall>g. gb = to_double (of_int g / 100) \<longrightarrow>
        quota_get (quota_set gb) = to_double (of_int (if 25 dvd g then g else g - 1) / 100))"
proof -
  note bytes = quota_set_bytes [OF assms]
  have shown: "quota_get (quota_set gb) = to_double (of_int (100 * \<lfloor>gb * 2 ^ 30\<rfloor> div 2 ^ 30) / 100)"
    unfolding bytes(1) by (rule quota_get_hundredths [OF bytes(2,3)])
  show ?thesis
    using typed_hundredths [OF _ assms(2,3)] unfolding shown quota_hundredths [of gb] Let_def by presburger
qed

lemma quota_shown_after_typing_witness: "quota_get (quota_set (1 / 8)) = to_double (12 / 100)"
proof -
  have "is_double (1 / 8)" using to_double_exact [of 1 "- 3"] by (simp add: is_double_def power_int_def power_divide)
  moreover have "\<lfloor>(1 / 8) * 100 :: rat\<rfloor> = 12" "\<lceil>of_int 12 * 2 ^ 30 / 100 :: rat\<rceil> = 128849019"
    by (simp_all add: floor_eq_iff ceiling_eq_iff)
  ultimately show ?thesis using quota_shown_after_typing [of "1 / 8"] by simp
qed

text \<open>The maximum transmission units of a TUN inbound are normalised once: the result is a pair
  of nonzero numbers and normalising it again changes nothing.\<close>

lemma normalizeMtu_normal_form:
  "(case normalizeMtu v of JArr [JNum a, JNum b] \<Rightarrow> a \<noteq> 0 \<and> b \<noteq> 0 | _ \<Rightarrow> False)
   \<and> normalizeMtu (normalizeMtu v) = normalizeMtu v"
  using normalizeMtu_shape [of v] normalizeMtu_idem [of v] by auto

text \<open>C20: adding a VMess client keeps the ids distinct, and deleting one removes the client with its
  id and no other.\<close>

theorem vmess_clients_by_id:
  assumes "distinct (map vmess_id (vs_vmesses s))"
  shows "distinct (map vmess_id (vs_vmesses (addVmess s v)))
    \<and> vs_vmesses (delVmess s v) = filter (\<lambda>w. vmess_id w \<noteq> vmess_id v) (vs_vmesses s)"
proof -
  let ?p = "\<lambda>w. vmess_id w = vmess_id v"
  let ?i = "find_index ?p (vs_vmesses s)"
  have add: "distinct (map vmess_id (vs_vmesses (addVmess s v)))"
    using assms find_index_neg [of ?p "vs_vmesses s"] by (auto simp: addVmess_def indexOfVmessById_def)
  show ?thesis
  proof (cases "?i < 0")
    case True
    then have "filter (\<lambda>w. vmess_id w \<noteq> vmess_id v) (vs_vmesses s) = vs_vmesses s"
      using find_index_neg [of ?p] by (intro filter_True) auto
    with True add show ?thesis by (simp add: delVmess_def indexOfVmessById_def Let_def)
  next
    case False
    then have i: "nat ?i < length (vs_vmesses s)" "0 \<le> ?i"
      using find_index_range [of ?p "vs_vmesses s"] by auto
    with find_index_hit [of ?p "vs_vmesses s"] splice_unique [OF assms i(1)] add show ?thesis
      by (simp add: delVmess_def indexOfVmessById_def Let_def splice1_def)
  qed
qed

definition sample_vmess :: "string \<Rightarrow> VMESS" where
  "sample_vmess i = VMESS_new (in_clients sample_draw 0) (JStr i) JUndef []"

lemma vmess_clients_by_id_witness:
  "distinct (map vmess_id (vs_vmesses (addVmess \<lparr>vs_vmesses = [sample_vmess ''a'', sample_vmess ''b'']\<rparr> (sample_vmess ''b''))))
   \<and> vs_vmesses (delVmess \<lparr>vs_vmesses = [sample_vmess ''a'', sample_vmess ''b'']\<rparr> (sample_vmess ''b''))
     = filter (\<lambda>w. vmess_id w \<noteq> vmess_id (sample_vmess ''b'')) [sample_vmess ''a'', sample_vmess ''b'']"
  using vmess_clients_by_id [of "\<lparr>vs_vmesses = [sample_vmess ''a'', sample_vmess ''b'']\<rparr>" "sample_vmess ''b''"]
  by (simp add: sample_vmess_def VMESS_class_defs dflt_def)

text \<open>C21: how a whole number of bytes is printed. None, or a negative number, is \<open>0 B\<close>; below one kilobyte
  the number itself is printed; from there on it is in the largest unit it fills, within half a hundredth of that unit,
  and the printed number is at least 1.00, and at most 1024.00 below one petabyte. The numbers from \<open>10 ^ 21\<close> petabytes
  on, which \<open>toFixed\<close> prints with an exponent, are left out.\<close>

theorem sizeFormat_accuracy:
  assumes "n < 10 ^ 21 * ONE_PB"
  shows "if n \<le> 0 then sizeFormat n = ''0 B''
    else if n < ONE_KB then sizeFormat n = int_str n @ '' B''
    else \<exists>m u. sizeFormat n = decimal 2 m @ '' '' @ snd (size_unit n) \<and> u = fst (size_unit n)
      \<and> 2 * \<bar>m * u - n * 100\<bar> \<le> u \<and> 100 \<le> m \<and> u \<le> n \<and> (n < ONE_PB \<longrightarrow> m \<le> 102400 \<and> n < 1024 * u)"
proof (cases "n < ONE_KB")
  case True
  then show ?thesis using sizeFormat_bytes [of n] by (simp add: sizeFormat_def)
next
  case False
  then have n: "ONE_KB \<le> n" "\<not> n \<le> 0" by (simp_all add: size_units)
  let ?u = "fst (size_unit n)"
  show ?thesis
    using sizeFormat_unit [OF n(1)] size_unit_bounds [OF n(1)] size_mantissa [OF n(1)] False n(2)
      round_div_error [of ?u "n * 100"]
    by (simp only: if_False) (intro exI [of _ "round_div (n * 100) ?u"] exI [of _ ?u], simp)
qed

lemma sizeFormat_accuracy_witness:
  "\<exists>m u. sizeFormat 1048575 = decimal 2 m @ '' '' @ snd (size_unit 1048575) \<and> u = fst (size_unit 1048575)
    \<and> 2 * \<bar>m * u - 1048575 * 100\<bar> \<le> u \<and> 100 \<le> m \<and> m \<le> 102400"
proof -
  have "(1048575 :: int) < 10 ^ 21 * ONE_PB" by (simp add: size_units)
  from sizeFormat_accuracy [OF this] show ?thesis by (simp add: size_units) blast
qed

section \<open>Share links\<close>

text \<open>C22: the parameters of a VLESS link. No parameter is set twice; the network and the encryption
  are the inbound's; the security is TLS, REALITY or none; a flow is given exactly on TCP with TLS or
  REALITY; and the final masks are given exactly if their document has a value in it.\<close>

theorem vless_link_parameters:
  assumes "vless_params br this forceTls flow = Some ps"
  shows "distinct (map fst ps) \<and> oget ps ''type'' = ss_network (ib_stream this)
    \<and> Some (oget ps ''encryption'') = settings_encryption (ib_settings this)
    \<and> oget ps ''security'' = JStr (security_name (chosen_security forceTls this))
    \<and> oget ps ''flow'' =
      (if loosely (ss_network (ib_stream this)) ''tcp'' \<and> \<not> isEmpty flow
        \<and> (chosen_security forceTls this = JStr ''reality''
          \<or> chosen_security forceTls this = JStr ''tls'' \<and> isTls (ib_stream this))
       then flow else JUndef)
    \<and> (let doc = FinalMaskStreamSettings_toJson (ss_finalmask (ib_stream this)) in
       oget ps ''fm'' = (if list_ex (\<lambda>x. \<not> isEmpty x) (leaves doc) then JStr (stringify doc) else JUndef))"
proof (intro conjI)
  show "let doc = FinalMaskStreamSettings_toJson (ss_finalmask (ib_stream this)) in
       oget ps ''fm'' = (if list_ex (\<lambda>x. \<not> isEmpty x) (leaves doc) then JStr (stringify doc) else JUndef)"
    using vless_common(5) [OF assms] serializeFinalMask_text [of "ss_finalmask (ib_stream this)"]
    by (simp only: Let_def)
qed (rule vless_common [OF assms])+

definition sample_browser :: browser where
  "sample_browser = \<lparr>br_hostname = ''h'', br_hiddifyCompat = False, br_btoa = (\<lambda>s. s), br_ipv4 = [],
     br_url = (\<lambda>link user ps hash. Some (link @ ''#'' @ hash))\<rparr>"

definition sample_vless_doc :: jsval where
  "sample_vless_doc = JObj [(''port'', JNum 443), (''protocol'', JStr ''vless''),
     (''settings'', JObj [(''clients'', JArr [JObj [(''id'', JStr ''u1''), (''email'', JStr ''bob'')]]),
        (''decryption'', JStr ''none''), (''encryption'', JStr ''none'')]),
     (''streamSettings'', JObj [(''network'', JStr ''tcp''), (''security'', JStr ''tls'')])]"

lemma sample_vless_saved:
  "(case Inbound_fromJson sample_draw sample_vless_doc of None \<Rightarrow> False
     | Some x \<Rightarrow> vless_params sample_browser x (JStr ''same'') (JStr ''v'') \<noteq> None
         \<and> genAllLinks sample_browser x ''r'' ''-ie'' (Inbound_clients x \<bind> (\<lambda>cs. Some (hd cs))) \<noteq> None
         \<and> isArrEmpty (ss_externalProxy (ib_stream x)))"
  by code_simp

definition sample_vless :: Inbound where
  "sample_vless = the (Inbound_fromJson sample_draw sample_vless_doc)"

definition sample_vless_client :: "Client option" where
  "sample_vless_client = Inbound_clients sample_vless \<bind> (\<lambda>cs. Some (hd cs))"

lemma sample_vless_links:
  "vless_params sample_browser sample_vless (JStr ''same'') (JStr ''v'')
     = Some (the (vless_params sample_browser sample_vless (JStr ''same'') (JStr ''v'')))"
  "genAllLinks sample_browser sample_vless ''r'' ''-ie'' sample_vless_client
     = Some (the (genAllLinks sample_browser sample_vless ''r'' ''-ie'' sample_vless_client))"
  "isArrEmpty (ss_externalProxy (ib_stream sample_vless))"
  using sample_vless_saved by (auto simp: sample_vless_def sample_vless_client_def split: option.splits)

lemma vless_link_parameters_witness:
  "\<exists>ps. vless_params sample_browser sample_vless (JStr ''same'') (JStr ''v'') = Some ps
    \<and> distinct (map fst ps) \<and> oget ps ''type'' = ss_network (ib_stream sample_vless)"
  using vless_link_parameters [OF sample_vless_links(1)] sample_vless_links(1) by blast

text \<open>The two encodings of the xhttp padding, the members of a VMess object and the JSON
  parameter of the other links, carry the same values.\<close>

lemma xhttp_padding_encodings_agree:
  "map (oget (applyXhttpPaddingToObj xhttp []))
     [''x_padding_bytes'', ''xPaddingObfsMode'', ''xPaddingKey'', ''xPaddingHeader'', ''xPaddingPlacement'', ''xPaddingMethod'']
   = map (oget (padding_extra xhttp))
     [''xPaddingBytes'', ''xPaddingObfsMode'', ''xPaddingKey'', ''xPaddingHeader'', ''xPaddingPlacement'', ''xPaddingMethod'']
   \<and> oget (applyXhttpPaddingToParams xhttp []) ''x_padding_bytes'' = oget (padding_extra xhttp) ''xPaddingBytes''
   \<and> oget (applyXhttpPaddingToParams xhttp []) ''extra'' =
     (if padding_extra xhttp = [] then JUndef else JStr (stringify (JObj (padding_extra xhttp))))"
  by (simp add: padding_obj padding_bytes padding_param)

text \<open>C24: an inbound without external proxies has one link, to its public port, or else the port it listens on,
  at the address it listens on, or the host of the page if that is missing, a wildcard or a loopback address; otherwise it
  has one link per external proxy, in their order, each to the proxy's address and port.\<close>

theorem links_per_endpoint:
  assumes "genAllLinks br this remark model c = Some ls"
  shows "if isArrEmpty (ss_externalProxy (ib_stream this))
    then (\<exists>l. ls = [l] \<and> genLink br this
        (if isEmpty (ib_listen this) \<or> ib_listen this \<in> {JStr ''0.0.0.0'', JStr ''::'', JStr ''::0'', JStr ''127.0.0.1'',
            JStr ''::1'', JStr ''localhost''} then JStr (br_hostname br) else ib_listen this)
        (if gt0 (ib_publicPort this) then ib_publicPort this else ib_port this)
        (JStr ''same'') (sl_remark l) c = Some (sl_link l))
    else (\<exists>eps. ss_externalProxy (ib_stream this) = JArr eps \<and> length ls = length eps
      \<and> map (\<lambda>l. Some (sl_link l)) ls = map (\<lambda>i. genLink br this (mget (eps ! i) ''dest'') (mget (eps ! i) ''port'')
          (mget (eps ! i) ''forceTls'') (sl_remark (ls ! i)) c) [0..<length eps])"
proof (cases "isArrEmpty (ss_externalProxy (ib_stream this))")
  case True
  obtain r link where l: "ls = [\<lparr>sl_remark = r, sl_link = link\<rparr>]"
    "genLink br this (linkAddress (br_hostname br) this) (linkPort this) (JStr ''same'') r c = Some link"
    using genAllLinks_one [OF True assms] by blast
  show ?thesis unfolding if_P [OF True]
    by (rule exI [of _ "\<lparr>sl_remark = r, sl_link = link\<rparr>"], unfold share_link.select_convs, rule conjI)
      (rule l(1), rule l(2) [unfolded linkAddress_spelled linkPort_def])
next
  case False
  obtain eps where eps: "ss_externalProxy (ib_stream this) = JArr eps" "length ls = length eps"
    "\<forall>i < length eps. genLink br this (mget (eps ! i) ''dest'') (mget (eps ! i) ''port'')
      (mget (eps ! i) ''forceTls'') (sl_remark (ls ! i)) c = Some (sl_link (ls ! i))"
    using genAllLinks_external [OF False assms] by blast
  then have "map (\<lambda>l. Some (sl_link l)) ls = map (\<lambda>i. genLink br this (mget (eps ! i) ''dest'')
      (mget (eps ! i) ''port'') (mget (eps ! i) ''forceTls'') (sl_remark (ls ! i)) c) [0..<length eps]"
    by (intro nth_equalityI) simp_all
  with False eps(1,2) show ?thesis by (simp only: if_False) blast
qed

lemma links_per_endpoint_witness:
  "\<exists>l address port. genAllLinks sample_browser sample_vless ''r'' ''-ie'' sample_vless_client = Some [l]
    \<and> genLink sample_browser sample_vless address port (JStr ''same'') (sl_remark l) sample_vless_client = Some (sl_link l)"
proof -
  let ?ls = "the (genAllLinks sample_browser sample_vless ''r'' ''-ie'' sample_vless_client)"
  obtain l address port where l: "?ls = [l]"
    "genLink sample_browser sample_vless address port (JStr ''same'') (sl_remark l) sample_vless_client = Some (sl_link l)"
    using links_per_endpoint [OF sample_vless_links(2)] unfolding if_P [OF sample_vless_links(3)] by blast
  from sample_vless_links(2) [unfolded l(1)] l(2) show ?thesis by blast
qed

text \<open>The remark of a proxy link comes back from its text: it is what follows the last number
  sign, decoded, whatever characters it has.\<close>

lemma proxy_link_remark_recovered:
  assumes "remark \<noteq> []"
  shows "decodeURIComponent (last (js_split (CHR ''#'') (genProxyLink br this scheme address port remark c)))
    = Some remark"
  by (rule proxy_remark [OF assms])

lemma proxy_link_remark_recovered_witness:
  "decodeURIComponent (last (js_split (CHR ''#'') (genProxyLink sample_browser sample_vless ''socks'' JUndef JUndef ''a#b/c'' None)))
    = Some ''a#b/c''"
  by (rule proxy_link_remark_recovered) simp

section \<open>Live updates\<close>

text \<open>C25: whatever happens, the client waits for at most one retry, and only while it wants a
  connection; the delay is between three quarters of a second and seventy-five seconds, and at most
  ten attempts are counted.\<close>

theorem websocket_single_retry:
  assumes "ws_reachable loc p"
  shows "(case timeouts p of
      [] \<Rightarrow> reconnectTimer (client p) = None
    | [(t, d)] \<Rightarrow> reconnectTimer (client p) = Some t \<and> shouldReconnect (client p) \<and> 750 \<le> d \<and> d \<le> 75000
    | _ \<Rightarrow> False)
    \<and> 0 \<le> reconnectAttempts (client p) \<and> reconnectAttempts (client p) \<le> 10"
  using reachable_inv [OF assms]
  by (auto simp: ws_inv_def timer_ok_def attempts_ok_def split: option.splits list.splits)

definition lost_connection :: "ws_event list" where
  "lost_connection = [Connect sure, Opened 0, Closed 0 sure]"

lemma lost_connection_run:
  "(case run here lost_connection (new_page ''/'') of None \<Rightarrow> False
     | Some p \<Rightarrow> timeouts p \<noteq> [] \<and> shouldReconnect (client p) \<and> live_sockets p = 0)"
  by code_simp

definition waiting_page :: page where
  "waiting_page = the (run here lost_connection (new_page ''/''))"

lemma waiting_page_run: "run here lost_connection (new_page ''/'') = Some waiting_page"
  using lost_connection_run by (auto simp: waiting_page_def split: option.splits)

lemma waiting_page_reachable: "ws_reachable here waiting_page"
  by (rule run_reachable [OF ws_reachable.start _ waiting_page_run]) (simp add: lost_connection_def)

lemma websocket_single_retry_witness:
  "\<exists>t d. timeouts waiting_page = [(t, d)] \<and> 750 \<le> d \<and> d \<le> 75000"
proof (cases "timeouts waiting_page" rule: remdups_adj.cases)
  case 1
  then show ?thesis using lost_connection_run waiting_page_run by simp
qed (use websocket_single_retry [OF waiting_page_reachable] in \<open>auto split: prod.splits\<close>)

text \<open>C26: once \<open>connect\<close> was called, a client that still wants a connection has a socket that is not
  closed or waits for a retry, whatever happened since.\<close>

theorem websocket_never_stuck:
  assumes "ws_reachable loc p" "attempt_ok a" "list_all event_ok es"
    and "run loc es (connect loc a p) = Some q" "shouldReconnect (client q)"
  shows "(\<exists>i. ws (client q) = Some i \<and> state_of q i \<noteq> CLOSED) \<or> (\<exists>t d. timeouts q = [(t, d)])"
proof -
  have "ws_inv q"
    by (rule run_inv [OF connect_inv [OF reachable_inv [OF assms(1)] assms(2)] assms(3,4)])
  moreover have "awake q" by (rule run_awake [OF connect_awake assms(4)])
  ultimately show ?thesis
    using assms(5) by (auto simp: ws_inv_def awake_def timer_ok_def split: option.splits)
qed

lemma websocket_never_stuck_witness:
  "(\<exists>i. ws (client waiting_page) = Some i \<and> state_of waiting_page i \<noteq> CLOSED)
    \<or> (\<exists>t d. timeouts waiting_page = [(t, d)])"
proof (rule websocket_never_stuck [of here "new_page ''/''" sure "[Opened 0, Closed 0 sure]"])
  show "run here [Opened 0, Closed 0 sure] (connect here sure (new_page ''/'')) = Some waiting_page"
    using waiting_page_run by (simp add: lost_connection_def)
  show "shouldReconnect (client waiting_page)"
    using lost_connection_run waiting_page_run by simp
qed (simp_all add: ws_reachable.start)

text \<open>C27: if \<open>connect\<close> is only called when it has nothing to do or every earlier socket has finished
  closing, there is never more than one socket that is not closed, and the client calls itself
  connected only while the socket it holds is open or closing.\<close>

theorem websocket_single_socket:
  assumes "list_all event_ok es" "patient_run loc es (new_page path)" "run loc es (new_page path) = Some p"
  shows "live_sockets p \<le> 1
    \<and> (isConnected (client p) \<longrightarrow> (\<exists>i. ws (client p) = Some i \<and> state_of p i \<in> {OPEN, CLOSING}))"
  using run_one [OF new_page_one new_page_inv assms] one_socket_count by (auto simp: one_socket_def)

lemma lost_connection_patient: "patient_run here lost_connection (new_page ''/'')"
  by code_simp

lemma websocket_single_socket_witness: "live_sockets waiting_page \<le> 1"
proof -
  have "list_all event_ok lost_connection" by (simp add: lost_connection_def)
  from websocket_single_socket [OF this lost_connection_patient waiting_page_run] show ?thesis by simp
qed

text \<open>C28: without that care the promise of \<open>connect\<close> fails. From every reachable state with a socket that
  connects or is open: if \<open>connect\<close> is called right after \<open>disconnect\<close>, the end of the old socket takes the new one away
  from the client, which then holds no socket although it calls itself connected and the new socket is open; and the retry it
  has started opens one more, so that two sockets are open.\<close>

theorem websocket_stale_close:
  assumes "ws_reachable loc p" "ws (client p) = Some i" "state_of p i \<in> {CONNECTING, OPEN}"
    and "at_constructed a" "at_constructed c"
  shows "\<exists>q t r. run loc [Disconnect, Connect a, Closed i b, Opened (length (sockets p))] p = Some q
    \<and> isConnected (client q) \<and> ws (client q) = None \<and> state_of q (length (sockets p)) = OPEN
    \<and> run loc [Fired t c, Opened (length (sockets q))] q = Some r
    \<and> length (sockets p) \<noteq> length (sockets q)
    \<and> state_of r (length (sockets p)) = OPEN \<and> state_of r (length (sockets q)) = OPEN"
proof -
  obtain q t where q: "run loc [Disconnect, Connect a, Closed i b, Opened (length (sockets p))] p = Some q"
    "isConnected (client q)" "ws (client q) = None" "state_of q (length (sockets p)) = OPEN"
    "length (sockets q) = Suc (length (sockets p))" "t \<in> fst ` set (timeouts q)"
    by (rule stale_close_run [OF reachable_inv [OF assms(1)] assms(2-4), where loc = loc and b = b])
  moreover obtain r where "run loc [Fired t c, Opened (length (sockets q))] q = Some r"
    "state_of r (length (sockets p)) = OPEN" "state_of r (length (sockets q)) = OPEN"
    using retry_run [OF q(6) assms(5) _ q(4), of loc] q(5) by auto
  ultimately show ?thesis by (metis n_not_Suc_n)
qed

definition open_page :: page where
  "open_page = the (run here [Connect sure, Opened 0] (new_page ''/''))"

lemma case_the: "(case x of None \<Rightarrow> False | Some p \<Rightarrow> P p) \<Longrightarrow> x = Some (the x) \<and> P (the x)"
  by (cases x) simp_all

lemma open_page_facts: "run here [Connect sure, Opened 0] (new_page ''/'') = Some open_page"
  "ws (client open_page) = Some 0" "state_of open_page 0 = OPEN"
proof -
  have "case run here [Connect sure, Opened 0] (new_page ''/'') of None \<Rightarrow> False
      | Some p \<Rightarrow> ws (client p) = Some 0 \<and> state_of p 0 = OPEN" by code_simp
  note case_the [OF this, folded open_page_def]
  then show "run here [Connect sure, Opened 0] (new_page ''/'') = Some open_page"
    "ws (client open_page) = Some 0" "state_of open_page 0 = OPEN" by blast+
qed

lemma websocket_stale_close_witness:
  "\<exists>q. run here [Disconnect, Connect sure, Closed 0 sure, Opened (length (sockets open_page))] open_page = Some q
    \<and> isConnected (client q) \<and> ws (client q) = None"
proof -
  have "ws_reachable here open_page"
    by (rule run_reachable [OF ws_reachable.start _ open_page_facts(1)]) simp
  moreover have "at_constructed sure" by (simp add: sure_def)
  ultimately show ?thesis
    using websocket_stale_close [of here open_page 0 sure sure sure] open_page_facts(2,3) by blast
qed

text \<open>C29: whatever happened before on a new page, a callback is called once by an event if it was registered
  for it with \<open>on\<close> and not removed with \<open>off\<close> since, however often it was registered, and not at all otherwise; a
  message of the server calls the callbacks of its type with its payload and time, and those of \<open>message\<close> with all of it.\<close>

theorem websocket_callbacks_once:
  assumes "run loc es (new_page path) = Some p"
  shows "(\<forall>e args b. calls_to e b (new_calls p (emit e args p))
      = (if subscribed_after es e b then [\<lparr>call_event = e, call_callback = b, call_args = args\<rparr>] else []))
    \<and> (\<forall>i data ps t q b. length (utf8 data) \<le> MAX_PAYLOAD_BYTES \<and> oget ps ''type'' = JStr t \<and> t \<noteq> ''message''
        \<and> happen loc (Received i (Text data (Some (JObj ps)))) p = Some q \<longrightarrow>
      calls_to t b (new_calls p q) = (if subscribed_after es t b
        then [\<lparr>call_event = t, call_callback = b, call_args = [oget ps ''payload'', oget ps ''time'']\<rparr>] else [])
      \<and> calls_to ''message'' b (new_calls p q) = (if subscribed_after es ''message'' b
        then [\<lparr>call_event = ''message'', call_callback = b, call_args = [JObj ps]\<rparr>] else []))"
  using emitted_once [OF assms] message_calls [OF assms] by blast

definition listening_page :: page where
  "listening_page = the (run here [On ''status'' 5, On ''status'' 6, On ''status'' 5] (new_page ''/''))"

lemma websocket_callbacks_once_witness:
  "calls_to ''status'' 5 (new_calls listening_page (emit ''status'' [JNull] listening_page))
    = [\<lparr>call_event = ''status'', call_callback = 5, call_args = [JNull]\<rparr>]"
proof -
  let ?es = "[On ''status'' 5, On ''status'' 6, On ''status'' 5]"
  have "run here ?es (new_page ''/'') = Some listening_page" by (simp add: listening_page_def)
  moreover have "subscribed_after ?es ''status'' 5"
    unfolding subscribed_after_def by (rule exI [of _ "[On ''status'' 5, On ''status'' 6]"]) simp
  ultimately show ?thesis using websocket_callbacks_once [of here ?es "''/''" listening_page] by presburger
qed

section \<open>Monitoring\<close>

text \<open>C30: the badge of an inbound is the worst state of its targets: one of them, with none of them
  ranked worse, and empty exactly if no target has a ranked state.\<close>

theorem worst_state_is_least:
  "(worst states = [] \<longleftrightarrow> set states \<inter> JStr ` set RANK = {})
   \<and> (worst states \<noteq> [] \<longrightarrow> (\<exists>i < length RANK. worst states = RANK ! i \<and> JStr (RANK ! i) \<in> set states
     \<and> (\<forall>j < i. JStr (RANK ! j) \<notin> set states)))"
  using worst_none [of states] worst_some [of states] by blast

lemma worst_state_is_least_witness:
  "\<exists>i < length RANK. worst [JStr ''UP'', JStr ''FLAPPING'', JStr ''UNKNOWN''] = RANK ! i
    \<and> (\<forall>j < i. JStr (RANK ! j) \<notin> set [JStr ''UP'', JStr ''FLAPPING'', JStr ''UNKNOWN''])"
proof -
  have "worst [JStr ''UP'', JStr ''FLAPPING'', JStr ''UNKNOWN''] \<noteq> []" by code_simp
  with worst_state_is_least [of "[JStr ''UP'', JStr ''FLAPPING'', JStr ''UNKNOWN'']"] show ?thesis by blast
qed

text \<open>C31: the page never polls twice: the only interval of the browser is the one the page holds, and
  after a stop there is none.\<close>

theorem health_poll_single_interval:
  assumes "mon_reachable p"
  shows "intervals p = (case monPollTimer p of None \<Rightarrow> [] | Some t \<Rightarrow> [t])
    \<and> intervals (stopMonHealthPoll p) = [] \<and> length (intervals (startMonHealthPoll p)) = 1"
  using reachable_poll [OF assms] stop_poll [of p] start_poll [of p]
  by (simp add: poll_ok_def startMonHealthPoll_def Let_def)

lemma polling_reachable: "mon_reachable (startMonHealthPoll (startMonHealthPoll mon_page_new))"
  by (rule mon_reachable.step [OF mon_reachable.step [OF mon_reachable.init mon_step.start] mon_step.start])

lemma health_poll_single_interval_witness:
  "length (intervals (startMonHealthPoll (startMonHealthPoll (startMonHealthPoll mon_page_new)))) = 1"
  using health_poll_single_interval [OF polling_reachable] by blast

text \<open>A request that fails, for whatever reason, makes every row show that nothing is known; no
  row counts as down.\<close>

lemma failed_poll_shows_nothing:
  "\<exists>q. loadMonHealth (Monitoring.Rejected e) p = Some q
    \<and> monHealthClass q ib = ''mon-state mon-state-none'' \<and> \<not> monIsDown q ib"
proof -
  have f: "\<not> truthy (mget (mon_request (Monitoring.Rejected e)) ''success'')" by (simp add: rejected_fails)
  then obtain q where "loadMonHealth (Monitoring.Rejected e) p = Some q" by (simp add: loadMonHealth_def Let_def)
  with failed_load [OF this f] show ?thesis by blast
qed

section \<open>Registry, tunnels, settings and rows\<close>

text \<open>C34: the address of a request on one hop has the action and the hop as its last two segments,
  whatever characters the identifier has, and the identifier comes back from it.\<close>

theorem chain_hop_address:
  "js_split (CHR ''/'') (request_url (chain_update i patch)) = [[], ''panel'', ''api'', ''chain'', ''update'', encoded i]
   \<and> js_split (CHR ''/'') (request_url (chain_del i force skipDrain)) = [[], ''panel'', ''api'', ''chain'', ''del'', encoded i]
   \<and> decodeURIComponent (encoded i) = Some (js_str i)"
  using hop_segments [of "''update''" i] hop_segments [of "''del''" i] hop_id [of i]
  by (simp add: chain_update_def chain_del_def)

text \<open>C35: the tunnel models. An empty answer gives the defaults of the kind; every answer gives an object
  with the members of that one, each determined by the answer's: numbers of the obfuscation, its packets, the switch and the
  keepalive of a client keep any value that is there, also 0 and \<open>false\<close>; the four headers keep its text; any other member
  keeps a truthy value and has the default otherwise. An object that was saved as JSON and read again is the same.\<close>

theorem tunnel_models_members:
  assumes "json_ok (JObj data)"
  shows "TunnelServer ''awg'' [] = awg_new_server \<and> TunnelServer ''wg'' [] = wg_new_server \<and> TunnelClient [] = new_client
    \<and> map fst (TunnelServer kind data) = map fst (TunnelServer kind [])
    \<and> (\<forall>k \<in> fst ` set (TunnelServer kind []). oget (TunnelServer kind data) k
        = member_of kept_by_server texts_of_server k (oget data k) (oget (TunnelServer kind []) k))
    \<and> map fst (TunnelClient data) = map fst new_client
    \<and> (\<forall>k \<in> fst ` set new_client. oget (TunnelClient data) k
        = member_of kept_by_client [] k (oget data k) (oget new_client k))
    \<and> TunnelServer kind (wire_props (TunnelServer kind data)) = TunnelServer kind data
    \<and> TunnelClient (wire_props (TunnelClient data)) = TunnelClient data"
  using new_objects server_members [of _ kind data] client_members [of _ data] members_fixed(1) [of kind data]
    members_fixed(2) [of data] server_saved [OF assms, of kind] client_saved [OF assms]
  unfolding new_objects(3) by blast

lemma tunnel_models_members_witness:
  "oget (TunnelServer ''awg'' [(''jc'', JNum 0), (''mtu'', JNum 0)]) ''jc'' = JNum 0
    \<and> oget (TunnelServer ''awg'' [(''jc'', JNum 0), (''mtu'', JNum 0)]) ''mtu'' = JNum 1420"
proof -
  have "json_ok (JObj [(''jc'', JNum 0), (''mtu'', JNum 0)])" by simp
  note all = tunnel_models_members [OF this, where kind = "''awg''"]
  have keys: "''jc'' \<in> fst ` set (TunnelServer ''awg'' [])" "''mtu'' \<in> fst ` set (TunnelServer ''awg'' [])"
    unfolding new_objects(1) awg_new_server_def by simp_all
  have "oget (TunnelServer ''awg'' []) ''jc'' = JNum 4" "oget (TunnelServer ''awg'' []) ''mtu'' = JNum 1420"
    unfolding new_objects(1) by code_simp+
  note new = this
  note member = all [THEN conjunct2, THEN conjunct2, THEN conjunct2, THEN conjunct2, THEN conjunct1, rule_format]
  have "member_of kept_by_server texts_of_server ''jc'' (oget [(''jc'', JNum 0), (''mtu'', JNum 0)] ''jc'') (JNum 4) = JNum 0"
    "member_of kept_by_server texts_of_server ''mtu'' (oget [(''jc'', JNum 0), (''mtu'', JNum 0)] ''mtu'') (JNum 1420) = JNum 1420"
    by code_simp+
  then show ?thesis unfolding member [OF keys(1)] member [OF keys(2)] new by blast
qed

text \<open>C36: the settings form has exactly the members of the defaults; filled with its own content it is
  the same form; and the comparison that enables the save button tells two forms of plain values apart
  exactly if they differ.\<close>

theorem settings_form_comparison:
  assumes "distinct (map fst data)" "distinct (map fst data')" "list_all (\<lambda>e. primitive (snd e)) data"
  shows "map fst (AllSetting (JObj data)) = map fst setting_defaults
    \<and> AllSetting (JObj (AllSetting (JObj data))) = AllSetting (JObj data)
    \<and> (AllSetting_equals same (AllSetting (JObj data)) (AllSetting (JObj data'))
        \<longleftrightarrow> AllSetting (JObj data) = AllSetting (JObj data'))"
  using setting_keys setting_again [OF assms(1)] setting_equals_iff [OF _ assms(1,2)] assms(3)
  by (simp only: list_all_iff simp_thms)

lemma settings_form_comparison_witness:
  "AllSetting_equals (\<lambda>a b. False) (AllSetting (JObj [(''webPort'', JNum 1)])) (AllSetting (JObj []))
    \<longleftrightarrow> AllSetting (JObj [(''webPort'', JNum 1)]) = AllSetting (JObj [])"
proof -
  have d: "distinct (map fst [(''webPort'', JNum 1)])" "distinct (map fst ([] :: props))"
    "list_all (\<lambda>e. primitive (snd e)) [(''webPort'', JNum 1)]" by simp_all
  show ?thesis by (rule settings_form_comparison [OF d, THEN conjunct2, THEN conjunct2])
qed

text \<open>C37: the table and the form agree on an inbound: the inbound made of a row has its protocol, the
  port its links carry and whether it is relocated; and until the cache is dropped the row gives the
  same inbound again without drawing anything.\<close>

theorem row_and_form_agree:
  assumes "distinct (map fst data)" "toInbound d parse (DBInbound_new (JObj data)) = Some (i, r)"
  shows "linkPort i = row_linkPort r \<and> isRelocated i = row_isRelocated r
    \<and> ib_protocol i = col r ''protocol'' \<and> toInbound d' parse' r = Some (i, r)"
proof -
  let ?this = "DBInbound_new (JObj data)"
  note c = toInbound_cache [OF assms(2) new_cache]
  note agree = row_agrees [OF new_cache assms(2) link_columns [THEN row_defined [OF assms(1)]]]
  have "ib_port i = col r ''port''" "ib_publicPort i = col r ''publicPort''" "ib_protocol i = col r ''protocol''"
    using agree(1-3) by (simp_all only: col_def c(3))
  with toInbound_again [OF c(2)] show ?thesis
    by (simp add: linkPort_def row_linkPort_def isRelocated_def row_isRelocated_def)
qed

definition sample_row :: props where
  "sample_row = [(''protocol'', JStr ''http''), (''port'', JNum 80), (''publicPort'', JNum 443)]"

lemma sample_row_read:
  "(case row_config (\<lambda>s. None) (DBInbound_new (JObj sample_row)) of None \<Rightarrow> False
     | Some c \<Rightarrow> (case Inbound_fromJson sample_draw c of None \<Rightarrow> False | Some i \<Rightarrow> True))"
  by code_simp

lemma row_and_form_agree_witness:
  "\<exists>i r. toInbound sample_draw (\<lambda>s. None) (DBInbound_new (JObj sample_row)) = Some (i, r)
    \<and> linkPort i = row_linkPort r"
proof -
  obtain i r where "toInbound sample_draw (\<lambda>s. None) (DBInbound_new (JObj sample_row)) = Some (i, r)"
    using sample_row_read by (auto simp: toInbound_def DBInbound_new_def split: option.splits)
  moreover have "distinct (map fst sample_row)" by (simp add: sample_row_def)
  ultimately show ?thesis using row_and_form_agree [of sample_row] by blast
qed

section \<open>Browser helpers\<close>

text \<open>C38: a cookie that was set is read back with its value, whatever characters it has, and every
  other cookie keeps its value.\<close>

theorem cookie_read_back:
  assumes "jar_ok jar" "trimmed jar" "plain_name n" "plain_name m" "0 \<le> exdays"
  shows "getCookie m (setCookie n v exdays date jar) = (if m = n then Some v else getCookie m jar)"
  by (rule cookie_comes_back [OF assms])

lemma cookie_read_back_witness:
  "getCookie ''lang'' (setCookie ''lang'' ''a;b =c'' 3 ''d'' [(''session'', ''x'')]) = Some ''a;b =c''"
  using cookie_read_back [of "[(''session'', ''x'')]" "''lang''" "''lang''" 3 "''a;b =c''" "''d''"]
  by (simp add: jar_ok_def plain_cookie_def plain_name_def trimmed_def is_space_def)



text \<open>C40: of a burst of calls of a debounced function, however many came before, exactly one timeout is
  pending, and when it fires the function is called once, with the arguments of the last call.\<close>

theorem debounce_calls_last:
  assumes "debounce_reachable f"
  shows "\<exists>t. pending_calls (burst (argss @ [args]) f) = [(t, args)]
    \<and> fn_calls (fire_timeout t (burst (argss @ [args]) f)) = fn_calls f @ [args]"
  by (rule burst_once [OF assms])

lemma debounce_calls_last_witness:
  "\<exists>t. fn_calls (fire_timeout t (burst ([1, 2] @ [3]) debounce)) = [3 :: nat]"
  using debounce_calls_last [OF debounce_reachable.start, of "[1, 2]" "3 :: nat"] by (auto simp: debounce_def)

section \<open>The outbound form\<close>

text \<open>C3: opening an outbound document, saving it, and opening and saving what was saved changes
  nothing.\<close>

theorem outbound_open_save_open_save:
  assumes "outbound_doc j" "Outbound_fromJson j = Some x" "Outbound_toJson x = Some s"
  shows "\<exists>y. Outbound_fromJson (wire s) = Some y \<and> map_option wire (Outbound_toJson y) = Some (wire s)"
  using Outbound_view [OF Outbound_fromJson_ok [OF assms(1,2)] assms(3)] by auto

definition sample_out_doc :: jsval where
  "sample_out_doc = JObj [(''protocol'', JStr ''vless''), (''tag'', JStr ''proxy''),
     (''settings'', JObj [(''address'', JStr ''h.com''), (''port'', JNum 443), (''id'', JStr ''u1''),
        (''flow'', JStr []), (''encryption'', JStr ''none'')]),
     (''streamSettings'', JObj [(''network'', JStr ''ws''), (''security'', JStr ''tls'')]),
     (''mux'', JObj [(''enabled'', JBool True)])]"

lemma sample_out_doc_ok: "outbound_doc sample_out_doc"
  by (simp add: outbound_doc_def sample_out_doc_def out_settings_doc_def out_stream_doc_def out_hysteria_doc_def
      finalmask_doc_def)

lemma sample_out_saved:
  "(case Outbound_fromJson sample_out_doc of None \<Rightarrow> False | Some x \<Rightarrow> Outbound_toJson x \<noteq> None)"
  by code_simp

definition sample_outbound :: Outbound where
  "sample_outbound = the (Outbound_fromJson sample_out_doc)"

lemma sample_outbound:
  "Outbound_fromJson sample_out_doc = Some sample_outbound"
  "Outbound_toJson sample_outbound = Some (the (Outbound_toJson sample_outbound))"
  using sample_out_saved by (auto simp: sample_outbound_def split: option.splits)

lemma outbound_open_save_open_save_witness:
  "\<exists>y. Outbound_fromJson (wire (the (Outbound_toJson sample_outbound))) = Some y
    \<and> map_option wire (Outbound_toJson y) = Some (wire (the (Outbound_toJson sample_outbound)))"
  by (rule outbound_open_save_open_save [OF sample_out_doc_ok sample_outbound])

text \<open>C4: in every state of the outbound form, also after a link was imported, the settings are those
  of the protocol, and there are none exactly for an unknown protocol. Asking for the multiplexing
  switch throws only then; with a flow or over XHTTP the switch is refused and turned off.\<close>

theorem outbound_form_invariant:
  assumes "outbound_reachable x"
  shows "(\<forall>s. ob_settings x = Some s \<longrightarrow> ob_protocol x = JStr (out_protocol_of s))
    \<and> (ob_settings x = None \<longleftrightarrow> ob_protocol x \<notin> JStr ` set OutProtocols)
    \<and> (canEnableMux x = None \<longleftrightarrow> ob_settings x = None)
    \<and> (\<forall>b y. canEnableMux x = Some (b, y)
        \<and> (os_network (ob_stream x) = JStr ''xhttp'' \<or> truthy (settings_flow (ob_settings x))) \<longrightarrow>
        outbound_reachable y \<and> \<not> b \<and> mux_enabled (ob_mux y) = JBool False)"
proof (intro conjI)
  have wf: "out_match (ob_protocol x) (ob_settings x)"
    using outbound_reachable_wf [OF assms] by (simp add: Outbound_wf_def)
  then show "\<forall>s. ob_settings x = Some s \<longrightarrow> ob_protocol x = JStr (out_protocol_of s)"
    by (auto simp: out_match_def)
  show "ob_settings x = None \<longleftrightarrow> ob_protocol x \<notin> JStr ` set OutProtocols"
    using wf out_protocol_of_in by (auto simp: out_match_def split: option.splits)
  show "canEnableMux x = None \<longleftrightarrow> ob_settings x = None"
    by (rule canEnableMux_throws)
  show "\<forall>b y. canEnableMux x = Some (b, y)
        \<and> (os_network (ob_stream x) = JStr ''xhttp'' \<or> truthy (settings_flow (ob_settings x))) \<longrightarrow>
        outbound_reachable y \<and> \<not> b \<and> mux_enabled (ob_mux y) = JBool False"
    using canEnableMux_off outbound_reachable.out_step [OF assms outbound_step.out_draw] by blast
qed

lemma outbound_form_invariant_witness:
  "ob_protocol sample_outbound = JStr ''vless'' \<and> canEnableMux sample_outbound \<noteq> None"
proof -
  have "(case Outbound_fromJson sample_out_doc of None \<Rightarrow> False
      | Some x \<Rightarrow> settings_flow (ob_settings x) = JStr [] \<and> ob_protocol x = JStr ''vless'')" by code_simp
  then have "ob_protocol sample_outbound = JStr ''vless''" by (auto simp: sample_outbound(1))
  with outbound_form_invariant [OF out_load [OF sample_outbound(1)]] show ?thesis
    by (auto simp: OutProtocols_def)
qed

text \<open>C5: the VLESS link of an inbound, imported on a page that has the global variable the importer
  writes, is an outbound to the link's address and port, with its identifier, flow, encryption,
  network, security and remark. The browser's \<open>URL\<close> is assumed to read back what it wrote, and to
  leave no colon, at sign or line break after the port.\<close>

theorem vless_link_imports:
  fixes address id remark :: string and port :: nat
  assumes "genVLESSLink br this (JStr address) (JNum (int port)) forceTls remark (JStr id) flow = Some text"
    and "vless_params br this forceTls flow = Some ps"
    and "url_text env (link_text ''vless'' (JStr id) (JStr address) (JNum (int port)))
      (map (\<lambda>(k, v). (k, js_str v)) ps) (encodeURIComponent remark) text"
    and "plain_user id" "plain_address address"
    and "ss_network (ib_stream this) = JStr network" "settings_encryption (ib_settings this) = Some (JStr encryption)"
  shows "\<exists>stream. fromLink True env text = Some (Some \<lparr>
      ob_tag = JStr (if remark = [] then ''out-vless-'' @ int_str (int port) else remark),
      ob_protocol = JStr ''vless'',
      ob_settings = Some (VlessO (OutVLESSSettings_new (JStr address) (JNum (int port)) (JStr id)
        (JStr (if loosely (JStr network) ''tcp'' \<and> \<not> isEmpty flow
            \<and> (chosen_security forceTls this = JStr ''reality''
              \<or> chosen_security forceTls this = JStr ''tls'' \<and> isTls (ib_stream this))
          then js_str flow else [])) (JStr encryption) JUndef JUndef JUndef)),
      ob_stream = stream, ob_sendThrough = JUndef, ob_mux = Mux_new JUndef JUndef JUndef JUndef\<rparr>)
    \<and> os_network stream = JStr network \<and> os_security stream = JStr (security_name (chosen_security forceTls this))"
  by (rule vless_link_imported [OF assms])

definition sample_link :: string where
  "sample_link = ''vless://u1@h.com:443#r''"

definition sample_link_env :: link_env where
  "sample_link_env = \<lparr>le_url = (\<lambda>t. Some (map (\<lambda>(k, v). (k, js_str v))
       (the (vless_params sample_browser sample_vless (JStr ''same'') (JStr ''v''))), ''#r'')),
     le_params = (\<lambda>t. []), le_atob = Some, le_parse = (\<lambda>t. None)\<rparr>"

lemma sample_vless_fields:
  "ss_network (ib_stream sample_vless) = JStr ''tcp''"
  "settings_encryption (ib_settings sample_vless) = Some (JStr ''none'')"
proof -
  have "(case Inbound_fromJson sample_draw sample_vless_doc of None \<Rightarrow> False
     | Some x \<Rightarrow> ss_network (ib_stream x) = JStr ''tcp''
         \<and> settings_encryption (ib_settings x) = Some (JStr ''none''))" by code_simp
  then show "ss_network (ib_stream sample_vless) = JStr ''tcp''"
    "settings_encryption (ib_settings sample_vless) = Some (JStr ''none'')"
    by (auto simp: sample_vless_def split: option.splits)
qed

lemma sample_link_text:
  "encodeURIComponent ''r'' = ''r''"
  "link_text ''vless'' (JStr ''u1'') (JStr ''h.com'') (JNum 443) = ''vless://u1@h.com:443''"
  "after_port (drop (length ''vless://u1@h.com:443'') sample_link)"
  "starts_with sample_link ''vless://u1@h.com:443''"
  "plain_user ''u1''" "plain_address ''h.com''"
  by code_simp+

lemma vless_link_imports_witness:
  "\<exists>x. fromLink True sample_link_env sample_link = Some (Some x) \<and> ob_tag x = JStr ''r''"
proof -
  obtain ps where ps: "vless_params sample_browser sample_vless (JStr ''same'') (JStr ''v'') = Some ps"
    using sample_vless_links(1) by blast
  have url: "br_url sample_browser link user qs hash = Some (link @ ''#'' @ hash)" for link user qs hash
    by (simp add: sample_browser_def)
  have "genVLESSLink sample_browser sample_vless (JStr ''h.com'') (JNum (int 443)) (JStr ''same'') ''r'' (JStr ''u1'')
      (JStr ''v'') = Some sample_link"
    using sample_link_text(1,2) by (simp add: genVLESSLink_def build_url_def url ps sample_link_def dflt_def)
  moreover have "url_text sample_link_env (link_text ''vless'' (JStr ''u1'') (JStr ''h.com'') (JNum (int 443)))
      (map (\<lambda>(k, v). (k, js_str v)) ps) (encodeURIComponent ''r'') sample_link"
    using sample_link_text(1-4) by (simp add: url_text_def sample_link_env_def ps)
  ultimately show ?thesis
    using vless_link_imports [OF _ ps _ sample_link_text(5,6) sample_vless_fields] by fastforce
qed





section \<open>VMess links\<close>

text \<open>C6: the VMess link of an inbound, imported on a page that has the global variable the importer
  writes, is an outbound to the link's address and port with its identifier, cipher, network, security,
  remark and server name, and with what the link carries of the transport: the camouflage of TCP with the path and
  host of its request, path and host of WebSocket, HTTPUpgrade and XHTTP, the service, authority and mode of gRPC, the
  times of KCP. The mode of XHTTP does not come back: it is the default one whatever the inbound has. \<open>btoa\<close> and
  \<open>atob\<close> are those of the language; \<open>JSON.parse\<close> is assumed to read back the object that was written.\<close>

theorem vmess_link_imports:
  fixes address id remark network tls :: string and port :: int
  assumes "genVmessLink br this (JStr address) (JNum port) forceTls remark (JStr id) security = Some text"
    and "vmess_obj this (JStr address) (JNum port) forceTls remark (JStr id) security = Some obj"
    and "ib_protocol this = JStr ''vmess''"
    and "br_btoa br = js_btoa" "le_atob env = js_atob_text"
    and "le_parse env (stringify_flat obj) = Some (wire (JObj obj))"
    and "ss_network (ib_stream this) = JStr network" "chosen_security forceTls this = JStr tls"
  shows "\<exists>stream. fromLink True env text = Some (Some \<lparr>
      ob_tag = JStr remark, ob_protocol = JStr ''vmess'',
      ob_settings = Some (VmessO (OutVmessSettings_new (JStr address) (JNum port) (JStr id) (wire security))),
      ob_stream = stream, ob_sendThrough = JUndef, ob_mux = Mux_new JUndef JUndef JUndef JUndef\<rparr>)
    \<and> os_network stream = JStr network \<and> os_security stream = JStr tls
    \<and> vmess_imported (ib_stream this) stream
    \<and> (tls = ''tls'' \<longrightarrow> otls_serverName (os_tls stream)
        = (if isEmpty (tls_sni (ss_tls (ib_stream this))) then JStr [] else wire (tls_sni (ss_tls (ib_stream this)))))"
  by (rule vmess_link_imported [OF assms])

definition vmess_browser :: browser where
  "vmess_browser = sample_browser\<lparr>br_btoa := js_btoa\<rparr>"

definition sample_vmess_obj :: "Inbound \<Rightarrow> props option" where
  "sample_vmess_obj x =
     vmess_obj x (JStr ''h.com'') (JNum 443) (JStr ''same'') [CHR 0xE9] (JStr ''u1'') (JStr ''auto'')"

definition vmess_env :: "jsval \<Rightarrow> link_env" where
  "vmess_env v = \<lparr>le_url = (\<lambda>t. None), le_params = (\<lambda>t. []), le_atob = js_atob_text, le_parse = (\<lambda>t. Some v)\<rparr>"

lemma sample_vmess_facts:
  "ib_protocol sample_inbound = JStr ''vmess''" "ss_network (ib_stream sample_inbound) = JStr ''grpc''"
  "chosen_security (JStr ''same'') sample_inbound = JStr ''none''"
  "sample_vmess_obj sample_inbound = Some (the (sample_vmess_obj sample_inbound))"
proof -
  have "(case Inbound_fromJson sample_draw sample_doc of None \<Rightarrow> False
     | Some x \<Rightarrow> ib_protocol x = JStr ''vmess'' \<and> ss_network (ib_stream x) = JStr ''grpc''
         \<and> chosen_security (JStr ''same'') x = JStr ''none'' \<and> sample_vmess_obj x \<noteq> None)"
    by code_simp
  then show "ib_protocol sample_inbound = JStr ''vmess''" "ss_network (ib_stream sample_inbound) = JStr ''grpc''"
    "chosen_security (JStr ''same'') sample_inbound = JStr ''none''"
    "sample_vmess_obj sample_inbound = Some (the (sample_vmess_obj sample_inbound))"
    by (auto simp: sample_read)
qed

lemma sample_vmess_made:
  "\<exists>text. genVmessLink vmess_browser sample_inbound (JStr ''h.com'') (JNum 443) (JStr ''same'') [CHR 0xE9] (JStr ''u1'')
    (JStr ''auto'') = Some text"
  using sample_vmess_facts(1,4) by (simp add: genVmessLink_def dflt_def sample_vmess_obj_def) blast

lemma vmess_link_imports_witness:
  "\<exists>link x. genVmessLink vmess_browser sample_inbound (JStr ''h.com'') (JNum 443) (JStr ''same'') [CHR 0xE9] (JStr ''u1'')
      (JStr ''auto'') = Some link
    \<and> fromLink True (vmess_env (wire (JObj (the (sample_vmess_obj sample_inbound))))) link = Some (Some x)
    \<and> ob_tag x = JStr [CHR 0xE9] \<and> os_network (ob_stream x) = JStr ''grpc''"
proof -
  let ?obj = "the (sample_vmess_obj sample_inbound)"
  obtain link where t: "genVmessLink vmess_browser sample_inbound (JStr ''h.com'') (JNum 443) (JStr ''same'') [CHR 0xE9]
    (JStr ''u1'') (JStr ''auto'') = Some link" using sample_vmess_made by blast
  have "br_btoa vmess_browser = js_btoa" "le_atob (vmess_env (wire (JObj ?obj))) = js_atob_text"
    "le_parse (vmess_env (wire (JObj ?obj))) (stringify_flat ?obj) = Some (wire (JObj ?obj))"
    by (simp_all add: vmess_browser_def vmess_env_def)
  note e = this
  have o: "vmess_obj sample_inbound (JStr ''h.com'') (JNum 443) (JStr ''same'') [CHR 0xE9] (JStr ''u1'') (JStr ''auto'')
      = Some ?obj" using sample_vmess_facts(4) by (simp only: sample_vmess_obj_def)
  show ?thesis
    using vmess_link_imports [OF t o sample_vmess_facts(1) e sample_vmess_facts(2,3)] t by (elim exE conjE) auto
qed

section \<open>Subscription page\<close>

text \<open>C23: the subscription page shows a VMess link of the panel under the bytes of its remark, each byte
  as a character, which is the remark exactly if that is ASCII; a VLESS, Trojan or Shadowsocks link is
  shown under its remark whatever characters it has.\<close>

theorem subscription_link_names:
  fixes remark :: string and id :: jsval
  assumes "genVmessLink br this address port forceTls remark id security = Some text"
    and "vmess_obj this (dflt (JStr []) address) (dflt (linkPort this) port) forceTls remark id security = Some obj"
    and "ib_protocol this = JStr ''vmess''" "remark \<noteq> []"
    and "br_btoa br = js_btoa" "le_atob env = js_atob_text"
    and "le_parse env (stringify_flat (utf8_props obj)) = Some (wire (JObj (utf8_props obj)))"
  shows "linkName env text idx = JStr (utf8 remark)
    \<and> (linkName env text idx = JStr remark \<longleftrightarrow> (\<forall>c \<in> set remark. (of_char c :: nat) < 128))
    \<and> (\<forall>scheme \<in> {''vless://'', ''trojan://'', ''ss://''}. \<forall>s. CHR ''#'' \<notin> set s \<longrightarrow>
        linkName env (scheme @ s @ CHR ''#'' # encodeURIComponent remark) idx = JStr remark)"
  using vmess_link_label [OF assms, of idx] utf8_same [of remark] linkName_fragment by auto

lemma subscription_link_names_witness:
  "\<exists>link. genVmessLink vmess_browser sample_inbound (JStr ''h.com'') (JNum 443) (JStr ''same'') [CHR 0xE9]
      (JStr ''u1'') (JStr ''auto'') = Some link
    \<and> linkName (vmess_env (wire (JObj (utf8_props (the (sample_vmess_obj sample_inbound)))))) link 0
      = JStr [CHR 0xC3, CHR 0xA9]"
proof -
  let ?obj = "the (sample_vmess_obj sample_inbound)"
  obtain link where t: "genVmessLink vmess_browser sample_inbound (JStr ''h.com'') (JNum 443) (JStr ''same'') [CHR 0xE9]
    (JStr ''u1'') (JStr ''auto'') = Some link" using sample_vmess_made by blast
  have e: "br_btoa vmess_browser = js_btoa" "le_atob (vmess_env (wire (JObj (utf8_props ?obj)))) = js_atob_text"
    "le_parse (vmess_env (wire (JObj (utf8_props ?obj)))) (stringify_flat (utf8_props ?obj)) = Some (wire (JObj (utf8_props ?obj)))"
    by (simp_all add: vmess_browser_def vmess_env_def)
  have o: "vmess_obj sample_inbound (dflt (JStr []) (JStr ''h.com'')) (dflt (linkPort sample_inbound) (JNum 443))
      (JStr ''same'') [CHR 0xE9] (JStr ''u1'') (JStr ''auto'') = Some ?obj"
    using sample_vmess_facts(4) by (simp add: sample_vmess_obj_def dflt_def)
  have "utf8 [CHR 0xE9] = [CHR 0xC3, CHR 0xA9]" by code_simp
  then show ?thesis
    using subscription_link_names [OF t o sample_vmess_facts(1) _ e, of 0] t by auto
qed

section \<open>Random passwords\<close>

text \<open>C15: the password the form draws for a Shadowsocks method is the base 64 text of as many drawn bytes
  as the key of the method has: 16 for the 2022 cipher with AES-128, and 32 for every other.\<close>

theorem shadowsocks_password_is_key:
  assumes "list_all is_byte bytes" "32 \<le> length bytes"
  shows "js_atob (randomShadowsocksPassword js_btoa bytes m)
      = Some (take (if m = JStr ''2022-blake3-aes-128-gcm'' then 16 else 32) bytes)
    \<and> length (randomShadowsocksPassword js_btoa bytes m) = (if m = JStr ''2022-blake3-aes-128-gcm'' then 24 else 44)"
  using random_password [OF assms] by blast

lemma shadowsocks_password_is_key_witness:
  "js_atob (randomShadowsocksPassword js_btoa (replicate 32 200) JUndef) = Some (replicate 32 200)"
  using shadowsocks_password_is_key [of "replicate 32 200" JUndef] by (simp add: is_byte_def list_all_iff)

section \<open>Requests\<close>

text \<open>C32: every request that changes the chain reaches the network as the JSON text of its body, while
  the same body sent with a plain \<open>post\<close> would be form encoded.\<close>

theorem chain_writes_are_json:
  assumes "merges_headers merge"
    and "write \<in> {chain_add (JObj ps), chain_update i (JObj ps), chain_del i force skipDrain, chain_setActive i,
      chain_clearActive, chain_reissueToken i}"
  shows "\<exists>url v. write = PostJson url v
    \<and> map_option ax_data (request_interceptor qs (axios_config_of merge (send_chain write))) = Some (Value (JStr (stringify v)))
    \<and> map_option ax_data (request_interceptor qs (axios_config_of merge (http_post url (Value v) []))) = Some (Value (JStr (qs v)))"
proof -
  obtain url qs' where w: "write = PostJson url (JObj qs')"
    using assms(2) by (auto simp: chain_add_def chain_update_def chain_del_def chain_setActive_def chain_clearActive_def
        chain_reissueToken_def)
  have "oget [] ''headers'' = JUndef" by simp
  with w postJson_json [OF assms(1), of "JObj qs'"] post_form_encoded [OF assms(1)] show ?thesis by simp
qed

lemma sample_merge: "merges_headers (\<lambda>method hs. hs @ default_common_headers @ default_post_headers)"
  by (auto simp: merges_headers_def oget_def default_common_headers_def default_post_headers_def
      map_add_def split: option.split)

lemma chain_writes_are_json_witness:
  "map_option ax_data (request_interceptor (\<lambda>v. []) (axios_config_of
      (\<lambda>method hs. hs @ default_common_headers @ default_post_headers) (send_chain (chain_setActive (JNum 3)))))
    = Some (Value (JStr ''{}''))"
proof -
  obtain url v where "chain_setActive (JNum 3) = PostJson url v"
    and sent: "map_option ax_data (request_interceptor (\<lambda>v. []) (axios_config_of
      (\<lambda>method hs. hs @ default_common_headers @ default_post_headers) (send_chain (chain_setActive (JNum 3)))))
        = Some (Value (JStr (stringify v)))"
    using chain_writes_are_json [OF sample_merge, of "chain_setActive (JNum 3)" "[]" "JNum 3" JUndef JUndef "\<lambda>v. []"] by blast
  then have "v = emptyObj" by (simp add: chain_setActive_def del: append_Cons)
  moreover have "stringify emptyObj = ''{}''" by code_simp
  ultimately have "stringify v = ''{}''" by simp
  with sent show ?thesis by simp
qed

section \<open>Times\<close>

text \<open>C33: the stamp of a chain event is the date, the hour and the minute of its time in universal time,
  for every time of the years 0 to 9999: day 0 is the first of January 1970, and each day has the date
  after that of the day before, by the lengths of the months and the rule of the leap years.\<close>

theorem chain_stamp_is_date:
  assumes "ms \<noteq> 0" "date_of_day (ms div 86400000) = (y, m, d)" "0 \<le> y" "y \<le> 9999"
  shows "date_of_day 0 = (1970, 1, 1) \<and> date_of_day (n + 1) = next_date (date_of_day n)
    \<and> chain_stamp ms = Some (pad_zeros 4 (int_str y) @ ''-'' @ two_digits m @ ''-'' @ two_digits d @ '' ''
      @ two_digits (ms mod 86400000 div 3600000) @ '':'' @ two_digits (ms mod 86400000 div 60000 mod 60) @ '' UTC'')"
  using date_of_day_0 date_of_day_next chain_stamp_text [OF assms] by blast

lemma chain_stamp_is_date_witness: "chain_stamp 1789992000000 = Some ''2026-09-21 12:00 UTC''"
proof -
  have "date_of_day (1789992000000 div 86400000) = (2026, 9, 21)" by code_simp
  from chain_stamp_is_date [OF _ this, of 0] have "chain_stamp 1789992000000 = Some (pad_zeros 4 (int_str 2026)
      @ ''-'' @ two_digits 9 @ ''-'' @ two_digits 21 @ '' '' @ two_digits 12 @ '':'' @ two_digits 0 @ '' UTC'')" by simp
  moreover have "pad_zeros 4 (int_str 2026) @ ''-'' @ two_digits 9 @ ''-'' @ two_digits 21 @ '' '' @ two_digits 12
      @ '':'' @ two_digits 0 @ '' UTC'' = ''2026-09-21 12:00 UTC''" by code_simp
  ultimately show ?thesis by simp
qed

end
